(* ===== verification/Prelude.thy ===== *)
theory Prelude
  imports Main "HOL-Library.Word" "HOL-Library.Monad_Syntax"
begin

text \<open>
  What the component theories share: the collections of automation rules, C's signed
  32-bit arithmetic with its undefined overflow as \<open>None\<close>, decimal printing, NUL
  terminated strings in character buffers, and the bookkeeping of loops with \<open>break\<close>.

  Undefined behaviour and memory faults are the value \<open>None\<close> everywhere in the
  development: a function of result type \<open>'a option\<close> returns \<open>Some\<close> exactly when
  the C code runs to completion without touching memory it does not own, without
  overflowing a signed integer and without dividing by zero.
\<close>

section \<open>Automation collections\<close>

named_theorems heap_simps \<open>reads after writes on the list heap\<close>
named_theorems c_simps \<open>evaluation of C integer operations\<close>
named_theorems buf_simps \<open>lengths and contents of character buffers\<close>

section \<open>Signed C integers\<close>

text \<open>
  An \<open>int\<close> of the code is a 32-bit two's complement value. Signed overflow is undefined,
  so an operation returns \<open>None\<close> where the mathematical result does not fit.
\<close>

definition in_int :: "int \<Rightarrow> bool" where
  "in_int i \<longleftrightarrow> - 2147483648 \<le> i \<and> i \<le> 2147483647"

definition c_int :: "int \<Rightarrow> int option" where
  "c_int i = (if in_int i then Some i else None)"

definition c_add :: "int \<Rightarrow> int \<Rightarrow> int option" where
  "c_add a b = c_int (a + b)"

definition c_sub :: "int \<Rightarrow> int \<Rightarrow> int option" where
  "c_sub a b = c_int (a - b)"

definition c_mul :: "int \<Rightarrow> int \<Rightarrow> int option" where
  "c_mul a b = c_int (a * b)"

text \<open>Division truncates towards zero; a zero divisor and \<open>INT_MIN / -1\<close> are undefined.\<close>

definition tdiv :: "int \<Rightarrow> int \<Rightarrow> int" where
  "tdiv a b = sgn a * sgn b * (\<bar>a\<bar> div \<bar>b\<bar>)"

definition tmod :: "int \<Rightarrow> int \<Rightarrow> int" where
  "tmod a b = a - b * tdiv a b"

definition c_div :: "int \<Rightarrow> int \<Rightarrow> int option" where
  "c_div a b = (if b = 0 then None else c_int (tdiv a b))"

definition c_mod :: "int \<Rightarrow> int \<Rightarrow> int option" where
  "c_mod a b = (if b = 0 then None else Option.bind (c_int (tdiv a b)) (\<lambda>_. Some (tmod a b)))"

lemma c_int_Some [c_simps]: "c_int i = Some j \<longleftrightarrow> in_int i \<and> j = i"
  by (auto simp: c_int_def)

lemma c_sub_Some [c_simps]: "c_sub a b = Some j \<longleftrightarrow> in_int (a - b) \<and> j = a - b"
  by (auto simp: c_sub_def c_simps)

lemma c_add_Some [c_simps]: "c_add a b = Some j \<longleftrightarrow> in_int (a + b) \<and> j = a + b"
  by (auto simp: c_add_def c_simps)

lemma c_mul_Some [c_simps]: "c_mul a b = Some j \<longleftrightarrow> in_int (a * b) \<and> j = a * b"
  by (auto simp: c_mul_def c_simps)

lemma tdiv_nonneg: "0 \<le> a \<Longrightarrow> 0 < b \<Longrightarrow> tdiv a b = a div b"
  by (cases "a = 0") (auto simp: tdiv_def)

lemma tmod_nonneg: "0 \<le> a \<Longrightarrow> 0 < b \<Longrightarrow> tmod a b = a mod b"
  by (simp add: tmod_def tdiv_nonneg minus_mult_div_eq_mod)

section \<open>Printing\<close>

text \<open>Decimal digits, most significant first, as the conversion \<open>%d\<close> and its kin print them.\<close>

fun digits_rev :: "nat \<Rightarrow> string" where
  "digits_rev n = (if n < 10 then [char_of (48 + n)]
     else char_of (48 + n mod 10) # digits_rev (n div 10))"

declare digits_rev.simps [simp del]

definition dec :: "nat \<Rightarrow> string" where
  "dec n = rev (digits_rev n)"

definition show_int :: "int \<Rightarrow> string" where
  "show_int i = (if i < 0 then ''-'' @ dec (nat (- i)) else dec (nat i))"

text \<open>\<open>std::to_chars\<close> into \<open>k\<close> characters, which adds no NUL; with too little room it gives an error.\<close>

definition to_chars :: "nat \<Rightarrow> int \<Rightarrow> string option" where
  "to_chars k i = (let t = show_int i in if length t \<le> k then Some t else None)"

lemma digits_rev_not_Nil [simp]: "digits_rev n \<noteq> []"
  by (subst digits_rev.simps) simp

lemma dec_not_Nil [simp]: "dec n \<noteq> []"
  by (simp add: dec_def)

lemma dec_small: "n < 10 \<Longrightarrow> dec n = [char_of (48 + n)]"
  by (simp add: dec_def digits_rev.simps)

lemma length_digits_rev: "n < 10 ^ k \<Longrightarrow> 0 < k \<Longrightarrow> length (digits_rev n) \<le> k"
proof (induction k arbitrary: n)
  case (Suc k)
  show ?case
  proof (cases "n < 10")
    case False
    then have "n div 10 < 10 ^ k" "0 < k" using Suc.prems(1) by (cases k; simp)+
    with False Suc.IH [of "n div 10"] show ?thesis by (subst digits_rev.simps) simp
  qed (simp add: digits_rev.simps)
qed simp

lemma length_dec: "n < 10 ^ k \<Longrightarrow> 0 < k \<Longrightarrow> length (dec n) \<le> k"
  by (simp add: dec_def length_digits_rev)

lemma set_digits_rev: "set (digits_rev n) \<subseteq> char_of ` {48..<58 :: nat}"
proof (induction n rule: digits_rev.induct)
  case (1 n)
  show ?case
  proof (cases "n < 10")
    case False
    then have "set (digits_rev n) = insert (char_of (48 + n mod 10)) (set (digits_rev (n div 10)))"
      by (subst digits_rev.simps) simp
    moreover have "48 + n mod 10 \<in> {48..<58}" by simp
    ultimately show ?thesis using 1 [OF False] by blast
  next
    case True
    then show ?thesis by (auto simp: digits_rev.simps intro!: imageI)
  qed
qed

lemma set_dec: "set (dec n) \<subseteq> char_of ` {48..<58 :: nat}"
  by (simp add: dec_def set_digits_rev)

text \<open>
  Hexadecimal digits, the least significant first; \<open>a\<close> is the code of the digit after 9, 97 for
  \<open>%x\<close> and 65 for \<open>%X\<close>.
\<close>

definition hex_digit :: "nat \<Rightarrow> nat \<Rightarrow> char" where
  "hex_digit a n = (if n < 10 then char_of (48 + n) else char_of (a + n - 10))"

fun hex_rev :: "nat \<Rightarrow> nat \<Rightarrow> string" where
  "hex_rev a n = (if n < 16 then [hex_digit a n] else hex_digit a (n mod 16) # hex_rev a (n div 16))"

declare hex_rev.simps [simp del]

section \<open>Characters\<close>

definition NUL :: char where "NUL = CHR 0x00"

lemma NUL_not_in_dec [simp]: "NUL \<notin> set (dec n)"
proof -
  have "NUL \<notin> char_of ` set [48..<58 :: nat]" by code_simp
  then show ?thesis using set_dec [of n] unfolding set_upt by blast
qed

lemma NUL_not_in_show_int [simp]: "NUL \<notin> set (show_int i)"
  by (auto simp: show_int_def) (simp_all add: NUL_def)

lemma length_show_int: "\<bar>i\<bar> < 10 ^ k \<Longrightarrow> 0 < k \<Longrightarrow> length (show_int i) \<le> Suc k"
proof -
  assume a: "\<bar>i\<bar> < 10 ^ k" "0 < k"
  then have "int (nat \<bar>i\<bar>) < int (10 ^ k)" by simp
  then have "nat \<bar>i\<bar> < 10 ^ k" by (simp only: of_nat_less_iff)
  with length_dec [of "nat \<bar>i\<bar>" k] a(2) show ?thesis by (cases "i < 0") (simp_all add: show_int_def)
qed

text \<open>The value of a signed \<open>char\<close>.\<close>

definition char_int :: "char \<Rightarrow> int" where
  "char_int c = (if (of_char c :: int) < 128 then of_char c else of_char c - 256)"

lemma char_int_digit: "n \<le> 9 \<Longrightarrow> nat (char_int (char_of (48 + n)) - 48) = n"
proof -
  have "\<forall>n \<in> set [0..<10]. nat (char_int (char_of (48 + n)) - 48) = n" by code_simp
  then show "n \<le> 9 \<Longrightarrow> ?thesis" by simp
qed

section \<open>Lists\<close>

lemma distinct_snoc_butlast: "distinct (xs @ [a]) \<Longrightarrow> a \<notin> set xs"
  by simp

lemma set_butlast_snoc [simp]: "set (butlast (xs @ [a])) = set xs"
  by simp

lemma in_set_tlD: "x \<in> set (tl xs) \<Longrightarrow> x \<in> set xs"
  by (cases xs) auto

lemma filter_neq_remove1: "distinct xs \<Longrightarrow> filter (\<lambda>y. y \<noteq> x) xs = remove1 x xs"
  by (simp add: distinct_remove1_removeAll removeAll_filter_not_eq neq_commute)

lemma find_first: "\<forall>x \<in> set pre. \<not> P x \<Longrightarrow> P y \<Longrightarrow> List.find P (pre @ y # post) = Some y"
  by (induction pre) auto

section \<open>Loops with break\<close>

text \<open>What one run of a loop body asks for: the next iteration, or leaving the loop.\<close>

datatype 's ctl = Next 's | Break 's

text \<open>The counting loop \<open>for (i = 0; i < n; i++)\<close> over a body that may fault.\<close>

primrec for_to :: "nat \<Rightarrow> (nat \<Rightarrow> 's \<Rightarrow> 's option) \<Rightarrow> 's \<Rightarrow> 's option" where
  "for_to 0 f s = Some s"
| "for_to (Suc n) f s = do { s \<leftarrow> for_to n f s; f n s }"

lemma for_to_rule:
  assumes "\<And>i s. i < n \<Longrightarrow> I i s \<Longrightarrow> \<exists>s'. f i s = Some s' \<and> I (Suc i) s'" "I 0 s"
  shows "\<exists>s'. for_to n f s = Some s' \<and> I n s'"
  using assms by (induction n) fastforce+

lemma for_to_cong: "(\<And>i s. i < n \<Longrightarrow> f i s = g i s) \<Longrightarrow> for_to n f s = for_to n g s"
proof (induction n)
  case (Suc n)
  then have "f n = g n" by auto
  with Suc show ?case by simp
qed simp

lemma for_to_None:
  assumes "\<And>i s. i < k \<Longrightarrow> I i s \<Longrightarrow> \<exists>s'. f i s = Some s' \<and> I (Suc i) s'" "I 0 s"
    and "\<And>s. I k s \<Longrightarrow> f k s = None" "k < n"
  shows "for_to n f s = None"
proof -
  from for_to_rule [of k I f s, OF assms(1,2)] assms(3) have "for_to (Suc k) f s = None" by auto
  then have "for_to (Suc k + m) f s = None" for m by (induction m) auto
  from this [of "n - Suc k"] assms(4) show ?thesis by simp
qed

text \<open>A loop over a list of values, in order.\<close>

primrec for_list :: "('a \<Rightarrow> 's \<Rightarrow> 's option) \<Rightarrow> 'a list \<Rightarrow> 's \<Rightarrow> 's option" where
  "for_list f [] s = Some s"
| "for_list f (x # xs) s = do { s \<leftarrow> f x s; for_list f xs s }"

lemma for_list_append: "for_list f (xs @ ys) s = do { s \<leftarrow> for_list f xs s; for_list f ys s }"
  by (induction xs arbitrary: s) simp_all

section \<open>Buffers of characters\<close>

text \<open>Writing some characters at an offset.\<close>

definition poke :: "string \<Rightarrow> nat \<Rightarrow> string \<Rightarrow> string option" where
  "poke buf off t = (if off + length t \<le> length buf then Some (take off buf @ t @ drop (off + length t) buf) else None)"

lemma poke_middle: "length t \<le> length junk \<Longrightarrow> poke (pre @ junk) (length pre) t = Some (pre @ t @ drop (length t) junk)"
  by (simp add: poke_def)

lemma poke_length: "poke buf off t = Some buf' \<Longrightarrow> length buf' = length buf"
  by (auto simp: poke_def split: if_splits)

lemma poke_length_Some [simp]: "off + length t \<le> length buf \<Longrightarrow> length (take off buf @ t @ drop (off + length t) buf) = length buf"
  by simp

text \<open>A loop that writes one character after the other.\<close>

lemma for_to_poke:
  assumes "wp + length t \<le> length d" "\<And>i d. i < length t \<Longrightarrow> f i d = poke d (wp + i) [t ! i]"
  shows "for_to (length t) f d = Some (take wp d @ t @ drop (wp + length t) d)"
proof -
  have "k \<le> length t \<Longrightarrow> for_to k f d = Some (take wp d @ take k t @ drop (wp + k) d)" for k
  proof (induction k)
    case (Suc k)
    then have k: "k < length t" "for_to k f d = Some (take wp d @ take k t @ drop (wp + k) d)" by simp_all
    have "poke (take wp d @ take k t @ drop (wp + k) d) (wp + k) [t ! k] = Some (take wp d @ take (Suc k) t @ drop (wp + Suc k) d)"
      using k(1) assms(1) by (simp add: poke_def min_def take_Suc_conv_app_nth)
    then show ?case using k assms(2) by simp
  qed simp
  from this [of "length t"] show ?thesis by simp
qed

text \<open>The string at the start of a buffer; without a NUL it runs past the end.\<close>

definition c_string :: "string \<Rightarrow> string option" where
  "c_string buf = (if NUL \<in> set buf then Some (takeWhile (\<lambda>c. c \<noteq> NUL) buf) else None)"

lemma c_string_middle: "NUL \<notin> set t \<Longrightarrow> c_string (t @ NUL # rest) = Some t"
  by (simp add: c_string_def) (induction t, auto)

text \<open>\<open>strncpy\<close> copies up to the NUL and fills up with NULs.\<close>

definition strncpy :: "string \<Rightarrow> nat \<Rightarrow> string" where
  "strncpy src count = (let t = takeWhile (\<lambda>c. c \<noteq> NUL) (take count src) in t @ replicate (count - length t) NUL)"

lemma length_strncpy [simp]: "length (strncpy src count) = count"
proof -
  have "length (takeWhile (\<lambda>c. c \<noteq> NUL) (take count src)) \<le> count" by (rule order_trans [OF length_takeWhile_le]) simp
  then show ?thesis by (simp add: strncpy_def Let_def)
qed

lemma c_string_strncpy: "c_string (strncpy src count @ NUL # rest) = Some (takeWhile (\<lambda>c. c \<noteq> NUL) (take count src))"
proof -
  let ?t = "takeWhile (\<lambda>c. c \<noteq> NUL) (take count src)"
  have "strncpy src count @ NUL # rest = ?t @ NUL # (replicate (count - length ?t) NUL @ rest)"
    by (simp add: strncpy_def Let_def replicate_append_same [symmetric])
  moreover have "NUL \<notin> set ?t" by (auto dest: set_takeWhileD)
  ultimately show ?thesis by (simp only: c_string_middle not_False_eq_True)
qed

section \<open>The low half of a 64-bit counter\<close>

lemma ucast_add: "(ucast (a + b :: 64 word) :: 32 word) = ucast a + ucast b"
proof -
  have "take_bit 32 (take_bit 64 x + take_bit 64 y) = take_bit 32 (take_bit 32 (take_bit 64 x) + take_bit 32 (take_bit 64 y))" for x y :: int
    by (simp only: take_bit_add)
  then have "take_bit 32 (take_bit 64 x + take_bit 64 y) = take_bit 32 (x + y)" for x y :: int
    by (simp add: take_bit_add)
  note this [symmetric]
  then show ?thesis by transfer (simp add: take_bit_add)
qed

lemma unat_small32: "n < 2 ^ 32 \<Longrightarrow> unat (of_nat n :: 32 word) = n"
  by (simp add: unat_of_nat)

lemma ucast_of_nat_down: "(ucast (of_nat d :: 64 word) :: 32 word) = of_nat d"
  by transfer simp

lemma sint_of_nat32:
  assumes "n < 2 ^ 31"
  shows "sint (of_nat n :: 32 word) = int n"
proof -
  have "int n < int (2 ^ 31)" using assms by (simp only: of_nat_less_iff)
  then have "signed_take_bit 31 (int n) = int n" by (intro signed_take_bit_int_eq_self) simp_all
  then show ?thesis by (simp add: signed_of_nat)
qed

section \<open>Maps\<close>

lemma map_of_remove_middle:
  "distinct (map fst (xs @ (k, v) # ys)) \<Longrightarrow> map_of (xs @ ys) = (map_of (xs @ (k, v) # ys))(k := None)"
  by (induction xs) (auto simp: fun_upd_twist fun_upd_idem map_of_eq_None_iff)

section \<open>Error numbers of the kernel\<close>

definition EIO :: int where "EIO = 5"
definition ENOMEM :: int where "ENOMEM = 12"
definition EFAULT :: int where "EFAULT = 14"

section \<open>Objects behind a pointer\<close>

text \<open>A static pointer is NULL, points to a live object, or dangles after the object is freed.\<close>

datatype 'a obj = Absent | Live 'a | Freed

text \<open>The characters behind a pointer to a buffer; NULL and a stale pointer have none.\<close>

definition obj_bytes :: "string obj \<Rightarrow> string" where
  "obj_bytes p = (case p of Live buf \<Rightarrow> buf | _ \<Rightarrow> [])"

text \<open>A buffer from \<open>kmalloc\<close>: \<open>mem\<close> is the fresh memory, if any.\<close>

definition fresh_buffer :: "nat \<Rightarrow> (nat \<Rightarrow> char) option \<Rightarrow> string obj" where
  "fresh_buffer n mem = (case mem of None \<Rightarrow> Absent | Some m \<Rightarrow> Live (map m [0..<n]))"

section \<open>Steps of threads\<close>

text \<open>What a step of a thread gives; one that has ended and a wait that is not over have none.\<close>

datatype 's outcome = Blocked | Fault | Step 's

definition outcome_of :: "'s option \<Rightarrow> 's outcome" where
  "outcome_of r = (case r of None \<Rightarrow> Fault | Some s \<Rightarrow> Step s)"

end
