(* ===== verification/ListHeap.thy ===== *)
theory ListHeap
  imports Prelude
begin

text \<open>
  The memory the intrusive list of \<^verbatim>\<open>linked_list.h\<close> works on: a partial map from
  the addresses of \<^verbatim>\<open>struct list_head\<close> objects to their two pointers. An address
  outside the domain is memory that is not (or no longer) allocated; reading or writing
  through it, through \<open>NULL\<close> or through one of the poison values is \<open>None\<close>.
\<close>

section \<open>Pointers and nodes\<close>

text \<open>\<open>Poison1\<close> and \<open>Poison2\<close> are \<^verbatim>\<open>LIST_POISON1\<close> and \<^verbatim>\<open>LIST_POISON2\<close>.\<close>

datatype 'a ptr = NULL | Poison1 | Poison2 | Ptr 'a

record 'a list_head =
  next_ptr :: "'a ptr"
  prev_ptr :: "'a ptr"

type_synonym 'a lheap = "'a \<rightharpoonup> 'a list_head"

definition rd_next :: "'a lheap \<Rightarrow> 'a ptr \<Rightarrow> 'a ptr option" where
  "rd_next h p = (case p of Ptr a \<Rightarrow> map_option next_ptr (h a) | _ \<Rightarrow> None)"

definition rd_prev :: "'a lheap \<Rightarrow> 'a ptr \<Rightarrow> 'a ptr option" where
  "rd_prev h p = (case p of Ptr a \<Rightarrow> map_option prev_ptr (h a) | _ \<Rightarrow> None)"

definition wr_next :: "'a lheap \<Rightarrow> 'a ptr \<Rightarrow> 'a ptr \<Rightarrow> 'a lheap option" where
  "wr_next h p v = (case p of
     Ptr a \<Rightarrow> (case h a of Some n \<Rightarrow> Some (h(a \<mapsto> n\<lparr>next_ptr := v\<rparr>)) | None \<Rightarrow> None)
   | _ \<Rightarrow> None)"

definition wr_prev :: "'a lheap \<Rightarrow> 'a ptr \<Rightarrow> 'a ptr \<Rightarrow> 'a lheap option" where
  "wr_prev h p v = (case p of
     Ptr a \<Rightarrow> (case h a of Some n \<Rightarrow> Some (h(a \<mapsto> n\<lparr>prev_ptr := v\<rparr>)) | None \<Rightarrow> None)
   | _ \<Rightarrow> None)"

section \<open>Writes as total updates\<close>

text \<open>
  Inside allocated memory a write is a total update, so that a sequence of writes becomes
  one nested update which the rules below read through.
\<close>

definition set_next :: "'a \<Rightarrow> 'a ptr \<Rightarrow> 'a lheap \<Rightarrow> 'a lheap" where
  "set_next a v h = h(a := map_option (next_ptr_update (\<lambda>_. v)) (h a))"

definition set_prev :: "'a \<Rightarrow> 'a ptr \<Rightarrow> 'a lheap \<Rightarrow> 'a lheap" where
  "set_prev a v h = h(a := map_option (prev_ptr_update (\<lambda>_. v)) (h a))"

definition nx :: "'a lheap \<Rightarrow> 'a \<Rightarrow> 'a ptr option" where
  "nx h a = map_option next_ptr (h a)"

definition pv :: "'a lheap \<Rightarrow> 'a \<Rightarrow> 'a ptr option" where
  "pv h a = map_option prev_ptr (h a)"

lemma rd_next_Ptr [heap_simps]: "rd_next h (Ptr a) = nx h a"
  by (simp add: rd_next_def nx_def)

lemma rd_prev_Ptr [heap_simps]: "rd_prev h (Ptr a) = pv h a"
  by (simp add: rd_prev_def pv_def)

lemma wr_next_Ptr [heap_simps]: "a \<in> dom h \<Longrightarrow> wr_next h (Ptr a) v = Some (set_next a v h)"
  by (auto simp: wr_next_def set_next_def)

lemma wr_prev_Ptr [heap_simps]: "a \<in> dom h \<Longrightarrow> wr_prev h (Ptr a) v = Some (set_prev a v h)"
  by (auto simp: wr_prev_def set_prev_def)

lemma wr_fault: "a \<notin> dom h \<Longrightarrow> wr_next h (Ptr a) v = None" "a \<notin> dom h \<Longrightarrow> wr_prev h (Ptr a) v = None"
  by (auto simp: wr_next_def wr_prev_def split: option.splits)

lemma rd_fault: "a \<notin> dom h \<Longrightarrow> nx h a = None" "a \<notin> dom h \<Longrightarrow> pv h a = None"
  by (auto simp: nx_def pv_def)

lemma dom_set_next [heap_simps]: "dom (set_next a v h) = dom h"
  by (auto simp: set_next_def)

lemma dom_set_prev [heap_simps]: "dom (set_prev a v h) = dom h"
  by (auto simp: set_prev_def)

lemma nx_set_next [heap_simps]: "a \<in> dom h \<Longrightarrow> nx (set_next a v h) b = (if b = a then Some v else nx h b)"
  by (auto simp: set_next_def nx_def)

lemma pv_set_next [heap_simps]: "pv (set_next a v h) b = pv h b"
  by (cases "h b") (auto simp: set_next_def pv_def)

lemma pv_set_prev [heap_simps]: "a \<in> dom h \<Longrightarrow> pv (set_prev a v h) b = (if b = a then Some v else pv h b)"
  by (auto simp: set_prev_def pv_def)

lemma nx_set_prev [heap_simps]: "nx (set_prev a v h) b = nx h b"
  by (cases "h b") (auto simp: set_prev_def nx_def)

lemma nx_dom: "nx h a = Some p \<Longrightarrow> a \<in> dom h"
  by (auto simp: nx_def)

lemma pv_dom: "pv h a = Some p \<Longrightarrow> a \<in> dom h"
  by (auto simp: pv_def)

lemma other_set_next [heap_simps]: "b \<noteq> a \<Longrightarrow> set_next a v h b = h b"
  by (simp add: set_next_def)

lemma other_set_prev [heap_simps]: "b \<noteq> a \<Longrightarrow> set_prev a v h b = h b"
  by (simp add: set_prev_def)

section \<open>Chains and circular lists\<close>

text \<open>
  \<open>linked h L\<close>: each node of \<open>L\<close> points forward to the next one, which points back.
  \<open>dlist h H xs\<close>: the circular list headed by \<open>H\<close> holds exactly the entries \<open>xs\<close>.
\<close>

fun linked :: "'a lheap \<Rightarrow> 'a list \<Rightarrow> bool" where
  "linked h (a # b # L) \<longleftrightarrow> nx h a = Some (Ptr b) \<and> pv h b = Some (Ptr a) \<and> linked h (b # L)"
| "linked h _ \<longleftrightarrow> True"

definition dlist :: "'a lheap \<Rightarrow> 'a \<Rightarrow> 'a list \<Rightarrow> bool" where
  "dlist h H xs \<longleftrightarrow> distinct (H # xs) \<and> linked h (H # xs @ [H])"

lemma linked_append: "linked h (xs @ a # ys) \<longleftrightarrow> linked h (xs @ [a]) \<and> linked h (a # ys)"
proof (induction xs)
  case Nil
  show ?case by simp
next
  case (Cons x xs)
  then show ?case by (cases xs) auto
qed

lemma linked_set_next [heap_simps]: "a \<notin> set (butlast L) \<Longrightarrow> linked (set_next a v h) L = linked h L"
proof (induction L rule: induct_list012)
  case (3 x y zs)
  then show ?case
    by (cases "a \<in> dom h") (auto simp: heap_simps set_next_def nx_def pv_def split: if_splits)
qed auto

lemma linked_set_prev [heap_simps]: "a \<notin> set (tl L) \<Longrightarrow> linked (set_prev a v h) L = linked h L"
proof (induction L rule: induct_list012)
  case (3 x y zs)
  then show ?case
    by (cases "a \<in> dom h") (auto simp: heap_simps set_prev_def nx_def pv_def)
qed auto

lemma linked_cong: "\<forall>a \<in> set L. h' a = h a \<Longrightarrow> linked h' L = linked h L"
  by (induction L rule: induct_list012) (auto simp: nx_def pv_def)

lemma linked_dom: "linked h L \<Longrightarrow> 2 \<le> length L \<Longrightarrow> set L \<subseteq> dom h"
proof (induction L rule: induct_list012)
  case (3 x y zs)
  then show ?case by (cases zs) (auto dest: nx_dom pv_dom)
qed auto

lemma dlist_cong: "\<forall>a \<in> set (H # xs). h' a = h a \<Longrightarrow> dlist h' H xs = dlist h H xs"
  using linked_cong [of "H # xs @ [H]" h' h] by (simp add: dlist_def)

lemma dlist_upd: "dlist h H xs \<Longrightarrow> a \<notin> set (H # xs) \<Longrightarrow> dlist (h(a := v)) H xs"
  using dlist_cong [of H xs "h(a := v)" h] by auto

lemma dlist_dom: "dlist h H xs \<Longrightarrow> set (H # xs) \<subseteq> dom h"
  using linked_dom [of h "H # xs @ [H]"] by (auto simp: dlist_def)

lemma dlist_unique: "dlist h H xs \<Longrightarrow> dlist h H ys \<Longrightarrow> xs = ys"
proof -
  have gen: "linked h (a # xs @ [e]) \<Longrightarrow> linked h (a # ys @ [e]) \<Longrightarrow> e \<notin> set xs \<Longrightarrow> e \<notin> set ys \<Longrightarrow> xs = ys"
    for a e xs ys
  proof (induction xs arbitrary: a ys)
    case Nil
    then show ?case by (cases ys) auto
  next
    case (Cons x xs)
    then show ?case by (cases ys) auto
  qed
  show "dlist h H xs \<Longrightarrow> dlist h H ys \<Longrightarrow> xs = ys"
    by (auto simp: dlist_def intro: gen)
qed

text \<open>The pointer to the first of the remaining entries, or back to the head.\<close>

definition first_ptr :: "'a \<Rightarrow> 'a list \<Rightarrow> 'a ptr" where
  "first_ptr H xs = (case xs of [] \<Rightarrow> Ptr H | x # _ \<Rightarrow> Ptr x)"

lemma first_ptr_simps [simp]: "first_ptr H [] = Ptr H" "first_ptr H (x # xs) = Ptr x"
  by (simp_all add: first_ptr_def)

lemma dlist_first: "dlist h H xs \<Longrightarrow> nx h H = Some (first_ptr H xs)"
  by (cases xs) (auto simp: dlist_def)

lemma dlist_last: "dlist h H xs \<Longrightarrow> pv h H = Some (Ptr (last (H # xs)))"
proof (induction xs rule: rev_induct)
  case Nil
  then show ?case by (simp add: dlist_def)
next
  case (snoc x xs)
  then show ?case using linked_append [of h "H # xs" x "[H]"] by (auto simp: dlist_def)
qed

lemma dlist_next: "dlist h H (xs @ x # ys) \<Longrightarrow> nx h x = Some (first_ptr H ys)"
  using linked_append [of h "H # xs" x "ys @ [H]"]
  by (cases ys) (auto simp: dlist_def)

lemma dlist_prev: "dlist h H (xs @ x # ys) \<Longrightarrow> pv h x = Some (Ptr (last (H # xs)))"
proof (induction xs rule: rev_induct)
  case Nil
  then show ?case by (simp add: dlist_def)
next
  case (snoc y xs)
  then show ?case using linked_append [of h "H # xs" y "x # ys @ [H]"] by (auto simp: dlist_def)
qed

lemma dlist_Nil_iff: "dlist h H xs \<Longrightarrow> nx h H = Some (Ptr H) \<longleftrightarrow> xs = []"
  by (cases xs) (auto simp: dlist_def)

end
