(* ===== verification/LinkedList.thy ===== *)
theory LinkedList
  imports ListHeap
begin

text \<open>
  The operations of \<^verbatim>\<open>linked_list.h\<close> (the circular doubly linked list every C
  component with a queue is built on), each a sequence of reads and writes of the heap of
  \<open>ListHeap\<close> in the order of the source. The lemmas show that on a well-formed circular
  list an operation never faults and does on the heap what its HOL counterpart does on the
  list of entries, changing no node outside the list. Operation names the source starts
  with two underscores start with \<open>raw_\<close> here.
\<close>

section \<open>Operations\<close>

definition INIT_LIST_HEAD :: "'a lheap \<Rightarrow> 'a ptr \<Rightarrow> 'a lheap option" where
  "INIT_LIST_HEAD h l = do { h \<leftarrow> wr_next h l l; wr_prev h l l }"

definition raw_list_add :: "'a lheap \<Rightarrow> 'a ptr \<Rightarrow> 'a ptr \<Rightarrow> 'a ptr \<Rightarrow> 'a lheap option" where
  "raw_list_add h new_item prv nxt = do {
     h \<leftarrow> wr_prev h nxt new_item;
     h \<leftarrow> wr_next h new_item nxt;
     h \<leftarrow> wr_prev h new_item prv;
     wr_next h prv new_item }"

definition list_add :: "'a lheap \<Rightarrow> 'a ptr \<Rightarrow> 'a ptr \<Rightarrow> 'a lheap option" where
  "list_add h new_item head = do {
     n \<leftarrow> rd_next h head;
     raw_list_add h new_item head n }"

definition list_add_tail :: "'a lheap \<Rightarrow> 'a ptr \<Rightarrow> 'a ptr \<Rightarrow> 'a lheap option" where
  "list_add_tail h new_item head = do {
     p \<leftarrow> rd_prev h head;
     raw_list_add h new_item p head }"

definition raw_list_del :: "'a lheap \<Rightarrow> 'a ptr \<Rightarrow> 'a ptr \<Rightarrow> 'a lheap option" where
  "raw_list_del h prv nxt = do {
     h \<leftarrow> wr_prev h nxt prv;
     wr_next h prv nxt }"

definition raw_list_del_clearprev :: "'a lheap \<Rightarrow> 'a ptr \<Rightarrow> 'a lheap option" where
  "raw_list_del_clearprev h entry = do {
     p \<leftarrow> rd_prev h entry;
     n \<leftarrow> rd_next h entry;
     h \<leftarrow> raw_list_del h p n;
     wr_prev h entry NULL }"

definition raw_list_del_entry :: "'a lheap \<Rightarrow> 'a ptr \<Rightarrow> 'a lheap option" where
  "raw_list_del_entry h entry = do {
     p \<leftarrow> rd_prev h entry;
     n \<leftarrow> rd_next h entry;
     raw_list_del h p n }"

definition list_del :: "'a lheap \<Rightarrow> 'a ptr \<Rightarrow> 'a lheap option" where
  "list_del h entry = do {
     h \<leftarrow> raw_list_del_entry h entry;
     h \<leftarrow> wr_next h entry Poison1;
     wr_prev h entry Poison2 }"

definition list_replace :: "'a lheap \<Rightarrow> 'a ptr \<Rightarrow> 'a ptr \<Rightarrow> 'a lheap option" where
  "list_replace h old new_item = do {
     n \<leftarrow> rd_next h old;
     h \<leftarrow> wr_next h new_item n;
     n \<leftarrow> rd_next h new_item;
     h \<leftarrow> wr_prev h n new_item;
     p \<leftarrow> rd_prev h old;
     h \<leftarrow> wr_prev h new_item p;
     p \<leftarrow> rd_prev h new_item;
     wr_next h p new_item }"

definition list_replace_init :: "'a lheap \<Rightarrow> 'a ptr \<Rightarrow> 'a ptr \<Rightarrow> 'a lheap option" where
  "list_replace_init h old new_item = do {
     h \<leftarrow> list_replace h old new_item;
     INIT_LIST_HEAD h old }"

definition list_swap :: "'a lheap \<Rightarrow> 'a ptr \<Rightarrow> 'a ptr \<Rightarrow> 'a lheap option" where
  "list_swap h entry1 entry2 = do {
     pos \<leftarrow> rd_prev h entry2;
     h \<leftarrow> list_del h entry2;
     h \<leftarrow> list_replace h entry1 entry2;
     list_add h entry1 (if pos = entry1 then entry2 else pos) }"

definition list_del_init :: "'a lheap \<Rightarrow> 'a ptr \<Rightarrow> 'a lheap option" where
  "list_del_init h entry = do {
     h \<leftarrow> raw_list_del_entry h entry;
     INIT_LIST_HEAD h entry }"

definition list_move :: "'a lheap \<Rightarrow> 'a ptr \<Rightarrow> 'a ptr \<Rightarrow> 'a lheap option" where
  "list_move h l head = do {
     h \<leftarrow> raw_list_del_entry h l;
     list_add h l head }"

definition list_move_tail :: "'a lheap \<Rightarrow> 'a ptr \<Rightarrow> 'a ptr \<Rightarrow> 'a lheap option" where
  "list_move_tail h l head = do {
     h \<leftarrow> raw_list_del_entry h l;
     list_add_tail h l head }"

definition list_is_first :: "'a lheap \<Rightarrow> 'a ptr \<Rightarrow> 'a ptr \<Rightarrow> bool option" where
  "list_is_first h l head = do { p \<leftarrow> rd_prev h l; Some (p = head) }"

definition list_is_last :: "'a lheap \<Rightarrow> 'a ptr \<Rightarrow> 'a ptr \<Rightarrow> bool option" where
  "list_is_last h l head = do { n \<leftarrow> rd_next h l; Some (n = head) }"

definition list_empty :: "'a lheap \<Rightarrow> 'a ptr \<Rightarrow> bool option" where
  "list_empty h head = do { n \<leftarrow> rd_next h head; Some (n = head) }"

definition list_rotate_left :: "'a lheap \<Rightarrow> 'a ptr \<Rightarrow> 'a lheap option" where
  "list_rotate_left h head = do {
     e \<leftarrow> list_empty h head;
     if \<not> e then do { first \<leftarrow> rd_next h head; list_move_tail h first head }
     else Some h }"

definition list_rotate_to_front :: "'a lheap \<Rightarrow> 'a ptr \<Rightarrow> 'a ptr \<Rightarrow> 'a lheap option" where
  "list_rotate_to_front h l head = list_move_tail h head l"

definition list_is_singular :: "'a lheap \<Rightarrow> 'a ptr \<Rightarrow> bool option" where
  "list_is_singular h head = do {
     e \<leftarrow> list_empty h head;
     if \<not> e then do { n \<leftarrow> rd_next h head; p \<leftarrow> rd_prev h head; Some (n = p) }
     else Some False }"

definition raw_list_splice :: "'a lheap \<Rightarrow> 'a ptr \<Rightarrow> 'a ptr \<Rightarrow> 'a ptr \<Rightarrow> 'a lheap option" where
  "raw_list_splice h l prv nxt = do {
     first \<leftarrow> rd_next h l;
     last \<leftarrow> rd_prev h l;
     h \<leftarrow> wr_prev h first prv;
     h \<leftarrow> wr_next h prv first;
     h \<leftarrow> wr_next h last nxt;
     wr_prev h nxt last }"

definition list_splice :: "'a lheap \<Rightarrow> 'a ptr \<Rightarrow> 'a ptr \<Rightarrow> 'a lheap option" where
  "list_splice h l head = do {
     e \<leftarrow> list_empty h l;
     if \<not> e then do { n \<leftarrow> rd_next h head; raw_list_splice h l head n } else Some h }"

definition list_splice_tail :: "'a lheap \<Rightarrow> 'a ptr \<Rightarrow> 'a ptr \<Rightarrow> 'a lheap option" where
  "list_splice_tail h l head = do {
     e \<leftarrow> list_empty h l;
     if \<not> e then do { p \<leftarrow> rd_prev h head; raw_list_splice h l p head } else Some h }"

definition list_splice_init :: "'a lheap \<Rightarrow> 'a ptr \<Rightarrow> 'a ptr \<Rightarrow> 'a lheap option" where
  "list_splice_init h l head = do {
     e \<leftarrow> list_empty h l;
     if \<not> e then do {
       n \<leftarrow> rd_next h head;
       h \<leftarrow> raw_list_splice h l head n;
       INIT_LIST_HEAD h l }
     else Some h }"

definition list_splice_tail_init :: "'a lheap \<Rightarrow> 'a ptr \<Rightarrow> 'a ptr \<Rightarrow> 'a lheap option" where
  "list_splice_tail_init h l head = do {
     e \<leftarrow> list_empty h l;
     if \<not> e then do {
       p \<leftarrow> rd_prev h head;
       h \<leftarrow> raw_list_splice h l p head;
       INIT_LIST_HEAD h l }
     else Some h }"

definition raw_list_cut_position :: "'a lheap \<Rightarrow> 'a ptr \<Rightarrow> 'a ptr \<Rightarrow> 'a ptr \<Rightarrow> 'a lheap option" where
  "raw_list_cut_position h l head entry = do {
     new_first \<leftarrow> rd_next h entry;
     n \<leftarrow> rd_next h head;
     h \<leftarrow> wr_next h l n;
     n \<leftarrow> rd_next h l;
     h \<leftarrow> wr_prev h n l;
     h \<leftarrow> wr_prev h l entry;
     h \<leftarrow> wr_next h entry l;
     h \<leftarrow> wr_next h head new_first;
     wr_prev h new_first head }"

definition list_cut_position :: "'a lheap \<Rightarrow> 'a ptr \<Rightarrow> 'a ptr \<Rightarrow> 'a ptr \<Rightarrow> 'a lheap option" where
  "list_cut_position h l head entry = do {
     e \<leftarrow> list_empty h head;
     if e then Some h
     else do {
       s \<leftarrow> list_is_singular h head;
       n \<leftarrow> rd_next h head;
       if s \<and> n \<noteq> entry \<and> head \<noteq> entry then Some h
       else if entry = head then INIT_LIST_HEAD h l
       else raw_list_cut_position h l head entry } }"

definition list_cut_before :: "'a lheap \<Rightarrow> 'a ptr \<Rightarrow> 'a ptr \<Rightarrow> 'a ptr \<Rightarrow> 'a lheap option" where
  "list_cut_before h l head entry = do {
     n \<leftarrow> rd_next h head;
     if n = entry then INIT_LIST_HEAD h l
     else do {
       h \<leftarrow> wr_next h l n;
       n \<leftarrow> rd_next h l;
       h \<leftarrow> wr_prev h n l;
       p \<leftarrow> rd_prev h entry;
       h \<leftarrow> wr_prev h l p;
       p \<leftarrow> rd_prev h l;
       h \<leftarrow> wr_next h p l;
       h \<leftarrow> wr_next h head entry;
       wr_prev h entry head } }"

definition list_bulk_move_tail :: "'a lheap \<Rightarrow> 'a ptr \<Rightarrow> 'a ptr \<Rightarrow> 'a ptr \<Rightarrow> 'a lheap option" where
  "list_bulk_move_tail h head first lst = do {
     fp \<leftarrow> rd_prev h first;
     ln \<leftarrow> rd_next h lst;
     h \<leftarrow> wr_next h fp ln;
     ln \<leftarrow> rd_next h lst;
     fp \<leftarrow> rd_prev h first;
     h \<leftarrow> wr_prev h ln fp;
     hp \<leftarrow> rd_prev h head;
     h \<leftarrow> wr_next h hp first;
     hp \<leftarrow> rd_prev h head;
     h \<leftarrow> wr_prev h first hp;
     h \<leftarrow> wr_next h lst head;
     wr_prev h head lst }"

section \<open>Iteration\<close>

text \<open>
  The macros \<^verbatim>\<open>list_for_each\<close> and \<^verbatim>\<open>list_for_each_safe\<close> over a body that runs on
  a state \<open>s\<close> holding the heap, which \<open>rd s\<close> reads the \<open>next\<close> pointers of. The result
  is whether the body left the loop, the cursor and the state. \<open>None\<close> is a fault, or a loop
  that never ends.
\<close>

partial_function (option) for_each_from ::
    "('s \<Rightarrow> 'p \<Rightarrow> 'p option) \<Rightarrow> ('p \<Rightarrow> 's \<Rightarrow> 's ctl option) \<Rightarrow> 'p \<Rightarrow> 'p \<Rightarrow> 's \<Rightarrow> (bool \<times> 'p \<times> 's) option" where
  "for_each_from rd body head pos s =
     (if pos = head then Some (False, pos, s)
      else do {
        c \<leftarrow> body pos s;
        (case c of
           Break s' \<Rightarrow> Some (True, pos, s')
         | Next s' \<Rightarrow> do { p \<leftarrow> rd s' pos; for_each_from rd body head p s' }) })"

definition list_for_each ::
    "('s \<Rightarrow> 'p \<Rightarrow> 'p option) \<Rightarrow> ('p \<Rightarrow> 's \<Rightarrow> 's ctl option) \<Rightarrow> 'p \<Rightarrow> 's \<Rightarrow> (bool \<times> 'p \<times> 's) option" where
  "list_for_each rd body head s = do { p \<leftarrow> rd s head; for_each_from rd body head p s }"

partial_function (option) for_each_safe_from ::
    "('s \<Rightarrow> 'p \<Rightarrow> 'p option) \<Rightarrow> ('p \<Rightarrow> 's \<Rightarrow> 's ctl option) \<Rightarrow> 'p \<Rightarrow> 'p \<Rightarrow> 'p \<Rightarrow> 's \<Rightarrow> (bool \<times> 'p \<times> 's) option" where
  "for_each_safe_from rd body head pos q s =
     (if pos = head then Some (False, pos, s)
      else do {
        c \<leftarrow> body pos s;
        (case c of
           Break s' \<Rightarrow> Some (True, pos, s')
         | Next s' \<Rightarrow> do { n \<leftarrow> rd s' q; for_each_safe_from rd body head q n s' }) })"

definition list_for_each_safe ::
    "('s \<Rightarrow> 'p \<Rightarrow> 'p option) \<Rightarrow> ('p \<Rightarrow> 's \<Rightarrow> 's ctl option) \<Rightarrow> 'p \<Rightarrow> 's \<Rightarrow> (bool \<times> 'p \<times> 's) option" where
  "list_for_each_safe rd body head s = do {
     pos \<leftarrow> rd s head;
     q \<leftarrow> rd s pos;
     for_each_safe_from rd body head pos q s }"

declare for_each_from.simps [code] for_each_safe_from.simps [code]

section \<open>Chains under insertion and removal\<close>

lemma linked_parts:
  "linked h (P @ a # b # S) \<longleftrightarrow>
    linked h (P @ [a]) \<and> nx h a = Some (Ptr b) \<and> pv h b = Some (Ptr a) \<and> linked h (b # S)"
  using linked_append [of h P a "b # S"] by auto

lemma linked_insert:
  assumes L: "linked h (P @ a # b # S)" and n: "n \<in> dom h" "n \<notin> set (P @ a # b # S)"
    and d: "a \<notin> set P" "b \<notin> set (tl (P @ [a]))" "a \<notin> set (butlast (b # S))" "b \<notin> set S"
  shows "linked (set_next a (Ptr n) (set_prev n (Ptr a) (set_next n (Ptr b) (set_prev b (Ptr n) h))))
           (P @ a # n # b # S)"
proof -
  from L have dom: "a \<in> dom h" "b \<in> dom h" by (auto simp: linked_parts dest: nx_dom pv_dom)
  have "n \<notin> set (tl (P @ [a]))" "n \<notin> set (butlast (b # S))"
    using n(2) by (auto dest: in_set_tlD in_set_butlastD)
  then show ?thesis
    using L n d dom by (auto simp: linked_parts heap_simps)
qed

lemma linked_remove:
  assumes L: "linked h (P @ a # x # b # S)"
    and d: "a \<notin> set P" "b \<notin> set (tl (P @ [a]))" "a \<notin> set (butlast (b # S))" "b \<notin> set S"
  shows "linked (set_next a (Ptr b) (set_prev b (Ptr a) h)) (P @ a # b # S)"
proof -
  from L have L': "linked h (P @ [a])" "nx h a = Some (Ptr x)" "pv h b = Some (Ptr x)" "linked h (b # S)"
    by (auto simp: linked_parts)
  then have dom: "a \<in> dom h" "b \<in> dom h" by (auto dest: nx_dom pv_dom)
  with L' d show ?thesis by (auto simp: linked_parts heap_simps)
qed

text \<open>
  A circular list is the chain \<open>H # xs @ [H]\<close>; a gap in it lies between the last
  node of a prefix and the first of the rest.
\<close>

lemma gap_split:
  assumes "distinct (H # xs @ ys)"
  obtains P a b S where "H # xs = P @ [a]" "ys @ [H] = b # S" "last (H # xs) = a"
    "first_ptr H ys = Ptr b" "a \<notin> set P" "b \<notin> set (tl (P @ [a]))" "a \<notin> set (butlast (b # S))"
    "b \<notin> set S" "set (P @ a # b # S) \<subseteq> set (H # xs @ ys)"
proof -
  obtain P a where P: "H # xs = P @ [a]" by (metis append_butlast_last_id list.distinct(1))
  obtain b S where S: "ys @ [H] = b # S" by (cases ys) auto
  show ?thesis
  proof (rule that [OF P S])
    show "last (H # xs) = a" using P by (metis last_snoc)
    show "first_ptr H ys = Ptr b" using S by (cases ys) auto
    show "a \<notin> set P" using P assms by (metis distinct_append distinct_snoc_butlast append_Cons)
    show "b \<notin> set (tl (P @ [a]))" using S assms by (cases ys) (auto simp flip: P)
    show "a \<notin> set (butlast (b # S))"
      using P assms by (cases xs rule: rev_cases) (auto simp flip: S)
    show "b \<notin> set S" using S assms by (cases ys) auto
    show "set (P @ a # b # S) \<subseteq> set (H # xs @ ys)" using arg_cong [OF P, of set] arg_cong [OF S, of set] by auto
  qed
qed

section \<open>Correctness of the operations\<close>

text \<open>
  \<open>relist h h' H xs F\<close>: the list at \<open>H\<close> now holds \<open>xs\<close>, the same memory is
  allocated, and no node outside \<open>F\<close> was written.
\<close>

definition relist :: "'a lheap \<Rightarrow> 'a lheap \<Rightarrow> 'a \<Rightarrow> 'a list \<Rightarrow> 'a set \<Rightarrow> bool" where
  "relist h h' H xs F \<longleftrightarrow> dlist h' H xs \<and> dom h' = dom h \<and> (\<forall>c. c \<notin> F \<longrightarrow> h' c = h c)"

lemma INIT_LIST_HEAD_spec:
  "H \<in> dom h \<Longrightarrow> INIT_LIST_HEAD h (Ptr H) = Some (set_prev H (Ptr H) (set_next H (Ptr H) h))"
  by (simp add: INIT_LIST_HEAD_def heap_simps)

lemma INIT_LIST_HEAD_dlist:
  assumes "H \<in> dom h"
  shows "\<exists>h'. INIT_LIST_HEAD h (Ptr H) = Some h' \<and> relist h h' H [] {H}"
  using assms by (simp add: INIT_LIST_HEAD_spec relist_def dlist_def heap_simps)

lemma raw_list_add_dlist:
  assumes "dlist h H (xs @ ys)" and n: "n \<in> dom h" "n \<notin> set (H # xs @ ys)"
  shows "\<exists>h'. raw_list_add h (Ptr n) (Ptr (last (H # xs))) (first_ptr H ys) = Some h' \<and>
    relist h h' H (xs @ n # ys) (set (n # H # xs @ ys))"
proof -
  from assms(1) have di: "distinct (H # xs @ ys)" and L: "linked h (H # xs @ ys @ [H])"
    by (auto simp: dlist_def)
  from di obtain P a b S where g: "H # xs = P @ [a]" "ys @ [H] = b # S" "last (H # xs) = a"
    "first_ptr H ys = Ptr b" "a \<notin> set P" "b \<notin> set (tl (P @ [a]))" "a \<notin> set (butlast (b # S))"
    "b \<notin> set S" "set (P @ a # b # S) \<subseteq> set (H # xs @ ys)"
    by (rule gap_split)
  have chain: "H # xs @ zs @ ys @ [H] = P @ a # zs @ b # S" for zs
    using g(1,2) by (metis append.assoc append_Cons append_Nil)
  from L have L': "linked h (P @ a # b # S)" using chain [of "[]"] by simp
  then have ab: "a \<in> dom h" "b \<in> dom h" by (auto simp: linked_parts dest: nx_dom pv_dom)
  let ?h = "set_next a (Ptr n) (set_prev n (Ptr a) (set_next n (Ptr b) (set_prev b (Ptr n) h)))"
  have neq: "c \<noteq> a \<and> c \<noteq> b" if "c \<notin> set (H # xs @ ys)" for c
    using that g(9) by auto
  have "raw_list_add h (Ptr n) (Ptr (last (H # xs))) (first_ptr H ys) = Some ?h"
    using ab n(1) by (simp add: raw_list_add_def g(3,4) heap_simps del: last.simps)
  moreover have "linked ?h (P @ a # n # b # S)"
    using L' n g(5-8) g(9) by (intro linked_insert) blast+
  then have "dlist ?h H (xs @ n # ys)" using di n(2) chain [of "[n]"] by (auto simp: dlist_def)
  moreover have "\<forall>c. c \<notin> set (n # H # xs @ ys) \<longrightarrow> ?h c = h c"
    using neq by (simp add: heap_simps)
  ultimately show ?thesis by (intro exI [of _ ?h]) (simp add: relist_def heap_simps)
qed

lemma raw_list_del_dlist:
  assumes "dlist h H (xs @ x # ys)"
  shows "\<exists>h'. raw_list_del h (Ptr (last (H # xs))) (first_ptr H ys) = Some h' \<and>
    relist h h' H (xs @ ys) (set (H # xs @ ys))"
proof -
  from assms(1) have di: "distinct (H # xs @ ys)" and L: "linked h (H # xs @ x # ys @ [H])"
    by (auto simp: dlist_def)
  from di obtain P a b S where g: "H # xs = P @ [a]" "ys @ [H] = b # S" "last (H # xs) = a"
    "first_ptr H ys = Ptr b" "a \<notin> set P" "b \<notin> set (tl (P @ [a]))" "a \<notin> set (butlast (b # S))"
    "b \<notin> set S" "set (P @ a # b # S) \<subseteq> set (H # xs @ ys)"
    by (rule gap_split)
  have chain: "H # xs @ zs @ ys @ [H] = P @ a # zs @ b # S" for zs
    using g(1,2) by (metis append.assoc append_Cons append_Nil)
  from L have L': "linked h (P @ a # x # b # S)" using chain [of "[x]"] by simp
  then have ab: "a \<in> dom h" "b \<in> dom h" by (auto simp: linked_parts dest: nx_dom pv_dom)
  let ?h = "set_next a (Ptr b) (set_prev b (Ptr a) h)"
  have neq: "c \<noteq> a \<and> c \<noteq> b" if "c \<notin> set (H # xs @ ys)" for c
    using that g(9) by auto
  have "raw_list_del h (Ptr (last (H # xs))) (first_ptr H ys) = Some ?h"
    using ab by (simp add: raw_list_del_def g(3,4) heap_simps del: last.simps)
  moreover have "linked ?h (P @ a # b # S)"
    using L' g(5-8) by (intro linked_remove) blast+
  then have "dlist ?h H (xs @ ys)" using di chain [of "[]"] by (auto simp: dlist_def)
  moreover have "\<forall>c. c \<notin> set (H # xs @ ys) \<longrightarrow> ?h c = h c"
    using neq by (simp add: heap_simps)
  ultimately show ?thesis by (intro exI [of _ ?h]) (simp add: relist_def heap_simps)
qed

text \<open>
  The operations clients use. \<open>list_add_tail\<close> inserts before any node of the list, at the
  end when that node is the head.
\<close>

lemma list_add_tail_before:
  assumes "dlist h H (xs @ ys)" "n \<in> dom h" "n \<notin> set (H # xs @ ys)"
  shows "\<exists>h'. list_add_tail h (Ptr n) (first_ptr H ys) = Some h' \<and>
    relist h h' H (xs @ n # ys) (set (n # H # xs @ ys))"
proof -
  have "rd_prev h (first_ptr H ys) = Some (Ptr (last (H # xs)))"
    using dlist_prev [of h H xs] dlist_last [of h H xs] assms(1)
    by (cases ys) (auto simp: heap_simps)
  then show ?thesis using raw_list_add_dlist [OF assms] by (simp add: list_add_tail_def)
qed

lemma list_add_tail_dlist:
  assumes "dlist h H xs" "n \<in> dom h" "n \<notin> set (H # xs)"
  shows "\<exists>h'. list_add_tail h (Ptr n) (Ptr H) = Some h' \<and> relist h h' H (xs @ [n]) (set (n # H # xs))"
  using list_add_tail_before [of h H xs "[]" n] assms by simp

lemma list_add_dlist:
  assumes "dlist h H xs" "n \<in> dom h" "n \<notin> set (H # xs)"
  shows "\<exists>h'. list_add h (Ptr n) (Ptr H) = Some h' \<and> relist h h' H (n # xs) (set (n # H # xs))"
  using raw_list_add_dlist [of h H "[]" xs n] assms dlist_first [of h H xs]
  by (simp add: list_add_def heap_simps)

lemma raw_list_del_entry_dlist:
  assumes "dlist h H (xs @ x # ys)"
  shows "\<exists>h'. raw_list_del_entry h (Ptr x) = Some h' \<and> relist h h' H (xs @ ys) (set (H # xs @ ys))"
  using raw_list_del_dlist [OF assms] dlist_next [OF assms] dlist_prev [OF assms]
  by (simp add: raw_list_del_entry_def heap_simps)

lemma relist_dlist: "relist h h' H xs F \<Longrightarrow> dlist h' H xs"
  by (simp add: relist_def)

lemma relist_dom: "relist h h' H xs F \<Longrightarrow> dom h' = dom h"
  by (simp add: relist_def)

lemma relist_frame: "relist h h' H xs F \<Longrightarrow> F \<inter> set (K # ys) = {} \<Longrightarrow> dlist h' K ys = dlist h K ys"
  by (rule dlist_cong) (auto simp: relist_def)

lemma relist_keeps: "relist h h' H xs F \<Longrightarrow> dlist h K ys \<Longrightarrow> (\<And>c. c \<in> set (K # ys) \<Longrightarrow> c \<notin> F) \<Longrightarrow> dlist h' K ys"
  using relist_frame [of h h' H xs F K ys] by blast

lemma relist_other: "relist h h' H xs F \<Longrightarrow> c \<notin> F \<Longrightarrow> h' c = h c"
  by (simp add: relist_def)

lemma relist_poison:
  assumes "relist h h' H xs F" "x \<notin> set (H # xs)" "x \<in> dom h"
  shows "\<exists>h2. wr_next h' (Ptr x) v = Some h2 \<and> wr_prev h2 (Ptr x) w =
    Some (set_prev x w (set_next x v h')) \<and> relist h (set_prev x w (set_next x v h')) H xs (insert x F)"
proof -
  let ?h = "set_prev x w (set_next x v h')"
  have other: "c \<noteq> x \<Longrightarrow> ?h c = h' c" for c by (simp add: heap_simps)
  then have "\<forall>a \<in> set (H # xs). ?h a = h' a" using assms(2) by metis
  then have "dlist ?h H xs" using relist_dlist [OF assms(1)] by (rule dlist_cong [THEN iffD2])
  then show ?thesis using assms by (auto simp: relist_def heap_simps)
qed

lemma list_del_dlist:
  assumes "dlist h H (xs @ x # ys)"
  shows "\<exists>h'. list_del h (Ptr x) = Some h' \<and> relist h h' H (xs @ ys) (set (H # xs @ x # ys)) \<and>
    nx h' x = Some Poison1 \<and> pv h' x = Some Poison2"
proof -
  obtain h1 where h1: "raw_list_del_entry h (Ptr x) = Some h1" "relist h h1 H (xs @ ys) (set (H # xs @ ys))"
    using raw_list_del_entry_dlist [OF assms] by blast
  have x: "x \<in> dom h" "x \<notin> set (H # xs @ ys)" using assms dlist_dom [OF assms] by (auto simp: dlist_def)
  have "x \<in> dom h1" using x(1) relist_dom [OF h1(2)] by simp
  then show ?thesis
    using relist_poison [OF h1(2) x(2,1), of Poison1 Poison2] h1(1)
    by (auto simp: list_del_def heap_simps insert_commute)
qed

lemma list_del_init_dlist:
  assumes "dlist h H (xs @ x # ys)"
  shows "\<exists>h'. list_del_init h (Ptr x) = Some h' \<and> relist h h' H (xs @ ys) (set (H # xs @ x # ys)) \<and>
    dlist h' x []"
proof -
  obtain h1 where h1: "raw_list_del_entry h (Ptr x) = Some h1" "relist h h1 H (xs @ ys) (set (H # xs @ ys))"
    using raw_list_del_entry_dlist [OF assms] by blast
  have x: "x \<in> dom h" "x \<notin> set (H # xs @ ys)" using assms dlist_dom [OF assms] by (auto simp: dlist_def)
  have "x \<in> dom h1" using x(1) relist_dom [OF h1(2)] by simp
  then show ?thesis
    using relist_poison [OF h1(2) x(2,1), of "Ptr x" "Ptr x"] h1(1)
    by (auto simp: list_del_init_def INIT_LIST_HEAD_def heap_simps dlist_def insert_commute)
qed

lemma list_empty_dlist: "dlist h H xs \<Longrightarrow> list_empty h (Ptr H) = Some (xs = [])"
  using dlist_first [of h H xs] by (cases xs) (auto simp: list_empty_def heap_simps dlist_def)


section \<open>Loop rules\<close>

text \<open>
  \<open>I todo s\<close> is the loop invariant, with the entries the loop has not visited; \<open>Q x todo s\<close>
  holds when the body leaves the loop at entry \<open>x\<close>. Both loops return: a loop over
  a well-formed list terminates.
\<close>

lemma for_each_safe_from_rule:
  assumes step: "\<And>x t s. I (x # t) s \<Longrightarrow>
      (\<exists>s'. body (Ptr x) s = Some (Next s') \<and> I t s') \<or> (\<exists>s'. body (Ptr x) s = Some (Break s') \<and> Q x t s')"
    and link: "\<And>x t s. I (x # t) s \<Longrightarrow> x \<noteq> H \<and> rd s (Ptr x) = Some (first_ptr H t)"
    and stop: "\<And>s. I [] s \<Longrightarrow> \<exists>p. rd s (Ptr H) = Some p"
    and I: "I xs s" and q: "xs \<noteq> [] \<Longrightarrow> q = first_ptr H (tl xs)"
  shows "(\<exists>s'. for_each_safe_from rd body (Ptr H) (first_ptr H xs) q s = Some (False, Ptr H, s') \<and> I [] s') \<or>
    (\<exists>x t s'. for_each_safe_from rd body (Ptr H) (first_ptr H xs) q s = Some (True, Ptr x, s') \<and> Q x t s')"
  using I q
proof (induction xs arbitrary: s q)
  case Nil
  then show ?case by (simp add: for_each_safe_from.simps)
next
  case (Cons x t)
  note xH = link [OF Cons.prems(1)]
  from step [OF Cons.prems(1)] show ?case
  proof
    assume "\<exists>s'. body (Ptr x) s = Some (Next s') \<and> I t s'"
    then obtain s' where s': "body (Ptr x) s = Some (Next s')" "I t s'" by blast
    obtain n where n: "rd s' (first_ptr H t) = Some n" "t \<noteq> [] \<Longrightarrow> n = first_ptr H (tl t)"
      using link [of _ _ s'] stop [of s'] s'(2) by (cases t) auto
    with Cons.IH [OF s'(2) n(2)] s'(1) xH Cons.prems(2) show ?thesis
      by (simp add: for_each_safe_from.simps [of rd body "Ptr H" "Ptr x" "first_ptr H t" s])
  next
    assume "\<exists>s'. body (Ptr x) s = Some (Break s') \<and> Q x t s'"
    with xH show ?thesis by (auto simp: for_each_safe_from.simps)
  qed
qed

lemma list_for_each_safe_rule:
  assumes step: "\<And>x t s. I (x # t) s \<Longrightarrow>
      (\<exists>s'. body (Ptr x) s = Some (Next s') \<and> I t s') \<or> (\<exists>s'. body (Ptr x) s = Some (Break s') \<and> Q x t s')"
    and link: "\<And>x t s. I (x # t) s \<Longrightarrow> x \<noteq> H \<and> rd s (Ptr x) = Some (first_ptr H t)"
    and stop: "\<And>s. I [] s \<Longrightarrow> \<exists>p. rd s (Ptr H) = Some p"
    and I: "I xs s" and start: "rd s (Ptr H) = Some (first_ptr H xs)"
  shows "(\<exists>s'. list_for_each_safe rd body (Ptr H) s = Some (False, Ptr H, s') \<and> I [] s') \<or>
    (\<exists>x t s'. list_for_each_safe rd body (Ptr H) s = Some (True, Ptr x, s') \<and> Q x t s')"
proof -
  obtain q where q: "rd s (first_ptr H xs) = Some q" "xs \<noteq> [] \<Longrightarrow> q = first_ptr H (tl xs)"
    using link [of _ _ s] stop [of s] I by (cases xs) auto
  from for_each_safe_from_rule [of I body Q H rd xs s q, OF step link stop I q(2)]
  show ?thesis using start q(1) by (simp add: list_for_each_safe_def)
qed

text \<open>A loop without \<open>break\<close> visits every entry.\<close>

lemma list_for_each_safe_all:
  assumes step: "\<And>x t s. I (x # t) s \<Longrightarrow> \<exists>s'. body (Ptr x) s = Some (Next s') \<and> I t s'"
    and link: "\<And>x t s. I (x # t) s \<Longrightarrow> x \<noteq> H \<and> rd s (Ptr x) = Some (first_ptr H t)"
    and stop: "\<And>s. I [] s \<Longrightarrow> \<exists>p. rd s (Ptr H) = Some p"
    and I: "I xs s" and start: "rd s (Ptr H) = Some (first_ptr H xs)"
  shows "\<exists>s'. list_for_each_safe rd body (Ptr H) s = Some (False, Ptr H, s') \<and> I [] s'"
  using list_for_each_safe_rule [of I body "\<lambda>_ _ _. False" H rd xs s, OF _ link stop I start] step by blast

lemma for_each_from_rule:
  assumes step: "\<And>x t s. I (x # t) s \<Longrightarrow> x \<noteq> H \<and>
      ((\<exists>s'. body (Ptr x) s = Some (Next s') \<and> rd s' (Ptr x) = Some (first_ptr H t) \<and> I t s') \<or>
       (\<exists>s'. body (Ptr x) s = Some (Break s') \<and> Q x t s'))"
    and I: "I xs s"
  shows "(\<exists>s'. for_each_from rd body (Ptr H) (first_ptr H xs) s = Some (False, Ptr H, s') \<and> I [] s') \<or>
    (\<exists>x t s'. for_each_from rd body (Ptr H) (first_ptr H xs) s = Some (True, Ptr x, s') \<and> Q x t s')"
  using I
proof (induction xs arbitrary: s)
  case Nil
  then show ?case by (simp add: for_each_from.simps)
next
  case (Cons x t)
  from step [OF Cons.prems] show ?case
  proof (elim conjE disjE exE)
    fix s' assume "x \<noteq> H" and s': "body (Ptr x) s = Some (Next s')" "rd s' (Ptr x) = Some (first_ptr H t)" "I t s'"
    then show ?thesis using Cons.IH [OF s'(3)]
      by (simp add: for_each_from.simps [of rd body "Ptr H" "Ptr x" s])
  next
    fix s' assume "x \<noteq> H" "body (Ptr x) s = Some (Break s')" "Q x t s'"
    then show ?thesis by (auto simp: for_each_from.simps)
  qed
qed

lemma list_for_each_rule:
  assumes step: "\<And>x t s. I (x # t) s \<Longrightarrow> x \<noteq> H \<and>
      ((\<exists>s'. body (Ptr x) s = Some (Next s') \<and> rd s' (Ptr x) = Some (first_ptr H t) \<and> I t s') \<or>
       (\<exists>s'. body (Ptr x) s = Some (Break s') \<and> Q x t s'))"
    and I: "I xs s" and start: "rd s (Ptr H) = Some (first_ptr H xs)"
  shows "(\<exists>s'. list_for_each rd body (Ptr H) s = Some (False, Ptr H, s') \<and> I [] s') \<or>
    (\<exists>x t s'. list_for_each rd body (Ptr H) s = Some (True, Ptr x, s') \<and> Q x t s')"
  using for_each_from_rule [of I H body rd Q xs s, OF step I] start by (simp add: list_for_each_def)

lemma list_for_each_all:
  assumes step: "\<And>x t s. I (x # t) s \<Longrightarrow> x \<noteq> H \<and>
      (\<exists>s'. body (Ptr x) s = Some (Next s') \<and> rd s' (Ptr x) = Some (first_ptr H t) \<and> I t s')"
    and I: "I xs s" and start: "rd s (Ptr H) = Some (first_ptr H xs)"
  shows "\<exists>s'. list_for_each rd body (Ptr H) s = Some (False, Ptr H, s') \<and> I [] s'"
  using list_for_each_rule [of I H body rd "\<lambda>_ _ _. False" xs s, OF _ I start] step by blast

text \<open>Loops whose body runs on every entry and leaves the list alone fold over the entries.\<close>

lemma for_each_from_fold:
  assumes "\<And>x s. x \<in> set xs \<Longrightarrow> P s \<Longrightarrow> body (Ptr x) s = Some (Next (f x s)) \<and> P (f x s)"
    and "linked h (xs @ [H])" "H \<notin> set xs" "\<And>x s. P s \<Longrightarrow> rd s (Ptr x) = nx h x" "P s"
  shows "for_each_from rd body (Ptr H) (first_ptr H xs) s = Some (False, Ptr H, foldl (\<lambda>s x. f x s) s xs) \<and>
    P (foldl (\<lambda>s x. f x s) s xs)"
  using assms
proof (induction xs arbitrary: s)
  case Nil
  then show ?case by (simp add: for_each_from.simps)
next
  case (Cons x t)
  from Cons.prems(1,5) have b: "body (Ptr x) s = Some (Next (f x s))" "P (f x s)" by auto
  have n: "rd (f x s) (Ptr x) = Some (first_ptr H t)" "linked h (t @ [H])"
    using Cons.prems(2,4) b(2) by (cases t; auto)+
  have "for_each_from rd body (Ptr H) (first_ptr H t) (f x s) =
      Some (False, Ptr H, foldl (\<lambda>s x. f x s) (f x s) t) \<and> P (foldl (\<lambda>s x. f x s) (f x s) t)"
    using Cons.prems n(2) b(2) by (intro Cons.IH) auto
  with b n Cons.prems(3) show ?case by (subst for_each_from.simps) auto
qed

lemma list_for_each_fold:
  assumes "dlist h H xs" "\<And>x s. x \<in> set xs \<Longrightarrow> P s \<Longrightarrow> body (Ptr x) s = Some (Next (f x s)) \<and> P (f x s)"
    and "\<And>x s. P s \<Longrightarrow> rd s (Ptr x) = nx h x" "P s"
  shows "list_for_each rd body (Ptr H) s = Some (False, Ptr H, foldl (\<lambda>s x. f x s) s xs)"
proof -
  have l: "linked h (xs @ [H])" "H \<notin> set xs" using assms(1) by (cases xs; auto simp: dlist_def)+
  have "rd s (Ptr H) = Some (first_ptr H xs)" using assms(3,4) dlist_first [OF assms(1)] by simp
  with for_each_from_fold [of xs P body f h H rd s, OF assms(2) l assms(3,4)] show ?thesis
    by (simp add: list_for_each_def)
qed

section \<open>Loops over two states\<close>

text \<open>A loop whose body runs on either of two related states.\<close>

fun same_ctl :: "('s \<Rightarrow> 't \<Rightarrow> bool) \<Rightarrow> 's ctl \<Rightarrow> 't ctl \<Rightarrow> bool" where
  "same_ctl R (Next s) (Next t) = R s t"
| "same_ctl R (Break s) (Break t) = R s t"
| "same_ctl R _ _ = False"

lemma for_each_safe_from_same:
  assumes "for_each_safe_from rd body H pos q s = Some r"
  shows "\<forall>t. (\<forall>p s t. R s t \<longrightarrow> rd' t p = rd s p) \<longrightarrow>
    (\<forall>p s t c. R s t \<longrightarrow> body p s = Some c \<longrightarrow> (\<exists>c'. body' p t = Some c' \<and> same_ctl R c c')) \<longrightarrow> R s t \<longrightarrow>
    (\<exists>t'. for_each_safe_from rd' body' H pos q t = Some (fst r, fst (snd r), t') \<and> R (snd (snd r)) t')"
  using assms
proof (rule for_each_safe_from.raw_induct [rotated], intro allI impI)
  fix f rd body H pos q s r t
  assume IH: "\<And>rd body H pos q s r. f rd body H pos q s = Some r \<Longrightarrow> \<forall>t. (\<forall>p s t. R s t \<longrightarrow> rd' t p = rd s p) \<longrightarrow>
    (\<forall>p s t c. R s t \<longrightarrow> body p s = Some c \<longrightarrow> (\<exists>c'. body' p t = Some c' \<and> same_ctl R c c')) \<longrightarrow> R s t \<longrightarrow>
    (\<exists>t'. for_each_safe_from rd' body' H pos q t = Some (fst r, fst (snd r), t') \<and> R (snd (snd r)) t')"
    and run: "(if pos = H then Some (False, pos, s) else do {
        c \<leftarrow> body pos s;
        (case c of Break s' \<Rightarrow> Some (True, pos, s') | Next s' \<Rightarrow> do { n \<leftarrow> rd s' q; f rd body H q n s' }) }) = Some r"
    and rd: "\<forall>p s t. R s t \<longrightarrow> rd' t p = rd s p"
    and body: "\<forall>p s t c. R s t \<longrightarrow> body p s = Some c \<longrightarrow> (\<exists>c'. body' p t = Some c' \<and> same_ctl R c c')" and R: "R s t"
  show "\<exists>t'. for_each_safe_from rd' body' H pos q t = Some (fst r, fst (snd r), t') \<and> R (snd (snd r)) t'"
  proof (cases "pos = H")
    case True
    then show ?thesis using run R by (auto simp: for_each_safe_from.simps)
  next
    case False
    then obtain c where c: "body pos s = Some c" using run by (auto simp: bind_eq_Some_conv)
    obtain c' where c': "body' pos t = Some c'" "same_ctl R c c'" using body R c by blast
    show ?thesis
    proof (cases c)
      case (Next s1)
      then obtain t1 where t1: "c' = Next t1" "R s1 t1" using c'(2) by (cases c') auto
      obtain n where n: "rd s1 q = Some n" "f rd body H q n s1 = Some r" using run False c Next by (auto simp: bind_eq_Some_conv)
      have "\<exists>t'. for_each_safe_from rd' body' H q n t1 = Some (fst r, fst (snd r), t') \<and> R (snd (snd r)) t'"
        using IH [OF n(2)] rd body t1(2) by blast
      then show ?thesis using False c'(1) t1 rd t1(2) n(1) by (simp add: for_each_safe_from.simps [of rd'])
    next
      case (Break s1)
      then obtain t1 where t1: "c' = Break t1" "R s1 t1" using c'(2) by (cases c') auto
      then show ?thesis using False c'(1) run c Break by (auto simp: for_each_safe_from.simps [of rd'])
    qed
  qed
qed

lemma for_each_from_same:
  assumes "for_each_from rd body H pos s = Some r"
  shows "\<forall>t. (\<forall>p s t. R s t \<longrightarrow> rd' t p = rd s p) \<longrightarrow>
    (\<forall>p s t c. R s t \<longrightarrow> body p s = Some c \<longrightarrow> (\<exists>c'. body' p t = Some c' \<and> same_ctl R c c')) \<longrightarrow> R s t \<longrightarrow>
    (\<exists>t'. for_each_from rd' body' H pos t = Some (fst r, fst (snd r), t') \<and> R (snd (snd r)) t')"
  using assms
proof (rule for_each_from.raw_induct [rotated], intro allI impI)
  fix f rd body H pos s r t
  assume IH: "\<And>rd body H pos s r. f rd body H pos s = Some r \<Longrightarrow> \<forall>t. (\<forall>p s t. R s t \<longrightarrow> rd' t p = rd s p) \<longrightarrow>
    (\<forall>p s t c. R s t \<longrightarrow> body p s = Some c \<longrightarrow> (\<exists>c'. body' p t = Some c' \<and> same_ctl R c c')) \<longrightarrow> R s t \<longrightarrow>
    (\<exists>t'. for_each_from rd' body' H pos t = Some (fst r, fst (snd r), t') \<and> R (snd (snd r)) t')"
    and run: "(if pos = H then Some (False, pos, s) else do {
        c \<leftarrow> body pos s;
        (case c of Break s' \<Rightarrow> Some (True, pos, s') | Next s' \<Rightarrow> do { n \<leftarrow> rd s' pos; f rd body H n s' }) }) = Some r"
    and rd: "\<forall>p s t. R s t \<longrightarrow> rd' t p = rd s p"
    and body: "\<forall>p s t c. R s t \<longrightarrow> body p s = Some c \<longrightarrow> (\<exists>c'. body' p t = Some c' \<and> same_ctl R c c')" and R: "R s t"
  show "\<exists>t'. for_each_from rd' body' H pos t = Some (fst r, fst (snd r), t') \<and> R (snd (snd r)) t'"
  proof (cases "pos = H")
    case True
    then show ?thesis using run R by (auto simp: for_each_from.simps)
  next
    case False
    then obtain c where c: "body pos s = Some c" using run by (auto simp: bind_eq_Some_conv)
    obtain c' where c': "body' pos t = Some c'" "same_ctl R c c'" using body R c by blast
    show ?thesis
    proof (cases c)
      case (Next s1)
      then obtain t1 where t1: "c' = Next t1" "R s1 t1" using c'(2) by (cases c') auto
      obtain n where n: "rd s1 pos = Some n" "f rd body H n s1 = Some r" using run False c Next by (auto simp: bind_eq_Some_conv)
      have "\<exists>t'. for_each_from rd' body' H n t1 = Some (fst r, fst (snd r), t') \<and> R (snd (snd r)) t'"
        using IH [OF n(2)] rd body t1(2) by blast
      then show ?thesis using False c'(1) t1 rd t1(2) n(1) by (simp add: for_each_from.simps [of rd'])
    next
      case (Break s1)
      then obtain t1 where t1: "c' = Break t1" "R s1 t1" using c'(2) by (cases c') auto
      then show ?thesis using False c'(1) run c Break by (auto simp: for_each_from.simps [of rd'])
    qed
  qed
qed

lemma list_for_each_safe_same:
  assumes "list_for_each_safe rd body H s = Some (b, p, s')" "R s t" "\<And>p s t. R s t \<Longrightarrow> rd' t p = rd s p"
    and "\<And>p s t c. R s t \<Longrightarrow> body p s = Some c \<Longrightarrow> \<exists>c'. body' p t = Some c' \<and> same_ctl R c c'"
  shows "\<exists>t'. list_for_each_safe rd' body' H t = Some (b, p, t') \<and> R s' t'"
proof -
  obtain pos q where r: "rd s H = Some pos" "rd s pos = Some q" "for_each_safe_from rd body H pos q s = Some (b, p, s')"
    using assms(1) by (auto simp: list_for_each_safe_def bind_eq_Some_conv)
  have "\<exists>t'. for_each_safe_from rd' body' H pos q t = Some (b, p, t') \<and> R s' t'"
    using for_each_safe_from_same [OF r(3), of R rd' body'] assms(2-4) by auto
  then show ?thesis using r(1,2) assms(3) [OF assms(2)] by (simp add: list_for_each_safe_def)
qed

lemma list_for_each_same:
  assumes "list_for_each rd body H s = Some (b, p, s')" "R s t" "\<And>p s t. R s t \<Longrightarrow> rd' t p = rd s p"
    and "\<And>p s t c. R s t \<Longrightarrow> body p s = Some c \<Longrightarrow> \<exists>c'. body' p t = Some c' \<and> same_ctl R c c'"
  shows "\<exists>t'. list_for_each rd' body' H t = Some (b, p, t') \<and> R s' t'"
proof -
  obtain pos where r: "rd s H = Some pos" "for_each_from rd body H pos s = Some (b, p, s')"
    using assms(1) by (auto simp: list_for_each_def bind_eq_Some_conv)
  have "\<exists>t'. for_each_from rd' body' H pos t = Some (b, p, t') \<and> R s' t'"
    using for_each_from_same [OF r(2), of R rd' body'] assms(2-4) by auto
  then show ?thesis using r(1) assms(3) [OF assms(2)] by (simp add: list_for_each_def)
qed

end
