(* ===== verification/LinkedListSpec.thy ===== *)
theory LinkedListSpec
  imports LinkedList
begin

text \<open>
  The bulk operations of \<^verbatim>\<open>linked_list.h\<close>: what they do to the lists they take apart and
  put together.
\<close>

section \<open>Joining chains\<close>

lemma set_next_prev: "set_next a v (set_prev b w h) = set_prev b w (set_next a v h)"
  by (cases "a = b"; cases "h b") (auto simp: set_next_def set_prev_def fun_eq_iff)

lemma linked_join:
  assumes "linked h (P @ [a])" "linked h (b # S)" "a \<in> dom h" "b \<in> dom h"
    and d: "a \<notin> set P" "b \<notin> set (tl (P @ [a]))" "a \<notin> set (butlast (b # S))" "b \<notin> set S"
  shows "linked (set_next a (Ptr b) (set_prev b (Ptr a) h)) (P @ a # b # S)"
  using assms by (auto simp: linked_parts heap_simps)

lemma linked_keep:
  assumes "linked h L" "a \<notin> set (butlast L)" "b \<notin> set (tl L)"
  shows "linked (set_next a v (set_prev b w h)) L"
  using assms by (simp add: heap_simps)

text \<open>Putting the chain \<open>zs\<close> into the gap of a list.\<close>

lemma linked_splice:
  assumes L: "linked h (P @ [a])" "linked h (b # S)" "linked h zs" and z: "zs \<noteq> []"
    and dom: "a \<in> dom h" "b \<in> dom h" "hd zs \<in> dom h" "last zs \<in> dom h"
    and d: "a \<notin> set P" "b \<notin> set (tl (P @ [a]))" "a \<notin> set (butlast (b # S))" "b \<notin> set S"
    and dj: "distinct zs" "set zs \<inter> set (P @ a # b # S) = {}"
  shows "linked (set_prev b (Ptr (last zs)) (set_next (last zs) (Ptr b) (set_next a (Ptr (hd zs)) (set_prev (hd zs) (Ptr a) h))))
    (P @ a # zs @ b # S)"
proof -
  let ?h = "set_next a (Ptr (hd zs)) (set_prev (hd zs) (Ptr a) h)"
  obtain f fs where f: "zs = f # fs" using z by (cases zs) auto
  obtain ls l where l: "zs = ls @ [l]" using z by (cases zs rule: rev_cases) auto
  have hl: "hd zs = f" "last zs = l" using f l by (simp, metis last_snoc)
  have nz: "c \<in> set zs \<Longrightarrow> c \<notin> set P \<and> c \<noteq> a \<and> c \<noteq> b \<and> c \<notin> set S" for c using dj(2) by auto
  have m: "f \<in> set zs" "l \<in> set zs" "set fs \<subseteq> set zs" "set ls \<subseteq> set zs"
    subgoal using f by simp
    subgoal using l by simp
    subgoal using f by auto
    subgoal using l by auto
    done
  have 1: "linked ?h (P @ a # zs)"
    unfolding f hl(1) [unfolded f]
    using L(1) L(3) dom(1,3) d(1) nz dj(1)
    by (intro linked_join [where S = fs]) (auto simp: f dest!: in_set_tlD in_set_butlastD)
  have 2: "linked ?h (b # S)"
    using L(2) d(3) nz [OF m(1)] hl by (intro linked_keep) auto
  have 3: "linked (set_next l (Ptr b) (set_prev b (Ptr l) ?h)) ((P @ a # ls) @ l # b # S)"
  proof (rule linked_join [OF _ 2])
    show "linked ?h ((P @ a # ls) @ [l])" using 1 by (simp add: l)
    show "l \<notin> set (P @ a # ls)" using nz [OF m(2)] dj(1) by (simp add: l)
    have "b \<notin> set (tl (P @ [a])) \<Longrightarrow> b \<notin> set (tl (P @ a # ls @ [l]))"
      using nz m(2,4) by (cases P) auto
    then show "b \<notin> set (tl ((P @ a # ls) @ [l]))" using d(2) by simp
    show "l \<notin> set (butlast (b # S))" using nz [OF m(2)] by (auto dest: in_set_butlastD)
  qed (use dom d(4) hl in \<open>auto simp: heap_simps\<close>)
  then show ?thesis unfolding hl by (simp add: l set_next_prev)
qed

lemma linked_segment: "linked h (xs @ ys @ zs) \<Longrightarrow> linked h ys"
proof -
  assume *: "linked h (xs @ ys @ zs)"
  have "linked h (ys @ zs)" if "linked h (xs @ ys @ zs)" for xs
    using that
  proof (induction xs)
    case (Cons x xs)
    then show ?case by (cases "xs @ ys @ zs") auto
  qed simp
  with * have l: "linked h (ys @ zs)" by blast
  then show "linked h ys"
  proof (induction ys rule: induct_list012)
    case (2 x)
    then show ?case by simp
  qed auto
qed

lemma raw_list_splice_dlist:
  assumes H: "dlist h H (xs @ ys)" and L: "dlist h L zs" and z: "zs \<noteq> []"
    and dj: "set zs \<inter> set (H # xs @ ys) = {}"
  shows "\<exists>h'. raw_list_splice h (Ptr L) (Ptr (last (H # xs))) (first_ptr H ys) = Some h' \<and>
    relist h h' H (xs @ zs @ ys) (set (H # xs @ ys @ zs))"
proof -
  from H have di: "distinct (H # xs @ ys)" and LH: "linked h (H # xs @ ys @ [H])"
    by (auto simp: dlist_def)
  from di obtain P a b S where g: "H # xs = P @ [a]" "ys @ [H] = b # S" "last (H # xs) = a"
    "first_ptr H ys = Ptr b" "a \<notin> set P" "b \<notin> set (tl (P @ [a]))" "a \<notin> set (butlast (b # S))"
    "b \<notin> set S" "set (P @ a # b # S) \<subseteq> set (H # xs @ ys)"
    by (rule gap_split)
  have chain: "H # xs @ ws @ ys @ [H] = P @ a # ws @ b # S" for ws
    using g(1,2) by (metis append.assoc append_Cons append_Nil)
  from LH have L': "linked h (P @ a # b # S)" using chain [of "[]"] by simp
  then have ab: "a \<in> dom h" "b \<in> dom h" "linked h (P @ [a])" "linked h (b # S)"
    by (auto simp: linked_parts dest: nx_dom pv_dom)
  have zs: "linked h zs" "distinct zs"
    using L linked_segment [of h "[L]" zs "[L]"] by (auto simp: dlist_def)
  have zd: "hd zs \<in> dom h" "last zs \<in> dom h" using dlist_dom [OF L] hd_in_set [OF z] last_in_set [OF z] by auto
  have fl: "nx h L = Some (Ptr (hd zs))" "pv h L = Some (Ptr (last zs))"
    using dlist_first [OF L] dlist_last [OF L] z by (cases zs; auto)+
  let ?h = "set_prev b (Ptr (last zs)) (set_next (last zs) (Ptr b) (set_next a (Ptr (hd zs)) (set_prev (hd zs) (Ptr a) h)))"
  have "linked ?h (P @ a # zs @ b # S)"
    using ab zs zd z g(5-8) dj g(9) by (intro linked_splice) blast+
  then have "dlist ?h H (xs @ zs @ ys)"
    using di zs(2) dj chain [of zs] by (auto simp: dlist_def)
  moreover have "raw_list_splice h (Ptr L) (Ptr (last (H # xs))) (first_ptr H ys) = Some ?h"
    using ab zd fl by (simp add: raw_list_splice_def g(3,4) heap_simps del: last.simps)
  moreover have "\<forall>c. c \<notin> set (H # xs @ ys @ zs) \<longrightarrow> ?h c = h c"
  proof (intro allI impI)
    fix c assume c: "c \<notin> set (H # xs @ ys @ zs)"
    then have "c \<noteq> a" "c \<noteq> b" "c \<noteq> hd zs" "c \<noteq> last zs" using g(9) z by auto
    then show "?h c = h c" by (simp add: heap_simps)
  qed
  ultimately show ?thesis by (intro exI [of _ ?h]) (simp add: relist_def heap_simps)
qed

lemma list_splice_dlist:
  assumes "dlist h H ys" "dlist h L zs" "set (L # zs) \<inter> set (H # ys) = {}"
  shows "\<exists>h'. list_splice h (Ptr L) (Ptr H) = Some h' \<and> relist h h' H (zs @ ys) (set (H # ys @ zs))"
proof (cases "zs = []")
  case True
  then show ?thesis using assms list_empty_dlist [OF assms(2)] by (simp add: list_splice_def relist_def)
next
  case False
  then show ?thesis
    using raw_list_splice_dlist [of h H "[]" ys L zs] assms list_empty_dlist [OF assms(2)] dlist_first [OF assms(1)]
    by (simp add: list_splice_def heap_simps)
qed

lemma list_splice_tail_dlist:
  assumes "dlist h H xs" "dlist h L zs" "set (L # zs) \<inter> set (H # xs) = {}"
  shows "\<exists>h'. list_splice_tail h (Ptr L) (Ptr H) = Some h' \<and> relist h h' H (xs @ zs) (set (H # xs @ zs))"
proof (cases "zs = []")
  case True
  then show ?thesis using assms list_empty_dlist [OF assms(2)] by (simp add: list_splice_tail_def relist_def)
next
  case False
  then show ?thesis
    using raw_list_splice_dlist [of h H xs "[]" L zs] assms list_empty_dlist [OF assms(2)] dlist_last [OF assms(1)]
    by (simp add: list_splice_tail_def heap_simps del: last.simps)
qed

text \<open>The \<open>_init\<close> variants also leave the source list empty.\<close>

lemma relist_init:
  assumes r: "relist h h1 H xs F" and L: "L \<in> dom h" "L \<notin> set (H # xs)"
  shows "\<exists>h'. INIT_LIST_HEAD h1 (Ptr L) = Some h' \<and> relist h h' H xs (insert L F) \<and> dlist h' L []"
proof -
  have "L \<in> dom h1" using L(1) relist_dom [OF r] by simp
  from INIT_LIST_HEAD_dlist [OF this] obtain h' where
    h': "INIT_LIST_HEAD h1 (Ptr L) = Some h'" "relist h1 h' L [] {L}" by auto
  have "dlist h' H xs" using relist_dlist [OF r] L(2) by (intro relist_keeps [OF h'(2)]) auto
  with r h' show ?thesis by (auto simp: relist_def)
qed

lemma list_splice_init_dlist:
  assumes "dlist h H ys" "dlist h L zs" "set (L # zs) \<inter> set (H # ys) = {}"
  shows "\<exists>h'. list_splice_init h (Ptr L) (Ptr H) = Some h' \<and>
    relist h h' H (zs @ ys) (set (L # H # ys @ zs)) \<and> dlist h' L []"
proof (cases "zs = []")
  case True
  then show ?thesis using assms list_empty_dlist [OF assms(2)] by (simp add: list_splice_init_def relist_def)
next
  case False
  have L: "L \<in> dom h" "L \<notin> set (H # zs @ ys)" using assms(2,3) dlist_dom [OF assms(2)] by (auto simp: dlist_def)
  obtain h1 where h1: "raw_list_splice h (Ptr L) (Ptr H) (first_ptr H ys) = Some h1" "relist h h1 H (zs @ ys) (set (H # ys @ zs))"
    using raw_list_splice_dlist [of h H "[]" ys L zs] assms False by auto
  then show ?thesis
    using relist_init [OF h1(2) L] list_empty_dlist [OF assms(2)] dlist_first [OF assms(1)] False
    by (simp add: list_splice_init_def heap_simps)
qed

lemma list_splice_tail_init_dlist:
  assumes "dlist h H xs" "dlist h L zs" "set (L # zs) \<inter> set (H # xs) = {}"
  shows "\<exists>h'. list_splice_tail_init h (Ptr L) (Ptr H) = Some h' \<and>
    relist h h' H (xs @ zs) (set (L # H # xs @ zs)) \<and> dlist h' L []"
proof (cases "zs = []")
  case True
  then show ?thesis using assms list_empty_dlist [OF assms(2)] by (simp add: list_splice_tail_init_def relist_def)
next
  case False
  have L: "L \<in> dom h" "L \<notin> set (H # xs @ zs)" using assms(2,3) dlist_dom [OF assms(2)] by (auto simp: dlist_def)
  obtain h1 where h1: "raw_list_splice h (Ptr L) (Ptr (last (H # xs))) (Ptr H) = Some h1" "relist h h1 H (xs @ zs) (set (H # xs @ zs))"
    using raw_list_splice_dlist [of h H xs "[]" L zs] assms False by auto
  then show ?thesis
    using relist_init [OF h1(2) L] list_empty_dlist [OF assms(2)] dlist_last [OF assms(1)] False
    by (simp add: list_splice_tail_init_def heap_simps del: last.simps)
qed

section \<open>Moving, rotating, replacing, swapping\<close>

lemma list_move_dlist:
  assumes "dlist h K (xs @ x # ys)" "dlist h H zs" "set (K # xs @ x # ys) \<inter> set (H # zs) = {}"
  shows "\<exists>h'. list_move h (Ptr x) (Ptr H) = Some h' \<and> dlist h' K (xs @ ys) \<and> dlist h' H (x # zs) \<and> dom h' = dom h"
proof -
  obtain h1 where h1: "raw_list_del_entry h (Ptr x) = Some h1" "relist h h1 K (xs @ ys) (set (K # xs @ ys))"
    using raw_list_del_entry_dlist [OF assms(1)] by auto
  have H1: "dlist h1 H zs" using assms(2,3) by (intro relist_keeps [OF h1(2)]) auto
  have x: "x \<in> dom h1" "x \<notin> set (H # zs)" using dlist_dom [OF assms(1)] relist_dom [OF h1(2)] assms(3) by auto
  from list_add_dlist [OF H1 x] obtain h2 where h2: "list_add h1 (Ptr x) (Ptr H) = Some h2"
    "relist h1 h2 H (x # zs) (set (x # H # zs))" by auto
  have "dlist h2 K (xs @ ys)" using relist_dlist [OF h1(2)] assms(1,3)
    by (intro relist_keeps [OF h2(2)]) (auto simp: dlist_def)
  with h1 h2 relist_dlist [OF h2(2)] relist_dom [OF h2(2)] relist_dom [OF h1(2)] show ?thesis
    by (simp add: list_move_def)
qed

lemma list_move_tail_dlist:
  assumes "dlist h K (xs @ x # ys)" "dlist h H zs" "set (K # xs @ x # ys) \<inter> set (H # zs) = {}"
  shows "\<exists>h'. list_move_tail h (Ptr x) (Ptr H) = Some h' \<and> dlist h' K (xs @ ys) \<and> dlist h' H (zs @ [x]) \<and> dom h' = dom h"
proof -
  obtain h1 where h1: "raw_list_del_entry h (Ptr x) = Some h1" "relist h h1 K (xs @ ys) (set (K # xs @ ys))"
    using raw_list_del_entry_dlist [OF assms(1)] by auto
  have H1: "dlist h1 H zs" using assms(2,3) by (intro relist_keeps [OF h1(2)]) auto
  have x: "x \<in> dom h1" "x \<notin> set (H # zs)" using dlist_dom [OF assms(1)] relist_dom [OF h1(2)] assms(3) by auto
  from list_add_tail_dlist [OF H1 x] obtain h2 where h2: "list_add_tail h1 (Ptr x) (Ptr H) = Some h2"
    "relist h1 h2 H (zs @ [x]) (set (x # H # zs))" by auto
  have "dlist h2 K (xs @ ys)" using relist_dlist [OF h1(2)] assms(1,3)
    by (intro relist_keeps [OF h2(2)]) (auto simp: dlist_def)
  with h1 h2 relist_dlist [OF h2(2)] relist_dom [OF h2(2)] relist_dom [OF h1(2)] show ?thesis
    by (simp add: list_move_tail_def)
qed

text \<open>Within one list, moving an entry to the tail rotates it there.\<close>

lemma list_move_tail_same:
  assumes "dlist h H (xs @ x # ys)"
  shows "\<exists>h'. list_move_tail h (Ptr x) (Ptr H) = Some h' \<and> relist h h' H (xs @ ys @ [x]) (set (H # xs @ x # ys))"
proof -
  obtain h1 where h1: "raw_list_del_entry h (Ptr x) = Some h1" "relist h h1 H (xs @ ys) (set (H # xs @ ys))"
    using raw_list_del_entry_dlist [OF assms] by auto
  have x: "x \<in> dom h1" "x \<notin> set (H # xs @ ys)"
    using dlist_dom [OF assms] relist_dom [OF h1(2)] assms by (auto simp: dlist_def)
  from list_add_tail_dlist [OF relist_dlist [OF h1(2)] x] obtain h2 where
    h2: "list_add_tail h1 (Ptr x) (Ptr H) = Some h2" "relist h1 h2 H ((xs @ ys) @ [x]) (set (x # H # xs @ ys))" by auto
  with h1 show ?thesis by (auto simp: list_move_tail_def relist_def)
qed

lemma list_rotate_left_dlist:
  assumes "dlist h H xs"
  shows "\<exists>h'. list_rotate_left h (Ptr H) = Some h' \<and> relist h h' H (rotate1 xs) (set (H # xs))"
proof (cases xs)
  case Nil
  then show ?thesis using assms list_empty_dlist [OF assms] by (simp add: list_rotate_left_def relist_def)
next
  case (Cons x ys)
  then show ?thesis
    using assms list_empty_dlist [OF assms] dlist_first [OF assms] list_move_tail_same [of h H "[]" x ys]
    by (simp add: list_rotate_left_def heap_simps)
qed

lemma list_is_singular_dlist: "dlist h H xs \<Longrightarrow> list_is_singular h (Ptr H) = Some (length xs = 1)"
proof -
  assume d: "dlist h H xs"
  show ?thesis
  proof (cases xs)
    case Nil
    then show ?thesis using list_empty_dlist [OF d] by (simp add: list_is_singular_def)
  next
    case (Cons x ys)
    then have "distinct (x # ys)" using d by (simp add: dlist_def)
    then have "x = last (x # ys) \<longleftrightarrow> ys = []" using last_in_set [of ys] by (cases ys) auto
    then show ?thesis using list_empty_dlist [OF d] dlist_first [OF d] dlist_last [OF d] Cons
      by (simp add: list_is_singular_def heap_simps)
  qed
qed

lemma list_is_first_dlist:
  assumes "dlist h H (xs @ x # ys)"
  shows "list_is_first h (Ptr x) (Ptr H) = Some (xs = [])"
proof -
  have "last (H # xs) = H \<longleftrightarrow> xs = []" using assms last_in_set [of xs] by (cases xs) (auto simp: dlist_def)
  then show ?thesis using dlist_prev [OF assms] by (simp add: list_is_first_def heap_simps del: last.simps)
qed

lemma list_is_last_dlist:
  assumes "dlist h H (xs @ x # ys)"
  shows "list_is_last h (Ptr x) (Ptr H) = Some (ys = [])"
  using dlist_next [OF assms] assms by (cases ys) (auto simp: list_is_last_def heap_simps dlist_def)

lemma list_replace_dlist:
  assumes H: "dlist h H (xs @ x # ys)" and n: "n \<in> dom h" "n \<notin> set (H # xs @ x # ys)"
  shows "\<exists>h'. list_replace h (Ptr x) (Ptr n) = Some h' \<and> relist h h' H (xs @ n # ys) (set (n # H # xs @ ys)) \<and> h' x = h x"
proof -
  from H have di: "distinct (H # xs @ ys)" and L: "linked h (H # xs @ x # ys @ [H])"
    by (auto simp: dlist_def)
  from di obtain P a b S where g: "H # xs = P @ [a]" "ys @ [H] = b # S" "last (H # xs) = a"
    "first_ptr H ys = Ptr b" "a \<notin> set P" "b \<notin> set (tl (P @ [a]))" "a \<notin> set (butlast (b # S))"
    "b \<notin> set S" "set (P @ a # b # S) \<subseteq> set (H # xs @ ys)"
    by (rule gap_split)
  have chain: "H # xs @ zs @ ys @ [H] = P @ a # zs @ b # S" for zs
    using g(1,2) by (metis append.assoc append_Cons append_Nil)
  from L have L': "linked h (P @ a # x # b # S)" using chain [of "[x]"] by simp
  then have ab: "a \<in> dom h" "b \<in> dom h" "x \<in> dom h" by (auto simp: linked_parts dest: nx_dom pv_dom)
  have px: "nx h x = Some (Ptr b)" "pv h x = Some (Ptr a)" using dlist_next [OF H] dlist_prev [OF H] g(3,4) by auto
  have ne: "x \<noteq> a" "x \<noteq> b" "n \<noteq> a" "n \<noteq> b" "n \<noteq> x" using H n(2) g(9) by (auto simp: dlist_def)
  let ?h1 = "set_next n (Ptr b) h"
  let ?h2 = "set_next a (Ptr n) (set_prev n (Ptr a) (set_prev b (Ptr n) ?h1))"
  have r: "list_replace h (Ptr x) (Ptr n) = Some ?h2"
    using ab n(1) px ne by (simp add: list_replace_def heap_simps)
  have nPS: "n \<notin> set P" "n \<notin> set S" using n(2) g(9) by auto
  then have nt: "n \<notin> set (tl (P @ [a]))" using ne by (cases P) auto
  from nPS have nb: "n \<notin> set (butlast (b # S))" using ne by (auto dest: in_set_butlastD split: if_splits)
  have 1: "linked (set_prev b (Ptr n) ?h1) ([n] @ b # S)"
  proof -
    have "linked ?h1 (b # S)" using L' nb by (simp add: linked_parts heap_simps)
    then have "linked (set_prev b (Ptr n) ?h1) (b # S)" using g(8) by (simp add: heap_simps)
    then show ?thesis using n(1) ab(2) by (simp add: heap_simps)
  qed
  have 2: "linked (set_prev b (Ptr n) ?h1) (P @ [a])"
    using L' nPS ne g(6) by (auto simp: linked_parts heap_simps dest: in_set_butlastD)
  have "linked ?h2 (P @ a # n # b # S)"
    using linked_join [of _ P a n "b # S", OF 2] 1 ab n(1) nPS nt ne g(5,7)
    by (auto simp: heap_simps dest: in_set_tlD)
  then have "dlist ?h2 H (xs @ n # ys)" using di n(2) chain [of "[n]"] by (auto simp: dlist_def)
  moreover have "\<forall>c. c \<notin> set (n # H # xs @ ys) \<longrightarrow> ?h2 c = h c"
  proof (intro allI impI)
    fix c assume "c \<notin> set (n # H # xs @ ys)"
    then have "c \<noteq> a" "c \<noteq> b" "c \<noteq> n" using g(9) by auto
    then show "?h2 c = h c" by (simp add: heap_simps)
  qed
  moreover have "?h2 x = h x" using ne by (simp add: heap_simps)
  ultimately show ?thesis using r by (intro exI [of _ ?h2]) (simp add: relist_def heap_simps)
qed


lemma list_add_after:
  assumes "dlist h H (xs @ ys)" "n \<in> dom h" "n \<notin> set (H # xs @ ys)"
  shows "\<exists>h'. list_add h (Ptr n) (Ptr (last (H # xs))) = Some h' \<and>
    relist h h' H (xs @ n # ys) (set (n # H # xs @ ys))"
proof -
  have "rd_next h (Ptr (last (H # xs))) = Some (first_ptr H ys)"
  proof (cases xs rule: rev_cases)
    case Nil
    then show ?thesis using dlist_first [of h H ys] assms(1) by (simp add: heap_simps)
  next
    case (snoc zs z)
    then show ?thesis using dlist_next [of h H zs z ys] assms(1) by (simp add: heap_simps)
  qed
  then show ?thesis using raw_list_add_dlist [OF assms] by (simp add: list_add_def del: last.simps)
qed

lemma list_swap_forward:
  assumes d: "dlist h H (xs @ a # ys @ b # zs)"
  shows "\<exists>h'. list_swap h (Ptr a) (Ptr b) = Some h' \<and> dlist h' H (xs @ b # ys @ a # zs) \<and> dom h' = dom h"
proof -
  have di: "distinct (H # xs @ a # ys @ b # zs)" using d by (simp add: dlist_def)
  have ab: "a \<in> dom h" "b \<in> dom h" using dlist_dom [OF d] by auto
  have pos: "pv h b = Some (Ptr (last (H # xs @ a # ys)))" using dlist_prev [of h H "xs @ a # ys" b zs] d by simp
  obtain h1 where h1: "list_del h (Ptr b) = Some h1" "relist h h1 H (xs @ a # ys @ zs) (set (H # xs @ a # ys @ b # zs))"
    using list_del_dlist [of h H "xs @ a # ys" b zs] d by auto
  have "b \<in> dom h1" using relist_dom [OF h1(2)] ab by simp
  from list_replace_dlist [OF relist_dlist [OF h1(2)] this] di obtain h2 where
    h2: "list_replace h1 (Ptr a) (Ptr b) = Some h2" "relist h1 h2 H (xs @ b # ys @ zs) (set (b # H # xs @ ys @ zs))" by auto
  have "a \<in> dom h2" using relist_dom [OF h1(2)] relist_dom [OF h2(2)] ab by simp
  from list_add_after [of h2 H "xs @ b # ys" zs a] relist_dlist [OF h2(2)] this di obtain h3 where
    h3: "list_add h2 (Ptr a) (Ptr (last (H # xs @ b # ys))) = Some h3"
    "relist h2 h3 H ((xs @ b # ys) @ a # zs) (set (a # H # (xs @ b # ys) @ zs))" by auto
  have p: "(if Ptr (last (H # xs @ a # ys)) = Ptr a then Ptr b else Ptr (last (H # xs @ a # ys))) = Ptr (last (H # xs @ b # ys))"
  proof (cases ys rule: rev_cases)
    case (snoc ws w)
    then show ?thesis using di by auto
  qed simp
  have "list_swap h (Ptr a) (Ptr b) = Some h3"
    using h1(1) h2(1) h3(1) pos p by (simp add: list_swap_def heap_simps del: last.simps)
  with relist_dlist [OF h3(2)] relist_dom [OF h3(2)] relist_dom [OF h2(2)] relist_dom [OF h1(2)] show ?thesis by simp
qed

lemma list_swap_backward:
  assumes d: "dlist h H (xs @ b # ys @ a # zs)"
  shows "\<exists>h'. list_swap h (Ptr a) (Ptr b) = Some h' \<and> dlist h' H (xs @ a # ys @ b # zs) \<and> dom h' = dom h"
proof -
  have di: "distinct (H # xs @ b # ys @ a # zs)" using d by (simp add: dlist_def)
  have ab: "a \<in> dom h" "b \<in> dom h" using dlist_dom [OF d] by auto
  have pos: "pv h b = Some (Ptr (last (H # xs)))" using dlist_prev [of h H xs b] d by simp
  obtain h1 where h1: "list_del h (Ptr b) = Some h1" "relist h h1 H ((xs @ ys) @ a # zs) (set (H # xs @ b # ys @ a # zs))"
    using list_del_dlist [of h H xs b "ys @ a # zs"] d by auto
  have "b \<in> dom h1" using relist_dom [OF h1(2)] ab by simp
  from list_replace_dlist [OF relist_dlist [OF h1(2)] this] di obtain h2 where
    h2: "list_replace h1 (Ptr a) (Ptr b) = Some h2" "relist h1 h2 H ((xs @ ys) @ b # zs) (set (b # H # (xs @ ys) @ zs))" by auto
  have "a \<in> dom h2" using relist_dom [OF h1(2)] relist_dom [OF h2(2)] ab by simp
  from list_add_after [of h2 H xs "ys @ b # zs" a] relist_dlist [OF h2(2)] this di obtain h3 where
    h3: "list_add h2 (Ptr a) (Ptr (last (H # xs))) = Some h3"
    "relist h2 h3 H (xs @ a # ys @ b # zs) (set (a # H # xs @ ys @ b # zs))" by auto
  have "last (H # xs) \<noteq> a" using di last_in_set [of xs] by (cases xs) auto
  then have "list_swap h (Ptr a) (Ptr b) = Some h3"
    using h1(1) h2(1) h3(1) pos by (simp add: list_swap_def heap_simps del: last.simps)
  with relist_dlist [OF h3(2)] relist_dom [OF h3(2)] relist_dom [OF h2(2)] relist_dom [OF h1(2)] show ?thesis by simp
qed

lemma dlist_rotate: "dlist h H (xs @ x # ys) \<Longrightarrow> dlist h x (ys @ H # xs)"
  using linked_append [of h "H # xs" x "ys @ [H]"] linked_append [of h "x # ys" H "xs @ [x]"]
  by (auto simp: dlist_def)

lemma list_rotate_to_front_dlist:
  assumes "dlist h H (xs @ x # ys)"
  shows "\<exists>h'. list_rotate_to_front h (Ptr x) (Ptr H) = Some h' \<and> dlist h' H (x # ys @ xs) \<and> dom h' = dom h"
proof -
  from list_move_tail_same [OF dlist_rotate [OF assms]] obtain h' where
    h': "list_move_tail h (Ptr H) (Ptr x) = Some h'" "relist h h' x (ys @ xs @ [H]) (set (x # ys @ H # xs))" by auto
  have "dlist h' H ([] @ x # ys @ xs)" using relist_dlist [OF h'(2)] dlist_rotate [of h' x "ys @ xs" H "[]"] by simp
  with h' relist_dom [OF h'(2)] show ?thesis by (simp add: list_rotate_to_front_def)
qed

section \<open>Cutting\<close>

lemma raw_list_cut_position_dlist:
  assumes H: "dlist h H (xs @ x # ys)" and L: "L \<in> dom h" "L \<notin> set (H # xs @ x # ys)"
  shows "\<exists>h'. raw_list_cut_position h (Ptr L) (Ptr H) (Ptr x) = Some h' \<and> dlist h' L (xs @ [x]) \<and> dlist h' H ys \<and> dom h' = dom h"
proof -
  have di: "distinct (L # H # xs @ x # ys)" and lk: "linked h (H # xs @ x # ys @ [H])" using H L(2) by (auto simp: dlist_def)
  have seg: "linked h (xs @ [x])" "linked h (ys @ [H])"
    using lk linked_segment [of h "[H]" "xs @ [x]" "ys @ [H]"] linked_segment [of h "H # xs @ [x]" "ys @ [H]" "[]"] by auto
  obtain f fs where f: "xs @ [x] = f # fs" by (cases xs) auto
  obtain b S where b: "ys @ [H] = b # S" "first_ptr H ys = Ptr b" by (cases ys) auto
  have m: "f \<in> set (xs @ [x])" "b \<in> set (ys @ [H])" unfolding f b by simp_all
  have dom: "H \<in> dom h" "x \<in> dom h" "f \<in> dom h" "b \<in> dom h" using dlist_dom [OF H] m by auto
  have ne: "f \<noteq> L" "b \<noteq> L" "x \<noteq> L" "H \<noteq> L" "x \<noteq> H" "f \<noteq> b" "b \<noteq> x" "f \<noteq> H" using di m by auto
  have fst: "first_ptr H (xs @ x # ys) = Ptr f" using f by (cases xs) auto
  have rd: "nx h x = Some (Ptr b)" "nx h H = Some (Ptr f)"
    using dlist_next [OF H] dlist_first [OF H] b(2) fst by auto
  let ?h1 = "set_next L (Ptr f) (set_prev f (Ptr L) h)"
  let ?h2 = "set_next x (Ptr L) (set_prev L (Ptr x) ?h1)"
  let ?h3 = "set_next H (Ptr b) (set_prev b (Ptr H) ?h2)"
  have "raw_list_cut_position h (Ptr L) (Ptr H) (Ptr x) = Some (set_prev b (Ptr H) (set_next H (Ptr b)
      (set_next x (Ptr L) (set_prev L (Ptr x) (set_prev f (Ptr L) (set_next L (Ptr f) h))))))"
    using dom L(1) rd ne by (simp add: raw_list_cut_position_def heap_simps)
  then have r: "raw_list_cut_position h (Ptr L) (Ptr H) (Ptr x) = Some ?h3" by (simp add: set_next_prev)
  have fS: "set (f # fs) = insert x (set xs)" "distinct (f # fs)" using di unfolding f [symmetric] by auto
  have LfS: "L \<notin> set (f # fs)" using di unfolding fS(1) by auto
  have 1: "linked ?h1 ([] @ L # f # fs)"
    using seg(1) dom L(1) f fS LfS ne by (intro linked_join) (auto dest: in_set_butlastD)
  then have "linked ?h1 ((L # xs) @ [x])" by (simp add: f [symmetric])
  then have 2: "linked ?h2 ((L # xs) @ x # L # [])"
    using di dom L(1) by (intro linked_join) (auto simp: heap_simps)
  have l: "linked ?h3 ((L # xs) @ x # L # [])"
    by (rule linked_keep [OF 2]) (use di m(2) in \<open>auto dest: in_set_butlastD\<close>)
  have bS: "set (b # S) = insert H (set ys)" "distinct (b # S)" "set (butlast (b # S)) = set ys"
    using di unfolding b(1) [symmetric] by auto
  have "L \<notin> set (b # S)" "x \<notin> set (b # S)" "f \<notin> set (b # S)" using di m(1) unfolding bS(1) by auto
  then have nb: "L \<notin> set (butlast (b # S))" "x \<notin> set (butlast (b # S))" "f \<notin> set (tl (b # S))" "L \<notin> set (tl (b # S))"
    by (auto dest: in_set_butlastD)
  have "linked h (b # S)" using seg(2) by (simp only: b(1))
  from linked_keep [OF this nb(1,3)] have "linked ?h1 (b # S)" .
  from linked_keep [OF this nb(2,4)] have "linked ?h2 (b # S)" .
  then have "linked ?h3 ([] @ H # b # S)"
    using di bS dom by (intro linked_join) (auto simp: heap_simps)
  then have "dlist ?h3 H ys" using di by (simp add: dlist_def b(1))
  moreover have "dlist ?h3 L (xs @ [x])" using l di by (simp add: dlist_def)
  ultimately show ?thesis using r by (auto simp: heap_simps)
qed

lemma list_cut_position_dlist:
  assumes H: "dlist h H (xs @ x # ys)" and L: "L \<in> dom h" "L \<notin> set (H # xs @ x # ys)"
  shows "\<exists>h'. list_cut_position h (Ptr L) (Ptr H) (Ptr x) = Some h' \<and> dlist h' L (xs @ [x]) \<and> dlist h' H ys \<and> dom h' = dom h"
proof -
  have xH: "x \<noteq> H" using H by (auto simp: dlist_def)
  have "length (xs @ x # ys) = 1 \<Longrightarrow> xs = [] \<and> ys = []" by simp
  then show ?thesis
    using raw_list_cut_position_dlist [OF assms] list_empty_dlist [OF H] list_is_singular_dlist [OF H] dlist_first [OF H] xH
    by (auto simp: list_cut_position_def heap_simps)
qed

lemma list_cut_position_at_head:
  assumes H: "dlist h H (x # xs)" and L: "L \<in> dom h" "L \<notin> set (H # x # xs)"
  shows "\<exists>h'. list_cut_position h (Ptr L) (Ptr H) (Ptr H) = Some h' \<and> dlist h' L [] \<and> dlist h' H (x # xs) \<and> dom h' = dom h"
proof -
  from INIT_LIST_HEAD_dlist [OF L(1)] obtain h' where
    h': "INIT_LIST_HEAD h (Ptr L) = Some h'" "relist h h' L [] {L}" by auto
  have "dlist h' H (x # xs)" using L by (intro relist_keeps [OF h'(2) H]) auto
  with h' relist_dlist [OF h'(2)] relist_dom [OF h'(2)] list_empty_dlist [OF H] list_is_singular_dlist [OF H] dlist_first [OF H]
  show ?thesis by (simp add: list_cut_position_def heap_simps)
qed

end
