(* ===== verification/IntrusiveList.thy ===== *)
theory IntrusiveList
  imports LinkedListSpec
begin

text \<open>
  What clients rely on when they keep their objects on intrusive lists, as an interface: a
  node can be made a list of its own, appended to a list it is not on, and taken off again, and
  lists that share no node do not disturb each other. \<^verbatim>\<open>linked_list.h\<close> provides it.
\<close>

section \<open>The interface\<close>

locale intrusive_list =
  fixes repr :: "'h \<Rightarrow> 'n \<Rightarrow> 'n list \<Rightarrow> bool"
    and allocated :: "'h \<Rightarrow> 'n set"
    and init :: "'n \<Rightarrow> 'h \<Rightarrow> 'h option"
    and push :: "'n \<Rightarrow> 'n \<Rightarrow> 'h \<Rightarrow> 'h option"
    and unlink :: "'n \<Rightarrow> 'h \<Rightarrow> 'h option"
  assumes repr_distinct: "repr h H xs \<Longrightarrow> distinct (H # xs)"
    and init_law: "n \<in> allocated h \<Longrightarrow> \<exists>h'. init n h = Some h' \<and> repr h' n [] \<and> allocated h' = allocated h \<and>
      (\<forall>K ys. n \<notin> set (K # ys) \<longrightarrow> repr h K ys \<longrightarrow> repr h' K ys)"
    and push_law: "repr h H xs \<Longrightarrow> n \<in> allocated h \<Longrightarrow> n \<notin> set (H # xs) \<Longrightarrow>
      \<exists>h'. push n H h = Some h' \<and> repr h' H (xs @ [n]) \<and> allocated h' = allocated h \<and>
      (\<forall>K ys. set (K # ys) \<inter> set (n # H # xs) = {} \<longrightarrow> repr h K ys \<longrightarrow> repr h' K ys)"
    and unlink_law: "repr h H (xs @ n # ys) \<Longrightarrow>
      \<exists>h'. unlink n h = Some h' \<and> repr h' H (xs @ ys) \<and> allocated h' = allocated h \<and>
      (\<forall>K zs. set (K # zs) \<inter> set (H # xs @ n # ys) = {} \<longrightarrow> repr h K zs \<longrightarrow> repr h' K zs)"
begin

lemma push_all:
  assumes "repr h H xs" "set ns \<subseteq> allocated h" "distinct ns" "set ns \<inter> set (H # xs) = {}"
  shows "\<exists>h'. for_list (\<lambda>n. push n H) ns h = Some h' \<and> repr h' H (xs @ ns) \<and> allocated h' = allocated h \<and>
    (\<forall>K ys. set (K # ys) \<inter> set (H # xs @ ns) = {} \<longrightarrow> repr h K ys \<longrightarrow> repr h' K ys)"
  using assms
proof (induction ns arbitrary: h xs)
  case Nil
  then show ?case by simp
next
  case (Cons n ns)
  obtain h1 where h1: "push n H h = Some h1" "repr h1 H (xs @ [n])" "allocated h1 = allocated h"
    "\<forall>K ys. set (K # ys) \<inter> set (n # H # xs) = {} \<longrightarrow> repr h K ys \<longrightarrow> repr h1 K ys"
    using push_law [OF Cons.prems(1), of n] Cons.prems(2,4) by auto
  obtain h2 where h2: "for_list (\<lambda>n. push n H) ns h1 = Some h2" "repr h2 H ((xs @ [n]) @ ns)" "allocated h2 = allocated h1"
    "\<forall>K ys. set (K # ys) \<inter> set (H # (xs @ [n]) @ ns) = {} \<longrightarrow> repr h1 K ys \<longrightarrow> repr h2 K ys"
    using Cons.IH [OF h1(2)] Cons.prems(2-4) h1(3) by auto
  have "\<forall>K ys. set (K # ys) \<inter> set (H # xs @ n # ns) = {} \<longrightarrow> repr h K ys \<longrightarrow> repr h2 K ys"
    using h1(4) h2(4) by (auto simp: Int_Un_distrib)
  with h1 h2 show ?case by simp
qed

lemma drain:
  assumes "repr h H xs"
  shows "\<exists>h'. for_list unlink xs h = Some h' \<and> repr h' H [] \<and> allocated h' = allocated h \<and>
    (\<forall>K ys. set (K # ys) \<inter> set (H # xs) = {} \<longrightarrow> repr h K ys \<longrightarrow> repr h' K ys)"
  using assms
proof (induction xs arbitrary: h)
  case Nil
  then show ?case by simp
next
  case (Cons n ns)
  obtain h1 where h1: "unlink n h = Some h1" "repr h1 H ns" "allocated h1 = allocated h"
    "\<forall>K ys. set (K # ys) \<inter> set (H # n # ns) = {} \<longrightarrow> repr h K ys \<longrightarrow> repr h1 K ys"
    using unlink_law [of h H "[]" n ns] Cons.prems by auto
  obtain h2 where h2: "for_list unlink ns h1 = Some h2" "repr h2 H []" "allocated h2 = allocated h1"
    "\<forall>K ys. set (K # ys) \<inter> set (H # ns) = {} \<longrightarrow> repr h1 K ys \<longrightarrow> repr h2 K ys"
    using Cons.IH [OF h1(2)] by blast
  have "\<forall>K ys. set (K # ys) \<inter> set (H # n # ns) = {} \<longrightarrow> repr h K ys \<longrightarrow> repr h2 K ys"
    using h1(4) h2(4) by auto
  with h1 h2 show ?case by simp
qed

lemma fill_and_drain:
  assumes "H \<in> allocated h" "set ns \<subseteq> allocated h" "distinct (H # ns)"
  shows "\<exists>h1 h2 h3. init H h = Some h1 \<and> for_list (\<lambda>n. push n H) ns h1 = Some h2 \<and> repr h2 H ns \<and>
    for_list unlink ns h2 = Some h3 \<and> repr h3 H []"
proof -
  obtain h1 where h1: "init H h = Some h1" "repr h1 H []" "allocated h1 = allocated h"
    using init_law [OF assms(1)] by blast
  obtain h2 where h2: "for_list (\<lambda>n. push n H) ns h1 = Some h2" "repr h2 H ns"
    using push_all [OF h1(2), of ns] assms h1(3) by auto
  with drain [OF h2(2)] h1(1) show ?thesis by blast
qed

end

section \<open>\<^verbatim>\<open>linked_list.h\<close> provides it\<close>

definition init_node :: "'a \<Rightarrow> 'a lheap \<Rightarrow> 'a lheap option" where
  "init_node n h = INIT_LIST_HEAD h (Ptr n)"

definition push_node :: "'a \<Rightarrow> 'a \<Rightarrow> 'a lheap \<Rightarrow> 'a lheap option" where
  "push_node n H h = list_add_tail h (Ptr n) (Ptr H)"

definition unlink_node :: "'a \<Rightarrow> 'a lheap \<Rightarrow> 'a lheap option" where
  "unlink_node n h = list_del h (Ptr n)"

interpretation ll: intrusive_list dlist dom init_node push_node unlink_node
proof unfold_locales
  show "dlist h H xs \<Longrightarrow> distinct (H # xs)" for h :: "'a lheap" and H xs
    by (simp add: dlist_def)
  show "\<exists>h'. init_node n h = Some h' \<and> dlist h' n [] \<and> dom h' = dom h \<and>
      (\<forall>K ys. n \<notin> set (K # ys) \<longrightarrow> dlist h K ys \<longrightarrow> dlist h' K ys)" if n: "n \<in> dom h" for h :: "'a lheap" and n
  proof -
    from INIT_LIST_HEAD_dlist [OF n] obtain h' where h': "init_node n h = Some h'" "relist h h' n [] {n}"
      unfolding init_node_def by blast
    have "\<forall>K ys. n \<notin> set (K # ys) \<longrightarrow> dlist h K ys \<longrightarrow> dlist h' K ys"
      by (intro allI impI relist_keeps [OF h'(2)]) auto
    with h'(1) relist_dlist [OF h'(2)] relist_dom [OF h'(2)] show ?thesis by blast
  qed
  show "\<exists>h'. push_node n H h = Some h' \<and> dlist h' H (xs @ [n]) \<and> dom h' = dom h \<and>
      (\<forall>K ys. set (K # ys) \<inter> set (n # H # xs) = {} \<longrightarrow> dlist h K ys \<longrightarrow> dlist h' K ys)"
    if p: "dlist h H xs" "n \<in> dom h" "n \<notin> set (H # xs)" for h :: "'a lheap" and n H xs
  proof -
    from list_add_tail_dlist [OF p] obtain h' where
      h': "push_node n H h = Some h'" "relist h h' H (xs @ [n]) (set (n # H # xs))"
      unfolding push_node_def by blast
    have "\<forall>K ys. set (K # ys) \<inter> set (n # H # xs) = {} \<longrightarrow> dlist h K ys \<longrightarrow> dlist h' K ys"
      by (intro allI impI relist_keeps [OF h'(2)]) blast+
    with h'(1) relist_dlist [OF h'(2)] relist_dom [OF h'(2)] show ?thesis by blast
  qed
  show "\<exists>h'. unlink_node n h = Some h' \<and> dlist h' H (xs @ ys) \<and> dom h' = dom h \<and>
      (\<forall>K zs. set (K # zs) \<inter> set (H # xs @ n # ys) = {} \<longrightarrow> dlist h K zs \<longrightarrow> dlist h' K zs)"
    if p: "dlist h H (xs @ n # ys)" for h :: "'a lheap" and n H xs ys
  proof -
    from list_del_dlist [OF p] obtain h' where
      h': "unlink_node n h = Some h'" "relist h h' H (xs @ ys) (set (H # xs @ n # ys))"
      unfolding unlink_node_def by blast
    have "\<forall>K zs. set (K # zs) \<inter> set (H # xs @ n # ys) = {} \<longrightarrow> dlist h K zs \<longrightarrow> dlist h' K zs"
      by (intro allI impI relist_keeps [OF h'(2)]) blast+
    with h'(1) relist_dlist [OF h'(2)] relist_dom [OF h'(2)] show ?thesis by blast
  qed
qed

section \<open>Properties\<close>

text \<open>A heap of six unlinked nodes, for the examples.\<close>

definition six_nodes :: "nat lheap" where
  "six_nodes = (\<lambda>n. if n < 6 then Some \<lparr>next_ptr = NULL, prev_ptr = NULL\<rparr> else None)"

lemma dom_six_nodes [simp]: "dom six_nodes = {..<6}"
  by (auto simp: six_nodes_def dom_def)

lemma example_list: "\<exists>h. dlist h (0::nat) [1, 2, 3] \<and> dom h = {..<6}"
proof -
  obtain h1 where h1: "init_node 0 six_nodes = Some h1" "dlist h1 (0::nat) []" "dom h1 = {..<6}"
    using ll.init_law [of 0 six_nodes] by auto
  from ll.push_all [OF h1(2), of "[1, 2, 3]"] h1(3) show ?thesis by auto
qed

lemma example_two_lists: "\<exists>h. dlist h (0::nat) [1, 2, 3] \<and> dlist h 4 [5] \<and> dom h = {..<6}"
proof -
  obtain h where h: "dlist h (0::nat) [1, 2, 3]" "dom h = {..<6}" using example_list by blast
  obtain h1 where h1: "dlist h1 4 []" "dom h1 = {..<6}" "dlist h1 (0::nat) [1, 2, 3]"
    using ll.init_law [of 4 h] h by auto
  from ll.push_law [OF h1(1), of 5] h1(2,3) show ?thesis by auto
qed

text \<open>A list that is set up, filled by \<open>list_add_tail\<close> and emptied by \<open>list_del\<close> holds the
  entries in the order they were added and is empty again at the end; no step faults.\<close>

theorem list_fill_and_drain:
  assumes "H \<in> dom h" "set ns \<subseteq> dom h" "distinct (H # ns)"
  shows "\<exists>h1 h2 h3. INIT_LIST_HEAD h (Ptr H) = Some h1 \<and>
    for_list (\<lambda>n h. list_add_tail h (Ptr n) (Ptr H)) ns h1 = Some h2 \<and> dlist h2 H ns \<and>
    for_list (\<lambda>n h. list_del h (Ptr n)) ns h2 = Some h3 \<and> dlist h3 H []"
  using ll.fill_and_drain [OF assms] unfolding init_node_def push_node_def unlink_node_def .

theorem list_fill_and_drain_witness:
  "\<exists>h1 h2 h3. INIT_LIST_HEAD six_nodes (Ptr 0) = Some h1 \<and>
    for_list (\<lambda>n h. list_add_tail h (Ptr n) (Ptr 0)) [3, 1, 4] h1 = Some h2 \<and> dlist h2 0 [3, 1, 4] \<and>
    for_list (\<lambda>n h. list_del h (Ptr n)) [3, 1, 4] h2 = Some h3 \<and> dlist h3 0 []"
  by (rule list_fill_and_drain) auto

text \<open>Deleting an entry twice is caught: the first deletion leaves poison in the entry, and
  the second follows it.\<close>

theorem list_del_twice_faults:
  assumes "dlist h H (xs @ x # ys)"
  shows "\<exists>h'. list_del h (Ptr x) = Some h' \<and> dlist h' H (xs @ ys) \<and> list_del h' (Ptr x) = None"
proof -
  obtain h' where h': "list_del h (Ptr x) = Some h'" "relist h h' H (xs @ ys) (set (H # xs @ x # ys))"
    "nx h' x = Some Poison1" "pv h' x = Some Poison2"
    using list_del_dlist [OF assms] by blast
  have "list_del h' (Ptr x) = None"
    using h'(3,4) by (simp add: list_del_def raw_list_del_entry_def raw_list_del_def rd_next_Ptr rd_prev_Ptr wr_prev_def)
  with h' relist_dlist [OF h'(2)] show ?thesis by blast
qed

theorem list_del_twice_faults_witness:
  "\<exists>h h'. list_del h (Ptr 2) = Some h' \<and> dlist h' (0::nat) [1, 3] \<and> list_del h' (Ptr 2) = None"
proof -
  obtain h where "dlist h (0::nat) ([1] @ 2 # [3])" using example_list by auto
  from list_del_twice_faults [OF this] show ?thesis by auto
qed

text \<open>C12: Deleting every entry while iterating is safe in \<open>list_for_each_safe\<close>, which empties the
  list, and a fault in \<open>list_for_each\<close>, which reads the link of the deleted entry.\<close>

theorem delete_while_iterating:
  assumes "dlist h H xs"
  shows "(\<exists>h'. list_for_each_safe rd_next (\<lambda>p h. do { h \<leftarrow> list_del h p; Some (Next h) }) (Ptr H) h = Some (False, Ptr H, h') \<and>
      dlist h' H []) \<and>
    (list_for_each rd_next (\<lambda>p h. do { h \<leftarrow> list_del h p; Some (Next h) }) (Ptr H) h = None \<longleftrightarrow> xs \<noteq> [])"
proof -
  let ?body = "\<lambda>p h. do { h \<leftarrow> list_del h p; Some (Next h) }"
  have "\<exists>h'. list_for_each_safe rd_next ?body (Ptr H) h = Some (False, Ptr H, h') \<and> dlist h' H []"
  proof (rule list_for_each_safe_all [where I = "\<lambda>t h. dlist h H t" and xs = xs])
    fix x t and s :: "'a lheap" assume d: "dlist s H (x # t)"
    from list_del_dlist [of s H "[]" x t] d obtain s' where "list_del s (Ptr x) = Some s'" "relist s s' H t (set (H # x # t))" by auto
    with relist_dlist show "\<exists>s'. ?body (Ptr x) s = Some (Next s') \<and> dlist s' H t" by fastforce
    from d dlist_next [of s H "[]" x t] show "x \<noteq> H \<and> rd_next s (Ptr x) = Some (first_ptr H t)"
      by (auto simp: heap_simps dlist_def)
  qed (use assms dlist_first [OF assms] in \<open>auto simp: heap_simps dlist_def\<close>)
  moreover have "list_for_each rd_next ?body (Ptr H) h = None" if "xs \<noteq> []"
  proof -
    from that obtain x t where x: "xs = x # t" by (cases xs) auto
    obtain h' where "list_del h (Ptr x) = Some h'" "nx h' x = Some Poison1"
      using list_del_dlist [of h H "[]" x t] assms x by auto
    moreover have "x \<noteq> H" using assms x by (auto simp: dlist_def)
    moreover have "for_each_from rd_next ?body (Ptr H) Poison1 h' = None" for h'
      by (subst for_each_from.simps) (simp add: list_del_def raw_list_del_entry_def rd_prev_def)
    ultimately show ?thesis
      using dlist_first [OF assms] x
      by (simp add: list_for_each_def heap_simps for_each_from.simps [of rd_next ?body "Ptr H" "Ptr x"])
  qed
  moreover have "list_for_each rd_next ?body (Ptr H) h \<noteq> None" if "xs = []"
    using dlist_first [OF assms] that
    by (simp add: list_for_each_def heap_simps for_each_from.simps)
  ultimately show ?thesis by blast
qed

theorem delete_while_iterating_witness:
  "\<exists>h. dlist h (0::nat) [1, 2, 3] \<and>
    list_for_each rd_next (\<lambda>p h. do { h \<leftarrow> list_del h p; Some (Next h) }) (Ptr 0) h = None"
proof -
  obtain h where h: "dlist h (0::nat) [1, 2, 3]" using example_list by auto
  with delete_while_iterating [OF h] show ?thesis by auto
qed

text \<open>Splicing empties the source list and puts its entries, in order, before those of the
  target.\<close>

theorem list_splice_init_concatenates:
  assumes "dlist h H ys" "dlist h L zs" "set (L # zs) \<inter> set (H # ys) = {}"
  shows "\<exists>h'. list_splice_init h (Ptr L) (Ptr H) = Some h' \<and> dlist h' H (zs @ ys) \<and> dlist h' L []"
  using list_splice_init_dlist [OF assms] by (auto dest: relist_dlist)

theorem list_splice_init_concatenates_witness:
  "\<exists>h h'. list_splice_init h (Ptr 4) (Ptr (0::nat)) = Some h' \<and> dlist h' 0 ([5] @ [1, 2, 3]) \<and> dlist h' 4 []"
proof -
  obtain h where "dlist h (0::nat) [1, 2, 3]" "dlist h 4 [5]" using example_two_lists by blast
  from list_splice_init_concatenates [OF this] show ?thesis by auto
qed

text \<open>Cutting at an entry moves it and all before it to the new list and leaves the rest.\<close>

theorem list_cut_position_splits:
  assumes "dlist h H (xs @ x # ys)" "L \<in> dom h" "L \<notin> set (H # xs @ x # ys)"
  shows "\<exists>h'. list_cut_position h (Ptr L) (Ptr H) (Ptr x) = Some h' \<and> dlist h' L (xs @ [x]) \<and> dlist h' H ys"
  using list_cut_position_dlist [OF assms] by blast

theorem list_cut_position_splits_witness:
  "\<exists>h h'. list_cut_position h (Ptr 4) (Ptr (0::nat)) (Ptr 2) = Some h' \<and> dlist h' 4 ([1] @ [2]) \<and> dlist h' 0 [3]"
proof -
  obtain h where "dlist h (0::nat) ([1] @ 2 # [3])" "dom h = {..<6}" using example_list by auto
  with list_cut_position_splits [OF this(1), of 4] show ?thesis by auto
qed

text \<open>Swapping two entries of a list exchanges their positions, whichever comes first and
  also when they are neighbours.\<close>

theorem list_swap_exchanges:
  assumes "dlist h H (xs @ a # ys @ b # zs)"
  shows "(\<exists>h'. list_swap h (Ptr a) (Ptr b) = Some h' \<and> dlist h' H (xs @ b # ys @ a # zs)) \<and>
    (\<exists>h'. list_swap h (Ptr b) (Ptr a) = Some h' \<and> dlist h' H (xs @ b # ys @ a # zs))"
  using list_swap_forward [OF assms] list_swap_backward [OF assms] by blast

theorem list_swap_exchanges_witness:
  "\<exists>h h'. list_swap h (Ptr 1) (Ptr 2) = Some h' \<and> dlist h' (0::nat) ([] @ 2 # [] @ 1 # [3])"
proof -
  obtain h where "dlist h (0::nat) ([] @ 1 # [] @ 2 # [3])" using example_list by auto
  from list_swap_exchanges [OF this] show ?thesis by blast
qed

text \<open>Rotating left moves the first entry to the end; an empty list stays empty.\<close>

theorem list_rotate_left_rotates:
  assumes "dlist h H xs"
  shows "\<exists>h'. list_rotate_left h (Ptr H) = Some h' \<and> dlist h' H (rotate1 xs)"
  using list_rotate_left_dlist [OF assms] by (auto dest: relist_dlist)

theorem list_rotate_left_rotates_witness:
  "\<exists>h h'. list_rotate_left h (Ptr (0::nat)) = Some h' \<and> dlist h' 0 [2, 3, 1]"
proof -
  obtain h where "dlist h (0::nat) [1, 2, 3]" using example_list by blast
  from list_rotate_left_rotates [OF this] show ?thesis by auto
qed

end
