(* ===== verification/ListIteration.thy ===== *)
theory ListIteration
  imports IntrusiveList
begin

text \<open>
  The remaining readers and loops of \<^verbatim>\<open>linked_list.h\<close>: the neighbours of an entry, iteration backwards, from an
  entry on, and behind an entry, each also in the form that bears the removal of the
  entry. An entry is named by its node, so that \<^verbatim>\<open>list_entry\<close> is the identity and the forms for nodes and entries agree;
  \<open>next\<close> and \<open>prev\<close> read the links from a state that holds the heap.
\<close>

section \<open>Neighbours\<close>

definition list_first_entry :: "'a lheap \<Rightarrow> 'a ptr \<Rightarrow> 'a ptr option" where
  "list_first_entry h head = rd_next h head"

definition list_last_entry :: "'a lheap \<Rightarrow> 'a ptr \<Rightarrow> 'a ptr option" where
  "list_last_entry h head = rd_prev h head"

definition list_first_entry_or_null :: "'a lheap \<Rightarrow> 'a ptr \<Rightarrow> 'a ptr option" where
  "list_first_entry_or_null h head = do { pos \<leftarrow> rd_next h head; Some (if pos \<noteq> head then pos else NULL) }"

definition list_next_entry :: "'a lheap \<Rightarrow> 'a ptr \<Rightarrow> 'a ptr option" where
  "list_next_entry h pos = rd_next h pos"

definition list_prev_entry :: "'a lheap \<Rightarrow> 'a ptr \<Rightarrow> 'a ptr option" where
  "list_prev_entry h pos = rd_prev h pos"

definition list_prepare_entry :: "'a ptr \<Rightarrow> 'a ptr \<Rightarrow> 'a ptr" where
  "list_prepare_entry pos head = (if pos \<noteq> NULL then pos else head)"

section \<open>Loops\<close>

definition list_for_each_prev ::
    "('s \<Rightarrow> 'p \<Rightarrow> 'p option) \<Rightarrow> ('p \<Rightarrow> 's \<Rightarrow> 's ctl option) \<Rightarrow> 'p \<Rightarrow> 's \<Rightarrow> (bool \<times> 'p \<times> 's) option" where
  "list_for_each_prev prev body head s = do { pos \<leftarrow> prev s head; for_each_from prev body head pos s }"

definition list_for_each_prev_safe ::
    "('s \<Rightarrow> 'p \<Rightarrow> 'p option) \<Rightarrow> ('p \<Rightarrow> 's \<Rightarrow> 's ctl option) \<Rightarrow> 'p \<Rightarrow> 's \<Rightarrow> (bool \<times> 'p \<times> 's) option" where
  "list_for_each_prev_safe prev body head s = do {
     pos \<leftarrow> prev s head;
     n \<leftarrow> prev s pos;
     for_each_safe_from prev body head pos n s }"

definition list_for_each_continue ::
    "('s \<Rightarrow> 'p \<Rightarrow> 'p option) \<Rightarrow> ('p \<Rightarrow> 's \<Rightarrow> 's ctl option) \<Rightarrow> 'p \<Rightarrow> 'p \<Rightarrow> 's \<Rightarrow> (bool \<times> 'p \<times> 's) option" where
  "list_for_each_continue next body head pos s = do { pos \<leftarrow> next s pos; for_each_from next body head pos s }"

definition list_for_each_entry_continue_reverse ::
    "('s \<Rightarrow> 'p \<Rightarrow> 'p option) \<Rightarrow> ('p \<Rightarrow> 's \<Rightarrow> 's ctl option) \<Rightarrow> 'p \<Rightarrow> 'p \<Rightarrow> 's \<Rightarrow> (bool \<times> 'p \<times> 's) option" where
  "list_for_each_entry_continue_reverse prev body head pos s = do { pos \<leftarrow> prev s pos; for_each_from prev body head pos s }"

definition list_for_each_entry_from ::
    "('s \<Rightarrow> 'p \<Rightarrow> 'p option) \<Rightarrow> ('p \<Rightarrow> 's \<Rightarrow> 's ctl option) \<Rightarrow> 'p \<Rightarrow> 'p \<Rightarrow> 's \<Rightarrow> (bool \<times> 'p \<times> 's) option" where
  "list_for_each_entry_from next body head pos s = for_each_from next body head pos s"

definition list_for_each_entry_from_reverse ::
    "('s \<Rightarrow> 'p \<Rightarrow> 'p option) \<Rightarrow> ('p \<Rightarrow> 's \<Rightarrow> 's ctl option) \<Rightarrow> 'p \<Rightarrow> 'p \<Rightarrow> 's \<Rightarrow> (bool \<times> 'p \<times> 's) option" where
  "list_for_each_entry_from_reverse prev body head pos s = for_each_from prev body head pos s"

definition list_for_each_entry_safe_continue ::
    "('s \<Rightarrow> 'p \<Rightarrow> 'p option) \<Rightarrow> ('p \<Rightarrow> 's \<Rightarrow> 's ctl option) \<Rightarrow> 'p \<Rightarrow> 'p \<Rightarrow> 's \<Rightarrow> (bool \<times> 'p \<times> 's) option" where
  "list_for_each_entry_safe_continue next body head pos s = do {
     pos \<leftarrow> next s pos;
     n \<leftarrow> next s pos;
     for_each_safe_from next body head pos n s }"

definition list_for_each_entry_safe_from ::
    "('s \<Rightarrow> 'p \<Rightarrow> 'p option) \<Rightarrow> ('p \<Rightarrow> 's \<Rightarrow> 's ctl option) \<Rightarrow> 'p \<Rightarrow> 'p \<Rightarrow> 's \<Rightarrow> (bool \<times> 'p \<times> 's) option" where
  "list_for_each_entry_safe_from next body head pos s = do {
     n \<leftarrow> next s pos;
     for_each_safe_from next body head pos n s }"

section \<open>What they visit\<close>

lemma neighbours:
  assumes "dlist h H xs"
  shows "list_first_entry h (Ptr H) = Some (first_ptr H xs)" "list_last_entry h (Ptr H) = Some (first_ptr H (rev xs))"
    "list_first_entry_or_null h (Ptr H) = Some (case xs of [] \<Rightarrow> NULL | x # _ \<Rightarrow> Ptr x)"
proof -
  have "first_ptr H (rev xs) = Ptr (last (H # xs))" by (cases xs rule: rev_cases) simp_all
  then show "list_last_entry h (Ptr H) = Some (first_ptr H (rev xs))"
    using dlist_last [OF assms] by (simp add: list_last_entry_def heap_simps)
  show "list_first_entry h (Ptr H) = Some (first_ptr H xs)" using dlist_first [OF assms] by (simp add: list_first_entry_def heap_simps)
  show "list_first_entry_or_null h (Ptr H) = Some (case xs of [] \<Rightarrow> NULL | x # _ \<Rightarrow> Ptr x)"
    using dlist_first [OF assms] assms by (cases xs) (auto simp: list_first_entry_or_null_def heap_simps dlist_def)
qed

lemma prev_entry:
  assumes "dlist h H (xs @ x # ys)"
  shows "list_prev_entry h (Ptr x) = Some (first_ptr H (rev xs))" "list_next_entry h (Ptr x) = Some (first_ptr H ys)"
proof -
  have "first_ptr H (rev xs) = Ptr (last (H # xs))" by (cases xs rule: rev_cases) simp_all
  then show "list_prev_entry h (Ptr x) = Some (first_ptr H (rev xs))"
    using dlist_prev [OF assms] by (simp add: list_prev_entry_def heap_simps)
  show "list_next_entry h (Ptr x) = Some (first_ptr H ys)" using dlist_next [OF assms] by (simp add: list_next_entry_def heap_simps)
qed

text \<open>
  A loop whose body runs on every entry and leaves the links alone: a walk along entries each of which the reader leads to the next.
\<close>

lemma walk_fold:
  assumes "\<And>x s. x \<in> set ys \<Longrightarrow> P s \<Longrightarrow> body (Ptr x) s = Some (Next (f x s)) \<and> P (f x s)"
    and "\<And>pre x post s. ys = pre @ x # post \<Longrightarrow> P s \<Longrightarrow> rd s (Ptr x) = Some (first_ptr H post)" "H \<notin> set ys" "P s"
  shows "for_each_from rd body (Ptr H) (first_ptr H ys) s = Some (False, Ptr H, foldl (\<lambda>s x. f x s) s ys)"
  using assms
proof (induction ys arbitrary: s)
  case Nil
  then show ?case by (simp add: for_each_from.simps)
next
  case (Cons x t)
  have b: "body (Ptr x) s = Some (Next (f x s))" "P (f x s)" using Cons.prems(1,4) by auto
  have "for_each_from rd body (Ptr H) (first_ptr H t) (f x s) = Some (False, Ptr H, foldl (\<lambda>s x. f x s) (f x s) t)"
  proof (rule Cons.IH)
    fix pre y post s assume "t = pre @ y # post" "P s"
    then show "rd s (Ptr y) = Some (first_ptr H post)" using Cons.prems(2) [of "x # pre" y post s] by simp
  qed (use Cons.prems b in auto)
  moreover have "rd (f x s) (Ptr x) = Some (first_ptr H t)" using Cons.prems(2) [of "[]" x t] b(2) by simp
  ultimately show ?case using b Cons.prems(3) by (subst for_each_from.simps) auto
qed

text \<open>
  Backwards from the head every entry is visited in reverse order; behind an entry, those that follow it or, backwards, precede it;
  from an entry on, the entry first.
\<close>

lemma iteration_orders:
  assumes "dlist h H (xs @ x # ys)"
    and "\<And>a s. a \<in> set (xs @ x # ys) \<Longrightarrow> P s \<Longrightarrow> body (Ptr a) s = Some (Next (f a s)) \<and> P (f a s)"
    and "\<And>a s. P s \<Longrightarrow> next s (Ptr a) = nx h a" "\<And>a s. P s \<Longrightarrow> prev s (Ptr a) = pv h a" "P s"
  shows "list_for_each_prev prev body (Ptr H) s = Some (False, Ptr H, foldl (\<lambda>s a. f a s) s (rev (xs @ x # ys)))"
    and "list_for_each_continue next body (Ptr H) (Ptr x) s = Some (False, Ptr H, foldl (\<lambda>s a. f a s) s ys)"
    and "list_for_each_entry_continue_reverse prev body (Ptr H) (Ptr x) s = Some (False, Ptr H, foldl (\<lambda>s a. f a s) s (rev xs))"
    and "list_for_each_entry_from next body (Ptr H) (Ptr x) s = Some (False, Ptr H, foldl (\<lambda>s a. f a s) s (x # ys))"
    and "list_for_each_entry_from_reverse prev body (Ptr H) (Ptr x) s = Some (False, Ptr H, foldl (\<lambda>s a. f a s) s (x # rev xs))"
proof -
  let ?all = "xs @ x # ys"
  have H: "H \<notin> set ?all" using assms(1) by (simp add: dlist_def)
  have p: "prev s (Ptr a) = Some (first_ptr H (rev pre))" if "?all = pre @ a # post" "P s" for pre a post s
    using prev_entry(1) [of h H pre a post] assms(1,4) that by (simp add: list_prev_entry_def heap_simps)
  have n: "next s (Ptr a) = Some (first_ptr H post)" if "?all = pre @ a # post" "P s" for pre a post s
    using prev_entry(2) [of h H pre a post] assms(1,3) that by (simp add: list_next_entry_def heap_simps)
  have backw: "for_each_from prev body (Ptr H) (first_ptr H (rev zs)) s = Some (False, Ptr H, foldl (\<lambda>s a. f a s) s (rev zs))"
    if "?all = zs @ ws" for zs ws
  proof (rule walk_fold [of _ P])
    fix pre a post s assume "rev zs = pre @ a # post" "P s"
    then have "zs = rev post @ a # rev pre" by (metis rev.simps(2) rev_append rev_rev_ident append_assoc append_Cons append_Nil)
    then show "prev s (Ptr a) = Some (first_ptr H post)" using p [of "rev post" a "rev pre @ ws" s] that \<open>P s\<close> by simp
  qed (use assms(2,5) H that in auto)
  have forw: "for_each_from next body (Ptr H) (first_ptr H zs) s = Some (False, Ptr H, foldl (\<lambda>s a. f a s) s zs)"
    if "?all = ws @ zs" for zs ws
  proof (rule walk_fold [of _ P])
    fix pre a post s assume "zs = pre @ a # post" "P s"
    then show "next s (Ptr a) = Some (first_ptr H post)" using n [of "ws @ pre" a post s] that by simp
  qed (use assms(2,5) H that in auto)
  have "prev s (Ptr H) = Some (first_ptr H (rev ?all))"
    using neighbours(2) [OF assms(1)] assms(4,5) by (simp add: list_last_entry_def heap_simps)
  then show "list_for_each_prev prev body (Ptr H) s = Some (False, Ptr H, foldl (\<lambda>s a. f a s) s (rev ?all))"
    using backw [of ?all "[]"] by (simp add: list_for_each_prev_def)
  show "list_for_each_continue next body (Ptr H) (Ptr x) s = Some (False, Ptr H, foldl (\<lambda>s a. f a s) s ys)"
    using forw [of "xs @ [x]" ys] n [OF refl assms(5)] by (simp add: list_for_each_continue_def)
  show "list_for_each_entry_continue_reverse prev body (Ptr H) (Ptr x) s = Some (False, Ptr H, foldl (\<lambda>s a. f a s) s (rev xs))"
    using backw [of xs "x # ys"] p [OF refl assms(5)] by (simp add: list_for_each_entry_continue_reverse_def)
  show "list_for_each_entry_from next body (Ptr H) (Ptr x) s = Some (False, Ptr H, foldl (\<lambda>s a. f a s) s (x # ys))"
    using forw [of xs "x # ys"] by (simp add: list_for_each_entry_from_def)
  show "list_for_each_entry_from_reverse prev body (Ptr H) (Ptr x) s = Some (False, Ptr H, foldl (\<lambda>s a. f a s) s (x # rev xs))"
    using backw [of "xs @ [x]" ys] by (simp add: list_for_each_entry_from_reverse_def)
qed

text \<open>Deleting every entry backwards, and deleting from an entry on.\<close>

lemma delete_backwards:
  assumes "dlist h H xs"
  shows "\<exists>h'. list_for_each_prev_safe rd_prev (\<lambda>p h. do { h \<leftarrow> list_del h p; Some (Next h) }) (Ptr H) h = Some (False, Ptr H, h') \<and> dlist h' H []"
proof -
  let ?body = "\<lambda>p h. do { h \<leftarrow> list_del h p; Some (Next h) }"
  have "\<exists>h'. list_for_each_safe rd_prev ?body (Ptr H) h = Some (False, Ptr H, h') \<and> dlist h' H (rev [])"
  proof (rule list_for_each_safe_all [where I = "\<lambda>t h. dlist h H (rev t)" and xs = "rev xs"])
    fix x t and s :: "'a lheap" assume d: "dlist s H (rev (x # t))"
    from list_del_dlist [of s H "rev t" x "[]"] d obtain s' where "list_del s (Ptr x) = Some s'" "relist s s' H (rev t) (set (H # rev t @ [x]))" by auto
    with relist_dlist show "\<exists>s'. ?body (Ptr x) s = Some (Next s') \<and> dlist s' H (rev t)" by fastforce
    from d prev_entry(1) [of s H "rev t" x "[]"] show "x \<noteq> H \<and> rd_prev s (Ptr x) = Some (first_ptr H t)"
      by (auto simp: list_prev_entry_def dlist_def)
  qed (use assms neighbours(2) [OF assms] in \<open>auto simp: heap_simps dlist_def list_last_entry_def\<close>)
  then show ?thesis by (simp add: list_for_each_prev_safe_def list_for_each_safe_def)
qed

lemma delete_from_entry:
  assumes "dlist h H (xs @ ys)"
  shows "\<exists>h'. do { n \<leftarrow> rd_next h (first_ptr H ys); for_each_safe_from rd_next (\<lambda>p h. do { h \<leftarrow> list_del h p; Some (Next h) }) (Ptr H) (first_ptr H ys) n h }
    = Some (False, Ptr H, h') \<and> dlist h' H xs"
proof -
  let ?body = "\<lambda>p h. do { h \<leftarrow> list_del h p; Some (Next h) }"
  have step: "\<exists>s'. ?body (Ptr x) s = Some (Next s') \<and> dlist s' H (xs @ t)" if "dlist s H (xs @ x # t)" for x t and s :: "'a lheap"
  proof -
    from list_del_dlist [OF that] obtain s' where "list_del s (Ptr x) = Some s'" "relist s s' H (xs @ t) (set (H # xs @ x # t))" by blast
    with relist_dlist show ?thesis by fastforce
  qed
  have link: "x \<noteq> H \<and> rd_next s (Ptr x) = Some (first_ptr H t)" if "dlist s H (xs @ x # t)" for x t and s :: "'a lheap"
    using that dlist_next [OF that] by (auto simp: heap_simps dlist_def)
  have stop: "\<exists>p. rd_next s (Ptr H) = Some p" if "dlist s H xs" for s :: "'a lheap"
    using dlist_first [OF that] by (simp add: heap_simps)
  obtain n where n: "rd_next h (first_ptr H ys) = Some n" "ys \<noteq> [] \<Longrightarrow> n = first_ptr H (tl ys)"
    using link [of h] stop [of h] assms by (cases ys) fastforce+
  note rule = for_each_safe_from_rule [where I = "\<lambda>t h. dlist h H (xs @ t)" and Q = "\<lambda>_ _ _. False" and body = ?body and rd = rd_next and H = H]
  have "\<exists>h'. for_each_safe_from rd_next ?body (Ptr H) (first_ptr H ys) n h = Some (False, Ptr H, h') \<and> dlist h' H (xs @ [])"
    using rule [where xs = ys and s = h and q = n] step link stop assms n(2) by simp
  then show ?thesis using n(1) by simp
qed

lemma delete_rest:
  assumes "dlist h H (xs @ x # ys)"
  shows "\<exists>h'. list_for_each_entry_safe_continue rd_next (\<lambda>p h. do { h \<leftarrow> list_del h p; Some (Next h) }) (Ptr H) (Ptr x) h = Some (False, Ptr H, h') \<and>
      dlist h' H (xs @ [x])"
    "\<exists>h'. list_for_each_entry_safe_from rd_next (\<lambda>p h. do { h \<leftarrow> list_del h p; Some (Next h) }) (Ptr H) (Ptr x) h = Some (False, Ptr H, h') \<and> dlist h' H xs"
  using delete_from_entry [of h H "xs @ [x]" ys] delete_from_entry [of h H xs "x # ys"] assms dlist_next [OF assms]
  by (simp_all add: list_for_each_entry_safe_continue_def list_for_each_entry_safe_from_def heap_simps)

end
