(* ===== verification/RemindersModel.thy ===== *)
theory RemindersModel
  imports LinkedList
begin

text \<open>
  \<^verbatim>\<open>final_task/userspace_app/lvgl_lib/application_view/reminders_model/reminders_model.c\<close>:
  users, their reminders and the queue of all reminders ordered by the time that is left,
  kept in three kinds of intrusive lists. The C heap is explicit: the \<open>list_head\<close>
  nodes embedded in the two globals and in every user and reminder, the \<open>user_t\<close> and
  \<open>reminder_t\<close> objects, and the \<open>malloc\<close>ed strings they own. A freed object is
  outside its map, so a use after free, a double free and a NULL dereference are \<open>None\<close>.
\<close>

section \<open>Data\<close>

text \<open>
  The addresses of list nodes: the two static heads, and the fields \<open>list\<close> and
  \<open>notifications_list\<close> of a user, \<open>list\<close> and \<open>user_notify_list\<close> of a reminder.
  Objects are named by the number of the \<open>malloc\<close> that returned them. The allocator
  does not reuse an address, so that a dangling pointer is told from a live one.
\<close>

datatype node =
    UsersList | RemindersList
  | UserNode nat | NotifHead nat
  | RemNode nat | RemUserNode nat

record user =
  user_name :: nat

record reminder =
  notification_text :: nat
  belongs_to :: "nat option"
  ellapse_time :: int

text \<open>
  What the module does to its environment: text printed, and the callback the view registers
  for reminders about to be removed (called with the reminder's pointer).
\<close>

datatype event = Printed string | AboutToBeRemoved nat

record rstate =
  nodes :: "node lheap"
  users :: "nat \<rightharpoonup> user"
  reminders :: "nat \<rightharpoonup> reminder"
  strings :: "nat \<rightharpoonup> string"
  brk :: nat
  oom :: "bool list"
  trace :: "event list"
  callback_queue_changed :: bool
  callback_notification_is_about_to_be_removed :: bool

text \<open>
  \<open>LIST_HEAD(users_list); LIST_HEAD(reminders_list);\<close> and no callbacks. The callback
  fields record whether the pointer is set.
\<close>

definition empty_head :: "node \<Rightarrow> node list_head" where
  "empty_head H = \<lparr>next_ptr = Ptr H, prev_ptr = Ptr H\<rparr>"

definition init_state :: rstate where
  "init_state = \<lparr>
     nodes = [UsersList \<mapsto> empty_head UsersList, RemindersList \<mapsto> empty_head RemindersList],
     users = Map.empty, reminders = Map.empty, strings = Map.empty, brk = 1, oom = [], trace = [],
     callback_queue_changed = False, callback_notification_is_about_to_be_removed = False\<rparr>"

section \<open>The C library\<close>

text \<open>
  \<open>oom\<close> says which of the coming \<open>malloc\<close> calls return NULL; past its end they
  succeed. Fresh memory holds pointers that fault when used.
\<close>

definition malloc :: "rstate \<Rightarrow> nat option \<times> rstate" where
  "malloc s = (case oom s of
     True # bs \<Rightarrow> (None, s\<lparr>oom := bs\<rparr>)
   | bs \<Rightarrow> (Some (brk s), s\<lparr>brk := Suc (brk s), oom := tl bs\<rparr>))"

definition garbage :: "node list_head" where
  "garbage = \<lparr>next_ptr = NULL, prev_ptr = NULL\<rparr>"

definition new_user_object :: "nat \<Rightarrow> rstate \<Rightarrow> rstate" where
  "new_user_object u s = s\<lparr>users := (users s)(u \<mapsto> \<lparr>user_name = 0\<rparr>),
     nodes := (nodes s)(UserNode u \<mapsto> garbage, NotifHead u \<mapsto> garbage)\<rparr>"

definition new_reminder_object :: "nat \<Rightarrow> rstate \<Rightarrow> rstate" where
  "new_reminder_object r s = s\<lparr>
     reminders := (reminders s)(r \<mapsto> \<lparr>notification_text = 0, belongs_to = None, ellapse_time = 0\<rparr>),
     nodes := (nodes s)(RemNode r \<mapsto> garbage, RemUserNode r \<mapsto> garbage)\<rparr>"

definition free_string :: "nat \<Rightarrow> rstate \<Rightarrow> rstate option" where
  "free_string b s = (if strings s b = None then None
     else Some (s\<lparr>strings := (strings s)(b := None)\<rparr>))"

definition free_user :: "nat \<Rightarrow> rstate \<Rightarrow> rstate option" where
  "free_user u s = (if users s u = None then None
     else Some (s\<lparr>users := (users s)(u := None),
       nodes := (nodes s)(UserNode u := None, NotifHead u := None)\<rparr>))"

definition free_reminder :: "nat \<Rightarrow> rstate \<Rightarrow> rstate option" where
  "free_reminder r s = (if reminders s r = None then None
     else Some (s\<lparr>reminders := (reminders s)(r := None),
       nodes := (nodes s)(RemNode r := None, RemUserNode r := None)\<rparr>))"

definition printf :: "string \<Rightarrow> rstate \<Rightarrow> rstate" where
  "printf t s = s\<lparr>trace := trace s @ [Printed t]\<rparr>"

definition on_nodes :: "(node lheap \<Rightarrow> node lheap option) \<Rightarrow> rstate \<Rightarrow> rstate option" where
  "on_nodes f s = do { h \<leftarrow> f (nodes s); Some (s\<lparr>nodes := h\<rparr>) }"

text \<open>
  \<open>list_entry(ptr, user_t, list)\<close> and its kin: from the address of a node to the object
  it is a field of.
\<close>

fun user_of_list :: "node ptr \<Rightarrow> nat option" where
  "user_of_list (Ptr (UserNode u)) = Some u"
| "user_of_list _ = None"

fun reminder_of_list :: "node ptr \<Rightarrow> nat option" where
  "reminder_of_list (Ptr (RemNode r)) = Some r"
| "reminder_of_list _ = None"

fun reminder_of_user_notify_list :: "node ptr \<Rightarrow> nat option" where
  "reminder_of_user_notify_list (Ptr (RemUserNode r)) = Some r"
| "reminder_of_user_notify_list _ = None"

abbreviation next_in :: "rstate \<Rightarrow> node ptr \<Rightarrow> node ptr option" where
  "next_in s \<equiv> rd_next (nodes s)"

section \<open>Users\<close>

definition user_dtor :: "nat \<Rightarrow> rstate \<Rightarrow> rstate option" where
  "user_dtor u s = do {
     U \<leftarrow> users s u;
     s \<leftarrow> free_string (user_name U) s;
     free_user u s }"

definition reminder_dtor :: "nat \<Rightarrow> rstate \<Rightarrow> rstate option" where
  "reminder_dtor r s = do {
     R \<leftarrow> reminders s r;
     s \<leftarrow> free_string (notification_text R) s;
     free_reminder r s }"

definition find_user_entry :: "string \<Rightarrow> rstate \<Rightarrow> nat option option" where
  "find_user_entry name s = do {
     (b, p, entry) \<leftarrow> list_for_each (\<lambda>_. next_in s)
       (\<lambda>ptr _. do {
          entry \<leftarrow> user_of_list ptr;
          U \<leftarrow> users s entry;
          n \<leftarrow> strings s (user_name U);
          if name = n then Some (Break (Some entry)) else Some (Next None) })
       (Ptr UsersList) None;
     Some entry }"

definition is_user_exists :: "string \<Rightarrow> rstate \<Rightarrow> bool option" where
  "is_user_exists name s = do { e \<leftarrow> find_user_entry name s; Some (e \<noteq> None) }"

definition add_new_user :: "string \<Rightarrow> rstate \<Rightarrow> rstate option" where
  "add_new_user name s = do {
     e \<leftarrow> is_user_exists name s;
     if \<not> e then
       (case malloc s of
          (None, s) \<Rightarrow> Some s
        | (Some new_user, s) \<Rightarrow>
            (let s = new_user_object new_user s in
             case malloc s of
               (None, s) \<Rightarrow> free_user new_user s
             | (Some string_buffer, s) \<Rightarrow>
                 do {
                   let s = s\<lparr>strings := (strings s)(string_buffer \<mapsto> name)\<rparr>;
                   s \<leftarrow> on_nodes (\<lambda>h. INIT_LIST_HEAD h (Ptr (NotifHead new_user))) s;
                   let s = s\<lparr>users := (users s)(new_user \<mapsto> \<lparr>user_name = string_buffer\<rparr>)\<rparr>;
                   on_nodes (\<lambda>h. list_add_tail h (Ptr (UserNode new_user)) (Ptr UsersList)) s }))
     else Some s }"

definition remove_user :: "string \<Rightarrow> rstate \<Rightarrow> rstate option" where
  "remove_user name s = do {
     (b, p, s) \<leftarrow> list_for_each_safe next_in
       (\<lambda>pos s. do {
          user_it \<leftarrow> user_of_list pos;
          U \<leftarrow> users s user_it;
          n \<leftarrow> strings s (user_name U);
          if n = name then do {
            s \<leftarrow> on_nodes (\<lambda>h. list_del h pos) s;
            s \<leftarrow> user_dtor user_it s;
            Some (Next s) }
          else Some (Next s) })
       (Ptr UsersList) s;
     Some s }"

definition cleanup_users :: "rstate \<Rightarrow> rstate option" where
  "cleanup_users s = do {
     (b, p, s) \<leftarrow> list_for_each_safe next_in
       (\<lambda>pos s. do {
          user_it \<leftarrow> user_of_list pos;
          s \<leftarrow> on_nodes (\<lambda>h. list_del h pos) s;
          s \<leftarrow> user_dtor user_it s;
          Some (Next s) })
       (Ptr UsersList) s;
     Some s }"

section \<open>Reminders\<close>

definition insert_reminder_entry_to_global_list :: "nat \<Rightarrow> rstate \<Rightarrow> rstate option" where
  "insert_reminder_entry_to_global_list new_entry s = do {
     (inserted, p, s) \<leftarrow> list_for_each next_in
       (\<lambda>ptr s. do {
          entry \<leftarrow> reminder_of_list ptr;
          E \<leftarrow> reminders s entry;
          N \<leftarrow> reminders s new_entry;
          if ellapse_time E > ellapse_time N then do {
            s \<leftarrow> on_nodes (\<lambda>h. list_add_tail h (Ptr (RemNode new_entry)) ptr) s;
            Some (Break s) }
          else Some (Next s) })
       (Ptr RemindersList) s;
     if inserted then Some s
     else on_nodes (\<lambda>h. list_add_tail h (Ptr (RemNode new_entry)) (Ptr RemindersList)) s }"

definition set_reminder :: "(reminder \<Rightarrow> reminder) \<Rightarrow> nat \<Rightarrow> rstate \<Rightarrow> rstate option" where
  "set_reminder f r s = do {
     R \<leftarrow> reminders s r;
     Some (s\<lparr>reminders := (reminders s)(r \<mapsto> f R)\<rparr>) }"

definition add_user_reminder :: "string \<Rightarrow> string \<Rightarrow> int \<Rightarrow> rstate \<Rightarrow> rstate option" where
  "add_user_reminder name reminder_title actual_time s = do {
     p_user_entry \<leftarrow> find_user_entry name s;
     case p_user_entry of
       None \<Rightarrow> Some s
     | Some u \<Rightarrow>
         (case malloc s of
            (None, s) \<Rightarrow> Some s
          | (Some new_reminder, s) \<Rightarrow>
              (let s = new_reminder_object new_reminder s in
               case malloc s of
                 (None, s) \<Rightarrow> free_reminder new_reminder s
               | (Some text, s) \<Rightarrow>
                   do {
                     s \<leftarrow> set_reminder (\<lambda>R. R\<lparr>notification_text := text\<rparr>) new_reminder s;
                     let s = s\<lparr>strings := (strings s)(text \<mapsto> reminder_title)\<rparr>;
                     s \<leftarrow> set_reminder (\<lambda>R. R\<lparr>ellapse_time := actual_time\<rparr>) new_reminder s;
                     s \<leftarrow> on_nodes (\<lambda>h. INIT_LIST_HEAD h (Ptr (RemNode new_reminder))) s;
                     s \<leftarrow> on_nodes (\<lambda>h. INIT_LIST_HEAD h (Ptr (RemUserNode new_reminder))) s;
                     s \<leftarrow> on_nodes (\<lambda>h. list_add_tail h (Ptr (RemUserNode new_reminder)) (Ptr (NotifHead u))) s;
                     s \<leftarrow> insert_reminder_entry_to_global_list new_reminder s;
                     set_reminder (\<lambda>R. R\<lparr>belongs_to := Some u\<rparr>) new_reminder s })) }"

text \<open>
  The first loop ends at the entry numbered \<open>notification_number\<close> (counted from 1) or at
  the head, and remembers the last reminder it looked at; the second looks for that reminder
  in the queue.
\<close>

definition remove_user_notification :: "string \<Rightarrow> int \<Rightarrow> rstate \<Rightarrow> rstate option" where
  "remove_user_notification name notification_number s = do {
     p_user \<leftarrow> find_user_entry name s;
     case p_user of
       None \<Rightarrow> Some s
     | Some u \<Rightarrow> do {
         notification_idx \<leftarrow> c_sub notification_number 1;
         (found_notification_in_list, pos_user, loop_counter, reminder_it_user) \<leftarrow>
           list_for_each_safe (\<lambda>_. next_in s)
             (\<lambda>pos (loop_counter, _). do {
                r \<leftarrow> reminder_of_user_notify_list pos;
                if loop_counter = notification_idx then Some (Break (loop_counter, Some r))
                else do { c \<leftarrow> c_add loop_counter 1; Some (Next (c, Some r)) } })
             (Ptr (NotifHead u)) (0, None);
         (found_remove_in_global_reminders, pos_global, reminder_it) \<leftarrow>
           list_for_each_safe (\<lambda>_. next_in s)
             (\<lambda>pos _. do {
                r \<leftarrow> reminder_of_list pos;
                if Some r = reminder_it_user then Some (Break (Some r)) else Some (Next (Some r)) })
             (Ptr RemindersList) None;
         if found_notification_in_list \<and> found_remove_in_global_reminders then do {
           r \<leftarrow> reminder_it;
           s \<leftarrow> set_reminder (\<lambda>R. R\<lparr>belongs_to := None\<rparr>) r s;
           s \<leftarrow> on_nodes (\<lambda>h. list_del h pos_user) s;
           s \<leftarrow> on_nodes (\<lambda>h. list_del h pos_global) s;
           reminder_dtor r s }
         else Some s } }"

definition cleanup_reminders :: "rstate \<Rightarrow> rstate option" where
  "cleanup_reminders s = do {
     (b, p, s) \<leftarrow> list_for_each_safe next_in
       (\<lambda>pos s. do {
          reminder_it \<leftarrow> reminder_of_list pos;
          s \<leftarrow> on_nodes (\<lambda>h. list_del h pos) s;
          s \<leftarrow> reminder_dtor reminder_it s;
          Some (Next s) })
       (Ptr RemindersList) s;
     Some s }"

section \<open>The timer\<close>

definition handle_reminder_expired :: "nat \<Rightarrow> rstate \<Rightarrow> rstate option" where
  "handle_reminder_expired reminder_it s = do {
     R \<leftarrow> reminders s reminder_it;
     if ellapse_time R = 0 then do {
       t \<leftarrow> strings s (notification_text R);
       let s = printf (''Notification Alert! '' @ t @ '' \<newline>'') s;
       s \<leftarrow> on_nodes (\<lambda>h. list_del h (Ptr (RemNode reminder_it))) s;
       s \<leftarrow> (case belongs_to R of
          None \<Rightarrow> Some s
        | Some user_it \<Rightarrow> do {
            (found_notification_in_list, pos_user, _) \<leftarrow> list_for_each_safe (\<lambda>_. next_in s)
              (\<lambda>pos _. do {
                 r \<leftarrow> reminder_of_user_notify_list pos;
                 if r = reminder_it then Some (Break ()) else Some (Next ()) })
              (Ptr (NotifHead user_it)) ();
            if found_notification_in_list then on_nodes (\<lambda>h. list_del h pos_user) s
            else Some s });
       let s = (if callback_notification_is_about_to_be_removed s
         then s\<lparr>trace := trace s @ [AboutToBeRemoved reminder_it]\<rparr> else s);
       reminder_dtor reminder_it s }
     else Some s }"

definition handle_timer_tick :: "rstate \<Rightarrow> rstate option" where
  "handle_timer_tick s = do {
     (b, p, s) \<leftarrow> list_for_each_safe next_in
       (\<lambda>pos s. do {
          reminder_it \<leftarrow> reminder_of_list pos;
          R \<leftarrow> reminders s reminder_it;
          t \<leftarrow> c_sub (ellapse_time R) 1;
          s \<leftarrow> set_reminder (\<lambda>R. R\<lparr>ellapse_time := t\<rparr>) reminder_it s;
          s \<leftarrow> (if t = 0 then handle_reminder_expired reminder_it s else Some s);
          Some (Next s) })
       (Ptr RemindersList) s;
     Some s }"

section \<open>Queries and callbacks\<close>

definition show_all_users :: "rstate \<Rightarrow> rstate option" where
  "show_all_users s = do {
     (b, p, s) \<leftarrow> list_for_each next_in
       (\<lambda>pos s. do {
          u \<leftarrow> user_of_list pos;
          U \<leftarrow> users s u;
          n \<leftarrow> strings s (user_name U);
          Some (Next (printf (''UserName: '' @ n @ '' \<newline>'') s)) })
       (Ptr UsersList) s;
     Some s }"

definition show_all_reminders :: "rstate \<Rightarrow> rstate option" where
  "show_all_reminders s = do {
     let s = printf ''show_all_reminders'' s;
     let s = printf ''\<newline>'' s;
     (b, p, s) \<leftarrow> list_for_each next_in
       (\<lambda>pos s. do {
          r \<leftarrow> reminder_of_list pos;
          R \<leftarrow> reminders s r;
          t \<leftarrow> strings s (notification_text R);
          Some (Next (printf (''Remainder: '' @ t @ '', Time: '' @ show_int (ellapse_time R) @ '' \<newline>'') s)) })
       (Ptr RemindersList) s;
     Some s }"

definition show_user_reminders :: "string \<Rightarrow> rstate \<Rightarrow> rstate option" where
  "show_user_reminders name s = do {
     p_user \<leftarrow> find_user_entry name s;
     case p_user of
       None \<Rightarrow> Some s
     | Some u \<Rightarrow> do {
         let s = printf (''Username: '' @ name @ ''\<newline>'') s;
         (b, p, counter, s) \<leftarrow> list_for_each (\<lambda>(_, s). next_in s)
           (\<lambda>pos (counter, s). do {
              r \<leftarrow> reminder_of_user_notify_list pos;
              R \<leftarrow> reminders s r;
              t \<leftarrow> strings s (notification_text R);
              let s = printf (''Reminder ['' @ show_int counter @ '']: '' @ t @ '', time: ''
                 @ show_int (ellapse_time R) @ ''\<newline>'') s;
              counter \<leftarrow> c_add counter 1;
              Some (Next (counter, s)) })
           (Ptr (NotifHead u)) (1, s);
         Some s } }"

definition for_each_notification_in_queue :: "(nat \<Rightarrow> rstate \<Rightarrow> rstate option) \<Rightarrow> rstate \<Rightarrow> rstate option" where
  "for_each_notification_in_queue enumerator s = do {
     (b, p, s) \<leftarrow> list_for_each next_in
       (\<lambda>pos s. do {
          r \<leftarrow> reminder_of_list pos;
          s \<leftarrow> enumerator r s;
          Some (Next s) })
       (Ptr RemindersList) s;
     Some s }"

definition get_notification_username :: "nat \<Rightarrow> rstate \<Rightarrow> nat option" where
  "get_notification_username item s = do {
     R \<leftarrow> reminders s item;
     u \<leftarrow> belongs_to R;
     U \<leftarrow> users s u;
     Some (user_name U) }"

definition get_notification_text :: "nat \<Rightarrow> rstate \<Rightarrow> nat option" where
  "get_notification_text item s = do {
     R \<leftarrow> reminders s item;
     Some (notification_text R) }"

definition set_notification_queue_changed_callback :: "bool \<Rightarrow> rstate \<Rightarrow> rstate" where
  "set_notification_queue_changed_callback callback s = s\<lparr>callback_queue_changed := callback\<rparr>"

definition set_notification_is_about_to_remove_callback :: "bool \<Rightarrow> rstate \<Rightarrow> rstate" where
  "set_notification_is_about_to_remove_callback callback s =
     s\<lparr>callback_notification_is_about_to_be_removed := callback\<rparr>"

definition get_notifications_total_count :: "rstate \<Rightarrow> nat option" where
  "get_notifications_total_count s = do {
     (b, p, n) \<leftarrow> list_for_each (\<lambda>_. next_in s) (\<lambda>_ n. Some (Next (Suc n))) (Ptr RemindersList) 0;
     Some n }"

definition is_notifications_list_empty :: "rstate \<Rightarrow> bool option" where
  "is_notifications_list_empty s = list_empty (nodes s) (Ptr RemindersList)"

text \<open>Two queries of the interface are placeholders in the code.\<close>

definition get_all_reminders :: "rstate \<Rightarrow> string option" where
  "get_all_reminders s = None"

definition get_user_reminders :: "string \<Rightarrow> rstate \<Rightarrow> string option" where
  "get_user_reminders name s = None"

end
