(* ===== verification/RemindersRefine.thy ===== *)
theory RemindersRefine
  imports RemindersSpec
begin

text \<open>
  The simulation, one operation of \<open>reminders_model.c\<close> at a time: from a heap that
  represents an abstract state every operation runs to its end without a fault, and leaves a
  heap that represents the state its abstract counterpart computes.
\<close>

section \<open>Adding users\<close>

text \<open>Whether the two coming allocations both succeed.\<close>

definition alloc2 :: "rstate \<Rightarrow> bool" where
  "alloc2 s = (case oom s of [] \<Rightarrow> True | b # bs \<Rightarrow> \<not> b \<and> (case bs of [] \<Rightarrow> True | c # _ \<Rightarrow> \<not> c))"

definition a_add_user :: "nat \<Rightarrow> string \<Rightarrow> aspec \<Rightarrow> aspec" where
  "a_add_user u n a = a\<lparr>a_users := a_users a @ [(u, n)], a_notif := (a_notif a)(u := [])\<rparr>"

lemma a_find_None: "a_find n a = None \<longleftrightarrow> n \<notin> snd ` set (a_users a)"
  by (force simp: a_find_def find_None_iff)

lemma a_find_SomeD: "a_find n a = Some u \<Longrightarrow> (u, n) \<in> set (a_users a)"
  by (auto simp: a_find_def find_Some_iff in_set_conv_nth) (metis prod.collapse fst_conv)

lemma models_fresh:
  assumes m: "models s a" and i: "brk s \<le> i"
  shows "i \<notin> set (user_ids a)" "i \<notin> set (queue_ids a)" "users s i = None" "reminders s i = None"
    "strings s i = None \<or> (\<exists>j. i = Suc j \<and> Suc j < brk s)"
    "nodes s (UserNode i) = None" "nodes s (NotifHead i) = None" "nodes s (RemNode i) = None"
    "nodes s (RemUserNode i) = None"
proof -
  have b: "\<forall>j \<in> set (user_ids a) \<union> set (queue_ids a). Suc j < brk s" using m by (simp add: models_def)
  have nb: "j \<in> set (user_ids a) \<union> set (queue_ids a) \<Longrightarrow> j < brk s" for j
    using b Suc_lessD by blast
  show u: "i \<notin> set (user_ids a)" using nb [of i] i by auto
  show q: "i \<notin> set (queue_ids a)" using nb [of i] i by auto
  from u q have "map_of (a_users a) i = None" "reminder_map (a_queue a) i = None"
    by (auto simp: map_of_eq_None_iff reminder_map_None user_ids_def queue_ids_def)
  then show "users s i = None" "reminders s i = None"
    using m by (auto simp: models_def user_objects_def reminder_objects_def)
  have "dom (nodes s) = node_dom (set (user_ids a)) (set (queue_ids a))" using m by (rule models_lists)
  then show "nodes s (UserNode i) = None" "nodes s (NotifHead i) = None" "nodes s (RemNode i) = None"
    "nodes s (RemUserNode i) = None"
    using u q by (metis domIff in_node_dom(3-6))+
  show "strings s i = None \<or> (\<exists>j. i = Suc j \<and> Suc j < brk s)"
  proof (cases i)
    case 0
    then show ?thesis using m by (simp add: models_def string_objects_def)
  next
    case (Suc j)
    show ?thesis
    proof (cases "j \<in> set (user_ids a) \<union> set (queue_ids a)")
      case True
      then show ?thesis using b Suc by auto
    next
      case False
      then have "map_of (a_users a) j = None" "reminder_map (a_queue a) j = None"
        by (auto simp: map_of_eq_None_iff reminder_map_None user_ids_def queue_ids_def)
      then show ?thesis using m Suc by (simp add: models_def string_objects_def)
    qed
  qed
qed

lemma awf_notif: "awf a \<Longrightarrow> u \<in> set (user_ids a) \<Longrightarrow> set (a_notif a u) \<subseteq> set (queue_ids a)"
  by (auto simp: awf_def queue_ids_def)

lemma awf_notif_disjoint:
  assumes "awf a" "u \<in> set (user_ids a)" "v \<in> set (user_ids a)" "v \<noteq> u"
  shows "set (a_notif a v) \<inter> set (a_notif a u) = {}"
proof -
  have inj: "x \<in> set (a_queue a) \<Longrightarrow> y \<in> set (a_queue a) \<Longrightarrow> r_id x = r_id y \<Longrightarrow> x = y" for x y
    using assms(1) by (auto simp: awf_def queue_ids_def distinct_map inj_on_def)
  show ?thesis using assms by (auto simp: awf_def dest: inj)
qed

lemma awf_add_user:
  assumes "awf a" "u \<notin> set (user_ids a)" "u \<notin> set (queue_ids a)" "n \<notin> snd ` set (a_users a)"
  shows "awf (a_add_user u n a)"
  using assms by (auto simp: awf_def a_add_user_def user_ids_def queue_ids_def image_iff)

lemma models_brk: "models s a \<Longrightarrow> brk s \<le> k \<Longrightarrow> models (s\<lparr>brk := k, oom := bs\<rparr>) a"
  by (auto simp: models_def intro: less_le_trans)

lemma models_oom: "models s a \<Longrightarrow> models (s\<lparr>oom := bs\<rparr>) a"
  by (auto simp: models_def)


lemma a_add_user_ids [simp]:
  "user_ids (a_add_user u n a) = user_ids a @ [u]" "queue_ids (a_add_user u n a) = queue_ids a"
  "a_notif (a_add_user u n a) = (a_notif a)(u := [])"
  by (simp_all add: a_add_user_def user_ids_def queue_ids_def)

lemma a_add_user_objects:
  assumes "u \<notin> set (user_ids a)" "u \<notin> set (queue_ids a)"
  shows "user_objects (a_add_user u n a) = (user_objects a)(u \<mapsto> \<lparr>user_name = Suc u\<rparr>)"
    "reminder_objects (a_add_user u n a) = reminder_objects a"
    "string_objects (a_add_user u n a) = (string_objects a)(Suc u \<mapsto> n)"
proof -
  have m: "map_of (a_users a) u = None" using assms by (simp add: user_ids_def map_of_eq_None_iff)
  then show "user_objects (a_add_user u n a) = (user_objects a)(u \<mapsto> \<lparr>user_name = Suc u\<rparr>)"
    by (auto simp: user_objects_def a_add_user_def map_add_def fun_eq_iff split: option.splits)
  show "reminder_objects (a_add_user u n a) = reminder_objects a"
    by (simp add: reminder_objects_def a_add_user_def)
  show "string_objects (a_add_user u n a) = (string_objects a)(Suc u \<mapsto> n)"
    using m by (auto simp: string_objects_def a_add_user_def map_add_def fun_eq_iff split: nat.split option.split)
qed

lemma malloc_cases:
  obtains (fail) "malloc s = (None, s\<lparr>oom := tl (oom s)\<rparr>)" "oom s \<noteq> []" "hd (oom s)"
  | (ok) "malloc s = (Some (brk s), s\<lparr>brk := Suc (brk s), oom := tl (oom s)\<rparr>)" "oom s = [] \<or> \<not> hd (oom s)"
  by (cases "oom s"; cases "hd (oom s)") (auto simp: malloc_def split: list.splits bool.splits)

lemma alloc2_eq: "alloc2 s \<longleftrightarrow> \<not> (oom s \<noteq> [] \<and> hd (oom s)) \<and> \<not> (tl (oom s) \<noteq> [] \<and> hd (tl (oom s)))"
  by (auto simp: alloc2_def split: list.splits)

lemma add_new_user_sim:
  assumes m: "models s a"
  shows "\<exists>s'. add_new_user n s = Some s' \<and>
    models s' (if a_find n a = None \<and> alloc2 s then a_add_user (brk s) n a else a)"
proof (cases "a_find n a")
  case (Some u)
  then show ?thesis using m
    by (simp add: add_new_user_def is_user_exists_def find_user_entry_models [OF m])
next
  case None
  note fr = models_fresh [OF m order_refl]
  have wf: "awf a" using m by (simp add: models_def)
  have ex: "is_user_exists n s = Some False"
    using None by (simp add: is_user_exists_def find_user_entry_models [OF m])
  let ?i = "brk s"
  show ?thesis
  proof (cases s rule: malloc_cases)
    case fail
    then show ?thesis using ex models_oom [OF m] by (simp add: add_new_user_def alloc2_eq)
  next
    case ok
    let ?s = "new_user_object ?i (s\<lparr>brk := Suc ?i, oom := tl (oom s)\<rparr>)"
    show ?thesis
    proof (cases ?s rule: malloc_cases)
      case fail
      have r: "free_user ?i (?s\<lparr>oom := tl (oom ?s)\<rparr>) = Some (s\<lparr>brk := Suc ?i, oom := tl (tl (oom s))\<rparr>)"
        using fr fun_upd_idem [of "users s" ?i None] fun_upd_idem [of "nodes s" "UserNode ?i" None]
          fun_upd_idem [of "nodes s" "NotifHead ?i" None]
        by (simp add: free_user_def new_user_object_def fun_upd_twist [of "NotifHead ?i" "UserNode ?i"])
      have "models (s\<lparr>brk := Suc ?i, oom := tl (tl (oom s))\<rparr>) a" using models_brk [OF m] by simp
      with fail ok(1) r ex show ?thesis by (simp add: add_new_user_def alloc2_eq new_user_object_def)
    next
      case ok2: ok
      obtain h1 h2 where h: "INIT_LIST_HEAD ((nodes s)(UserNode ?i \<mapsto> garbage, NotifHead ?i \<mapsto> garbage)) (Ptr (NotifHead ?i)) = Some h1"
        "list_add_tail h1 (Ptr (UserNode ?i)) (Ptr UsersList) = Some h2"
        "heap_models h2 (user_ids a @ [?i]) (queue_ids a) ((a_notif a)(?i := []))"
        using heap_add_user [of "nodes s" "user_ids a" "queue_ids a" "a_notif a" ?i] m fr(1) awf_notif [OF wf]
        by (auto simp: models_def)
      have a2: "alloc2 s" using ok(2) ok2(2) by (auto simp: alloc2_eq new_user_object_def)
      show ?thesis
        using ok(1) ok2(1) h(1,2) ex None a2
          m awf_add_user [OF wf fr(1,2), of n] h(3) a_add_user_objects [OF fr(1,2), of n]
        by (auto simp: models_def add_new_user_def new_user_object_def on_nodes_def Let_def a_find_None less_Suc_eq)
    qed
  qed
qed
section \<open>Adding reminders\<close>

definition a_insert :: "areminder \<Rightarrow> areminder list \<Rightarrow> areminder list" where
  "a_insert x q = takeWhile (\<lambda>y. r_time y \<le> r_time x) q @ x # dropWhile (\<lambda>y. r_time y \<le> r_time x) q"

lemma takeWhile_dropWhile_split:
  assumes "\<forall>y \<in> set pre. P y" "post \<noteq> [] \<Longrightarrow> \<not> P (hd post)"
  shows "takeWhile P (pre @ post) = pre" "dropWhile P (pre @ post) = post"
  using assms by (cases post; simp add: takeWhile_append2 dropWhile_append2)+

lemma insert_reminder_entry_node:
  assumes d: "dlist (nodes s) RemindersList (map RemNode (map r_id q))"
    and q: "\<forall>y \<in> set q. map_option ellapse_time (reminders s (r_id y)) = Some (r_time y)"
    and r: "map_option ellapse_time (reminders s r) = Some k"
    and ins: "on_nodes (\<lambda>h. list_add_tail h (Ptr (RemNode r))
      (first_ptr RemindersList (map RemNode (map r_id (dropWhile (\<lambda>y. r_time y \<le> k) q))))) s = Some s'"
  shows "insert_reminder_entry_to_global_list r s = Some s'"
proof -
  let ?P = "\<lambda>y. r_time y \<le> k"
  let ?body = "\<lambda>ptr s. do {
          entry \<leftarrow> reminder_of_list ptr;
          E \<leftarrow> reminders s entry;
          N \<leftarrow> reminders s r;
          if ellapse_time E > ellapse_time N then do {
            s \<leftarrow> on_nodes (\<lambda>h. list_add_tail h (Ptr (RemNode r)) ptr) s;
            Some (Break s) }
          else Some (Next s) }"
  let ?I = "\<lambda>(t::node list) (s1::rstate). s1 = s \<and> (\<exists>pre post. q = pre @ post \<and> t = map RemNode (map r_id post) \<and> (\<forall>y \<in> set pre. ?P y))"
  let ?Q = "\<lambda>(x::node) (t::node list) s1. s1 = s'"
  have "(\<exists>s1. list_for_each next_in ?body (Ptr RemindersList) s = Some (False, Ptr RemindersList, s1) \<and> ?I [] s1) \<or>
    (\<exists>x t s1. list_for_each next_in ?body (Ptr RemindersList) s = Some (True, Ptr x, s1) \<and> ?Q x t s1)"
  proof (rule list_for_each_rule [where I = ?I and Q = ?Q and xs = "map RemNode (map r_id q)"])
    fix x t s1 assume "?I (x # t) s1"
    then obtain pre y post where p: "s1 = s" "q = pre @ y # post" "x = RemNode (r_id y)"
      "t = map RemNode (map r_id post)" "\<forall>y \<in> set pre. ?P y"
      by (auto simp: Cons_eq_map_conv map_eq_Cons_conv)
    obtain E where E: "reminders s (r_id y) = Some E" "ellapse_time E = r_time y" using q p(2) by auto
    obtain N where N: "reminders s r = Some N" "ellapse_time N = k" using r by auto
    have link: "next_in s (Ptr x) = Some (first_ptr RemindersList t)"
      using d p by (auto simp: heap_simps intro: dlist_next [of _ _ "map RemNode (map r_id pre)"])
    have "\<exists>pre' post'. q = pre' @ post' \<and> t = map RemNode (map r_id post') \<and> (\<forall>y \<in> set pre'. ?P y)" if "?P y"
      using p that by (intro exI [of _ "pre @ [y]"] exI [of _ post]) auto
    moreover have "dropWhile ?P q = y # post" if "\<not> ?P y"
      using p that by (simp add: dropWhile_append2)
    ultimately show "x \<noteq> RemindersList \<and>
      ((\<exists>s'. ?body (Ptr x) s1 = Some (Next s') \<and> next_in s' (Ptr x) = Some (first_ptr RemindersList t) \<and> ?I t s') \<or>
       (\<exists>s'. ?body (Ptr x) s1 = Some (Break s') \<and> ?Q x t s'))"
      using p E N link ins by (cases "?P y") auto
  next
    show "?I (map RemNode (map r_id q)) s" by (auto intro: exI [of _ "[]"])
    show "next_in s (Ptr RemindersList) = Some (first_ptr RemindersList (map RemNode (map r_id q)))"
      using dlist_first [OF d] by (simp add: heap_simps)
  qed
  then show ?thesis
  proof
    assume "\<exists>s1. list_for_each next_in ?body (Ptr RemindersList) s = Some (False, Ptr RemindersList, s1) \<and> ?I [] s1"
    then have r: "list_for_each next_in ?body (Ptr RemindersList) s = Some (False, Ptr RemindersList, s)"
      and "dropWhile ?P q = []" by auto
    from ins have "on_nodes (\<lambda>h. list_add_tail h (Ptr (RemNode r)) (Ptr RemindersList)) s = Some s'"
      unfolding \<open>dropWhile ?P q = []\<close> by simp
    with r show ?thesis by (simp add: insert_reminder_entry_to_global_list_def)
  qed (auto simp: insert_reminder_entry_to_global_list_def)
qed

definition a_add_reminder :: "nat \<Rightarrow> nat \<Rightarrow> string \<Rightarrow> int \<Rightarrow> aspec \<Rightarrow> aspec" where
  "a_add_reminder r u t k a = a\<lparr>
     a_queue := a_insert \<lparr>r_id = r, r_title = t, r_owner = u, r_time = k\<rparr> (a_queue a),
     a_notif := (a_notif a)(u := a_notif a u @ [r])\<rparr>"

lemma a_insert_split:
  obtains pre post where "q = pre @ post" "a_insert x q = pre @ x # post"
    "\<forall>y \<in> set pre. r_time y \<le> r_time x" "post \<noteq> [] \<Longrightarrow> r_time x < r_time (hd post)"
  using hd_dropWhile [of "\<lambda>y. r_time y \<le> r_time x" q]
  by (intro that [of "takeWhile (\<lambda>y. r_time y \<le> r_time x) q" "dropWhile (\<lambda>y. r_time y \<le> r_time x) q"])
    (auto simp: a_insert_def dest: set_takeWhileD)

lemma set_a_insert [simp]: "set (a_insert x q) = insert x (set q)"
  by (rule a_insert_split [of q x]) auto

lemma distinct_a_insert: "distinct (map f (a_insert x q)) \<longleftrightarrow> distinct (map f (x # q))"
  by (rule a_insert_split [of q x]) auto

lemma a_insert_sorted:
  assumes "sorted (map r_time q)"
  shows "sorted (map r_time (a_insert x q))"
proof (rule a_insert_split [of q x])
  fix pre post assume *: "q = pre @ post" "a_insert x q = pre @ x # post"
    "\<forall>y \<in> set pre. r_time y \<le> r_time x" "post \<noteq> [] \<Longrightarrow> r_time x < r_time (hd post)"
  then have "\<forall>z \<in> set post. r_time x \<le> r_time z" using assms by (cases post) (auto simp: sorted_append)
  with * assms show ?thesis by (auto simp: sorted_append)
qed

lemma a_add_reminder_ids [simp]:
  "user_ids (a_add_reminder r u t k a) = user_ids a"
  "set (queue_ids (a_add_reminder r u t k a)) = insert r (set (queue_ids a))"
  "a_notif (a_add_reminder r u t k a) = (a_notif a)(u := a_notif a u @ [r])"
  by (simp_all add: a_add_reminder_def user_ids_def queue_ids_def)

lemma awf_add_reminder:
  assumes "awf a" "r \<notin> set (user_ids a)" "r \<notin> set (queue_ids a)" "u \<in> set (user_ids a)"
  shows "awf (a_add_reminder r u t k a)"
proof -
  have "r \<notin> set (a_notif a v)" if "v \<in> set (user_ids a)" for v
    using awf_notif [OF assms(1) that] assms(3) by blast
  moreover have "{x. (x = \<lparr>r_id = r, r_title = t, r_owner = u, r_time = k\<rparr> \<or> x \<in> set (a_queue a)) \<and> r_owner x = v} =
    (if v = u then insert \<lparr>r_id = r, r_title = t, r_owner = u, r_time = k\<rparr> {x \<in> set (a_queue a). r_owner x = u}
     else {x \<in> set (a_queue a). r_owner x = v})" for v by auto
  ultimately show ?thesis using assms
    by (auto simp: awf_def a_add_reminder_def user_ids_def queue_ids_def distinct_a_insert)
qed

lemma a_add_reminder_objects:
  assumes "awf a" "r \<notin> set (user_ids a)" "r \<notin> set (queue_ids a)"
  shows "user_objects (a_add_reminder r u t k a) = user_objects a"
    "reminder_objects (a_add_reminder r u t k a) =
      (reminder_objects a)(r \<mapsto> \<lparr>notification_text = Suc r, belongs_to = Some u, ellapse_time = k\<rparr>)"
    "string_objects (a_add_reminder r u t k a) = (string_objects a)(Suc r \<mapsto> t)"
proof -
  show "user_objects (a_add_reminder r u t k a) = user_objects a"
    by (simp add: user_objects_def a_add_reminder_def)
  let ?x = "\<lparr>r_id = r, r_title = t, r_owner = u, r_time = k\<rparr>"
  have q: "reminder_map (a_insert ?x (a_queue a)) = (reminder_map (a_queue a))(r \<mapsto> ?x)"
  proof -
    have "distinct (map fst (map (\<lambda>x. (r_id x, x)) (a_insert ?x (a_queue a))))"
      using assms by (simp add: comp_def distinct_a_insert awf_def queue_ids_def)
    then have "map_of (map (\<lambda>x. (r_id x, x)) (a_insert ?x (a_queue a))) = map_of (map (\<lambda>x. (r_id x, x)) (?x # a_queue a))"
      using assms by (intro map_of_inject_set [THEN iffD2]) (auto simp: comp_def awf_def queue_ids_def)
    then show ?thesis by (simp add: reminder_map_def)
  qed
  then show "reminder_objects (a_add_reminder r u t k a) =
      (reminder_objects a)(r \<mapsto> \<lparr>notification_text = Suc r, belongs_to = Some u, ellapse_time = k\<rparr>)"
    by (auto simp: reminder_objects_def a_add_reminder_def reminder_object_def fun_eq_iff)
  have "map_of (a_users a) r = None" using assms(2) by (simp add: user_ids_def map_of_eq_None_iff)
  with q show "string_objects (a_add_reminder r u t k a) = (string_objects a)(Suc r \<mapsto> t)"
    by (auto simp: string_objects_def a_add_reminder_def fun_eq_iff split: nat.split option.split)
qed

lemma set_reminder_Some: "reminders s r = Some R \<Longrightarrow> set_reminder f r s = Some (s\<lparr>reminders := (reminders s)(r \<mapsto> f R)\<rparr>)"
  by (simp add: set_reminder_def)

lemma add_user_reminder_sim:
  assumes m: "models s a"
  shows "\<exists>s'. add_user_reminder n t k s = Some s' \<and>
    models s' (case a_find n a of
        None \<Rightarrow> a
      | Some u \<Rightarrow> if alloc2 s then a_add_reminder (brk s) u t k a else a)"
proof (cases "a_find n a")
  case None
  then show ?thesis using m by (simp add: add_user_reminder_def find_user_entry_models [OF m])
next
  case (Some u)
  note fr = models_fresh [OF m order_refl]
  have wf: "awf a" using m by (simp add: models_def)
  have u: "u \<in> set (user_ids a)" using a_find_SomeD [OF Some] by (force simp: user_ids_def)
  let ?r = "brk s"
  show ?thesis
  proof (cases s rule: malloc_cases)
    case fail
    then show ?thesis using Some models_oom [OF m]
      by (simp add: add_user_reminder_def find_user_entry_models [OF m] alloc2_eq)
  next
    case ok
    let ?s = "new_reminder_object ?r (s\<lparr>brk := Suc ?r, oom := tl (oom s)\<rparr>)"
    show ?thesis
    proof (cases ?s rule: malloc_cases)
      case fail
      have r: "free_reminder ?r (?s\<lparr>oom := tl (oom ?s)\<rparr>) = Some (s\<lparr>brk := Suc ?r, oom := tl (tl (oom s))\<rparr>)"
        using fr fun_upd_idem [of "reminders s" ?r None] fun_upd_idem [of "nodes s" "RemNode ?r" None]
          fun_upd_idem [of "nodes s" "RemUserNode ?r" None]
        by (simp add: free_reminder_def new_reminder_object_def fun_upd_twist [of "RemUserNode ?r" "RemNode ?r"])
      have "models (s\<lparr>brk := Suc ?r, oom := tl (tl (oom s))\<rparr>) a" using models_brk [OF m] by simp
      with fail ok(1) r Some show ?thesis
        by (simp add: add_user_reminder_def find_user_entry_models [OF m] alloc2_eq new_reminder_object_def)
    next
      case ok2: ok
      let ?x = "\<lparr>r_id = ?r, r_title = t, r_owner = u, r_time = k\<rparr>"
      obtain h1 h2 h3 where h: "INIT_LIST_HEAD ((nodes s)(RemNode ?r \<mapsto> garbage, RemUserNode ?r \<mapsto> garbage)) (Ptr (RemNode ?r)) = Some h1"
        "INIT_LIST_HEAD h1 (Ptr (RemUserNode ?r)) = Some h2"
        "list_add_tail h2 (Ptr (RemUserNode ?r)) (Ptr (NotifHead u)) = Some h3"
        "dlist h3 RemindersList (map RemNode (queue_ids a))"
        "\<And>q1 q2. queue_ids a = q1 @ q2 \<Longrightarrow> (\<exists>h4. list_add_tail h3 (Ptr (RemNode ?r)) (first_ptr RemindersList (map RemNode q2)) = Some h4 \<and>
            heap_models h4 (user_ids a) (q1 @ ?r # q2) ((a_notif a)(u := a_notif a u @ [?r])))"
        using heap_add_reminder [of "nodes s" "user_ids a" "queue_ids a" "a_notif a" ?r u] m fr u
          awf_notif [OF wf] awf_notif_disjoint [OF wf u]
        by (auto simp: models_def)
      let ?P = "\<lambda>y. r_time y \<le> k"
      obtain h4 where h4: "list_add_tail h3 (Ptr (RemNode ?r)) (first_ptr RemindersList (map RemNode (map r_id (dropWhile ?P (a_queue a))))) = Some h4"
        "heap_models h4 (user_ids a) (map r_id (a_insert ?x (a_queue a))) ((a_notif a)(u := a_notif a u @ [?r]))"
      proof -
        have "queue_ids a = map r_id (takeWhile ?P (a_queue a)) @ map r_id (dropWhile ?P (a_queue a))"
          unfolding queue_ids_def map_append [symmetric] by simp
        from h(5) [OF this] that show thesis by (auto simp: a_insert_def)
      qed
      define s3 where "s3 = s\<lparr>brk := Suc (Suc ?r), oom := tl (tl (oom s)), strings := (strings s)(Suc ?r \<mapsto> t),
        reminders := (reminders s)(?r \<mapsto> \<lparr>notification_text = Suc ?r, belongs_to = None, ellapse_time = k\<rparr>),
        nodes := h3\<rparr>"
      have ne: "y \<in> set (a_queue a) \<Longrightarrow> r_id y \<noteq> ?r" for y using fr(2) by (metis imageI list.set_map queue_ids_def)
      have ins: "insert_reminder_entry_to_global_list ?r s3 = Some (s3\<lparr>nodes := h4\<rparr>)"
      proof (rule insert_reminder_entry_node [where q = "a_queue a" and k = k])
        show "\<forall>y \<in> set (a_queue a). map_option ellapse_time (reminders s3 (r_id y)) = Some (r_time y)"
          using models_reminder [OF m] ne by (auto simp: s3_def reminder_object_def)
      qed (use h(4) h4(1) in \<open>auto simp: s3_def on_nodes_def queue_ids_def\<close>)
      have hq: "heap_models h4 (user_ids a) (queue_ids (a_add_reminder ?r u t k a)) ((a_notif a)(u := a_notif a u @ [?r]))"
        using h4(2) by (simp add: queue_ids_def a_add_reminder_def)
      have a2: "alloc2 s" using ok(2) ok2(2) by (auto simp: alloc2_eq new_reminder_object_def)
      have "add_user_reminder n t k s = do {
          s \<leftarrow> insert_reminder_entry_to_global_list ?r s3;
          set_reminder (\<lambda>R. R\<lparr>belongs_to := Some u\<rparr>) ?r s }"
        using ok(1) ok2(1) h(1-3) Some
        by (simp add: add_user_reminder_def find_user_entry_models [OF m] new_reminder_object_def on_nodes_def Let_def set_reminder_def [abs_def] s3_def)
      moreover have "models (s3\<lparr>nodes := h4, reminders := (reminders s)(?r \<mapsto> \<lparr>notification_text = Suc ?r, belongs_to = Some u, ellapse_time = k\<rparr>)\<rparr>)
          (a_add_reminder ?r u t k a)"
        using m awf_add_reminder [OF wf fr(1,2) u] a_add_reminder_objects [OF wf fr(1,2)] hq
        by (auto simp: models_def s3_def less_Suc_eq)
      ultimately show ?thesis using a2 Some ins by (simp add: set_reminder_def s3_def)
    qed
  qed
qed
section \<open>Removing users\<close>

text \<open>
  The part of \<open>models\<close> that is left while the lists are being torn down: the blocks and the
  lists, but not that every reminder has a live owner.
\<close>

definition represents :: "rstate \<Rightarrow> aspec \<Rightarrow> bool" where
  "represents s a \<longleftrightarrow> heap_models (nodes s) (user_ids a) (queue_ids a) (a_notif a) \<and>
     users s = user_objects a \<and> reminders s = reminder_objects a \<and> strings s = string_objects a"

definition distinct_ids :: "aspec \<Rightarrow> bool" where
  "distinct_ids a \<longleftrightarrow> distinct (user_ids a) \<and> distinct (queue_ids a) \<and> set (user_ids a) \<inter> set (queue_ids a) = {}"

lemma models_represents:
  "models s a \<longleftrightarrow> awf a \<and> represents s a \<and> (\<forall>i \<in> set (user_ids a) \<union> set (queue_ids a). Suc i < brk s)"
  by (auto simp: models_def represents_def)

lemma awf_distinct_ids: "awf a \<Longrightarrow> distinct_ids a"
  by (simp add: awf_def distinct_ids_def)

lemma del_user_objects:
  assumes d: "distinct_ids a" and a: "a_users a = us @ (u, n) # vs"
  shows "user_objects (a\<lparr>a_users := us @ vs\<rparr>) = (user_objects a)(u := None)"
    "reminder_objects (a\<lparr>a_users := us @ vs\<rparr>) = reminder_objects a"
    "string_objects (a\<lparr>a_users := us @ vs\<rparr>) = (string_objects a)(Suc u := None)"
proof -
  have m: "map_of (us @ vs) = (map_of (a_users a))(u := None)"
    using d map_of_remove_middle [of us u n vs] by (simp add: distinct_ids_def user_ids_def a)
  then show "user_objects (a\<lparr>a_users := us @ vs\<rparr>) = (user_objects a)(u := None)"
    by (simp add: user_objects_def fun_eq_iff)
  show "reminder_objects (a\<lparr>a_users := us @ vs\<rparr>) = reminder_objects a" by (simp add: reminder_objects_def)
  have "reminder_map (a_queue a) u = None"
    using d by (auto simp: distinct_ids_def user_ids_def queue_ids_def a reminder_map_None)
  with m show "string_objects (a\<lparr>a_users := us @ vs\<rparr>) = (string_objects a)(Suc u := None)"
    by (auto simp: string_objects_def fun_eq_iff split: nat.split option.split)
qed

lemma del_user_step:
  assumes r: "represents s a" and d: "distinct_ids a" and a: "a_users a = us @ (u, n) # vs"
  shows "\<exists>s1 h. on_nodes (\<lambda>h. list_del h (Ptr (UserNode u))) s = Some s1 \<and>
    user_dtor u s1 = Some (s\<lparr>strings := (strings s)(Suc u := None), users := (users s)(u := None), nodes := h\<rparr>) \<and>
    represents (s\<lparr>strings := (strings s)(Suc u := None), users := (users s)(u := None), nodes := h\<rparr>) (a\<lparr>a_users := us @ vs\<rparr>)"
proof -
  have ids: "user_ids a = map fst us @ u # map fst vs" by (simp add: user_ids_def a)
  obtain h where h: "list_del (nodes s) (Ptr (UserNode u)) = Some h"
    "heap_models (h(UserNode u := None, NotifHead u := None)) (map fst us @ map fst vs) (queue_ids a) (a_notif a)"
    using heap_del_user [of "nodes s" "map fst us" u "map fst vs" "queue_ids a" "a_notif a"] r d
    by (auto simp: represents_def distinct_ids_def ids)
  have m: "map_of (a_users a) u = Some n" using d
    by (intro map_of_is_SomeI) (auto simp: distinct_ids_def user_ids_def a)
  then have o: "users s u = Some \<lparr>user_name = Suc u\<rparr>" "strings s (Suc u) = Some n"
    using r by (auto simp: represents_def user_objects_def string_objects_def)
  show ?thesis
    using h o r del_user_objects [OF d a]
    by (auto simp: on_nodes_def user_dtor_def free_string_def free_user_def represents_def user_ids_def queue_ids_def)
qed

definition a_remove_user :: "string \<Rightarrow> aspec \<Rightarrow> aspec" where
  "a_remove_user n a = a\<lparr>a_users := filter (\<lambda>x. snd x \<noteq> n) (a_users a)\<rparr>"

lemma distinct_snd_filter:
  assumes "distinct (map snd (us @ (u, n) # vs))"
  shows "filter (\<lambda>x. snd x \<noteq> n) (us @ (u, n) # vs) = us @ vs"
proof -
  have "\<forall>x \<in> set us. snd x \<noteq> n" "\<forall>x \<in> set vs. snd x \<noteq> n" using assms by auto
  then show ?thesis by simp
qed

lemma a_find_split:
  assumes "awf a" "a_find n a = Some u"
  obtains us vs where "a_users a = us @ (u, n) # vs" "a_users (a_remove_user n a) = us @ vs"
    "n \<notin> snd ` set us" "n \<notin> snd ` set vs"
proof -
  obtain us vs where a: "a_users a = us @ (u, n) # vs" using a_find_SomeD [OF assms(2)] by (metis split_list)
  moreover have "distinct (map snd (a_users a))" using assms(1) by (simp add: awf_def)
  ultimately show thesis using that distinct_snd_filter [of us u n vs] by (auto simp: a_remove_user_def)
qed

lemma awf_remove_user:
  assumes wf: "awf a" and a: "a_users a = us @ (u, n) # vs" and e: "a_notif a u = []"
  shows "awf (a\<lparr>a_users := us @ vs\<rparr>)"
proof -
  have "r_owner x \<noteq> u" if "x \<in> set (a_queue a)" for x
    using wf that e by (auto simp: awf_def a user_ids_def)
  moreover have "a_notif a v = []" if "v \<notin> set (map fst (us @ vs))" for v
    using wf that e by (cases "v = u") (auto simp: awf_def a user_ids_def)
  ultimately show ?thesis using wf by (auto simp: awf_def a user_ids_def queue_ids_def)
qed

lemma remove_user_sim:
  assumes m: "models s a" and e: "\<And>u. a_find n a = Some u \<Longrightarrow> a_notif a u = []"
  shows "\<exists>s'. remove_user n s = Some s' \<and> models s' (a_remove_user n a) \<and> trace s' = trace s"
proof -
  have wf: "awf a" and r: "represents s a" using m by (auto simp: models_represents)
  obtain s' where s': "models s' (a_remove_user n a)" "trace s' = trace s"
    "a_find n a = None \<Longrightarrow> s' = s"
    "\<And>u. a_find n a = Some u \<Longrightarrow> \<exists>s1. on_nodes (\<lambda>h. list_del h (Ptr (UserNode u))) s = Some s1 \<and> user_dtor u s1 = Some s'"
  proof (cases "a_find n a")
    case None
    then have "\<forall>x \<in> set (a_users a). snd x \<noteq> n" by (auto simp: a_find_None)
    then have "a_remove_user n a = a" by (simp add: a_remove_user_def)
    with None m show thesis by (intro that [of s]) auto
  next
    case (Some u)
    obtain us vs where a: "a_users a = us @ (u, n) # vs" "a_users (a_remove_user n a) = us @ vs"
      using a_find_split [OF wf Some] by metis
    have ra: "a_remove_user n a = a\<lparr>a_users := us @ vs\<rparr>" using a by (simp add: a_remove_user_def)
    from del_user_step [OF r awf_distinct_ids [OF wf] a(1)] obtain s1 h where
      h: "on_nodes (\<lambda>h. list_del h (Ptr (UserNode u))) s = Some s1"
        "user_dtor u s1 = Some (s\<lparr>strings := (strings s)(Suc u := None), users := (users s)(u := None), nodes := h\<rparr>)"
        "represents (s\<lparr>strings := (strings s)(Suc u := None), users := (users s)(u := None), nodes := h\<rparr>) (a\<lparr>a_users := us @ vs\<rparr>)"
      by blast
    have "\<forall>i \<in> set (user_ids a) \<union> set (queue_ids a). Suc i < brk s" using m by (simp add: models_represents)
    then have "models (s\<lparr>strings := (strings s)(Suc u := None), users := (users s)(u := None), nodes := h\<rparr>) (a_remove_user n a)"
      unfolding ra using h(3) awf_remove_user [OF wf a(1) e [OF Some]]
      by (auto simp: models_represents user_ids_def queue_ids_def a)
    with h Some show thesis by (intro that) auto
  qed
  let ?body = "\<lambda>pos s. do {
          user_it \<leftarrow> user_of_list pos;
          U \<leftarrow> users s user_it;
          m \<leftarrow> strings s (user_name U);
          if m = n then do {
            s \<leftarrow> on_nodes (\<lambda>h. list_del h pos) s;
            s \<leftarrow> user_dtor user_it s;
            Some (Next s) }
          else Some (Next s) }"
  let ?I = "\<lambda>(t::node list) (s1::rstate). (\<exists>pre post. a_users a = pre @ post \<and> t = map UserNode (map fst post) \<and>
      s1 = (if n \<in> snd ` set pre then s' else s))"
  have "(\<exists>s1. list_for_each_safe next_in ?body (Ptr UsersList) s = Some (False, Ptr UsersList, s1) \<and> ?I [] s1)"
  proof (rule list_for_each_safe_all [where I = ?I and xs = "map UserNode (user_ids a)"])
    fix x t s1 assume "?I (x # t) s1"
    then obtain pre u m post where p: "a_users a = pre @ (u, m) # post" "x = UserNode u"
      "t = map UserNode (map fst post)" "s1 = (if n \<in> snd ` set pre then s' else s)"
      by (auto simp: Cons_eq_map_conv map_eq_Cons_conv)
    have um: "m \<noteq> n \<Longrightarrow> (u, m) \<in> set (a_users (a_remove_user n a))" using p by (simp add: a_remove_user_def)
    have d: "distinct (map snd (a_users a))" using wf by (simp add: awf_def)
    have lk: "users s1 u = Some \<lparr>user_name = Suc u\<rparr> \<and> strings s1 (Suc u) = Some m"
      using models_user [OF m, of u m] models_user [OF s'(1) um] p d by (cases "n \<in> snd ` set pre") auto
    have I: "?I t (if n \<in> snd ` set (pre @ [(u, m)]) then s' else s)"
      using p(1,3) by (intro exI [of _ "pre @ [(u, m)]"] exI [of _ post]) simp
    have fu: "a_find n a = Some u \<and> n \<notin> snd ` set pre" if "m = n"
    proof -
      have "\<forall>x \<in> set pre. snd x \<noteq> n" using d that by (auto simp: p(1))
      then show ?thesis using find_first [of pre "\<lambda>x. snd x = n" "(u, m)" post] that
        by (auto simp: a_find_def p(1))
    qed
    show "\<exists>s'. ?body (Ptr x) s1 = Some (Next s') \<and> ?I t s'"
    proof (cases "m = n")
      case True
      with fu s'(4) [of u] obtain s2 where "on_nodes (\<lambda>h. list_del h (Ptr (UserNode u))) s = Some s2" "user_dtor u s2 = Some s'"
        by blast
      with True p fu lk I show ?thesis by auto
    next
      case False
      with p lk I show ?thesis by auto
    qed
  next
    fix x t s1 assume "?I (x # t) s1"
    then obtain pre u m post where p: "a_users a = pre @ (u, m) # post" "x = UserNode u"
      "t = map UserNode (map fst post)" "s1 = (if n \<in> snd ` set pre then s' else s)"
      by (auto simp: Cons_eq_map_conv map_eq_Cons_conv)
    have d: "distinct (map snd (a_users a))" using wf by (simp add: awf_def)
    have "\<exists>b. models s1 b \<and> (\<exists>us. user_ids b = us @ u # map fst post)"
    proof (cases "n \<in> snd ` set pre")
      case True
      have "n \<notin> snd ` set ((u, m) # post)" using d True by (auto simp: p(1))
      then have "\<forall>x \<in> set ((u, m) # post). snd x \<noteq> n" by auto
      then have "user_ids (a_remove_user n a) = map fst (filter (\<lambda>x. snd x \<noteq> n) pre) @ u # map fst post"
        by (simp add: a_remove_user_def user_ids_def p(1))
      with s'(1) True p(4) show ?thesis by auto
    next
      case False
      then show ?thesis using m p(1,4) by (auto simp: user_ids_def)
    qed
    then obtain b us where "models s1 b" "user_ids b = us @ u # map fst post" by blast
    with models_lists(1) [of s1 b] show "x \<noteq> UsersList \<and> next_in s1 (Ptr x) = Some (first_ptr UsersList t)"
      using p(2,3) by (auto simp: heap_simps intro: dlist_next [of _ _ "map UserNode us"])
  next
    fix s1 assume "?I [] s1"
    then show "\<exists>p. next_in s1 (Ptr UsersList) = Some p"
      using dlist_first [OF models_lists(1) [OF m]] dlist_first [OF models_lists(1) [OF s'(1)]]
      by (auto simp: heap_simps)
  next
    show "?I (map UserNode (user_ids a)) s" by (auto simp: user_ids_def intro: exI [of _ "[]"])
    show "next_in s (Ptr UsersList) = Some (first_ptr UsersList (map UserNode (user_ids a)))"
      using dlist_first [OF models_lists(1) [OF m]] by (simp add: heap_simps)
  qed
  then obtain s1 where s1: "list_for_each_safe next_in ?body (Ptr UsersList) s = Some (False, Ptr UsersList, s1)"
    "s1 = (if n \<in> snd ` set (a_users a) then s' else s)" by auto
  have "s1 = s'" using s1(2) s'(3) a_find_None [of n a] by (auto split: if_splits)
  with s1(1) s'(1,2) show ?thesis by (auto simp: remove_user_def)
qed
section \<open>Removing one reminder\<close>

definition a_del :: "areminder \<Rightarrow> aspec \<Rightarrow> aspec" where
  "a_del x a = a\<lparr>a_queue := filter (\<lambda>y. r_id y \<noteq> r_id x) (a_queue a),
     a_notif := (a_notif a)(r_owner x := filter (\<lambda>r. r \<noteq> r_id x) (a_notif a (r_owner x)))\<rparr>"

lemma a_del_ids [simp]:
  "user_ids (a_del x a) = user_ids a" "queue_ids (a_del x a) = filter (\<lambda>r. r \<noteq> r_id x) (queue_ids a)"
  by (simp_all add: a_del_def user_ids_def queue_ids_def filter_map comp_def)

lemma reminder_map_filter: "reminder_map (filter (\<lambda>y. r_id y \<noteq> r) q) = (reminder_map q)(r := None)"
  by (induction q) (auto simp: reminder_map_def fun_eq_iff)

lemma a_del_objects:
  assumes "distinct_ids a" "x \<in> set (a_queue a)"
  shows "user_objects (a_del x a) = user_objects a"
    "reminder_objects (a_del x a) = (reminder_objects a)(r_id x := None)"
    "string_objects (a_del x a) = (string_objects a)(Suc (r_id x) := None)"
proof -
  have "r_id x \<notin> fst ` set (a_users a)"
    using assms by (auto simp: distinct_ids_def user_ids_def queue_ids_def)
  then have "map_of (a_users a) (r_id x) = None" by (simp add: map_of_eq_None_iff)
  then show "user_objects (a_del x a) = user_objects a"
    "reminder_objects (a_del x a) = (reminder_objects a)(r_id x := None)"
    "string_objects (a_del x a) = (string_objects a)(Suc (r_id x) := None)"
    by (auto simp: user_objects_def reminder_objects_def string_objects_def a_del_def reminder_map_filter fun_eq_iff
        split: nat.split option.split)
qed

lemma awf_inj: "awf a \<Longrightarrow> x \<in> set (a_queue a) \<Longrightarrow> y \<in> set (a_queue a) \<Longrightarrow> r_id x = r_id y \<Longrightarrow> x = y"
  by (auto simp: awf_def queue_ids_def distinct_map inj_on_def)

lemma awf_owner:
  assumes "awf a" "x \<in> set (a_queue a)"
  shows "r_owner x \<in> set (user_ids a)" "r_id x \<in> set (a_notif a (r_owner x))"
  using assms by (auto simp: awf_def)

lemma awf_del:
  assumes wf: "awf a" and x: "x \<in> set (a_queue a)"
  shows "awf (a_del x a)"
proof -
  have "set (a_notif (a_del x a) u) = r_id ` {y \<in> set (a_queue (a_del x a)). r_owner y = u}"
    if u: "u \<in> set (user_ids a)" for u
  proof (cases "u = r_owner x")
    case True
    have "set (a_notif a u) = r_id ` {y \<in> set (a_queue a). r_owner y = u}" using wf u by (simp add: awf_def)
    then show ?thesis using True by (auto simp: a_del_def)
  next
    case False
    have "set (a_notif a u) = r_id ` {y \<in> set (a_queue a). r_owner y = u}" using wf u by (simp add: awf_def)
    moreover have "r_id y \<noteq> r_id x" if "y \<in> set (a_queue a)" "r_owner y = u" for y
      using awf_inj [OF wf x, of y] that False by auto
    ultimately show ?thesis using False by (auto simp: a_del_def)
  qed
  moreover have "distinct (a_notif (a_del x a) u)" if u: "u \<in> set (user_ids a)" for u
    using wf u by (auto simp: awf_def a_del_def)
  moreover have "a_notif (a_del x a) u = []" if "u \<notin> set (user_ids a)" for u
    using wf that by (auto simp: awf_def a_del_def)
  moreover have "distinct (map snd (a_users (a_del x a)))" using wf by (simp add: awf_def a_del_def)
  moreover have "\<forall>y \<in> set (a_queue (a_del x a)). r_owner y \<in> set (user_ids a)" using wf by (simp add: awf_def a_del_def)
  ultimately show ?thesis using wf by (auto simp: awf_def)
qed

lemma filter_neq_split: "distinct (xs @ r # ys) \<Longrightarrow> filter (\<lambda>s. s \<noteq> r) (xs @ r # ys) = xs @ ys"
proof -
  assume "distinct (xs @ r # ys)"
  then have "\<forall>s \<in> set xs. s \<noteq> r" "\<forall>s \<in> set ys. s \<noteq> r" by auto
  then show ?thesis by simp
qed

lemma models_unlink_lists:
  assumes wf: "awf a" and x: "x \<in> set (a_queue a)" and l: "lists_model h (user_ids a) (queue_ids a) (a_notif a)"
  obtains h1 h2 k1 k2 where
    "list_del h (Ptr (RemUserNode (r_id x))) = Some h1" "list_del h1 (Ptr (RemNode (r_id x))) = Some h2"
    "lists_model h2 (user_ids a) (queue_ids (a_del x a)) (a_notif (a_del x a))" "dom h2 = dom h"
    "list_del h (Ptr (RemNode (r_id x))) = Some k1" "list_del k1 (Ptr (RemUserNode (r_id x))) = Some k2"
    "lists_model k2 (user_ids a) (queue_ids (a_del x a)) (a_notif (a_del x a))" "dom k2 = dom h"
    "dlist k1 (NotifHead (r_owner x)) (map RemUserNode (a_notif a (r_owner x)))"
proof -
  let ?r = "r_id x" and ?u = "r_owner x"
  note u = awf_owner [OF wf x]
  obtain q1 q2 where q: "queue_ids a = q1 @ ?r # q2" using x by (metis queue_ids_def image_eqI list.set_map split_list)
  obtain n1 n2 where n: "a_notif a ?u = n1 @ ?r # n2" using u(2) by (meson split_list)
  have d: "distinct (queue_ids a)" "distinct (a_notif a ?u)" using wf u by (auto simp: awf_def)
  have f: "queue_ids (a_del x a) = q1 @ q2" "a_notif (a_del x a) = (a_notif a)(?u := n1 @ n2)"
    using filter_neq_split [of q1 ?r q2] d(1) apply (simp add: q del: filter_append)
    using filter_neq_split [of n1 ?r n2] d(2) by (simp add: a_del_def n del: filter_append)
  have dj: "\<forall>v \<in> set (user_ids a). v \<noteq> ?u \<longrightarrow> set (a_notif a v) \<inter> set (a_notif a ?u) = {}"
    using awf_notif_disjoint [OF wf u(1)] by blast
  obtain h1 where h1: "list_del h (Ptr (RemUserNode ?r)) = Some h1"
    "lists_model h1 (user_ids a) (q1 @ ?r # q2) ((a_notif a)(?u := n1 @ n2))" "dom h1 = dom h"
    using lists_unlink_notif [OF l u(1) n dj] q by auto
  obtain h2 where h2: "list_del h1 (Ptr (RemNode ?r)) = Some h2"
    "lists_model h2 (user_ids a) (q1 @ q2) ((a_notif a)(?u := n1 @ n2))" "dom h2 = dom h1"
    using lists_unlink_queue [OF h1(2)] by blast
  obtain k1 where k1: "list_del h (Ptr (RemNode ?r)) = Some k1"
    "lists_model k1 (user_ids a) (q1 @ q2) (a_notif a)" "dom k1 = dom h"
    using lists_unlink_queue [OF l [unfolded q]] by blast
  obtain k2 where k2: "list_del k1 (Ptr (RemUserNode ?r)) = Some k2"
    "lists_model k2 (user_ids a) (q1 @ q2) ((a_notif a)(?u := n1 @ n2))" "dom k2 = dom k1"
    using lists_unlink_notif [OF k1(2) u(1) n dj] by auto
  have "dlist k1 (NotifHead ?u) (map RemUserNode (a_notif a ?u))"
    using k1(2) u(1) by (simp add: lists_model_def)
  with h1 h2 k1 k2 show thesis by (intro that [of h1 h2 k1 k2]) (simp_all add: f del: a_del_ids)
qed

lemma models_free_reminder:
  assumes m: "models s a" and x: "x \<in> set (a_queue a)"
    and l: "lists_model h (user_ids a) (queue_ids (a_del x a)) (a_notif (a_del x a))" "dom h = dom (nodes s)"
  shows "models (s\<lparr>strings := (strings s)(Suc (r_id x) := None), reminders := (reminders s)(r_id x := None),
    nodes := h(RemNode (r_id x) := None, RemUserNode (r_id x) := None)\<rparr>) (a_del x a)"
proof -
  have wf: "awf a" using m by (simp add: models_def)
  note wf' = awf_del [OF wf x]
  have "r_id x \<in> set (queue_ids a)" using x by (simp add: queue_ids_def)
  then have s: "insert (r_id x) (set (queue_ids (a_del x a))) = set (queue_ids a)" by auto
  have "heap_models (h(RemNode (r_id x) := None, RemUserNode (r_id x) := None)) (user_ids a) (queue_ids (a_del x a)) (a_notif (a_del x a))"
  proof (rule heap_free_reminder)
    show "dom h = node_dom (set (user_ids a)) (insert (r_id x) (set (queue_ids (a_del x a))))"
      unfolding s l(2) using m by (simp add: models_lists)
    show "\<forall>u \<in> set (user_ids a). set (a_notif (a_del x a) u) \<subseteq> set (queue_ids (a_del x a))"
      using awf_notif [OF wf'] by simp
  qed (use l in auto)
  with m wf' a_del_objects [OF awf_distinct_ids [OF wf] x] show ?thesis by (auto simp: models_def)
qed

lemma find_entry_loop:
  assumes d: "dlist h H (map f xs)" and rd: "\<And>t p. rd t p = rd_next h p"
    and of_node: "\<And>r. of_node (Ptr (f r)) = Some r"
  shows "list_for_each_safe rd (\<lambda>pos _. do {
      r \<leftarrow> of_node pos; if r = x then Some (Break ()) else Some (Next ()) }) (Ptr H) () =
    Some (if x \<in> set xs then (True, Ptr (f x), ()) else (False, Ptr H, ()))"
proof -
  let ?body = "\<lambda>pos _. do { r \<leftarrow> of_node pos; if r = x then Some (Break ()) else Some (Next ()) }"
  let ?I = "\<lambda>t (_::unit). \<exists>pre post. xs = pre @ post \<and> t = map f post \<and> x \<notin> set pre"
  let ?Q = "\<lambda>y (t::'a list) (_::unit). y = f x \<and> x \<in> set xs"
  have "(\<exists>s'. list_for_each_safe rd ?body (Ptr H) () = Some (False, Ptr H, s') \<and> ?I [] s') \<or>
    (\<exists>y t s'. list_for_each_safe rd ?body (Ptr H) () = Some (True, Ptr y, s') \<and> ?Q y t s')"
  proof (rule list_for_each_safe_rule [where I = ?I and Q = ?Q and xs = "map f xs"])
    fix y t s assume "?I (y # t) s"
    then obtain pre r post where p: "xs = pre @ r # post" "y = f r" "t = map f post" "x \<notin> set pre"
      by (auto simp: Cons_eq_map_conv map_eq_Cons_conv)
    have "?I t ()" if "r \<noteq> x" using p that by (intro exI [of _ "pre @ [r]"] exI [of _ post]) auto
    then show "(\<exists>s'. ?body (Ptr y) s = Some (Next s') \<and> ?I t s') \<or> (\<exists>s'. ?body (Ptr y) s = Some (Break s') \<and> ?Q y t s')"
      using p of_node by (cases "r = x") auto
    have "distinct (map f xs @ [H])" using d by (cases "map f xs") (auto simp: dlist_def)
    then show "y \<noteq> H \<and> rd s (Ptr y) = Some (first_ptr H t)"
      using p d by (auto simp: rd heap_simps intro: dlist_next [of _ _ "map f pre"])
  next
    show "?I (map f xs) ()" by (auto intro: exI [of _ "[]"])
    show "rd () (Ptr H) = Some (first_ptr H (map f xs))" using dlist_first [OF d] by (simp add: rd heap_simps)
    show "\<And>s. \<exists>p. rd s (Ptr H) = Some p" using dlist_first [OF d] by (simp add: rd heap_simps)
  qed
  then show ?thesis by auto
qed


section \<open>The timer\<close>

lemma handle_reminder_expired_sim:
  assumes m: "models s a" and x: "x \<in> set (a_queue a)" and z: "r_time x = 0"
  shows "\<exists>s'. handle_reminder_expired (r_id x) s = Some s' \<and> models s' (a_del x a) \<and>
    trace s' = trace s @ Printed (''Notification Alert! '' @ r_title x @ '' \<newline>'') #
      (if callback_notification_is_about_to_be_removed s then [AboutToBeRemoved (r_id x)] else []) \<and>
    callback_notification_is_about_to_be_removed s' = callback_notification_is_about_to_be_removed s"
proof -
  let ?r = "r_id x" and ?u = "r_owner x"
  have wf: "awf a" using m by (simp add: models_def)
  have l: "lists_model (nodes s) (user_ids a) (queue_ids a) (a_notif a)"
    using m by (simp add: models_def heap_models_lists)
  obtain k1 k2 where k: "list_del (nodes s) (Ptr (RemNode ?r)) = Some k1" "list_del k1 (Ptr (RemUserNode ?r)) = Some k2"
    "lists_model k2 (user_ids a) (queue_ids (a_del x a)) (a_notif (a_del x a))" "dom k2 = dom (nodes s)"
    "dlist k1 (NotifHead ?u) (map RemUserNode (a_notif a ?u))"
    using models_unlink_lists [OF wf x l] by metis
  note o = models_reminder [OF m x]
  let ?s = "printf (''Notification Alert! '' @ r_title x @ '' \<newline>'') s\<lparr>nodes := k1\<rparr>"
  have loop: "list_for_each_safe (\<lambda>_. next_in ?s) (\<lambda>pos _. do {
       r \<leftarrow> reminder_of_user_notify_list pos; if r = ?r then Some (Break ()) else Some (Next ()) }) (Ptr (NotifHead ?u)) () =
      Some (True, Ptr (RemUserNode ?r), ())"
    using find_entry_loop [of k1 "NotifHead ?u" RemUserNode "a_notif a ?u" "\<lambda>_. next_in ?s" reminder_of_user_notify_list ?r]
      k(5) awf_owner(2) [OF wf x] by simp
  have m': "models (s\<lparr>strings := (strings s)(Suc ?r := None), reminders := (reminders s)(?r := None),
    nodes := k2(RemNode ?r := None, RemUserNode ?r := None)\<rparr>) (a_del x a)"
    by (rule models_free_reminder [OF m x k(3,4)])
  let ?cb = "callback_notification_is_about_to_be_removed s"
  let ?t = "trace s @ Printed (''Notification Alert! '' @ r_title x @ '' \<newline>'') # (if ?cb then [AboutToBeRemoved ?r] else [])"
  have "handle_reminder_expired ?r s = Some (s\<lparr>trace := ?t, strings := (strings s)(Suc ?r := None),
      reminders := (reminders s)(?r := None), nodes := k2(RemNode ?r := None, RemUserNode ?r := None)\<rparr>)"
    using o z k(1,2) loop
    by (simp add: handle_reminder_expired_def reminder_object_def printf_def on_nodes_def reminder_dtor_def
        free_string_def free_reminder_def)
  with m' show ?thesis by (simp add: models_def)
qed

definition a_set_time :: "nat \<Rightarrow> int \<Rightarrow> aspec \<Rightarrow> aspec" where
  "a_set_time r t a = a\<lparr>a_queue := map (\<lambda>y. if r_id y = r then y\<lparr>r_time := t\<rparr> else y) (a_queue a)\<rparr>"

lemma a_set_time_ids [simp]:
  "user_ids (a_set_time r t a) = user_ids a" "queue_ids (a_set_time r t a) = queue_ids a"
  "a_notif (a_set_time r t a) = a_notif a" "a_users (a_set_time r t a) = a_users a"
  by (simp_all add: a_set_time_def user_ids_def queue_ids_def comp_def)

lemma reminder_map_time:
  "reminder_map (map (\<lambda>y. if r_id y = r then y\<lparr>r_time := t\<rparr> else y) q) i =
    map_option (\<lambda>y. if i = r then y\<lparr>r_time := t\<rparr> else y) (reminder_map q i)"
  by (induction q) (auto simp: reminder_map_def)

lemma awf_set_time:
  assumes wf: "awf a"
  shows "awf (a_set_time r t a)"
proof -
  define g :: "areminder \<Rightarrow> areminder" where "g = (\<lambda>y. if r_id y = r then y\<lparr>r_time := t\<rparr> else y)"
  have g: "r_id (g y) = r_id y" "r_owner (g y) = r_owner y" for y by (simp_all add: g_def)
  have q: "set (a_queue (a_set_time r t a)) = g ` set (a_queue a)" by (simp add: a_set_time_def g_def)
  have "{x \<in> g ` set (a_queue a). r_owner x = u} = g ` {x \<in> set (a_queue a). r_owner x = u}" for u
    by (auto simp: g)
  then have "r_id ` {x \<in> g ` set (a_queue a). r_owner x = u} = r_id ` {x \<in> set (a_queue a). r_owner x = u}" for u
    by (simp add: image_image g)
  with wf show ?thesis unfolding awf_def q a_set_time_ids by (simp add: g)
qed

lemma models_set_time:
  assumes m: "models s a" and x: "x \<in> set (a_queue a)"
  shows "models (s\<lparr>reminders := (reminders s)(r_id x \<mapsto> (reminder_object x)\<lparr>ellapse_time := t\<rparr>)\<rparr>) (a_set_time (r_id x) t a)"
proof -
  have r: "reminder_map (a_queue a) (r_id x) = Some x"
    using m x by (auto simp: models_def awf_def queue_ids_def intro: reminder_map_Some)
  have "reminder_objects (a_set_time (r_id x) t a) = (reminder_objects a)(r_id x \<mapsto> (reminder_object x)\<lparr>ellapse_time := t\<rparr>)"
    using r by (auto simp: reminder_objects_def a_set_time_def reminder_map_time fun_eq_iff reminder_object_def option.map_ident)
  moreover have "string_objects (a_set_time (r_id x) t a) = string_objects a"
    by (auto simp: string_objects_def a_set_time_def reminder_map_time fun_eq_iff option.map_comp comp_def
        intro!: option.map_cong split: nat.split option.split)
  moreover have "user_objects (a_set_time (r_id x) t a) = user_objects a" by (simp add: user_objects_def)
  ultimately show ?thesis using m awf_set_time by (auto simp: models_def)
qed


section \<open>Ticks\<close>

text \<open>
  A tick takes one second from every reminder; those at zero are announced and removed from
  the queue and from their owners' lists, the others stay in order.
\<close>

definition tick_expired :: "areminder list \<Rightarrow> areminder list" where
  "tick_expired q = filter (\<lambda>x. r_time x = 1) q"

definition tick_queue :: "areminder list \<Rightarrow> areminder list" where
  "tick_queue q = map (\<lambda>x. x\<lparr>r_time := r_time x - 1\<rparr>) (filter (\<lambda>x. r_time x \<noteq> 1) q)"

definition a_tick_upto :: "areminder list \<Rightarrow> areminder list \<Rightarrow> aspec \<Rightarrow> aspec" where
  "a_tick_upto pre post a = a\<lparr>a_queue := tick_queue pre @ post,
     a_notif := (\<lambda>u. filter (\<lambda>r. r \<notin> r_id ` set (tick_expired pre)) (a_notif a u))\<rparr>"

definition a_tick :: "aspec \<Rightarrow> aspec" where
  "a_tick a = a_tick_upto (a_queue a) [] a"

definition alert :: "bool \<Rightarrow> areminder \<Rightarrow> event list" where
  "alert cb x = Printed (''Notification Alert! '' @ r_title x @ '' \<newline>'') # (if cb then [AboutToBeRemoved (r_id x)] else [])"

definition alerts :: "bool \<Rightarrow> areminder list \<Rightarrow> event list" where
  "alerts cb q = concat (map (alert cb) (tick_expired q))"

lemma tick_step:
  assumes wf: "awf (a_tick_upto pre (x # post) a)" and d: "distinct (map r_id (pre @ x # post))"
  shows "a_tick_upto (pre @ [x]) post a =
    (let b = a_set_time (r_id x) (r_time x - 1) (a_tick_upto pre (x # post) a)
     in if r_time x = 1 then a_del (x\<lparr>r_time := 0\<rparr>) b else b)"
proof -
  let ?b = "a_tick_upto pre (x # post) a"
  have pre: "r_id y \<noteq> r_id x" if "y \<in> set (tick_queue pre)" for y
  proof -
    have "r_id y \<in> r_id ` set pre" using that by (auto simp: tick_queue_def)
    with d show ?thesis by auto
  qed
  have post: "r_id y \<noteq> r_id x" if "y \<in> set post" for y
    using d that by (auto simp: image_iff)
  have set: "a_queue (a_set_time (r_id x) t ?b) = tick_queue pre @ x\<lparr>r_time := t\<rparr> # post" for t
    using pre post by (auto simp: a_set_time_def a_tick_upto_def intro: map_idI)
  show ?thesis
  proof (cases "r_time x = 1")
    case True
    have q: "filter (\<lambda>y. r_id y \<noteq> r_id x) (tick_queue pre @ x\<lparr>r_time := 0\<rparr> # post) = tick_queue pre @ post"
      using pre post by simp
    have n: "filter (\<lambda>r. r \<notin> r_id ` set (tick_expired (pre @ [x]))) (a_notif a u) =
        filter (\<lambda>r. r \<noteq> r_id x) (a_notif ?b u)" for u
      using True by (auto simp: tick_expired_def a_tick_upto_def intro: filter_cong)
    have o: "filter (\<lambda>r. r \<noteq> r_id x) (a_notif ?b u) = a_notif ?b u" if "u \<noteq> r_owner x" for u
    proof (cases "u \<in> set (user_ids ?b)")
      case u: True
      have "x \<in> set (a_queue ?b)" by (simp add: a_tick_upto_def)
      with awf_inj [OF wf] u that wf have "r_id x \<notin> set (a_notif ?b u)" by (auto simp: awf_def)
      then show ?thesis by (auto intro: filter_True)
    next
      case False
      then show ?thesis using wf by (simp add: awf_def)
    qed
    have "a_notif (a_tick_upto (pre @ [x]) post a) u =
        a_notif (a_del (x\<lparr>r_time := 0\<rparr>) (a_set_time (r_id x) 0 ?b)) u" for u
      using n [of u] o [of u] by (auto simp: a_del_def) (auto simp: a_tick_upto_def)
    then have "a_notif (a_tick_upto (pre @ [x]) post a) = a_notif (a_del (x\<lparr>r_time := 0\<rparr>) (a_set_time (r_id x) 0 ?b))" ..
    moreover have "a_queue (a_tick_upto (pre @ [x]) post a) = a_queue (a_del (x\<lparr>r_time := 0\<rparr>) (a_set_time (r_id x) 0 ?b))"
      using True q by (simp add: a_del_def set) (simp add: a_tick_upto_def tick_queue_def)
    ultimately show ?thesis using True
      by (intro aspec.equality) (auto simp: a_tick_upto_def a_del_def a_set_time_def)
  next
    case False
    have "tick_expired (pre @ [x]) = tick_expired pre" using False by (simp add: tick_expired_def)
    with False show ?thesis
      by (intro aspec.equality) (auto simp: set Let_def, auto simp: a_tick_upto_def tick_queue_def)
  qed
qed

lemma models_awf: "models s a \<Longrightarrow> awf a"
  by (simp add: models_def)

lemma queue_ids_upto: "queue_ids (a_tick_upto pre post a) = map r_id (tick_queue pre) @ map r_id post"
  by (simp add: queue_ids_def a_tick_upto_def)

lemma tick_body:
  assumes m: "models s (a_tick_upto pre (x # post) a)" and d: "distinct (map r_id (pre @ x # post))"
    and i: "in_int (r_time x - 1)"
  shows "\<exists>s'. do {
      R \<leftarrow> reminders s (r_id x);
      t \<leftarrow> c_sub (ellapse_time R) 1;
      s \<leftarrow> set_reminder (\<lambda>R. R\<lparr>ellapse_time := t\<rparr>) (r_id x) s;
      if t = 0 then handle_reminder_expired (r_id x) s else Some s } = Some s' \<and>
    models s' (a_tick_upto (pre @ [x]) post a) \<and>
    trace s' = trace s @ alerts (callback_notification_is_about_to_be_removed s) [x] \<and>
    callback_notification_is_about_to_be_removed s' = callback_notification_is_about_to_be_removed s"
proof -
  let ?a = "a_tick_upto pre (x # post) a"
  let ?t = "r_time x - 1"
  let ?s = "s\<lparr>reminders := (reminders s)(r_id x \<mapsto> (reminder_object x)\<lparr>ellapse_time := ?t\<rparr>)\<rparr>"
  let ?b = "a_set_time (r_id x) ?t ?a"
  have x: "x \<in> set (a_queue ?a)" by (simp add: a_tick_upto_def)
  have s: "models ?s ?b" by (rule models_set_time [OF m x])
  note st = tick_step [OF models_awf [OF m] d]
  note lk = models_reminder(1) [OF m x]
  have c: "c_sub (r_time x) 1 = Some ?t" using i by (simp add: c_simps)
  show ?thesis
  proof (cases "r_time x = 1")
    case True
    have xb: "x\<lparr>r_time := 0\<rparr> \<in> set (a_queue ?b)" using x True by (force simp: a_set_time_def)
    from handle_reminder_expired_sim [OF s xb] obtain s' where "handle_reminder_expired (r_id x) ?s = Some s'"
      "models s' (a_del (x\<lparr>r_time := 0\<rparr>) ?b)" "trace s' = trace s @ alert (callback_notification_is_about_to_be_removed s) x"
      "callback_notification_is_about_to_be_removed s' = callback_notification_is_about_to_be_removed s"
      by (auto simp: alert_def)
    with True st lk c show ?thesis
      by (auto simp: set_reminder_def reminder_object_def alerts_def tick_expired_def)
  next
    case False
    with s st lk c show ?thesis
      by (auto simp: set_reminder_def reminder_object_def alerts_def tick_expired_def)
  qed
qed

lemma handle_timer_tick_sim:
  assumes m: "models s a" and i: "\<forall>x \<in> set (a_queue a). in_int (r_time x - 1)"
  shows "\<exists>s'. handle_timer_tick s = Some s' \<and> models s' (a_tick a) \<and>
    trace s' = trace s @ alerts (callback_notification_is_about_to_be_removed s) (a_queue a)"
proof -
  let ?cb = "callback_notification_is_about_to_be_removed"
  let ?body = "\<lambda>pos s. do {
          reminder_it \<leftarrow> reminder_of_list pos;
          R \<leftarrow> reminders s reminder_it;
          t \<leftarrow> c_sub (ellapse_time R) 1;
          s \<leftarrow> set_reminder (\<lambda>R. R\<lparr>ellapse_time := t\<rparr>) reminder_it s;
          s \<leftarrow> (if t = 0 then handle_reminder_expired reminder_it s else Some s);
          Some (Next s) }"
  let ?I = "\<lambda>(t::node list) (s1::rstate). \<exists>pre post. a_queue a = pre @ post \<and> t = map RemNode (map r_id post) \<and>
      models s1 (a_tick_upto pre post a) \<and> trace s1 = trace s @ alerts (?cb s) pre \<and> ?cb s1 = ?cb s"
  have d: "distinct (map r_id (a_queue a))" using m by (simp add: models_def awf_def queue_ids_def)
  have "\<exists>s1. list_for_each_safe next_in ?body (Ptr RemindersList) s = Some (False, Ptr RemindersList, s1) \<and> ?I [] s1"
  proof (rule list_for_each_safe_all [where I = ?I and xs = "map RemNode (queue_ids a)"])
    fix y t s1 assume "?I (y # t) s1"
    then obtain pre x post where p: "a_queue a = pre @ x # post" "y = RemNode (r_id x)" "t = map RemNode (map r_id post)"
      "models s1 (a_tick_upto pre (x # post) a)" "trace s1 = trace s @ alerts (?cb s) pre" "?cb s1 = ?cb s"
      by (auto simp: Cons_eq_map_conv map_eq_Cons_conv)
    have "in_int (r_time x - 1)" using i p(1) by simp
    from tick_body [OF p(4) d [unfolded p(1)] this] p(6) obtain s2 where s2: "do {
      R \<leftarrow> reminders s1 (r_id x);
      t \<leftarrow> c_sub (ellapse_time R) 1;
      s \<leftarrow> set_reminder (\<lambda>R. R\<lparr>ellapse_time := t\<rparr>) (r_id x) s1;
      if t = 0 then handle_reminder_expired (r_id x) s else Some s } = Some s2"
      "models s2 (a_tick_upto (pre @ [x]) post a)" "trace s2 = trace s1 @ alerts (?cb s) [x]" "?cb s2 = ?cb s" by auto
    have "?I t s2" using p(1,3,5) s2
      by (intro exI [of _ "pre @ [x]"] exI [of _ post]) (simp add: alerts_def tick_expired_def)
    moreover have "?body (Ptr y) s1 = Some (Next s2)"
      using s2(1) unfolding p(2) by (auto simp: bind_eq_Some_conv split: if_splits)
    ultimately show "\<exists>s'. ?body (Ptr y) s1 = Some (Next s') \<and> ?I t s'" by blast
  next
    fix y t s1 assume "?I (y # t) s1"
    then obtain pre x post where p: "y = RemNode (r_id x)" "t = map RemNode (map r_id post)"
      "models s1 (a_tick_upto pre (x # post) a)"
      by (auto simp: Cons_eq_map_conv map_eq_Cons_conv)
    then show "y \<noteq> RemindersList \<and> next_in s1 (Ptr y) = Some (first_ptr RemindersList t)"
      using models_lists(2) [OF p(3)]
      by (auto simp: heap_simps queue_ids_upto intro: dlist_next [of _ _ "map RemNode (map r_id (tick_queue pre))"])
  next
    fix s1 assume "?I [] s1"
    then obtain pre post where "models s1 (a_tick_upto pre post a)" by blast
    from dlist_first [OF models_lists(2) [OF this]] show "\<exists>p. next_in s1 (Ptr RemindersList) = Some p"
      by (simp add: heap_simps)
  next
    have "a_tick_upto [] (a_queue a) a = a"
      by (simp add: a_tick_upto_def tick_queue_def tick_expired_def)
    then show "?I (map RemNode (queue_ids a)) s"
      using m by (intro exI [of _ "[]"] exI [of _ "a_queue a"]) (simp add: alerts_def tick_expired_def queue_ids_def)
    show "next_in s (Ptr RemindersList) = Some (first_ptr RemindersList (map RemNode (queue_ids a)))"
      using dlist_first [OF models_lists(2) [OF m]] by (simp add: heap_simps)
  qed
  then show ?thesis by (auto simp: handle_timer_tick_def a_tick_def)
qed
section \<open>Removing a notification by its number\<close>

definition a_find_reminder :: "nat \<Rightarrow> aspec \<Rightarrow> areminder option" where
  "a_find_reminder r a = reminder_map (a_queue a) r"

definition a_remove_notification :: "string \<Rightarrow> int \<Rightarrow> aspec \<Rightarrow> aspec" where
  "a_remove_notification n k a = (case a_find n a of
     None \<Rightarrow> a
   | Some u \<Rightarrow>
       if 1 \<le> k \<and> nat k \<le> length (a_notif a u) then
         (case a_find_reminder (a_notif a u ! nat (k - 1)) a of Some x \<Rightarrow> a_del x a | None \<Rightarrow> a)
       else a)"

lemma index_loop:
  assumes d: "dlist h H (map f xs)" and rd: "\<And>t p. rd t p = rd_next h p"
    and of_node: "\<And>r. of_node (Ptr (f r)) = Some r" and len: "length xs \<le> 2147483647"
  shows "list_for_each_safe rd (\<lambda>pos (c, _). do {
      r \<leftarrow> of_node pos;
      if c = k then Some (Break (c, Some r)) else do { c \<leftarrow> c_add c 1; Some (Next (c, Some r)) } }) (Ptr H) (0, None) =
    Some (if 0 \<le> k \<and> nat k < length xs then (True, Ptr (f (xs ! nat k)), (k, Some (xs ! nat k)))
      else (False, Ptr H, (int (length xs), if xs = [] then None else Some (last xs))))"
proof -
  let ?body = "\<lambda>pos (c, _). do { r \<leftarrow> of_node pos;
      if c = k then Some (Break (c, Some r)) else do { c \<leftarrow> c_add c 1; Some (Next (c, Some r)) } }"
  let ?I = "\<lambda>(t::'a list) (c::int, l::'b option). \<exists>pre post. xs = pre @ post \<and> t = map f post \<and> c = int (length pre) \<and>
      l = (if pre = [] then None else Some (last pre)) \<and> \<not> (0 \<le> k \<and> nat k < length pre)"
  let ?Q = "\<lambda>(y::'a) (t::'a list) (c::int, l::'b option). 0 \<le> k \<and> nat k < length xs \<and> y = f (xs ! nat k) \<and> c = k \<and> l = Some (xs ! nat k)"
  have "(\<exists>s'. list_for_each_safe rd ?body (Ptr H) (0, None) = Some (False, Ptr H, s') \<and> ?I [] s') \<or>
    (\<exists>y t s'. list_for_each_safe rd ?body (Ptr H) (0, None) = Some (True, Ptr y, s') \<and> ?Q y t s')"
  proof (rule list_for_each_safe_rule [where I = ?I and Q = ?Q and xs = "map f xs"])
    fix y t s assume "?I (y # t) s"
    then obtain pre r post where p: "xs = pre @ r # post" "y = f r" "t = map f post"
      "s = (int (length pre), if pre = [] then None else Some (last pre))" "\<not> (0 \<le> k \<and> nat k < length pre)"
      by (auto simp: Cons_eq_map_conv map_eq_Cons_conv)
    have c: "c_add (int (length pre)) 1 = Some (int (length (pre @ [r])))"
      using len by (simp add: c_simps in_int_def p(1))
    have "?I t (int (length (pre @ [r])), Some r)" if "int (length pre) \<noteq> k"
      unfolding prod.case using p that by (intro exI [of _ "pre @ [r]"] exI [of _ post]) auto
    moreover have "?Q y t (k, Some r)" if "int (length pre) = k"
      using p(1,2) that by auto
    ultimately show "(\<exists>s'. ?body (Ptr y) s = Some (Next s') \<and> ?I t s') \<or> (\<exists>s'. ?body (Ptr y) s = Some (Break s') \<and> ?Q y t s')"
      using p(2,4) c of_node by (cases "int (length pre) = k") (simp_all only: prod.case, auto)
    have "distinct (map f xs @ [H])" using d by (cases "map f xs") (auto simp: dlist_def)
    then show "y \<noteq> H \<and> rd s (Ptr y) = Some (first_ptr H t)"
      using p d by (auto simp: rd heap_simps intro: dlist_next [of _ _ "map f pre"])
  next
    show "?I (map f xs) (0, None)" by (auto intro: exI [of _ "[]"])
    show "rd (0, None) (Ptr H) = Some (first_ptr H (map f xs))" using dlist_first [OF d] by (simp add: rd heap_simps)
    show "\<And>s. \<exists>p. rd s (Ptr H) = Some p" using dlist_first [OF d] by (simp add: rd heap_simps)
  qed
  then show ?thesis by auto
qed

lemma last_seen_loop:
  assumes d: "dlist h H (map f xs)" and rd: "\<And>t p. rd t p = rd_next h p"
    and of_node: "\<And>r. of_node (Ptr (f r)) = Some r"
  shows "\<exists>l. list_for_each_safe rd (\<lambda>pos _. do {
      r \<leftarrow> of_node pos; if Some r = X then Some (Break (Some r)) else Some (Next (Some r)) }) (Ptr H) None =
    Some (if X \<in> Some ` set xs then (True, Ptr (f (the X)), X) else (False, Ptr H, l))"
proof -
  let ?body = "\<lambda>pos _. do { r \<leftarrow> of_node pos; if Some r = X then Some (Break (Some r)) else Some (Next (Some r)) }"
  let ?I = "\<lambda>t (_::'b option). \<exists>pre post. xs = pre @ post \<and> t = map f post \<and> X \<notin> Some ` set pre"
  let ?Q = "\<lambda>y (t::'a list) l. X \<in> Some ` set xs \<and> y = f (the X) \<and> l = X"
  have "(\<exists>s'. list_for_each_safe rd ?body (Ptr H) None = Some (False, Ptr H, s') \<and> ?I [] s') \<or>
    (\<exists>y t s'. list_for_each_safe rd ?body (Ptr H) None = Some (True, Ptr y, s') \<and> ?Q y t s')"
  proof (rule list_for_each_safe_rule [where I = ?I and Q = ?Q and xs = "map f xs"])
    fix y t and s :: "'b option" assume "?I (y # t) s"
    then obtain pre r post where p: "xs = pre @ r # post" "y = f r" "t = map f post" "X \<notin> Some ` set pre"
      by (auto simp: Cons_eq_map_conv map_eq_Cons_conv)
    have "?I t (Some r)" if "X \<noteq> Some r" using p that by (intro exI [of _ "pre @ [r]"] exI [of _ post]) auto
    then show "(\<exists>s'. ?body (Ptr y) s = Some (Next s') \<and> ?I t s') \<or> (\<exists>s'. ?body (Ptr y) s = Some (Break s') \<and> ?Q y t s')"
      using p of_node by (cases "X = Some r") auto
    have "distinct (map f xs @ [H])" using d by (cases "map f xs") (auto simp: dlist_def)
    then show "y \<noteq> H \<and> rd s (Ptr y) = Some (first_ptr H t)"
      using p d by (auto simp: rd heap_simps intro: dlist_next [of _ _ "map f pre"])
  next
    show "?I (map f xs) None" by (auto intro: exI [of _ "[]"])
    show "rd None (Ptr H) = Some (first_ptr H (map f xs))" using dlist_first [OF d] by (simp add: rd heap_simps)
    show "\<And>s. \<exists>p. rd s (Ptr H) = Some p" using dlist_first [OF d] by (simp add: rd heap_simps)
  qed
  then show ?thesis by auto
qed

lemma remove_user_notification_sim:
  assumes m: "models s a" and k: "in_int k" "k \<noteq> - 2147483648"
    and len: "\<forall>u \<in> set (user_ids a). length (a_notif a u) \<le> 2147483647"
  shows "\<exists>s'. remove_user_notification n k s = Some s' \<and> models s' (a_remove_notification n k a) \<and> trace s' = trace s"
proof (cases "a_find n a")
  case None
  then show ?thesis using m
    by (simp add: remove_user_notification_def find_user_entry_models [OF m] a_remove_notification_def)
next
  case (Some u)
  have wf: "awf a" using m by (rule models_awf)
  have u: "u \<in> set (user_ids a)" using a_find_SomeD [OF Some] by (force simp: user_ids_def)
  have c: "c_sub k 1 = Some (k - 1)" using k by (simp add: c_simps in_int_def)
  note l1 = index_loop [OF models_lists(3) [OF m u], where rd = "\<lambda>_. next_in s" and of_node = reminder_of_user_notify_list and k = "k - 1"]
  note l2 = last_seen_loop [OF models_lists(2) [OF m], where rd = "\<lambda>_. next_in s" and of_node = reminder_of_list]
  let ?xs = "a_notif a u"
  have sub: "r \<in> set ?xs \<Longrightarrow> r \<in> set (queue_ids a)" for r using awf_notif [OF wf u] by auto
  show ?thesis
  proof (cases "1 \<le> k \<and> nat k \<le> length ?xs")
    case True
    let ?r = "?xs ! nat (k - 1)"
    have i: "0 \<le> k - 1 \<and> nat (k - 1) < length ?xs" using True by auto
    then have r: "?r \<in> set ?xs" by simp
    obtain x where x: "x \<in> set (a_queue a)" "r_id x = ?r" "r_owner x = u"
      using r wf u by (auto simp: awf_def)
    have fx: "a_find_reminder ?r a = Some x"
      using x wf by (auto simp: a_find_reminder_def awf_def queue_ids_def simp flip: x(2) intro: reminder_map_Some)
    have l: "lists_model (nodes s) (user_ids a) (queue_ids a) (a_notif a)"
      using m by (simp add: models_def heap_models_lists)
    obtain h1 h2 where h: "list_del (nodes s) (Ptr (RemUserNode (r_id x))) = Some h1" "list_del h1 (Ptr (RemNode (r_id x))) = Some h2"
      "lists_model h2 (user_ids a) (queue_ids (a_del x a)) (a_notif (a_del x a))" "dom h2 = dom (nodes s)"
      using models_unlink_lists [OF wf x(1) l] by metis
    let ?s' = "s\<lparr>strings := (strings s)(Suc (r_id x) := None), reminders := (reminders s)(r_id x := None),
      nodes := h2(RemNode (r_id x) := None, RemUserNode (r_id x) := None)\<rparr>"
    have "remove_user_notification n k s = Some ?s'"
      using l1 len u i l2 [of "Some ?r"] sub [OF r] Some c h(1,2) models_reminder [OF m x(1)]
      by (simp add: remove_user_notification_def find_user_entry_models [OF m] set_reminder_def on_nodes_def x(2)
          reminder_dtor_def reminder_object_def free_string_def free_reminder_def)
    moreover have "models ?s' (a_remove_notification n k a)"
      using models_free_reminder [OF m x(1) h(3,4)] Some True fx by (simp add: a_remove_notification_def)
    ultimately show ?thesis by simp
  next
    case False
    then have i: "\<not> (0 \<le> k - 1 \<and> nat (k - 1) < length ?xs)" by auto
    have "remove_user_notification n k s = Some s"
      using l1 l2 [of "if ?xs = [] then None else Some (last ?xs)"] len u i Some c
      by (auto simp: remove_user_notification_def find_user_entry_models [OF m])
    then show ?thesis using m Some False by (auto simp: a_remove_notification_def)
  qed
qed

section \<open>Tearing down\<close>

lemma cleanup_users_sim:
  assumes r: "represents s a" and d: "distinct_ids a"
  shows "\<exists>s'. cleanup_users s = Some s' \<and> represents s' (a\<lparr>a_users := []\<rparr>) \<and> trace s' = trace s"
proof -
  let ?body = "\<lambda>pos s. do {
          user_it \<leftarrow> user_of_list pos;
          s \<leftarrow> on_nodes (\<lambda>h. list_del h pos) s;
          s \<leftarrow> user_dtor user_it s;
          Some (Next s) }"
  let ?I = "\<lambda>(t::node list) (s1::rstate). \<exists>us. t = map UserNode (map fst us) \<and> represents s1 (a\<lparr>a_users := us\<rparr>) \<and>
      distinct_ids (a\<lparr>a_users := us\<rparr>) \<and> trace s1 = trace s"
  have links: "dlist (nodes s1) UsersList (map UserNode (map fst us))" if "represents s1 (a\<lparr>a_users := us\<rparr>)" for s1 us
    using that by (simp add: represents_def heap_models_def user_ids_def)
  have r0: "represents s (a\<lparr>a_users := a_users a\<rparr>)" using r by simp
  have "\<exists>s1. list_for_each_safe next_in ?body (Ptr UsersList) s = Some (False, Ptr UsersList, s1) \<and> ?I [] s1"
  proof (rule list_for_each_safe_all [where I = ?I and xs = "map UserNode (map fst (a_users a))"])
    fix x t s1 assume "?I (x # t) s1"
    then obtain u n us where p: "x = UserNode u" "t = map UserNode (map fst us)" "represents s1 (a\<lparr>a_users := (u, n) # us\<rparr>)"
      "distinct_ids (a\<lparr>a_users := (u, n) # us\<rparr>)" "trace s1 = trace s"
      by (auto simp: Cons_eq_map_conv map_eq_Cons_conv)
    from del_user_step [OF p(3,4), of "[]" u n us] obtain s2 h where
      h: "on_nodes (\<lambda>h. list_del h (Ptr (UserNode u))) s1 = Some s2"
        "user_dtor u s2 = Some (s1\<lparr>strings := (strings s1)(Suc u := None), users := (users s1)(u := None), nodes := h\<rparr>)"
        "represents (s1\<lparr>strings := (strings s1)(Suc u := None), users := (users s1)(u := None), nodes := h\<rparr>) (a\<lparr>a_users := us\<rparr>)"
      by auto
    have "distinct_ids (a\<lparr>a_users := us\<rparr>)" using p(4) by (simp add: distinct_ids_def user_ids_def queue_ids_def)
    with h(3) p(2,5) have "?I t (s1\<lparr>strings := (strings s1)(Suc u := None), users := (users s1)(u := None), nodes := h\<rparr>)"
      by auto
    with h(1,2) p(1) show "\<exists>s'. ?body (Ptr x) s1 = Some (Next s') \<and> ?I t s'" by auto
    from dlist_next [of _ _ "[]", simplified] links [OF p(3)] p(1,2)
    show "x \<noteq> UsersList \<and> next_in s1 (Ptr x) = Some (first_ptr UsersList t)" by (auto simp: heap_simps)
  next
    fix s1 assume "?I [] s1"
    then show "\<exists>p. next_in s1 (Ptr UsersList) = Some p" using dlist_first [OF links] by (auto simp: heap_simps)
  next
    show "?I (map UserNode (map fst (a_users a))) s" using r0 d by (intro exI [of _ "a_users a"]) simp
    show "next_in s (Ptr UsersList) = Some (first_ptr UsersList (map UserNode (map fst (a_users a))))"
      using dlist_first [OF links [OF r0]] by (simp add: heap_simps)
  qed
  then show ?thesis by (auto simp: cleanup_users_def)
qed

lemma del_reminder_step:
  assumes r: "represents s a" and d: "distinct_ids a" and a: "a_users a = []" "a_queue a = x # q"
  shows "\<exists>s1 h. on_nodes (\<lambda>h. list_del h (Ptr (RemNode (r_id x)))) s = Some s1 \<and>
    reminder_dtor (r_id x) s1 = Some (s\<lparr>strings := (strings s)(Suc (r_id x) := None), reminders := (reminders s)(r_id x := None), nodes := h\<rparr>) \<and>
    represents (s\<lparr>strings := (strings s)(Suc (r_id x) := None), reminders := (reminders s)(r_id x := None), nodes := h\<rparr>) (a\<lparr>a_queue := q\<rparr>)"
proof -
  let ?r = "r_id x"
  have us: "user_ids a = []" "queue_ids a = ?r # map r_id q" using a by (simp_all add: user_ids_def queue_ids_def)
  have l: "lists_model (nodes s) [] ([] @ ?r # map r_id q) (a_notif a)" "dom (nodes s) = node_dom {} (insert ?r (set (map r_id q)))"
    using r by (simp_all add: represents_def heap_models_lists us)
  obtain h where h: "list_del (nodes s) (Ptr (RemNode ?r)) = Some h" "lists_model h [] ([] @ map r_id q) (a_notif a)" "dom h = dom (nodes s)"
    using lists_unlink_queue [OF l(1)] by blast
  have rq: "?r \<notin> set (map r_id q)" using d by (simp add: distinct_ids_def us)
  have f: "heap_models (h(RemNode ?r := None, RemUserNode ?r := None)) [] (map r_id q) (a_notif a)"
    using h l(2) rq by (intro heap_free_reminder) auto
  have "map_of (a_users a) = Map.empty" using a by simp
  then have o: "reminders s ?r = Some (reminder_object x)" "strings s (Suc ?r) = Some (r_title x)"
    using r a by (auto simp: represents_def reminder_objects_def string_objects_def reminder_map_def)
  have m: "reminder_map q = (reminder_map (a_queue a))(?r := None)"
    using rq reminder_map_None [of q ?r] by (simp add: a reminder_map_def fun_upd_idem)
  have "user_objects (a\<lparr>a_queue := q\<rparr>) = user_objects a" by (simp add: user_objects_def)
  moreover have "reminder_objects (a\<lparr>a_queue := q\<rparr>) = (reminder_objects a)(?r := None)"
    by (simp add: reminder_objects_def m fun_eq_iff)
  moreover have "string_objects (a\<lparr>a_queue := q\<rparr>) = (string_objects a)(Suc ?r := None)"
    using a by (auto simp: string_objects_def m fun_eq_iff split: nat.split)
  ultimately show ?thesis
    using h(1) f o r us
    by (auto simp: on_nodes_def reminder_dtor_def reminder_object_def free_string_def free_reminder_def represents_def)
      (auto simp: user_ids_def queue_ids_def)
qed

lemma cleanup_reminders_sim:
  assumes r: "represents s a" and d: "distinct_ids a" and u: "a_users a = []"
  shows "\<exists>s'. cleanup_reminders s = Some s' \<and> represents s' (a\<lparr>a_queue := []\<rparr>) \<and> trace s' = trace s"
proof -
  let ?body = "\<lambda>pos s. do {
          reminder_it \<leftarrow> reminder_of_list pos;
          s \<leftarrow> on_nodes (\<lambda>h. list_del h pos) s;
          s \<leftarrow> reminder_dtor reminder_it s;
          Some (Next s) }"
  let ?I = "\<lambda>(t::node list) (s1::rstate). \<exists>q. t = map RemNode (map r_id q) \<and> represents s1 (a\<lparr>a_queue := q\<rparr>) \<and>
      distinct_ids (a\<lparr>a_queue := q\<rparr>) \<and> trace s1 = trace s"
  have links: "dlist (nodes s1) RemindersList (map RemNode (map r_id q))" if "represents s1 (a\<lparr>a_queue := q\<rparr>)" for s1 q
    using that by (simp add: represents_def heap_models_def queue_ids_def)
  have r0: "represents s (a\<lparr>a_queue := a_queue a\<rparr>)" using r by simp
  have "\<exists>s1. list_for_each_safe next_in ?body (Ptr RemindersList) s = Some (False, Ptr RemindersList, s1) \<and> ?I [] s1"
  proof (rule list_for_each_safe_all [where I = ?I and xs = "map RemNode (map r_id (a_queue a))"])
    fix y t s1 assume "?I (y # t) s1"
    then obtain x q where p: "y = RemNode (r_id x)" "t = map RemNode (map r_id q)" "represents s1 (a\<lparr>a_queue := x # q\<rparr>)"
      "distinct_ids (a\<lparr>a_queue := x # q\<rparr>)" "trace s1 = trace s"
      by (auto simp: Cons_eq_map_conv map_eq_Cons_conv)
    let ?s = "\<lambda>h. s1\<lparr>strings := (strings s1)(Suc (r_id x) := None), reminders := (reminders s1)(r_id x := None), nodes := h\<rparr>"
    from del_reminder_step [OF p(3,4), of x q] u obtain s2 h where
      h: "on_nodes (\<lambda>h. list_del h (Ptr (RemNode (r_id x)))) s1 = Some s2"
        "reminder_dtor (r_id x) s2 = Some (?s h)" "represents (?s h) (a\<lparr>a_queue := q\<rparr>)"
      by auto
    have "distinct_ids (a\<lparr>a_queue := q\<rparr>)" using p(4) by (simp add: distinct_ids_def user_ids_def queue_ids_def)
    with h(3) p(2,5) have "?I t (?s h)" by auto
    with h(1,2) p(1) show "\<exists>s'. ?body (Ptr y) s1 = Some (Next s') \<and> ?I t s'" by auto
    from dlist_next [of _ _ "[]", simplified] links [OF p(3)] p(1,2)
    show "y \<noteq> RemindersList \<and> next_in s1 (Ptr y) = Some (first_ptr RemindersList t)" by (auto simp: heap_simps)
  next
    fix s1 assume "?I [] s1"
    then show "\<exists>p. next_in s1 (Ptr RemindersList) = Some p" using dlist_first [OF links] by (auto simp: heap_simps)
  next
    show "?I (map RemNode (map r_id (a_queue a))) s" using r0 d by (intro exI [of _ "a_queue a"]) simp
    show "next_in s (Ptr RemindersList) = Some (first_ptr RemindersList (map RemNode (map r_id (a_queue a))))"
      using dlist_first [OF links [OF r0]] by (simp add: heap_simps)
  qed
  then show ?thesis by (auto simp: cleanup_reminders_def)
qed

text \<open>What is left when both lists are empty: the two heads, linked to themselves.\<close>

lemma represents_empty:
  assumes "represents s (a\<lparr>a_users := [], a_queue := []\<rparr>)"
  shows "users s = Map.empty" "reminders s = Map.empty" "strings s = Map.empty"
    "nodes s = [UsersList \<mapsto> empty_head UsersList, RemindersList \<mapsto> empty_head RemindersList]"
proof -
  show "users s = Map.empty" "reminders s = Map.empty" "strings s = Map.empty"
    using assms by (auto simp: represents_def user_objects_def reminder_objects_def string_objects_def reminder_map_def
        fun_eq_iff split: nat.split)
  have d: "dlist (nodes s) UsersList []" "dlist (nodes s) RemindersList []" "dom (nodes s) = {UsersList, RemindersList}"
    using assms by (auto simp: represents_def heap_models_def user_ids_def queue_ids_def node_dom_def)
  have "dlist h H [] \<Longrightarrow> h H = Some (empty_head H)" for h and H :: node
    by (auto simp: dlist_def nx_def pv_def empty_head_def map_option_case intro!: list_head.equality split: option.splits)
  with d(1,2) have "nodes s UsersList = Some (empty_head UsersList)" "nodes s RemindersList = Some (empty_head RemindersList)"
    by blast+
  moreover have "nodes s c = None" if "c \<noteq> UsersList" "c \<noteq> RemindersList" for c
    using that d(3) by (auto simp: dom_def)
  ultimately show "nodes s = [UsersList \<mapsto> empty_head UsersList, RemindersList \<mapsto> empty_head RemindersList]"
    by (auto simp: fun_eq_iff)
qed
section \<open>Queries\<close>

text \<open>A printing loop appends one line per entry and changes nothing else.\<close>

lemma foldl_printf: "foldl (\<lambda>s x. printf (f x) s) s xs = s\<lparr>trace := trace s @ map (Printed \<circ> f) xs\<rparr>"
  by (induction xs arbitrary: s) (simp_all add: printf_def)

lemma print_loop:
  assumes d: "dlist (nodes s) H (map g xs)"
    and body: "\<And>x s1. x \<in> set xs \<Longrightarrow> nodes s1 = nodes s \<Longrightarrow> users s1 = users s \<Longrightarrow> reminders s1 = reminders s \<Longrightarrow>
      strings s1 = strings s \<Longrightarrow> body (Ptr (g x)) s1 = Some (Next (printf (f x) s1))"
  shows "list_for_each next_in body (Ptr H) s = Some (False, Ptr H, s\<lparr>trace := trace s @ map (Printed \<circ> f) xs\<rparr>)"
proof -
  have inj: "distinct (map g xs)" using d by (cases "map g xs") (auto simp: dlist_def)
  define f' where "f' = (\<lambda>c. f (the_inv_into (set xs) g c))"
  have f': "x \<in> set xs \<Longrightarrow> f' (g x) = f x" for x
    using inj by (simp add: f'_def distinct_map the_inv_into_f_f)
  have "list_for_each next_in body (Ptr H) s = Some (False, Ptr H, foldl (\<lambda>s c. printf (f' c) s) s (map g xs))"
  proof (rule list_for_each_fold [OF d, where P = "\<lambda>s1. nodes s1 = nodes s \<and> users s1 = users s \<and>
      reminders s1 = reminders s \<and> strings s1 = strings s"])
    fix c and s1 :: rstate assume "c \<in> set (map g xs)" and *: "nodes s1 = nodes s \<and> users s1 = users s \<and> reminders s1 = reminders s \<and> strings s1 = strings s"
    then obtain x where "x \<in> set xs" "c = g x" by auto
    with body * f' show "body (Ptr c) s1 = Some (Next (printf (f' c) s1)) \<and>
        nodes (printf (f' c) s1) = nodes s \<and> users (printf (f' c) s1) = users s \<and>
        reminders (printf (f' c) s1) = reminders s \<and> strings (printf (f' c) s1) = strings s"
      by (simp add: printf_def)
  qed (auto simp: heap_simps)
  moreover have "map (Printed \<circ> f') (map g xs) = map (Printed \<circ> f) xs" using f' by simp
  ultimately show ?thesis unfolding foldl_printf by simp
qed

lemma show_all_users_sim:
  assumes m: "models s a"
  shows "show_all_users s = Some (s\<lparr>trace := trace s @ map (\<lambda>(u, n). Printed (''UserName: '' @ n @ '' \<newline>'')) (a_users a)\<rparr>)"
proof -
  have d: "dlist (nodes s) UsersList (map (UserNode \<circ> fst) (a_users a))"
    using models_lists(1) [OF m] by (simp add: user_ids_def)
  have "list_for_each next_in
       (\<lambda>pos s. do {
          u \<leftarrow> user_of_list pos;
          U \<leftarrow> users s u;
          n \<leftarrow> strings s (user_name U);
          Some (Next (printf (''UserName: '' @ n @ '' \<newline>'') s)) }) (Ptr UsersList) s =
    Some (False, Ptr UsersList, s\<lparr>trace := trace s @ map (Printed \<circ> (\<lambda>x. ''UserName: '' @ snd x @ '' \<newline>'')) (a_users a)\<rparr>)"
    by (rule print_loop [OF d]) (use models_user [OF m] in auto)
  then show ?thesis by (simp add: show_all_users_def case_prod_unfold comp_def)
qed

definition reminder_line :: "areminder \<Rightarrow> string" where
  "reminder_line x = ''Remainder: '' @ r_title x @ '', Time: '' @ show_int (r_time x) @ '' \<newline>''"

lemma show_all_reminders_sim:
  assumes m: "models s a"
  shows "show_all_reminders s = Some (s\<lparr>trace := trace s @ Printed ''show_all_reminders'' # Printed ''\<newline>'' #
    map (Printed \<circ> reminder_line) (a_queue a)\<rparr>)"
proof -
  let ?s = "printf ''\<newline>'' (printf ''show_all_reminders'' s)"
  have d: "dlist (nodes ?s) RemindersList (map (RemNode \<circ> r_id) (a_queue a))"
    using models_lists(2) [OF m] by (simp add: queue_ids_def printf_def)
  have "list_for_each next_in
       (\<lambda>pos s. do {
          r \<leftarrow> reminder_of_list pos;
          R \<leftarrow> reminders s r;
          t \<leftarrow> strings s (notification_text R);
          Some (Next (printf (''Remainder: '' @ t @ '', Time: '' @ show_int (ellapse_time R) @ '' \<newline>'') s)) })
       (Ptr RemindersList) ?s =
    Some (False, Ptr RemindersList, ?s\<lparr>trace := trace ?s @ map (Printed \<circ> reminder_line) (a_queue a)\<rparr>)"
    by (rule print_loop [OF d]) (use models_reminder [OF m] in \<open>auto simp: reminder_object_def reminder_line_def printf_def\<close>)
  then show ?thesis by (simp add: show_all_reminders_def printf_def)
qed

lemma get_notifications_total_count_sim:
  assumes m: "models s a"
  shows "get_notifications_total_count s = Some (length (a_queue a))"
proof -
  have "list_for_each (\<lambda>_. next_in s) (\<lambda>_ n. Some (Next (Suc n))) (Ptr RemindersList) 0 =
      Some (False, Ptr RemindersList, foldl (\<lambda>n x. Suc n) 0 (map RemNode (queue_ids a)))"
    by (rule list_for_each_fold [OF models_lists(2) [OF m], where P = "\<lambda>_. True"]) (auto simp: heap_simps)
  moreover have "foldl (\<lambda>n x. Suc n) k xs = k + length xs" for k and xs :: "node list"
    by (induction xs arbitrary: k) auto
  ultimately show ?thesis by (simp add: get_notifications_total_count_def queue_ids_def)
qed

lemma is_notifications_list_empty_sim:
  "models s a \<Longrightarrow> is_notifications_list_empty s = Some (a_queue a = [])"
  using list_empty_dlist [OF models_lists(2), of s a] by (simp add: is_notifications_list_empty_def queue_ids_def)

lemma get_notification_username_sim:
  assumes "models s a" "x \<in> set (a_queue a)"
  shows "\<exists>b. get_notification_username (r_id x) s = Some b \<and> strings s b = map_of (a_users a) (r_owner x)"
proof -
  have "r_owner x \<in> set (user_ids a)" using assms by (intro awf_owner models_awf)
  then obtain n where n: "(r_owner x, n) \<in> set (a_users a)" by (auto simp: user_ids_def)
  then have "map_of (a_users a) (r_owner x) = Some n" using assms(1) by (auto simp: models_def awf_def user_ids_def)
  with models_user [OF assms(1) n] models_reminder(1) [OF assms] show ?thesis
    by (simp add: get_notification_username_def reminder_object_def)
qed

lemma get_notification_text_sim:
  "models s a \<Longrightarrow> x \<in> set (a_queue a) \<Longrightarrow>
    \<exists>b. get_notification_text (r_id x) s = Some b \<and> strings s b = Some (r_title x)"
  using models_reminder [of s a x] by (simp add: get_notification_text_def reminder_object_def)

lemma models_trace: "models s a \<Longrightarrow> models (s\<lparr>trace := t\<rparr>) a"
  by (simp add: models_def)

text \<open>The client's enumerator sees the reminders in queue order, if it leaves the queue alone.\<close>

lemma for_each_notification_in_queue_sim:
  assumes m: "models s a" and inv: "P s"
    and e: "\<And>x s1. x \<in> set (a_queue a) \<Longrightarrow> P s1 \<Longrightarrow> enumerator (r_id x) s1 = Some (g x s1) \<and> P (g x s1) \<and> nodes (g x s1) = nodes s1"
  shows "for_each_notification_in_queue enumerator s = Some (foldl (\<lambda>s x. g x s) s (a_queue a))"
proof -
  let ?body = "\<lambda>pos s. do { r \<leftarrow> reminder_of_list pos; s \<leftarrow> enumerator r s; Some (Next s) }"
  define g' where "g' = (\<lambda>c. g (the_inv_into (set (a_queue a)) (RemNode \<circ> r_id) c))"
  have "distinct (map r_id (a_queue a))" using m by (simp add: models_def awf_def queue_ids_def)
  then have "inj_on (RemNode \<circ> r_id) (set (a_queue a))" by (auto simp: distinct_map inj_on_def)
  then have g': "x \<in> set (a_queue a) \<Longrightarrow> g' (RemNode (r_id x)) = g x" for x
    using the_inv_into_f_f [of "RemNode \<circ> r_id" "set (a_queue a)" x] by (simp add: g'_def)
  have "list_for_each next_in ?body (Ptr RemindersList) s =
    Some (False, Ptr RemindersList, foldl (\<lambda>s c. g' c s) s (map RemNode (queue_ids a)))"
  proof (rule list_for_each_fold [OF models_lists(2) [OF m], where P = "\<lambda>s1. P s1 \<and> nodes s1 = nodes s"])
    fix c s1 assume "c \<in> set (map RemNode (queue_ids a))" and *: "P s1 \<and> nodes s1 = nodes s"
    then obtain x where "x \<in> set (a_queue a)" "c = RemNode (r_id x)" by (auto simp: queue_ids_def)
    with e [of x s1] * g' show "?body (Ptr c) s1 = Some (Next (g' c s1)) \<and> P (g' c s1) \<and> nodes (g' c s1) = nodes s" by simp
  qed (use inv in \<open>auto simp: heap_simps\<close>)
  moreover have "foldl (\<lambda>s c. g' c s) t (map RemNode (map r_id q)) = foldl (\<lambda>s x. g x s) t q" if "set q \<subseteq> set (a_queue a)" for t q
    using that g' by (induction q arbitrary: t) auto
  ultimately show ?thesis by (simp add: for_each_notification_in_queue_def queue_ids_def)
qed

fun user_lines :: "areminder list \<Rightarrow> int \<Rightarrow> nat list \<Rightarrow> event list" where
  "user_lines q k [] = []"
| "user_lines q k (r # rs) = (case reminder_map q r of None \<Rightarrow> [] | Some x \<Rightarrow>
     [Printed (''Reminder ['' @ show_int k @ '']: '' @ r_title x @ '', time: '' @ show_int (r_time x) @ ''\<newline>'')]) @ user_lines q (k + 1) rs"

lemma user_lines_append: "user_lines q k (xs @ ys) = user_lines q k xs @ user_lines q (k + int (length xs)) ys"
  by (induction xs arbitrary: k) (auto simp: algebra_simps)

lemma show_user_reminders_sim:
  assumes m: "models s a" and len: "\<forall>u \<in> set (user_ids a). length (a_notif a u) \<le> 2147483646"
  shows "show_user_reminders n s = Some (case a_find n a of
      None \<Rightarrow> s
    | Some u \<Rightarrow> s\<lparr>trace := trace s @ Printed (''Username: '' @ n @ ''\<newline>'') # user_lines (a_queue a) 1 (a_notif a u)\<rparr>)"
proof (cases "a_find n a")
  case None
  then show ?thesis by (simp add: show_user_reminders_def find_user_entry_models [OF m])
next
  case (Some u)
  have u: "u \<in> set (user_ids a)" using a_find_SomeD [OF Some] by (force simp: user_ids_def)
  define s0 where "s0 = printf (''Username: '' @ n @ ''\<newline>'') s"
  have d: "dlist (nodes s) (NotifHead u) (map RemUserNode (a_notif a u))" by (rule models_lists(3) [OF m u])
  let ?body = "\<lambda>pos (counter, s). do {
              r \<leftarrow> reminder_of_user_notify_list pos;
              R \<leftarrow> reminders s r;
              t \<leftarrow> strings s (notification_text R);
              let s = printf (''Reminder ['' @ show_int counter @ '']: '' @ t @ '', time: ''
                 @ show_int (ellapse_time R) @ ''\<newline>'') s;
              counter \<leftarrow> c_add counter 1;
              Some (Next (counter, s)) }"
  let ?I = "\<lambda>(t::node list) (c::int, s1::rstate). \<exists>pre post. a_notif a u = pre @ post \<and> t = map RemUserNode post \<and>
      c = 1 + int (length pre) \<and> s1 = s0\<lparr>trace := trace s0 @ user_lines (a_queue a) 1 pre\<rparr>"
  have "(\<exists>s'. list_for_each (\<lambda>(_, s). next_in s) ?body (Ptr (NotifHead u)) (1, s0) = Some (False, Ptr (NotifHead u), s') \<and> ?I [] s') \<or>
    (\<exists>x (t::node list) s'. list_for_each (\<lambda>(_, s). next_in s) ?body (Ptr (NotifHead u)) (1, s0) = Some (True, Ptr x, s') \<and> False)"
  proof (rule list_for_each_rule [where I = ?I and Q = "\<lambda>(_::node) (_::node list) (_::int \<times> rstate). False" and xs = "map RemUserNode (a_notif a u)"])
    fix y t and cs :: "int \<times> rstate" assume "?I (y # t) cs"
    then obtain pre r post where p: "a_notif a u = pre @ r # post" "y = RemUserNode r" "t = map RemUserNode post"
      "cs = (1 + int (length pre), s0\<lparr>trace := trace s0 @ user_lines (a_queue a) 1 pre\<rparr>)"
      by (cases cs) (auto simp: Cons_eq_map_conv map_eq_Cons_conv)
    have "r \<in> set (queue_ids a)" using awf_notif [OF models_awf [OF m] u] p(1) by auto
    then obtain x where x: "x \<in> set (a_queue a)" "r_id x = r" by (auto simp: queue_ids_def)
    have rm: "reminder_map (a_queue a) r = Some x"
      using x m by (auto simp: models_def awf_def queue_ids_def simp flip: x(2) intro: reminder_map_Some)
    have "length (a_notif a u) \<le> 2147483646" using len u by simp
    then have c: "c_add (1 + int (length pre)) 1 = Some (1 + int (length (pre @ [r])))"
      by (simp add: p(1) c_simps in_int_def)
    let ?cs = "(1 + int (length (pre @ [r])), s0\<lparr>trace := trace s0 @ user_lines (a_queue a) 1 (pre @ [r])\<rparr>)"
    have "?body (Ptr y) cs = Some (Next ?cs)"
      using models_reminder [OF m x(1)] c rm x(2)
      by (simp add: p(2,4) reminder_object_def s0_def printf_def Let_def user_lines_append)
    moreover have "?I t ?cs" unfolding prod.case using p(1,3) by (intro exI [of _ "pre @ [r]"] exI [of _ post]) auto
    moreover have "rd_next (nodes s) (Ptr y) = Some (first_ptr (NotifHead u) t)"
      using p d by (auto simp: heap_simps intro: dlist_next [of _ _ "map RemUserNode pre"])
    ultimately show "y \<noteq> NotifHead u \<and>
      ((\<exists>s'. ?body (Ptr y) cs = Some (Next s') \<and> (case s' of (_, s) \<Rightarrow> next_in s) (Ptr y) = Some (first_ptr (NotifHead u) t) \<and> ?I t s') \<or>
       (\<exists>s'. ?body (Ptr y) cs = Some (Break s') \<and> False))"
      using p(2) by (auto simp: s0_def printf_def)
  next
    show "?I (map RemUserNode (a_notif a u)) (1, s0)" by (auto intro: exI [of _ "[]"])
    show "(case (1::int, s0) of (_, s) \<Rightarrow> next_in s) (Ptr (NotifHead u)) = Some (first_ptr (NotifHead u) (map RemUserNode (a_notif a u)))"
      using dlist_first [OF d] by (simp add: heap_simps s0_def printf_def)
  qed
  then show ?thesis using Some
    by (auto simp: show_user_reminders_def find_user_entry_models [OF m] Let_def s0_def printf_def)
qed
end
