(* ===== verification/Reminders.thy ===== *)
theory Reminders
  imports RemindersRefine
begin

text \<open>
  The reminders module as its clients use it: a sequence of calls from the view and of timer
  ticks, in any order, with \<open>malloc\<close> failing at will. The properties are about every state
  such a sequence reaches.
\<close>

section \<open>Clients\<close>

datatype client_op =
    Add_user string
  | Remove_user string
  | Add_reminder string string int
  | Remove_notification string int
  | Timer_tick
  | Show_users
  | Show_reminders
  | Show_user_reminders string
  | Set_removal_callback bool

fun exec :: "client_op \<Rightarrow> rstate \<Rightarrow> rstate option" where
  "exec (Add_user n) s = add_new_user n s"
| "exec (Remove_user n) s = remove_user n s"
| "exec (Add_reminder n t k) s = add_user_reminder n t k s"
| "exec (Remove_notification n k) s = remove_user_notification n k s"
| "exec Timer_tick s = handle_timer_tick s"
| "exec Show_users s = show_all_users s"
| "exec Show_reminders s = show_all_reminders s"
| "exec (Show_user_reminders n) s = show_user_reminders n s"
| "exec (Set_removal_callback b) s = Some (set_notification_is_about_to_remove_callback b s)"

fun exec_all :: "client_op list \<Rightarrow> rstate \<Rightarrow> rstate option" where
  "exec_all [] s = Some s"
| "exec_all (op # ops) s = do { s \<leftarrow> exec op s; exec_all ops s }"

text \<open>
  What the callers have to observe: a reminder is set for a positive number of seconds, a user
  is removed only when no reminder belongs to it, and fewer than \<open>INT_MAX\<close> reminders are
  queued when they are counted with an \<open>int\<close>.
\<close>

fun client_ok :: "client_op \<Rightarrow> rstate \<Rightarrow> bool" where
  "client_ok (Remove_user n) s = (case find_user_entry n s of
     Some (Some u) \<Rightarrow> list_empty (nodes s) (Ptr (NotifHead u)) = Some True
   | _ \<Rightarrow> True)"
| "client_ok (Add_reminder n t k) s = (1 \<le> k \<and> in_int k)"
| "client_ok (Remove_notification n k) s = (in_int k \<and> k \<noteq> - 2147483648 \<and>
     (case get_notifications_total_count s of Some c \<Rightarrow> c < 2147483647 | None \<Rightarrow> False))"
| "client_ok (Show_user_reminders n) s =
     (case get_notifications_total_count s of Some c \<Rightarrow> c < 2147483647 | None \<Rightarrow> False)"
| "client_ok _ s = True"

inductive reachable :: "rstate \<Rightarrow> bool" where
  start: "reachable (init_state\<lparr>oom := bs\<rparr>)"
| call: "reachable s \<Longrightarrow> client_ok op s \<Longrightarrow> exec op s = Some s' \<Longrightarrow> reachable s'"

inductive_cases reachableE: "reachable s"

text \<open>The abstract counterpart; \<open>mem\<close> and \<open>i\<close> are the outcome of the allocations.\<close>

fun a_exec :: "bool \<Rightarrow> nat \<Rightarrow> client_op \<Rightarrow> aspec \<Rightarrow> aspec" where
  "a_exec mem i (Add_user n) a = (if a_find n a = None \<and> mem then a_add_user i n a else a)"
| "a_exec mem i (Remove_user n) a = a_remove_user n a"
| "a_exec mem i (Add_reminder n t k) a = (case a_find n a of
     None \<Rightarrow> a | Some u \<Rightarrow> if mem then a_add_reminder i u t k a else a)"
| "a_exec mem i (Remove_notification n k) a = a_remove_notification n k a"
| "a_exec mem i Timer_tick a = a_tick a"
| "a_exec mem i _ a = a"

text \<open>The queue is ordered by the time left, and nothing in it is due.\<close>

definition queue_inv :: "aspec \<Rightarrow> bool" where
  "queue_inv a \<longleftrightarrow> sorted (map r_time (a_queue a)) \<and> (\<forall>x \<in> set (a_queue a). 1 \<le> r_time x \<and> in_int (r_time x))"

lemma queue_inv_del: "queue_inv a \<Longrightarrow> queue_inv (a_del x a)"
  by (auto simp: queue_inv_def a_del_def intro: sorted_filter)

lemma sorted_map_pred: "sorted (map f xs) \<Longrightarrow> sorted (map (\<lambda>x. f x - (1::int)) xs)"
  by (induction xs) auto

lemma queue_inv_tick:
  assumes "queue_inv a"
  shows "queue_inv (a_tick a)"
proof -
  have "sorted (map r_time (filter (\<lambda>x. r_time x \<noteq> 1) (a_queue a)))"
    using assms by (auto simp: queue_inv_def intro: sorted_filter)
  then have "sorted (map (\<lambda>x. r_time x - 1) (filter (\<lambda>x. r_time x \<noteq> 1) (a_queue a)))"
    by (rule sorted_map_pred)
  moreover have "1 \<le> r_time x - 1 \<and> in_int (r_time x - 1)" if "x \<in> set (a_queue a)" "r_time x \<noteq> 1" for x
    using assms that by (auto simp: queue_inv_def in_int_def dest!: bspec)
  ultimately show ?thesis
    by (auto simp: queue_inv_def a_tick_def a_tick_upto_def tick_queue_def comp_def)
qed

lemma queue_inv_exec:
  assumes "queue_inv a" "\<And>n t k. op = Add_reminder n t k \<Longrightarrow> 1 \<le> k \<and> in_int k"
  shows "queue_inv (a_exec mem i op a)"
proof (cases op)
  case (Add_reminder n t k)
  with assms(2) [of n t k] assms(1) show ?thesis
    by (auto simp: queue_inv_def a_add_reminder_def intro: a_insert_sorted split: option.split)
next
  case (Remove_notification n k)
  with assms(1) show ?thesis
    by (auto simp: a_remove_notification_def intro: queue_inv_del split: option.split)
qed (use assms(1) in \<open>auto simp: queue_inv_tick, auto simp: queue_inv_def a_add_user_def a_remove_user_def\<close>)

lemma notif_length:
  assumes "awf a" "u \<in> set (user_ids a)"
  shows "length (a_notif a u) \<le> length (a_queue a)"
proof -
  have "distinct (a_notif a u)" using assms by (simp add: awf_def)
  then have "length (a_notif a u) = card (set (a_notif a u))" by (simp add: distinct_card)
  also have "\<dots> \<le> card (set (queue_ids a))" by (intro card_mono awf_notif assms) simp
  also have "\<dots> \<le> length (a_queue a)" using card_length [of "queue_ids a"] by (simp add: queue_ids_def)
  finally show ?thesis .
qed

lemma client_ok_bound:
  assumes m: "models s a" and c: "case get_notifications_total_count s of Some c \<Rightarrow> c < 2147483647 | None \<Rightarrow> False"
    and u: "u \<in> set (user_ids a)"
  shows "length (a_notif a u) \<le> 2147483646"
  using c notif_length [OF models_awf [OF m] u] get_notifications_total_count_sim [OF m] by simp

lemma exec_sim:
  assumes m: "models s a" and q: "queue_inv a" and ok: "client_ok op s"
  shows "\<exists>s'. exec op s = Some s' \<and> models s' (a_exec (alloc2 s) (brk s) op a)"
proof (cases op)
  case (Add_user n)
  then show ?thesis using add_new_user_sim [OF m, of n] by auto
next
  case (Remove_user n)
  have "a_notif a u = []" if "a_find n a = Some u" for u
  proof -
    have "u \<in> set (user_ids a)" using a_find_SomeD [OF that] by (force simp: user_ids_def)
    from list_empty_dlist [OF models_lists(3) [OF m this]] ok show ?thesis
      by (simp add: Remove_user find_user_entry_models [OF m] that)
  qed
  with remove_user_sim [OF m, of n] show ?thesis by (auto simp: Remove_user)
next
  case (Add_reminder n t k)
  then show ?thesis using add_user_reminder_sim [OF m, of n t k] by (auto split: option.splits)
next
  case (Remove_notification n k)
  have "\<forall>u \<in> set (user_ids a). length (a_notif a u) \<le> 2147483647"
    using client_ok_bound [OF m] ok by (fastforce simp: Remove_notification)
  then show ?thesis using ok remove_user_notification_sim [OF m, of k n] by (auto simp: Remove_notification)
next
  case Timer_tick
  have "\<forall>x \<in> set (a_queue a). in_int (r_time x - 1)" using q by (auto simp: queue_inv_def in_int_def)
  from handle_timer_tick_sim [OF m this] show ?thesis by (auto simp: Timer_tick)
next
  case Show_users
  then show ?thesis using show_all_users_sim [OF m] models_trace [OF m] by simp
next
  case Show_reminders
  then show ?thesis using show_all_reminders_sim [OF m] models_trace [OF m] by simp
next
  case (Show_user_reminders n)
  have "\<forall>u \<in> set (user_ids a). length (a_notif a u) \<le> 2147483646"
    using client_ok_bound [OF m] ok by (auto simp: Show_user_reminders)
  from show_user_reminders_sim [OF m this, of n] show ?thesis
    using m models_trace [OF m] by (auto simp: Show_user_reminders split: option.split)
next
  case (Set_removal_callback b)
  then show ?thesis using m by (simp add: set_notification_is_about_to_remove_callback_def models_def)
qed

lemma reachable_models: "reachable s \<Longrightarrow> \<exists>a. models s a \<and> queue_inv a"
proof (induction rule: reachable.induct)
  case (start bs)
  have "queue_inv empty_spec" by (simp add: queue_inv_def empty_spec_def)
  with models_oom [OF init_models] show ?case by blast
next
  case (call s op s')
  then obtain a where a: "models s a" "queue_inv a" by blast
  have "queue_inv (a_exec (alloc2 s) (brk s) op a)"
    using a(2) call.hyps(2) by (intro queue_inv_exec) auto
  with exec_sim [OF a call.hyps(2)] call.hyps(3) show ?case by auto
qed


section \<open>When a reminder is announced\<close>

fun ticks :: "nat \<Rightarrow> rstate \<Rightarrow> rstate option" where
  "ticks 0 s = Some s"
| "ticks (Suc n) s = do { s \<leftarrow> handle_timer_tick s; ticks n s }"

lemma tick_keeps:
  assumes "x \<in> set (a_queue a)" "r_time x \<noteq> 1"
  shows "x\<lparr>r_time := r_time x - 1\<rparr> \<in> set (a_queue (a_tick a))"
  using assms by (auto simp: a_tick_def a_tick_upto_def tick_queue_def)

lemma tick_sim:
  assumes "models s a" "queue_inv a"
  shows "\<exists>s'. handle_timer_tick s = Some s' \<and> models s' (a_tick a) \<and> queue_inv (a_tick a) \<and>
    trace s' = trace s @ alerts (callback_notification_is_about_to_be_removed s) (a_queue a)"
proof -
  have "\<forall>x \<in> set (a_queue a). in_int (r_time x - 1)" using assms(2) by (auto simp: queue_inv_def in_int_def)
  with handle_timer_tick_sim [OF assms(1)] queue_inv_tick [OF assms(2)] show ?thesis by blast
qed

lemma ticks_sim:
  assumes "models s a" "queue_inv a" "x \<in> set (a_queue a)" "int n < r_time x"
  shows "\<exists>s' b. ticks n s = Some s' \<and> models s' b \<and> queue_inv b \<and> x\<lparr>r_time := r_time x - int n\<rparr> \<in> set (a_queue b)"
  using assms
proof (induction n arbitrary: s a x)
  case 0
  then show ?case by auto
next
  case (Suc n)
  obtain s1 where s1: "handle_timer_tick s = Some s1" "models s1 (a_tick a)" "queue_inv (a_tick a)"
    using tick_sim [OF Suc.prems(1,2)] by blast
  have "x\<lparr>r_time := r_time x - 1\<rparr> \<in> set (a_queue (a_tick a))" using Suc.prems by (intro tick_keeps) auto
  from Suc.IH [OF s1(2,3) this] Suc.prems(4) s1(1) show ?case
    by (auto simp: algebra_simps)
qed

lemma alerts_split:
  assumes "x \<in> set q" "r_time x = 1"
  shows "\<exists>pre post. alerts cb q = pre @ alert cb x @ post"
proof -
  from assms(1) obtain q1 q2 where "q = q1 @ x # q2" by (meson split_list)
  then show ?thesis using assms(2) by (auto simp: alerts_def tick_expired_def)
qed

lemma reminder_in_queue:
  assumes "models s a" "reminders s r = Some R"
  obtains x where "x \<in> set (a_queue a)" "r_id x = r" "r_time x = ellapse_time R" "R = reminder_object x"
proof -
  obtain x where "reminder_map (a_queue a) r = Some x" "R = reminder_object x"
    using assms by (auto simp: models_def reminder_objects_def)
  with that [of x] show thesis by (auto dest!: reminder_map_SomeD simp: reminder_object_def)
qed

lemma tick_removes:
  assumes "awf a" "x \<in> set (a_queue a)" "r_time x = 1"
  shows "r_id x \<notin> set (queue_ids (a_tick a))"
  using assms awf_inj [OF assms(1,2)]
  by (auto simp: queue_ids_def a_tick_def a_tick_upto_def tick_queue_def)

section \<open>A small run\<close>

text \<open>Two users with a reminder each, the earlier one added last.\<close>

definition demo_ops :: "client_op list" where
  "demo_ops = [Add_user ''ann'', Add_user ''bob'', Add_reminder ''ann'' ''tea'' 2, Add_reminder ''bob'' ''cake'' 1]"

definition demo_state :: rstate where
  "demo_state = the (exec_all demo_ops init_state)"

lemma demo_runs: "exec_all demo_ops init_state = Some demo_state"
proof -
  have "exec_all demo_ops init_state \<noteq> None" by code_simp
  then show ?thesis by (auto simp: demo_state_def)
qed

fun permitted :: "client_op list \<Rightarrow> rstate \<Rightarrow> bool" where
  "permitted [] s = True"
| "permitted (op # ops) s = (client_ok op s \<and> (case exec op s of Some s \<Rightarrow> permitted ops s | None \<Rightarrow> True))"

lemma exec_all_reachable:
  "reachable s \<Longrightarrow> permitted ops s \<Longrightarrow> exec_all ops s = Some s' \<Longrightarrow> reachable s'"
  by (induction ops s rule: exec_all.induct) (auto simp: bind_eq_Some_conv dest: reachable.call)

lemma reachable_init: "reachable init_state"
  using reachable.start [of "[]"] by (simp add: init_state_def)

lemma demo_reachable: "reachable demo_state"
proof -
  have "permitted demo_ops init_state" by code_simp
  with exec_all_reachable [OF reachable_init] demo_runs show ?thesis by blast
qed

section \<open>Properties\<close>

text \<open>C1: No client call faults. From every state that client calls reach, with memory running
  out at any point, a permitted call runs to its end without a NULL dereference, a use after
  free, a double free or an overflow.\<close>

theorem reachable_no_fault:
  assumes "reachable s" "client_ok op s"
  shows "\<exists>s'. exec op s = Some s'"
  using reachable_models [OF assms(1)] exec_sim assms(2) by blast

theorem reachable_no_fault_witness:
  "\<exists>s'. exec Timer_tick demo_state = Some s'"
  by (rule reachable_no_fault [OF demo_reachable]) simp

text \<open>C10: Every reachable heap is a faithful picture of an abstract state: the users' names are
  distinct, every queued reminder has a live owner in whose list it is exactly once, every block
  is accounted for, and the queue is ordered by the seconds left, all positive.\<close>

theorem reachable_represents:
  assumes "reachable s"
  shows "\<exists>a. models s a \<and> sorted (map r_time (a_queue a)) \<and>
    (\<forall>x \<in> set (a_queue a). 1 \<le> r_time x \<and> r_time x \<le> 2147483647)"
  using reachable_models [OF assms] by (fastforce simp: queue_inv_def in_int_def)

theorem reachable_represents_witness:
  "\<exists>a. models demo_state a \<and> sorted (map r_time (a_queue a)) \<and>
    (\<forall>x \<in> set (a_queue a). 1 \<le> r_time x \<and> r_time x \<le> 2147483647)"
  by (rule reachable_represents [OF demo_reachable])

text \<open>C2: Refinement. A call that keeps the conditions of its callers returns, and takes a heap that represents \<open>a\<close> to one that represents what the
  abstract operation makes of \<open>a\<close>, whether the allocations in it succeed or not. The conditions are those of \<open>client_ok\<close>: no user is
  removed who has reminders, a reminder is set for at least one second, and fewer than \<open>INT_MAX\<close> are queued when they are
  counted.\<close>

theorem exec_refines:
  assumes "models s a" "queue_inv a" "client_ok op s"
  shows "\<exists>s'. exec op s = Some s' \<and> models s' (a_exec (alloc2 s) (brk s) op a)"
  by (rule exec_sim [OF assms])

theorem exec_refines_witness:
  "\<exists>s'. add_new_user ''ann'' init_state = Some s' \<and> models s' (a_add_user 1 ''ann'' empty_spec)"
proof -
  have "queue_inv empty_spec" by (simp add: queue_inv_def empty_spec_def)
  moreover have "alloc2 init_state" "brk init_state = 1" "a_find ''ann'' empty_spec = None"
    by (simp_all add: alloc2_def init_state_def a_find_def empty_spec_def)
  ultimately show ?thesis using exec_refines [OF init_models, of "Add_user ''ann''"] by simp
qed

text \<open>C23: Shutting down in the order of the application, users first and reminders second,
  frees every block once and leaves two empty lists.\<close>

theorem cleanup_frees_everything:
  assumes "reachable s"
  shows "\<exists>s1 s2. cleanup_users s = Some s1 \<and> cleanup_reminders s1 = Some s2 \<and>
    users s2 = Map.empty \<and> reminders s2 = Map.empty \<and> strings s2 = Map.empty \<and>
    nodes s2 = nodes init_state"
proof -
  obtain a where m: "models s a" using reachable_models [OF assms] by blast
  then have r: "represents s a" "distinct_ids a" by (auto simp: models_represents intro: awf_distinct_ids)
  obtain s1 where s1: "cleanup_users s = Some s1" "represents s1 (a\<lparr>a_users := []\<rparr>)"
    using cleanup_users_sim [OF r] by blast
  have "distinct_ids (a\<lparr>a_users := []\<rparr>)" using r(2) by (simp add: distinct_ids_def user_ids_def queue_ids_def)
  from cleanup_reminders_sim [OF s1(2) this] obtain s2 where
    "cleanup_reminders s1 = Some s2" "represents s2 (a\<lparr>a_users := [], a_queue := []\<rparr>)" by auto
  with s1(1) represents_empty [OF this(2)] show ?thesis by (auto simp: init_state_def)
qed

theorem cleanup_frees_everything_witness:
  "\<exists>s1 s2. cleanup_users demo_state = Some s1 \<and> cleanup_reminders s1 = Some s2 \<and>
    users s2 = Map.empty \<and> reminders s2 = Map.empty \<and> strings s2 = Map.empty \<and>
    nodes s2 = nodes init_state"
  by (rule cleanup_frees_everything [OF demo_reachable])

text \<open>C21: A reminder with \<open>n + 1\<close> seconds left survives \<open>n\<close> timer ticks and is
  announced, with its text, and freed in tick \<open>n + 1\<close>; the ticks all succeed.\<close>

theorem reminder_fires_on_time:
  assumes "reachable s" "reminders s r = Some R" "ellapse_time R = int (Suc n)" "strings s (notification_text R) = Some t"
  shows "\<exists>s1 s2 pre post. ticks n s = Some s1 \<and> reminders s1 r \<noteq> None \<and>
    handle_timer_tick s1 = Some s2 \<and> reminders s2 r = None \<and>
    trace s2 = trace s1 @ pre @ Printed (''Notification Alert! '' @ t @ '' \<newline>'') # post"
proof -
  obtain a where a: "models s a" "queue_inv a" using reachable_models [OF assms(1)] by blast
  obtain x where x: "x \<in> set (a_queue a)" "r_id x = r" "r_time x = int (Suc n)" "R = reminder_object x"
    using reminder_in_queue [OF a(1) assms(2)] assms(3) by metis
  have t: "r_title x = t" using models_reminder(2) [OF a(1) x(1)] assms(4) x(2,4) by (simp add: reminder_object_def)
  obtain s1 b where s1: "ticks n s = Some s1" "models s1 b" "queue_inv b" "x\<lparr>r_time := 1\<rparr> \<in> set (a_queue b)"
    using ticks_sim [OF a x(1), of n] x(3) by auto
  obtain s2 where s2: "handle_timer_tick s1 = Some s2" "models s2 (a_tick b)"
    "trace s2 = trace s1 @ alerts (callback_notification_is_about_to_be_removed s1) (a_queue b)"
    using tick_sim [OF s1(2,3)] by blast
  have "reminders s1 r \<noteq> None" using models_reminder(1) [OF s1(2,4)] x(2) by simp
  moreover have "reminders s2 r = None"
    using tick_removes [OF models_awf [OF s1(2)] s1(4)] s2(2) x(2) reminder_map_None [of "a_queue (a_tick b)" r]
    by (simp add: models_def reminder_objects_def queue_ids_def)
  moreover obtain pre post where "alerts (callback_notification_is_about_to_be_removed s1) (a_queue b) =
      pre @ alert (callback_notification_is_about_to_be_removed s1) (x\<lparr>r_time := 1\<rparr>) @ post"
    using alerts_split [OF s1(4), of "callback_notification_is_about_to_be_removed s1"] by auto
  ultimately show ?thesis using s1(1) s2(1,3) t by (auto simp: alert_def)
qed

theorem reminder_fires_on_time_witness:
  "\<exists>s1 s2 pre post. ticks 1 demo_state = Some s1 \<and> reminders s1 5 \<noteq> None \<and>
    handle_timer_tick s1 = Some s2 \<and> reminders s2 5 = None \<and>
    trace s2 = trace s1 @ pre @ Printed ''Notification Alert! tea \<newline>'' # post"
proof -
  have R: "reminders demo_state 5 = Some \<lparr>notification_text = 6, belongs_to = Some 1, ellapse_time = 2\<rparr>"
    "strings demo_state 6 = Some ''tea''" by code_simp+
  show ?thesis using reminder_fires_on_time [OF demo_reachable R(1), of 1 "''tea''"] R(2) by simp
qed

text \<open>After adding a user it exists, unless memory ran out; adding an existing user again
  changes nothing.\<close>

theorem add_user_then_exists:
  assumes "reachable s"
  shows "\<exists>s' e. is_user_exists n s = Some e \<and> add_new_user n s = Some s' \<and>
    is_user_exists n s' = Some (e \<or> alloc2 s) \<and> (e \<longrightarrow> s' = s)"
proof -
  obtain a where m: "models s a" using reachable_models [OF assms] by blast
  obtain s' where s': "add_new_user n s = Some s'"
    "models s' (if a_find n a = None \<and> alloc2 s then a_add_user (brk s) n a else a)"
    using add_new_user_sim [OF m] by blast
  have e: "is_user_exists n s = Some (a_find n a \<noteq> None)"
    by (simp add: is_user_exists_def find_user_entry_models [OF m])
  have "a_find n (a_add_user (brk s) n a) \<noteq> None" by (simp add: a_find_None a_add_user_def)
  then have e': "is_user_exists n s' = Some (a_find n a \<noteq> None \<or> alloc2 s)"
    using find_user_entry_models [OF s'(2), of n] by (auto simp: is_user_exists_def)
  have "a_find n a \<noteq> None \<longrightarrow> s' = s" using s'(1) e by (auto simp: add_new_user_def)
  with e e' s'(1) show ?thesis by blast
qed

theorem add_user_then_exists_witness:
  "\<exists>s' e. is_user_exists ''eve'' demo_state = Some e \<and> add_new_user ''eve'' demo_state = Some s' \<and>
    is_user_exists ''eve'' s' = Some (e \<or> alloc2 demo_state) \<and> (e \<longrightarrow> s' = demo_state)"
  by (rule add_user_then_exists [OF demo_reachable])

text \<open>Removing a user that has no reminders succeeds, and the name is free again.\<close>

theorem remove_user_then_gone:
  assumes "reachable s" "client_ok (Remove_user n) s"
  shows "\<exists>s'. remove_user n s = Some s' \<and> is_user_exists n s' = Some False"
proof -
  obtain a where m: "models s a" "queue_inv a" using reachable_models [OF assms(1)] by blast
  from exec_sim [OF m assms(2)] obtain s' where s': "remove_user n s = Some s'" "models s' (a_remove_user n a)" by auto
  have "a_find n (a_remove_user n a) = None" by (auto simp: a_find_None a_remove_user_def)
  with find_user_entry_models [OF s'(2), of n] s'(1) show ?thesis by (simp add: is_user_exists_def)
qed

theorem remove_user_then_gone_witness:
  "\<exists>s'. remove_user ''eve'' demo_state = Some s' \<and> is_user_exists ''eve'' s' = Some False"
proof -
  have "client_ok (Remove_user ''eve'') demo_state" by code_simp
  then show ?thesis by (rule remove_user_then_gone [OF demo_reachable])
qed

text \<open>The queue is printed in the order of the seconds left, each reminder once, and printing
  changes nothing else; the counters of the view agree with it.\<close>

theorem queue_is_shown_in_order:
  assumes "reachable s"
  shows "\<exists>q. sorted (map r_time q) \<and> set (map r_id q) = dom (reminders s) \<and> distinct (map r_id q) \<and>
    show_all_reminders s = Some (s\<lparr>trace := trace s @ Printed ''show_all_reminders'' # Printed ''\<newline>'' # map (Printed \<circ> reminder_line) q\<rparr>) \<and>
    get_notifications_total_count s = Some (length q) \<and> is_notifications_list_empty s = Some (q = [])"
proof -
  obtain a where m: "models s a" "queue_inv a" using reachable_models [OF assms] by blast
  have "dom (reminders s) = set (map r_id (a_queue a))"
    using m(1) reminder_map_None [of "a_queue a"] by (auto simp: models_def reminder_objects_def dom_def)
  moreover have "distinct (map r_id (a_queue a))" using m(1) by (simp add: models_def awf_def queue_ids_def)
  ultimately show ?thesis
    using m(2) show_all_reminders_sim [OF m(1)] get_notifications_total_count_sim [OF m(1)] is_notifications_list_empty_sim [OF m(1)]
    by (intro exI [of _ "a_queue a"]) (simp add: queue_inv_def)
qed

theorem queue_is_shown_in_order_witness:
  "\<exists>q. sorted (map r_time q) \<and> set (map r_id q) = dom (reminders demo_state) \<and> distinct (map r_id q) \<and>
    show_all_reminders demo_state = Some (demo_state\<lparr>trace := trace demo_state @ Printed ''show_all_reminders'' # Printed ''\<newline>'' # map (Printed \<circ> reminder_line) q\<rparr>) \<and>
    get_notifications_total_count demo_state = Some (length q) \<and> is_notifications_list_empty demo_state = Some (q = [])"
  by (rule queue_is_shown_in_order [OF demo_reachable])

text \<open>A reminder that is set for zero or fewer seconds is never announced: the test is for
  zero after the decrement, so a tick only takes it further below zero and keeps it.\<close>

theorem overdue_reminder_stays:
  assumes "models s a" "\<forall>x \<in> set (a_queue a). in_int (r_time x - 1)"
    and "reminders s r = Some R" "ellapse_time R \<le> 0"
  shows "\<exists>s'. handle_timer_tick s = Some s' \<and> reminders s' r = Some (R\<lparr>ellapse_time := ellapse_time R - 1\<rparr>)"
proof -
  obtain x where x: "x \<in> set (a_queue a)" "r_id x = r" "r_time x = ellapse_time R" "R = reminder_object x"
    using reminder_in_queue [OF assms(1,3)] .
  obtain s' where s': "handle_timer_tick s = Some s'" "models s' (a_tick a)"
    using handle_timer_tick_sim [OF assms(1,2)] by blast
  have "x\<lparr>r_time := r_time x - 1\<rparr> \<in> set (a_queue (a_tick a))" using x assms(4) by (intro tick_keeps) auto
  from models_reminder(1) [OF s'(2) this] s'(1) x(2,4) show ?thesis by (auto simp: reminder_object_def)
qed

theorem overdue_reminder_stays_witness:
  "\<exists>s s'. exec_all [Add_user ''ann'', Add_reminder ''ann'' ''tea'' 0] init_state = Some s \<and>
    handle_timer_tick s = Some s' \<and> map_option ellapse_time (reminders s' 3) = Some (- 1)"
proof -
  let ?a = "a_add_user 1 ''ann'' empty_spec"
  have m: "alloc2 init_state" "brk init_state = 1" "a_find ''ann'' empty_spec = None" "a_find ''ann'' ?a = Some 1"
    by (simp_all add: alloc2_def init_state_def a_find_def empty_spec_def a_add_user_def)
  obtain s1 where s1: "add_new_user ''ann'' init_state = Some s1" "models s1 ?a"
    using add_new_user_sim [OF init_models, of "''ann''"] m by auto
  have o: "brk (the (add_new_user ''ann'' init_state)) = 3" "oom (the (add_new_user ''ann'' init_state)) = []"
    by code_simp+
  then have "alloc2 s1" "brk s1 = 3" by (simp_all add: s1(1) alloc2_def)
  then obtain s2 where s2: "add_user_reminder ''ann'' ''tea'' 0 s1 = Some s2" "models s2 (a_add_reminder 3 1 ''tea'' 0 ?a)"
    using add_user_reminder_sim [OF s1(2), of "''ann''" "''tea''" 0] m by auto
  have q: "a_queue (a_add_reminder 3 1 ''tea'' 0 ?a) = [\<lparr>r_id = 3, r_title = ''tea'', r_owner = 1, r_time = 0\<rparr>]"
    by (simp add: a_add_reminder_def a_add_user_def a_insert_def empty_spec_def)
  have R: "reminders s2 3 = Some \<lparr>notification_text = 4, belongs_to = Some 1, ellapse_time = 0\<rparr>"
    using models_reminder(1) [OF s2(2), unfolded q] by (simp add: reminder_object_def)
  have "\<exists>s'. handle_timer_tick s2 = Some s' \<and>
      reminders s' 3 = Some (\<lparr>notification_text = 4, belongs_to = Some 1, ellapse_time = 0\<rparr>\<lparr>ellapse_time := 0 - 1\<rparr>)"
    using overdue_reminder_stays [OF s2(2) _ R] q by (simp add: in_int_def)
  with s1(1) s2(1) show ?thesis by auto
qed

text \<open>Removing a user that still has a reminder succeeds and leaves the reminder with a
  pointer to the freed user: the tick that announces it uses memory after it is freed.\<close>

theorem remove_user_leaves_dangling_owner:
  "exec_all [Add_user ''ann'', Add_reminder ''ann'' ''tea'' 1, Remove_user ''ann''] init_state \<noteq> None \<and>
   exec_all [Add_user ''ann'', Add_reminder ''ann'' ''tea'' 1, Remove_user ''ann'', Timer_tick] init_state = None"
  by code_simp

text \<open>Freeing the reminders while the users stay leaves their notification lists pointing at
  freed memory: adding a reminder for such a user, or printing its list, faults. The
  application calls the two functions in the other order.\<close>

theorem cleanup_reminders_first:
  "(case exec_all [Add_user ''ann'', Add_reminder ''ann'' ''tea'' 1] init_state of None \<Rightarrow> False
    | Some s \<Rightarrow> (case cleanup_reminders s of None \<Rightarrow> False
      | Some s \<Rightarrow> exec (Add_reminder ''ann'' ''cake'' 1) s = None \<and> show_user_reminders ''ann'' s = None))"
  by code_simp

end
