(* ===== verification/KernelReminders.thy ===== *)
theory KernelReminders
  imports Reminders
begin

text \<open>
  The kernel module of \<^verbatim>\<open>task8/kernel_module\<close>: the reminder queue before it became the one of the final
  application, and its four tests. The texts of the two files \<^verbatim>\<open>reminders_model.c\<close> agree, up to the
  name of the type of a user and the allocator, in every operation that prints nothing, so that these
  are modelled by the operations of the application. The others print tagged lines with \<open>printk\<close>,
  and an expired reminder is not announced by a callback.
\<close>

section \<open>The operations\<close>

definition MODULE_TAG :: string where "MODULE_TAG = ''==NOTIFICATIONS_MODULE==''"
definition KERN_INFO :: string where "KERN_INFO = [CHR 0x01, CHR ''6'']"

definition printk :: "string \<Rightarrow> rstate \<Rightarrow> rstate" where
  "printk t s = printf (KERN_INFO @ MODULE_TAG @ t) s"

definition kernel_user_dtor :: "nat \<Rightarrow> rstate \<Rightarrow> rstate option" where
  "kernel_user_dtor = user_dtor"

definition kernel_reminder_dtor :: "nat \<Rightarrow> rstate \<Rightarrow> rstate option" where
  "kernel_reminder_dtor = reminder_dtor"

definition kernel_find_user_entry :: "string \<Rightarrow> rstate \<Rightarrow> nat option option" where
  "kernel_find_user_entry = find_user_entry"

definition kernel_insert_reminder_entry :: "nat \<Rightarrow> rstate \<Rightarrow> rstate option" where
  "kernel_insert_reminder_entry = insert_reminder_entry_to_global_list"

definition kernel_add_new_user :: "string \<Rightarrow> rstate \<Rightarrow> rstate option" where
  "kernel_add_new_user = add_new_user"

definition kernel_add_user_reminder :: "string \<Rightarrow> string \<Rightarrow> int \<Rightarrow> rstate \<Rightarrow> rstate option" where
  "kernel_add_user_reminder = add_user_reminder"

definition kernel_remove_user :: "string \<Rightarrow> rstate \<Rightarrow> rstate option" where
  "kernel_remove_user = remove_user"

definition kernel_remove_user_notification :: "string \<Rightarrow> int \<Rightarrow> rstate \<Rightarrow> rstate option" where
  "kernel_remove_user_notification = remove_user_notification"

definition kernel_cleanup_users :: "rstate \<Rightarrow> rstate option" where
  "kernel_cleanup_users = cleanup_users"

definition kernel_cleanup_reminders :: "rstate \<Rightarrow> rstate option" where
  "kernel_cleanup_reminders = cleanup_reminders"

definition kernel_show_all_users :: "rstate \<Rightarrow> rstate option" where
  "kernel_show_all_users s = do {
     (b, p, s) \<leftarrow> list_for_each next_in
       (\<lambda>pos s. do {
          u \<leftarrow> user_of_list pos;
          U \<leftarrow> users s u;
          n \<leftarrow> strings s (user_name U);
          Some (Next (printk (''UserName: '' @ n @ '' \<newline>'') s)) })
       (Ptr UsersList) s;
     Some s }"

definition kernel_show_all_reminders :: "rstate \<Rightarrow> rstate option" where
  "kernel_show_all_reminders s = do {
     let s = printk ''Show all reminders: \<newline>'' s;
     (b, p, s) \<leftarrow> list_for_each next_in
       (\<lambda>pos s. do {
          r \<leftarrow> reminder_of_list pos;
          R \<leftarrow> reminders s r;
          t \<leftarrow> strings s (notification_text R);
          Some (Next (printk (''Remainder: '' @ t @ '', Time: '' @ show_int (ellapse_time R) @ '' \<newline>'') s)) })
       (Ptr RemindersList) s;
     Some s }"

definition kernel_show_user_reminders :: "string \<Rightarrow> rstate \<Rightarrow> rstate option" where
  "kernel_show_user_reminders name s = do {
     p_user \<leftarrow> kernel_find_user_entry name s;
     case p_user of
       None \<Rightarrow> Some s
     | Some u \<Rightarrow> do {
         let s = printk (''Username: '' @ name @ ''\<newline>'') s;
         (b, p, counter, s) \<leftarrow> list_for_each (\<lambda>(_, s). next_in s)
           (\<lambda>pos (counter, s). do {
              r \<leftarrow> reminder_of_user_notify_list pos;
              R \<leftarrow> reminders s r;
              t \<leftarrow> strings s (notification_text R);
              let s = printk (''Reminder ['' @ show_int counter @ '']: '' @ t @ '', time: ''
                 @ show_int (ellapse_time R) @ ''\<newline>'') s;
              counter \<leftarrow> c_add counter 1;
              Some (Next (counter, s)) })
           (Ptr (NotifHead u)) (1, s);
         Some s } }"

definition kernel_handle_reminder_expired :: "nat \<Rightarrow> rstate \<Rightarrow> rstate option" where
  "kernel_handle_reminder_expired reminder_it s = do {
     R \<leftarrow> reminders s reminder_it;
     if ellapse_time R = 0 then do {
       t \<leftarrow> strings s (notification_text R);
       let s = printk (''Notification Alert! '' @ t @ '' \<newline>'') s;
       s \<leftarrow> on_nodes (\<lambda>h. list_del h (Ptr (RemNode reminder_it))) s;
       s \<leftarrow> (case belongs_to R of
          None \<Rightarrow> Some s
        | Some user_it \<Rightarrow> do {
            (found_notification_in_list, pos_user, _) \<leftarrow> list_for_each_safe (\<lambda>_. next_in s)
              (\<lambda>pos _. do {
                 r \<leftarrow> reminder_of_user_notify_list pos;
                 if r = reminder_it then Some (Break ()) else Some (Next ()) })
              (Ptr (NotifHead user_it)) ();
            if found_notification_in_list then on_nodes (\<lambda>h. list_del h pos_user) s
            else Some s });
       kernel_reminder_dtor reminder_it s }
     else Some s }"

definition kernel_handle_timer_tick :: "rstate \<Rightarrow> rstate option" where
  "kernel_handle_timer_tick s = do {
     (b, p, s) \<leftarrow> list_for_each_safe next_in
       (\<lambda>pos s. do {
          reminder_it \<leftarrow> reminder_of_list pos;
          R \<leftarrow> reminders s reminder_it;
          t \<leftarrow> c_sub (ellapse_time R) 1;
          s \<leftarrow> set_reminder (\<lambda>R. R\<lparr>ellapse_time := t\<rparr>) reminder_it s;
          s \<leftarrow> (if t = 0 then kernel_handle_reminder_expired reminder_it s else Some s);
          Some (Next s) })
       (Ptr RemindersList) s;
     Some s }"

section \<open>The tests\<close>

definition user1 :: string where "user1 = ''Valenti''"
definition user2 :: string where "user2 = ''Void''"
definition user3 :: string where "user3 = ''Alex''"

definition test1 :: "rstate \<Rightarrow> rstate option" where
  "test1 s = do {
     s \<leftarrow> kernel_add_new_user user1 s; s \<leftarrow> kernel_add_new_user user2 s; s \<leftarrow> kernel_add_new_user user3 s;
     s \<leftarrow> kernel_show_all_users s;
     s \<leftarrow> kernel_remove_user user2 s;
     s \<leftarrow> kernel_show_all_users s;
     s \<leftarrow> kernel_add_user_reminder user1 ''Buy some food!'' 1000 s;
     s \<leftarrow> kernel_add_user_reminder user1 ''Buy some tomaaatos!'' 100 s;
     s \<leftarrow> kernel_add_user_reminder user1 ''But extre beer'' 500 s;
     s \<leftarrow> kernel_add_user_reminder user3 ''Buy cucumbers'' 40 s;
     s \<leftarrow> kernel_add_user_reminder user3 ''Buy sausages'' 150 s;
     s \<leftarrow> kernel_show_all_reminders s;
     s \<leftarrow> kernel_show_user_reminders user1 s;
     s \<leftarrow> kernel_show_user_reminders user2 s;
     s \<leftarrow> kernel_show_user_reminders user3 s;
     let s = printk ''Removed notification\<newline>'' s;
     s \<leftarrow> kernel_remove_user_notification user1 3 s;
     s \<leftarrow> kernel_show_user_reminders user1 s;
     let s = printk ''Show all\<newline>'' s;
     s \<leftarrow> kernel_show_all_reminders s;
     s \<leftarrow> kernel_cleanup_users s;
     kernel_cleanup_reminders s }"

definition test2 :: "rstate \<Rightarrow> rstate option" where
  "test2 s = do {
     s \<leftarrow> kernel_add_new_user user1 s; s \<leftarrow> kernel_add_new_user user2 s; s \<leftarrow> kernel_add_new_user user3 s;
     s \<leftarrow> kernel_add_new_user user1 s; s \<leftarrow> kernel_add_new_user user2 s; s \<leftarrow> kernel_add_new_user user3 s;
     s \<leftarrow> kernel_add_new_user user1 s; s \<leftarrow> kernel_add_new_user user2 s; s \<leftarrow> kernel_add_new_user user3 s;
     kernel_cleanup_users s }"

definition test3 :: "rstate \<Rightarrow> rstate option" where
  "test3 s = do {
     s \<leftarrow> kernel_add_new_user user1 s;
     s \<leftarrow> kernel_add_user_reminder user1 ''Buy some food!'' 1000 s;
     s \<leftarrow> kernel_add_user_reminder user1 ''Buy some tomaaatos!'' 100 s;
     s \<leftarrow> kernel_show_all_reminders s;
     s \<leftarrow> kernel_remove_user_notification user1 2 s;
     s \<leftarrow> kernel_remove_user_notification user1 1 s;
     s \<leftarrow> kernel_show_all_reminders s;
     s \<leftarrow> kernel_cleanup_users s;
     kernel_cleanup_reminders s }"

definition test4 :: "rstate \<Rightarrow> rstate option" where
  "test4 s = do {
     s \<leftarrow> kernel_add_new_user user1 s;
     s \<leftarrow> kernel_add_user_reminder user1 ''Buy some food!'' 2 s;
     s \<leftarrow> kernel_add_user_reminder user1 ''Buy some tomaaatos!'' 1 s;
     s \<leftarrow> kernel_show_all_reminders s;
     s \<leftarrow> kernel_handle_timer_tick s;
     s \<leftarrow> kernel_show_all_reminders s;
     s \<leftarrow> kernel_handle_timer_tick s;
     s \<leftarrow> kernel_show_all_reminders s;
     s \<leftarrow> kernel_add_user_reminder user1 ''Buy something new, eventyally!'' 4 s;
     for_to 4 (\<lambda>i s. do { s \<leftarrow> kernel_show_user_reminders user1 s; kernel_handle_timer_tick s }) s }"

definition reminder_module_init :: "rstate \<Rightarrow> (int \<times> rstate) option" where
  "reminder_module_init s = do {
     s \<leftarrow> test1 s; s \<leftarrow> test2 s; s \<leftarrow> test3 s; s \<leftarrow> test4 s;
     Some (- 1, s) }"

section \<open>The same specification\<close>

text \<open>Two states that differ in what was printed and in the callbacks only.\<close>

definition relog :: "event list \<Rightarrow> bool \<Rightarrow> bool \<Rightarrow> rstate \<Rightarrow> rstate" where
  "relog x c d s = s\<lparr>trace := x, callback_queue_changed := c, callback_notification_is_about_to_be_removed := d\<rparr>"

definition same_heap :: "rstate \<Rightarrow> rstate \<Rightarrow> bool" where
  "same_heap s t \<longleftrightarrow> (\<exists>x c d. t = relog x c d s)"

lemma relog_fields [simp]:
  "nodes (relog x c d s) = nodes s" "users (relog x c d s) = users s" "reminders (relog x c d s) = reminders s"
  "strings (relog x c d s) = strings s" "brk (relog x c d s) = brk s" "oom (relog x c d s) = oom s" "trace (relog x c d s) = x"
  by (simp_all add: relog_def)

lemma relog_relog [simp]: "relog x c d (relog y e f s) = relog x c d s"
  by (simp add: relog_def)

lemma same_heap_refl [simp]: "same_heap s s"
  unfolding same_heap_def relog_def by (rule exI [of _ "trace s"], rule exI [of _ "callback_queue_changed s"],
    rule exI [of _ "callback_notification_is_about_to_be_removed s"]) simp

lemma relog_steps:
  "on_nodes f (relog x c d s) = map_option (relog x c d) (on_nodes f s)"
  "set_reminder g r (relog x c d s) = map_option (relog x c d) (set_reminder g r s)"
  "free_string b (relog x c d s) = map_option (relog x c d) (free_string b s)"
  "free_reminder r (relog x c d s) = map_option (relog x c d) (free_reminder r s)"
  "printk t (relog x c d s) = relog (x @ [Printed (KERN_INFO @ MODULE_TAG @ t)]) c d s"
  "relog x c d (printf t s) = relog x c d s"
  by (simp_all add: relog_def on_nodes_def set_reminder_def free_string_def free_reminder_def printk_def printf_def map_option_bind comp_def)
    (simp_all split: option.split bind_splits)

lemma reminder_dtor_relog: "reminder_dtor r (relog x c d s) = map_option (relog x c d) (reminder_dtor r s)"
  by (cases "reminders s r"; cases "free_string (notification_text (the (reminders s r))) s") (simp_all add: reminder_dtor_def relog_steps)

lemma same_heap_models: "models s a \<Longrightarrow> same_heap s t \<Longrightarrow> models t a"
  by (auto simp: same_heap_def models_def)

section \<open>Each operation\<close>

lemma same_heap_printk: "same_heap s t \<Longrightarrow> same_heap (printf x s) (printk y t)"
  unfolding same_heap_def by (metis relog_steps(5,6))

lemma same_heap_fields:
  "same_heap s t \<Longrightarrow> nodes t = nodes s \<and> users t = users s \<and> reminders t = reminders s \<and> strings t = strings s"
  by (auto simp: same_heap_def)

lemma same_heap_printf: "same_heap s t \<Longrightarrow> same_heap (printf x s) t"
  unfolding same_heap_def by (metis relog_steps(6))

lemma same_heap_relog: "same_heap (relog a b e s) (relog x c d s)"
  unfolding same_heap_def by (metis relog_relog)

lemma same_heap_relog_self [simp]: "same_heap s (relog x c d s)"
  unfolding same_heap_def by blast

text \<open>How both versions take a reminder out of its lists.\<close>

definition unlink_owner :: "reminder \<Rightarrow> nat \<Rightarrow> rstate \<Rightarrow> rstate option" where
  "unlink_owner R reminder_it s = (case belongs_to R of
     None \<Rightarrow> Some s
   | Some user_it \<Rightarrow> do {
       (found_notification_in_list, pos_user, _) \<leftarrow> list_for_each_safe (\<lambda>_. next_in s)
         (\<lambda>pos _. do {
            r \<leftarrow> reminder_of_user_notify_list pos;
            if r = reminder_it then Some (Break ()) else Some (Next ()) })
         (Ptr (NotifHead user_it)) ();
       if found_notification_in_list then on_nodes (\<lambda>h. list_del h pos_user) s
       else Some s })"

lemma bind_map_option: "Option.bind (map_option f m) g = Option.bind m (\<lambda>x. g (f x))"
  by (cases m) simp_all

lemma unlink_owner_relog: "unlink_owner R r (relog x c d s) = map_option (relog x c d) (unlink_owner R r s)"
  unfolding unlink_owner_def relog_fields
  by (cases "belongs_to R")
    (auto simp: relog_steps map_option_bind comp_def split: prod.split intro!: bind_option_cong)

lemma printf_relog: "printf t s = relog (trace s @ [Printed t]) (callback_queue_changed s) (callback_notification_is_about_to_be_removed s) s"
  by (simp add: printf_def relog_def)

lemma callback_trace:
  "(if b then (relog x c d s)\<lparr>trace := y\<rparr> else relog x c d s) = relog (if b then y else x) c d s"
  by (simp add: relog_def)

lemma expired_same:
  assumes "same_heap s t" "handle_reminder_expired r s = Some s'"
  shows "\<exists>t'. kernel_handle_reminder_expired r t = Some t' \<and> same_heap s' t'"
proof -
  obtain x c d where t: "t = relog x c d s" using assms(1) by (auto simp: same_heap_def)
  obtain R where R: "reminders s r = Some R" using assms(2) by (auto simp: handle_reminder_expired_def bind_eq_Some_conv)
  show ?thesis
  proof (cases "ellapse_time R = 0")
    case True
    then obtain u where u: "strings s (notification_text R) = Some u"
      using assms(2) R by (auto simp: handle_reminder_expired_def bind_eq_Some_conv)
    have "do { s \<leftarrow> on_nodes (\<lambda>h. list_del h (Ptr (RemNode r))) (printf (''Notification Alert! '' @ u @ '' \<newline>'') s);
        s \<leftarrow> unlink_owner R r s;
        reminder_dtor r (if callback_notification_is_about_to_be_removed s then s\<lparr>trace := trace s @ [AboutToBeRemoved r]\<rparr> else s) } = Some s'"
      using assms(2) R u True by (simp add: handle_reminder_expired_def unlink_owner_def Let_def)
    then obtain s1 s2 s3 where steps: "on_nodes (\<lambda>h. list_del h (Ptr (RemNode r))) s = Some s1" "unlink_owner R r s1 = Some s2"
      "reminder_dtor r s2 = Some s3" "same_heap s3 s'"
      unfolding printf_relog relog_steps bind_map_option unlink_owner_relog callback_trace reminder_dtor_relog
      by (auto simp: bind_eq_Some_conv)
    have "kernel_handle_reminder_expired r t = Some (relog (x @ [Printed (KERN_INFO @ MODULE_TAG @ ''Notification Alert! '' @ u @ '' \<newline>'')]) c d s3)"
      using steps(1,2,3) R u True
      by (simp add: kernel_handle_reminder_expired_def unlink_owner_def [symmetric] kernel_reminder_dtor_def t relog_steps unlink_owner_relog reminder_dtor_relog)
    then show ?thesis using steps(4) same_heap_relog by (auto simp: same_heap_def)
  next
    case False
    then show ?thesis using assms R by (simp add: handle_reminder_expired_def kernel_handle_reminder_expired_def t)
  qed
qed

lemma set_reminder_same:
  "same_heap s t \<Longrightarrow> set_reminder f r s = Some s' \<Longrightarrow> \<exists>t'. set_reminder f r t = Some t' \<and> same_heap s' t'"
  by (clarsimp simp: same_heap_def relog_steps) blast

lemma tick_same:
  assumes "handle_timer_tick s = Some s'"
  shows "\<exists>t'. kernel_handle_timer_tick s = Some t' \<and> same_heap s' t'"
proof -
  let ?body = "\<lambda>expired pos s. do {
      reminder_it \<leftarrow> reminder_of_list pos;
      R \<leftarrow> reminders s reminder_it;
      t \<leftarrow> c_sub (ellapse_time R) 1;
      s \<leftarrow> set_reminder (\<lambda>R. R\<lparr>ellapse_time := t\<rparr>) reminder_it s;
      s \<leftarrow> (if t = 0 then expired reminder_it s else Some s);
      Some (Next s) } :: rstate ctl option"
  obtain b p where loop: "list_for_each_safe next_in (?body handle_reminder_expired) (Ptr RemindersList) s = Some (b, p, s')"
    using assms by (auto simp: handle_timer_tick_def bind_eq_Some_conv)
  have "\<exists>t'. list_for_each_safe next_in (?body kernel_handle_reminder_expired) (Ptr RemindersList) s = Some (b, p, t') \<and> same_heap s' t'"
  proof (rule list_for_each_safe_same [OF loop])
    fix p s t c assume st: "same_heap s t" and "?body handle_reminder_expired p s = Some c"
    then obtain r R k s1 s2 where *: "reminder_of_list p = Some r" "reminders s r = Some R" "c_sub (ellapse_time R) 1 = Some k"
      "set_reminder (\<lambda>R. R\<lparr>ellapse_time := k\<rparr>) r s = Some s1" "(if k = 0 then handle_reminder_expired r s1 else Some s1) = Some s2" "c = Next s2"
      by (auto simp: bind_eq_Some_conv)
    from set_reminder_same [OF st *(4)] obtain t1 where t1: "set_reminder (\<lambda>R. R\<lparr>ellapse_time := k\<rparr>) r t = Some t1" "same_heap s1 t1" by blast
    have "\<exists>t2. (if k = 0 then kernel_handle_reminder_expired r t1 else Some t1) = Some t2 \<and> same_heap s2 t2"
      using expired_same [OF t1(2)] *(5) t1(2) by (cases "k = 0") auto
    then obtain t2 where "(if k = 0 then kernel_handle_reminder_expired r t1 else Some t1) = Some t2" "same_heap s2 t2" by blast
    then show "\<exists>c'. ?body kernel_handle_reminder_expired p t = Some c' \<and> same_ctl same_heap c c'"
      using * t1 same_heap_fields [OF st] by (intro exI [of _ "Next t2"]) simp
  qed (simp_all add: same_heap_fields)
  then show ?thesis by (auto simp: kernel_handle_timer_tick_def)
qed

lemma show_all_users_same:
  assumes "show_all_users s = Some s'"
  shows "\<exists>t'. kernel_show_all_users s = Some t' \<and> same_heap s' t'"
proof -
  let ?body = "\<lambda>print pos s. do {
      u \<leftarrow> user_of_list pos;
      U \<leftarrow> users s u;
      n \<leftarrow> strings s (user_name U);
      Some (Next (print (''UserName: '' @ n @ '' \<newline>'') s)) } :: rstate ctl option"
  obtain b p where loop: "list_for_each next_in (?body printf) (Ptr UsersList) s = Some (b, p, s')"
    using assms by (auto simp: show_all_users_def bind_eq_Some_conv)
  have "\<exists>t'. list_for_each next_in (?body printk) (Ptr UsersList) s = Some (b, p, t') \<and> same_heap s' t'"
  proof (rule list_for_each_same [OF loop])
    fix p s t c assume st: "same_heap s t" and "?body printf p s = Some c"
    then show "\<exists>c'. ?body printk p t = Some c' \<and> same_ctl same_heap c c'"
      using same_heap_fields [OF st] by (auto simp: bind_eq_Some_conv intro: same_heap_printk)
  qed (simp_all add: same_heap_fields)
  then show ?thesis by (auto simp: kernel_show_all_users_def)
qed

lemma show_all_reminders_same:
  assumes "show_all_reminders s = Some s'"
  shows "\<exists>t'. kernel_show_all_reminders s = Some t' \<and> same_heap s' t'"
proof -
  let ?body = "\<lambda>print pos s. do {
      r \<leftarrow> reminder_of_list pos;
      R \<leftarrow> reminders s r;
      t \<leftarrow> strings s (notification_text R);
      Some (Next (print (''Remainder: '' @ t @ '', Time: '' @ show_int (ellapse_time R) @ '' \<newline>'') s)) } :: rstate ctl option"
  obtain b p where loop: "list_for_each next_in (?body printf) (Ptr RemindersList) (printf ''\<newline>'' (printf ''show_all_reminders'' s)) = Some (b, p, s')"
    using assms by (auto simp: show_all_reminders_def Let_def bind_eq_Some_conv)
  have "same_heap (printf ''\<newline>'' (printf ''show_all_reminders'' s)) (printk ''Show all reminders: \<newline>'' s)"
    by (intro same_heap_printk same_heap_printf same_heap_refl)
  with loop have "\<exists>t'. list_for_each next_in (?body printk) (Ptr RemindersList) (printk ''Show all reminders: \<newline>'' s) = Some (b, p, t') \<and> same_heap s' t'"
  proof (rule list_for_each_same)
    fix p s t c assume st: "same_heap s t" and "?body printf p s = Some c"
    then show "\<exists>c'. ?body printk p t = Some c' \<and> same_ctl same_heap c c'"
      using same_heap_fields [OF st] by (auto simp: bind_eq_Some_conv intro: same_heap_printk)
  qed (simp add: same_heap_fields)
  then show ?thesis by (auto simp: kernel_show_all_reminders_def)
qed

lemma show_user_reminders_same:
  assumes "show_user_reminders n s = Some s'"
  shows "\<exists>t'. kernel_show_user_reminders n s = Some t' \<and> same_heap s' t'"
proof -
  obtain e where e: "find_user_entry n s = Some e" using assms by (auto simp: show_user_reminders_def bind_eq_Some_conv)
  let ?R = "\<lambda>(c :: int, s) (d, t). c = d \<and> same_heap s t"
  let ?body = "\<lambda>print pos (counter, s). do {
      r \<leftarrow> reminder_of_user_notify_list pos;
      R \<leftarrow> reminders s r;
      t \<leftarrow> strings s (notification_text R);
      let s = print (''Reminder ['' @ show_int counter @ '']: '' @ t @ '', time: '' @ show_int (ellapse_time R) @ ''\<newline>'') s;
      counter \<leftarrow> c_add counter 1;
      Some (Next (counter, s)) } :: (int \<times> rstate) ctl option"
  show ?thesis
  proof (cases e)
    case (Some u)
    let ?title = "''Username: '' @ n @ ''\<newline>''"
    obtain b p c where loop: "list_for_each (\<lambda>(_, s). next_in s) (?body printf) (Ptr (NotifHead u)) (1, printf ?title s) = Some (b, p, c, s')"
      using assms e Some by (auto simp: show_user_reminders_def Let_def bind_eq_Some_conv)
    have "\<exists>t'. list_for_each (\<lambda>(_, s). next_in s) (?body printk) (Ptr (NotifHead u)) (1, printk ?title s) = Some (b, p, t') \<and> ?R (c, s') t'"
    proof (rule list_for_each_same [OF loop])
      show "?R (1, printf ?title s) (1, printk ?title s)" by (simp add: same_heap_printk)
    next
      fix p s t c assume st: "?R s t" and "?body printf p s = Some c"
      moreover have "same_heap (snd s) (snd t)" using st by auto
      ultimately show "\<exists>c'. ?body printk p t = Some c' \<and> same_ctl ?R c c'"
        using same_heap_fields [of "snd s" "snd t"] by (auto simp: bind_eq_Some_conv Let_def intro: same_heap_printk split: prod.splits)
    qed (auto simp: same_heap_fields)
    then show ?thesis using e Some by (auto simp: kernel_show_user_reminders_def kernel_find_user_entry_def Let_def)
  qed (use assms e in \<open>simp add: show_user_reminders_def kernel_show_user_reminders_def kernel_find_user_entry_def\<close>)
qed

fun kernel_exec :: "client_op \<Rightarrow> rstate \<Rightarrow> rstate option" where
  "kernel_exec (Add_user n) s = kernel_add_new_user n s"
| "kernel_exec (Remove_user n) s = kernel_remove_user n s"
| "kernel_exec (Add_reminder n t k) s = kernel_add_user_reminder n t k s"
| "kernel_exec (Remove_notification n k) s = kernel_remove_user_notification n k s"
| "kernel_exec Timer_tick s = kernel_handle_timer_tick s"
| "kernel_exec Show_users s = kernel_show_all_users s"
| "kernel_exec Show_reminders s = kernel_show_all_reminders s"
| "kernel_exec (Show_user_reminders n) s = kernel_show_user_reminders n s"
| "kernel_exec (Set_removal_callback b) s = Some s"

lemma kernel_exec_same:
  assumes "exec op s = Some s'"
  shows "\<exists>t'. kernel_exec op s = Some t' \<and> same_heap s' t'"
proof (cases op)
  case (Set_removal_callback b)
  then have "s = relog (trace s) (callback_queue_changed s) (callback_notification_is_about_to_be_removed s) s'"
    using assms by (cases s) (auto simp: relog_def set_notification_is_about_to_remove_callback_def)
  then have "same_heap s' s" unfolding same_heap_def by blast
  then show ?thesis by (simp add: Set_removal_callback)
qed (use assms tick_same show_all_users_same show_all_reminders_same show_user_reminders_same in
  \<open>auto simp: kernel_add_new_user_def kernel_remove_user_def kernel_add_user_reminder_def kernel_remove_user_notification_def\<close>)

lemma kernel_exec_sim:
  assumes "models s a" "queue_inv a" "client_ok op s"
  shows "\<exists>s'. kernel_exec op s = Some s' \<and> models s' (a_exec (alloc2 s) (brk s) op a) \<and> queue_inv (a_exec (alloc2 s) (brk s) op a)"
proof -
  obtain s1 where "exec op s = Some s1" "models s1 (a_exec (alloc2 s) (brk s) op a)" using exec_sim [OF assms] by blast
  moreover from kernel_exec_same [OF this(1)] obtain s' where "kernel_exec op s = Some s'" "same_heap s1 s'" by blast
  moreover have "queue_inv (a_exec (alloc2 s) (brk s) op a)" by (rule queue_inv_exec [OF assms(2)]) (use assms(3) in auto)
  ultimately show ?thesis using same_heap_models by blast
qed

text \<open>C15: An operation of the kernel module that keeps the conditions of its callers implements the abstract operation of the application's
  queue: from a heap that represents an abstract state it runs without a fault to one that represents the abstract result. The conditions are those
  of the application: removing a user who has reminders, the same bug as there, is left out, as are times below one second
  and queues of \<open>INT_MAX\<close> reminders.\<close>

theorem kernel_refines:
  assumes "models s a" "queue_inv a" "client_ok op s"
  shows "\<exists>s'. kernel_exec op s = Some s' \<and> models s' (a_exec (alloc2 s) (brk s) op a)"
  using kernel_exec_sim [OF assms] by blast

section \<open>Running the tests\<close>

text \<open>At most \<open>c\<close> reminders, none for more than \<open>b\<close> ticks.\<close>

definition kstate :: "nat \<Rightarrow> int \<Rightarrow> aspec \<Rightarrow> rstate \<Rightarrow> bool" where
  "kstate c b a s \<longleftrightarrow> models s a \<and> queue_inv a \<and> length (a_queue a) \<le> c \<and> (\<forall>x \<in> set (a_queue a). r_time x \<le> b)"

fun op_ok :: "nat \<Rightarrow> client_op \<Rightarrow> bool" where
  "op_ok c (Remove_user n) = (c = 0)"
| "op_ok c (Add_reminder n t k) = (1 \<le> k \<and> in_int k)"
| "op_ok c (Remove_notification n k) = (in_int k \<and> k \<noteq> - 2147483648 \<and> c < 2147483647)"
| "op_ok c (Show_user_reminders n) = (c < 2147483647)"
| "op_ok c _ = True"

fun grow :: "client_op \<Rightarrow> nat \<times> int \<Rightarrow> nat \<times> int" where
  "grow (Add_reminder n t k) (c, b) = (Suc c, max b k)"
| "grow Timer_tick (c, b) = (c, b - 1)"
| "grow _ (c, b) = (c, b)"

lemma op_ok_client:
  assumes "kstate c b a s" "op_ok c op"
  shows "client_ok op s"
proof -
  from assms(1) have m: "models s a" and len: "length (a_queue a) \<le> c" by (simp_all add: kstate_def)
  show ?thesis
  proof (cases op)
    case (Remove_user n)
    have "list_empty (nodes s) (Ptr (NotifHead u)) = Some True" if "a_find n a = Some u" for u
    proof -
      have u: "u \<in> set (user_ids a)" using a_find_SomeD [OF that] by (force simp: user_ids_def)
      have "a_queue a = []" using len assms(2) Remove_user by simp
      then have "a_notif a u = []" using awf_notif [OF models_awf [OF m] u] by (simp add: queue_ids_def)
      then show ?thesis using list_empty_dlist [OF models_lists(3) [OF m u]] by simp
    qed
    then show ?thesis using Remove_user by (simp add: find_user_entry_models [OF m] split: option.split)
  qed (use assms(2) len get_notifications_total_count_sim [OF m] in auto)
qed

lemma a_remove_notification_queue: "set (a_queue (a_remove_notification n k a)) \<subseteq> set (a_queue a) \<and>
  length (a_queue (a_remove_notification n k a)) \<le> length (a_queue a)"
  by (auto simp: a_remove_notification_def a_del_def split: option.split intro: order_trans [OF length_filter_le])

lemma kernel_op:
  assumes k: "kstate c b a s" and ok: "op_ok c op"
  shows "\<exists>s'. kernel_exec op s = Some s' \<and> kstate (fst (grow op (c, b))) (snd (grow op (c, b))) (a_exec (alloc2 s) (brk s) op a) s'"
proof -
  from k have m: "models s a" "queue_inv a" by (simp_all add: kstate_def)
  obtain s' where s': "kernel_exec op s = Some s'" "models s' (a_exec (alloc2 s) (brk s) op a)" "queue_inv (a_exec (alloc2 s) (brk s) op a)"
    using kernel_exec_sim [OF m op_ok_client [OF k ok]] by blast
  have "length (a_queue (a_exec (alloc2 s) (brk s) op a)) \<le> fst (grow op (c, b)) \<and>
      (\<forall>x \<in> set (a_queue (a_exec (alloc2 s) (brk s) op a)). r_time x \<le> snd (grow op (c, b)))"
  proof (cases op)
    case (Add_reminder n t j)
    have "length (a_insert x q) = Suc (length q)" for x q
    proof -
      have "length (takeWhile (\<lambda>y. r_time y \<le> r_time x) q) + length (dropWhile (\<lambda>y. r_time y \<le> r_time x) q) = length q"
        by (metis length_append takeWhile_dropWhile_id)
      then show ?thesis by (simp add: a_insert_def)
    qed
    then show ?thesis using k by (auto simp: Add_reminder kstate_def a_add_reminder_def split: option.split)
  next
    case (Remove_notification n j)
    then show ?thesis using k a_remove_notification_queue [of n j a] by (auto simp: kstate_def)
  next
    case Timer_tick
    then show ?thesis using k
      by (auto simp: kstate_def a_tick_def a_tick_upto_def tick_queue_def intro: order_trans [OF length_filter_le])
  qed (use k in \<open>auto simp: kstate_def a_add_user_def a_remove_user_def\<close>)
  then show ?thesis using s' by (simp add: kstate_def)
qed

fun ops_ok :: "client_op list \<Rightarrow> nat \<times> int \<Rightarrow> bool" where
  "ops_ok [] cb = True"
| "ops_ok (op # ops) cb = (op_ok (fst cb) op \<and> ops_ok ops (grow op cb))"

definition kholds :: "nat \<times> int \<Rightarrow> rstate \<Rightarrow> bool" where
  "kholds cb s \<longleftrightarrow> (\<exists>a. kstate (fst cb) (snd cb) a s)"

lemma kernel_ops:
  "kholds cb s \<Longrightarrow> ops_ok ops cb \<Longrightarrow> \<exists>s'. for_list kernel_exec ops s = Some s' \<and> kholds (fold grow ops cb) s'"
proof (induction ops arbitrary: cb s)
  case (Cons op ops)
  then obtain a where "kstate (fst cb) (snd cb) a s" "op_ok (fst cb) op" by (auto simp: kholds_def)
  from kernel_op [OF this] obtain s1 where "kernel_exec op s = Some s1" "kholds (grow op cb) s1" by (auto simp: kholds_def)
  then show ?case using Cons.IH [of "grow op cb" s1] Cons.prems(2) by simp
qed simp

lemma kernel_ops_to:
  assumes "kholds cb s" "ops_ok ops cb" "fold grow ops cb = cb'"
  obtains s' where "for_list kernel_exec ops s = Some s'" "kholds cb' s'"
  using kernel_ops [OF assms(1,2)] assms(3) by blast

lemma kholds_printk: "kholds cb s \<Longrightarrow> kholds cb (printk t s)"
  unfolding kholds_def kstate_def printk_def printf_def using models_trace by blast

lemma kholds_empty:
  assumes "represents s (a\<lparr>a_users := [], a_queue := []\<rparr>)"
  shows "kholds (0, 0) s"
proof -
  have "models s empty_spec" using represents_empty [OF assms] init_models
    by (simp add: models_def init_state_def empty_spec_def user_ids_def queue_ids_def)
  then show ?thesis by (auto simp: kholds_def kstate_def queue_inv_def empty_spec_def)
qed

lemma kernel_cleanup:
  assumes "kholds cb s"
  shows "\<exists>s1 s2. kernel_cleanup_users s = Some s1 \<and> kernel_cleanup_reminders s1 = Some s2 \<and> kholds (0, 0) s2 \<and> (fst cb = 0 \<longrightarrow> kholds (0, 0) s1)"
proof -
  obtain a where m: "models s a" "length (a_queue a) \<le> fst cb" using assms by (auto simp: kholds_def kstate_def)
  then have r: "represents s a" "distinct_ids a" by (auto simp: models_represents intro: awf_distinct_ids)
  obtain s1 where s1: "cleanup_users s = Some s1" "represents s1 (a\<lparr>a_users := []\<rparr>)" using cleanup_users_sim [OF r] by blast
  have "distinct_ids (a\<lparr>a_users := []\<rparr>)" using r(2) by (simp add: distinct_ids_def user_ids_def queue_ids_def)
  from cleanup_reminders_sim [OF s1(2) this] obtain s2 where
    s2: "cleanup_reminders s1 = Some s2" "represents s2 (a\<lparr>a_users := [], a_queue := []\<rparr>)" by auto
  have "represents s1 (a\<lparr>a_users := [], a_queue := []\<rparr>)" if "fst cb = 0" using s1(2) m(2) that by (cases a) simp
  then show ?thesis using s1(1) s2 kholds_empty by (auto simp: kernel_cleanup_users_def kernel_cleanup_reminders_def)
qed

lemma test1_runs:
  assumes "kholds (0, 0) s"
  shows "\<exists>s'. test1 s = Some s' \<and> kholds (0, 0) s'"
proof -
  let ?ops1 = "[Add_user user1, Add_user user2, Add_user user3, Show_users, Remove_user user2, Show_users,
    Add_reminder user1 ''Buy some food!'' 1000, Add_reminder user1 ''Buy some tomaaatos!'' 100, Add_reminder user1 ''But extre beer'' 500,
    Add_reminder user3 ''Buy cucumbers'' 40, Add_reminder user3 ''Buy sausages'' 150, Show_reminders, Show_user_reminders user1,
    Show_user_reminders user2, Show_user_reminders user3]"
  let ?ops2 = "[Remove_notification user1 3, Show_user_reminders user1]"
  have ok1: "ops_ok ?ops1 (0, 0)" "fold grow ?ops1 (0, 0) = (5, 1000)" by (simp_all add: in_int_def)
  have ok2: "ops_ok ?ops2 (5, 1000)" "fold grow ?ops2 (5, 1000) = (5, 1000)" by (simp_all add: in_int_def)
  have ok3: "ops_ok [Show_reminders] (5, 1000)" "fold grow [Show_reminders] (5, 1000) = (5, 1000)" by simp_all
  obtain s1 where s1: "for_list kernel_exec ?ops1 s = Some s1" "kholds (5, 1000) s1"
    by (rule kernel_ops_to [OF assms ok1])
  obtain s2 where s2: "for_list kernel_exec ?ops2 (printk ''Removed notification\<newline>'' s1) = Some s2" "kholds (5, 1000) s2"
    by (rule kernel_ops_to [OF kholds_printk [OF s1(2)] ok2])
  obtain s3 where s3: "for_list kernel_exec [Show_reminders] (printk ''Show all\<newline>'' s2) = Some s3" "kholds (5, 1000) s3"
    by (rule kernel_ops_to [OF kholds_printk [OF s2(2)] ok3])
  obtain s4 s5 where "kernel_cleanup_users s3 = Some s4" "kernel_cleanup_reminders s4 = Some s5" "kholds (0, 0) s5"
    using kernel_cleanup [OF s3(2)] by blast
  moreover have "test1 s = do {
      s \<leftarrow> for_list kernel_exec ?ops1 s;
      s \<leftarrow> for_list kernel_exec ?ops2 (printk ''Removed notification\<newline>'' s);
      s \<leftarrow> for_list kernel_exec [Show_reminders] (printk ''Show all\<newline>'' s);
      s \<leftarrow> kernel_cleanup_users s;
      kernel_cleanup_reminders s }"
    by (simp only: test1_def for_list.simps kernel_exec.simps Option.bind_assoc Let_def Option.bind_lunit Option.bind_runit)
  ultimately show ?thesis using s1(1) s2(1) s3(1) by (simp only: Option.bind_lunit) auto
qed

lemma test2_runs:
  assumes "kholds (0, 0) s"
  shows "\<exists>s'. test2 s = Some s' \<and> kholds (0, 0) s'"
proof -
  let ?three = "[Add_user user1, Add_user user2, Add_user user3]"
  obtain s1 where s1: "for_list kernel_exec (?three @ ?three @ ?three) s = Some s1" "kholds (0, 0) s1"
    by (rule kernel_ops_to [OF assms, of "?three @ ?three @ ?three" "(0, 0)"]) simp_all
  obtain s2 where "kernel_cleanup_users s1 = Some s2" "kholds (0, 0) s2" using kernel_cleanup [OF s1(2)] by auto
  moreover have "test2 s = do { s \<leftarrow> for_list kernel_exec (?three @ ?three @ ?three) s; kernel_cleanup_users s }"
    by (simp only: test2_def append.simps for_list.simps kernel_exec.simps Option.bind_assoc Option.bind_lunit)
  ultimately show ?thesis using s1(1) by (simp only: Option.bind_lunit) auto
qed

lemma test3_runs:
  assumes "kholds (0, 0) s"
  shows "\<exists>s'. test3 s = Some s' \<and> kholds (0, 0) s'"
proof -
  let ?ops = "[Add_user user1, Add_reminder user1 ''Buy some food!'' 1000, Add_reminder user1 ''Buy some tomaaatos!'' 100, Show_reminders,
    Remove_notification user1 2, Remove_notification user1 1, Show_reminders]"
  obtain s1 where s1: "for_list kernel_exec ?ops s = Some s1" "kholds (2, 1000) s1"
    by (rule kernel_ops_to [OF assms, of ?ops "(2, 1000)"]) (simp_all add: in_int_def)
  obtain s2 s3 where "kernel_cleanup_users s1 = Some s2" "kernel_cleanup_reminders s2 = Some s3" "kholds (0, 0) s3"
    using kernel_cleanup [OF s1(2)] by blast
  moreover have "test3 s = do { s \<leftarrow> for_list kernel_exec ?ops s; s \<leftarrow> kernel_cleanup_users s; kernel_cleanup_reminders s }"
    by (simp only: test3_def for_list.simps kernel_exec.simps Option.bind_assoc Option.bind_lunit)
  ultimately show ?thesis using s1(1) by (simp only: Option.bind_lunit) auto
qed

text \<open>The user of the last test, once it is there, is still there at the end.\<close>

lemma kernel_keeps_users:
  assumes "models s a" "queue_inv a" "client_ok op s" "kernel_exec op s = Some s'" "\<forall>n. op \<noteq> Remove_user n" "users s \<noteq> Map.empty"
  shows "users s' \<noteq> Map.empty"
proof -
  have m': "models s' (a_exec (alloc2 s) (brk s) op a)" using kernel_exec_sim [OF assms(1-3)] assms(4) by auto
  have nonempty: "users t \<noteq> Map.empty \<longleftrightarrow> a_users b \<noteq> []" if "models t b" for t b
  proof -
    have "users t = user_objects b" using that by (simp add: models_def)
    then show ?thesis by (cases "a_users b") (auto simp: user_objects_def fun_eq_iff)
  qed
  have "a_users a \<noteq> [] \<Longrightarrow> a_users (a_exec (alloc2 s) (brk s) op a) \<noteq> []"
    using assms(5) by (cases op) (auto simp: a_add_user_def a_add_reminder_def a_remove_notification_def a_del_def a_tick_def a_tick_upto_def split: option.split)
  then show ?thesis using nonempty [OF m'] nonempty [OF assms(1)] assms(6) by blast
qed

lemma kernel_ops_users:
  assumes "kholds cb s" "ops_ok ops cb" "\<forall>op \<in> set ops. \<forall>n. op \<noteq> Remove_user n" "users s \<noteq> Map.empty" "for_list kernel_exec ops s = Some s'"
  shows "users s' \<noteq> Map.empty"
  using assms
proof (induction ops arbitrary: cb s)
  case (Cons op ops)
  obtain a where a: "kstate (fst cb) (snd cb) a s" using Cons.prems(1) by (auto simp: kholds_def)
  have ok: "op_ok (fst cb) op" using Cons.prems(2) by simp
  obtain s1 where s1: "kernel_exec op s = Some s1" "kholds (grow op cb) s1" using kernel_op [OF a ok] by (auto simp: kholds_def)
  have "users s1 \<noteq> Map.empty"
    by (rule kernel_keeps_users [OF _ _ op_ok_client [OF a ok] s1(1)]) (use a Cons.prems(3,4) in \<open>auto simp: kstate_def\<close>)
  then show ?case using Cons.IH [of "grow op cb" s1] Cons.prems s1 by simp
qed simp

definition test4_ops :: "client_op list" where
  "test4_ops = [Add_reminder user1 ''Buy some food!'' 2, Add_reminder user1 ''Buy some tomaaatos!'' 1, Show_reminders, Timer_tick, Show_reminders,
     Timer_tick, Show_reminders, Add_reminder user1 ''Buy something new, eventyally!'' 4, Show_user_reminders user1, Timer_tick,
     Show_user_reminders user1, Timer_tick, Show_user_reminders user1, Timer_tick, Show_user_reminders user1, Timer_tick]"

lemma for_to_4: "for_to 4 f s = do { s \<leftarrow> f 0 s; s \<leftarrow> f 1 s; s \<leftarrow> f 2 s; f 3 s }"
  by (simp add: eval_nat_numeral)

lemma test4_eq: "test4 s = do { s \<leftarrow> kernel_add_new_user user1 s; for_list kernel_exec test4_ops s }"
  by (simp only: test4_def test4_ops_def for_list.simps kernel_exec.simps Option.bind_assoc Option.bind_lunit Option.bind_runit
      for_to_4)

lemma test4_runs:
  assumes "kholds (0, 0) s"
  shows "\<exists>s'. test4 s = Some s' \<and> reminders s' = Map.empty \<and> (alloc2 s \<longrightarrow> users s' \<noteq> Map.empty)"
proof -
  obtain a where a: "kstate 0 0 a s" using assms by (auto simp: kholds_def)
  obtain s1 where s1: "kernel_add_new_user user1 s = Some s1" "kstate 0 0 (a_exec (alloc2 s) (brk s) (Add_user user1) a) s1"
    using kernel_op [OF a, of "Add_user user1"] by auto
  then have k1: "kholds (0, 0) s1" unfolding kholds_def by auto
  have ok: "ops_ok test4_ops (0, 0)" "fold grow test4_ops (0, 0) = (3, 0)" by (simp_all add: test4_ops_def in_int_def)
  obtain s2 where s2: "for_list kernel_exec test4_ops s1 = Some s2" "kholds (3, 0) s2" by (rule kernel_ops_to [OF k1 ok])
  obtain b where b: "models s2 b" "queue_inv b" "\<forall>x \<in> set (a_queue b). r_time x \<le> 0" using s2(2) by (auto simp: kholds_def kstate_def)
  then have "a_queue b = []" by (cases "a_queue b") (auto simp: queue_inv_def)
  then have "reminders s2 = Map.empty" using b(1) by (auto simp: models_def reminder_objects_def reminder_map_def)
  moreover have "users s2 \<noteq> Map.empty" if "alloc2 s"
  proof (rule kernel_ops_users [OF k1 ok(1) _ _ s2(1)])
    have m1: "models s1 (a_exec (alloc2 s) (brk s) (Add_user user1) a)" using s1(2) by (simp add: kstate_def)
    then have u: "users s1 = user_objects (a_exec (alloc2 s) (brk s) (Add_user user1) a)" by (simp add: models_def)
    have "a_users (a_exec (alloc2 s) (brk s) (Add_user user1) a) \<noteq> []"
      using that by (cases "a_users a") (auto simp: a_add_user_def a_find_def)
    then show "users s1 \<noteq> Map.empty" unfolding u
      by (cases "a_users (a_exec (alloc2 s) (brk s) (Add_user user1) a)") (auto simp: user_objects_def fun_eq_iff)
  qed (simp add: test4_ops_def)
  ultimately show ?thesis using s1(1) s2(1) by (simp add: test4_eq)
qed

text \<open>Whichever allocations fail, loading the module runs its four tests without a fault and fails with -1 as it
  means to; every reminder that was made has been freed.\<close>

theorem kernel_tests_run:
  "\<exists>s. reminder_module_init (init_state\<lparr>oom := bs\<rparr>) = Some (- 1, s) \<and> reminders s = Map.empty"
proof -
  have "kholds (0, 0) (init_state\<lparr>oom := bs\<rparr>)"
    using models_oom [OF init_models, of bs] by (auto simp: kholds_def kstate_def queue_inv_def empty_spec_def)
  then obtain s1 s2 s3 s4 where "test1 (init_state\<lparr>oom := bs\<rparr>) = Some s1" "test2 s1 = Some s2" "test3 s2 = Some s3" "test4 s3 = Some s4"
    "reminders s4 = Map.empty"
    using test1_runs test2_runs test3_runs test4_runs by blast
  then show ?thesis by (simp add: reminder_module_init_def)
qed

text \<open>The user of the last test is not freed when the module fails to load.\<close>

lemma test4_leaks: "\<exists>s'. test4 init_state = Some s' \<and> users s' \<noteq> Map.empty"
proof -
  have "kholds (0, 0) init_state" using init_models by (auto simp: kholds_def kstate_def queue_inv_def empty_spec_def)
  from test4_runs [OF this] show ?thesis by (auto simp: alloc2_def malloc_def init_state_def)
qed

text \<open>The refinement from a state with two users and two reminders.\<close>

lemma kernel_refines_witness: "\<exists>s s' a. kernel_exec Timer_tick s = Some s' \<and> models s' a \<and> reminders s \<noteq> Map.empty"
proof -
  obtain a where a: "models demo_state a" "queue_inv a" using reachable_models [OF demo_reachable] by blast
  have "reminders demo_state 5 \<noteq> None" by code_simp
  then have "reminders demo_state \<noteq> Map.empty" by auto
  with kernel_refines [OF a, of Timer_tick] show ?thesis by auto
qed

end
