(* ===== verification/Gc9a01.thy ===== *)
theory Gc9a01
  imports Fonts
begin

text \<open>
  The display driver of \<^verbatim>\<open>final_task/display_driver\<close>: the drawing routines of
  \<^verbatim>\<open>gc9a01.c\<close> over \<^verbatim>\<open>gpio_module.c\<close> and \<^verbatim>\<open>spi_module.c\<close>. What the driver does to the hardware
  is a list of bus events; the framebuffer is an array of 240 * 240 16-bit pixels, and a
  write outside it is a fault.
\<close>

section \<open>The kernel's side\<close>

text \<open>
  The kernel services are parameters: their results, and the contents of a fresh allocation.
\<close>

record kernel =
  gpio_direction_output :: "nat \<Rightarrow> int"
  gpio_direction_input :: "nat \<Rightarrow> int"
  kernel_gpio_get_value :: "nat \<Rightarrow> int"
  spi_busnum_to_master :: "int \<Rightarrow> bool"
  spi_new_device :: "int \<Rightarrow> int \<Rightarrow> bool"
  spi_sync :: int
  kmalloc :: "(nat \<Rightarrow> 16 word) option"

datatype bus_event =
    Gpio_request nat string
  | Gpio_out nat
  | Gpio_in nat
  | Gpio_set nat nat
  | Gpio_free nat
  | Spi_new int int
  | Spi_unregister
  | Spi_bytes "8 word list"
  | Mdelay nat
  | Kfree

record display =
  frame_buffer :: "(nat \<Rightarrow> 16 word) obj"
  spi_device_master :: "unit obj"
  board_bus_num :: int
  board_chip_select :: int
  bus :: "bus_event list"

definition display_start :: display where
  "display_start = \<lparr>frame_buffer = Absent, spi_device_master = Absent, board_bus_num = 0, board_chip_select = 0, bus = []\<rparr>"

definition emit :: "bus_event \<Rightarrow> display \<Rightarrow> display" where
  "emit e d = d\<lparr>bus := bus d @ [e]\<rparr>"

definition ENODEV :: int where
  "ENODEV = 19"

section \<open>\<^verbatim>\<open>gpio_module.c\<close>\<close>

definition format_gpio :: "nat \<Rightarrow> string" where
  "format_gpio gpio = take 63 (''GPIO_'' @ dec gpio)"

definition gpio_module_init_out :: "kernel \<Rightarrow> nat \<Rightarrow> display \<Rightarrow> int \<times> display" where
  "gpio_module_init_out k gpio d =
     (gpio_direction_output k gpio, emit (Gpio_out gpio) (emit (Gpio_request gpio (format_gpio gpio)) d))"

definition gpio_module_init_in :: "kernel \<Rightarrow> nat \<Rightarrow> display \<Rightarrow> int \<times> display" where
  "gpio_module_init_in k gpio d =
     (gpio_direction_input k gpio, emit (Gpio_in gpio) (emit (Gpio_request gpio (format_gpio gpio)) d))"

definition gpio_module_free :: "nat \<Rightarrow> display \<Rightarrow> display" where
  "gpio_module_free gpio d = emit (Gpio_free gpio) d"

definition gpio_module_set_value :: "nat \<Rightarrow> nat \<Rightarrow> display \<Rightarrow> display" where
  "gpio_module_set_value gpio value d = emit (Gpio_set gpio value) d"

definition gpio_module_get_value :: "kernel \<Rightarrow> nat \<Rightarrow> int" where
  "gpio_module_get_value k gpio = kernel_gpio_get_value k gpio"

section \<open>\<^verbatim>\<open>spi_module.c\<close>\<close>

definition init_spi_wrapper :: "kernel \<Rightarrow> int \<Rightarrow> int \<Rightarrow> display \<Rightarrow> int \<times> display" where
  "init_spi_wrapper k spi_bus_index chip_select_index d =
     (let d = d\<lparr>board_bus_num := spi_bus_index, board_chip_select := chip_select_index\<rparr> in
      if \<not> spi_busnum_to_master k spi_bus_index then (- ENODEV, d)
      else let d = emit (Spi_new spi_bus_index chip_select_index) d in
        if \<not> spi_new_device k spi_bus_index chip_select_index
        then (- ENODEV, d\<lparr>spi_device_master := Absent\<rparr>)
        else (0, d\<lparr>spi_device_master := Live ()\<rparr>))"

definition spi_wrapper_write :: "kernel \<Rightarrow> 8 word list \<Rightarrow> display \<Rightarrow> (int \<times> display) option" where
  "spi_wrapper_write k tx_buffer d = (case spi_device_master d of
     Absent \<Rightarrow> Some (- 1, d)
   | Freed \<Rightarrow> None
   | Live _ \<Rightarrow> Some (spi_sync k, emit (Spi_bytes tx_buffer) d))"

definition deinit_spi_wrapper :: "display \<Rightarrow> display option" where
  "deinit_spi_wrapper d = (case spi_device_master d of
     Absent \<Rightarrow> Some d
   | Freed \<Rightarrow> None
   | Live _ \<Rightarrow> Some (emit Spi_unregister d\<lparr>spi_device_master := Freed\<rparr>))"

section \<open>Commands and data\<close>

definition GPIO_PIN_RESET :: nat where "GPIO_PIN_RESET = 27"
definition GPIO_PIN_DC :: nat where "GPIO_PIN_DC = 22"
definition LCD_WIDTH :: nat where "LCD_WIDTH = 240"
definition LCD_HEIGHT :: nat where "LCD_HEIGHT = 240"
definition COLOR_BLACK :: "16 word" where "COLOR_BLACK = 0x0000"
definition COLOR_BLUE :: "16 word" where "COLOR_BLUE = 0x001F"
definition COLOR_RED :: "16 word" where "COLOR_RED = 0xF800"
definition COLOR_GREEN :: "16 word" where "COLOR_GREEN = 0x07E0"

definition lcd_write_command :: "kernel \<Rightarrow> 8 word \<Rightarrow> display \<Rightarrow> display option" where
  "lcd_write_command k cmd d = do {
     (_, d) \<leftarrow> spi_wrapper_write k [cmd] (gpio_module_set_value GPIO_PIN_DC 0 d);
     Some d }"

definition lcd_write_data :: "kernel \<Rightarrow> 8 word list \<Rightarrow> display \<Rightarrow> display option" where
  "lcd_write_data k buff d = do {
     (_, d) \<leftarrow> spi_wrapper_write k buff (gpio_module_set_value GPIO_PIN_DC 1 d);
     Some d }"

text \<open>
  The initialisation table: for each of the 59 transactions a command, the number of its
  arguments, a delay in milliseconds, and the arguments.
\<close>

definition Commands :: "8 word list" where
  "Commands = [
     0xFE, 0, 0,
     0xEF, 0, 0,
     0xEB, 1, 0, 0x14,
     0xFE, 0, 0,
     0xEF, 0, 0,
     0xEB, 1, 0, 0x14,
     0xFE, 0, 0,
     0xEF, 0, 0,
     0xEB, 1, 0, 0x14,
     0xFE, 0, 0,
     0xEF, 0, 0,
     0x84, 1, 0, 0x40,
     0x85, 1, 0, 0xF1,
     0x86, 1, 0, 0x98,
     0x87, 1, 0, 0x28,
     0x88, 1, 0, 0x0A,
     0x89, 1, 0, 0x21,
     0x8A, 1, 0, 0x00,
     0x8B, 1, 0, 0x80,
     0x8C, 1, 0, 0x01,
     0x8D, 1, 0, 0x00,
     0x8E, 1, 0, 0xDF,
     0x8F, 1, 0, 0x52,
     0xB6, 1, 0, 0x20,
     0x36, 1, 0, 0x48,
     0x3A, 1, 0, 0x05,
     0x90, 4, 0, 0x08, 0x08, 0x08, 0x08,
     0xBD, 1, 0, 0x06,
     0xA6, 1, 0, 0x74,
     0xBF, 1, 0, 0x1C,
     0xA7, 1, 0, 0x45,
     0xA9, 1, 0, 0xBB,
     0xB8, 1, 0, 0x63,
     0xE8, 1, 0, 0x34,
     0xFF, 3, 0, 0x60, 0x01, 0x04,
     0x74, 7, 0, 0x10, 0x75, 0x80, 0x00, 0x00, 0x4E, 0x00,
     0xC3, 5, 0, 0x14, 0xC4, 0x14, 0xC9, 0x25,
     0xBE, 1, 0, 0x11,
     0xBC, 1, 0, 0x00,
     0xE1, 2, 0, 0x10, 0x0e,
     0xDF, 3, 0, 0x21, 0x0c, 0x02,
     0xED, 2, 0, 0x1B, 0x0B,
     0xAE, 5, 0, 0x77, 0xCB, 0x02, 0xCD, 0x63,
     0x70, 9, 0, 0x07, 0x09, 0x04, 0x0e, 0x0f, 0x09, 0x07, 0x08, 0x03,
     0xf0, 6, 0, 0x45, 0x09, 0x08, 0x08, 0x26, 0x2a,
     0xf1, 6, 0, 0x43, 0x70, 0x72, 0x36, 0x37, 0x6f,
     0xf2, 6, 0, 0x45, 0x09, 0x08, 0x08, 0x26, 0x2a,
     0xf3, 6, 0, 0x43, 0x70, 0x72, 0x36, 0x37, 0x6f,
     0x62, 12, 0, 0x18, 0x0d, 0x71, 0xED, 0x70, 0x70, 0x18, 0x0F, 0x71, 0xEF, 0x70, 0x70,
     0x63, 12, 0, 0x18, 0x11, 0x71, 0xf1, 0x70, 0x70, 0x18, 0x13, 0x71, 0xf3, 0x70, 0x70,
     0x64, 7, 0, 0x28, 0x29, 0xF1, 0x01, 0xf1, 0x00, 0x07,
     0x66, 10, 0, 0x3c, 0x00, 0xCD, 0x67, 0x45, 0x45, 0x10, 0x00, 0x00, 0x00,
     0x67, 10, 0, 0x00, 0x3c, 0x00, 0x00, 0x00, 0x01, 0x54, 0x10, 0x32, 0x98,
     0x74, 7, 0, 0x10, 0x85, 0x80, 0x00, 0x00, 0x4e, 0x00,
     0x98, 2, 0, 0x3e, 0x07,
     0x35, 0, 0,
     0x21, 0, 0,
     0x11, 0, 120,
     0x29, 0, 120]"

definition COMMANDS_TRANSACTIONS_COUNT :: nat where
  "COMMANDS_TRANSACTIONS_COUNT = 59"

text \<open>
  The loop of \<open>init_display_internal\<close>: \<open>pBuffer\<close> is the rest of the table, and reading
  past its end is a fault. \<open>CommandCount\<close> transactions are sent; the rest is returned.
\<close>

fun send_transactions :: "kernel \<Rightarrow> nat \<Rightarrow> 8 word list \<Rightarrow> display \<Rightarrow> (8 word list \<times> display) option" where
  "send_transactions k 0 pBuffer d = Some (pBuffer, d)"
| "send_transactions k (Suc n) (Command # NumArgs # Delay # pBuffer) d =
     (if length pBuffer < unat NumArgs then None
      else do {
        d \<leftarrow> lcd_write_command k Command d;
        d \<leftarrow> (if NumArgs \<noteq> 0 then lcd_write_data k (take (unat NumArgs) pBuffer) d else Some d);
        send_transactions k n (drop (unat NumArgs) pBuffer) (if Delay \<noteq> 0 then emit (Mdelay (unat Delay)) d else d) })"
| "send_transactions k (Suc n) _ d = None"

definition init_display_internal :: "kernel \<Rightarrow> display \<Rightarrow> display option" where
  "init_display_internal k d = do {
     (_, d) \<leftarrow> send_transactions k COMMANDS_TRANSACTIONS_COUNT Commands d;
     Some d }"

definition hi_byte :: "16 word \<Rightarrow> 8 word" where "hi_byte v = ucast (drop_bit 8 v)"
definition lo_byte :: "16 word \<Rightarrow> 8 word" where "lo_byte v = ucast v"

definition lcd_set_address_window :: "kernel \<Rightarrow> 16 word \<Rightarrow> 16 word \<Rightarrow> 16 word \<Rightarrow> 16 word \<Rightarrow> display \<Rightarrow> display option" where
  "lcd_set_address_window k x0 y0 x1 y1 d = do {
     d \<leftarrow> lcd_write_command k 0x2a d;
     d \<leftarrow> lcd_write_data k [hi_byte x0, lo_byte x0, hi_byte x1, lo_byte x1] d;
     d \<leftarrow> lcd_write_command k 0x2b d;
     d \<leftarrow> lcd_write_data k [hi_byte y0, lo_byte y0, hi_byte y1, lo_byte y1] d;
     lcd_write_command k 0x2C d }"

section \<open>The framebuffer\<close>

definition fb_size :: nat where "fb_size = LCD_WIDTH * LCD_HEIGHT"

definition fb_store :: "nat \<Rightarrow> 16 word \<Rightarrow> display \<Rightarrow> display option" where
  "fb_store i v d = (case frame_buffer d of
     Live b \<Rightarrow> if i < fb_size then Some (d\<lparr>frame_buffer := Live (b(i := v))\<rparr>) else None
   | _ \<Rightarrow> None)"

text \<open>The bytes of the framebuffer in memory order on the little-endian target.\<close>

definition fb_bytes :: "(nat \<Rightarrow> 16 word) \<Rightarrow> 8 word list" where
  "fb_bytes b = concat (map (\<lambda>i. [lo_byte (b i), hi_byte (b i)]) [0..<fb_size])"

definition lcd_update_screen :: "kernel \<Rightarrow> display \<Rightarrow> display option" where
  "lcd_update_screen k d = (case frame_buffer d of
     Live b \<Rightarrow> lcd_write_data k (fb_bytes b) d
   | _ \<Rightarrow> None)"

unbundle bit_operations_syntax

definition swap_bytes :: "16 word \<Rightarrow> 16 word" where
  "swap_bytes color = drop_bit 8 color OR push_bit 8 color"

definition lcd_draw_pixel :: "kernel \<Rightarrow> 16 word \<Rightarrow> 16 word \<Rightarrow> 16 word \<Rightarrow> display \<Rightarrow> display option" where
  "lcd_draw_pixel k x y color d =
     (if LCD_WIDTH \<le> unat x \<or> LCD_HEIGHT \<le> unat y then Some d
      else do {
        d \<leftarrow> fb_store (unat x + LCD_WIDTH * unat y) (swap_bytes color) d;
        lcd_update_screen k d })"

definition lcd_fill_rectangle :: "kernel \<Rightarrow> 16 word \<Rightarrow> 16 word \<Rightarrow> 16 word \<Rightarrow> 16 word \<Rightarrow> 16 word \<Rightarrow> display \<Rightarrow> display option" where
  "lcd_fill_rectangle k x y w h color d =
     (if LCD_WIDTH \<le> unat x \<or> LCD_HEIGHT \<le> unat y then Some d
      else
        let w = (if uint x + uint w - 1 > int LCD_WIDTH then of_nat LCD_WIDTH - x else w);
            h = (if uint y + uint h - 1 > int LCD_HEIGHT then of_nat LCD_HEIGHT - y else h)
        in do {
          d \<leftarrow> for_to (unat h) (\<lambda>j. for_to (unat w) (\<lambda>i.
                 fb_store ((unat x + LCD_WIDTH * unat y) + (i + LCD_WIDTH * j)) (swap_bytes color))) d;
          lcd_update_screen k d })"

definition lcd_fill_screen :: "kernel \<Rightarrow> 16 word \<Rightarrow> display \<Rightarrow> display option" where
  "lcd_fill_screen k color d = lcd_fill_rectangle k 0 0 (of_nat LCD_WIDTH - 1) (of_nat LCD_HEIGHT - 1) color d"

section \<open>Text\<close>

text \<open>
  A \<open>char\<close> is unsigned on the target; on a target where it is signed the codes from 128 on
  are negative, and the read of the glyph faults all the same.
\<close>

definition font_row :: "FontDef \<Rightarrow> int \<Rightarrow> 16 word option" where
  "font_row f i = (if 0 \<le> i \<and> nat i < length (data f) then Some (data f ! nat i) else None)"

definition lcd_put_char :: "16 word \<Rightarrow> 16 word \<Rightarrow> char \<Rightarrow> FontDef \<Rightarrow> 16 word \<Rightarrow> 16 word \<Rightarrow> display \<Rightarrow> display option" where
  "lcd_put_char x y ch font color bgcolor d =
     for_to (unat (height font)) (\<lambda>i d. do {
       row \<leftarrow> font_row font ((of_char ch - 32) * uint (height font) + int i);
       let b = (ucast row :: 32 word);
       for_to (unat (width font)) (\<lambda>j.
         fb_store ((unat x + LCD_WIDTH * unat y) + (j + LCD_WIDTH * i))
           (if push_bit j b AND 0x8000 \<noteq> 0 then swap_bytes color else swap_bytes bgcolor)) d }) d"

fun put_string_from :: "FontDef \<Rightarrow> 16 word \<Rightarrow> 16 word \<Rightarrow> 16 word \<Rightarrow> string \<Rightarrow> 16 word \<Rightarrow> 16 word \<Rightarrow> display \<Rightarrow> display option" where
  "put_string_from font x color bgcolor [] local_x local_y d = Some d"
| "put_string_from font x color bgcolor (c # cs) local_x local_y d =
     (let move_to_next_line = uint local_x + uint (width font) > int LCD_WIDTH;
          stop_drawing = uint local_y + uint (height font) > int LCD_HEIGHT in
      if stop_drawing then Some d
      else
        let local_y = (if move_to_next_line then local_y + ucast (height font) else local_y);
            local_x = (if move_to_next_line then x else local_x) in do {
          d \<leftarrow> lcd_put_char local_x local_y c font color bgcolor d;
          put_string_from font x color bgcolor cs (local_x + ucast (width font)) local_y d })"

definition lcd_put_string :: "string \<Rightarrow> 16 word \<Rightarrow> 16 word \<Rightarrow> FontDef \<Rightarrow> 16 word \<Rightarrow> 16 word \<Rightarrow> display \<Rightarrow> display option" where
  "lcd_put_string str x y font color bgcolor d = put_string_from font x color bgcolor str x y d"

section \<open>Starting and stopping\<close>

definition lcd_reset :: "display \<Rightarrow> display" where
  "lcd_reset d = gpio_module_set_value GPIO_PIN_RESET 1 (emit (Mdelay 5000) (gpio_module_set_value GPIO_PIN_RESET 0 d))"

definition init_display :: "kernel \<Rightarrow> int \<Rightarrow> int \<Rightarrow> display \<Rightarrow> (int \<times> display) option" where
  "init_display k spi_module_index chip_select d =
     (let (_, d) = gpio_module_init_out k GPIO_PIN_RESET d;
          (_, d) = gpio_module_init_out k GPIO_PIN_DC d;
          d = lcd_reset d;
          (r, d) = init_spi_wrapper k spi_module_index chip_select d in
      if r \<noteq> 0 then Some (- 1, d)
      else case kmalloc k of
        None \<Rightarrow> Some (- 1, d\<lparr>frame_buffer := Absent\<rparr>)
      | Some b \<Rightarrow> do {
          d \<leftarrow> init_display_internal k (d\<lparr>frame_buffer := Live b\<rparr>);
          Some (0, d) })"

definition lcd_deinit :: "display \<Rightarrow> display option" where
  "lcd_deinit d = do {
     d \<leftarrow> (case frame_buffer d of
        Absent \<Rightarrow> Some d
      | Freed \<Rightarrow> None
      | Live _ \<Rightarrow> Some (emit Kfree d\<lparr>frame_buffer := Freed\<rparr>));
     d \<leftarrow> deinit_spi_wrapper d;
     Some (gpio_module_free GPIO_PIN_DC (gpio_module_free GPIO_PIN_RESET d)) }"

definition get_framebuffer_size :: nat where
  "get_framebuffer_size = fb_size * 2"

end
