(* ===== verification/Gc9a01Spec.thy ===== *)
theory Gc9a01Spec
  imports Gc9a01
begin

text \<open>
  What the display driver draws and sends: the initialisation sequence, and the effect of every
  drawing routine on the pixels, with the conditions under which it stays in the framebuffer.
\<close>

section \<open>The bus\<close>

text \<open>With the SPI device present, a command or a block of data is one transfer.\<close>

definition ready :: "display \<Rightarrow> bool" where
  "ready d \<longleftrightarrow> spi_device_master d = Live ()"

definition command_events :: "8 word \<Rightarrow> bus_event list" where
  "command_events c = [Gpio_set GPIO_PIN_DC 0, Spi_bytes [c]]"

definition data_events :: "8 word list \<Rightarrow> bus_event list" where
  "data_events bs = [Gpio_set GPIO_PIN_DC 1, Spi_bytes bs]"

lemma lcd_write_command_ready:
  "ready d \<Longrightarrow> lcd_write_command k c d = Some (d\<lparr>bus := bus d @ command_events c\<rparr>)"
  by (simp add: lcd_write_command_def spi_wrapper_write_def gpio_module_set_value_def emit_def ready_def command_events_def)

lemma lcd_write_data_ready:
  "ready d \<Longrightarrow> lcd_write_data k bs d = Some (d\<lparr>bus := bus d @ data_events bs\<rparr>)"
  by (simp add: lcd_write_data_def spi_wrapper_write_def gpio_module_set_value_def emit_def ready_def data_events_def)

lemma ready_bus [simp]: "ready (d\<lparr>bus := b\<rparr>) = ready d"
  by (simp add: ready_def)

lemma ready_frame_buffer [simp]: "ready (d\<lparr>frame_buffer := b\<rparr>) = ready d"
  by (simp add: ready_def)

section \<open>The initialisation table\<close>

text \<open>The table as a list of transactions; \<open>None\<close> when it ends inside one.\<close>

fun decode_table :: "nat \<Rightarrow> 8 word list \<Rightarrow> (8 word \<times> 8 word list \<times> nat) list option" where
  "decode_table 0 bs = (if bs = [] then Some [] else None)"
| "decode_table (Suc n) (c # a # t # bs) = (if length bs < unat a then None
     else do { rest \<leftarrow> decode_table n (drop (unat a) bs); Some ((c, take (unat a) bs, unat t) # rest) })"
| "decode_table (Suc n) _ = None"

definition transaction_events :: "8 word \<times> 8 word list \<times> nat \<Rightarrow> bus_event list" where
  "transaction_events = (\<lambda>(c, args, t). command_events c @ (if args = [] then [] else data_events args) @
     (if t = 0 then [] else [Mdelay t]))"

lemma send_transactions_decode:
  assumes "decode_table n bs = Some ts" "ready d"
  shows "send_transactions k n bs d = Some ([], d\<lparr>bus := bus d @ concat (map transaction_events ts)\<rparr>)"
  using assms
proof (induction n bs arbitrary: ts d rule: decode_table.induct)
  case (1 bs)
  then show ?case by (auto split: if_splits)
next
  case (2 n c a t bs)
  from "2.prems" obtain rest where rest: "\<not> length bs < unat a" "decode_table n (drop (unat a) bs) = Some rest"
    "ts = (c, take (unat a) bs, unat t) # rest"
    by (auto simp: bind_eq_Some_conv split: if_splits)
  have a: "a = 0 \<longleftrightarrow> take (unat a) bs = []" using rest(1) by (auto simp: unat_eq_0)
  have t: "t = 0 \<longleftrightarrow> unat t = 0" by (simp add: unat_eq_0)
  show ?case
    using rest "2.prems"(2) "2.IH" [OF rest(1,2)]
    by (simp add: lcd_write_command_ready lcd_write_data_ready transaction_events_def emit_def a t)
qed auto

definition init_sequence :: "(8 word \<times> 8 word list \<times> nat) list" where
  "init_sequence = the (decode_table COMMANDS_TRANSACTIONS_COUNT Commands)"

lemma decode_Commands: "decode_table COMMANDS_TRANSACTIONS_COUNT Commands = Some init_sequence"
proof -
  have "decode_table COMMANDS_TRANSACTIONS_COUNT Commands \<noteq> None" by code_simp
  then show ?thesis by (auto simp: init_sequence_def)
qed

lemma init_display_internal_ready:
  "ready d \<Longrightarrow> init_display_internal k d = Some (d\<lparr>bus := bus d @ concat (map transaction_events init_sequence)\<rparr>)"
  using send_transactions_decode [OF decode_Commands, of d k] by (simp add: init_display_internal_def)

section \<open>Pixels\<close>

definition pixel :: "display \<Rightarrow> nat \<Rightarrow> nat \<Rightarrow> 16 word" where
  "pixel d x y = (case frame_buffer d of Live b \<Rightarrow> b (x + LCD_WIDTH * y) | _ \<Rightarrow> 0)"

definition has_frame :: "display \<Rightarrow> bool" where
  "has_frame d \<longleftrightarrow> (\<exists>b. frame_buffer d = Live b)"

lemma has_frameE:
  assumes "has_frame d"
  obtains b where "frame_buffer d = Live b"
  using assms by (auto simp: has_frame_def)

lemma pixel_index_inj:
  assumes "x < LCD_WIDTH" "x' < LCD_WIDTH"
  shows "x + LCD_WIDTH * y = x' + LCD_WIDTH * y' \<longleftrightarrow> x = x' \<and> y = y'"
proof
  assume e: "x + LCD_WIDTH * y = x' + LCD_WIDTH * y'"
  from arg_cong [OF e, of "\<lambda>n. n mod LCD_WIDTH"] assms have "x = x'" by simp
  with e show "x = x' \<and> y = y'" by (simp add: LCD_WIDTH_def)
qed simp

lemma pixel_index_bound: "x < LCD_WIDTH \<Longrightarrow> y < LCD_HEIGHT \<Longrightarrow> x + LCD_WIDTH * y < fb_size"
  by (simp add: fb_size_def LCD_WIDTH_def LCD_HEIGHT_def)

lemma fb_store_pixel:
  assumes "has_frame d" "x < LCD_WIDTH" "y < LCD_HEIGHT"
  shows "\<exists>d'. fb_store (x + LCD_WIDTH * y) v d = Some d' \<and> has_frame d' \<and>
    (\<forall>px < LCD_WIDTH. \<forall>py. pixel d' px py = (if px = x \<and> py = y then v else pixel d px py)) \<and>
    spi_device_master d' = spi_device_master d \<and> bus d' = bus d"
  using assms pixel_index_inj [OF _ assms(2)] pixel_index_bound [OF assms(2,3)]
  by (auto simp: has_frame_def fb_store_def pixel_def)

lemma fb_store_fault: "fb_size \<le> i \<Longrightarrow> fb_store i v d = None"
  by (auto simp: fb_store_def split: obj.split)

text \<open>Drawing a block of pixels, row by row.\<close>

definition same_device :: "display \<Rightarrow> display \<Rightarrow> bool" where
  "same_device d d' \<longleftrightarrow> spi_device_master d' = spi_device_master d \<and> bus d' = bus d"

lemma block_store:
  assumes f: "has_frame d" and x: "x + w \<le> LCD_WIDTH" and y: "y + h \<le> LCD_HEIGHT"
    and row: "\<And>j d. j < h \<Longrightarrow> row j d = for_to w (\<lambda>i. fb_store ((x + LCD_WIDTH * y) + (i + LCD_WIDTH * j)) (c i j)) d"
  shows "\<exists>d'. for_to h row d = Some d' \<and> has_frame d' \<and> same_device d d' \<and>
    (\<forall>px < LCD_WIDTH. \<forall>py. pixel d' px py =
      (if x \<le> px \<and> px < x + w \<and> y \<le> py \<and> py < y + h then c (px - x) (py - y) else pixel d px py))"
proof -
  let ?in = "\<lambda>j i px py. x \<le> px \<and> px < x + w \<and> y \<le> py \<and> (py < y + j \<or> py = y + j \<and> px < x + i)"
  let ?I = "\<lambda>j i d'. has_frame d' \<and> same_device d d' \<and> (\<forall>px < LCD_WIDTH. \<forall>py. pixel d' px py =
      (if ?in j i px py then c (px - x) (py - y) else pixel d px py))"
  have "\<exists>d'. for_to h row d = Some d' \<and> ?I h 0 d'"
  proof (rule for_to_rule [where I = "\<lambda>j. ?I j 0"])
    fix j d1 assume j: "j < h" and I: "?I j 0 d1"
    have "\<exists>d'. for_to w (\<lambda>i. fb_store ((x + LCD_WIDTH * y) + (i + LCD_WIDTH * j)) (c i j)) d1 = Some d' \<and> ?I j w d'"
    proof (rule for_to_rule [where I = "\<lambda>i. ?I j i"])
      fix i d2 assume i: "i < w" and I: "?I j i d2"
      have e: "(x + LCD_WIDTH * y) + (i + LCD_WIDTH * j) = (x + i) + LCD_WIDTH * (y + j)"
        by (simp add: algebra_simps)
      from fb_store_pixel [of d2 "x + i" "y + j" "c i j"] I i j x y obtain d3 where
        d3: "fb_store ((x + i) + LCD_WIDTH * (y + j)) (c i j) d2 = Some d3" "has_frame d3"
        "\<forall>px < LCD_WIDTH. \<forall>py. pixel d3 px py = (if px = x + i \<and> py = y + j then c i j else pixel d2 px py)"
        "spi_device_master d3 = spi_device_master d2" "bus d3 = bus d2" by auto
      have "pixel d3 px py = (if ?in j (Suc i) px py then c (px - x) (py - y) else pixel d px py)"
        if "px < LCD_WIDTH" for px py
      proof (cases "px = x + i \<and> py = y + j")
        case True
        with d3(3) that i show ?thesis by simp
      next
        case False
        then have "?in j (Suc i) px py \<longleftrightarrow> ?in j i px py" by auto
        moreover have "pixel d3 px py = pixel d2 px py" using d3(3) that False by auto
        ultimately show ?thesis using I that by simp
      qed
      then have p: "\<forall>px < LCD_WIDTH. \<forall>py. pixel d3 px py = (if ?in j (Suc i) px py then c (px - x) (py - y) else pixel d px py)"
        by blast
      have "same_device d d3" using d3(4,5) I by (simp add: same_device_def)
      with d3(2) p have "?I j (Suc i) d3" by blast
      with d3(1) show "\<exists>s'. fb_store ((x + LCD_WIDTH * y) + (i + LCD_WIDTH * j)) (c i j) d2 = Some s' \<and> ?I j (Suc i) s'"
        unfolding e by blast
    qed (use I in auto)
    then have "\<exists>d2. row j d1 = Some d2 \<and> ?I j w d2" by (simp only: row [OF j])
    then obtain d2 where d2: "row j d1 = Some d2" "?I j w d2" by (elim exE conjE) (rule that, blast+)
    have in_eq: "?in j w px py = ?in (Suc j) 0 px py" for px py by auto
    have "?I (Suc j) 0 d2" using d2(2) unfolding in_eq .
    with d2(1) show "\<exists>s'. row j d1 = Some s' \<and> ?I (Suc j) 0 s'" by blast
  qed (use f in \<open>auto simp: same_device_def\<close>)
  moreover have in_eq: "?in h 0 px py = (x \<le> px \<and> px < x + w \<and> y \<le> py \<and> py < y + h)" for px py by auto
  ultimately show ?thesis unfolding in_eq by blast
qed
unbundle bit_operations_syntax

section \<open>Rectangles\<close>

lemma for_to_fault:
  assumes "for_to m f s = Some s'" "f m s' = None" "m < n"
  shows "for_to n f s = None"
proof -
  have "for_to (Suc m + k) f s = None" for k using assms(1,2) by (induction k) auto
  from this [of "n - Suc m"] assms(3) show ?thesis by simp
qed

lemma for_to_fault_first: "f 0 s = None \<Longrightarrow> 0 < n \<Longrightarrow> for_to n f s = None"
  using for_to_fault [of 0 f s s n] by simp

definition clip :: "nat \<Rightarrow> nat \<Rightarrow> nat \<Rightarrow> nat" where
  "clip limit p l = (if p + l > limit + 1 then limit - p else l)"

lemma clip_word:
  fixes p l :: "16 word"
  assumes "unat p < N" "N \<le> 60000"
  shows "unat (if uint p + uint l - 1 > int N then of_nat N - p else l) = clip N (unat p) (unat l)"
proof -
  have c: "uint p + uint l - 1 > int N \<longleftrightarrow> unat p + unat l > N + 1"
    unfolding uint_nat by linarith
  have n: "unat (of_nat N :: 16 word) = N" using assms(2) by (simp add: unat_of_nat)
  then have "p \<le> of_nat N" using assms(1) by (simp add: word_le_nat_alt)
  then have "unat (of_nat N - p) = N - unat p" using n by (simp add: unat_sub)
  then show ?thesis unfolding c clip_def by auto
qed

lemma lcd_update_screen_ready:
  assumes "ready d" "frame_buffer d = Live b"
  shows "lcd_update_screen k d = Some (d\<lparr>bus := bus d @ data_events (fb_bytes b)\<rparr>)"
  using assms by (simp add: lcd_update_screen_def lcd_write_data_ready)

lemma pixel_bus [simp]: "pixel (d\<lparr>bus := b\<rparr>) = pixel d"
  by (simp add: pixel_def fun_eq_iff)

lemma has_frame_bus [simp]: "has_frame (d\<lparr>bus := b\<rparr>) = has_frame d"
  by (simp add: has_frame_def)

lemma same_device_ready: "same_device d d' \<Longrightarrow> ready d' = ready d"
  by (simp add: same_device_def ready_def)

lemma fill_rectangle_clip:
  assumes "unat x < LCD_WIDTH" "unat y < LCD_HEIGHT"
  shows "lcd_fill_rectangle k x y w h color d = do {
    d \<leftarrow> for_to (clip LCD_HEIGHT (unat y) (unat h)) (\<lambda>j. for_to (clip LCD_WIDTH (unat x) (unat w)) (\<lambda>i.
      fb_store ((unat x + LCD_WIDTH * unat y) + (i + LCD_WIDTH * j)) (swap_bytes color))) d;
    lcd_update_screen k d }"
proof -
  have "LCD_WIDTH \<le> 60000" "LCD_HEIGHT \<le> 60000" by (simp_all add: LCD_WIDTH_def LCD_HEIGHT_def)
  note c = clip_word [OF assms(1) this(1), of w] clip_word [OF assms(2) this(2), of h]
  have "\<not> (LCD_WIDTH \<le> unat x \<or> LCD_HEIGHT \<le> unat y)" using assms by simp
  then show ?thesis by (simp only: lcd_fill_rectangle_def Let_def c if_False)
qed

lemma fill_rectangle_draws:
  assumes d: "ready d" "has_frame d" and xy: "unat x < LCD_WIDTH" "unat y < LCD_HEIGHT"
    and w: "unat x + unat w \<noteq> LCD_WIDTH + 1" "unat y + unat h \<noteq> LCD_HEIGHT + 1"
  shows "\<exists>d'. lcd_fill_rectangle k x y w h color d = Some d' \<and> ready d' \<and> has_frame d' \<and>
    (\<forall>px < LCD_WIDTH. \<forall>py < LCD_HEIGHT. pixel d' px py =
      (if unat x \<le> px \<and> px < unat x + unat w \<and> unat y \<le> py \<and> py < unat y + unat h
       then swap_bytes color else pixel d px py))"
proof -
  let ?w = "clip LCD_WIDTH (unat x) (unat w)" and ?h = "clip LCD_HEIGHT (unat y) (unat h)"
  have b: "unat x + ?w \<le> LCD_WIDTH" "unat y + ?h \<le> LCD_HEIGHT" using xy w by (auto simp: clip_def)
  have e: "px < LCD_WIDTH \<Longrightarrow> px < unat x + ?w \<longleftrightarrow> px < unat x + unat w"
    "py < LCD_HEIGHT \<Longrightarrow> py < unat y + ?h \<longleftrightarrow> py < unat y + unat h" for px py
    using xy w by (auto simp: clip_def)
  from block_store [OF d(2) b, where c = "\<lambda>_ _. swap_bytes color", OF refl] obtain d1 where d1:
    "for_to ?h (\<lambda>j. for_to ?w (\<lambda>i. fb_store ((unat x + LCD_WIDTH * unat y) + (i + LCD_WIDTH * j)) (swap_bytes color))) d = Some d1"
    "has_frame d1" "same_device d d1"
    "\<forall>px < LCD_WIDTH. \<forall>py. pixel d1 px py = (if unat x \<le> px \<and> px < unat x + ?w \<and> unat y \<le> py \<and> py < unat y + ?h
      then swap_bytes color else pixel d px py)" by auto
  obtain b1 where b1: "frame_buffer d1 = Live b1" using d1(2) by (rule has_frameE)
  have r1: "ready d1" using d(1) same_device_ready [OF d1(3)] by simp
  have "lcd_fill_rectangle k x y w h color d = Some (d1\<lparr>bus := bus d1 @ data_events (fb_bytes b1)\<rparr>)"
    by (simp add: fill_rectangle_clip [OF xy] d1(1) lcd_update_screen_ready [OF r1 b1])
  with d1(2,4) r1 e show ?thesis by simp
qed

lemma fill_rectangle_outside:
  "LCD_WIDTH \<le> unat x \<or> LCD_HEIGHT \<le> unat y \<Longrightarrow> lcd_fill_rectangle k x y w h color d = Some d"
  by (simp add: lcd_fill_rectangle_def)

text \<open>One row too many is a write past the end.\<close>

lemma fill_rectangle_overflow:
  assumes d: "has_frame d" and xy: "unat x < LCD_WIDTH" "unat y < LCD_HEIGHT"
    and w: "0 < unat w" "unat x + unat w \<le> LCD_WIDTH" "unat y + unat h = LCD_HEIGHT + 1"
  shows "lcd_fill_rectangle k x y w h color d = None"
proof -
  let ?row = "\<lambda>j. for_to (unat w) (\<lambda>i. fb_store ((unat x + LCD_WIDTH * unat y) + (i + LCD_WIDTH * j)) (swap_bytes color))"
  let ?m = "LCD_HEIGHT - unat y"
  have m: "unat y + ?m \<le> LCD_HEIGHT" using xy by simp
  from block_store [OF d w(2) m, where c = "\<lambda>_ _. swap_bytes color", OF refl] obtain d1 where
    d1: "for_to ?m ?row d = Some d1" by auto
  have "fb_size \<le> (unat x + LCD_WIDTH * unat y) + (0 + LCD_WIDTH * ?m)"
    using xy by (simp add: fb_size_def add.assoc flip: add_mult_distrib2)
  then have "?row ?m d1 = None" using w(1) by (intro for_to_fault_first) (simp_all add: fb_store_fault)
  from for_to_fault [where f = ?row, OF d1 this, of "unat h"] w xy show ?thesis
    by (simp add: fill_rectangle_clip [OF xy] clip_def)
qed

text \<open>One column too many lands in the next row.\<close>

lemma fill_rectangle_spill:
  assumes d: "ready d" "has_frame d" and xy: "unat x < LCD_WIDTH" "unat y + 1 < LCD_HEIGHT"
    and w: "unat x + unat w = LCD_WIDTH + 1" and h: "unat h = 1"
  shows "\<exists>d'. lcd_fill_rectangle k x y w h color d = Some d' \<and> pixel d' 0 (unat y + 1) = swap_bytes color"
proof -
  let ?st = "\<lambda>i. fb_store ((unat x + LCD_WIDTH * unat y) + (i + LCD_WIDTH * 0)) (swap_bytes color)"
  have y: "unat y < LCD_HEIGHT" "unat y + 1 \<le> LCD_HEIGHT" using xy(2) by simp_all
  let ?n = "LCD_WIDTH - unat x"
  have n: "unat w = Suc ?n" "unat x + ?n \<le> LCD_WIDTH" using xy(1) w by simp_all
  from block_store [OF d(2) n(2) y(2), where c = "\<lambda>_ _. swap_bytes color", OF refl] obtain d1 where
    d1: "for_to ?n ?st d = Some d1" "has_frame d1" "same_device d d1" by auto
  have i: "(unat x + LCD_WIDTH * unat y) + (?n + LCD_WIDTH * 0) = 0 + LCD_WIDTH * (unat y + 1)"
    using xy(1) by (simp add: algebra_simps)
  have "0 < LCD_WIDTH" by (simp add: LCD_WIDTH_def)
  from fb_store_pixel [OF d1(2) this xy(2), of "swap_bytes color"] obtain d2 where
    d2: "?st ?n d1 = Some d2" "has_frame d2" "pixel d2 0 (unat y + 1) = swap_bytes color"
    "spi_device_master d2 = spi_device_master d1"
    unfolding i using \<open>0 < LCD_WIDTH\<close> by auto
  obtain b2 where b2: "frame_buffer d2 = Live b2" using d2(2) by (rule has_frameE)
  have r2: "ready d2" using d(1) d1(3) d2(4) by (simp add: ready_def same_device_def)
  have "clip LCD_WIDTH (unat x) (unat w) = Suc ?n" "clip LCD_HEIGHT (unat y) (unat h) = 1"
    using w h n(1) xy(2) by (simp_all add: clip_def)
  then have "lcd_fill_rectangle k x y w h color d = Some (d2\<lparr>bus := bus d2 @ data_events (fb_bytes b2)\<rparr>)"
    using d1(1) d2(1) by (simp add: fill_rectangle_clip [OF xy(1) y(1)] lcd_update_screen_ready [OF r2 b2])
  with d2(3) show ?thesis by simp
qed

text \<open>What the routine does for every rectangle: the stores as a set of indices of the framebuffer.\<close>

lemma row_store:
  assumes "frame_buffer d = Live b" "\<forall>i < n. K + i < fb_size"
  shows "for_to n (\<lambda>i. fb_store (K + i) v) d = Some (d\<lparr>frame_buffer := Live (\<lambda>k. if \<exists>i < n. k = K + i then v else b k)\<rparr>)"
  using assms(2)
proof (induction n)
  case 0
  then show ?case using assms(1) by (cases d) simp
next
  case (Suc n)
  then have "for_to (Suc n) (\<lambda>i. fb_store (K + i) v) d =
      Some (d\<lparr>frame_buffer := Live ((\<lambda>k. if \<exists>i < n. k = K + i then v else b k)(K + n := v))\<rparr>)"
    by (simp add: fb_store_def [of "K + n"])
  moreover have "(\<lambda>k. if \<exists>i < n. k = K + i then v else b k)(K + n := v) = (\<lambda>k. if \<exists>i < Suc n. k = K + i then v else b k)"
    by (auto simp: fun_eq_iff less_Suc_eq)
  ultimately show ?case by simp
qed

lemma rows_store:
  assumes "frame_buffer d = Live b" "\<forall>j < h. \<forall>i < w. K + (i + LCD_WIDTH * j) < fb_size"
  shows "for_to h (\<lambda>j. for_to w (\<lambda>i. fb_store (K + (i + LCD_WIDTH * j)) v)) d =
    Some (d\<lparr>frame_buffer := Live (\<lambda>k. if \<exists>j < h. \<exists>i < w. k = K + (i + LCD_WIDTH * j) then v else b k)\<rparr>)"
  using assms(2)
proof (induction h)
  case 0
  then show ?case using assms(1) by (cases d) simp
next
  case (Suc h)
  let ?b = "\<lambda>h k. if \<exists>j < h. \<exists>i < w. k = K + (i + LCD_WIDTH * j) then v else b k"
  have e: "K + (i + LCD_WIDTH * h) = (K + LCD_WIDTH * h) + i" for i by simp
  have r: "for_to w (\<lambda>i. fb_store (K + (i + LCD_WIDTH * h)) v) (d\<lparr>frame_buffer := Live (?b h)\<rparr>) =
      Some (d\<lparr>frame_buffer := Live (\<lambda>k. if \<exists>i < w. k = K + LCD_WIDTH * h + i then v else ?b h k)\<rparr>)"
    unfolding e by (subst row_store [of _ "?b h"]) (use Suc.prems in \<open>auto simp: add_ac\<close>)
  have "(\<lambda>k. if \<exists>i < w. k = K + LCD_WIDTH * h + i then v else ?b h k) = ?b (Suc h)"
    by (auto simp: fun_eq_iff less_Suc_eq add_ac)
  then show ?case using Suc.IH Suc.prems r by simp
qed

lemma rows_fault:
  assumes "j < h" "i < w" "fb_size \<le> K + (i + LCD_WIDTH * j)"
  shows "for_to h (\<lambda>j. for_to w (\<lambda>i. fb_store (K + (i + LCD_WIDTH * j)) v)) d = None"
proof -
  have f: "for_to n f s = None" if "m < n" "\<forall>s. f m s = None" for n m and f :: "nat \<Rightarrow> display \<Rightarrow> display option" and s
    using that by (induction n) (auto simp: less_Suc_eq)
  have "for_to w (\<lambda>i. fb_store (K + (i + LCD_WIDTH * j)) v) s = None" for s
    by (rule f [OF assms(2)]) (use fb_store_fault [OF assms(3)] in blast)
  then show ?thesis using f [OF assms(1), of "\<lambda>j. for_to w (\<lambda>i. fb_store (K + (i + LCD_WIDTH * j)) v)"] by blast
qed

text \<open>The rectangles that write past the end, and where the others paint.\<close>

definition rectangle_overflows :: "nat \<Rightarrow> nat \<Rightarrow> nat \<Rightarrow> nat \<Rightarrow> bool" where
  "rectangle_overflows x y w h \<longleftrightarrow>
     0 < w \<and> y + h = LCD_HEIGHT + 1 \<or> x + w = LCD_WIDTH + 1 \<and> 0 < h \<and> LCD_HEIGHT \<le> y + h"

definition rectangle_paints :: "nat \<Rightarrow> nat \<Rightarrow> nat \<Rightarrow> nat \<Rightarrow> nat \<Rightarrow> nat \<Rightarrow> bool" where
  "rectangle_paints x y w h px py \<longleftrightarrow>
     x \<le> px \<and> px < x + w \<and> y \<le> py \<and> py < y + h \<or> x + w = LCD_WIDTH + 1 \<and> px = 0 \<and> y < py \<and> py \<le> y + h"

lemma painted_index:
  assumes "x < LCD_WIDTH" "x + w \<le> LCD_WIDTH + 1" "px < LCD_WIDTH"
  shows "(\<exists>j < h. \<exists>i < w. px + LCD_WIDTH * py = (x + LCD_WIDTH * y) + (i + LCD_WIDTH * j)) \<longleftrightarrow> rectangle_paints x y w h px py"
proof
  assume "\<exists>j < h. \<exists>i < w. px + LCD_WIDTH * py = (x + LCD_WIDTH * y) + (i + LCD_WIDTH * j)"
  then obtain i j where ij: "j < h" "i < w" "px + LCD_WIDTH * py = (x + i) + LCD_WIDTH * (y + j)" by (auto simp: algebra_simps)
  show "rectangle_paints x y w h px py"
  proof (cases "x + i < LCD_WIDTH")
    case True
    then show ?thesis using pixel_index_inj [OF assms(3) True, of py "y + j"] ij by (auto simp: rectangle_paints_def)
  next
    case False
    then have i: "x + i = LCD_WIDTH" "x + w = LCD_WIDTH + 1" using ij(2) assms(2) by simp_all
    then have "px + LCD_WIDTH * py = 0 + LCD_WIDTH * (y + j + 1)" using ij(3) by simp
    then have "px = 0 \<and> py = y + j + 1" using pixel_index_inj [OF assms(3), of 0 py "y + j + 1"] assms(1) by simp
    then show ?thesis using i ij(1) by (simp add: rectangle_paints_def)
  qed
next
  assume "rectangle_paints x y w h px py"
  then consider "x \<le> px" "px < x + w" "y \<le> py" "py < y + h" | "x + w = LCD_WIDTH + 1" "px = 0" "y < py" "py \<le> y + h"
    by (auto simp: rectangle_paints_def)
  then show "\<exists>j < h. \<exists>i < w. px + LCD_WIDTH * py = (x + LCD_WIDTH * y) + (i + LCD_WIDTH * j)"
  proof cases
    case 1
    then have "LCD_WIDTH * py = LCD_WIDTH * y + LCD_WIDTH * (py - y)" by (simp flip: add_mult_distrib2)
    then show ?thesis using 1 by (intro exI [of _ "py - y"] conjI exI [of _ "px - x"]) simp_all
  next
    case 2
    then obtain j where j: "py = y + Suc j" "j < h" by (metis less_iff_Suc_add add_Suc_right add_le_cancel_left Suc_le_lessD)
    then show ?thesis using 2 assms(1) by (intro exI [of _ j] conjI exI [of _ "LCD_WIDTH - x"]) (simp_all add: algebra_simps)
  qed
qed

lemma fill_rectangle_exact:
  assumes d: "ready d" "has_frame d" and xy: "unat x < LCD_WIDTH" "unat y < LCD_HEIGHT"
  shows "if rectangle_overflows (unat x) (unat y) (unat w) (unat h) then lcd_fill_rectangle k x y w h color d = None
    else \<exists>d'. lcd_fill_rectangle k x y w h color d = Some d' \<and>
      (\<forall>px < LCD_WIDTH. \<forall>py < LCD_HEIGHT. pixel d' px py =
        (if rectangle_paints (unat x) (unat y) (unat w) (unat h) px py then swap_bytes color else pixel d px py))"
proof -
  let ?x = "unat x" and ?y = "unat y"
  let ?w = "clip LCD_WIDTH ?x (unat w)" and ?h = "clip LCD_HEIGHT ?y (unat h)"
  let ?K = "?x + LCD_WIDTH * ?y"
  have xw: "?x + ?w \<le> LCD_WIDTH + 1" using xy by (simp add: clip_def)
  show ?thesis
  proof (cases "rectangle_overflows ?x ?y (unat w) (unat h)")
    case True
    have "?y + ?h = LCD_HEIGHT \<or> ?y + ?h = LCD_HEIGHT + 1" if "LCD_HEIGHT \<le> ?y + unat h" using that xy by (auto simp: clip_def)
    moreover have "0 < ?w" if "0 < unat w" using that xy by (auto simp: clip_def)
    moreover have "0 < ?h" if "0 < unat h" using that xy by (auto simp: clip_def)
    moreover have "?x + ?w = LCD_WIDTH + 1" if "?x + unat w = LCD_WIDTH + 1" using that by (simp add: clip_def)
    moreover have "?y + ?h = LCD_HEIGHT + 1" if "?y + unat h = LCD_HEIGHT + 1" using that by (simp add: clip_def)
    ultimately consider "0 < ?w" "?y + ?h = LCD_HEIGHT + 1" | "?x + ?w = LCD_WIDTH + 1" "0 < ?h" "?y + ?h = LCD_HEIGHT" | "?x + ?w = LCD_WIDTH + 1" "0 < ?h" "?y + ?h = LCD_HEIGHT + 1"
      using True unfolding rectangle_overflows_def by auto
    then have "\<exists>j < ?h. \<exists>i < ?w. fb_size \<le> ?K + (i + LCD_WIDTH * j)"
    proof cases
      case 1
      have j: "LCD_HEIGHT - ?y < ?h" using 1(2) xy(2) by linarith
      have "fb_size = LCD_WIDTH * ?y + LCD_WIDTH * (LCD_HEIGHT - ?y)" using xy by (simp add: fb_size_def flip: add_mult_distrib2)
      then show ?thesis using j 1(1) by (intro exI [of _ "LCD_HEIGHT - ?y"] conjI exI [of _ 0]) simp_all
    next
      case 2
      have "?y + (?h - 1) + 1 = LCD_HEIGHT" using 2 by simp
      then have "fb_size = LCD_WIDTH * ?y + LCD_WIDTH * (?h - 1) + LCD_WIDTH"
        by (metis add_mult_distrib2 fb_size_def mult.right_neutral)
      then show ?thesis using 2 xy(1) by (intro exI [of _ "?h - 1"] conjI exI [of _ "LCD_WIDTH - ?x"]) simp_all
    next
      case 3
      have j: "LCD_HEIGHT - ?y < ?h" using 3 xy(2) by linarith
      have "fb_size = LCD_WIDTH * ?y + LCD_WIDTH * (LCD_HEIGHT - ?y)" using xy by (simp add: fb_size_def flip: add_mult_distrib2)
      then show ?thesis using j 3 xy(1) by (intro exI [of _ "LCD_HEIGHT - ?y"] conjI exI [of _ 0]) simp_all
    qed
    then obtain i j where "j < ?h" "i < ?w" "fb_size \<le> ?K + (i + LCD_WIDTH * j)" by blast
    from rows_fault [OF this] show ?thesis using True by (simp add: fill_rectangle_clip [OF xy])
  next
    case False
    have in_range: "?K + (i + LCD_WIDTH * j) < fb_size" if ij: "j < ?h" "i < ?w" for i j
    proof -
      have e: "?K + (i + LCD_WIDTH * j) = (?x + i) + LCD_WIDTH * (?y + j)" by (simp add: algebra_simps)
      have yj: "?y + j < LCD_HEIGHT" using False ij xy by (auto simp: rectangle_overflows_def clip_def split: if_splits)
      show ?thesis
      proof (cases "?x + i < LCD_WIDTH")
        case True
        then show ?thesis unfolding e using pixel_index_bound [OF _ yj] by simp
      next
        case outside: False
        then have i: "?x + i = LCD_WIDTH" "?x + ?w = LCD_WIDTH + 1" using ij(2) xw by simp_all
        then have "?x + unat w = LCD_WIDTH + 1" using xy(1) by (auto simp: clip_def split: if_splits)
        then have "?y + j + 1 < LCD_HEIGHT" using False ij(1) by (auto simp: rectangle_overflows_def clip_def split: if_splits)
        then show ?thesis unfolding e i(1) using pixel_index_bound [of 0 "?y + j + 1"] by (simp add: LCD_WIDTH_def)
      qed
    qed
    obtain b where b: "frame_buffer d = Live b" using d(2) by (rule has_frameE)
    let ?b = "\<lambda>n. if \<exists>j < ?h. \<exists>i < ?w. n = ?K + (i + LCD_WIDTH * j) then swap_bytes color else b n"
    let ?d = "d\<lparr>frame_buffer := Live ?b\<rparr>"
    have st: "for_to ?h (\<lambda>j. for_to ?w (\<lambda>i. fb_store (?K + (i + LCD_WIDTH * j)) (swap_bytes color))) d = Some ?d"
      by (rule rows_store [OF b]) (use in_range in blast)
    have "ready ?d" using d(1) by (simp add: ready_def)
    then have "lcd_fill_rectangle k x y w h color d = Some (?d\<lparr>bus := bus ?d @ data_events (fb_bytes ?b)\<rparr>)"
      using lcd_update_screen_ready [of ?d ?b k] by (simp add: fill_rectangle_clip [OF xy] st)
    moreover have "pixel (?d\<lparr>bus := bus ?d @ data_events (fb_bytes ?b)\<rparr>) px py =
        (if rectangle_paints ?x ?y (unat w) (unat h) px py then swap_bytes color else pixel d px py)"
      if p: "px < LCD_WIDTH" "py < LCD_HEIGHT" for px py
    proof -
      have "rectangle_paints ?x ?y ?w ?h px py = rectangle_paints ?x ?y (unat w) (unat h) px py"
        using p xy by (auto simp: rectangle_paints_def clip_def)
      then show ?thesis using painted_index [OF xy(1) xw p(1)] by (simp add: pixel_def b)
    qed
    ultimately show ?thesis using False by simp
  qed
qed

section \<open>Pixels and the screen\<close>

lemma lcd_draw_pixel_draws:
  assumes d: "ready d" "has_frame d" and xy: "unat x < LCD_WIDTH" "unat y < LCD_HEIGHT"
  shows "\<exists>d' b. lcd_draw_pixel k x y color d = Some d' \<and> frame_buffer d' = Live b \<and>
    (\<forall>px < LCD_WIDTH. \<forall>py. pixel d' px py = (if px = unat x \<and> py = unat y then swap_bytes color else pixel d px py)) \<and>
    bus d' = bus d @ data_events (fb_bytes b)"
proof -
  from fb_store_pixel [OF d(2) xy, of "swap_bytes color"] obtain d1 where d1:
    "fb_store (unat x + LCD_WIDTH * unat y) (swap_bytes color) d = Some d1" "has_frame d1"
    "\<forall>px < LCD_WIDTH. \<forall>py. pixel d1 px py = (if px = unat x \<and> py = unat y then swap_bytes color else pixel d px py)"
    "spi_device_master d1 = spi_device_master d" "bus d1 = bus d" by auto
  obtain b where b: "frame_buffer d1 = Live b" using d1(2) by (rule has_frameE)
  have "ready d1" using d(1) d1(4) by (simp add: ready_def)
  from lcd_update_screen_ready [OF this b] d1 b xy show ?thesis
    by (simp add: lcd_draw_pixel_def)
qed

text \<open>A color is sent high byte first: the swap undoes the byte order of the target.\<close>

lemma swap_bytes_wire: "lo_byte (swap_bytes c) = hi_byte c" "hi_byte (swap_bytes c) = lo_byte c"
  by (auto simp: swap_bytes_def hi_byte_def lo_byte_def bit_eq_iff bit_simps)

lemma fb_bytes_nth:
  assumes "i < fb_size"
  shows "fb_bytes b ! (2 * i) = lo_byte (b i)" "fb_bytes b ! (2 * i + 1) = hi_byte (b i)"
proof -
  have gen: "length (concat (map (\<lambda>i. [lo_byte (b i), hi_byte (b i)]) [0..<n])) = 2 * n \<and>
    (\<forall>i < n. concat (map (\<lambda>i. [lo_byte (b i), hi_byte (b i)]) [0..<n]) ! (2 * i) = lo_byte (b i) \<and>
      concat (map (\<lambda>i. [lo_byte (b i), hi_byte (b i)]) [0..<n]) ! (2 * i + 1) = hi_byte (b i))" for n
    by (induction n) (auto simp: nth_append less_Suc_eq)
  from gen [of fb_size] assms show "fb_bytes b ! (2 * i) = lo_byte (b i)" "fb_bytes b ! (2 * i + 1) = hi_byte (b i)"
    unfolding fb_bytes_def by blast+
qed

lemma fb_bytes_length: "length (fb_bytes b) = get_framebuffer_size"
  by (simp add: fb_bytes_def length_concat comp_def get_framebuffer_size_def sum_list_triv)

lemma lcd_fill_screen_draws:
  assumes d: "ready d" "has_frame d"
  shows "\<exists>d'. lcd_fill_screen k color d = Some d' \<and> ready d' \<and> has_frame d' \<and>
    (\<forall>px < LCD_WIDTH. \<forall>py < LCD_HEIGHT. pixel d' px py =
      (if px < LCD_WIDTH - 1 \<and> py < LCD_HEIGHT - 1 then swap_bytes color else pixel d px py))"
proof -
  have u: "unat (of_nat LCD_WIDTH - 1 :: 16 word) = LCD_WIDTH - 1" "unat (of_nat LCD_HEIGHT - 1 :: 16 word) = LCD_HEIGHT - 1"
    by (simp_all add: LCD_WIDTH_def LCD_HEIGHT_def)
  have "\<exists>d'. lcd_fill_rectangle k 0 0 (of_nat LCD_WIDTH - 1) (of_nat LCD_HEIGHT - 1) color d = Some d' \<and> ready d' \<and> has_frame d' \<and>
    (\<forall>px < LCD_WIDTH. \<forall>py < LCD_HEIGHT. pixel d' px py =
      (if unat (0 :: 16 word) \<le> px \<and> px < unat (0 :: 16 word) + unat (of_nat LCD_WIDTH - 1 :: 16 word) \<and>
          unat (0 :: 16 word) \<le> py \<and> py < unat (0 :: 16 word) + unat (of_nat LCD_HEIGHT - 1 :: 16 word)
       then swap_bytes color else pixel d px py))"
    by (rule fill_rectangle_draws [OF d]) (simp_all only: u, simp_all add: LCD_WIDTH_def LCD_HEIGHT_def)
  then show ?thesis unfolding u lcd_fill_screen_def by simp
qed

section \<open>Characters\<close>

definition printable :: "char \<Rightarrow> bool" where
  "printable c \<longleftrightarrow> 32 \<le> (of_char c :: nat) \<and> (of_char c :: nat) \<le> 126"

definition glyph :: "FontDef \<Rightarrow> char \<Rightarrow> nat \<Rightarrow> nat \<Rightarrow> bool" where
  "glyph f c j i \<longleftrightarrow> bit (data f ! ((of_char c - 32) * unat (height f) + i)) (15 - j)"

lemma font_row_printable:
  assumes "font_ok f" "printable c" "i < unat (height f)"
  shows "font_row f ((of_char c - 32) * uint (height f) + int i) = Some (data f ! ((of_char c - 32) * unat (height f) + i))"
proof -
  let ?n = "of_char c :: nat"
  have "(of_char c :: int) = int ?n" by (rule of_nat_of_char [symmetric])
  then have e: "(of_char c - 32) * uint (height f) + int i = int ((?n - 32) * unat (height f) + i)"
  proof -
    have "int (?n - 32) = int ?n - 32" using assms(2) by (simp add: printable_def)
    with \<open>(of_char c :: int) = int ?n\<close> show ?thesis by (simp only: uint_nat of_nat_add of_nat_mult)
  qed
  have "(?n - 32) * unat (height f) + i < (?n - 32) * unat (height f) + unat (height f)" using assms(3) by simp
  also have "\<dots> = (?n - 32 + 1) * unat (height f)" by (simp add: algebra_simps)
  also have "\<dots> \<le> 95 * unat (height f)" using assms(2) unfolding printable_def by (intro mult_le_mono1) arith
  finally show ?thesis using assms(1) unfolding e font_row_def nat_int by (simp add: font_ok_def)
qed

lemma font_row_fault:
  assumes "font_ok f" "\<not> printable c" "0 < unat (height f)"
  shows "font_row f ((of_char c - 32) * uint (height f) + int 0) = None"
proof -
  let ?n = "of_char c :: nat"
  have n: "(of_char c :: int) = int ?n" by (rule of_nat_of_char [symmetric])
  show ?thesis
  proof (cases "?n < 32")
    case True
    then have "(int ?n - 32) * int (unat (height f)) < 0" using assms(3) by (intro mult_neg_pos) linarith+
    then show ?thesis unfolding font_row_def n uint_nat by simp
  next
    case False
    then have "127 \<le> ?n" using assms(2) by (simp add: printable_def)
    then have "\<not> ?n - 32 < 95" by arith
    moreover have "(int ?n - 32) * int (unat (height f)) = int ((?n - 32) * unat (height f))" using False by simp
    ultimately show ?thesis using assms(1) unfolding font_row_def n uint_nat font_ok_def by (simp del: of_nat_mult)
  qed
qed

lemma row_pixel:
  assumes "j \<le> 15"
  shows "push_bit j (ucast (r :: 16 word) :: 32 word) AND 0x8000 \<noteq> 0 \<longleftrightarrow> bit r (15 - j)"
proof -
  have "push_bit j (ucast r :: 32 word) AND 2 ^ 15 = 0 \<longleftrightarrow> \<not> bit (push_bit j (ucast r :: 32 word)) 15"
    by (rule and_exp_eq_0_iff_not_bit)
  moreover have "bit (push_bit j (ucast r :: 32 word)) 15 \<longleftrightarrow> bit r (15 - j)"
    using assms by (auto simp: bit_simps)
  ultimately show ?thesis by simp
qed

lemma lcd_put_char_draws:
  assumes f: "font_ok font" and c: "printable ch" and d: "has_frame d"
    and x: "unat x + unat (width font) \<le> LCD_WIDTH" and y: "unat y + unat (height font) \<le> LCD_HEIGHT"
  shows "\<exists>d'. lcd_put_char x y ch font color bgcolor d = Some d' \<and> has_frame d' \<and> same_device d d' \<and>
    (\<forall>px < LCD_WIDTH. \<forall>py. pixel d' px py =
      (if unat x \<le> px \<and> px < unat x + unat (width font) \<and> unat y \<le> py \<and> py < unat y + unat (height font)
       then (if glyph font ch (px - unat x) (py - unat y) then swap_bytes color else swap_bytes bgcolor)
       else pixel d px py))"
  unfolding lcd_put_char_def
proof (rule block_store [OF d x y])
  fix i d assume i: "i < unat (height font)"
  have w: "unat (width font) \<le> 16" using f by (simp add: font_ok_def)
  have "for_to (unat (width font)) (\<lambda>j. fb_store ((unat x + LCD_WIDTH * unat y) + (j + LCD_WIDTH * i))
      (if push_bit j (ucast (data font ! ((of_char ch - 32) * unat (height font) + i)) :: 32 word) AND 0x8000 \<noteq> 0
       then swap_bytes color else swap_bytes bgcolor)) d =
    for_to (unat (width font)) (\<lambda>j. fb_store ((unat x + LCD_WIDTH * unat y) + (j + LCD_WIDTH * i))
      (if glyph font ch j i then swap_bytes color else swap_bytes bgcolor)) d"
    by (rule for_to_cong) (use w in \<open>simp add: row_pixel glyph_def\<close>)
  then show "(do {
       row \<leftarrow> font_row font ((of_char ch - 32) * uint (height font) + int i);
       let b = (ucast row :: 32 word);
       for_to (unat (width font)) (\<lambda>j.
         fb_store ((unat x + LCD_WIDTH * unat y) + (j + LCD_WIDTH * i))
           (if push_bit j b AND 0x8000 \<noteq> 0 then swap_bytes color else swap_bytes bgcolor)) d }) =
    for_to (unat (width font)) (\<lambda>j. fb_store ((unat x + LCD_WIDTH * unat y) + (j + LCD_WIDTH * i))
      (if glyph font ch j i then swap_bytes color else swap_bytes bgcolor)) d"
    by (simp add: font_row_printable [OF f c i])
qed

lemma lcd_put_char_unprintable:
  assumes "font_ok font" "\<not> printable ch" "0 < unat (height font)"
  shows "lcd_put_char x y ch font color bgcolor d = None"
  unfolding lcd_put_char_def
  by (rule for_to_fault_first [OF _ assms(3)]) (simp only: font_row_fault [OF assms] bind.bind_lzero)

text \<open>A character that hangs over the bottom edge is a write past the end.\<close>

lemma lcd_put_char_below:
  assumes f: "font_ok font" and c: "printable ch" and d: "has_frame d"
    and x: "unat x + unat (width font) \<le> LCD_WIDTH"
    and y: "unat y \<le> LCD_HEIGHT" "LCD_HEIGHT < unat y + unat (height font)"
  shows "lcd_put_char x y ch font color bgcolor d = None"
proof -
  let ?row = "\<lambda>i d. do {
       row \<leftarrow> font_row font ((of_char ch - 32) * uint (height font) + int i);
       let b = (ucast row :: 32 word);
       for_to (unat (width font)) (\<lambda>j.
         fb_store ((unat x + LCD_WIDTH * unat y) + (j + LCD_WIDTH * i))
           (if push_bit j b AND 0x8000 \<noteq> 0 then swap_bytes color else swap_bytes bgcolor)) d }"
  let ?c = "\<lambda>i j. if push_bit j (ucast (data font ! ((of_char ch - 32) * unat (height font) + i)) :: 32 word) AND 0x8000 \<noteq> 0
       then swap_bytes color else swap_bytes bgcolor"
  let ?m = "LCD_HEIGHT - unat y"
  have m: "unat y + ?m \<le> LCD_HEIGHT" "?m < unat (height font)" using y by simp_all
  have row: "?row i d = for_to (unat (width font)) (\<lambda>j. fb_store ((unat x + LCD_WIDTH * unat y) + (j + LCD_WIDTH * i)) (?c i j)) d"
    if "i < unat (height font)" for i d
    by (simp add: font_row_printable [OF f c that])
  have "\<exists>d'. for_to ?m ?row d = Some d' \<and> has_frame d' \<and> same_device d d' \<and>
    (\<forall>px < LCD_WIDTH. \<forall>py. pixel d' px py =
      (if unat x \<le> px \<and> px < unat x + unat (width font) \<and> unat y \<le> py \<and> py < unat y + ?m
       then ?c (py - unat y) (px - unat x) else pixel d px py))"
    by (rule block_store [OF d x m(1), where c = "\<lambda>j i. ?c i j"]) (rule row, use m(2) in simp)
  then obtain d1 where d1: "for_to ?m ?row d = Some d1" by (elim exE conjE) (rule that)
  have "fb_size \<le> (unat x + LCD_WIDTH * unat y) + (0 + LCD_WIDTH * ?m)"
    using y(1) by (simp add: fb_size_def add.assoc flip: add_mult_distrib2)
  moreover have "0 < unat (width font)" using f by (simp add: font_ok_def)
  ultimately have "?row ?m d1 = None"
    unfolding row [OF m(2)] by (intro for_to_fault_first) (simp_all only: fb_store_fault)
  from for_to_fault [where f = ?row, OF d1 this m(2)] show ?thesis by (simp only: lcd_put_char_def)
qed

section \<open>Strings\<close>

lemma uint_add_le:
  fixes x :: "16 word"
  assumes "unat x + n \<le> 60000"
  shows "unat (x + of_nat n) = unat x + n"
  using assms by (simp add: unat_word_ariths(1) unat_of_nat)

lemma ucast_of_nat: "(ucast (w :: 8 word) :: 16 word) = of_nat (unat w)"
  by (simp add: word_unat_eq_iff unsigned_ucast_eq unat_of_nat take_bit_eq_mod)

text \<open>A string that fits on its line is drawn character by character, left to right.\<close>

definition text_pixel :: "FontDef \<Rightarrow> string \<Rightarrow> nat \<Rightarrow> nat \<Rightarrow> bool" where
  "text_pixel f cs j i \<longleftrightarrow> glyph f (cs ! (j div unat (width f))) (j mod unat (width f)) i"

lemma put_string_line:
  assumes f: "font_ok font" and c: "list_all printable cs" and d: "has_frame d"
    and x: "unat lx + length cs * unat (width font) \<le> LCD_WIDTH" and y: "unat ly + unat (height font) \<le> LCD_HEIGHT"
  shows "\<exists>d'. put_string_from font x color bgcolor cs lx ly d = Some d' \<and> has_frame d' \<and> same_device d d' \<and>
    (\<forall>px < LCD_WIDTH. \<forall>py. pixel d' px py =
      (if unat lx \<le> px \<and> px < unat lx + length cs * unat (width font) \<and> unat ly \<le> py \<and> py < unat ly + unat (height font)
       then (if text_pixel font cs (px - unat lx) (py - unat ly) then swap_bytes color else swap_bytes bgcolor)
       else pixel d px py))"
  using c d x
proof (induction cs arbitrary: lx d)
  case Nil
  then show ?case by (auto simp: same_device_def)
next
  case (Cons ch cs)
  let ?w = "unat (width font)" and ?h = "unat (height font)"
  have w0: "0 < ?w" using f by (simp add: font_ok_def)
  have xw: "unat lx + ?w \<le> LCD_WIDTH" "unat lx + ?w + length cs * ?w \<le> LCD_WIDTH" using Cons.prems(3) by simp_all
  have lx: "unat (lx + ucast (width font)) = unat lx + ?w"
    unfolding ucast_of_nat using xw(1) by (intro uint_add_le) (simp add: LCD_WIDTH_def)
  have nm: "\<not> uint lx + uint (width font) > int LCD_WIDTH" "\<not> uint ly + uint (height font) > int LCD_HEIGHT"
    unfolding uint_nat using xw(1) y by linarith+
  have ch: "printable ch" "list_all printable cs" using Cons.prems(1) by simp_all
  from lcd_put_char_draws [OF f ch(1) Cons.prems(2) xw(1) y, of color bgcolor] obtain d1 where
    d1: "lcd_put_char lx ly ch font color bgcolor d = Some d1" "has_frame d1" "same_device d d1"
    "\<forall>px < LCD_WIDTH. \<forall>py. pixel d1 px py =
      (if unat lx \<le> px \<and> px < unat lx + ?w \<and> unat ly \<le> py \<and> py < unat ly + ?h
       then (if glyph font ch (px - unat lx) (py - unat ly) then swap_bytes color else swap_bytes bgcolor)
       else pixel d px py)" by auto
  from Cons.IH [OF ch(2) d1(2), of "lx + ucast (width font)", unfolded lx, OF xw(2)] obtain d2 where
    d2: "put_string_from font x color bgcolor cs (lx + ucast (width font)) ly d1 = Some d2" "has_frame d2" "same_device d1 d2"
    "\<forall>px < LCD_WIDTH. \<forall>py. pixel d2 px py =
      (if unat lx + ?w \<le> px \<and> px < unat lx + ?w + length cs * ?w \<and> unat ly \<le> py \<and> py < unat ly + ?h
       then (if text_pixel font cs (px - (unat lx + ?w)) (py - unat ly) then swap_bytes color else swap_bytes bgcolor)
       else pixel d1 px py)" by auto
  have t1: "text_pixel font (ch # cs) j i = glyph font ch j i" if "j < ?w" for i j
    using that by (simp add: text_pixel_def)
  have t2: "text_pixel font (ch # cs) (j + ?w) i = text_pixel font cs j i" for i j
    using w0 div_add_self2 [of ?w j] by (simp add: text_pixel_def)
  have p: "pixel d2 px py =
      (if unat lx \<le> px \<and> px < unat lx + length (ch # cs) * ?w \<and> unat ly \<le> py \<and> py < unat ly + ?h
       then (if text_pixel font (ch # cs) (px - unat lx) (py - unat ly) then swap_bytes color else swap_bytes bgcolor)
       else pixel d px py)" if px: "px < LCD_WIDTH" for px py
  proof (cases "unat lx + ?w \<le> px")
    case True
    then have "px - unat lx = (px - (unat lx + ?w)) + ?w" by simp
    then have "text_pixel font (ch # cs) (px - unat lx) i = text_pixel font cs (px - (unat lx + ?w)) i" for i
      using t2 by metis
    then show ?thesis using d1(4) d2(4) px True by (simp add: add.assoc)
  next
    case False
    then have "unat lx \<le> px \<Longrightarrow> text_pixel font (ch # cs) (px - unat lx) i = glyph font ch (px - unat lx) i" for i
      by (intro t1) simp
    then show ?thesis using d1(4) d2(4) px False by auto
  qed
  have "put_string_from font x color bgcolor (ch # cs) lx ly d = Some d2"
    using nm d1(1) d2(1) by (simp add: Let_def)
  moreover have "same_device d d2" using d1(3) d2(3) by (simp add: same_device_def)
  ultimately show ?case using d2(2) p by blast
qed


text \<open>
  The test for the bottom edge looks at the line before the wrap: when a string wraps from
  the last line that fits, the next character is drawn below the screen.
\<close>

lemma put_string_append:
  assumes "\<forall>m < length cs. unat lx + Suc m * unat (width font) \<le> LCD_WIDTH" "unat ly + unat (height font) \<le> LCD_HEIGHT"
  shows "put_string_from font x color bgcolor (cs @ cs') lx ly d =
    do { d \<leftarrow> put_string_from font x color bgcolor cs lx ly d;
         put_string_from font x color bgcolor cs' (lx + of_nat (length cs * unat (width font))) ly d }"
  using assms(1)
proof (induction cs arbitrary: lx d)
  case (Cons c cs)
  let ?w = "unat (width font)"
  have xw: "unat lx + ?w \<le> LCD_WIDTH" using Cons.prems by auto
  have lx: "unat (lx + ucast (width font)) = unat lx + ?w"
    unfolding ucast_of_nat using xw by (intro uint_add_le) (simp add: LCD_WIDTH_def)
  have nm: "\<not> uint lx + uint (width font) > int LCD_WIDTH" "\<not> uint ly + uint (height font) > int LCD_HEIGHT"
    unfolding uint_nat using xw assms(2) by linarith+
  have IH: "put_string_from font x color bgcolor (cs @ cs') (lx + ucast (width font)) ly d =
    do { d \<leftarrow> put_string_from font x color bgcolor cs (lx + ucast (width font)) ly d;
         put_string_from font x color bgcolor cs' (lx + ucast (width font) + of_nat (length cs * ?w)) ly d }" for d
    using Cons.prems by (intro Cons.IH) (auto simp: lx algebra_simps)
  have e: "lx + ucast (width font) + of_nat (length cs * ?w) = lx + of_nat (length (c # cs) * ?w)"
    unfolding ucast_of_nat by (simp only: list.size(4) add_0_right add_Suc_right mult_Suc of_nat_add add.assoc)
  note IH' = ext [of "put_string_from font x color bgcolor (cs @ cs') (lx + ucast (width font)) ly", OF IH, unfolded e]
  show ?case using nm by (simp only: append_Cons put_string_from.simps Let_def if_False IH' bind_assoc)
qed simp

lemma put_string_wraps_below:
  assumes f: "font_ok font" and c: "list_all printable (cs @ [ch])" and d: "has_frame d"
    and x: "unat x + length cs * unat (width font) \<le> LCD_WIDTH" "LCD_WIDTH < unat x + Suc (length cs) * unat (width font)"
      "unat x + unat (width font) \<le> LCD_WIDTH"
    and y: "unat y + unat (height font) \<le> LCD_HEIGHT" "LCD_HEIGHT < unat y + 2 * unat (height font)"
  shows "lcd_put_string (cs @ [ch]) x y font color bgcolor d = None"
proof -
  let ?w = "unat (width font)" and ?h = "unat (height font)"
  let ?lx = "x + of_nat (length cs * ?w)"
  have c': "list_all printable cs" "printable ch" using c by simp_all
  from put_string_line [OF f c'(1) d x(1) y(1)] obtain d1 where
    d1: "put_string_from font x color bgcolor cs x y d = Some d1" "has_frame d1" by blast
  have "Suc m * ?w \<le> length cs * ?w" if "m < length cs" for m using that by (intro mult_le_mono1) simp
  then have m: "\<forall>m < length cs. unat x + Suc m * ?w \<le> LCD_WIDTH" using x(1) by fastforce
  have lx: "unat ?lx = unat x + length cs * ?w"
    using x(1) by (intro uint_add_le) (simp add: LCD_WIDTH_def)
  have "LCD_WIDTH < unat ?lx + ?w" using x(2) unfolding lx by simp
  then have mv: "uint ?lx + uint (width font) > int LCD_WIDTH" "\<not> uint y + uint (height font) > int LCD_HEIGHT"
    using y(1) unfolding uint_nat by linarith+
  have ly: "unat (y + ucast (height font)) = unat y + ?h"
    unfolding ucast_of_nat using y(1) by (intro uint_add_le) (simp add: LCD_HEIGHT_def)
  have "lcd_put_char x (y + ucast (height font)) ch font color bgcolor d1 = None"
    by (rule lcd_put_char_below [OF f c'(2) d1(2) x(3)]) (use y in \<open>unfold ly, linarith+\<close>)
  then have "put_string_from font x color bgcolor [ch] ?lx y d1 = None" using mv by (simp add: Let_def)
  with put_string_append [OF m y(1), of x color bgcolor "[ch]" d] d1(1) show ?thesis
    by (simp add: lcd_put_string_def)
qed

section \<open>Font sizes\<close>

lemma font_sizes [simp]:
  "unat (width Font_7x10) = 7" "unat (height Font_7x10) = 10"
  "unat (width Font_11x18) = 11" "unat (height Font_11x18) = 18"
  "unat (width Font_16x26) = 16" "unat (height Font_16x26) = 26"
  by (simp_all add: Font_7x10_def Font_11x18_def Font_16x26_def)

end
