(* ===== verification/Chardev.thy ===== *)
theory Chardev
  imports Gc9a01Spec
begin

text \<open>
  The character device over the framebuffer, \<^verbatim>\<open>final_task/display_driver/gc9a01_chardev.c\<close>,
  and the module's entry points in \<^verbatim>\<open>module_main.c\<close>.
\<close>

section \<open>State\<close>

text \<open>
  What the kernel answers: the result of \<open>alloc_chrdev_region\<close> with the major number it
  gives, of \<open>cdev_add\<close>, and whether \<open>class_create\<close> returns a class rather than an error
  pointer.
\<close>

record chr_kernel =
  alloc_chrdev_region :: "int \<times> nat"
  cdev_add :: int
  class_create :: bool

text \<open>
  \<open>unregistered\<close> lists the major numbers whose region was given back, one entry per call.
\<close>

record chardev =
  display_handler :: bool
  device_major_number :: nat
  region_registered :: bool
  cdev_live :: bool
  devclass :: "unit obj"
  device_node :: bool
  unregistered :: "nat list"

definition chardev_start :: chardev where
  "chardev_start = \<lparr>display_handler = False, device_major_number = 0, region_registered = False,
     cdev_live = False, devclass = Absent, device_node = False, unregistered = []\<rparr>"

definition unregister_chrdev_region :: "chardev \<Rightarrow> chardev" where
  "unregister_chrdev_region c = c\<lparr>region_registered := False, unregistered := unregistered c @ [device_major_number c]\<rparr>"

section \<open>File operations\<close>

definition display_chardev_read :: "nat \<Rightarrow> int" where
  "display_chardev_read count = - EIO"

text \<open>
  The mode callback of the class: every user may read and write the node.
\<close>

definition display_devnode :: "nat option \<Rightarrow> nat option" where
  "display_devnode mode = (case mode of None \<Rightarrow> None | Some _ \<Rightarrow> Some 438)"

unbundle bit_operations_syntax

text \<open>One byte of the framebuffer, on the little-endian target.\<close>

definition poke_byte :: "nat \<Rightarrow> 8 word \<Rightarrow> (nat \<Rightarrow> 16 word) \<Rightarrow> nat \<Rightarrow> 16 word" where
  "poke_byte i v b = b(i div 2 :=
     (if even i then b (i div 2) AND 0xFF00 OR ucast v else b (i div 2) AND 0x00FF OR push_bit 8 (ucast v)))"

fun copy_bytes :: "nat \<Rightarrow> 8 word list \<Rightarrow> (nat \<Rightarrow> 16 word) \<Rightarrow> nat \<Rightarrow> 16 word" where
  "copy_bytes i [] b = b"
| "copy_bytes i (v # vs) b = copy_bytes (Suc i) vs (poke_byte i v b)"

text \<open>
  \<open>buffer\<close> holds the readable bytes at the user's address: \<open>copy_from_user\<close> copies what it
  can of the \<open>len\<close> bytes it is asked for, fills up with zero bytes and returns how many are missing.
\<close>

definition copy_from_user :: "8 word list \<Rightarrow> nat \<Rightarrow> display \<Rightarrow> (nat \<times> display) option" where
  "copy_from_user buffer len d = (case frame_buffer d of
     Live b \<Rightarrow> Some (len - length buffer, d\<lparr>frame_buffer := Live (copy_bytes 0 (take len buffer @ replicate (len - length buffer) 0) b)\<rparr>)
   | _ \<Rightarrow> None)"

definition display_chardev_write :: "kernel \<Rightarrow> 8 word list \<Rightarrow> nat \<Rightarrow> display \<Rightarrow> (int \<times> display) option" where
  "display_chardev_write k buffer len d =
     (if len > get_framebuffer_size then Some (- EIO, d)
      else do {
        (ret, d) \<leftarrow> copy_from_user buffer len d;
        if ret \<noteq> 0 then Some (- EFAULT, d)
        else do {
          d \<leftarrow> lcd_update_screen k d;
          Some (int len, d) } })"

section \<open>Registration\<close>

definition init_display_chardevice :: "chr_kernel \<Rightarrow> chardev \<Rightarrow> (int \<times> chardev) option" where
  "init_display_chardevice k c =
     (let c = c\<lparr>display_handler := True\<rparr>;
          (ret, major) = alloc_chrdev_region k;
          c = c\<lparr>device_major_number := major\<rparr> in
      if ret < 0 then Some (0, c)
      else
        let c = c\<lparr>region_registered := True\<rparr> in
        if cdev_add k < 0 then Some (0, unregister_chrdev_region (unregister_chrdev_region c))
        else
          let c = c\<lparr>cdev_live := True\<rparr> in
          if \<not> class_create k then None
          else
            let c = c\<lparr>devclass := Live (), device_node := True\<rparr> in
            Some (0, unregister_chrdev_region c))"

text \<open>Destroying a class through a pointer that holds none is a fault.\<close>

definition deinit_display_chardevice :: "chardev \<Rightarrow> chardev option" where
  "deinit_display_chardevice c = (case devclass c of
     Live _ \<Rightarrow> Some (unregister_chrdev_region (c\<lparr>device_node := False, devclass := Freed, cdev_live := False\<rparr>))
   | _ \<Rightarrow> None)"

section \<open>The module\<close>

record module =
  spi_bus_index :: int
  chip_select :: int
  lcd :: display
  chr :: chardev

definition module_start :: module where
  "module_start = \<lparr>spi_bus_index = 0, chip_select = 0, lcd = display_start, chr = chardev_start\<rparr>"

definition display_module_init :: "kernel \<Rightarrow> chr_kernel \<Rightarrow> module \<Rightarrow> (int \<times> module) option" where
  "display_module_init k ck m = do {
     (r, d) \<leftarrow> init_display k (spi_bus_index m) (chip_select m) (lcd m);
     if r \<noteq> 0 then Some (- 1, m\<lparr>lcd := d\<rparr>)
     else do {
       d \<leftarrow> lcd_set_address_window k 0 0 (of_nat LCD_WIDTH - 1) (of_nat LCD_HEIGHT - 1) d;
       d \<leftarrow> lcd_fill_screen k COLOR_BLUE d;
       d \<leftarrow> lcd_fill_rectangle k 20 20 50 50 COLOR_GREEN d;
       d \<leftarrow> lcd_fill_rectangle k 40 40 80 80 COLOR_RED d;
       d \<leftarrow> lcd_put_string ''Test KERNEL mode'' 60 60 Font_11x18 COLOR_RED COLOR_BLACK d;
       d \<leftarrow> lcd_update_screen k d;
       (_, c) \<leftarrow> init_display_chardevice ck (chr m);
       Some (0, m\<lparr>lcd := d, chr := c\<rparr>) } }"

definition display_module_exit :: "module \<Rightarrow> module option" where
  "display_module_exit m = do {
     c \<leftarrow> deinit_display_chardevice (chr m);
     d \<leftarrow> lcd_deinit (lcd m);
     Some (m\<lparr>chr := c, lcd := d\<rparr>) }"

section \<open>Bytes of the framebuffer\<close>

definition fb_byte :: "(nat \<Rightarrow> 16 word) \<Rightarrow> nat \<Rightarrow> 8 word" where
  "fb_byte b i = (if even i then lo_byte (b (i div 2)) else hi_byte (b (i div 2)))"

lemma fb_byte_poke: "fb_byte (poke_byte i v b) j = (if j = i then v else fb_byte b j)"
proof -
  have m: "(0xFF00 :: 16 word) = push_bit 8 (mask 8)" "(0x00FF :: 16 word) = mask 8"
    by (simp_all add: mask_eq_exp_minus_1)
  have no: "\<not> bit v (8 + n)" for n using bit_imp_le_length [of v "8 + n"] by auto
  have lo: "lo_byte (w AND 0xFF00 OR ucast v) = v" "hi_byte (w AND 0xFF00 OR ucast v) = hi_byte w"
    "lo_byte (w AND 0x00FF OR push_bit 8 (ucast v)) = lo_byte w" "hi_byte (w AND 0x00FF OR push_bit 8 (ucast v)) = v" for w
    unfolding m by (auto intro!: bit_word_eqI simp: lo_byte_def hi_byte_def bit_simps no)
  show ?thesis
  proof (cases "j div 2 = i div 2")
    case True
    then have "j = i \<longleftrightarrow> even j = even i" by (metis div_mult_mod_eq parity_cases even_mod_2_iff mod_2_eq_odd)
    then show ?thesis using True by (auto simp: fb_byte_def poke_byte_def lo)
  next
    case False
    then show ?thesis by (auto simp: fb_byte_def poke_byte_def)
  qed
qed

lemma fb_byte_copy: "fb_byte (copy_bytes i vs b) j = (if i \<le> j \<and> j < i + length vs then vs ! (j - i) else fb_byte b j)"
proof (induction i vs b rule: copy_bytes.induct)
  case (2 i v vs b)
  show ?case
  proof (cases "j = i")
    case True
    then show ?thesis using 2 by (simp add: fb_byte_poke)
  next
    case False
    then show ?thesis using 2 by (auto simp: fb_byte_poke nth_Cons' Suc_diff_le less_eq_Suc_le)
  qed
qed auto

lemma fb_bytes_eq: "fb_bytes b = map (fb_byte b) [0..<get_framebuffer_size]"
proof (rule nth_equalityI)
  fix i assume "i < length (fb_bytes b)"
  then have i: "i < get_framebuffer_size" by (simp add: fb_bytes_length)
  then have "i div 2 < fb_size" by (simp add: get_framebuffer_size_def)
  from fb_bytes_nth [OF this, of b] have "fb_bytes b ! i = fb_byte b i"
    by (cases "even i") (auto simp: fb_byte_def elim!: evenE oddE)
  with i show "fb_bytes b ! i = map (fb_byte b) [0..<get_framebuffer_size] ! i" by simp
qed (simp add: fb_bytes_length)

end
