(* ===== verification/Display.thy ===== *)
theory Display
  imports Chardev
begin

text \<open>
  The display driver as a whole: what its routines draw and send, where they leave the
  framebuffer, and what the module has registered and allocated at each point of its life.
\<close>

section \<open>A working and a failing kernel\<close>

definition good_kernel :: kernel where
  "good_kernel = \<lparr>gpio_direction_output = (\<lambda>_. 0), gpio_direction_input = (\<lambda>_. 0), kernel_gpio_get_value = (\<lambda>_. 0),
     spi_busnum_to_master = (\<lambda>_. True), spi_new_device = (\<lambda>_ _. True), spi_sync = 0, kmalloc = Some (\<lambda>_. 0)\<rparr>"

definition good_chr :: chr_kernel where
  "good_chr = \<lparr>alloc_chrdev_region = (0, 240), cdev_add = 0, class_create = True\<rparr>"

definition blank :: display where
  "blank = display_start\<lparr>frame_buffer := Live (\<lambda>_. 0), spi_device_master := Live ()\<rparr>"

lemma blank_ready [simp]: "ready blank" "has_frame blank"
  by (simp_all add: blank_def ready_def has_frame_def)

lemma blank_pixel [simp]: "pixel blank x y = 0"
  by (simp add: blank_def pixel_def)

section \<open>Initialisation of the panel\<close>

definition encode_transaction :: "8 word \<times> 8 word list \<times> nat \<Rightarrow> 8 word list" where
  "encode_transaction = (\<lambda>(c, args, t). c # of_nat (length args) # of_nat t # args)"

lemma init_sequence_encodes: "concat (map encode_transaction init_sequence) = Commands"
  by code_simp

lemma init_sequence_length: "length init_sequence = 59"
  by code_simp

text \<open>The panel is initialised with exactly the 59 transactions of the table: the loop
  reads every byte of \<open>Commands\<close> once and none past its end, and puts each command, its
  arguments and its delay on the bus in order.\<close>

theorem init_sends_the_table:
  assumes "ready d"
  shows "\<exists>ts. concat (map encode_transaction ts) = Commands \<and> length ts = COMMANDS_TRANSACTIONS_COUNT \<and>
    init_display_internal k d = Some (d\<lparr>bus := bus d @ concat (map transaction_events ts)\<rparr>)"
  using init_display_internal_ready [OF assms] init_sequence_encodes init_sequence_length
  by (intro exI [of _ init_sequence]) (simp add: COMMANDS_TRANSACTIONS_COUNT_def)

theorem init_sends_the_table_witness:
  "\<exists>ts. concat (map encode_transaction ts) = Commands \<and> length ts = COMMANDS_TRANSACTIONS_COUNT \<and>
    init_display_internal good_kernel blank = Some (blank\<lparr>bus := bus blank @ concat (map transaction_events ts)\<rparr>)"
  by (rule init_sends_the_table [OF blank_ready(1)])

section \<open>Drawing\<close>

text \<open>C24: What \<^verbatim>\<open>lcd_fill_rectangle\<close> does for every rectangle. One whose corner is off the screen does nothing. Otherwise the routine paints
  the pixels of the rectangle that are on the screen and leaves all others alone, but for the clipping tests, which are one
  too generous: with the right edge one past the screen it also paints the first pixel of each next row, and with the bottom edge one past the
  screen, or that right edge and a bottom edge at or below the screen's, it writes past the end of the framebuffer.\<close>

theorem fill_rectangle_correct:
  assumes "ready d" "has_frame d"
  shows "if LCD_WIDTH \<le> unat x \<or> LCD_HEIGHT \<le> unat y then lcd_fill_rectangle k x y w h color d = Some d
    else if rectangle_overflows (unat x) (unat y) (unat w) (unat h) then lcd_fill_rectangle k x y w h color d = None
    else \<exists>d'. lcd_fill_rectangle k x y w h color d = Some d' \<and>
      (\<forall>px < LCD_WIDTH. \<forall>py < LCD_HEIGHT. pixel d' px py =
        (if rectangle_paints (unat x) (unat y) (unat w) (unat h) px py then swap_bytes color else pixel d px py))"
  using fill_rectangle_exact [OF assms, of x y w h k color] fill_rectangle_outside by simp

theorem fill_rectangle_correct_witness:
  "\<exists>d'. lcd_fill_rectangle good_kernel 20 20 50 300 COLOR_GREEN blank = Some d' \<and>
    pixel d' 69 239 = swap_bytes COLOR_GREEN \<and> pixel d' 70 239 = 0"
proof -
  have "\<not> (LCD_WIDTH \<le> unat (20 :: 16 word) \<or> LCD_HEIGHT \<le> unat (20 :: 16 word))"
    "\<not> rectangle_overflows (unat (20 :: 16 word)) (unat (20 :: 16 word)) (unat (50 :: 16 word)) (unat (300 :: 16 word))"
    by (simp_all add: LCD_WIDTH_def LCD_HEIGHT_def rectangle_overflows_def)
  with fill_rectangle_correct [OF blank_ready, of 20 20 good_kernel 50 300 COLOR_GREEN]
  obtain d' where "lcd_fill_rectangle good_kernel 20 20 50 300 COLOR_GREEN blank = Some d'"
    "\<forall>px < LCD_WIDTH. \<forall>py < LCD_HEIGHT. pixel d' px py =
      (if rectangle_paints (unat (20 :: 16 word)) (unat (20 :: 16 word)) (unat (50 :: 16 word)) (unat (300 :: 16 word)) px py
       then swap_bytes COLOR_GREEN else pixel blank px py)"
    by (simp only: if_False) blast
  then show ?thesis by (intro exI [of _ d']) (simp add: LCD_WIDTH_def LCD_HEIGHT_def rectangle_paints_def)
qed

text \<open>The clipping test is off by one. A rectangle whose bottom edge is one row below the
  screen is not clipped, and its last row is written past the end of the framebuffer.\<close>

theorem fill_rectangle_writes_past_end:
  assumes "has_frame d" "unat x < LCD_WIDTH" "unat y < LCD_HEIGHT"
    and "0 < unat w" "unat x + unat w \<le> LCD_WIDTH" "unat y + unat h = LCD_HEIGHT + 1"
  shows "lcd_fill_rectangle k x y w h color d = None"
  using assms by (rule fill_rectangle_overflow)

theorem fill_rectangle_writes_past_end_witness:
  "lcd_fill_rectangle good_kernel 0 0 240 241 COLOR_RED blank = None"
  by (rule fill_rectangle_writes_past_end) (simp_all add: LCD_WIDTH_def LCD_HEIGHT_def)

text \<open>In the same way a rectangle whose right edge is one column past the screen paints the
  first pixel of the next row.\<close>

theorem fill_rectangle_spills:
  assumes "ready d" "has_frame d" "unat x < LCD_WIDTH" "unat y + 1 < LCD_HEIGHT"
    and "unat x + unat w = LCD_WIDTH + 1" "unat h = 1"
  shows "\<exists>d'. lcd_fill_rectangle k x y w h color d = Some d' \<and> pixel d' 0 (unat y + 1) = swap_bytes color"
  using assms by (rule fill_rectangle_spill)

theorem fill_rectangle_spills_witness:
  "\<exists>d'. lcd_fill_rectangle good_kernel 200 10 41 1 COLOR_RED blank = Some d' \<and> pixel d' 0 (unat (10 :: 16 word) + 1) = swap_bytes COLOR_RED"
  by (rule fill_rectangle_spills) (simp_all add: LCD_WIDTH_def LCD_HEIGHT_def)

text \<open>Filling the screen paints all but its last row and its last column: the routine passes
  \<open>LCD_WIDTH - 1\<close> and \<open>LCD_HEIGHT - 1\<close> where a width and a height are expected.\<close>

theorem fill_screen_misses_the_edges:
  assumes "ready d" "has_frame d"
  shows "\<exists>d'. lcd_fill_screen k color d = Some d' \<and>
    (\<forall>px < LCD_WIDTH. \<forall>py < LCD_HEIGHT. pixel d' px py =
      (if px < LCD_WIDTH - 1 \<and> py < LCD_HEIGHT - 1 then swap_bytes color else pixel d px py))"
  using lcd_fill_screen_draws [OF assms] by blast

theorem fill_screen_misses_the_edges_witness:
  "\<exists>d'. lcd_fill_screen good_kernel COLOR_BLUE blank = Some d' \<and>
    pixel d' 238 238 = swap_bytes COLOR_BLUE \<and> pixel d' 239 0 = 0 \<and> pixel d' 0 239 = 0"
proof -
  obtain d' where "lcd_fill_screen good_kernel COLOR_BLUE blank = Some d'"
    "\<forall>px < LCD_WIDTH. \<forall>py < LCD_HEIGHT. pixel d' px py =
      (if px < LCD_WIDTH - 1 \<and> py < LCD_HEIGHT - 1 then swap_bytes COLOR_BLUE else pixel blank px py)"
    using fill_screen_misses_the_edges [OF blank_ready] by blast
  then show ?thesis by (intro exI [of _ d']) (simp add: LCD_WIDTH_def LCD_HEIGHT_def)
qed

text \<open>Drawing a pixel changes that pixel only, and the update that follows sends its color
  high byte first at the place of the pixel in the stream.\<close>

theorem draw_pixel_on_the_wire:
  assumes "ready d" "has_frame d" "unat x < LCD_WIDTH" "unat y < LCD_HEIGHT"
  shows "\<exists>d' bs. lcd_draw_pixel k x y color d = Some d' \<and>
    (\<forall>px < LCD_WIDTH. \<forall>py. (px, py) \<noteq> (unat x, unat y) \<longrightarrow> pixel d' px py = pixel d px py) \<and>
    bus d' = bus d @ data_events bs \<and> length bs = get_framebuffer_size \<and>
    bs ! (2 * (unat x + LCD_WIDTH * unat y)) = hi_byte color \<and>
    bs ! (2 * (unat x + LCD_WIDTH * unat y) + 1) = lo_byte color"
proof -
  from lcd_draw_pixel_draws [OF assms, of k color] obtain d' b where d':
    "lcd_draw_pixel k x y color d = Some d'" "frame_buffer d' = Live b"
    "\<forall>px < LCD_WIDTH. \<forall>py. pixel d' px py = (if px = unat x \<and> py = unat y then swap_bytes color else pixel d px py)"
    "bus d' = bus d @ data_events (fb_bytes b)" by blast
  have "b (unat x + LCD_WIDTH * unat y) = swap_bytes color"
    using d'(2) d'(3) assms(3) by (auto simp: pixel_def)
  with fb_bytes_nth [OF pixel_index_bound [OF assms(3,4)], of b] d' show ?thesis
    by (intro exI [of _ d'] exI [of _ "fb_bytes b"]) (simp add: swap_bytes_wire fb_bytes_length)
qed

theorem draw_pixel_on_the_wire_witness:
  "\<exists>d' bs. lcd_draw_pixel good_kernel 5 1 COLOR_RED blank = Some d' \<and> bus d' = bus blank @ data_events bs \<and>
    bs ! 490 = 0xF8 \<and> bs ! 491 = 0"
proof -
  obtain d' bs where "lcd_draw_pixel good_kernel 5 1 COLOR_RED blank = Some d'" "bus d' = bus blank @ data_events bs"
    "bs ! (2 * (unat (5 :: 16 word) + LCD_WIDTH * unat (1 :: 16 word))) = hi_byte COLOR_RED"
    "bs ! (2 * (unat (5 :: 16 word) + LCD_WIDTH * unat (1 :: 16 word)) + 1) = lo_byte COLOR_RED"
    using draw_pixel_on_the_wire [OF blank_ready, of 5 1 good_kernel COLOR_RED] by (auto simp: LCD_WIDTH_def LCD_HEIGHT_def)
  moreover have "hi_byte COLOR_RED = 0xF8" "lo_byte COLOR_RED = 0" by code_simp+
  ultimately show ?thesis by (auto simp: LCD_WIDTH_def)
qed

section \<open>Text\<close>

text \<open>A printable character drawn inside the screen sets exactly the pixels of its cell, in
  the color where the glyph of the font has a bit and in the background color elsewhere.\<close>

theorem put_char_correct:
  assumes "font_ok font" "printable ch" "has_frame d"
    and "unat x + unat (width font) \<le> LCD_WIDTH" "unat y + unat (height font) \<le> LCD_HEIGHT"
  shows "\<exists>d'. lcd_put_char x y ch font color bgcolor d = Some d' \<and>
    (\<forall>px < LCD_WIDTH. \<forall>py. pixel d' px py =
      (if unat x \<le> px \<and> px < unat x + unat (width font) \<and> unat y \<le> py \<and> py < unat y + unat (height font)
       then (if glyph font ch (px - unat x) (py - unat y) then swap_bytes color else swap_bytes bgcolor)
       else pixel d px py))"
  using lcd_put_char_draws [OF assms] by blast

theorem put_char_correct_witness:
  "\<exists>d'. lcd_put_char 100 100 CHR ''!'' Font_7x10 COLOR_RED COLOR_BLUE blank = Some d' \<and>
    pixel d' 103 100 = (if glyph Font_7x10 CHR ''!'' 3 0 then swap_bytes COLOR_RED else swap_bytes COLOR_BLUE) \<and>
    pixel d' 107 100 = 0"
proof -
  have "printable CHR ''!''" by (simp add: printable_def)
  from put_char_correct [OF font_ok_7x10 this blank_ready(2), of 100 100 COLOR_RED COLOR_BLUE]
  obtain d' where "lcd_put_char 100 100 CHR ''!'' Font_7x10 COLOR_RED COLOR_BLUE blank = Some d'"
    "\<forall>px < LCD_WIDTH. \<forall>py. pixel d' px py =
      (if 100 \<le> px \<and> px < 107 \<and> 100 \<le> py \<and> py < 110
       then (if glyph Font_7x10 CHR ''!'' (px - 100) (py - 100) then swap_bytes COLOR_RED else swap_bytes COLOR_BLUE)
       else pixel blank px py)"
    by (auto simp: LCD_WIDTH_def LCD_HEIGHT_def)
  then show ?thesis by (intro exI [of _ d']) (simp add: LCD_WIDTH_def)
qed

text \<open>C22: A string of printable characters that fits on its line is drawn without leaving the
  framebuffer, each character in its own cell from left to right.\<close>

theorem put_string_correct:
  assumes "font_ok font" "list_all printable str" "has_frame d"
    and "unat x + length str * unat (width font) \<le> LCD_WIDTH" "unat y + unat (height font) \<le> LCD_HEIGHT"
  shows "\<exists>d'. lcd_put_string str x y font color bgcolor d = Some d' \<and>
    (\<forall>px < LCD_WIDTH. \<forall>py. pixel d' px py =
      (if unat x \<le> px \<and> px < unat x + length str * unat (width font) \<and> unat y \<le> py \<and> py < unat y + unat (height font)
       then (if text_pixel font str (px - unat x) (py - unat y) then swap_bytes color else swap_bytes bgcolor)
       else pixel d px py))"
  using put_string_line [OF assms] unfolding lcd_put_string_def by blast

theorem put_string_correct_witness:
  "\<exists>d'. lcd_put_string ''Test KERNEL mode'' 60 60 Font_11x18 COLOR_RED COLOR_BLACK blank = Some d'"
proof -
  have "list_all printable ''Test KERNEL mode''" by (simp add: printable_def)
  from put_string_correct [OF font_ok_11x18 this blank_ready(2), of 60 60 COLOR_RED COLOR_BLACK]
  show ?thesis by (auto simp: LCD_WIDTH_def LCD_HEIGHT_def)
qed

text \<open>The test for the bottom of the screen comes before the line wrap: a string that wraps
  from the last line on the screen writes past the end of the framebuffer.\<close>

theorem put_string_wraps_past_end:
  assumes "font_ok font" "list_all printable (cs @ [ch])" "has_frame d"
    and "unat x + length cs * unat (width font) \<le> LCD_WIDTH" "LCD_WIDTH < unat x + Suc (length cs) * unat (width font)"
      "unat x + unat (width font) \<le> LCD_WIDTH"
    and "unat y + unat (height font) \<le> LCD_HEIGHT" "LCD_HEIGHT < unat y + 2 * unat (height font)"
  shows "lcd_put_string (cs @ [ch]) x y font color bgcolor d = None"
  using assms by (rule put_string_wraps_below)

theorem put_string_wraps_past_end_witness:
  "lcd_put_string (''192.168.100.100 eth0 '' @ ''x'') 0 220 Font_11x18 COLOR_RED COLOR_BLACK blank = None"
  by (rule put_string_wraps_past_end [OF font_ok_11x18]) (simp_all add: printable_def LCD_WIDTH_def LCD_HEIGHT_def)

text \<open>A character outside the printable range makes the routine read outside the font, a
  newline for example.\<close>

theorem put_char_reads_outside_font:
  assumes "font_ok font" "\<not> printable ch" "0 < unat (height font)"
  shows "lcd_put_char x y ch font color bgcolor d = None"
  using assms by (rule lcd_put_char_unprintable)

theorem put_char_reads_outside_font_witness:
  "lcd_put_char 60 180 CHR ''\<newline>'' Font_11x18 COLOR_RED COLOR_BLACK blank = None"
  by (rule put_char_reads_outside_font [OF font_ok_11x18]) (simp_all add: printable_def)

section \<open>The character device\<close>

text \<open>C25: A write of at most a screenful reaches the panel: the bytes of the user replace the
  first bytes of the framebuffer, the rest stays, and one transfer carries the result; the call
  returns the length.\<close>

theorem chardev_write_correct:
  assumes "ready d" "frame_buffer d = Live b" "length buffer = len" "len \<le> get_framebuffer_size"
  shows "\<exists>d'. display_chardev_write k buffer len d = Some (int len, d') \<and>
    bus d' = bus d @ data_events (buffer @ drop len (fb_bytes b))"
proof -
  let ?b = "copy_bytes 0 buffer b"
  have "fb_bytes ?b = buffer @ drop len (fb_bytes b)"
    using assms(3,4)
    by (intro nth_equalityI) (auto simp: fb_bytes_length fb_bytes_eq fb_byte_copy nth_append)
  then show ?thesis
    using assms lcd_update_screen_ready [of "d\<lparr>frame_buffer := Live ?b\<rparr>" ?b k]
    by (simp add: display_chardev_write_def copy_from_user_def)
qed

theorem chardev_write_correct_witness:
  "\<exists>d'. display_chardev_write good_kernel [0xF8, 0x00] 2 blank = Some (2, d') \<and>
    bus d' = bus blank @ data_events ([0xF8, 0x00] @ drop 2 (fb_bytes (\<lambda>_. 0)))"
  using chardev_write_correct [of blank "\<lambda>_. 0" "[0xF8, 0x00]" 2 good_kernel]
  by (simp add: get_framebuffer_size_def fb_size_def LCD_WIDTH_def LCD_HEIGHT_def) (simp add: blank_def)

text \<open>The error paths of a write: one that is longer than the screen is refused and changes
  nothing; one whose buffer cannot be read completely reports a bad address and sends nothing.\<close>

theorem chardev_write_errors:
  "(len > get_framebuffer_size \<longrightarrow> display_chardev_write k buffer len d = Some (- EIO, d)) \<and>
   (has_frame d \<and> length buffer < len \<and> len \<le> get_framebuffer_size \<longrightarrow>
     (\<exists>d'. display_chardev_write k buffer len d = Some (- EFAULT, d') \<and> bus d' = bus d))"
  by (auto simp: display_chardev_write_def copy_from_user_def has_frame_def)

theorem chardev_write_errors_witness:
  "display_chardev_write good_kernel [] 115201 blank = Some (- 5, blank) \<and>
   (\<exists>d'. display_chardev_write good_kernel [1, 2] 3 blank = Some (- 14, d') \<and> bus d' = bus blank)"
  using chardev_write_errors [of 115201 good_kernel "[]" blank] chardev_write_errors [of 3 good_kernel "[1, 2]" blank]
  by (simp add: EIO_def EFAULT_def get_framebuffer_size_def fb_size_def LCD_WIDTH_def LCD_HEIGHT_def)

section \<open>The life of the module\<close>

lemma init_display_good:
  assumes "spi_busnum_to_master k i" "spi_new_device k i c" "kmalloc k = Some b"
  shows "\<exists>d'. init_display k i c d = Some (0, d') \<and> ready d' \<and> frame_buffer d' = Live b"
proof -
  let ?d = "(lcd_reset (snd (gpio_module_init_out k GPIO_PIN_DC (snd (gpio_module_init_out k GPIO_PIN_RESET d)))))
     \<lparr>board_bus_num := i, board_chip_select := c\<rparr>"
  let ?d2 = "(emit (Spi_new i c) ?d)\<lparr>spi_device_master := Live (), frame_buffer := Live b\<rparr>"
  have "ready ?d2" by (simp add: ready_def)
  from init_display_internal_ready [OF this, of k] assms show ?thesis
    by (simp add: init_display_def init_spi_wrapper_def Let_def case_prod_unfold ready_def)
qed

lemma address_window_ready:
  "ready d \<Longrightarrow> \<exists>b. lcd_set_address_window k x0 y0 x1 y1 d = Some (d\<lparr>bus := b\<rparr>)"
  by (simp add: lcd_set_address_window_def lcd_write_command_ready lcd_write_data_ready) blast

lemma update_screen_ok:
  assumes "ready d" "has_frame d"
  shows "\<exists>b. lcd_update_screen k d = Some (d\<lparr>bus := b\<rparr>)"
  using assms by (auto elim!: has_frameE simp: lcd_update_screen_ready)

lemma module_pictures:
  assumes d: "ready d" "has_frame d"
  shows "\<exists>d'. do {
       d \<leftarrow> lcd_set_address_window k 0 0 (of_nat LCD_WIDTH - 1) (of_nat LCD_HEIGHT - 1) d;
       d \<leftarrow> lcd_fill_screen k COLOR_BLUE d;
       d \<leftarrow> lcd_fill_rectangle k 20 20 50 50 COLOR_GREEN d;
       d \<leftarrow> lcd_fill_rectangle k 40 40 80 80 COLOR_RED d;
       d \<leftarrow> lcd_put_string ''Test KERNEL mode'' 60 60 Font_11x18 COLOR_RED COLOR_BLACK d;
       lcd_update_screen k d } = Some d' \<and> ready d' \<and> has_frame d'"
proof -
  obtain b where 1: "lcd_set_address_window k 0 0 (of_nat LCD_WIDTH - 1) (of_nat LCD_HEIGHT - 1) d = Some (d\<lparr>bus := b\<rparr>)"
    using address_window_ready [OF d(1)] by blast
  obtain d2 where 2: "lcd_fill_screen k COLOR_BLUE (d\<lparr>bus := b\<rparr>) = Some d2" "ready d2" "has_frame d2"
    using lcd_fill_screen_draws [of "d\<lparr>bus := b\<rparr>" k COLOR_BLUE] d by auto
  obtain d3 where 3: "lcd_fill_rectangle k 20 20 50 50 COLOR_GREEN d2 = Some d3" "ready d3" "has_frame d3"
    using fill_rectangle_draws [OF 2(2,3), of 20 20 50 50 k COLOR_GREEN] by (auto simp: LCD_WIDTH_def LCD_HEIGHT_def)
  obtain d4 where 4: "lcd_fill_rectangle k 40 40 80 80 COLOR_RED d3 = Some d4" "ready d4" "has_frame d4"
    using fill_rectangle_draws [OF 3(2,3), of 40 40 80 80 k COLOR_RED] by (auto simp: LCD_WIDTH_def LCD_HEIGHT_def)
  have "list_all printable ''Test KERNEL mode''" by (simp add: printable_def)
  from put_string_line [OF font_ok_11x18 this 4(3), of 60 60 60 COLOR_RED COLOR_BLACK] obtain d5 where
    5: "lcd_put_string ''Test KERNEL mode'' 60 60 Font_11x18 COLOR_RED COLOR_BLACK d4 = Some d5" "has_frame d5" "same_device d4 d5"
    by (auto simp: lcd_put_string_def LCD_WIDTH_def LCD_HEIGHT_def)
  have r5: "ready d5" using 4(2) same_device_ready [OF 5(3)] by simp
  obtain b6 where 6: "lcd_update_screen k d5 = Some (d5\<lparr>bus := b6\<rparr>)" using update_screen_ok [OF r5 5(2)] by blast
  from 1 2(1) 3(1) 4(1) 5(1,2) 6 r5 show ?thesis by simp
qed

text \<open>C26: With a working kernel the module loads: every drawing of the test picture stays inside
  the framebuffer, the result is zero, and unloading frees the framebuffer, the SPI device, the
  device node, the class and the character device, each once.\<close>

theorem module_loads_and_unloads:
  assumes "spi_busnum_to_master k (spi_bus_index m)" "spi_new_device k (spi_bus_index m) (chip_select m)"
    "kmalloc k = Some b" "fst (alloc_chrdev_region ck) = 0" "cdev_add ck = 0" "class_create ck"
  shows "\<exists>m1 m2. display_module_init k ck m = Some (0, m1) \<and> display_module_exit m1 = Some m2 \<and>
    cdev_live (chr m1) \<and> device_node (chr m1) \<and>
    frame_buffer (lcd m2) = Freed \<and> spi_device_master (lcd m2) = Freed \<and> \<not> cdev_live (chr m2) \<and>
    \<not> device_node (chr m2) \<and> devclass (chr m2) = Freed"
proof -
  obtain d1 where d1: "init_display k (spi_bus_index m) (chip_select m) (lcd m) = Some (0, d1)" "ready d1" "frame_buffer d1 = Live b"
    using init_display_good [OF assms(1-3)] by blast
  then have "has_frame d1" by (simp add: has_frame_def)
  from module_pictures [OF d1(2) this, of k] obtain d2 where d2: "do {
       d \<leftarrow> lcd_set_address_window k 0 0 (of_nat LCD_WIDTH - 1) (of_nat LCD_HEIGHT - 1) d1;
       d \<leftarrow> lcd_fill_screen k COLOR_BLUE d;
       d \<leftarrow> lcd_fill_rectangle k 20 20 50 50 COLOR_GREEN d;
       d \<leftarrow> lcd_fill_rectangle k 40 40 80 80 COLOR_RED d;
       d \<leftarrow> lcd_put_string ''Test KERNEL mode'' 60 60 Font_11x18 COLOR_RED COLOR_BLACK d;
       lcd_update_screen k d } = Some d2" "ready d2" "has_frame d2" by blast
  obtain c where c: "init_display_chardevice ck (chr m) = Some (0, c)" "cdev_live c" "device_node c" "devclass c = Live ()"
    using assms(4-6) by (auto simp: init_display_chardevice_def Let_def case_prod_unfold unregister_chrdev_region_def)
  have i: "display_module_init k ck m = Some (0, m\<lparr>lcd := d2, chr := c\<rparr>)"
    using d1(1) d2(1) c(1) by (auto simp: display_module_init_def bind_eq_Some_conv)
  obtain b2 where "frame_buffer d2 = Live b2" using d2(3) by (rule has_frameE)
  with d2(2) c show ?thesis unfolding i
    by (simp add: display_module_exit_def deinit_display_chardevice_def lcd_deinit_def deinit_spi_wrapper_def ready_def
        emit_def gpio_module_free_def unregister_chrdev_region_def)
qed

theorem module_loads_and_unloads_witness:
  "\<exists>m1 m2. display_module_init good_kernel good_chr module_start = Some (0, m1) \<and> display_module_exit m1 = Some m2 \<and>
    cdev_live (chr m1) \<and> device_node (chr m1) \<and>
    frame_buffer (lcd m2) = Freed \<and> spi_device_master (lcd m2) = Freed \<and> \<not> cdev_live (chr m2) \<and>
    \<not> device_node (chr m2) \<and> devclass (chr m2) = Freed"
  by (rule module_loads_and_unloads) (simp_all add: good_kernel_def good_chr_def)

text \<open>After a successful registration the driver runs into its error path: it gives the
  device numbers back while the character device is live, and unloading gives them back a
  second time.\<close>

theorem registration_falls_through:
  assumes "alloc_chrdev_region ck = (0, major)" "cdev_add ck = 0" "class_create ck"
  shows "\<exists>c1 c2. init_display_chardevice ck chardev_start = Some (0, c1) \<and> cdev_live c1 \<and> \<not> region_registered c1 \<and>
    deinit_display_chardevice c1 = Some c2 \<and> unregistered c2 = [major, major]"
  using assms
  by (auto simp: init_display_chardevice_def Let_def unregister_chrdev_region_def chardev_start_def deinit_display_chardevice_def)

theorem registration_falls_through_witness:
  "\<exists>c1 c2. init_display_chardevice good_chr chardev_start = Some (0, c1) \<and> cdev_live c1 \<and> \<not> region_registered c1 \<and>
    deinit_display_chardevice c1 = Some c2 \<and> unregistered c2 = [240, 240]"
  by (rule registration_falls_through) (simp_all add: good_chr_def)

text \<open>The registration reports success whatever happens: with the device numbers refused, or
  the character device refused, the result is zero, the module loads, and unloading it
  dereferences a class that was never created.\<close>

theorem registration_hides_errors:
  assumes "fst (alloc_chrdev_region ck) < 0 \<or> cdev_add ck < 0"
  shows "\<exists>c. init_display_chardevice ck chardev_start = Some (0, c) \<and> \<not> cdev_live c \<and> deinit_display_chardevice c = None"
  using assms
  by (auto simp: init_display_chardevice_def Let_def case_prod_unfold unregister_chrdev_region_def chardev_start_def deinit_display_chardevice_def)

theorem registration_hides_errors_witness:
  "\<exists>c. init_display_chardevice (good_chr\<lparr>cdev_add := - 12\<rparr>) chardev_start = Some (0, c) \<and> \<not> cdev_live c \<and> deinit_display_chardevice c = None"
  by (rule registration_hides_errors) (simp add: good_chr_def)

text \<open>When the framebuffer cannot be allocated the module refuses to load and leaves the SPI
  device registered and both pins requested, with nobody to free them.\<close>

theorem failed_load_leaks:
  assumes "spi_busnum_to_master k (spi_bus_index m)" "spi_new_device k (spi_bus_index m) (chip_select m)" "kmalloc k = None"
  shows "\<exists>m'. display_module_init k ck m = Some (- 1, m') \<and> spi_device_master (lcd m') = Live () \<and>
    Spi_unregister \<notin> set (drop (length (bus (lcd m))) (bus (lcd m'))) \<and>
    (\<forall>pin. Gpio_free pin \<notin> set (drop (length (bus (lcd m))) (bus (lcd m'))))"
  using assms
  by (auto simp: display_module_init_def init_display_def init_spi_wrapper_def Let_def gpio_module_init_out_def lcd_reset_def
      gpio_module_set_value_def emit_def)

theorem failed_load_leaks_witness:
  "\<exists>m'. display_module_init (good_kernel\<lparr>kmalloc := None\<rparr>) good_chr module_start = Some (- 1, m') \<and>
    spi_device_master (lcd m') = Live ()"
proof -
  have "\<exists>m'. display_module_init (good_kernel\<lparr>kmalloc := None\<rparr>) good_chr module_start = Some (- 1, m') \<and>
      spi_device_master (lcd m') = Live () \<and>
      Spi_unregister \<notin> set (drop (length (bus (lcd module_start))) (bus (lcd m'))) \<and>
      (\<forall>pin. Gpio_free pin \<notin> set (drop (length (bus (lcd module_start))) (bus (lcd m'))))"
    by (rule failed_load_leaks) (simp_all add: good_kernel_def)
  then show ?thesis by blast
qed

end
