(* ===== verification/RunLength.thy ===== *)
theory RunLength
  imports Prelude
begin

text \<open>
  The run-length coder of \<^verbatim>\<open>task3\<close>: \<^verbatim>\<open>encoder.c\<close> writes each run of a line as its
  length in decimal and the character, \<^verbatim>\<open>decoder.c\<close> reads pairs of a digit and a
  character. A read or write outside a buffer is a fault.
\<close>

section \<open>The encoder\<close>

text \<open>\<open>s\<close> is the string with its terminating NUL.\<close>

function count_run :: "string \<Rightarrow> nat \<Rightarrow> int \<Rightarrow> (nat \<times> int) option" where
  "count_run s i counter =
     (if Suc i < length s then
        (if s ! i = s ! Suc i then do { counter \<leftarrow> c_add counter 1; count_run s (Suc i) counter }
         else Some (i, counter))
      else None)"
  by auto

termination by (relation "measure (\<lambda>(s, i, _). length s - i)") auto

declare count_run.simps [simp del]

text \<open>Writing a text and its NUL at an offset of a buffer.\<close>

definition sprintf_at :: "string \<Rightarrow> nat \<Rightarrow> string \<Rightarrow> string option" where
  "sprintf_at buf off t = poke buf off (t @ [NUL])"

text \<open>\<open>output_buffer\<close> is \<open>None\<close> for a NULL pointer.\<close>

function (sequential) encode_from ::
  "string \<Rightarrow> nat \<Rightarrow> nat \<Rightarrow> string option \<Rightarrow> nat \<Rightarrow> nat \<Rightarrow> (nat \<times> string option) option" where
  "encode_from s string_length i output_buffer buffer_size output_buffer_length =
     (if i < string_length then
        (case count_run s i 1 of
           None \<Rightarrow> None
         | Some (j, counter) \<Rightarrow>
             (case (if output_buffer \<noteq> None \<and> buffer_size \<ge> output_buffer_length + 2
                    then map_option Some (sprintf_at (the output_buffer) output_buffer_length (show_int counter @ [s ! j]))
                    else Some output_buffer) of
                None \<Rightarrow> None
              | Some output_buffer \<Rightarrow>
                  if j < i then None
                  else encode_from s string_length (Suc j) output_buffer buffer_size (output_buffer_length + 2)))
      else Some (output_buffer_length, output_buffer))"
  by auto

termination by (relation "measure (\<lambda>(s, n, i, _). n - i)") auto

declare encode_from.simps [simp del]

text \<open>The result code, the size needed, and the buffer.\<close>

definition encode :: "string option \<Rightarrow> nat \<Rightarrow> string option \<Rightarrow> nat option \<Rightarrow> (int \<times> nat option \<times> string option) option" where
  "encode input_string string_length output_buffer output_buffer_size =
     (case (input_string, output_buffer_size) of
        (Some s, Some sz) \<Rightarrow>
          if string_length = 0 then Some (- 2, output_buffer_size, output_buffer)
          else do {
            (len, buf) \<leftarrow> encode_from s string_length 0 output_buffer sz 0;
            Some (0, Some len, buf) }
      | _ \<Rightarrow> Some (- 2, output_buffer_size, output_buffer))"

text \<open>What the program does with one line: measure, allocate, encode, print up to the NUL.\<close>

definition encode_line :: "string \<Rightarrow> string option" where
  "encode_line line = do {
     (_, sz, _) \<leftarrow> encode (Some (line @ [NUL])) (length line) None (Some 0);
     n \<leftarrow> sz;
     (_, _, buf) \<leftarrow> encode (Some (line @ [NUL])) (length line) (Some (replicate n (CHR ''?''))) (Some n);
     b \<leftarrow> buf;
     if NUL \<in> set b then Some (takeWhile (\<lambda>c. c \<noteq> NUL) b) else None }"

section \<open>The decoder\<close>

function decode_from :: "string \<Rightarrow> nat \<Rightarrow> nat \<Rightarrow> string option" where
  "decode_from s string_length i =
     (if i < string_length - 1 then
        (if Suc i < length s then do {
           rest \<leftarrow> decode_from s string_length (i + 2);
           Some (replicate (nat (char_int (s ! i) - 48)) (s ! Suc i) @ rest) }
         else None)
      else Some [])"
  by auto

termination by (relation "measure (\<lambda>(s, n, i). n - i)") auto

declare decode_from.simps [simp del]

definition decode :: "string option \<Rightarrow> nat \<Rightarrow> (int \<times> string) option" where
  "decode input_string string_length =
     (case input_string of
        None \<Rightarrow> Some (- 2, [])
      | Some s \<Rightarrow>
          if string_length = 0 then Some (- 2, [])
          else do { out \<leftarrow> decode_from s string_length 0; Some (0, out) })"

section \<open>Runs\<close>

fun runs :: "string \<Rightarrow> (nat \<times> char) list" where
  "runs [] = []"
| "runs (c # cs) = (case runs cs of
     (n, d) # rs \<Rightarrow> if c = d then (Suc n, c) # rs else (1, c) # (n, d) # rs
   | [] \<Rightarrow> [(1, c)])"

definition expand :: "(nat \<times> char) list \<Rightarrow> string" where
  "expand rs = concat (map (\<lambda>(n, c). replicate n c) rs)"

definition coded :: "(nat \<times> char) list \<Rightarrow> string" where
  "coded rs = concat (map (\<lambda>(n, c). dec n @ [c]) rs)"

fun runs_ok :: "(nat \<times> char) list \<Rightarrow> bool" where
  "runs_ok [] = True"
| "runs_ok [(n, c)] = (0 < n \<and> c \<noteq> NUL)"
| "runs_ok ((n, c) # (m, d) # rs) = (0 < n \<and> c \<noteq> NUL \<and> c \<noteq> d \<and> runs_ok ((m, d) # rs))"

lemma expand_simps [simp]: "expand [] = []" "expand ((n, c) # rs) = replicate n c @ expand rs"
  by (simp_all add: expand_def)

lemma coded_simps [simp]: "coded [] = []" "coded ((n, c) # rs) = dec n @ c # coded rs"
  by (simp_all add: coded_def)

lemma expand_runs: "expand (runs s) = s"
  by (induction s) (auto split: list.split)

lemma runs_Nil [simp]: "runs s = [] \<longleftrightarrow> s = []"
  by (cases s) (auto split: list.split)

lemma runs_ok_runs: "NUL \<notin> set s \<Longrightarrow> runs_ok (runs s)"
proof (induction s)
  case (Cons c cs)
  then have "runs_ok (runs cs)" by simp
  then show ?case using Cons.prems
    by (cases "runs cs" rule: runs_ok.cases) auto
qed simp

lemma runs_ok_tl: "runs_ok ((n, c) # rs) \<Longrightarrow> runs_ok rs"
  by (cases rs) auto

lemma runs_ok_next:
  assumes "runs_ok ((n, c) # rs)"
  shows "0 < n" "c \<noteq> NUL" "\<exists>d t. expand rs @ [NUL] = d # t \<and> d \<noteq> c"
proof -
  show "0 < n" "c \<noteq> NUL" using assms by (cases rs; auto)+
  show "\<exists>d t. expand rs @ [NUL] = d # t \<and> d \<noteq> c"
  proof (cases rs)
    case Nil
    then show ?thesis using assms by auto
  next
    case (Cons r rs')
    obtain m d where r: "r = (m, d)" by (cases r)
    have "0 < m" "c \<noteq> d" using assms Cons r by (cases rs'; auto)+
    then show ?thesis using Cons r by (cases m) auto
  qed
qed

section \<open>What the encoder computes\<close>

lemma count_run_spec:
  assumes "d \<noteq> c" "in_int (m + int k)" "0 \<le> m"
  shows "count_run (pre @ replicate (Suc k) c @ d # post) (length pre) m = Some (length pre + k, m + int k)"
  using assms
proof (induction k arbitrary: pre m)
  case 0
  then show ?case by (subst count_run.simps) (simp add: nth_append)
next
  case (Suc k)
  have "c_add m 1 = Some (m + 1)" using Suc.prems by (simp add: c_simps in_int_def)
  moreover have "count_run ((pre @ [c]) @ replicate (Suc k) c @ d # post) (length (pre @ [c])) (m + 1) =
      Some (length (pre @ [c]) + k, m + 1 + int k)"
    using Suc.prems by (intro Suc.IH) (auto simp: algebra_simps)
  ultimately show ?case by (subst count_run.simps) (simp add: nth_append algebra_simps)
qed

lemma count_run_first:
  assumes r: "runs_ok ((n, c) # rs)" and n: "n \<le> 2147483647"
  shows "count_run (pre @ expand ((n, c) # rs) @ [NUL]) (length pre) 1 = Some (length pre + n - 1, int n)"
    "(pre @ expand ((n, c) # rs) @ [NUL]) ! (length pre + n - 1) = c"
proof -
  obtain d t where d: "expand rs @ [NUL] = d # t" "d \<noteq> c" and n0: "0 < n" using runs_ok_next [OF r] by blast
  obtain k where k: "n = Suc k" using n0 by (cases n) auto
  have e: "pre @ expand ((n, c) # rs) @ [NUL] = pre @ replicate (Suc k) c @ d # t"
    using d(1) k by simp
  show "count_run (pre @ expand ((n, c) # rs) @ [NUL]) (length pre) 1 = Some (length pre + n - 1, int n)"
    unfolding e using count_run_spec [OF d(2), of 1 k pre t] n k by (simp add: in_int_def)
  show "(pre @ expand ((n, c) # rs) @ [NUL]) ! (length pre + n - 1) = c"
    unfolding e k by (simp add: nth_append del: replicate.simps)
qed

lemma show_int_of_nat: "show_int (int n) = dec n"
  by (simp add: show_int_def)

text \<open>Measuring: two bytes for each run.\<close>

lemma encode_measure:
  assumes "runs_ok rs" "\<forall>(n, c) \<in> set rs. n \<le> 2147483647"
  shows "encode_from (pre @ expand rs @ [NUL]) (length (pre @ expand rs)) (length pre) None sz len = Some (len + 2 * length rs, None)"
  using assms
proof (induction rs arbitrary: pre len)
  case Nil
  then show ?case by (subst encode_from.simps) simp
next
  case (Cons r rs)
  obtain n c where r: "r = (n, c)" by (cases r)
  have n: "n \<le> 2147483647" "0 < n" using Cons.prems r runs_ok_next(1) by auto
  have "encode_from ((pre @ replicate n c) @ expand rs @ [NUL]) (length ((pre @ replicate n c) @ expand rs))
      (length (pre @ replicate n c)) None sz (len + 2) = Some (len + 2 + 2 * length rs, None)"
    using Cons.prems runs_ok_tl r by (intro Cons.IH) auto
  with count_run_first(1) [of n c rs pre] Cons.prems(1) n r show ?case
    by (subst encode_from.simps) simp
qed

lemma encode_write:
  assumes "runs_ok rs" "\<forall>(n, c) \<in> set rs. n \<le> 9" "rs \<noteq> []" "length out + 2 * length rs \<le> sz"
    "2 * length rs < length junk"
  shows "encode_from (pre @ expand rs @ [NUL]) (length (pre @ expand rs)) (length pre) (Some (out @ junk)) sz (length out) =
    Some (length out + 2 * length rs, Some (out @ coded rs @ NUL # drop (Suc (2 * length rs)) junk))"
  using assms
proof (induction rs arbitrary: pre out junk)
  case (Cons r rs)
  obtain n c where r: "r = (n, c)" by (cases r)
  have n: "n \<le> 9" "0 < n" "n \<le> 2147483647" using Cons.prems(1,2) r runs_ok_next(1) by auto
  have dn: "length (dec n) = 1" using n(1) by (simp add: dec_small)
  note cr = count_run_first [of n c rs pre]
  let ?out = "out @ dec n @ [c]" and ?junk = "NUL # drop 3 junk"
  have w: "sprintf_at (out @ junk) (length out) (dec n @ [c]) = Some (?out @ ?junk)"
    using poke_middle [of "dec n @ [c, NUL]" junk out] Cons.prems(5) dn by (simp add: sprintf_at_def numeral_3_eq_3)
  have IH: "encode_from ((pre @ replicate n c) @ expand rs @ [NUL]) (length ((pre @ replicate n c) @ expand rs))
      (length (pre @ replicate n c)) (Some (?out @ ?junk)) sz (length ?out) =
      Some (length ?out + 2 * length rs, Some (?out @ coded rs @ NUL # drop (Suc (2 * length rs)) ?junk))"
  proof (cases "rs = []")
    case True
    then show ?thesis by (subst encode_from.simps) simp
  next
    case False
    then show ?thesis using Cons.prems runs_ok_tl r dn by (intro Cons.IH) auto
  qed
  have s: "length out + 2 \<le> sz" using Cons.prems(4) by simp
  show ?case
    using cr Cons.prems(1) n r w IH dn s
    by (subst encode_from.simps) (simp add: show_int_of_nat numeral_3_eq_3)
qed simp

section \<open>What the decoder computes\<close>

lemma decode_coded:
  assumes "\<forall>(n, c) \<in> set rs. n \<le> 9"
  shows "decode_from (pre @ coded rs @ post) (length (pre @ coded rs)) (length pre) = Some (expand rs)"
  using assms
proof (induction rs arbitrary: pre)
  case Nil
  then show ?case by (subst decode_from.simps) auto
next
  case (Cons r rs)
  obtain n c where r: "r = (n, c)" by (cases r)
  have n: "n \<le> 9" "dec n = [char_of (48 + n)]" using Cons.prems r by (auto simp: dec_small)
  have "decode_from ((pre @ dec n @ [c]) @ coded rs @ post) (length ((pre @ dec n @ [c]) @ coded rs)) (length (pre @ dec n @ [c])) =
      Some (expand rs)"
    using Cons.prems by (intro Cons.IH) auto
  then show ?case
    using n r char_int_digit [OF n(1)] by (subst decode_from.simps) (simp add: nth_append)
qed

lemma length_coded: "\<forall>(n, c) \<in> set rs. n \<le> 9 \<Longrightarrow> length (coded rs) = 2 * length rs"
  by (induction rs) (auto simp: dec_small)

lemma runs_short: "length s \<le> m \<Longrightarrow> \<forall>(n, c) \<in> set (runs s). n \<le> m"
proof -
  have "n \<le> length (expand rs)" if "(n, c) \<in> set rs" for n c rs
    using that by (induction rs) auto
  from this [of _ _ "runs s"] show "length s \<le> m \<Longrightarrow> ?thesis"
    unfolding expand_runs by fastforce
qed

section \<open>Properties\<close>

text \<open>Measuring a line without a buffer asks for two bytes for each of its runs.\<close>

theorem encode_measures:
  assumes "s \<noteq> []" "NUL \<notin> set s" "length s \<le> 2147483647"
  shows "encode (Some (s @ [NUL])) (length s) None (Some n) = Some (0, Some (2 * length (runs s)), None)"
proof -
  from encode_measure [OF runs_ok_runs [OF assms(2)] runs_short [OF assms(3)], of "[]" n 0] assms(1) show ?thesis
    by (simp add: encode_def expand_runs)
qed

theorem encode_measures_witness:
  "encode (Some (''aaabcc'' @ [NUL])) (length ''aaabcc'') None (Some 0) = Some (0, Some (2 * length (runs ''aaabcc'')), None) \<and>
    length (runs ''aaabcc'') = 3"
  using encode_measures [of "''aaabcc''" 0] by (simp add: NUL_def)

text \<open>C27: Round trip. When no run of a line is longer than nine, encoding into a buffer with room
  for the terminating NUL and decoding the result gives the line back.\<close>

theorem decode_encode:
  assumes "s \<noteq> []" "NUL \<notin> set s" "\<forall>(n, c) \<in> set (runs s). n \<le> 9" "2 * length (runs s) < length buf"
  shows "\<exists>enc rest. encode (Some (s @ [NUL])) (length s) (Some buf) (Some (2 * length (runs s))) =
      Some (0, Some (2 * length (runs s)), Some (enc @ NUL # rest)) \<and>
    length enc = 2 * length (runs s) \<and> decode (Some (enc @ [NUL])) (length enc) = Some (0, s)"
proof -
  let ?rs = "runs s"
  have "encode_from (s @ [NUL]) (length s) 0 (Some buf) (2 * length ?rs) 0 =
      Some (2 * length ?rs, Some (coded ?rs @ NUL # drop (Suc (2 * length ?rs)) buf))"
    using encode_write [OF runs_ok_runs [OF assms(2)] assms(3), of "[]" "2 * length ?rs" buf "[]"] assms(1,4)
    by (simp add: expand_runs)
  moreover have "decode_from (coded ?rs @ [NUL]) (length (coded ?rs)) 0 = Some s"
    using decode_coded [OF assms(3), of "[]" "[NUL]"] by (simp add: expand_runs)
  ultimately show ?thesis
    using assms(1) length_coded [OF assms(3)]
    by (intro exI [of _ "coded ?rs"] exI [of _ "drop (Suc (2 * length ?rs)) buf"]) (auto simp: encode_def decode_def)
qed

theorem decode_encode_witness:
  "\<exists>enc rest. encode (Some (''aab'' @ [NUL])) (length ''aab'') (Some (replicate 5 CHR ''?'')) (Some (2 * length (runs ''aab''))) =
      Some (0, Some (2 * length (runs ''aab'')), Some (enc @ NUL # rest)) \<and>
    length enc = 2 * length (runs ''aab'') \<and> decode (Some (enc @ [NUL])) (length enc) = Some (0, ''aab'')"
  by (rule decode_encode) (simp_all add: NUL_def)

lemma encode_too_small:
  assumes "runs_ok rs" "rs \<noteq> []" "\<forall>(n, c) \<in> set rs. n \<le> 2147483647" "len + 2 * length rs \<le> sz" "length buf \<le> len + 2 * length rs"
  shows "encode_from (pre @ expand rs @ [NUL]) (length (pre @ expand rs)) (length pre) (Some buf) sz len = None"
  using assms
proof (induction rs arbitrary: pre buf len)
  case (Cons r rs)
  obtain n c where r: "r = (n, c)" by (cases r)
  have n: "n \<le> 2147483647" "0 < n" using Cons.prems(1,3) r runs_ok_next(1) by auto
  note cr = count_run_first [of n c rs pre]
  show ?case
  proof (cases "sprintf_at buf len (dec n @ [c])")
    case None
    then show ?thesis using cr Cons.prems(1,4) n r
      by (subst encode_from.simps) (simp add: show_int_of_nat)
  next
    case (Some buf')
    have "1 \<le> length (dec n)" by (simp add: Suc_leI)
    moreover have "len + (length (dec n) + 2) \<le> length buf"
      using Some by (auto simp: sprintf_at_def poke_def split: if_splits)
    ultimately have "len + 3 \<le> length buf" by linarith
    then have rs: "rs \<noteq> []" using Cons.prems(5) by auto
    have "length buf' = length buf" using Some poke_length by (simp add: sprintf_at_def)
    then have "encode_from ((pre @ replicate n c) @ expand rs @ [NUL]) (length ((pre @ replicate n c) @ expand rs))
      (length (pre @ replicate n c)) (Some buf') sz (len + 2) = None"
      using Cons.prems runs_ok_tl r rs by (intro Cons.IH) auto
    then show ?thesis using cr Cons.prems(1,4) n r Some
      by (subst encode_from.simps) (simp add: show_int_of_nat)
  qed
qed simp

text \<open>The buffer the program allocates is one byte too small: it has exactly the measured
  size, and the NUL after the last run is written one past its end, whatever the line is.\<close>

theorem encode_line_overflows:
  assumes "s \<noteq> []" "NUL \<notin> set s" "length s \<le> 2147483647"
  shows "encode_line s = None"
proof -
  have "encode_from (s @ [NUL]) (length s) 0 (Some (replicate (2 * length (runs s)) (CHR ''?''))) (2 * length (runs s)) 0 = None"
    using encode_too_small [OF runs_ok_runs [OF assms(2)] _ runs_short [OF assms(3)], of 0 "2 * length (runs s)" _ "[]"] assms(1)
    by (simp add: expand_runs)
  moreover have "encode_from (s @ [NUL]) (length s) 0 None 0 0 = Some (2 * length (runs s), None)"
    using encode_measure [OF runs_ok_runs [OF assms(2)] runs_short [OF assms(3)], of "[]" 0 0] assms(1)
    by (simp add: expand_runs)
  ultimately show ?thesis using assms(1) by (simp add: encode_line_def encode_def)
qed

theorem encode_line_overflows_witness: "encode_line ''ab'' = None"
  using encode_line_overflows [of "''ab''"] by (simp add: NUL_def)

text \<open>
  A run of ten or more takes three bytes, of which the next run's text overwrites the last:
  the coder loses the character.
\<close>

lemma long_run_is_lost:
  "encode (Some (''aaaaaaaaaaaab'' @ [NUL])) 13 (Some (replicate 8 CHR ''?'')) (Some 4) =
     Some (0, Some 4, Some (''121b'' @ NUL # ''???''))"
  by code_simp

end
