(* ===== verification/RunLengthMain.thy ===== *)
theory RunLengthMain
  imports RunLength
begin

text \<open>
  The programs of \<^verbatim>\<open>task3\<close>: \<open>main\<close> of \<^verbatim>\<open>encoder.c\<close> and \<^verbatim>\<open>decoder.c\<close> read the standard input line by line with
  \<open>fgets\<close> and print what the coder makes of each piece. Input and output are texts.
\<close>

definition BUFSIZ :: nat where "BUFSIZ = 8192"

text \<open>At most \<open>n - 1\<close> characters, up to and with the end of the line.\<close>

definition fgets :: "nat \<Rightarrow> string \<Rightarrow> (string \<times> string) option" where
  "fgets n input =
     (if input = [] then None
      else let k = min (n - 1) (length (takeWhile (\<lambda>c. c \<noteq> CHR ''\<newline>'') input) + 1) in Some (take k input, drop k input))"

lemma fgets_shorter: "fgets BUFSIZ input = Some (line, rest) \<Longrightarrow> length rest < length input"
  by (auto simp: fgets_def BUFSIZ_def Let_def split: if_splits)

text \<open>The loop of both programs; \<open>work\<close> gets the array up to its last NUL and gives what is printed.\<close>

function (sequential) each_line :: "(string \<Rightarrow> string option) \<Rightarrow> string \<Rightarrow> string option" where
  "each_line work input = (case fgets BUFSIZ input of
     None \<Rightarrow> Some []
   | Some (line, rest) \<Rightarrow> do { out \<leftarrow> work line; more \<leftarrow> each_line work rest; Some (out @ more) })"
  by auto

termination each_line
  by (relation "measure (\<lambda>(work, input). length input)") (auto dest: fgets_shorter)

declare each_line.simps [simp del]

definition decode_line :: "string \<Rightarrow> string option" where
  "decode_line line = map_option snd (decode (Some (line @ [NUL])) (length (takeWhile (\<lambda>c. c \<noteq> NUL) line)))"

definition decoder_main :: "string \<Rightarrow> string option" where
  "decoder_main = each_line decode_line"

definition encoder_main :: "string \<Rightarrow> string option" where
  "encoder_main = each_line (\<lambda>line. encode_line (takeWhile (\<lambda>c. c \<noteq> NUL) line))"

section \<open>Lines\<close>

lemma each_line_Nil [simp]: "each_line work [] = Some []"
  by (subst each_line.simps) (simp add: fgets_def)

lemma fgets_line:
  assumes "CHR ''\<newline>'' \<notin> set t" "length t < BUFSIZ - 1"
  shows "fgets BUFSIZ (t @ CHR ''\<newline>'' # rest) = Some (t @ ''\<newline>'', rest)"
proof -
  have "takeWhile (\<lambda>c. c \<noteq> CHR ''\<newline>'') (t @ CHR ''\<newline>'' # rest) = t" using assms(1) by (subst takeWhile_append2) auto
  moreover have "min (BUFSIZ - 1) (length t + 1) = Suc (length t)" using assms(2) by simp
  ultimately show ?thesis by (simp add: fgets_def Let_def)
qed

lemma each_line_line:
  assumes "CHR ''\<newline>'' \<notin> set t" "length t < BUFSIZ - 1"
  shows "each_line work (t @ CHR ''\<newline>'' # rest) = do { out \<leftarrow> work (t @ ''\<newline>''); more \<leftarrow> each_line work rest; Some (out @ more) }"
  by (subst each_line.simps) (simp add: fgets_line [OF assms])

lemma runs_snoc: "c \<notin> set s \<Longrightarrow> runs (s @ [c]) = runs s @ [(1, c)]"
proof (induction s)
  case (Cons d s)
  then show ?case by (cases "runs s") (auto split: list.splits)
qed simp

lemma coded_append [simp]: "coded (rs @ rs') = coded rs @ coded rs'"
  by (simp add: coded_def)

lemma coded_chars: "set (coded rs) \<subseteq> snd ` set rs \<union> char_of ` {48..<58 :: nat}"
proof (induction rs)
  case (Cons r rs)
  then show ?case using set_dec [of "fst r"] by (cases r) auto
qed simp

lemma runs_chars: "snd ` set (runs s) \<subseteq> set s"
proof (induction s)
  case (Cons c s)
  then show ?case by (cases "runs s") (auto split: if_splits)
qed simp

lemma not_a_digit: "CHR ''\<newline>'' \<notin> char_of ` {48..<58 :: nat}" "NUL \<notin> char_of ` {48..<58 :: nat}"
proof -
  have "CHR ''\<newline>'' \<notin> char_of ` set [48..<58 :: nat] \<and> NUL \<notin> char_of ` set [48..<58 :: nat]" by code_simp
  then show "CHR ''\<newline>'' \<notin> char_of ` {48..<58 :: nat}" "NUL \<notin> char_of ` {48..<58 :: nat}" unfolding set_upt by blast+
qed

text \<open>A line of the text: characters without the end of line or NUL, no run longer than nine, short enough for the array when coded.\<close>

definition codable :: "string \<Rightarrow> bool" where
  "codable l \<longleftrightarrow> CHR ''\<newline>'' \<notin> set l \<and> NUL \<notin> set l \<and> (\<forall>(n, c) \<in> set (runs l). n \<le> 9) \<and> length (runs l) < 4095"

lemma dec_one: "dec (Suc 0) = ''1''"
  by code_simp

definition code_lines :: "string list \<Rightarrow> string" where
  "code_lines ls = concat (map (\<lambda>l. coded (runs (l @ ''\<newline>''))) ls)"

lemma decode_line_coded:
  assumes "codable l"
  shows "decode_line (coded (runs (l @ ''\<newline>''))) = Some (l @ ''\<newline>'')"
proof -
  let ?rs = "runs (l @ ''\<newline>'')"
  have rs: "?rs = runs l @ [(1, CHR ''\<newline>'')]" using assms by (intro runs_snoc) (simp add: codable_def)
  then have small: "\<forall>(n, c) \<in> set ?rs. n \<le> 9" using assms by (auto simp: codable_def)
  have "NUL \<notin> set (coded ?rs)" using coded_chars [of ?rs] runs_chars [of "l @ ''\<newline>''"] not_a_digit assms
    by (auto simp: codable_def NUL_def)
  then have "takeWhile (\<lambda>c. c \<noteq> NUL) (coded ?rs) = coded ?rs" by (simp add: takeWhile_eq_all_conv) metis
  then have "decode_line (coded ?rs) = map_option snd (decode (Some (coded ?rs @ [NUL])) (length (coded ?rs)))"
    by (simp only: decode_line_def)
  moreover have "decode_from (coded ?rs @ [NUL]) (length (coded ?rs)) 0 = Some (l @ ''\<newline>'')"
    using decode_coded [OF small, of "[]" "[NUL]"] by (simp add: expand_runs)
  moreover have "coded ?rs \<noteq> []" by (simp add: rs)
  ultimately show ?thesis by (simp add: decode_def)
qed

text \<open>C35: The decoder program undoes the coding of a text of any number of lines, when no run is longer than nine and no line has more than
  4095 runs, the end of the line included.\<close>

theorem decoder_main_decodes:
  assumes "\<forall>l \<in> set ls. codable l"
  shows "decoder_main (code_lines ls) = Some (concat (map (\<lambda>l. l @ ''\<newline>'') ls))"
  using assms
proof (induction ls)
  case Nil
  then show ?case by (simp add: decoder_main_def code_lines_def)
next
  case (Cons l ls)
  then have l: "codable l" by simp
  let ?t = "coded (runs l) @ ''1''"
  have rs: "coded (runs (l @ ''\<newline>'')) = ?t @ ''\<newline>''"
    using l runs_snoc [of "CHR ''\<newline>''" l] by (simp add: codable_def dec_one)
  have "CHR ''\<newline>'' \<notin> set ?t" using coded_chars [of "runs l"] runs_chars [of l] not_a_digit(1) l by (auto simp: codable_def)
  moreover have "length ?t < BUFSIZ - 1" using l length_coded [of "runs l"] by (simp add: codable_def BUFSIZ_def)
  ultimately have "decoder_main (?t @ CHR ''\<newline>'' # code_lines ls) =
      do { out \<leftarrow> decode_line (?t @ ''\<newline>''); more \<leftarrow> decoder_main (code_lines ls); Some (out @ more) }"
    unfolding decoder_main_def by (rule each_line_line)
  moreover have "code_lines (l # ls) = ?t @ CHR ''\<newline>'' # code_lines ls" using rs by (simp add: code_lines_def)
  ultimately show ?case using Cons decode_line_coded [OF l] rs by simp
qed

lemma decoder_main_decodes_witness: "decoder_main ''2a1b1\<newline>1\<newline>3c1\<newline>'' = Some ''aab\<newline>\<newline>ccc\<newline>''"
proof -
  have "\<forall>l \<in> set [''aab'', '''', ''ccc'']. codable l" by (simp add: codable_def NUL_def)
  moreover have "dec 2 = ''2''" "dec 3 = ''3''" by code_simp+
  ultimately show ?thesis using decoder_main_decodes [of "[''aab'', '''', ''ccc'']"]
    by (simp add: code_lines_def dec_one numeral_2_eq_2 numeral_3_eq_3)
qed

text \<open>A line of more runs is cut behind a count: the piece that follows starts with a character that is read as a count.\<close>

lemma long_line_is_cut:
  assumes "\<forall>(n, c) \<in> set rs. n \<le> 9 \<and> c \<noteq> CHR ''\<newline>''" "rs = rs1 @ (n, c) # rs2" "length rs1 = 4095"
  shows "fgets BUFSIZ (coded rs) = Some (coded rs1 @ dec n, c # coded rs2)"
proof -
  have "CHR ''\<newline>'' \<notin> set (coded rs)" using coded_chars [of rs] not_a_digit(1) assms(1) by force
  then have t: "takeWhile (\<lambda>c. c \<noteq> CHR ''\<newline>'') (coded rs) = coded rs" by (auto simp: takeWhile_eq_all_conv)
  have len: "length (coded rs1 @ dec n) = 8191" using assms length_coded [of rs1] by (auto simp: dec_small)
  have c: "coded rs = (coded rs1 @ dec n) @ c # coded rs2" using assms(2) by simp
  then have "min (BUFSIZ - 1) (length (coded rs) + 1) = length (coded rs1 @ dec n)" using len by (simp add: BUFSIZ_def)
  then show ?thesis unfolding fgets_def Let_def t by (simp add: c)
qed

text \<open>The encoder program overflows its buffer at the first line.\<close>

lemma encoder_main_overflows: "s \<noteq> [] \<Longrightarrow> hd s \<noteq> NUL \<Longrightarrow> encoder_main s = None"
proof -
  assume s: "s \<noteq> []" "hd s \<noteq> NUL"
  obtain line rest where f: "fgets BUFSIZ s = Some (line, rest)" "line = take (length line) s" "0 < length line" "length line < 8192"
    using s(1) by (auto simp: fgets_def BUFSIZ_def Let_def min_def)
  let ?l = "takeWhile (\<lambda>c. c \<noteq> NUL) line"
  have "line \<noteq> []" using f(3) by simp
  moreover have "hd line = hd s" using f(3) by (subst f(2)) (simp add: hd_take)
  ultimately have "?l \<noteq> []" using s(2) by (cases line) auto
  moreover have "NUL \<notin> set ?l" by (auto dest: set_takeWhileD)
  moreover have "length ?l \<le> 2147483647" using length_takeWhile_le [of "\<lambda>c. c \<noteq> NUL" line] f(4) by linarith
  ultimately have "encode_line ?l = None" by (rule encode_line_overflows)
  then show ?thesis unfolding encoder_main_def by (subst each_line.simps) (simp add: f(1))
qed

end
