(* ===== verification/Sysfs.thy ===== *)
theory Sysfs
  imports Gc9a01
begin

text \<open>
  The user-space hardware access of \<^verbatim>\<open>task4\<close>: GPIO lines through the files of
  \<^verbatim>\<open>/sys/class/gpio\<close> (\<^verbatim>\<open>gpio_module.c\<close>) and the SPI bus through \<^verbatim>\<open>spidev\<close>
  (\<^verbatim>\<open>spi_module.c\<close>). The state of the process is the list of the calls it has made and the
  static variables of the two files; what the operating system answers is a parameter that
  may depend on that list.
\<close>

section \<open>System calls\<close>

datatype spi_request = WR_MODE | RD_MODE | WR_BITS | RD_BITS | WR_SPEED | RD_SPEED

datatype syscall =
    Open string int
  | Write int string
  | Close int
  | Lseek int
  | Read int
  | Ioctl int spi_request nat
  | Spi_message int "8 word list" nat nat
  | Print string
  | Perror string
  | Sleep nat
  | Usleep nat

text \<open>
  \<open>sys_open\<close> is the descriptor or a negative number, \<open>sys_read\<close> the byte read, if any,
  \<open>sys_ioctl\<close> the result of a request with the value it stores, if any, \<open>sys_message\<close>
  the result of a transfer. \<open>no_return\<close> is what the caller of a function finds when the
  function ends without a \<open>return\<close>.
\<close>

record os =
  sys_open :: "syscall list \<Rightarrow> string \<Rightarrow> int"
  sys_read :: "syscall list \<Rightarrow> int \<Rightarrow> char option"
  sys_ioctl :: "syscall list \<Rightarrow> int \<Rightarrow> spi_request \<Rightarrow> int \<times> nat option"
  sys_message :: "syscall list \<Rightarrow> int"
  no_return :: "syscall list \<Rightarrow> int"

record proc =
  calls :: "syscall list"
  spi_fd :: int
  spi_mode :: "8 word"
  spi_bits :: "8 word"
  spi_speed :: "32 word"

definition proc_start :: proc where
  "proc_start = \<lparr>calls = [], spi_fd = 0, spi_mode = 0, spi_bits = 8, spi_speed = 5000000\<rparr>"

definition call :: "syscall \<Rightarrow> 'a proc_scheme \<Rightarrow> 'a proc_scheme" where
  "call c p = p\<lparr>calls := calls p @ [c]\<rparr>"

definition open_file :: "os \<Rightarrow> string \<Rightarrow> 'a proc_scheme \<Rightarrow> int \<times> 'a proc_scheme" where
  "open_file os path p = (let fd = sys_open os (calls p) path in (fd, call (Open path fd) p))"

section \<open>\<^verbatim>\<open>gpio_module.c\<close>\<close>

definition GPIO_DIR :: string where "GPIO_DIR = ''/sys/class/gpio''"
definition BUF_SIZE :: nat where "BUF_SIZE = 64"

text \<open>What \<open>snprintf\<close> leaves in the buffer.\<close>

definition snprintf :: "string \<Rightarrow> string" where
  "snprintf t = take (BUF_SIZE - 1) t"

text \<open>The conversion \<open>%d\<close> of an unsigned argument.\<close>

definition show_gpio :: "32 word \<Rightarrow> string" where
  "show_gpio gpio = show_int (sint gpio)"

definition gpio_get_export_direction_fd :: "os \<Rightarrow> 32 word \<Rightarrow> 'a proc_scheme \<Rightarrow> int \<times> 'a proc_scheme" where
  "gpio_get_export_direction_fd os gpio p =
     (let (fd, p) = open_file os (GPIO_DIR @ ''/export'') p in
      if fd < 0 then (fd, call (Perror ''gpio/export'') p)
      else
        let p = call (Write fd (snprintf (show_gpio gpio))) p;
            (fd, p) = open_file os (snprintf (GPIO_DIR @ ''/gpio'' @ show_gpio gpio @ ''/direction'')) p in
        if fd < 0 then (fd, call (Perror ''gpio/direction'') p)
        else (no_return os (calls p), p))"

definition gpio_init_out :: "os \<Rightarrow> 32 word \<Rightarrow> 'a proc_scheme \<Rightarrow> int \<times> 'a proc_scheme" where
  "gpio_init_out os gpio p =
     (let (fd, p) = gpio_get_export_direction_fd os gpio p in
      if fd < 0 then (fd, call (Perror ''gpio_init_out'') p)
      else (0, call (Close fd) (call (Write fd (''out'' @ [NUL])) p)))"

definition gpio_init_in :: "os \<Rightarrow> 32 word \<Rightarrow> 'a proc_scheme \<Rightarrow> int \<times> 'a proc_scheme" where
  "gpio_init_in os gpio p =
     (let (fd, p) = gpio_get_export_direction_fd os gpio p in
      if fd < 0 then (fd, call (Perror ''gpio_init_in'') p)
      else (0, call (Close fd) (call (Write fd (''in'' @ [NUL])) p)))"

definition gpio_free :: "os \<Rightarrow> 32 word \<Rightarrow> 'a proc_scheme \<Rightarrow> int \<times> 'a proc_scheme" where
  "gpio_free os gpio p =
     (let (fd, p) = open_file os (GPIO_DIR @ ''/unexport'') p in
      if fd < 0 then (fd, call (Perror ''gpio/unexport'') p)
      else (0, call (Close fd) (call (Write fd (snprintf (show_gpio gpio))) p)))"

definition gpio_value_path :: "32 word \<Rightarrow> string" where
  "gpio_value_path gpio = snprintf (GPIO_DIR @ ''/gpio'' @ show_gpio gpio @ ''/value'')"

definition gpio_set_value :: "os \<Rightarrow> 32 word \<Rightarrow> 32 word \<Rightarrow> 'a proc_scheme \<Rightarrow> int \<times> 'a proc_scheme" where
  "gpio_set_value os gpio value p =
     (let (fd, p) = open_file os (gpio_value_path gpio) p in
      if fd < 0 then (fd, call (Perror ''gpio/set-value'') p)
      else
        let p = (if value \<noteq> 0 then call (Write fd [CHR ''1'', NUL]) p else call (Write fd [CHR ''0'', NUL]) p) in
        (0, call (Close fd) p))"

text \<open>The byte that is read is a signed \<open>char\<close>, 0 when nothing is read.\<close>

definition gpio_get_value :: "os \<Rightarrow> 32 word \<Rightarrow> 'a proc_scheme \<Rightarrow> int \<times> 'a proc_scheme" where
  "gpio_get_value os gpio p =
     (let (fd, p) = open_file os (gpio_value_path gpio) p in
      if fd < 0 then (fd, call (Perror ''gpio/get-value'') p)
      else
        let p = call (Lseek fd) p;
            input_port_value = (case sys_read os (calls p) fd of None \<Rightarrow> 0 | Some c \<Rightarrow> char_int c) in
        (input_port_value - 48, call (Close fd) (call (Read fd) p)))"

section \<open>\<^verbatim>\<open>spi_module.c\<close>\<close>

definition ioctl :: "os \<Rightarrow> spi_request \<Rightarrow> nat \<Rightarrow> 'a proc_scheme \<Rightarrow> int \<times> nat \<times> 'a proc_scheme" where
  "ioctl os req arg p =
     (let (ret, v) = sys_ioctl os (calls p) (spi_fd p) req in
      (ret, (case v of None \<Rightarrow> arg | Some v \<Rightarrow> v), call (Ioctl (spi_fd p) req arg) p))"

definition complain :: "bool \<Rightarrow> string \<Rightarrow> 'a proc_scheme \<Rightarrow> 'a proc_scheme" where
  "complain b t p = (if b then call (Print t) p else p)"

definition init_spi_module :: "os \<Rightarrow> 'a proc_scheme \<Rightarrow> 'a proc_scheme" where
  "init_spi_module os p =
     (let (fd, p) = open_file os ''/dev/spidev0.0'' p;
          p = p\<lparr>spi_fd := fd\<rparr>;
          p = complain (fd < 0) ''can't open device\<newline>'' p;
          (ret, v, p) = ioctl os WR_MODE (unat (spi_mode p)) p;
          p = complain (ret = - 1) ''can't set spi mode\<newline>'' (p\<lparr>spi_mode := of_nat v\<rparr>);
          (ret, v, p) = ioctl os RD_MODE (unat (spi_mode p)) p;
          p = complain (ret = - 1) ''can't get spi mode\<newline>'' (p\<lparr>spi_mode := of_nat v\<rparr>);
          (ret, v, p) = ioctl os WR_BITS (unat (spi_bits p)) p;
          p = complain (ret = - 1) ''can't set bits per word\<newline>'' (p\<lparr>spi_bits := of_nat v\<rparr>);
          (ret, v, p) = ioctl os RD_BITS (unat (spi_bits p)) p;
          p = complain (ret = - 1) ''can't get bits per word\<newline>'' (p\<lparr>spi_bits := of_nat v\<rparr>);
          (ret, v, p) = ioctl os WR_SPEED (unat (spi_speed p)) p;
          p = complain (ret = - 1) ''can't set max speed hz\<newline>'' (p\<lparr>spi_speed := of_nat v\<rparr>);
          (ret, v, p) = ioctl os RD_SPEED (unat (spi_speed p)) p in
      complain (ret = - 1) ''can't get max speed hz\<newline>'' (p\<lparr>spi_speed := of_nat v\<rparr>))"

definition spi_write :: "os \<Rightarrow> 8 word list \<Rightarrow> 'a proc_scheme \<Rightarrow> 'a proc_scheme" where
  "spi_write os tx p =
     (let ret = sys_message os (calls p) in
      complain (ret < 1) ''can't send spi message\<newline>''
        (call (Spi_message (spi_fd p) tx (unat (spi_speed p)) (unat (spi_bits p))) p))"

definition deinit_spi :: "'a proc_scheme \<Rightarrow> 'a proc_scheme" where
  "deinit_spi p = call (Close (spi_fd p)) p"

section \<open>Paths and descriptors\<close>

lemma length_show_gpio: "length (show_gpio gpio) \<le> 11"
proof -
  have "- (2 ^ 31) \<le> sint gpio" "sint gpio < 2 ^ 31" using sint_greater_eq [of gpio] sint_lt [of gpio] by simp_all
  then have "nat (sint gpio) < 10 ^ 10" "nat (- sint gpio) < 10 ^ 10" by simp_all
  then show ?thesis
    using length_dec [of "nat (sint gpio)" 10] length_dec [of "nat (- sint gpio)" 10]
    by (simp add: show_gpio_def show_int_def)
qed

lemma gpio_value_path: "gpio_value_path gpio = GPIO_DIR @ ''/gpio'' @ show_gpio gpio @ ''/value''"
  using length_show_gpio [of gpio] by (simp add: gpio_value_path_def snprintf_def BUF_SIZE_def GPIO_DIR_def)

text \<open>The descriptors that are open after a list of calls, latest first.\<close>

fun open_after :: "int list \<Rightarrow> syscall list \<Rightarrow> int list" where
  "open_after fds [] = fds"
| "open_after fds (Open path fd # cs) = open_after (if fd < 0 then fds else fd # fds) cs"
| "open_after fds (Close fd # cs) = open_after (remove1 fd fds) cs"
| "open_after fds (c # cs) = open_after fds cs"

definition open_fds :: "'a proc_scheme \<Rightarrow> int list" where
  "open_fds p = open_after [] (calls p)"

lemma open_after_append: "open_after fds (cs @ ds) = open_after (open_after fds cs) ds"
  by (induction fds cs rule: open_after.induct) simp_all

lemma calls_call [simp]: "calls (call c p) = calls p @ [c]"
  by (simp add: call_def)

lemma open_fds_call: "open_fds (call c p) = open_after (open_fds p) [c]"
  by (simp add: open_fds_def open_after_append)

lemma open_fds_open: "open_file os path p = (fd, p') \<Longrightarrow> open_fds p' = (if fd < 0 then open_fds p else fd # open_fds p)"
  by (auto simp: open_file_def Let_def open_fds_call)

lemmas fd_simps = open_fds_call open_file_def Let_def

text \<open>Reading and writing a value closes what it opens.\<close>

lemma gpio_set_value_closes: "open_fds (snd (gpio_set_value os gpio value p)) = open_fds p"
  by (simp add: gpio_set_value_def fd_simps)

lemma gpio_get_value_closes: "open_fds (snd (gpio_get_value os gpio p)) = open_fds p"
  by (simp add: gpio_get_value_def fd_simps)

lemma gpio_free_closes: "open_fds (snd (gpio_free os gpio p)) = open_fds p"
  by (simp add: gpio_free_def fd_simps)

text \<open>Configuring a line does not: the descriptor of \<open>export\<close> stays open.\<close>

lemma gpio_init_leaks:
  assumes "gpio_init_in os gpio p = (0, p') \<or> gpio_init_out os gpio p = (0, p')"
    and "\<forall>cs path fd. cs \<noteq> [] \<and> last cs = Open path fd \<longrightarrow> no_return os cs = fd"
  shows "\<exists>fd. 0 \<le> fd \<and> open_fds p' = fd # open_fds p"
  using assms
  by (auto simp: gpio_init_in_def gpio_init_out_def gpio_get_export_direction_fd_def fd_simps split: if_splits)

end
