(* ===== verification/Buttons.thy ===== *)
theory Buttons
  imports Sysfs
begin

text \<open>
  The buttons of \<^verbatim>\<open>task4/buttons_module.c\<close>: three GPIO inputs that are polled, each
  with a counter of the polls that found it pressed. A release ends a press, and the length
  of the press decides which handler runs. The functions behind the handlers belong to the
  application: a handler is a name, and \<open>run\<close> says what the named function does to the state
  of the process.
\<close>

section \<open>State\<close>

definition COUNTER_UP_PIN :: int where "COUNTER_UP_PIN = 21"
definition COUNTER_DOWN_PIN :: int where "COUNTER_DOWN_PIN = 20"
definition CONTROL_BUTTON_PIN :: int where "CONTROL_BUTTON_PIN = 16"
definition SHORT_CLICK_THERSHOLD :: int where "SHORT_CLICK_THERSHOLD = 1000"
definition LONG_CLICK_THERSHOLD :: int where "LONG_CLICK_THERSHOLD = 6000"

datatype button_state = kPressed | kReleased | NoState

fun state_code :: "button_state \<Rightarrow> int" where
  "state_code kPressed = 0"
| "state_code kReleased = 1"
| "state_code NoState = - 1"

record 'c button_descriptor =
  pin_id :: int
  press_count :: int
  long_press_count :: int
  button_state :: button_state
  short_click_handler :: "'c option"
  long_click_handler :: "'c option"

definition button_of :: "int \<Rightarrow> 'c button_descriptor" where
  "button_of pin = \<lparr>pin_id = pin, press_count = 0, long_press_count = 0, button_state = NoState,
     short_click_handler = None, long_click_handler = None\<rparr>"

definition buttons_start :: "'c button_descriptor list" where
  "buttons_start = [button_of COUNTER_UP_PIN, button_of COUNTER_DOWN_PIN, button_of CONTROL_BUTTON_PIN]"

section \<open>Attaching handlers\<close>

text \<open>The index of the button of a pin, for the pointer into the array.\<close>

fun find_by_id :: "int \<Rightarrow> 'c button_descriptor list \<Rightarrow> nat option" where
  "find_by_id button_id [] = None"
| "find_by_id button_id (b # bs) = (if pin_id b = button_id then Some 0 else map_option Suc (find_by_id button_id bs))"

definition with_button :: "int \<Rightarrow> ('c button_descriptor \<Rightarrow> 'c button_descriptor) \<Rightarrow> 'c button_descriptor list \<Rightarrow> 'c button_descriptor list" where
  "with_button pin f bs = (case find_by_id pin bs of None \<Rightarrow> bs | Some i \<Rightarrow> bs[i := f (bs ! i)])"

definition attach_short_click_listener_counter_up :: "'c option \<Rightarrow> 'c button_descriptor list \<Rightarrow> 'c button_descriptor list" where
  "attach_short_click_listener_counter_up l = with_button COUNTER_UP_PIN (short_click_handler_update (\<lambda>_. l))"

definition attach_short_click_listener_counter_down :: "'c option \<Rightarrow> 'c button_descriptor list \<Rightarrow> 'c button_descriptor list" where
  "attach_short_click_listener_counter_down l = with_button COUNTER_DOWN_PIN (short_click_handler_update (\<lambda>_. l))"

definition attach_short_click_listener_control_button :: "'c option \<Rightarrow> 'c button_descriptor list \<Rightarrow> 'c button_descriptor list" where
  "attach_short_click_listener_control_button l = with_button CONTROL_BUTTON_PIN (short_click_handler_update (\<lambda>_. l))"

definition attach_long_click_listener :: "'c option \<Rightarrow> 'c button_descriptor list \<Rightarrow> 'c button_descriptor list" where
  "attach_long_click_listener l = with_button CONTROL_BUTTON_PIN (long_click_handler_update (\<lambda>_. l))"

section \<open>Events\<close>

definition call_handler :: "('c \<Rightarrow> 's \<Rightarrow> 's option) \<Rightarrow> 'c option \<Rightarrow> 's \<Rightarrow> 's option" where
  "call_handler run hdl s = (case hdl of None \<Rightarrow> Some s | Some c \<Rightarrow> run c s)"

definition button_event ::
    "('c \<Rightarrow> 's \<Rightarrow> 's option) \<Rightarrow> int \<Rightarrow> 'c button_descriptor \<Rightarrow> 's \<Rightarrow> ('c button_descriptor \<times> 's) option" where
  "button_event run pin_event b s =
     (if pin_event = state_code kPressed then do {
        n \<leftarrow> c_add (press_count b) 1;
        Some (b\<lparr>press_count := n, button_state := kPressed\<rparr>, s) }
      else if pin_event = state_code kReleased then do {
        s \<leftarrow> (if button_state b = kPressed then
               (let counter_press = press_count b in
                if 0 < counter_press \<and> counter_press < SHORT_CLICK_THERSHOLD then call_handler run (short_click_handler b) s
                else if counter_press > LONG_CLICK_THERSHOLD then call_handler run (long_click_handler b) s
                else Some s)
             else Some s);
        Some (b\<lparr>button_state := kReleased, press_count := 0\<rparr>, s) }
      else Some (b, s))"

fun process_pin_event ::
    "('c \<Rightarrow> 's \<Rightarrow> 's option) \<Rightarrow> int \<Rightarrow> int \<Rightarrow> 'c button_descriptor list \<Rightarrow> 's \<Rightarrow> ('c button_descriptor list \<times> 's) option" where
  "process_pin_event run pin_event pin_number [] s = Some ([], s)"
| "process_pin_event run pin_event pin_number (b # bs) s = do {
     (b, s) \<leftarrow> (if pin_id b = pin_number then button_event run pin_event b s else Some (b, s));
     (bs, s) \<leftarrow> process_pin_event run pin_event pin_number bs s;
     Some (b # bs, s) }"

definition init_buttons_module :: "os \<Rightarrow> 'a proc_scheme \<Rightarrow> 'a proc_scheme" where
  "init_buttons_module os s =
     (let s = snd (gpio_init_in os (of_int COUNTER_UP_PIN) s);
          s = snd (gpio_init_in os (of_int COUNTER_DOWN_PIN) s) in
      snd (gpio_init_in os (of_int CONTROL_BUTTON_PIN) s))"

definition poll_button ::
    "os \<Rightarrow> ('c \<Rightarrow> 'a proc_scheme \<Rightarrow> 'a proc_scheme option) \<Rightarrow> int \<Rightarrow> 'c button_descriptor list \<times> 'a proc_scheme \<Rightarrow>
     ('c button_descriptor list \<times> 'a proc_scheme) option" where
  "poll_button os run pin = (\<lambda>(bs, s).
     (let (v, s) = gpio_get_value os (of_int pin) s in process_pin_event run v pin bs s))"

definition process_buttons_module ::
    "os \<Rightarrow> ('c \<Rightarrow> 'a proc_scheme \<Rightarrow> 'a proc_scheme option) \<Rightarrow> 'c button_descriptor list \<times> 'a proc_scheme \<Rightarrow>
     ('c button_descriptor list \<times> 'a proc_scheme) option" where
  "process_buttons_module os run bs_s = do {
     bs_s \<leftarrow> poll_button os run COUNTER_UP_PIN bs_s;
     bs_s \<leftarrow> poll_button os run COUNTER_DOWN_PIN bs_s;
     poll_button os run CONTROL_BUTTON_PIN bs_s }"

definition deinit_buttons_module :: "os \<Rightarrow> 'a proc_scheme \<Rightarrow> 'a proc_scheme" where
  "deinit_buttons_module os s =
     (let s = snd (gpio_free os (of_int COUNTER_UP_PIN) s);
          s = snd (gpio_free os (of_int COUNTER_DOWN_PIN) s) in
      snd (gpio_free os (of_int CONTROL_BUTTON_PIN) s))"

section \<open>What a history of polls means\<close>

text \<open>
  The lengths of the presses that a history completes, when \<open>n\<close> polls of the current press
  came before it. A reading other than pressed and released, such as an error, counts for
  nothing.
\<close>

fun presses :: "nat \<Rightarrow> int list \<Rightarrow> nat list" where
  "presses n [] = []"
| "presses n (e # es) = (if e = 0 then presses (Suc n) es else if e = 1 then n # presses 0 es else presses n es)"

fun pressing :: "nat \<Rightarrow> int list \<Rightarrow> nat" where
  "pressing n [] = n"
| "pressing n (e # es) = (if e = 0 then pressing (Suc n) es else if e = 1 then pressing 0 es else pressing n es)"

text \<open>The handler a press of a length runs.\<close>

definition handler_for :: "'c button_descriptor \<Rightarrow> nat \<Rightarrow> 'c list" where
  "handler_for b n =
     (case if 0 < n \<and> n < 1000 then short_click_handler b else if 6000 < n then long_click_handler b else None of
        None \<Rightarrow> [] | Some c \<Rightarrow> [c])"

definition button_inv :: "nat \<Rightarrow> 'c button_descriptor \<Rightarrow> bool" where
  "button_inv n b \<longleftrightarrow> press_count b = int n \<and> (button_state b = kPressed \<longleftrightarrow> 0 < n)"

fun poll_all :: "('c \<Rightarrow> 's \<Rightarrow> 's option) \<Rightarrow> int \<Rightarrow> int list \<Rightarrow> 'c button_descriptor list \<Rightarrow> 's \<Rightarrow> ('c button_descriptor list \<times> 's) option" where
  "poll_all run pin [] bs s = Some (bs, s)"
| "poll_all run pin (e # es) bs s = do {
     (bs, s) \<leftarrow> process_pin_event run e pin bs s;
     poll_all run pin es bs s }"

lemma button_event_run:
  assumes "button_inv n b" "int n < 2147483647"
  shows "\<exists>b'. (\<forall>s. button_event run e b s = map_option (Pair b') (for_list run (if e = 1 then handler_for b n else []) s)) \<and>
    button_inv (if e = 0 then Suc n else if e = 1 then 0 else n) b' \<and>
    pin_id b' = pin_id b \<and> short_click_handler b' = short_click_handler b \<and> long_click_handler b' = long_click_handler b"
proof -
  have add: "c_add (int n) 1 = Some (int n + 1)" using assms(2) by (simp add: c_simps in_int_def)
  have one: "Option.bind (call_handler run h s) (\<lambda>s. Some (x, s)) = map_option (Pair x) (for_list run (case h of None \<Rightarrow> [] | Some c \<Rightarrow> [c]) s)"
    for h :: "'a option" and x :: "'a button_descriptor" and s
    by (auto simp: call_handler_def map_conv_bind_option comp_def split: option.split)
  show ?thesis using assms(1) add
    by (auto simp: button_event_def button_inv_def handler_for_def one SHORT_CLICK_THERSHOLD_def LONG_CLICK_THERSHOLD_def Let_def)
qed

lemma process_other: "\<forall>b \<in> set bs. pin_id b \<noteq> pin \<Longrightarrow> process_pin_event run e pin bs s = Some (bs, s)"
  by (induction bs) auto

lemma process_one:
  assumes "\<forall>b \<in> set (xs @ ys). pin_id b \<noteq> pin" "pin_id b = pin"
  shows "process_pin_event run e pin (xs @ b # ys) s =
    map_option (\<lambda>(b', s'). (xs @ b' # ys, s')) (button_event run e b s)"
  using assms
proof (induction xs)
  case Nil
  then show ?case by (cases "button_event run e b s") (auto simp: process_other)
next
  case (Cons x xs)
  then show ?case by (cases "button_event run e b s") auto
qed

lemma poll_all_spec:
  assumes "\<forall>b \<in> set (xs @ ys). pin_id b \<noteq> pin" "pin_id b = pin" "button_inv n b" "int n + int (length es) \<le> 2147483647"
  shows "\<exists>b'. (\<forall>s. poll_all run pin es (xs @ b # ys) s =
      map_option (Pair (xs @ b' # ys)) (for_list run (concat (map (handler_for b) (presses n es))) s)) \<and>
    button_inv (pressing n es) b' \<and> pin_id b' = pin"
  using assms
proof (induction es arbitrary: n b)
  case Nil
  then show ?case by (intro exI [of _ b]) simp
next
  case (Cons e es)
  let ?n = "if e = 0 then Suc n else if e = 1 then 0 else n"
  have "int n < 2147483647" using Cons.prems(4) by simp
  from button_event_run [OF Cons.prems(3) this, of run e] obtain b' where
    b': "\<forall>s. button_event run e b s = map_option (Pair b') (for_list run (if e = 1 then handler_for b n else []) s)"
      "button_inv ?n b'" "pin_id b' = pin" "short_click_handler b' = short_click_handler b" "long_click_handler b' = long_click_handler b"
    using Cons.prems(2) by blast
  have h: "handler_for b' = handler_for b" using b'(4,5) by (simp add: handler_for_def fun_eq_iff)
  have p: "concat (map (handler_for b) (presses n (e # es))) =
      (if e = 1 then handler_for b n else []) @ concat (map (handler_for b) (presses ?n es))" by simp
  have m: "int ?n + int (length es) \<le> 2147483647" using Cons.prems(4) by simp
  from Cons.IH [OF Cons.prems(1) b'(3,2) m] obtain b'' where
    b'': "\<forall>s. poll_all run pin es (xs @ b' # ys) s =
        map_option (Pair (xs @ b'' # ys)) (for_list run (concat (map (handler_for b) (presses ?n es))) s)"
      "button_inv (pressing ?n es) b''" "pin_id b'' = pin" unfolding h by blast
  have "poll_all run pin (e # es) (xs @ b # ys) s =
      map_option (Pair (xs @ b'' # ys)) (for_list run (concat (map (handler_for b) (presses n (e # es)))) s)" for s
    unfolding p for_list_append using b'(1) b''(1)
    by (simp add: process_one [OF Cons.prems(1,2)] map_conv_bind_option bind_assoc split_def comp_def)
  with b''(2,3) show ?case by (intro exI [of _ b'']) (auto split: if_splits)
qed

section \<open>Properties\<close>

text \<open>C28: Over any history of polls of one pin, however it is broken up by failed readings, the
  handlers that run are those of the completed presses in order: the short click handler for a
  press of 1 to 999 polls, the long click handler for one of more than 6000, none in between;
  no other button is touched.\<close>

theorem button_history:
  assumes "distinct (map pin_id bs)" "i < length bs" "button_inv 0 (bs ! i)" "length es \<le> 2147483647"
  shows "\<exists>b'. \<forall>s. poll_all run (pin_id (bs ! i)) es bs s =
    map_option (Pair (bs[i := b'])) (for_list run (concat (map (handler_for (bs ! i)) (presses 0 es))) s)"
proof -
  let ?xs = "take i bs" and ?ys = "drop (Suc i) bs"
  have bs: "bs = ?xs @ bs ! i # ?ys" using assms(2) by (simp add: id_take_nth_drop)
  have "distinct (map pin_id (?xs @ bs ! i # ?ys))" using assms(1) bs by simp
  then have "\<forall>b \<in> set (?xs @ ?ys). pin_id b \<noteq> pin_id (bs ! i)" by (auto simp: image_iff)
  from poll_all_spec [OF this refl assms(3), of es run] assms(4) obtain b' where
    "\<forall>s. poll_all run (pin_id (bs ! i)) es (?xs @ bs ! i # ?ys) s =
      map_option (Pair (?xs @ b' # ?ys)) (for_list run (concat (map (handler_for (bs ! i)) (presses 0 es))) s)" by auto
  with bs assms(2) show ?thesis by (intro exI [of _ b']) (simp add: upd_conv_take_nth_drop)
qed

text \<open>A press of four polls, one of which fails, is a short click.\<close>

theorem button_history_witness:
  "\<exists>b'. poll_all (\<lambda>c cs. Some (cs @ [c])) 21 (replicate 3 0 @ [- 48, 0, 1, 1])
      [button_of 20, (button_of 21)\<lparr>short_click_handler := Some ''up''\<rparr>] [] = Some ([button_of 20, b'], [''up''])"
proof -
  let ?bs = "[button_of 20, (button_of 21)\<lparr>short_click_handler := Some ''up''\<rparr>]"
  have "button_inv 0 (?bs ! 1)" by (simp add: button_inv_def button_of_def)
  from button_history [OF _ _ this, of "replicate 3 0 @ [- 48, 0, 1, 1]" "\<lambda>c cs. Some (cs @ [c])"] show ?thesis
    by (auto simp: button_of_def numeral_3_eq_3 handler_for_def)
qed

end
