(* ===== verification/UserDisplay.thy ===== *)
theory UserDisplay
  imports Buttons
begin

text \<open>
  The display code of \<^verbatim>\<open>task4/gc9a01.c\<close>. It is the driver's, moved to user space: the
  framebuffer is a static array, the panel is reached through \<^verbatim>\<open>gpio_module.c\<close> and
  \<^verbatim>\<open>spi_module.c\<close>, and a transfer is cut into pieces of at most \<^verbatim>\<open>DATA_SIZE\<close> bytes. The bodies
  of \<^verbatim>\<open>lcd_put_char\<close> and \<^verbatim>\<open>lcd_put_string\<close> are the same text in both files, so their model is
  the driver's, run on the static array.
\<close>

section \<open>State\<close>

record screen_proc = proc +
  frame :: "nat \<Rightarrow> 16 word"

type_synonym 'a screen = "'a screen_proc_scheme"

definition LCD_PIN_CS :: "32 word" where "LCD_PIN_CS = 25"
definition LCD_PIN_RESET :: "32 word" where "LCD_PIN_RESET = 27"
definition LCD_PIN_DC :: "32 word" where "LCD_PIN_DC = 22"
definition DATA_SIZE :: nat where "DATA_SIZE = 1000"

section \<open>Commands and data\<close>

definition lcd_write_command_user :: "os \<Rightarrow> 8 word \<Rightarrow> 'a proc_scheme \<Rightarrow> 'a proc_scheme" where
  "lcd_write_command_user os cmd s = spi_write os [cmd] (snd (gpio_set_value os LCD_PIN_DC 0 s))"

function write_chunks :: "os \<Rightarrow> 8 word list \<Rightarrow> 'a proc_scheme \<Rightarrow> 'a proc_scheme" where
  "write_chunks os buff s =
     (if length buff > DATA_SIZE then write_chunks os (drop DATA_SIZE buff) (spi_write os (take DATA_SIZE buff) s)
      else spi_write os buff s)"
  by auto

termination by (relation "measure (\<lambda>(os, buff, s). length buff)") (auto simp: DATA_SIZE_def)

declare write_chunks.simps [simp del]

definition lcd_write_data_user :: "os \<Rightarrow> 8 word list \<Rightarrow> 'a proc_scheme \<Rightarrow> 'a proc_scheme" where
  "lcd_write_data_user os buff s = write_chunks os buff (snd (gpio_set_value os LCD_PIN_DC 1 s))"

definition Commands_user :: "8 word list" where
  "Commands_user = [
     0xFE, 0, 0,
     0xEF, 0, 0,
     0xEB, 1, 0, 0x14,
     0xFE, 0, 0,
     0xEF, 0, 0,
     0xEB, 1, 0, 0x14,
     0xFE, 0, 0,
     0xEF, 0, 0,
     0xEB, 1, 0, 0x14,
     0xFE, 0, 0,
     0xEF, 0, 0,
     0x84, 1, 0, 0x40,
     0x85, 1, 0, 0xF1,
     0x86, 1, 0, 0x98,
     0x87, 1, 0, 0x28,
     0x88, 1, 0, 0x0A,
     0x89, 1, 0, 0x21,
     0x8A, 1, 0, 0x00,
     0x8B, 1, 0, 0x80,
     0x8C, 1, 0, 0x01,
     0x8D, 1, 0, 0x00,
     0x8E, 1, 0, 0xDF,
     0x8F, 1, 0, 0x52,
     0xB6, 1, 0, 0x20,
     0x36, 1, 0, 0x48,
     0x3A, 1, 0, 0x05,
     0x90, 4, 0, 0x08, 0x08, 0x08, 0x08,
     0xBD, 1, 0, 0x06,
     0xA6, 1, 0, 0x74,
     0xBF, 1, 0, 0x1C,
     0xA7, 1, 0, 0x45,
     0xA9, 1, 0, 0xBB,
     0xB8, 1, 0, 0x63,
     0xE8, 1, 0, 0x34,
     0xFF, 3, 0, 0x60, 0x01, 0x04,
     0x74, 7, 0, 0x10, 0x75, 0x80, 0x00, 0x00, 0x4E, 0x00,
     0xC3, 5, 0, 0x14, 0xC4, 0x14, 0xC9, 0x25,
     0xBE, 1, 0, 0x11,
     0xBC, 1, 0, 0x00,
     0xE1, 2, 0, 0x10, 0x0e,
     0xDF, 3, 0, 0x21, 0x0c, 0x02,
     0xED, 2, 0, 0x1B, 0x0B,
     0xAE, 5, 0, 0x77, 0xCB, 0x02, 0xCD, 0x63,
     0x70, 9, 0, 0x07, 0x09, 0x04, 0x0e, 0x0f, 0x09, 0x07, 0x08, 0x03,
     0xf0, 6, 0, 0x45, 0x09, 0x08, 0x08, 0x26, 0x2a,
     0xf1, 6, 0, 0x43, 0x70, 0x72, 0x36, 0x37, 0x6f,
     0xf2, 6, 0, 0x45, 0x09, 0x08, 0x08, 0x26, 0x2a,
     0xf3, 6, 0, 0x43, 0x70, 0x72, 0x36, 0x37, 0x6f,
     0x62, 12, 0, 0x18, 0x0d, 0x71, 0xED, 0x70, 0x70, 0x18, 0x0F, 0x71, 0xEF, 0x70, 0x70,
     0x63, 12, 0, 0x18, 0x11, 0x71, 0xf1, 0x70, 0x70, 0x18, 0x13, 0x71, 0xf3, 0x70, 0x70,
     0x64, 7, 0, 0x28, 0x29, 0xF1, 0x01, 0xf1, 0x00, 0x07,
     0x66, 10, 0, 0x3c, 0x00, 0xCD, 0x67, 0x45, 0x45, 0x10, 0x00, 0x00, 0x00,
     0x67, 10, 0, 0x00, 0x3c, 0x00, 0x00, 0x00, 0x01, 0x54, 0x10, 0x32, 0x98,
     0x74, 7, 0, 0x10, 0x85, 0x80, 0x00, 0x00, 0x4e, 0x00,
     0x98, 2, 0, 0x3e, 0x07,
     0x35, 0, 0,
     0x21, 0, 0,
     0x11, 0, 1,
     0x29, 0, 1]"

fun send_transactions_user :: "os \<Rightarrow> nat \<Rightarrow> 8 word list \<Rightarrow> 'a proc_scheme \<Rightarrow> (8 word list \<times> 'a proc_scheme) option" where
  "send_transactions_user os 0 pBuffer s = Some (pBuffer, s)"
| "send_transactions_user os (Suc n) (Command # NumArgs # Delay # pBuffer) s =
     (if length pBuffer < unat NumArgs then None
      else
        let s = lcd_write_command_user os Command s;
            s = (if NumArgs \<noteq> 0 then lcd_write_data_user os (take (unat NumArgs) pBuffer) s else s) in
        send_transactions_user os n (drop (unat NumArgs) pBuffer) (if Delay \<noteq> 0 then call (Sleep (unat Delay)) s else s))"
| "send_transactions_user os (Suc n) _ s = None"

definition init_display_internal_user :: "os \<Rightarrow> 'a proc_scheme \<Rightarrow> 'a proc_scheme option" where
  "init_display_internal_user os s = do {
     (_, s) \<leftarrow> send_transactions_user os COMMANDS_TRANSACTIONS_COUNT Commands_user s;
     Some s }"

definition lcd_set_address_window_user :: "os \<Rightarrow> 16 word \<Rightarrow> 16 word \<Rightarrow> 16 word \<Rightarrow> 16 word \<Rightarrow> 'a proc_scheme \<Rightarrow> 'a proc_scheme" where
  "lcd_set_address_window_user os x0 y0 x1 y1 s =
     (let s = lcd_write_command_user os 0x2a s;
          s = lcd_write_data_user os [hi_byte x0, lo_byte x0, hi_byte x1, lo_byte x1] s;
          s = lcd_write_command_user os 0x2b s;
          s = lcd_write_data_user os [hi_byte y0, lo_byte y0, hi_byte y1, lo_byte y1] s in
      lcd_write_command_user os 0x2C s)"

section \<open>Drawing\<close>

definition lcd_update_screen_user :: "os \<Rightarrow> 'a screen \<Rightarrow> 'a screen" where
  "lcd_update_screen_user os s = lcd_write_data_user os (fb_bytes (frame s)) s"

definition frame_store :: "nat \<Rightarrow> 16 word \<Rightarrow> 'a screen \<Rightarrow> 'a screen option" where
  "frame_store i v s = (if i < fb_size then Some (s\<lparr>frame := (frame s)(i := v)\<rparr>) else None)"

definition lcd_draw_pixel_user :: "os \<Rightarrow> 16 word \<Rightarrow> 16 word \<Rightarrow> 16 word \<Rightarrow> 'a screen \<Rightarrow> 'a screen option" where
  "lcd_draw_pixel_user os x y color s =
     (if LCD_WIDTH \<le> unat x \<or> LCD_HEIGHT \<le> unat y then Some s
      else do {
        s \<leftarrow> frame_store (unat x + LCD_WIDTH * unat y) (swap_bytes color) s;
        Some (lcd_update_screen_user os s) })"

definition lcd_fill_rectangle_user ::
    "os \<Rightarrow> 16 word \<Rightarrow> 16 word \<Rightarrow> 16 word \<Rightarrow> 16 word \<Rightarrow> 16 word \<Rightarrow> 'a screen \<Rightarrow> 'a screen option" where
  "lcd_fill_rectangle_user os x y w h color s =
     (if LCD_WIDTH \<le> unat x \<or> LCD_HEIGHT \<le> unat y then Some s
      else
        let w = (if uint x + uint w - 1 > int LCD_WIDTH then of_nat LCD_WIDTH - x else w);
            h = (if uint y + uint h - 1 > int LCD_HEIGHT then of_nat LCD_HEIGHT - y else h)
        in do {
          s \<leftarrow> for_to (unat h) (\<lambda>j. for_to (unat w) (\<lambda>i.
                 frame_store ((unat x + LCD_WIDTH * unat y) + (i + LCD_WIDTH * j)) (swap_bytes color))) s;
          Some (lcd_update_screen_user os s) })"

definition lcd_fill_screen_user :: "os \<Rightarrow> 16 word \<Rightarrow> 'a screen \<Rightarrow> 'a screen option" where
  "lcd_fill_screen_user os color s = lcd_fill_rectangle_user os 0 0 (of_nat LCD_WIDTH - 1) (of_nat LCD_HEIGHT - 1) color s"

text \<open>Running a drawing routine of the driver on the static array.\<close>

definition array_of :: "(nat \<Rightarrow> 16 word) \<Rightarrow> display" where
  "array_of b = display_start\<lparr>frame_buffer := Live b\<rparr>"

definition on_frame :: "(display \<Rightarrow> display option) \<Rightarrow> 'a screen \<Rightarrow> 'a screen option" where
  "on_frame f s = do {
     d \<leftarrow> f (array_of (frame s));
     (case frame_buffer d of Live b \<Rightarrow> Some (s\<lparr>frame := b\<rparr>) | _ \<Rightarrow> None) }"

definition lcd_put_char_user :: "16 word \<Rightarrow> 16 word \<Rightarrow> char \<Rightarrow> FontDef \<Rightarrow> 16 word \<Rightarrow> 16 word \<Rightarrow> 'a screen \<Rightarrow> 'a screen option" where
  "lcd_put_char_user x y ch font color bgcolor = on_frame (lcd_put_char x y ch font color bgcolor)"

definition lcd_put_string_user :: "string \<Rightarrow> 16 word \<Rightarrow> 16 word \<Rightarrow> FontDef \<Rightarrow> 16 word \<Rightarrow> 16 word \<Rightarrow> 'a screen \<Rightarrow> 'a screen option" where
  "lcd_put_string_user str x y font color bgcolor = on_frame (lcd_put_string str x y font color bgcolor)"

section \<open>Starting and stopping\<close>

definition lcd_reset_user :: "os \<Rightarrow> 'a proc_scheme \<Rightarrow> 'a proc_scheme" where
  "lcd_reset_user os s =
     (let s = snd (gpio_set_value os LCD_PIN_RESET 0 s);
          s = call (Usleep 5000) s;
          s = snd (gpio_set_value os LCD_PIN_RESET 1 s) in
      snd (gpio_set_value os LCD_PIN_CS 0 s))"

definition init_display_user :: "os \<Rightarrow> 'a proc_scheme \<Rightarrow> 'a proc_scheme option" where
  "init_display_user os s =
     (let s = snd (gpio_init_out os LCD_PIN_RESET s);
          s = snd (gpio_init_out os LCD_PIN_DC s);
          s = snd (gpio_init_out os LCD_PIN_CS s);
          s = lcd_reset_user os s;
          s = init_spi_module os s in
      init_display_internal_user os s)"

definition lcd_deinit_user :: "os \<Rightarrow> 'a proc_scheme \<Rightarrow> 'a proc_scheme" where
  "lcd_deinit_user os s =
     (let s = deinit_spi s;
          s = snd (gpio_free os LCD_PIN_RESET s);
          s = snd (gpio_free os LCD_PIN_DC s) in
      snd (gpio_free os LCD_PIN_CS s))"

end
