(* ===== verification/UserDriver.thy ===== *)
theory UserDriver
  imports UserDisplay Gc9a01Spec
begin

text \<open>
  The two display drivers compared: \<^verbatim>\<open>task4/gc9a01.c\<close> in user space and
  \<^verbatim>\<open>final_task/display_driver/gc9a01.c\<close> in the kernel put the same bytes on the same wire,
  each with the same level of the data/command line, and fault in the same places.
\<close>

section \<open>The wire\<close>

text \<open>
  What the panel sees is the sequence of bytes with the level of the data/command line at
  each. In the kernel the line is set by \<open>gpio_set_value\<close>, in user space by writing to the
  file of the line.
\<close>

fun bus_step :: "bool \<times> (bool \<times> 8 word) list \<Rightarrow> bus_event \<Rightarrow> bool \<times> (bool \<times> 8 word) list" where
  "bus_step (dc, out) (Gpio_set pin v) = (if pin = GPIO_PIN_DC then v \<noteq> 0 else dc, out)"
| "bus_step (dc, out) (Spi_bytes bs) = (dc, out @ map (Pair dc) bs)"
| "bus_step w e = w"

definition bus_wire :: "display \<Rightarrow> bool \<times> (bool \<times> 8 word) list" where
  "bus_wire d = foldl bus_step (False, []) (bus d)"

fun call_step :: "string \<times> bool \<times> (bool \<times> 8 word) list \<Rightarrow> syscall \<Rightarrow> string \<times> bool \<times> (bool \<times> 8 word) list" where
  "call_step (cur, dc, out) (Open path fd) = (path, dc, out)"
| "call_step (cur, dc, out) (Write fd t) = (cur, if cur = GPIO_DIR @ ''/gpio22/value'' then hd t = CHR ''1'' else dc, out)"
| "call_step (cur, dc, out) (Spi_message fd bs sp b) = (cur, dc, out @ map (Pair dc) bs)"
| "call_step w c = w"

definition call_wire :: "'a proc_scheme \<Rightarrow> string \<times> bool \<times> (bool \<times> 8 word) list" where
  "call_wire p = foldl call_step ([], False, []) (calls p)"

lemma call_wire_call [simp]: "call_wire (call c p) = call_step (call_wire p) c"
  by (simp add: call_wire_def)

lemma call_wire_more [simp]: "call_wire (p\<lparr>frame := b\<rparr>) = call_wire p"
  by (simp add: call_wire_def)

lemma frame_call [simp]: "frame (call c p) = frame p"
  by (simp add: call_def)

text \<open>Every file can be opened.\<close>

definition files_open :: "os \<Rightarrow> bool" where
  "files_open os \<longleftrightarrow> (\<forall>cs path. 0 \<le> sys_open os cs path)"

section \<open>Commands and data on the wire\<close>

lemma set_dc:
  assumes "files_open os" "call_wire s = (cur, dc, out)"
  shows "\<exists>cur'. call_wire (snd (gpio_set_value os LCD_PIN_DC v s)) = (cur', v \<noteq> 0, out)"
proof -
  have "show_gpio LCD_PIN_DC = ''22''" by code_simp
  then have "gpio_value_path LCD_PIN_DC = GPIO_DIR @ ''/gpio22/value''" by (simp add: gpio_value_path)
  then show ?thesis using assms
    by (simp add: gpio_set_value_def open_file_def Let_def files_open_def linorder_not_less [symmetric])
qed

lemma set_dc_frame [simp]: "frame (snd (gpio_set_value os pin v s)) = frame s"
  by (simp add: gpio_set_value_def open_file_def Let_def)

lemma spi_write_wire:
  "call_wire s = (cur, dc, out) \<Longrightarrow> call_wire (spi_write os bs s) = (cur, dc, out @ map (Pair dc) bs)"
  by (simp add: spi_write_def complain_def Let_def)

lemma spi_write_frame [simp]: "frame (spi_write os bs s) = frame s"
  by (simp add: spi_write_def complain_def Let_def)

lemma write_chunks_wire:
  "call_wire s = (cur, dc, out) \<Longrightarrow> call_wire (write_chunks os bs s) = (cur, dc, out @ map (Pair dc) bs)"
proof (induction os bs s arbitrary: out rule: write_chunks.induct)
  case (1 os bs s)
  show ?case
  proof (cases "DATA_SIZE < length bs")
    case True
    from 1(1) [OF True spi_write_wire [OF 1(2)]] True show ?thesis
      by (subst write_chunks.simps) (simp flip: map_append)
  next
    case False
    then show ?thesis using spi_write_wire [OF 1(2)] by (subst write_chunks.simps) simp
  qed
qed

lemma write_chunks_frame [simp]: "frame (write_chunks os bs s) = frame s"
proof (induction os bs s rule: write_chunks.induct)
  case (1 os bs s)
  then show ?case by (subst write_chunks.simps) simp
qed

lemma write_command_wire:
  assumes "files_open os" "call_wire s = (cur, dc, out)"
  shows "\<exists>cur'. call_wire (lcd_write_command_user os c s) = (cur', False, out @ [(False, c)])"
  using set_dc [OF assms, of 0] spi_write_wire [of "snd (gpio_set_value os LCD_PIN_DC 0 s)" _ False out os "[c]"]
  by (auto simp: lcd_write_command_user_def)

lemma write_data_wire:
  assumes "files_open os" "call_wire s = (cur, dc, out)"
  shows "\<exists>cur'. call_wire (lcd_write_data_user os bs s) = (cur', True, out @ map (Pair True) bs)"
  using set_dc [OF assms, of 1] write_chunks_wire [of "snd (gpio_set_value os LCD_PIN_DC 1 s)" _ True out os bs]
  by (auto simp: lcd_write_data_user_def)

lemma write_frame [simp]:
  "frame (lcd_write_command_user os c s) = frame s" "frame (lcd_write_data_user os bs s) = frame s"
  by (simp_all add: lcd_write_command_user_def lcd_write_data_user_def)

section \<open>The simulation\<close>

definition same_screen :: "display \<Rightarrow> 'a screen \<Rightarrow> bool" where
  "same_screen d s \<longleftrightarrow> ready d \<and> frame_buffer d = Live (frame s) \<and> snd (call_wire s) = bus_wire d"

lemma bus_wire_append: "bus_wire (d\<lparr>bus := bus d @ es\<rparr>) = foldl bus_step (bus_wire d) es"
  by (simp add: bus_wire_def)

lemma same_screenE:
  assumes "same_screen d s"
  obtains cur dc out where "call_wire s = (cur, dc, out)" "bus_wire d = (dc, out)" "ready d" "frame_buffer d = Live (frame s)"
  using assms by (cases "call_wire s"; cases "bus_wire d") (auto simp: same_screen_def)

lemma command_sim:
  assumes "files_open os" "same_screen d s"
  shows "\<exists>d'. lcd_write_command k c d = Some d' \<and> same_screen d' (lcd_write_command_user os c s)"
proof -
  obtain cur dc out where w: "call_wire s = (cur, dc, out)" "bus_wire d = (dc, out)" "ready d" "frame_buffer d = Live (frame s)"
    using assms(2) by (rule same_screenE)
  have "bus_wire (d\<lparr>bus := bus d @ command_events c\<rparr>) = (False, out @ [(False, c)])"
    by (simp add: bus_wire_append w(2) command_events_def)
  with write_command_wire [OF assms(1) w(1), of c] w(3,4) show ?thesis
    by (auto simp: same_screen_def lcd_write_command_ready)
qed

lemma data_sim:
  assumes "files_open os" "same_screen d s"
  shows "\<exists>d'. lcd_write_data k bs d = Some d' \<and> same_screen d' (lcd_write_data_user os bs s)"
proof -
  obtain cur dc out where w: "call_wire s = (cur, dc, out)" "bus_wire d = (dc, out)" "ready d" "frame_buffer d = Live (frame s)"
    using assms(2) by (rule same_screenE)
  have "bus_wire (d\<lparr>bus := bus d @ data_events bs\<rparr>) = (True, out @ map (Pair True) bs)"
    by (simp add: bus_wire_append w(2) data_events_def GPIO_PIN_DC_def)
  with write_data_wire [OF assms(1) w(1), of bs] w(3,4) show ?thesis
    by (auto simp: same_screen_def lcd_write_data_ready)
qed

lemma bind_Some_sim:
  "\<exists>d'. f d = Some d' \<and> R d' s' \<Longrightarrow> (\<And>d'. R d' s' \<Longrightarrow> \<exists>d''. g d' = Some d'' \<and> R d'' s'') \<Longrightarrow>
    \<exists>d''. Option.bind (f d) g = Some d'' \<and> R d'' s''"
  by auto

lemma window_sim:
  assumes "files_open os" "same_screen d s"
  shows "\<exists>d'. lcd_set_address_window k x0 y0 x1 y1 d = Some d' \<and> same_screen d' (lcd_set_address_window_user os x0 y0 x1 y1 s)"
  unfolding lcd_set_address_window_def lcd_set_address_window_user_def Let_def
  by (rule bind_Some_sim [where R = same_screen], rule command_sim [OF assms],
      rule bind_Some_sim [where R = same_screen], erule data_sim [OF assms(1)],
      rule bind_Some_sim [where R = same_screen], erule command_sim [OF assms(1)],
      rule bind_Some_sim [where R = same_screen], erule data_sim [OF assms(1)],
      erule command_sim [OF assms(1)])

lemma update_sim:
  assumes "files_open os" "same_screen d s"
  shows "rel_option same_screen (lcd_update_screen k d) (Some (lcd_update_screen_user os s))"
  using data_sim [OF assms, of k "fb_bytes (frame s)"] assms(2)
  by (auto simp: lcd_update_screen_def lcd_update_screen_user_def same_screen_def)

lemma store_sim: "same_screen d s \<Longrightarrow> rel_option same_screen (fb_store i v d) (frame_store i v s)"
  by (auto simp: fb_store_def frame_store_def same_screen_def bus_wire_def)

lemma for_to_rel:
  assumes "\<And>i s t. R s t \<Longrightarrow> rel_option R (f i s) (g i t)" "R s t"
  shows "rel_option R (for_to n f s) (for_to n g t)"
proof (induction n)
  case (Suc n)
  then show ?case using assms(1) by (cases rule: option.rel_cases) auto
qed (use assms(2) in simp)

lemma bind_rel:
  "rel_option R a b \<Longrightarrow> (\<And>s t. R s t \<Longrightarrow> rel_option R (f s) (g t)) \<Longrightarrow> rel_option R (Option.bind a f) (Option.bind b g)"
  by (cases a; cases b) auto

lemma pixel_sim:
  assumes "files_open os" "same_screen d s"
  shows "rel_option same_screen (lcd_draw_pixel k x y c d) (lcd_draw_pixel_user os x y c s)"
  unfolding lcd_draw_pixel_def lcd_draw_pixel_user_def
  using assms(2) by (auto intro!: bind_rel store_sim update_sim [OF assms(1)])

lemma rectangle_sim:
  assumes "files_open os" "same_screen d s"
  shows "rel_option same_screen (lcd_fill_rectangle k x y w h c d) (lcd_fill_rectangle_user os x y w h c s)"
  unfolding lcd_fill_rectangle_def lcd_fill_rectangle_user_def Let_def
  using assms(2) by (auto intro!: bind_rel for_to_rel store_sim update_sim [OF assms(1)])

lemma fill_screen_sim:
  assumes "files_open os" "same_screen d s"
  shows "rel_option same_screen (lcd_fill_screen k c d) (lcd_fill_screen_user os c s)"
  unfolding lcd_fill_screen_def lcd_fill_screen_user_def by (rule rectangle_sim [OF assms])

text \<open>Text is drawn by the same code: it reads and writes the framebuffer only.\<close>

definition same_frame :: "display \<Rightarrow> display \<Rightarrow> display \<Rightarrow> bool" where
  "same_frame d0 d e \<longleftrightarrow> frame_buffer d = frame_buffer e \<and> d = d0\<lparr>frame_buffer := frame_buffer e\<rparr> \<and> has_frame e"

lemma store_frame_sim: "same_frame d0 d e \<Longrightarrow> rel_option (same_frame d0) (fb_store i v d) (fb_store i v e)"
  by (auto simp: fb_store_def same_frame_def has_frame_def split: obj.split)

lemma rel_option_refl: "(\<And>x. R x x) \<Longrightarrow> rel_option R a a"
  by (cases a) auto

lemma put_char_frame_sim:
  assumes "same_frame d0 d e"
  shows "rel_option (same_frame d0) (lcd_put_char x y ch font c bg d) (lcd_put_char x y ch font c bg e)"
  unfolding lcd_put_char_def Let_def
proof (rule for_to_rel [where R = "same_frame d0", OF _ assms])
  fix i d e assume "same_frame d0 d e"
  then show "rel_option (same_frame d0)
     (do { row \<leftarrow> font_row font ((of_char ch - 32) * uint (height font) + int i);
       for_to (unat (width font)) (\<lambda>j. fb_store ((unat x + LCD_WIDTH * unat y) + (j + LCD_WIDTH * i))
         (if push_bit j (ucast row :: 32 word) AND 0x8000 \<noteq> 0 then swap_bytes c else swap_bytes bg)) d })
     (do { row \<leftarrow> font_row font ((of_char ch - 32) * uint (height font) + int i);
       for_to (unat (width font)) (\<lambda>j. fb_store ((unat x + LCD_WIDTH * unat y) + (j + LCD_WIDTH * i))
         (if push_bit j (ucast row :: 32 word) AND 0x8000 \<noteq> 0 then swap_bytes c else swap_bytes bg)) e })"
    by (cases "font_row font ((of_char ch - 32) * uint (height font) + int i)") (auto intro!: for_to_rel store_frame_sim)
qed

lemma put_string_frame_sim:
  "same_frame d0 d e \<Longrightarrow> rel_option (same_frame d0) (put_string_from font x c bg cs lx ly d) (put_string_from font x c bg cs lx ly e)"
proof (induction cs arbitrary: lx ly d e)
  case (Cons ch cs)
  then show ?case by (auto simp: Let_def intro!: bind_rel put_char_frame_sim)
qed simp

lemma on_frame_sim:
  assumes "same_screen d s" "\<And>d e. same_frame d0 d e \<Longrightarrow> rel_option (same_frame d0) (f d) (f e)" "d0 = d"
  shows "rel_option same_screen (f d) (on_frame f s)"
proof -
  have "same_frame d0 d (array_of (frame s))"
    using assms(1,3) by (simp add: same_frame_def same_screen_def array_of_def display_start_def has_frame_def)
  from assms(2) [OF this] show ?thesis
  proof (cases rule: option.rel_cases)
    case (Some d' e')
    then obtain b where "frame_buffer e' = Live b" by (auto simp: same_frame_def has_frame_def)
    with Some assms(1,3) show ?thesis
      by (auto simp: on_frame_def same_frame_def same_screen_def bus_wire_def)
  qed (simp add: on_frame_def)
qed

lemma put_char_sim:
  "same_screen d s \<Longrightarrow> rel_option same_screen (lcd_put_char x y ch font c bg d) (lcd_put_char_user x y ch font c bg s)"
  unfolding lcd_put_char_user_def by (rule on_frame_sim [OF _ put_char_frame_sim refl])

lemma put_string_sim:
  "same_screen d s \<Longrightarrow> rel_option same_screen (lcd_put_string str x y font c bg d) (lcd_put_string_user str x y font c bg s)"
  unfolding lcd_put_string_user_def
  by (rule on_frame_sim [OF _ _ refl]) (simp_all add: lcd_put_string_def put_string_frame_sim)

section \<open>Drawing programs\<close>

datatype drawing =
    Window "16 word" "16 word" "16 word" "16 word"
  | Update
  | Pixel "16 word" "16 word" "16 word"
  | Rectangle "16 word" "16 word" "16 word" "16 word" "16 word"
  | Fill "16 word"
  | Character "16 word" "16 word" char FontDef "16 word" "16 word"
  | Text string "16 word" "16 word" FontDef "16 word" "16 word"

fun draw_kernel :: "kernel \<Rightarrow> drawing \<Rightarrow> display \<Rightarrow> display option" where
  "draw_kernel k (Window x0 y0 x1 y1) d = lcd_set_address_window k x0 y0 x1 y1 d"
| "draw_kernel k Update d = lcd_update_screen k d"
| "draw_kernel k (Pixel x y c) d = lcd_draw_pixel k x y c d"
| "draw_kernel k (Rectangle x y w h c) d = lcd_fill_rectangle k x y w h c d"
| "draw_kernel k (Fill c) d = lcd_fill_screen k c d"
| "draw_kernel k (Character x y ch font c bg) d = lcd_put_char x y ch font c bg d"
| "draw_kernel k (Text str x y font c bg) d = lcd_put_string str x y font c bg d"

fun draw_user :: "os \<Rightarrow> drawing \<Rightarrow> 'a screen \<Rightarrow> 'a screen option" where
  "draw_user os (Window x0 y0 x1 y1) s = Some (lcd_set_address_window_user os x0 y0 x1 y1 s)"
| "draw_user os Update s = Some (lcd_update_screen_user os s)"
| "draw_user os (Pixel x y c) s = lcd_draw_pixel_user os x y c s"
| "draw_user os (Rectangle x y w h c) s = lcd_fill_rectangle_user os x y w h c s"
| "draw_user os (Fill c) s = lcd_fill_screen_user os c s"
| "draw_user os (Character x y ch font c bg) s = lcd_put_char_user x y ch font c bg s"
| "draw_user os (Text str x y font c bg) s = lcd_put_string_user str x y font c bg s"

lemma draw_sim:
  assumes "files_open os" "same_screen d s"
  shows "rel_option same_screen (draw_kernel k p d) (draw_user os p s)"
proof (cases p)
  case (Window x0 y0 x1 y1)
  with window_sim [OF assms, of k x0 y0 x1 y1] show ?thesis by auto
qed (use assms in \<open>simp_all add: update_sim pixel_sim rectangle_sim fill_screen_sim put_char_sim put_string_sim\<close>)

text \<open>C8: The user-space driver and the kernel driver are equivalent: run the same drawing
  program from the same screen, and either both leave the framebuffer or both finish with the
  same framebuffer and the same bytes, at the same level of the data/command line, on the wire.
  Cutting a transfer into pieces makes no difference.\<close>

theorem user_driver_equivalent:
  assumes "files_open os" "same_screen d s"
  shows "rel_option same_screen (for_list (draw_kernel k) ps d) (for_list (draw_user os) ps s)"
  using assms(2)
proof (induction ps arbitrary: d s)
  case (Cons p ps)
  then show ?case by (auto intro!: bind_rel draw_sim [OF assms(1)])
qed simp

definition test_os :: os where
  "test_os = \<lparr>sys_open = (\<lambda>_ _. 3), sys_read = (\<lambda>_ _. Some CHR ''1''), sys_ioctl = (\<lambda>_ _ _. (0, None)),
     sys_message = (\<lambda>_. 1), no_return = (\<lambda>_. 4)\<rparr>"

definition test_screen :: "unit screen" where
  "test_screen = \<lparr>calls = [], spi_fd = 3, spi_mode = 0, spi_bits = 8, spi_speed = 5000000, frame = (\<lambda>_. 0)\<rparr>"

definition test_display :: display where
  "test_display = (array_of (\<lambda>_. 0))\<lparr>spi_device_master := Live ()\<rparr>"

definition test_kernel :: kernel where
  "test_kernel = \<lparr>gpio_direction_output = (\<lambda>_. 0), gpio_direction_input = (\<lambda>_. 0), kernel_gpio_get_value = (\<lambda>_. 0),
     spi_busnum_to_master = (\<lambda>_. True), spi_new_device = (\<lambda>_ _. True), spi_sync = 0, kmalloc = None\<rparr>"

theorem user_driver_equivalent_witness:
  "rel_option same_screen (for_list (draw_kernel test_kernel) [Pixel 1 2 0xF800, Update] test_display)
     (for_list (draw_user test_os) [Pixel 1 2 0xF800, Update] test_screen)"
proof (rule user_driver_equivalent)
  show "files_open test_os" by (simp add: files_open_def test_os_def)
  show "same_screen test_display test_screen"
    by (simp add: same_screen_def test_display_def test_screen_def array_of_def display_start_def ready_def
        call_wire_def bus_wire_def)
qed

end
