(* ===== verification/CounterApp.thy ===== *)
theory CounterApp
  imports UserDriver
begin

text \<open>
  The application of \<^verbatim>\<open>task4/main.c\<close>: a counter worked by the buttons, the time of day and
  the address of the host, drawn on the display in a loop that a long press of the control
  button ends.
\<close>

section \<open>State\<close>

datatype callback = Push_counter_up | Push_counter_down | Reset_counter | Exit_app

record app = screen_proc +
  buttons :: "callback button_descriptor list"
  counter_value :: int
  running_app :: bool
  counter_rect_invalidated :: bool
  local_ip :: string
  is_initialized :: bool

definition app_start :: app where
  "app_start = \<lparr>calls = [], spi_fd = 0, spi_mode = 0, spi_bits = 8, spi_speed = 5000000, frame = (\<lambda>_. 0),
     buttons = buttons_start, counter_value = 0, running_app = True, counter_rect_invalidated = True,
     local_ip = [], is_initialized = False\<rparr>"

definition CONVERSION_BUFFER_SIZE :: nat where "CONVERSION_BUFFER_SIZE = 64"
definition IP_BUFFER_LENGTH :: nat where "IP_BUFFER_LENGTH = 256"

section \<open>Callbacks\<close>

definition update_counter_rect :: "app \<Rightarrow> app" where
  "update_counter_rect s = s\<lparr>counter_rect_invalidated := True\<rparr>"

definition push_counter_up :: "app \<Rightarrow> app option" where
  "push_counter_up s = do {
     v \<leftarrow> c_add (counter_value s) 1;
     let s = s\<lparr>counter_value := v\<rparr>;
     let s = call (Print (''Updated counter value UP:'' @ show_int (counter_value s) @ ''\<newline>'')) s;
     Some (update_counter_rect s) }"

definition push_counter_down :: "app \<Rightarrow> app option" where
  "push_counter_down s = do {
     v \<leftarrow> c_sub (counter_value s) 1;
     let s = (if v \<ge> 0 then s\<lparr>counter_value := v\<rparr> else s);
     let s = call (Print (''Updated counter value DOWN:'' @ show_int (counter_value s) @ ''\<newline>'')) s;
     Some (update_counter_rect s) }"

definition reset_counter :: "app \<Rightarrow> app" where
  "reset_counter s =
     (let s = s\<lparr>counter_value := 0\<rparr>;
          s = call (Print (''Updated counter value RESET:'' @ show_int (counter_value s) @ ''\<newline>'')) s in
      update_counter_rect s)"

definition exit_app :: "app \<Rightarrow> app" where
  "exit_app s = s\<lparr>running_app := False\<rparr>"

fun run_callback :: "callback \<Rightarrow> app \<Rightarrow> app option" where
  "run_callback Push_counter_up s = push_counter_up s"
| "run_callback Push_counter_down s = push_counter_down s"
| "run_callback Reset_counter s = Some (reset_counter s)"
| "run_callback Exit_app s = Some (exit_app s)"

section \<open>Drawing\<close>

text \<open>The time of day is an input of each round of the loop.\<close>

definition draw_current_time :: "os \<Rightarrow> int \<times> int \<times> int \<Rightarrow> app \<Rightarrow> app option" where
  "draw_current_time os = (\<lambda>(tm_hour, tm_min, tm_sec) s.
     (let conversion_buffer = take (CONVERSION_BUFFER_SIZE - 1)
            (show_int tm_hour @ '':'' @ show_int tm_min @ '':'' @ show_int tm_sec) in do {
        s \<leftarrow> lcd_put_string_user conversion_buffer (of_nat (LCD_WIDTH div 4)) 40 Font_11x18 COLOR_RED COLOR_BLACK s;
        Some (lcd_update_screen_user os s) }))"

text \<open>\<open>fgets\<close> reads one line with its newline, as far as the buffer goes; nothing at the end of the file.\<close>

fun first_line :: "string \<Rightarrow> string" where
  "first_line [] = []"
| "first_line (c # cs) = (if c = CHR ''\<newline>'' then [c] else c # first_line cs)"

text \<open>\<open>hosts\<close> is the contents of \<^verbatim>\<open>host.txt\<close>, \<open>None\<close> when it cannot be opened.\<close>

definition draw_ip_address :: "string option \<Rightarrow> app \<Rightarrow> app option" where
  "draw_ip_address hosts s = do {
     s \<leftarrow> (if \<not> is_initialized s then
            (case hosts of
               None \<Rightarrow> None
             | Some t \<Rightarrow> Some (s\<lparr>local_ip := if t = [] then local_ip s else take (IP_BUFFER_LENGTH - 1) (first_line t),
                                 is_initialized := True\<rparr>))
          else Some s);
     lcd_put_string_user (takeWhile (\<lambda>c. c \<noteq> NUL) (local_ip s)) (of_nat (LCD_WIDTH div 4)) (of_nat (LCD_HEIGHT - 60))
       Font_11x18 COLOR_RED COLOR_BLACK s }"

definition draw_counter_value :: "os \<Rightarrow> app \<Rightarrow> app option" where
  "draw_counter_value os s =
     (if counter_rect_invalidated s then
        let x0_counter = of_nat (LCD_WIDTH div 2 - unat (width Font_16x26) div 2);
            y0_counter = of_nat (LCD_HEIGHT div 2 - unat (height Font_16x26) div 2);
            conversion_buffer = take (CONVERSION_BUFFER_SIZE - 1) (show_int (counter_value s)) in do {
          s \<leftarrow> lcd_put_string_user conversion_buffer x0_counter y0_counter Font_16x26 COLOR_RED COLOR_BLACK s;
          Some ((lcd_update_screen_user os s)\<lparr>counter_rect_invalidated := False\<rparr>) }
      else Some s)"

section \<open>The program\<close>

definition process_buttons :: "os \<Rightarrow> app \<Rightarrow> app option" where
  "process_buttons os s = do {
     (bs, s) \<leftarrow> process_buttons_module os run_callback (buttons s, s);
     Some (s\<lparr>buttons := bs\<rparr>) }"

definition main_round :: "os \<Rightarrow> string option \<Rightarrow> int \<times> int \<times> int \<Rightarrow> app \<Rightarrow> app option" where
  "main_round os hosts now s = do {
     s \<leftarrow> process_buttons os s;
     s \<leftarrow> draw_counter_value os s;
     s \<leftarrow> draw_current_time os now s;
     draw_ip_address hosts s }"

text \<open>The loop, for as many rounds as there are times of day.\<close>

fun main_loop :: "os \<Rightarrow> string option \<Rightarrow> (int \<times> int \<times> int) list \<Rightarrow> app \<Rightarrow> app option" where
  "main_loop os hosts [] s = Some s"
| "main_loop os hosts (now # nows) s =
     (if running_app s then do {
        s \<leftarrow> main_round os hosts now s;
        main_loop os hosts nows s }
      else Some s)"

definition main_setup :: "os \<Rightarrow> app \<Rightarrow> app option" where
  "main_setup os s = do {
     s \<leftarrow> init_display_user os s;
     let s = init_buttons_module os s;
     let s = call (Print ''LCD init ok\<newline>'') s;
     let s = lcd_set_address_window_user os 0 0 (of_nat LCD_WIDTH - 1) (of_nat LCD_HEIGHT - 1) s;
     s \<leftarrow> lcd_fill_screen_user os COLOR_BLUE s;
     let s = lcd_update_screen_user os s;
     let bs = attach_short_click_listener_counter_up (Some Push_counter_up) (buttons s);
     let bs = attach_short_click_listener_counter_down (Some Push_counter_down) bs;
     let bs = attach_short_click_listener_control_button (Some Reset_counter) bs;
     Some (s\<lparr>buttons := attach_long_click_listener (Some Exit_app) bs\<rparr>) }"

definition main_teardown :: "os \<Rightarrow> app \<Rightarrow> app" where
  "main_teardown os s = lcd_deinit_user os (deinit_buttons_module os s)"

section \<open>Callbacks in sequence\<close>

definition count_up :: "nat list \<Rightarrow> nat" where
  "count_up ns = length (filter (\<lambda>n. 0 < n \<and> n < 1000) ns)"

lemma push_up:
  assumes "0 \<le> counter_value s" "counter_value s < 2147483647"
  shows "\<exists>s'. push_counter_up s = Some s' \<and> counter_value s' = counter_value s + 1"
  using assms by (auto simp: push_counter_up_def update_counter_rect_def call_def c_add_def c_int_def in_int_def)

lemma push_down:
  assumes "0 \<le> counter_value s" "counter_value s \<le> 2147483647"
  shows "\<exists>s'. push_counter_down s = Some s' \<and> counter_value s' = max 0 (counter_value s - 1)"
  using assms by (auto simp: push_counter_down_def update_counter_rect_def call_def c_sub_def c_int_def in_int_def)

lemma reset_zero: "counter_value (reset_counter s) = 0"
  by (simp add: reset_counter_def update_counter_rect_def call_def Let_def)

text \<open>What the callbacks make of the counter.\<close>

fun counter_after :: "callback list \<Rightarrow> int \<Rightarrow> int" where
  "counter_after [] v = v"
| "counter_after (Push_counter_up # cs) v = counter_after cs (v + 1)"
| "counter_after (Push_counter_down # cs) v = counter_after cs (max 0 (v - 1))"
| "counter_after (Reset_counter # cs) v = counter_after cs 0"
| "counter_after (Exit_app # cs) v = counter_after cs v"

lemma callbacks_counter:
  assumes "0 \<le> counter_value s" "counter_value s + int (length cs) \<le> 2147483647"
  shows "\<exists>s'. for_list run_callback cs s = Some s' \<and> counter_value s' = counter_after cs (counter_value s) \<and>
    0 \<le> counter_value s'"
  using assms
proof (induction cs arbitrary: s)
  case (Cons c cs)
  have "\<exists>s'. run_callback c s = Some s' \<and> 0 \<le> counter_value s' \<and> counter_value s' \<le> counter_value s + 1 \<and>
      counter_after (c # cs) (counter_value s) = counter_after cs (counter_value s')"
    using push_up [of s] push_down [of s] reset_zero [of s] Cons.prems by (cases c) (auto simp: exit_app_def)
  then obtain s' where s': "run_callback c s = Some s'" "0 \<le> counter_value s'" "counter_value s' \<le> counter_value s + 1"
    "counter_after (c # cs) (counter_value s) = counter_after cs (counter_value s')" by blast
  from Cons.IH [OF s'(2)] s' Cons.prems show ?case by auto
qed simp

lemma callbacks_running:
  "for_list run_callback cs s = Some s' \<Longrightarrow> running_app s' \<longleftrightarrow> running_app s \<and> Exit_app \<notin> set cs"
proof (induction cs arbitrary: s)
  case (Cons c cs)
  then obtain s1 where s1: "run_callback c s = Some s1" "for_list run_callback cs s1 = Some s'" by (auto simp: bind_eq_Some_conv)
  have "running_app s1 \<longleftrightarrow> running_app s \<and> c \<noteq> Exit_app"
    using s1(1) by (cases c) (auto simp: push_counter_up_def push_counter_down_def reset_counter_def exit_app_def
        update_counter_rect_def call_def Let_def bind_eq_Some_conv split: if_splits)
  with Cons.IH [OF s1(2)] show ?case by auto
qed simp

section \<open>The buttons of the application\<close>

definition app_buttons :: "callback button_descriptor list" where
  "app_buttons =
     [(button_of 21)\<lparr>short_click_handler := Some Push_counter_up\<rparr>,
      (button_of 20)\<lparr>short_click_handler := Some Push_counter_down\<rparr>,
      (button_of 16)\<lparr>short_click_handler := Some Reset_counter, long_click_handler := Some Exit_app\<rparr>]"

lemma attach_all:
  "attach_long_click_listener (Some Exit_app)
     (attach_short_click_listener_control_button (Some Reset_counter)
       (attach_short_click_listener_counter_down (Some Push_counter_down)
         (attach_short_click_listener_counter_up (Some Push_counter_up) buttons_start))) = app_buttons"
  by (simp add: attach_long_click_listener_def attach_short_click_listener_control_button_def
      attach_short_click_listener_counter_down_def attach_short_click_listener_counter_up_def with_button_def
      buttons_start_def app_buttons_def button_of_def COUNTER_UP_PIN_def COUNTER_DOWN_PIN_def CONTROL_BUTTON_PIN_def)

lemma app_buttons_ok: "distinct (map pin_id app_buttons)" "length app_buttons = 3" "i < 3 \<Longrightarrow> button_inv 0 (app_buttons ! i)"
  by (auto simp: app_buttons_def button_of_def button_inv_def numeral_3_eq_3 less_Suc_eq)

lemma length_presses: "length (presses n es) \<le> length es"
  by (induction n es rule: presses.induct) auto

lemma up_calls:
  "counter_after (concat (map (handler_for (app_buttons ! 0)) ns)) v = v + int (count_up ns)"
  "length (concat (map (handler_for (app_buttons ! 0)) ns)) \<le> length ns"
  by (induction ns arbitrary: v) (auto simp: handler_for_def app_buttons_def button_of_def count_up_def)

text \<open>The counter counts clicks: over any history of polls of the up button it grows by one for
  each completed press of fewer than 1000 polls, and by nothing else.\<close>

theorem counter_counts_presses:
  assumes "buttons s = app_buttons" "0 \<le> counter_value s" "counter_value s + int (length es) \<le> 2147483647"
  shows "\<exists>bs s'. poll_all run_callback COUNTER_UP_PIN es (buttons s) s = Some (bs, s') \<and>
    counter_value s' = counter_value s + int (length (filter (\<lambda>n. 0 < n \<and> n < 1000) (presses 0 es)))"
proof -
  let ?cs = "concat (map (handler_for (app_buttons ! 0)) (presses 0 es))"
  have "length ?cs \<le> length es" using up_calls(2) [of "presses 0 es"] length_presses [of 0 es] by linarith
  then obtain s' where s': "for_list run_callback ?cs s = Some s'" "counter_value s' = counter_after ?cs (counter_value s)"
    using callbacks_counter [OF assms(2), of ?cs] assms(3) by auto
  have "pin_id (app_buttons ! 0) = COUNTER_UP_PIN" by (simp add: app_buttons_def button_of_def COUNTER_UP_PIN_def)
  with button_history [OF app_buttons_ok(1), of 0 es run_callback] app_buttons_ok(2,3) assms
  obtain b' where "poll_all run_callback COUNTER_UP_PIN es app_buttons s = map_option (Pair (app_buttons[0 := b'])) (for_list run_callback ?cs s)"
    by auto
  with s' up_calls(1) [of "presses 0 es" "counter_value s"] assms(1) show ?thesis by (simp add: count_up_def)
qed

theorem counter_counts_presses_witness:
  "\<exists>bs s'. poll_all run_callback COUNTER_UP_PIN [0, 0, 1, 1, 0, 1] app_buttons (app_start\<lparr>buttons := app_buttons\<rparr>) = Some (bs, s') \<and>
    counter_value s' = 2"
  using counter_counts_presses [of "app_start\<lparr>buttons := app_buttons\<rparr>" "[0, 0, 1, 1, 0, 1]"] by (simp add: app_start_def)

lemma control_calls:
  "Exit_app \<in> set (concat (map (handler_for (app_buttons ! 2)) ns)) \<longleftrightarrow> (\<exists>n \<in> set ns. 6000 < n)"
  "counter_after (concat (map (handler_for (app_buttons ! 2)) ns)) v = (if \<exists>n \<in> set ns. 0 < n \<and> n < 1000 then 0 else v)"
  "length (concat (map (handler_for (app_buttons ! 2)) ns)) \<le> length ns"
  by (induction ns arbitrary: v) (auto simp: handler_for_def app_buttons_def button_of_def)

text \<open>C29: The control button: a press of more than 6000 polls, and nothing shorter, ends the
  application, and a click resets the counter.\<close>

theorem control_button_ends_and_resets:
  assumes "buttons s = app_buttons" "running_app s" "0 \<le> counter_value s" "counter_value s + int (length es) \<le> 2147483647"
  shows "\<exists>bs s'. poll_all run_callback CONTROL_BUTTON_PIN es (buttons s) s = Some (bs, s') \<and>
    (running_app s' \<longleftrightarrow> (\<forall>n \<in> set (presses 0 es). n \<le> 6000)) \<and>
    counter_value s' = (if \<exists>n \<in> set (presses 0 es). 0 < n \<and> n < 1000 then 0 else counter_value s)"
proof -
  let ?cs = "concat (map (handler_for (app_buttons ! 2)) (presses 0 es))"
  have "length ?cs \<le> length es" using control_calls(3) [of "presses 0 es"] length_presses [of 0 es] by linarith
  then obtain s' where s': "for_list run_callback ?cs s = Some s'" "counter_value s' = counter_after ?cs (counter_value s)"
    using callbacks_counter [OF assms(3), of ?cs] assms(4) by auto
  have "pin_id (app_buttons ! 2) = CONTROL_BUTTON_PIN" by (simp add: app_buttons_def button_of_def CONTROL_BUTTON_PIN_def)
  with button_history [OF app_buttons_ok(1), of 2 es run_callback] app_buttons_ok(2,3) assms
  obtain b' where "poll_all run_callback CONTROL_BUTTON_PIN es app_buttons s = map_option (Pair (app_buttons[2 := b'])) (for_list run_callback ?cs s)"
    by auto
  with s' control_calls [of "presses 0 es"] callbacks_running [OF s'(1)] assms(1,2) show ?thesis by (auto simp: not_less)
qed

theorem control_button_ends_and_resets_witness:
  "\<exists>bs s'. poll_all run_callback CONTROL_BUTTON_PIN (replicate 6001 0 @ [1]) app_buttons (app_start\<lparr>buttons := app_buttons\<rparr>) = Some (bs, s') \<and>
    \<not> running_app s'"
proof -
  have p: "presses n (replicate m 0 @ [1]) = [n + m]" for n m by (induction m arbitrary: n) auto
  show ?thesis
    using control_button_ends_and_resets [of "app_start\<lparr>buttons := app_buttons\<rparr>" "replicate 6001 0 @ [1]"] p [of 0 6001]
    by (auto simp: app_start_def simp del: replicate.simps)
qed

section \<open>Drawing stays on the screen\<close>

lemma spi_write_calls: "\<exists>cs. spi_write os bs s = s\<lparr>calls := cs\<rparr>"
  by (auto simp: spi_write_def complain_def call_def Let_def)

lemma write_chunks_calls: "\<exists>cs. write_chunks os bs s = s\<lparr>calls := cs\<rparr>"
proof (induction os bs s rule: write_chunks.induct)
  case (1 os bs s)
  show ?case
  proof (cases "DATA_SIZE < length bs")
    case True
    obtain cs where "spi_write os (take DATA_SIZE bs) s = s\<lparr>calls := cs\<rparr>" using spi_write_calls by blast
    with 1 [OF True] True show ?thesis by (subst write_chunks.simps) auto
  next
    case False
    then show ?thesis using spi_write_calls by (subst write_chunks.simps) simp
  qed
qed

lemma write_data_calls: "\<exists>cs. lcd_write_data_user os bs s = s\<lparr>calls := cs\<rparr>"
proof -
  have "\<exists>cs. snd (gpio_set_value os LCD_PIN_DC 1 s) = s\<lparr>calls := cs\<rparr>"
    by (auto simp: gpio_set_value_def open_file_def call_def Let_def)
  then obtain cs where s: "snd (gpio_set_value os LCD_PIN_DC 1 s) = s\<lparr>calls := cs\<rparr>" ..
  from write_chunks_calls [of os bs "s\<lparr>calls := cs\<rparr>"] show ?thesis by (auto simp: lcd_write_data_user_def s)
qed

lemma update_screen_calls: "\<exists>cs. lcd_update_screen_user os s = s\<lparr>calls := cs\<rparr>"
  unfolding lcd_update_screen_user_def by (rule write_data_calls)

lemma text_fits:
  assumes "font_ok font" "list_all printable t" "unat x + length t * unat (width font) \<le> LCD_WIDTH"
    "unat y + unat (height font) \<le> LCD_HEIGHT"
  shows "\<exists>b. lcd_put_string_user t x y font c bg s = Some (s\<lparr>frame := b\<rparr>)"
proof -
  have "has_frame (array_of (frame s))" by (simp add: has_frame_def array_of_def)
  from put_string_line [OF assms(1,2) this assms(3,4), of x c bg] obtain d' where
    "lcd_put_string t x y font c bg (array_of (frame s)) = Some d'" "has_frame d'"
    by (auto simp: lcd_put_string_def)
  then show ?thesis by (auto simp: lcd_put_string_user_def on_frame_def has_frame_def)
qed

lemma digit_printable: "list_all printable (dec n)"
proof -
  have "printable (char_of i)" if "i \<in> {48..<58 :: nat}" for i
    using that by (simp add: printable_def)
  with set_dec [of n] show ?thesis by (auto simp: list_all_iff)
qed

lemma show_int_text:
  assumes "0 \<le> i" "i < 10 ^ k" "0 < k"
  shows "list_all printable (show_int i)" "length (show_int i) \<le> k"
proof -
  have e: "show_int i = dec (nat i)" using assms(1) by (simp add: show_int_def)
  show "list_all printable (show_int i)" unfolding e by (rule digit_printable)
  have "nat i < 10 ^ k" using assms(1,2) by (metis nat_less_iff of_nat_numeral of_nat_power)
  then show "length (show_int i) \<le> k" unfolding e by (rule length_dec) (rule assms(3))
qed

section \<open>The loop never faults\<close>

definition buttons_ok :: "int \<Rightarrow> callback button_descriptor list \<Rightarrow> bool" where
  "buttons_ok n bs \<longleftrightarrow> (\<forall>b \<in> set bs. 0 \<le> press_count b \<and> press_count b \<le> n) \<and> distinct (map pin_id bs)"

definition counter_ok :: "int \<Rightarrow> string \<Rightarrow> app \<Rightarrow> bool" where
  "counter_ok n t s \<longleftrightarrow> 0 \<le> counter_value s \<and> counter_value s \<le> n \<and> (is_initialized s \<longrightarrow> local_ip s = t)"

lemma callback_ok:
  assumes "counter_ok n t s" "n < 2147483647"
  shows "\<exists>s'. run_callback c s = Some s' \<and> counter_ok (n + 1) t s'"
  using assms
  by (cases c)
    (auto simp: counter_ok_def push_counter_up_def push_counter_down_def reset_counter_def exit_app_def
      update_counter_rect_def call_def Let_def c_add_def c_sub_def c_int_def in_int_def)

lemma call_handler_ok:
  assumes "counter_ok n t s" "n < 2147483647"
  shows "\<exists>s'. call_handler run_callback h s = Some s' \<and> counter_ok (n + 1) t s'"
proof (cases h)
  case None
  then show ?thesis using assms(1) by (auto simp: call_handler_def counter_ok_def)
next
  case (Some c)
  then show ?thesis using callback_ok [OF assms] by (simp add: call_handler_def)
qed

lemma event_ok:
  assumes "counter_ok n t s" "n < 2147483647" "0 \<le> press_count b" "press_count b \<le> n"
  shows "\<exists>b' s'. button_event run_callback e b s = Some (b', s') \<and> counter_ok (n + 1) t s' \<and>
    0 \<le> press_count b' \<and> press_count b' \<le> n + 1 \<and> pin_id b' = pin_id b"
proof -
  have up: "counter_ok (n + 1) t s" using assms(1) by (auto simp: counter_ok_def)
  have "c_add (press_count b) 1 = Some (press_count b + 1)" using assms(2-4) by (simp add: c_simps in_int_def)
  then show ?thesis
    using call_handler_ok [OF assms(1,2), of "short_click_handler b"] call_handler_ok [OF assms(1,2), of "long_click_handler b"] up assms(2-4)
    by (auto simp: button_event_def Let_def)
qed

lemma process_pin_event_ok:
  assumes "counter_ok n t s" "n < 2147483647" "buttons_ok n bs"
  shows "\<exists>bs' s'. process_pin_event run_callback e pin bs s = Some (bs', s') \<and> counter_ok (n + 1) t s' \<and> buttons_ok (n + 1) bs'"
proof (cases "pin \<in> set (map pin_id bs)")
  case True
  then obtain xs b ys where bs: "bs = xs @ b # ys" "pin_id b = pin" by (auto dest: split_list)
  then have other: "\<forall>x \<in> set (xs @ ys). pin_id x \<noteq> pin" using assms(3) by (auto simp: buttons_ok_def image_iff)
  obtain b' s' where b': "button_event run_callback e b s = Some (b', s')" "counter_ok (n + 1) t s'"
    "0 \<le> press_count b'" "press_count b' \<le> n + 1" "pin_id b' = pin_id b"
    using event_ok [OF assms(1,2), of b e] assms(3) bs(1) by (auto simp: buttons_ok_def)
  have "buttons_ok (n + 1) (xs @ b' # ys)" using assms(3) bs(1) b'(3-5) by (force simp: buttons_ok_def)
  with b'(1,2) process_one [OF other bs(2), of run_callback e s] bs(1) show ?thesis by auto
next
  case False
  then have "\<forall>b \<in> set bs. pin_id b \<noteq> pin" by auto
  with process_other [OF this, of run_callback e s] assms(1,3) show ?thesis
    by (force simp: buttons_ok_def counter_ok_def)
qed

lemma poll_ok:
  assumes "counter_ok n t s" "n < 2147483647" "buttons_ok n bs"
  shows "\<exists>bs' s'. poll_button os run_callback pin (bs, s) = Some (bs', s') \<and> counter_ok (n + 1) t s' \<and> buttons_ok (n + 1) bs'"
proof -
  obtain v s1 where g: "gpio_get_value os (of_int pin) s = (v, s1)" by (cases "gpio_get_value os (of_int pin) s")
  then have "counter_ok n t s1" using assms(1)
    by (auto simp: gpio_get_value_def open_file_def call_def counter_ok_def Let_def split: if_splits)
  from process_pin_event_ok [OF this assms(2,3)] show ?thesis by (simp add: poll_button_def g)
qed

lemma process_buttons_ok:
  assumes "counter_ok n t s" "n < 2147483645" "buttons_ok n (buttons s)"
  shows "\<exists>s'. process_buttons os s = Some s' \<and> counter_ok (n + 3) t s' \<and> buttons_ok (n + 3) (buttons s')"
proof -
  obtain bs1 s1 where 1: "poll_button os run_callback COUNTER_UP_PIN (buttons s, s) = Some (bs1, s1)"
    "counter_ok (n + 1) t s1" "buttons_ok (n + 1) bs1"
    using poll_ok [OF assms(1) _ assms(3)] assms(2) by fastforce
  obtain bs2 s2 where 2: "poll_button os run_callback COUNTER_DOWN_PIN (bs1, s1) = Some (bs2, s2)"
    "counter_ok (n + 1 + 1) t s2" "buttons_ok (n + 1 + 1) bs2"
    using poll_ok [OF 1(2) _ 1(3)] assms(2) by fastforce
  obtain bs3 s3 where 3: "poll_button os run_callback CONTROL_BUTTON_PIN (bs2, s2) = Some (bs3, s3)"
    "counter_ok (n + 1 + 1 + 1) t s3" "buttons_ok (n + 1 + 1 + 1) bs3"
    using poll_ok [OF 2(2) _ 2(3)] assms(2) by fastforce
  have e: "n + 1 + 1 + 1 = n + 3" by simp
  from 1(1) 2(1) 3(1) 3(2,3) [unfolded e] show ?thesis by (simp add: process_buttons_def process_buttons_module_def counter_ok_def)
qed

lemma draw_counter_ok:
  assumes "counter_ok n t s" "n < 100000000"
  shows "\<exists>s'. draw_counter_value os s = Some s' \<and> counter_ok n t s' \<and> buttons s' = buttons s \<and> running_app s' = running_app s"
proof -
  let ?t = "show_int (counter_value s)"
  have t: "list_all printable ?t" "length ?t \<le> 8"
    using show_int_text [of "counter_value s" 8] assms by (simp_all add: counter_ok_def)
  have "\<exists>b. lcd_put_string_user ?t (of_nat (LCD_WIDTH div 2 - unat (width Font_16x26) div 2))
      (of_nat (LCD_HEIGHT div 2 - unat (height Font_16x26) div 2)) Font_16x26 COLOR_RED COLOR_BLACK s = Some (s\<lparr>frame := b\<rparr>)"
    by (rule text_fits [OF font_ok_16x26 t(1)]) (use t(2) in \<open>simp_all add: LCD_WIDTH_def LCD_HEIGHT_def\<close>)
  then obtain b where b: "lcd_put_string_user ?t (of_nat (LCD_WIDTH div 2 - unat (width Font_16x26) div 2))
      (of_nat (LCD_HEIGHT div 2 - unat (height Font_16x26) div 2)) Font_16x26 COLOR_RED COLOR_BLACK s = Some (s\<lparr>frame := b\<rparr>)" ..
  have k: "take (CONVERSION_BUFFER_SIZE - 1) ?t = ?t" using t(2) by (simp add: CONVERSION_BUFFER_SIZE_def)
  obtain cs where "lcd_update_screen_user os (s\<lparr>frame := b\<rparr>) = s\<lparr>frame := b, calls := cs\<rparr>"
    using update_screen_calls [of os "s\<lparr>frame := b\<rparr>"] by auto
  with b assms(1) show ?thesis by (simp add: draw_counter_value_def Let_def k [simplified] counter_ok_def)
qed

definition time_ok :: "int \<times> int \<times> int \<Rightarrow> bool" where
  "time_ok = (\<lambda>(h, m, s). 0 \<le> h \<and> h < 24 \<and> 0 \<le> m \<and> m < 60 \<and> 0 \<le> s \<and> s \<le> 60)"

lemma draw_time_ok:
  assumes "time_ok now" "counter_ok n t s"
  shows "\<exists>s'. draw_current_time os now s = Some s' \<and> counter_ok n t s' \<and> buttons s' = buttons s \<and> running_app s' = running_app s"
proof -
  obtain h m sec where now: "now = (h, m, sec)" by (cases now)
  let ?t = "show_int h @ '':'' @ show_int m @ '':'' @ show_int sec"
  have two: "list_all printable (show_int i)" "length (show_int i) \<le> 2" if "0 \<le> i" "i < 100" for i
    using show_int_text [of i 2] that by simp_all
  have r: "0 \<le> h" "h < 100" "0 \<le> m" "m < 100" "0 \<le> sec" "sec < 100" using assms(1) now by (auto simp: time_ok_def)
  have "printable CHR '':''" by (simp add: printable_def)
  then have t: "list_all printable ?t" using two(1) r by simp
  have l: "length ?t \<le> 8" using two(2) [OF r(1,2)] two(2) [OF r(3,4)] two(2) [OF r(5,6)] by simp
  have "\<exists>b. lcd_put_string_user ?t (of_nat (LCD_WIDTH div 4)) 40 Font_11x18 COLOR_RED COLOR_BLACK s = Some (s\<lparr>frame := b\<rparr>)"
    by (rule text_fits [OF font_ok_11x18 t]) (use l in \<open>simp_all add: LCD_WIDTH_def LCD_HEIGHT_def\<close>)
  then obtain b where b: "lcd_put_string_user ?t (of_nat (LCD_WIDTH div 4)) 40 Font_11x18 COLOR_RED COLOR_BLACK s = Some (s\<lparr>frame := b\<rparr>)" ..
  have k: "take (CONVERSION_BUFFER_SIZE - 1) ?t = ?t" using l by (simp add: CONVERSION_BUFFER_SIZE_def)
  obtain cs where "lcd_update_screen_user os (s\<lparr>frame := b\<rparr>) = s\<lparr>frame := b, calls := cs\<rparr>"
    using update_screen_calls [of os "s\<lparr>frame := b\<rparr>"] by auto
  with b assms(2) show ?thesis unfolding now draw_current_time_def prod.case Let_def k by (simp add: counter_ok_def)
qed

text \<open>A first line that the display can show: printable, and at most 16 characters.\<close>

definition host_ok :: "string \<Rightarrow> bool" where
  "host_ok t \<longleftrightarrow> t \<noteq> [] \<and> list_all printable (first_line t) \<and> length (first_line t) \<le> 16"

lemma printable_not_NUL: "list_all printable t \<Longrightarrow> takeWhile (\<lambda>c. c \<noteq> NUL) t = t"
proof -
  have "\<not> printable NUL" by (simp add: printable_def NUL_def)
  then show "list_all printable t \<Longrightarrow> ?thesis" by (auto simp: takeWhile_eq_all_conv list_all_iff)
qed

lemma draw_ip_ok:
  assumes "host_ok t" "counter_ok n (first_line t) s"
  shows "\<exists>s'. draw_ip_address (Some t) s = Some s' \<and> counter_ok n (first_line t) s' \<and> buttons s' = buttons s \<and> running_app s' = running_app s"
proof -
  let ?s = "if is_initialized s then s else s\<lparr>local_ip := first_line t, is_initialized := True\<rparr>"
  have h: "list_all printable (first_line t)" "length (first_line t) \<le> 16" "t \<noteq> []" using assms(1) by (simp_all add: host_ok_def)
  have k: "take (IP_BUFFER_LENGTH - 1) (first_line t) = first_line t" using h(2) by (simp add: IP_BUFFER_LENGTH_def)
  have ip: "local_ip ?s = first_line t" using assms(2) by (simp add: counter_ok_def)
  have "\<exists>b. lcd_put_string_user (first_line t) (of_nat (LCD_WIDTH div 4)) (of_nat (LCD_HEIGHT - 60)) Font_11x18 COLOR_RED COLOR_BLACK ?s = Some (?s\<lparr>frame := b\<rparr>)"
    by (rule text_fits [OF font_ok_11x18 h(1)]) (use h(2) in \<open>simp_all add: LCD_WIDTH_def LCD_HEIGHT_def\<close>)
  moreover have "draw_ip_address (Some t) s = lcd_put_string_user (first_line t) (of_nat (LCD_WIDTH div 4)) (of_nat (LCD_HEIGHT - 60)) Font_11x18 COLOR_RED COLOR_BLACK ?s"
    using ip by (cases "is_initialized s") (simp_all add: draw_ip_address_def h(3) k [simplified] printable_not_NUL [OF h(1)])
  ultimately show ?thesis using assms(2) by (auto simp: counter_ok_def)
qed

lemma main_round_ok:
  assumes "host_ok t" "time_ok now" "counter_ok n (first_line t) s" "buttons_ok n (buttons s)" "n + 3 < 100000000"
  shows "\<exists>s'. main_round os (Some t) now s = Some s' \<and> counter_ok (n + 3) (first_line t) s' \<and> buttons_ok (n + 3) (buttons s')"
proof -
  obtain s1 where 1: "process_buttons os s = Some s1" "counter_ok (n + 3) (first_line t) s1" "buttons_ok (n + 3) (buttons s1)"
    using process_buttons_ok [OF assms(3) _ assms(4)] assms(5) by fastforce
  obtain s2 where 2: "draw_counter_value os s1 = Some s2" "counter_ok (n + 3) (first_line t) s2" "buttons s2 = buttons s1"
    using draw_counter_ok [OF 1(2) assms(5)] by blast
  obtain s3 where 3: "draw_current_time os now s2 = Some s3" "counter_ok (n + 3) (first_line t) s3" "buttons s3 = buttons s2"
    using draw_time_ok [OF assms(2) 2(2)] by blast
  from draw_ip_ok [OF assms(1) 3(2)] 1(1,3) 2(1,3) 3(1,3) show ?thesis by (auto simp: main_round_def)
qed

lemma main_loop_ok:
  assumes "host_ok t" "list_all time_ok nows" "counter_ok n (first_line t) s" "buttons_ok n (buttons s)"
    "n + 3 * int (length nows) < 100000000"
  shows "\<exists>s'. main_loop os (Some t) nows s = Some s' \<and> 0 \<le> counter_value s'"
  using assms(2-)
proof (induction nows arbitrary: s n)
  case (Cons now nows)
  have "n + 3 < 100000000" using Cons.prems(4) by simp
  from main_round_ok [OF assms(1) _ Cons.prems(2,3) this, of now os] Cons.prems(1) obtain s' where
    s': "main_round os (Some t) now s = Some s'" "counter_ok (n + 3) (first_line t) s'" "buttons_ok (n + 3) (buttons s')" by auto
  from Cons.IH [OF _ s'(2,3)] s'(1) Cons.prems(1,2,4) show ?case by (auto simp: counter_ok_def)
qed (auto simp: counter_ok_def)

text \<open>C11: The loop of the application never faults: whatever the operating system answers and
  the buttons do, for thirty million rounds, with a first line of the host file that the
  display can show, every drawing stays inside the framebuffer and no counter overflows or
  goes below zero.\<close>

theorem application_never_faults:
  assumes "host_ok t" "list_all time_ok nows" "length nows \<le> 30000000"
    "buttons s = app_buttons" "counter_value s = 0" "\<not> is_initialized s"
  shows "\<exists>s'. main_loop os (Some t) nows s = Some s' \<and> 0 \<le> counter_value s'"
proof (rule main_loop_ok [OF assms(1,2)])
  show "counter_ok 0 (first_line t) s" using assms(5,6) by (simp add: counter_ok_def)
  show "buttons_ok 0 (buttons s)" unfolding assms(4) by (simp add: buttons_ok_def app_buttons_def button_of_def)
  show "0 + 3 * int (length nows) < 100000000" using assms(3) by simp
qed

theorem application_never_faults_witness:
  "\<exists>s'. main_loop test_os (Some ''192.168.1.5'') [(9, 5, 0), (23, 59, 60)] (app_start\<lparr>buttons := app_buttons\<rparr>) = Some s' \<and>
    0 \<le> counter_value s'"
  by (rule application_never_faults) (simp_all add: host_ok_def time_ok_def printable_def app_start_def)

lemma put_string_frame: "lcd_put_string_user t x y font c bg s = Some s' \<Longrightarrow> \<exists>b. s' = s\<lparr>frame := b\<rparr>"
  unfolding lcd_put_string_user_def on_frame_def bind_eq_Some_conv
proof (elim exE conjE)
  fix d assume "(case frame_buffer d of Live b \<Rightarrow> Some (s\<lparr>frame := b\<rparr>) | _ \<Rightarrow> None) = Some s'"
  then show ?thesis by (cases "frame_buffer d") auto
qed

lemma uninit_callback: "run_callback c s = Some s' \<Longrightarrow> is_initialized s' = is_initialized s"
  by (cases c) (auto simp: push_counter_up_def push_counter_down_def reset_counter_def exit_app_def
      update_counter_rect_def call_def Let_def bind_eq_Some_conv split: if_splits)

lemma uninit_event: "button_event run_callback e b s = Some (b', s') \<Longrightarrow> is_initialized s' = is_initialized s"
  by (auto simp: button_event_def call_handler_def Let_def bind_eq_Some_conv split: if_splits option.splits dest: uninit_callback)

lemma uninit_pin: "process_pin_event run_callback e pin bs s = Some (bs', s') \<Longrightarrow> is_initialized s' = is_initialized s"
proof (induction bs arbitrary: bs' s)
  case (Cons b bs)
  then show ?case by (auto simp: bind_eq_Some_conv split: if_splits dest: uninit_event)
qed simp

lemma uninit_poll: "poll_button os run_callback pin (bs, s) = Some (bs', s') \<Longrightarrow> is_initialized s' = is_initialized s"
  by (auto simp: poll_button_def gpio_get_value_def open_file_def call_def Let_def split: if_splits dest!: uninit_pin)

lemma uninit_process: "process_buttons os s = Some s' \<Longrightarrow> is_initialized s' = is_initialized s"
  by (auto simp: process_buttons_def process_buttons_module_def bind_eq_Some_conv dest!: uninit_poll)

lemma uninit_update: "is_initialized (lcd_update_screen_user os s) = is_initialized s"
proof -
  obtain cs where "lcd_update_screen_user os s = s\<lparr>calls := cs\<rparr>" using update_screen_calls by blast
  then show ?thesis by simp
qed

lemma uninit_counter: "draw_counter_value os s = Some s' \<Longrightarrow> is_initialized s' = is_initialized s"
  by (auto simp: draw_counter_value_def Let_def bind_eq_Some_conv uninit_update split: if_splits dest!: put_string_frame)

lemma uninit_time: "draw_current_time os now s = Some s' \<Longrightarrow> is_initialized s' = is_initialized s"
  by (cases now) (auto simp: draw_current_time_def Let_def bind_eq_Some_conv uninit_update dest!: put_string_frame)

lemma first_line_newline: "list_all printable t \<Longrightarrow> first_line (t @ CHR ''\<newline>'' # u) = t @ ''\<newline>''"
proof -
  have "\<not> printable CHR ''\<newline>''" by (simp add: printable_def)
  then show "list_all printable t \<Longrightarrow> ?thesis" by (induction t) auto
qed

lemma draw_newline:
  assumes "list_all printable t" "length t \<le> 15" "\<not> is_initialized s"
  shows "draw_ip_address (Some (t @ ''\<newline>'')) s = None"
proof -
  let ?x = "of_nat (LCD_WIDTH div 4) :: 16 word" and ?y = "of_nat (LCD_HEIGHT - 60) :: 16 word"
  let ?s = "s\<lparr>local_ip := t @ ''\<newline>'', is_initialized := True\<rparr>"
  have f: "has_frame (array_of (frame s))" by (simp add: has_frame_def array_of_def)
  have xy: "unat ?x + length t * 11 \<le> LCD_WIDTH" "unat ?y + 18 \<le> LCD_HEIGHT"
    using assms(2) by (simp_all add: LCD_WIDTH_def LCD_HEIGHT_def)
  obtain d1 where d1: "put_string_from Font_11x18 ?x COLOR_RED COLOR_BLACK t ?x ?y (array_of (frame s)) = Some d1"
    using put_string_line [OF font_ok_11x18 assms(1) f, of ?x ?y ?x COLOR_RED COLOR_BLACK] xy by auto
  have np: "\<not> printable CHR ''\<newline>''" by (simp add: printable_def)
  have nf: "lcd_put_char x y CHR ''\<newline>'' Font_11x18 c bg d = None" for x y c bg d
    by (rule lcd_put_char_unprintable [OF font_ok_11x18 np]) simp
  have m: "\<forall>m < length t. unat ?x + Suc m * unat (width Font_11x18) \<le> LCD_WIDTH"
    using assms(2) by (auto simp: LCD_WIDTH_def)
  have lx: "unat (?x + of_nat (length t * 11)) = unat ?x + length t * 11"
    using xy(1) by (intro uint_add_le) (simp add: LCD_WIDTH_def)
  have ns: "\<not> uint ?y + uint (height Font_11x18) > int LCD_HEIGHT"
    by (simp add: LCD_HEIGHT_def Font_11x18_def)
  have "put_string_from Font_11x18 ?x COLOR_RED COLOR_BLACK (t @ ''\<newline>'') ?x ?y (array_of (frame s)) = None"
    using put_string_append [OF m, of ?y ?x COLOR_RED COLOR_BLACK "''\<newline>''" "array_of (frame s)"] xy(2) d1 ns nf
    by (simp add: Let_def)
  then have "lcd_put_string_user (t @ ''\<newline>'') ?x ?y Font_11x18 COLOR_RED COLOR_BLACK ?s = None"
    by (simp add: lcd_put_string_user_def on_frame_def lcd_put_string_def)
  moreover have "takeWhile (\<lambda>c. c \<noteq> NUL) (t @ ''\<newline>'') = t @ ''\<newline>''"
    using printable_not_NUL [OF assms(1)] by (simp add: takeWhile_append NUL_def)
  moreover have "take (IP_BUFFER_LENGTH - 1) (first_line (t @ ''\<newline>'')) = t @ ''\<newline>''"
    using first_line_newline [OF assms(1), of "[]"] assms(2) by (simp add: IP_BUFFER_LENGTH_def)
  ultimately show ?thesis using assms(3) by (simp add: draw_ip_address_def)
qed

text \<open>The host file as the build makes it, with \<^verbatim>\<open>hostname -I > host.txt\<close>, ends its line with a
  newline. The newline is handed to the display like any character, and drawing it reads in
  front of the font: the first round of the loop faults.\<close>

theorem host_newline_faults:
  assumes "list_all printable t" "length t \<le> 15" "\<not> is_initialized s"
  shows "main_round os (Some (t @ ''\<newline>'')) now s = None"
proof (rule ccontr)
  assume "main_round os (Some (t @ ''\<newline>'')) now s \<noteq> None"
  then obtain s1 s2 s3 where "process_buttons os s = Some s1" "draw_counter_value os s1 = Some s2"
    "draw_current_time os now s2 = Some s3" "draw_ip_address (Some (t @ ''\<newline>'')) s3 \<noteq> None"
    by (auto simp: main_round_def bind_eq_Some_conv)
  with draw_newline [OF assms(1,2), of s3] assms(3) show False
    using uninit_process uninit_counter uninit_time by blast
qed

theorem host_newline_faults_witness: "main_round test_os (Some (''192.168.1.5 '' @ ''\<newline>'')) (9, 5, 0) app_start = None"
  by (rule host_newline_faults) (simp_all add: printable_def app_start_def)

end
