(* ===== verification/Game.thy ===== *)
theory Game
  imports IntrusiveList
begin

text \<open>
  The dice game of \<^verbatim>\<open>exercise4/game/game_core.c\<close>: players on a global intrusive list, each
  with a list of the dice thrown, both \<open>malloc\<close>ed. An object that is freed is outside its
  map, so a use after free and a double free are \<open>None\<close>, and so is the use of the NULL
  pointer of an allocation that failed, which the code does not test.
\<close>

section \<open>Data\<close>

datatype gnode = PlayersList | PlayerItem nat | PlayerDice nat | DiceNode nat

text \<open>
  \<open>players\<close> and \<open>dices\<close> hold the fields \<open>id\<close> and \<open>throw_result\<close> of the live objects.
  \<open>gbrk\<close> names the next block, \<open>goom\<close> says which of the coming allocations fail, \<open>rolls\<close>
  counts the calls of \<open>rand\<close>, and \<open>out\<close> is what was printed.
\<close>

record gstate =
  gnodes :: "gnode lheap"
  players :: "nat \<rightharpoonup> int"
  dices :: "nat \<rightharpoonup> int"
  gbrk :: nat
  goom :: "bool list"
  rolls :: nat
  out :: "string list"

definition game_start :: gstate where
  "game_start = \<lparr>gnodes = [PlayersList \<mapsto> \<lparr>next_ptr = Ptr PlayersList, prev_ptr = Ptr PlayersList\<rparr>],
     players = Map.empty, dices = Map.empty, gbrk = 0, goom = [], rolls = 0, out = []\<rparr>"

definition gmalloc :: "gstate \<Rightarrow> (nat \<times> gstate) option" where
  "gmalloc s = (case goom s of
     True # bs \<Rightarrow> None
   | bs \<Rightarrow> Some (gbrk s, s\<lparr>gbrk := Suc (gbrk s), goom := tl bs\<rparr>))"

definition fresh_node :: "gnode list_head" where
  "fresh_node = \<lparr>next_ptr = NULL, prev_ptr = NULL\<rparr>"

definition on_gnodes :: "(gnode lheap \<Rightarrow> gnode lheap option) \<Rightarrow> gstate \<Rightarrow> gstate option" where
  "on_gnodes f s = do { h \<leftarrow> f (gnodes s); Some (s\<lparr>gnodes := h\<rparr>) }"

definition print :: "string \<Rightarrow> gstate \<Rightarrow> gstate" where
  "print t s = s\<lparr>out := out s @ [t]\<rparr>"

fun player_of_item :: "gnode ptr \<Rightarrow> nat option" where
  "player_of_item (Ptr (PlayerItem p)) = Some p"
| "player_of_item _ = None"

fun dice_of_list :: "gnode ptr \<Rightarrow> nat option" where
  "dice_of_list (Ptr (DiceNode d)) = Some d"
| "dice_of_list _ = None"

abbreviation gnext :: "gstate \<Rightarrow> gnode ptr \<Rightarrow> gnode ptr option" where
  "gnext s \<equiv> rd_next (gnodes s)"

section \<open>Players\<close>

definition append_player_to_game :: "int \<Rightarrow> gstate \<Rightarrow> gstate option" where
  "append_player_to_game player_id s = do {
     (p, s) \<leftarrow> gmalloc s;
     let s = s\<lparr>gnodes := (gnodes s)(PlayerItem p \<mapsto> fresh_node, PlayerDice p \<mapsto> fresh_node)\<rparr>;
     let s = s\<lparr>players := (players s)(p \<mapsto> player_id)\<rparr>;
     s \<leftarrow> on_gnodes (\<lambda>h. INIT_LIST_HEAD h (Ptr (PlayerItem p))) s;
     s \<leftarrow> on_gnodes (\<lambda>h. INIT_LIST_HEAD h (Ptr (PlayerDice p))) s;
     on_gnodes (\<lambda>h. list_add_tail h (Ptr (PlayerItem p)) (Ptr PlayersList)) s }"

definition dice_dtor :: "nat \<Rightarrow> gstate \<Rightarrow> gstate option" where
  "dice_dtor d s = (if dices s d = None then None
     else Some (s\<lparr>dices := (dices s)(d := None), gnodes := (gnodes s)(DiceNode d := None)\<rparr>))"

definition free_player :: "nat \<Rightarrow> gstate \<Rightarrow> gstate option" where
  "free_player p s = (if players s p = None then None
     else Some (s\<lparr>players := (players s)(p := None), gnodes := (gnodes s)(PlayerItem p := None, PlayerDice p := None)\<rparr>))"

definition player_dtor :: "nat \<Rightarrow> gstate \<Rightarrow> gstate option" where
  "player_dtor p s = do {
     (b, pos, s) \<leftarrow> list_for_each_safe gnext
       (\<lambda>pos s. do {
          dice_it \<leftarrow> dice_of_list pos;
          s \<leftarrow> on_gnodes (\<lambda>h. list_del h pos) s;
          s \<leftarrow> dice_dtor dice_it s;
          Some (Next s) })
       (Ptr (PlayerDice p)) s;
     free_player p s }"

definition player_add_new_dice :: "nat \<Rightarrow> int \<Rightarrow> gstate \<Rightarrow> gstate option" where
  "player_add_new_dice p dice_result s = do {
     (d, s) \<leftarrow> gmalloc s;
     let s = s\<lparr>gnodes := (gnodes s)(DiceNode d \<mapsto> fresh_node)\<rparr>;
     s \<leftarrow> on_gnodes (\<lambda>h. INIT_LIST_HEAD h (Ptr (DiceNode d))) s;
     let s = s\<lparr>dices := (dices s)(d \<mapsto> dice_result)\<rparr>;
     on_gnodes (\<lambda>h. list_add_tail h (Ptr (DiceNode d)) (Ptr (PlayerDice p))) s }"

definition player_get_dice_sum :: "nat \<Rightarrow> gstate \<Rightarrow> int option" where
  "player_get_dice_sum p s = do {
     (b, pos, result_value) \<leftarrow> list_for_each (\<lambda>_. gnext s)
       (\<lambda>pos result_value. do {
          d \<leftarrow> dice_of_list pos;
          t \<leftarrow> dices s d;
          r \<leftarrow> c_add result_value t;
          Some (Next r) })
       (Ptr (PlayerDice p)) 0;
     Some result_value }"

definition print_player_history :: "nat \<Rightarrow> gstate \<Rightarrow> gstate option" where
  "print_player_history p s = do {
     i \<leftarrow> players s p;
     let s = print (''History of player with ID: '' @ show_int i @ '' \<newline>'') s;
     (b, pos, s) \<leftarrow> list_for_each gnext
       (\<lambda>pos s. do {
          d \<leftarrow> dice_of_list pos;
          t \<leftarrow> dices s d;
          Some (Next (print (''['' @ show_int t @ '']'') s)) })
       (Ptr (PlayerDice p)) s;
     Some (print ''\<newline> END HISTORY \<newline>'' s) }"

section \<open>The list of players\<close>

definition for_each_player :: "(nat \<Rightarrow> gstate \<Rightarrow> gstate option) \<Rightarrow> gstate \<Rightarrow> gstate option" where
  "for_each_player f s = do {
     (b, pos, s) \<leftarrow> list_for_each gnext
       (\<lambda>pos s. do {
          p \<leftarrow> player_of_item pos;
          s \<leftarrow> f p s;
          Some (Next s) })
       (Ptr PlayersList) s;
     Some s }"

definition print_players :: "gstate \<Rightarrow> gstate option" where
  "print_players = for_each_player (\<lambda>p s. do {
     i \<leftarrow> players s p;
     Some (print (show_int i @ '' \<newline>'') s) })"

definition print_scoretable :: "gstate \<Rightarrow> gstate option" where
  "print_scoretable = for_each_player (\<lambda>p s. do {
     player_result \<leftarrow> player_get_dice_sum p s;
     i \<leftarrow> players s p;
     Some (print (''Player ID: '' @ show_int i @ '', result:'' @ show_int player_result @ '' \<newline>'') s) })"

definition print_players_history :: "gstate \<Rightarrow> gstate option" where
  "print_players_history = for_each_player print_player_history"

definition cleanup_players :: "gstate \<Rightarrow> gstate option" where
  "cleanup_players s = do {
     (b, pos, s) \<leftarrow> list_for_each_safe gnext
       (\<lambda>pos s. do {
          player_it \<leftarrow> player_of_item pos;
          s \<leftarrow> on_gnodes (\<lambda>h. list_del h pos) s;
          s \<leftarrow> player_dtor player_it s;
          Some (Next s) })
       (Ptr PlayersList) s;
     Some s }"

definition append_players :: "int \<Rightarrow> gstate \<Rightarrow> gstate option" where
  "append_players num_players = for_to (nat num_players) (\<lambda>i. append_player_to_game (int i + 1))"

section \<open>The game\<close>

text \<open>\<open>rnd n\<close> is what the call number \<open>n\<close> of \<open>rand\<close> returns, a number that is not negative.\<close>

definition get_random_engine_value :: "(nat \<Rightarrow> nat) \<Rightarrow> gstate \<Rightarrow> int \<times> gstate" where
  "get_random_engine_value rnd s = (1 + int (rnd (rolls s)) mod 6, s\<lparr>rolls := Suc (rolls s)\<rparr>)"

definition play_game_iteration :: "(nat \<Rightarrow> nat) \<Rightarrow> int \<Rightarrow> gstate \<Rightarrow> gstate option" where
  "play_game_iteration rnd num_dices = for_each_player (\<lambda>p.
     for_to (nat num_dices) (\<lambda>i s.
       (let (v, s) = get_random_engine_value rnd s in player_add_new_dice p v s)))"

definition end_game :: "gstate \<Rightarrow> gstate option" where
  "end_game s = do {
     s \<leftarrow> print_scoretable s;
     s \<leftarrow> print_players_history s;
     cleanup_players s }"

definition play_game_iterations :: "(nat \<Rightarrow> nat) \<Rightarrow> int \<Rightarrow> int \<Rightarrow> gstate \<Rightarrow> gstate option" where
  "play_game_iterations rnd num_game_iterations num_dices s = do {
     let s = print (''game setup: iterations:'' @ show_int num_game_iterations @ '', num_dices: '' @ show_int num_dices @ ''\<newline>'') s;
     s \<leftarrow> for_to (nat num_game_iterations) (\<lambda>i. play_game_iteration rnd num_dices) s;
     end_game s }"

text \<open>\<^verbatim>\<open>main\<close> of \<^verbatim>\<open>exercise4/main.c\<close> after the options are read.\<close>

definition game_main :: "(nat \<Rightarrow> nat) \<Rightarrow> int \<Rightarrow> int \<Rightarrow> int \<Rightarrow> gstate \<Rightarrow> gstate option" where
  "game_main rnd num_players num_dices num_game_iterations s = do {
     s \<leftarrow> append_players num_players s;
     play_game_iterations rnd num_game_iterations num_dices s }"

section \<open>The program\<close>

text \<open>
  \<open>getopt\<close> with the options \<open>n:p:v:\<close> over the arguments behind the program's name: each option with its argument, the rest of the
  word or the next word; other words are passed over. \<open>?\<close> comes with the character at fault, and the
  program then ends, so nothing is said about what follows.
\<close>

fun getopt :: "string list \<Rightarrow> (char \<times> string) list" where
  "getopt [] = []"
| "getopt ((CHR ''-'' # c # rest) # args) =
     (if c = CHR ''-'' \<and> rest = [] then []
      else if c \<in> set ''npv'' then
        (if rest \<noteq> [] then (c, rest) # getopt args
         else case args of [] \<Rightarrow> [(CHR ''?'', [c])] | arg # args \<Rightarrow> (c, arg) # getopt args)
      else [(CHR ''?'', [c])])"
| "getopt (_ # args) = getopt args"

text \<open>\<open>atoi\<close>: white space, a sign, digits; a value that does not fit is undefined.\<close>

definition digits_value :: "string \<Rightarrow> int" where
  "digits_value t = foldl (\<lambda>v c. 10 * v + (char_int c - 48)) 0 (takeWhile (\<lambda>c. 48 \<le> char_int c \<and> char_int c \<le> 57) t)"

definition atoi :: "string \<Rightarrow> int option" where
  "atoi t = c_int (case dropWhile (\<lambda>c. c = CHR '' '' \<or> 9 \<le> char_int c \<and> char_int c \<le> 13) t of
     [] \<Rightarrow> 0
   | c # cs \<Rightarrow> if c = CHR ''-'' then - digits_value cs else if c = CHR ''+'' then digits_value cs else digits_value (c # cs))"

text \<open>The loop over the options: the text for \<open>stderr\<close>, or the players, dice and iterations.\<close>

fun read_options :: "(char \<times> string) list \<Rightarrow> int \<times> int \<times> int \<Rightarrow> (string + int \<times> int \<times> int) option" where
  "read_options [] ns = Some (Inr ns)"
| "read_options ((c, optarg) # opts) (num_players, num_dices, num_game_iterations) =
     (if c = CHR ''n'' then do { v \<leftarrow> atoi optarg; read_options opts (num_players, v, num_game_iterations) }
      else if c = CHR ''p'' then do { v \<leftarrow> atoi optarg; read_options opts (v, num_dices, num_game_iterations) }
      else if c = CHR ''v'' then do { v \<leftarrow> atoi optarg; read_options opts (num_players, num_dices, v) }
      else Some (Inl (
        if optarg = ''n'' then ''opion n specifies num of dices \<newline>''
        else if optarg = ''p'' then ''option p requires a number of players \<newline>''
        else ''Unknown option character `'' @ [CHR 0x5C] @ ''x'' @ concat (map (\<lambda>c. rev (hex_rev 97 (nat (char_int c mod 2 ^ 32)))) optarg) @ [CHR 0x27] @ ''.\<newline>'')))"

text \<open>The result, the text the program itself writes to \<open>stderr\<close>, and the state; \<open>args\<close> are the arguments without the program's name.\<close>

definition game_program :: "(nat \<Rightarrow> nat) \<Rightarrow> string list \<Rightarrow> gstate \<Rightarrow> (int \<times> string \<times> gstate) option" where
  "game_program rnd args s =
     (if length args + 1 < 5 then
        Some (- 1, [], print ''Invalid argument count!\<newline> Use -n for the number of cubes and -p for defining the number of players'' s)
      else do {
        r \<leftarrow> read_options (getopt args) (0, 0, 0);
        (case r of
           Inl err \<Rightarrow> Some (1, err, s)
         | Inr (num_players, num_dices, num_game_iterations) \<Rightarrow>
             do { s \<leftarrow> game_main rnd num_players num_dices num_game_iterations s; Some (0, [], s) }) })"

end
