(* ===== verification/GameSpec.thy ===== *)
theory GameSpec
  imports Game
begin

text \<open>
  What the operations of the dice game do to the game: a list of players, each with the dice
  thrown so far. The heap stands for the game when every list of the code holds exactly the
  nodes of the list of the game and every block belongs to it.
\<close>

section \<open>The abstract game\<close>

type_synonym throws = "(nat \<times> int) list"
type_synonym game = "(nat \<times> int \<times> throws) list"

definition player_ids :: "game \<Rightarrow> nat list" where
  "player_ids g = map fst g"

definition all_throws :: "game \<Rightarrow> throws" where
  "all_throws g = concat (map (snd \<circ> snd) g)"

definition dice_ids :: "game \<Rightarrow> nat list" where
  "dice_ids g = map fst (all_throws g)"

definition game_ok :: "nat \<Rightarrow> game \<Rightarrow> bool" where
  "game_ok n g \<longleftrightarrow> distinct (player_ids g) \<and> distinct (dice_ids g) \<and> (\<forall>p \<in> set (player_ids g). p < n) \<and> (\<forall>d \<in> set (dice_ids g). d < n)"

definition node_set :: "nat set \<Rightarrow> nat set \<Rightarrow> gnode set" where
  "node_set P D = {PlayersList} \<union> PlayerItem ` P \<union> PlayerDice ` P \<union> DiceNode ` D"

text \<open>\<open>L\<close> are the players on the global list.\<close>

definition heap_of :: "gnode lheap \<Rightarrow> nat list \<Rightarrow> game \<Rightarrow> bool" where
  "heap_of h L g \<longleftrightarrow> dlist h PlayersList (map PlayerItem L) \<and>
    (\<forall>(p, i, ds) \<in> set g. dlist h (PlayerDice p) (map DiceNode (map fst ds))) \<and>
    dom h = node_set (set (player_ids g)) (set (dice_ids g))"

definition game_models :: "gstate \<Rightarrow> nat list \<Rightarrow> game \<Rightarrow> bool" where
  "game_models s L g \<longleftrightarrow> heap_of (gnodes s) L g \<and> players s = map_of (map (\<lambda>(p, i, ds). (p, i)) g) \<and>
    dices s = map_of (all_throws g) \<and> game_ok (gbrk s) g"

lemma game_lists [simp]:
  "player_ids [] = []" "player_ids ((p, i, ds) # g) = p # player_ids g" "player_ids (g @ g') = player_ids g @ player_ids g'"
  "all_throws [] = []" "all_throws ((p, i, ds) # g) = ds @ all_throws g" "all_throws (g @ g') = all_throws g @ all_throws g'"
  "dice_ids [] = []" "dice_ids ((p, i, ds) # g) = map fst ds @ dice_ids g" "dice_ids (g @ g') = dice_ids g @ dice_ids g'"
  by (simp_all add: player_ids_def all_throws_def dice_ids_def)

lemma player_of_game: "(p, i, ds) \<in> set g \<Longrightarrow> p \<in> set (player_ids g)"
  by (force simp: player_ids_def)

lemma dice_of_game: "(p, i, ds) \<in> set g \<Longrightarrow> d \<in> fst ` set ds \<Longrightarrow> d \<in> set (dice_ids g)"
  by (force simp: dice_ids_def all_throws_def)

lemma map_of_insert_middle:
  assumes "d \<notin> fst ` set (xs @ ys)" "distinct (map fst (xs @ ys))"
  shows "map_of (xs @ (d, v) # ys) = (map_of (xs @ ys))(d \<mapsto> v)"
proof -
  have "map_of (xs @ (d, v) # ys) = map_of ((d, v) # xs @ ys)"
    using assms by (intro map_of_inject_set [THEN iffD2]) auto
  then show ?thesis by simp
qed

section \<open>Adding players and dice\<close>

lemma gmalloc_ok: "goom s = [] \<Longrightarrow> gmalloc s = Some (gbrk s, s\<lparr>gbrk := Suc (gbrk s)\<rparr>)"
  by (simp add: gmalloc_def)

lemma heap_add_player:
  assumes h: "heap_of h L g" and p: "p \<notin> set (player_ids g)" and L: "set L \<subseteq> set (player_ids g)"
  shows "\<exists>h1 h2 h3. INIT_LIST_HEAD (h(PlayerItem p \<mapsto> fresh_node, PlayerDice p \<mapsto> fresh_node)) (Ptr (PlayerItem p)) = Some h1 \<and>
    INIT_LIST_HEAD h1 (Ptr (PlayerDice p)) = Some h2 \<and>
    list_add_tail h2 (Ptr (PlayerItem p)) (Ptr PlayersList) = Some h3 \<and> heap_of h3 (L @ [p]) (g @ [(p, i, [])])"
proof -
  let ?h = "h(PlayerItem p \<mapsto> fresh_node, PlayerDice p \<mapsto> fresh_node)"
  have h0: "dlist h PlayersList (map PlayerItem L)" "\<forall>(q, j, ds) \<in> set g. dlist h (PlayerDice q) (map DiceNode (map fst ds))"
    using h by (simp_all add: heap_of_def)
  have pl: "dlist ?h PlayersList (map PlayerItem L)" using h0(1) p L by (intro dlist_upd) auto
  have dl: "dlist ?h (PlayerDice q) (map DiceNode (map fst ds))" if "(q, j, ds) \<in> set g" for q j ds
    using h0(2) p that player_of_game [OF that] by (intro dlist_upd) auto
  obtain h1 where h1: "init_node (PlayerItem p) ?h = Some h1" "dlist h1 (PlayerItem p) []" "dom h1 = dom ?h"
    "\<forall>K ys. PlayerItem p \<notin> set (K # ys) \<longrightarrow> dlist ?h K ys \<longrightarrow> dlist h1 K ys"
    using ll.init_law [of "PlayerItem p" ?h] by auto
  obtain h2 where h2: "init_node (PlayerDice p) h1 = Some h2" "dlist h2 (PlayerDice p) []" "dom h2 = dom h1"
    "\<forall>K ys. PlayerDice p \<notin> set (K # ys) \<longrightarrow> dlist h1 K ys \<longrightarrow> dlist h2 K ys"
    using ll.init_law [of "PlayerDice p" h1] h1(3) by auto
  have keep: "dlist h2 K ys" if "dlist ?h K ys" "PlayerItem p \<notin> set (K # ys)" "PlayerDice p \<notin> set (K # ys)" for K ys
    using h2(4) [rule_format, OF that(3) h1(4) [rule_format, OF that(2,1)]] .
  have pl2: "dlist h2 PlayersList (map PlayerItem L)" by (rule keep [OF pl]) (use p L in auto)
  have dl2: "dlist h2 (PlayerDice q) (map DiceNode (map fst ds))" if "(q, j, ds) \<in> set g" for q j ds
    by (rule keep [OF dl [OF that]]) (use p player_of_game [OF that] in auto)
  obtain h3 where h3: "push_node (PlayerItem p) PlayersList h2 = Some h3" "dlist h3 PlayersList (map PlayerItem L @ [PlayerItem p])"
    "dom h3 = dom h2"
    "\<forall>K ys. set (K # ys) \<inter> set (PlayerItem p # PlayersList # map PlayerItem L) = {} \<longrightarrow> dlist h2 K ys \<longrightarrow> dlist h3 K ys"
    using ll.push_law [OF pl2, of "PlayerItem p"] h2(3) h1(3) p L by auto
  have "dlist h3 (PlayerDice q) (map DiceNode (map fst ds))" if "(q, j, ds) \<in> set (g @ [(p, i, [])])" for q j ds
  proof (rule h3(4) [rule_format])
    show "set (PlayerDice q # map DiceNode (map fst ds)) \<inter> set (PlayerItem p # PlayersList # map PlayerItem L) = {}" by auto
    show "dlist h2 (PlayerDice q) (map DiceNode (map fst ds))" using that dl2 [of q j ds] h2(2) by auto
  qed
  then have "\<forall>(q, j, ds) \<in> set (g @ [(p, i, [])]). dlist h3 (PlayerDice q) (map DiceNode (map fst ds))" by blast
  moreover have "dom h3 = node_set (set (player_ids (g @ [(p, i, [])]))) (set (dice_ids (g @ [(p, i, [])])))"
    using h3(3) h2(3) h1(3) h by (auto simp: heap_of_def node_set_def)
  ultimately have "heap_of h3 (L @ [p]) (g @ [(p, i, [])])" using h3(2) by (simp only: heap_of_def map_append list.map simp_thms)
  with h1(1) h2(1) h3(1) show ?thesis by (auto simp: init_node_def push_node_def)
qed

lemma append_player_ok:
  assumes m: "game_models s L g" and o: "goom s = []" and L: "set L \<subseteq> set (player_ids g)"
  shows "\<exists>h. append_player_to_game i s = Some (s\<lparr>gbrk := Suc (gbrk s), players := (players s)(gbrk s \<mapsto> i), gnodes := h\<rparr>) \<and>
    game_models (s\<lparr>gbrk := Suc (gbrk s), players := (players s)(gbrk s \<mapsto> i), gnodes := h\<rparr>) (L @ [gbrk s]) (g @ [(gbrk s, i, [])])"
proof -
  let ?p = "gbrk s"
  have g: "game_ok ?p g" and hp: "heap_of (gnodes s) L g" using m by (simp_all add: game_models_def)
  then have p: "?p \<notin> set (player_ids g)" by (auto simp: game_ok_def)
  obtain h1 h2 h3 where h: "INIT_LIST_HEAD ((gnodes s)(PlayerItem ?p \<mapsto> fresh_node, PlayerDice ?p \<mapsto> fresh_node)) (Ptr (PlayerItem ?p)) = Some h1"
    "INIT_LIST_HEAD h1 (Ptr (PlayerDice ?p)) = Some h2" "list_add_tail h2 (Ptr (PlayerItem ?p)) (Ptr PlayersList) = Some h3"
    "heap_of h3 (L @ [?p]) (g @ [(?p, i, [])])"
    using heap_add_player [OF hp p L] by blast
  have "map_of (map (\<lambda>(p, i, ds). (p, i)) (g @ [(?p, i, [])])) = (map_of (map (\<lambda>(p, i, ds). (p, i)) g))(?p \<mapsto> i)"
    using map_of_insert_middle [of ?p "map (\<lambda>(p, i, ds). (p, i)) g" "[]" i] p g
    by (force simp: player_ids_def game_ok_def image_iff comp_def split_def)
  moreover have "game_ok (Suc ?p) (g @ [(?p, i, [])])" using g p by (auto simp: game_ok_def less_Suc_eq)
  ultimately show ?thesis
    using h m by (intro exI [of _ h3])
      (simp add: append_player_to_game_def gmalloc_ok [OF o] on_gnodes_def game_models_def)
qed

lemma heap_add_dice:
  assumes h: "heap_of h L (g1 @ (p, i, ds) # g2)" and d: "d \<notin> set (dice_ids (g1 @ (p, i, ds) # g2))"
    and dist: "distinct (player_ids (g1 @ (p, i, ds) # g2))" "distinct (dice_ids (g1 @ (p, i, ds) # g2))"
  shows "\<exists>h1 h2. INIT_LIST_HEAD (h(DiceNode d \<mapsto> fresh_node)) (Ptr (DiceNode d)) = Some h1 \<and>
    list_add_tail h1 (Ptr (DiceNode d)) (Ptr (PlayerDice p)) = Some h2 \<and> heap_of h2 L (g1 @ (p, i, ds @ [(d, v)]) # g2)"
proof -
  let ?h = "h(DiceNode d \<mapsto> fresh_node)" and ?g = "g1 @ (p, i, ds) # g2"
  have h0: "dlist h PlayersList (map PlayerItem L)" "\<forall>(q, j, es) \<in> set ?g. dlist h (PlayerDice q) (map DiceNode (map fst es))"
    using h by (simp_all add: heap_of_def)
  have pl: "dlist ?h PlayersList (map PlayerItem L)" using h0(1) by (intro dlist_upd) auto
  have dl: "dlist ?h (PlayerDice q) (map DiceNode (map fst es))" if "(q, j, es) \<in> set ?g" for q j es
  proof (rule dlist_upd)
    show "dlist h (PlayerDice q) (map DiceNode (map fst es))" using h0(2) that by blast
    show "DiceNode d \<notin> set (PlayerDice q # map DiceNode (map fst es))" using d dice_of_game [OF that] by auto
  qed
  obtain h1 where h1: "init_node (DiceNode d) ?h = Some h1" "dom h1 = dom ?h"
    "\<forall>K ys. DiceNode d \<notin> set (K # ys) \<longrightarrow> dlist ?h K ys \<longrightarrow> dlist h1 K ys"
    using ll.init_law [of "DiceNode d" ?h] by auto
  have pl1: "dlist h1 PlayersList (map PlayerItem L)" by (rule h1(3) [rule_format, OF _ pl]) auto
  have dl1: "dlist h1 (PlayerDice q) (map DiceNode (map fst es))" if "(q, j, es) \<in> set ?g" for q j es
    by (rule h1(3) [rule_format, OF _ dl [OF that]]) (use d dice_of_game [OF that] in auto)
  have mine: "dlist h1 (PlayerDice p) (map DiceNode (map fst ds))" by (rule dl1 [of p i ds]) simp
  obtain h2 where h2: "push_node (DiceNode d) (PlayerDice p) h1 = Some h2" "dlist h2 (PlayerDice p) (map DiceNode (map fst ds) @ [DiceNode d])"
    "dom h2 = dom h1"
    "\<forall>K ys. set (K # ys) \<inter> set (DiceNode d # PlayerDice p # map DiceNode (map fst ds)) = {} \<longrightarrow> dlist h1 K ys \<longrightarrow> dlist h2 K ys"
    using ll.push_law [OF mine, of "DiceNode d"] h1(2) d by auto
  have "dlist h2 PlayersList (map PlayerItem L)" by (rule h2(4) [rule_format, OF _ pl1]) auto
  moreover have "dlist h2 (PlayerDice q) (map DiceNode (map fst es))" if "(q, j, es) \<in> set (g1 @ g2)" for q j es
  proof (rule h2(4) [rule_format])
    have q: "(q, j, es) \<in> set ?g" using that by auto
    show "dlist h1 (PlayerDice q) (map DiceNode (map fst es))" by (rule dl1 [OF q])
    have "q \<noteq> p" using player_of_game [OF that] dist(1) by auto
    moreover have "d \<notin> fst ` set es" using d dice_of_game [OF q] by blast
    moreover have "fst ` set es \<subseteq> set (dice_ids (g1 @ g2))" using dice_of_game [OF that] by blast
    then have "fst ` set es \<inter> fst ` set ds = {}" using dist(2) by auto
    ultimately show "set (PlayerDice q # map DiceNode (map fst es)) \<inter> set (DiceNode d # PlayerDice p # map DiceNode (map fst ds)) = {}"
      by auto
  qed
  then have "\<forall>(q, j, es) \<in> set (g1 @ (p, i, ds @ [(d, v)]) # g2). dlist h2 (PlayerDice q) (map DiceNode (map fst es))"
    using h2(2) by auto
  moreover have "dom h2 = node_set (set (player_ids (g1 @ (p, i, ds @ [(d, v)]) # g2))) (set (dice_ids (g1 @ (p, i, ds @ [(d, v)]) # g2)))"
    using h2(3) h1(2) h by (auto simp: heap_of_def node_set_def)
  ultimately have "heap_of h2 L (g1 @ (p, i, ds @ [(d, v)]) # g2)" by (simp only: heap_of_def simp_thms)
  with h1(1) h2(1) show ?thesis by (auto simp: init_node_def push_node_def)
qed

lemma add_dice_ok:
  assumes m: "game_models s L (g1 @ (p, i, ds) # g2)" and o: "goom s = []"
  shows "\<exists>h. player_add_new_dice p v s = Some (s\<lparr>gbrk := Suc (gbrk s), dices := (dices s)(gbrk s \<mapsto> v), gnodes := h\<rparr>) \<and>
    game_models (s\<lparr>gbrk := Suc (gbrk s), dices := (dices s)(gbrk s \<mapsto> v), gnodes := h\<rparr>) L (g1 @ (p, i, ds @ [(gbrk s, v)]) # g2)"
proof -
  let ?d = "gbrk s" and ?g = "g1 @ (p, i, ds) # g2"
  have g: "game_ok ?d ?g" and hp: "heap_of (gnodes s) L ?g" using m by (simp_all add: game_models_def)
  then have d: "?d \<notin> set (dice_ids ?g)" and dist: "distinct (player_ids ?g)" "distinct (dice_ids ?g)"
    by (auto simp: game_ok_def)
  obtain h1 h2 where h: "INIT_LIST_HEAD ((gnodes s)(DiceNode ?d \<mapsto> fresh_node)) (Ptr (DiceNode ?d)) = Some h1"
    "list_add_tail h1 (Ptr (DiceNode ?d)) (Ptr (PlayerDice p)) = Some h2" "heap_of h2 L (g1 @ (p, i, ds @ [(?d, v)]) # g2)"
    using heap_add_dice [OF hp d dist] by blast
  have "?d \<notin> fst ` set ((all_throws g1 @ ds) @ all_throws g2)" "distinct (map fst ((all_throws g1 @ ds) @ all_throws g2))"
    using d dist(2) by (auto simp: dice_ids_def)
  from map_of_insert_middle [OF this, of v]
  have "map_of (all_throws (g1 @ (p, i, ds @ [(?d, v)]) # g2)) = (map_of (all_throws ?g))(?d \<mapsto> v)"
    by (simp only: game_lists append_assoc append_Cons append_Nil)
  moreover have "game_ok (Suc ?d) (g1 @ (p, i, ds @ [(?d, v)]) # g2)"
    using g d by (auto simp: game_ok_def less_Suc_eq)
  ultimately show ?thesis
    using h m by (intro exI [of _ h2])
      (simp add: player_add_new_dice_def gmalloc_ok [OF o] on_gnodes_def game_models_def)
qed

section \<open>Reading\<close>

lemma throws_lookup: "distinct (dice_ids (g1 @ (p, i, ds) # g2)) \<Longrightarrow> (d, v) \<in> set ds \<Longrightarrow> map_of (all_throws (g1 @ (p, i, ds) # g2)) d = Some v"
  by (intro map_of_is_SomeI) (auto simp: dice_ids_def)

lemma models_dice:
  assumes "game_models s L (g1 @ (p, i, ds) # g2)"
  shows "dlist (gnodes s) (PlayerDice p) (map DiceNode (map fst ds))" "\<forall>(d, v) \<in> set ds. dices s d = Some v" "players s p = Some i"
proof -
  show "dlist (gnodes s) (PlayerDice p) (map DiceNode (map fst ds))" using assms by (auto simp: game_models_def heap_of_def)
  show "\<forall>(d, v) \<in> set ds. dices s d = Some v"
    using assms throws_lookup by (fastforce simp: game_models_def game_ok_def)
  show "players s p = Some i"
  proof -
    have "map_of (map (\<lambda>(p, i, ds). (p, i)) (g1 @ (p, i, ds) # g2)) p = Some i"
      using assms by (intro map_of_is_SomeI) (auto simp: game_models_def game_ok_def player_ids_def comp_def split_def)
    then show ?thesis using assms by (simp only: game_models_def)
  qed
qed

lemma dice_sum_ok:
  assumes m: "game_models s L (g1 @ (p, i, ds) # g2)" and pos: "\<forall>(d, v) \<in> set ds. 0 \<le> v" and bound: "sum_list (map snd ds) \<le> 2147483647"
  shows "player_get_dice_sum p s = Some (sum_list (map snd ds))"
proof -
  let ?body = "\<lambda>pos result_value. do {
          d \<leftarrow> dice_of_list pos;
          t \<leftarrow> dices s d;
          r \<leftarrow> c_add result_value t;
          Some (Next r) }"
  let ?I = "\<lambda>(t :: gnode list) (r :: int). \<exists>es fs. ds = es @ fs \<and> t = map DiceNode (map fst fs) \<and> r = sum_list (map snd es)"
  note l = models_dice(1) [OF m] and look = models_dice(2) [OF m]
  have "\<exists>r. list_for_each (\<lambda>_. gnext s) ?body (Ptr (PlayerDice p)) 0 = Some (False, Ptr (PlayerDice p), r) \<and> ?I [] r"
  proof (rule list_for_each_all [where I = ?I and xs = "map DiceNode (map fst ds)"])
    fix x t r assume "?I (x # t) r"
    then obtain es d v fs where e: "ds = es @ (d, v) # fs" "x = DiceNode d" "t = map DiceNode (map fst fs)" "r = sum_list (map snd es)"
      by (auto simp: Cons_eq_map_conv)
    have "0 \<le> sum_list (map snd es)" "0 \<le> sum_list (map snd fs)" "0 \<le> v"
      using pos e(1) by (force intro!: sum_list_nonneg)+
    then have a: "c_add r v = Some (r + v)" using bound e(1,4) by (simp add: c_add_def c_int_def in_int_def)
    have n: "nx (gnodes s) x = Some (first_ptr (PlayerDice p) t)"
      using dlist_next [of "gnodes s" "PlayerDice p" "map DiceNode (map fst es)" x t] l e by simp
    have "dices s d = Some v" using look e(1) by auto
    then have "?body (Ptr x) r = Some (Next (r + v))" using e(2) a by simp
    moreover have "?I t (r + v)" using e by (intro exI [of _ "es @ [(d, v)]"] exI [of _ fs]) simp
    ultimately show "x \<noteq> PlayerDice p \<and>
       (\<exists>r'. ?body (Ptr x) r = Some (Next r') \<and> gnext s (Ptr x) = Some (first_ptr (PlayerDice p) t) \<and> ?I t r')"
      using n e(2) unfolding rd_next_Ptr by blast
  next
    show "?I (map DiceNode (map fst ds)) 0" by (intro exI [of _ "[]"] exI [of _ ds]) simp
    show "gnext s (Ptr (PlayerDice p)) = Some (first_ptr (PlayerDice p) (map DiceNode (map fst ds)))"
      using dlist_first [OF l] by (simp add: heap_simps)
  qed
  then show ?thesis by (auto simp: player_get_dice_sum_def)
qed

text \<open>The texts of a history and of a score.\<close>

definition history :: "int \<Rightarrow> throws \<Rightarrow> string list" where
  "history i ds = (''History of player with ID: '' @ show_int i @ '' \<newline>'') #
     map (\<lambda>(d, v). ''['' @ show_int v @ '']'') ds @ [''\<newline> END HISTORY \<newline>'']"

definition score_line :: "int \<Rightarrow> throws \<Rightarrow> string" where
  "score_line i ds = ''Player ID: '' @ show_int i @ '', result:'' @ show_int (sum_list (map snd ds)) @ '' \<newline>''"

lemma models_out [simp]: "game_models (s\<lparr>out := ts\<rparr>) L g = game_models s L g"
  by (simp add: game_models_def)

lemma history_ok:
  assumes m: "game_models s L (g1 @ (p, i, ds) # g2)"
  shows "print_player_history p s = Some (s\<lparr>out := out s @ history i ds\<rparr>)"
proof -
  let ?body = "\<lambda>pos s. do {
          d \<leftarrow> dice_of_list pos;
          t \<leftarrow> dices s d;
          Some (Next (print (''['' @ show_int t @ '']'') s)) }"
  let ?line = "\<lambda>(d, v). ''['' @ show_int v @ '']''"
  let ?s0 = "print (''History of player with ID: '' @ show_int i @ '' \<newline>'') s"
  let ?I = "\<lambda>(t :: gnode list) r. \<exists>es fs. ds = es @ fs \<and> t = map DiceNode (map fst fs) \<and> r = ?s0\<lparr>out := out ?s0 @ map ?line es\<rparr>"
  note l = models_dice(1) [OF m] and look = models_dice(2) [OF m]
  have "\<exists>r. list_for_each gnext ?body (Ptr (PlayerDice p)) ?s0 = Some (False, Ptr (PlayerDice p), r) \<and> ?I [] r"
  proof (rule list_for_each_all [where I = ?I and xs = "map DiceNode (map fst ds)"])
    fix x t r assume "?I (x # t) r"
    then obtain es d v fs where e: "ds = es @ (d, v) # fs" "x = DiceNode d" "t = map DiceNode (map fst fs)"
      "r = ?s0\<lparr>out := out ?s0 @ map ?line es\<rparr>" by (auto simp: Cons_eq_map_conv)
    have n: "nx (gnodes s) x = Some (first_ptr (PlayerDice p) t)"
      using dlist_next [of "gnodes s" "PlayerDice p" "map DiceNode (map fst es)" x t] l e by simp
    have "dices s d = Some v" using look e(1) by auto
    then have "?body (Ptr x) r = Some (Next (?s0\<lparr>out := out ?s0 @ map ?line (es @ [(d, v)])\<rparr>))"
      using e(2,4) by (simp add: print_def)
    moreover have "?I t (?s0\<lparr>out := out ?s0 @ map ?line (es @ [(d, v)])\<rparr>)"
      using e by (intro exI [of _ "es @ [(d, v)]"] exI [of _ fs]) simp
    ultimately show "x \<noteq> PlayerDice p \<and>
       (\<exists>r'. ?body (Ptr x) r = Some (Next r') \<and> gnext r' (Ptr x) = Some (first_ptr (PlayerDice p) t) \<and> ?I t r')"
      using n e(2) by (auto simp: rd_next_Ptr print_def)
  next
    show "?I (map DiceNode (map fst ds)) ?s0" by (intro exI [of _ "[]"] exI [of _ ds]) (simp add: print_def)
    show "gnext ?s0 (Ptr (PlayerDice p)) = Some (first_ptr (PlayerDice p) (map DiceNode (map fst ds)))"
      using dlist_first [OF l] by (simp add: heap_simps print_def)
  qed
  then obtain r where "list_for_each gnext ?body (Ptr (PlayerDice p)) ?s0 = Some (False, Ptr (PlayerDice p), r)"
    "r = ?s0\<lparr>out := out ?s0 @ map ?line ds\<rparr>" by auto
  then show ?thesis using models_dice(3) [OF m] by (simp add: print_player_history_def Let_def print_def history_def)
qed

section \<open>Loops over the players\<close>

lemma for_each_player_rule:
  assumes I: "I [] s" and m: "\<And>pre s. I pre s \<Longrightarrow> dlist (gnodes s) PlayersList (map PlayerItem ps)"
    and step: "\<And>pre p post s. ps = pre @ p # post \<Longrightarrow> I pre s \<Longrightarrow> \<exists>s'. f p s = Some s' \<and> I (pre @ [p]) s'"
  shows "\<exists>s'. for_each_player f s = Some s' \<and> I ps s'"
proof -
  let ?body = "\<lambda>pos s. do {
          p \<leftarrow> player_of_item pos;
          s \<leftarrow> f p s;
          Some (Next s) }"
  let ?J = "\<lambda>(t :: gnode list) s. \<exists>pre post. ps = pre @ post \<and> t = map PlayerItem post \<and> I pre s"
  have "\<exists>s'. list_for_each gnext ?body (Ptr PlayersList) s = Some (False, Ptr PlayersList, s') \<and> ?J [] s'"
  proof (rule list_for_each_all [where I = ?J and xs = "map PlayerItem ps"])
    fix x t s assume "?J (x # t) s"
    then obtain pre p post where e: "ps = pre @ p # post" "x = PlayerItem p" "t = map PlayerItem post" "I pre s"
      by (auto simp: Cons_eq_map_conv)
    obtain s' where s': "f p s = Some s'" "I (pre @ [p]) s'" using step [OF e(1,4)] by blast
    have n: "gnext s' (Ptr x) = Some (first_ptr PlayersList t)"
      using dlist_next [of "gnodes s'" PlayersList "map PlayerItem pre" x t] m [OF s'(2)] e(1-3) by (simp add: heap_simps)
    have "?J t s'" using e(1,3) s'(2) by (intro exI [of _ "pre @ [p]"] exI [of _ post]) simp
    with s'(1) e(2) n show "x \<noteq> PlayersList \<and>
       (\<exists>s'. ?body (Ptr x) s = Some (Next s') \<and> gnext s' (Ptr x) = Some (first_ptr PlayersList t) \<and> ?J t s')" by auto
  next
    show "?J (map PlayerItem ps) s" using I by (intro exI [of _ "[]"] exI [of _ ps]) simp
    show "gnext s (Ptr PlayersList) = Some (first_ptr PlayersList (map PlayerItem ps))"
      using dlist_first [OF m [OF I]] by (simp add: heap_simps)
  qed
  then show ?thesis by (auto simp: for_each_player_def)
qed

section \<open>Rounds\<close>

definition roll :: "(nat \<Rightarrow> nat) \<Rightarrow> nat \<Rightarrow> int" where
  "roll rnd k = 1 + int (rnd k) mod 6"

lemma roll_range: "1 \<le> roll rnd k" "roll rnd k \<le> 6"
  using pos_mod_sign [of 6 "int (rnd k)"] pos_mod_bound [of 6 "int (rnd k)"] by (simp_all add: roll_def)

text \<open>What the code shows of a player: the number and the results.\<close>

definition shown :: "nat \<times> int \<times> throws \<Rightarrow> int \<times> int list" where
  "shown = (\<lambda>(p, i, ds). (i, map snd ds))"

lemma roll_dice_ok:
  assumes "game_models s L (g1 @ (p, i, ds) # g2)" "goom s = []"
  shows "\<exists>s' es. for_to n (\<lambda>j s. let (v, s) = get_random_engine_value rnd s in player_add_new_dice p v s) s = Some s' \<and>
    game_models s' L (g1 @ (p, i, ds @ es) # g2) \<and> map snd es = map (roll rnd) [rolls s..<rolls s + n] \<and>
    rolls s' = rolls s + n \<and> goom s' = [] \<and> out s' = out s"
proof (induction n)
  case 0
  show ?case using assms by (intro exI [of _ s] exI [of _ "[]"]) simp
next
  case (Suc n)
  then obtain s1 es where s1: "for_to n (\<lambda>j s. let (v, s) = get_random_engine_value rnd s in player_add_new_dice p v s) s = Some s1"
    "game_models s1 L (g1 @ (p, i, ds @ es) # g2)" "map snd es = map (roll rnd) [rolls s..<rolls s + n]"
    "rolls s1 = rolls s + n" "goom s1 = []" "out s1 = out s" by blast
  let ?s2 = "s1\<lparr>rolls := Suc (rolls s1)\<rparr>" and ?v = "roll rnd (rolls s1)"
  have m: "game_models ?s2 L (g1 @ (p, i, ds @ es) # g2)" "goom ?s2 = []" using s1(2,5) by (simp_all add: game_models_def)
  obtain h where h: "player_add_new_dice p ?v ?s2 = Some (?s2\<lparr>gbrk := Suc (gbrk ?s2), dices := (dices ?s2)(gbrk ?s2 \<mapsto> ?v), gnodes := h\<rparr>)"
    "game_models (?s2\<lparr>gbrk := Suc (gbrk ?s2), dices := (dices ?s2)(gbrk ?s2 \<mapsto> ?v), gnodes := h\<rparr>) L (g1 @ (p, i, (ds @ es) @ [(gbrk ?s2, ?v)]) # g2)"
    using add_dice_ok [OF m] by blast
  show ?case
    using s1 h by (intro exI [of _ "?s2\<lparr>gbrk := Suc (gbrk ?s2), dices := (dices ?s2)(gbrk ?s2 \<mapsto> ?v), gnodes := h\<rparr>"]
        exI [of _ "es @ [(gbrk ?s2, ?v)]"]) (simp add: get_random_engine_value_def roll_def)
qed

lemma models_links: "game_models s L g \<Longrightarrow> dlist (gnodes s) PlayersList (map PlayerItem L)"
  by (simp add: game_models_def heap_of_def)

lemma player_ids_nth: "player_ids g = pre @ p # post \<Longrightarrow> length pre < length g \<and> fst (g ! length pre) = p"
proof -
  assume e: "player_ids g = pre @ p # post"
  from arg_cong [OF e, of length] have l: "length pre < length g" by (simp add: player_ids_def)
  from arg_cong [OF e, of "\<lambda>xs. xs ! length pre"] l show ?thesis by (simp add: player_ids_def)
qed

lemma player_ids_update [simp]: "j < length g \<Longrightarrow> player_ids (g[j := (fst (g ! j), i, ds)]) = player_ids g"
  by (simp add: player_ids_def map_update list_update_same_conv)

lemma length_player_ids: "player_ids g = player_ids g' \<Longrightarrow> length g = length g'"
  by (drule arg_cong [of _ _ length]) (simp add: player_ids_def)

lemma iteration_ok:
  assumes m: "game_models s (player_ids g) g" and o: "goom s = []"
  shows "\<exists>s' g'. play_game_iteration rnd (int n) s = Some s' \<and> game_models s' (player_ids g') g' \<and> length g' = length g \<and>
    (\<forall>j < length g. shown (g' ! j) = (fst (shown (g ! j)), snd (shown (g ! j)) @ map (roll rnd) [rolls s + j * n..<rolls s + Suc j * n])) \<and>
    rolls s' = rolls s + length g * n \<and> goom s' = [] \<and> out s' = out s"
proof -
  let ?new = "\<lambda>j. (fst (shown (g ! j)), snd (shown (g ! j)) @ map (roll rnd) [rolls s + j * n..<rolls s + Suc j * n])"
  let ?I = "\<lambda>(pre :: nat list) s1. \<exists>g1. game_models s1 (player_ids g) g1 \<and> player_ids g1 = player_ids g \<and>
    (\<forall>j < length g. shown (g1 ! j) = (if j < length pre then ?new j else shown (g ! j))) \<and>
    rolls s1 = rolls s + length pre * n \<and> goom s1 = [] \<and> out s1 = out s"
  let ?f = "\<lambda>p. for_to (nat (int n)) (\<lambda>i s. (let (v, s) = get_random_engine_value rnd s in player_add_new_dice p v s))"
  have "\<exists>s'. for_each_player ?f s = Some s' \<and> ?I (player_ids g) s'"
  proof (rule for_each_player_rule [where I = ?I])
    show "?I [] s" using m o by (intro exI [of _ g]) simp
    show "dlist (gnodes s1) PlayersList (map PlayerItem (player_ids g))" if "?I pre s1" for pre s1
      using that models_links by blast
    fix pre p post s1 assume ps: "player_ids g = pre @ p # post" and "?I pre s1"
    then obtain g1 where g1: "game_models s1 (player_ids g) g1" "player_ids g1 = player_ids g"
      "\<forall>j < length g. shown (g1 ! j) = (if j < length pre then ?new j else shown (g ! j))"
      "rolls s1 = rolls s + length pre * n" "goom s1 = []" "out s1 = out s" by blast
    let ?k = "length pre"
    have k: "?k < length g1" "fst (g1 ! ?k) = p" "length g1 = length g"
      using player_ids_nth [of g1 pre p post] g1(2) ps length_player_ids [OF g1(2)] by simp_all
    obtain i ds where e: "g1 ! ?k = (p, i, ds)" using k(2) by (cases "g1 ! ?k") auto
    have split: "g1 = take ?k g1 @ (p, i, ds) # drop (Suc ?k) g1" using id_take_nth_drop [OF k(1)] e by simp
    obtain s2 es where s2: "?f p s1 = Some s2" "game_models s2 (player_ids g) (take ?k g1 @ (p, i, ds @ es) # drop (Suc ?k) g1)"
      "map snd es = map (roll rnd) [rolls s1..<rolls s1 + n]" "rolls s2 = rolls s1 + n" "goom s2 = []" "out s2 = out s1"
      using roll_dice_ok [of s1 "player_ids g" "take ?k g1" p i ds "drop (Suc ?k) g1" n rnd] g1(1,5) split by auto
    let ?g2 = "g1[?k := (p, i, ds @ es)]"
    have m2: "game_models s2 (player_ids g) ?g2" using s2(2) upd_conv_take_nth_drop [OF k(1)] by simp
    have ids: "player_ids ?g2 = player_ids g" using player_ids_update [OF k(1), of i "ds @ es"] k(2) g1(2) by simp
    have own: "shown (g ! ?k) = (i, map snd ds)" using g1(3) k(1,3) e by (auto simp: shown_def)
    have "shown (?g2 ! j) = (if j < length (pre @ [p]) then ?new j else shown (g ! j))" if "j < length g" for j
    proof (cases "j = ?k")
      case True
      then show ?thesis using own s2(3) g1(4) k(1) by (simp add: shown_def algebra_simps)
    next
      case False
      then show ?thesis using g1(3) that by auto
    qed
    then have "?I (pre @ [p]) s2" using m2 ids s2(4-6) g1(4,6) by (intro exI [of _ ?g2]) (simp add: algebra_simps)
    with s2(1) show "\<exists>s'. ?f p s1 = Some s' \<and> ?I (pre @ [p]) s'" by blast
  qed
  then obtain s' g' where "for_each_player ?f s = Some s'" "game_models s' (player_ids g) g'" "player_ids g' = player_ids g"
    "\<forall>j < length g. shown (g' ! j) = ?new j" "rolls s' = rolls s + length g * n" "goom s' = []" "out s' = out s"
    by (auto simp: player_ids_def)
  moreover from this(3) have "length g' = length g" by (rule length_player_ids)
  ultimately show ?thesis by (intro exI [of _ s'] exI [of _ g']) (simp add: play_game_iteration_def)
qed

section \<open>The end of the game\<close>

lemma print_all_ok:
  assumes m: "game_models s (player_ids g) g"
    and f: "\<And>g1 p i ds g2 s'. g = g1 @ (p, i, ds) # g2 \<Longrightarrow> game_models s' (player_ids g) g \<Longrightarrow> f p s' = Some (s'\<lparr>out := out s' @ line (i, ds)\<rparr>)"
  shows "for_each_player f s = Some (s\<lparr>out := out s @ concat (map (line \<circ> snd) g)\<rparr>)"
proof -
  let ?I = "\<lambda>(pre :: nat list) s1. s1 = s\<lparr>out := out s @ concat (map (line \<circ> snd) (take (length pre) g))\<rparr>"
  have "\<exists>s'. for_each_player f s = Some s' \<and> ?I (player_ids g) s'"
  proof (rule for_each_player_rule [where I = ?I])
    show "?I [] s" by simp
    show "dlist (gnodes s1) PlayersList (map PlayerItem (player_ids g))" if "?I pre s1" for pre s1
      using that models_links [OF m] by simp
    fix pre p post s1 assume ps: "player_ids g = pre @ p # post" and s1: "?I pre s1"
    let ?k = "length pre"
    have k: "?k < length g" "fst (g ! ?k) = p" using player_ids_nth [OF ps] by simp_all
    obtain i ds where e: "g ! ?k = (p, i, ds)" using k(2) by (cases "g ! ?k") auto
    have split: "g = take ?k g @ (p, i, ds) # drop (Suc ?k) g" using id_take_nth_drop [OF k(1)] e by simp
    have "game_models s1 (player_ids g) g" using m s1 by simp
    from f [OF split this] have "f p s1 = Some (s1\<lparr>out := out s1 @ line (i, ds)\<rparr>)" .
    moreover have "?I (pre @ [p]) (s1\<lparr>out := out s1 @ line (i, ds)\<rparr>)" using s1 e k(1) by (simp add: take_Suc_conv_app_nth)
    ultimately show "\<exists>s'. f p s1 = Some s' \<and> ?I (pre @ [p]) s'" by blast
  qed
  then show ?thesis by (simp add: player_ids_def)
qed

lemma scoretable_ok:
  assumes m: "game_models s (player_ids g) g"
    and v: "\<forall>(p, i, ds) \<in> set g. (\<forall>(d, v) \<in> set ds. 0 \<le> v) \<and> sum_list (map snd ds) \<le> 2147483647"
  shows "print_scoretable s = Some (s\<lparr>out := out s @ map (\<lambda>(p, i, ds). score_line i ds) g\<rparr>)"
proof -
  have "print_scoretable s = Some (s\<lparr>out := out s @ concat (map ((\<lambda>(i, ds). [score_line i ds]) \<circ> snd) g)\<rparr>)"
    unfolding print_scoretable_def
  proof (rule print_all_ok [OF m])
    fix g1 p i ds g2 s' assume g: "g = g1 @ (p, i, ds) # g2" and m': "game_models s' (player_ids g) g"
    have v': "\<forall>(d, v) \<in> set ds. 0 \<le> v" "sum_list (map snd ds) \<le> 2147483647" using v g by auto
    show "(do { player_result \<leftarrow> player_get_dice_sum p s'; i \<leftarrow> players s' p;
        Some (print (''Player ID: '' @ show_int i @ '', result:'' @ show_int player_result @ '' \<newline>'') s') }) =
      Some (s'\<lparr>out := out s' @ (\<lambda>(i, ds). [score_line i ds]) (i, ds)\<rparr>)"
      using dice_sum_ok [OF m' [unfolded g] v'] models_dice(3) [OF m' [unfolded g]] by (simp add: print_def score_line_def)
  qed
  moreover have "concat (map ((\<lambda>(i, ds). [score_line i ds]) \<circ> snd) g) = map (\<lambda>(p, i, ds). score_line i ds) g"
    by (induction g) auto
  ultimately show ?thesis by simp
qed

lemma histories_ok:
  assumes m: "game_models s (player_ids g) g"
  shows "print_players_history s = Some (s\<lparr>out := out s @ concat (map (\<lambda>(p, i, ds). history i ds) g)\<rparr>)"
proof -
  have "print_players_history s = Some (s\<lparr>out := out s @ concat (map ((\<lambda>(i, ds). history i ds) \<circ> snd) g)\<rparr>)"
    unfolding print_players_history_def
    by (rule print_all_ok [OF m]) (use history_ok in fastforce)
  moreover have "concat (map ((\<lambda>(i, ds). history i ds) \<circ> snd) g) = concat (map (\<lambda>(p, i, ds). history i ds) g)"
    by (induction g) auto
  ultimately show ?thesis by simp
qed

text \<open>Freeing: taking a dice off its player, and a player off the list.\<close>

lemma del_dice_ok:
  assumes m: "game_models s L ((p, i, (d, v) # ds) # g)"
  shows "\<exists>h h'. list_del (gnodes s) (Ptr (DiceNode d)) = Some h \<and>
    dice_dtor d (s\<lparr>gnodes := h\<rparr>) = Some (s\<lparr>dices := (dices s)(d := None), gnodes := h'\<rparr>) \<and>
    game_models (s\<lparr>dices := (dices s)(d := None), gnodes := h'\<rparr>) L ((p, i, ds) # g)"
proof -
  let ?g = "(p, i, (d, v) # ds) # g"
  have hp: "heap_of (gnodes s) L ?g" and gk: "game_ok (gbrk s) ?g" using m by (simp_all add: game_models_def)
  have l: "dlist (gnodes s) (PlayerDice p) ([] @ DiceNode d # map DiceNode (map fst ds))" using hp by (simp add: heap_of_def)
  from ll.unlink_law [OF l] obtain h where h: "list_del (gnodes s) (Ptr (DiceNode d)) = Some h"
    "dlist h (PlayerDice p) (map DiceNode (map fst ds))" "dom h = dom (gnodes s)"
    "\<forall>K zs. set (K # zs) \<inter> set (PlayerDice p # DiceNode d # map DiceNode (map fst ds)) = {} \<longrightarrow> dlist (gnodes s) K zs \<longrightarrow> dlist h K zs"
    by (auto simp: unlink_node_def)
  let ?h = "h(DiceNode d := None)"
  have d: "d \<notin> fst ` set ds" "d \<notin> set (dice_ids g)" using gk by (auto simp: game_ok_def)
  have "dlist ?h PlayersList (map PlayerItem L)"
    by (rule dlist_upd [OF h(4) [rule_format]]) (use hp in \<open>auto simp: heap_of_def\<close>)
  moreover have "dlist ?h (PlayerDice p) (map DiceNode (map fst ds))" by (rule dlist_upd [OF h(2)]) (use d in auto)
  moreover have "dlist ?h (PlayerDice q) (map DiceNode (map fst es))" if q: "(q, j, es) \<in> set g" for q j es
  proof (rule dlist_upd [OF h(4) [rule_format]])
    have "q \<noteq> p" using player_of_game [OF q] gk by (auto simp: game_ok_def)
    moreover have sub: "fst ` set es \<subseteq> set (dice_ids g)" using dice_of_game [OF q] by blast
    moreover have "set (dice_ids g) \<inter> (insert d (fst ` set ds)) = {}" using gk by (auto simp: game_ok_def)
    ultimately show "set (PlayerDice q # map DiceNode (map fst es)) \<inter> set (PlayerDice p # DiceNode d # map DiceNode (map fst ds)) = {}"
      by auto
    show "dlist (gnodes s) (PlayerDice q) (map DiceNode (map fst es))" using hp q by (auto simp: heap_of_def)
    show "DiceNode d \<notin> set (PlayerDice q # map DiceNode (map fst es))" using sub d(2) by auto
  qed
  ultimately have "heap_of ?h L ((p, i, ds) # g)"
    using h(3) hp d by (auto simp: heap_of_def node_set_def)
  moreover have "map_of (all_throws ((p, i, ds) # g)) = (map_of (all_throws ?g))(d := None)"
    using map_of_remove_middle [of "[]" d v "ds @ all_throws g"] gk by (simp add: game_ok_def dice_ids_def)
  moreover have "game_ok (gbrk s) ((p, i, ds) # g)" using gk by (simp add: game_ok_def)
  moreover have "dices s d \<noteq> None" using m by (simp add: game_models_def)
  ultimately show ?thesis using m h(1)
    by (intro exI [of _ h] exI [of _ ?h]) (simp add: dice_dtor_def game_models_def)
qed

lemma player_dtor_ok:
  assumes m: "game_models s L ((p, i, ds) # g)" and L: "p \<notin> set L"
  shows "\<exists>s'. player_dtor p s = Some s' \<and> game_models s' L g \<and> out s' = out s"
proof -
  let ?body = "\<lambda>pos s. do {
          dice_it \<leftarrow> dice_of_list pos;
          s \<leftarrow> on_gnodes (\<lambda>h. list_del h pos) s;
          s \<leftarrow> dice_dtor dice_it s;
          Some (Next s) }"
  let ?I = "\<lambda>(t :: gnode list) s1. \<exists>es. t = map DiceNode (map fst es) \<and> game_models s1 L ((p, i, es) # g) \<and> out s1 = out s"
  have links: "dlist (gnodes s1) (PlayerDice p) (map DiceNode (map fst es))" if "game_models s1 L ((p, i, es) # g)" for s1 es
    using that by (simp add: game_models_def heap_of_def)
  have "\<exists>s1. list_for_each_safe gnext ?body (Ptr (PlayerDice p)) s = Some (False, Ptr (PlayerDice p), s1) \<and> ?I [] s1"
  proof (rule list_for_each_safe_all [where I = ?I and xs = "map DiceNode (map fst ds)"])
    fix x t s1 assume "?I (x # t) s1"
    then obtain d v es where e: "x = DiceNode d" "t = map DiceNode (map fst es)" "game_models s1 L ((p, i, (d, v) # es) # g)" "out s1 = out s"
      by (auto simp: Cons_eq_map_conv)
    from del_dice_ok [OF e(3)] obtain h h' where h: "list_del (gnodes s1) (Ptr (DiceNode d)) = Some h"
      "dice_dtor d (s1\<lparr>gnodes := h\<rparr>) = Some (s1\<lparr>dices := (dices s1)(d := None), gnodes := h'\<rparr>)"
      "game_models (s1\<lparr>dices := (dices s1)(d := None), gnodes := h'\<rparr>) L ((p, i, es) # g)" by blast
    then have "?body (Ptr x) s1 = Some (Next (s1\<lparr>dices := (dices s1)(d := None), gnodes := h'\<rparr>))"
      using e(1) by (simp add: on_gnodes_def)
    moreover have "?I t (s1\<lparr>dices := (dices s1)(d := None), gnodes := h'\<rparr>)" using h(3) e(2,4) by auto
    ultimately show "\<exists>s'. ?body (Ptr x) s1 = Some (Next s') \<and> ?I t s'" by blast
    show "x \<noteq> PlayerDice p \<and> gnext s1 (Ptr x) = Some (first_ptr (PlayerDice p) t)"
      using dlist_next [of "gnodes s1" "PlayerDice p" "[]" x t] links [OF e(3)] e(1,2) by (simp add: heap_simps)
  next
    fix s1 assume "?I [] s1"
    then show "\<exists>q. gnext s1 (Ptr (PlayerDice p)) = Some q" using dlist_first [OF links] by (auto simp: heap_simps)
  next
    show "?I (map DiceNode (map fst ds)) s" using m by (intro exI [of _ ds]) simp
    show "gnext s (Ptr (PlayerDice p)) = Some (first_ptr (PlayerDice p) (map DiceNode (map fst ds)))"
      using dlist_first [OF links [OF m]] by (simp add: heap_simps)
  qed
  then obtain s1 where s1: "list_for_each_safe gnext ?body (Ptr (PlayerDice p)) s = Some (False, Ptr (PlayerDice p), s1)"
    "game_models s1 L ((p, i, []) # g)" "out s1 = out s" by auto
  let ?h = "(gnodes s1)(PlayerItem p := None, PlayerDice p := None)"
  have hp: "heap_of (gnodes s1) L ((p, i, []) # g)" and gk: "game_ok (gbrk s1) ((p, i, []) # g)" using s1(2) by (simp_all add: game_models_def)
  have "dlist ?h PlayersList (map PlayerItem L)"
    by (intro dlist_upd) (use hp L in \<open>auto simp: heap_of_def\<close>)
  moreover have "dlist ?h (PlayerDice q) (map DiceNode (map fst es))" if q: "(q, j, es) \<in> set g" for q j es
  proof -
    have "q \<noteq> p" using player_of_game [OF q] gk by (auto simp: game_ok_def)
    then show ?thesis by (intro dlist_upd) (use hp q in \<open>auto simp: heap_of_def\<close>)
  qed
  moreover have "p \<notin> set (player_ids g)" using gk by (simp add: game_ok_def)
  ultimately have "heap_of ?h L g" using hp by (auto simp: heap_of_def node_set_def)
  moreover have "map_of (map (\<lambda>(p, i, ds). (p, i)) g) = (players s1)(p := None)"
    using map_of_remove_middle [of "[]" p i "map (\<lambda>(p, i, ds). (p, i)) g"] gk s1(2)
    by (simp add: game_models_def game_ok_def player_ids_def comp_def split_def)
  moreover have "game_ok (gbrk s1) g" using gk by (simp add: game_ok_def)
  ultimately have "game_models (s1\<lparr>players := (players s1)(p := None), gnodes := ?h\<rparr>) L g" using s1(2) by (simp add: game_models_def)
  moreover have "players s1 p \<noteq> None" using s1(2) by (simp add: game_models_def)
  ultimately show ?thesis using s1(1,3) by (simp add: player_dtor_def free_player_def)
qed

lemma cleanup_ok:
  assumes m: "game_models s (player_ids g) g"
  shows "\<exists>s'. cleanup_players s = Some s' \<and> game_models s' [] [] \<and> out s' = out s"
proof -
  let ?body = "\<lambda>pos s. do {
          player_it \<leftarrow> player_of_item pos;
          s \<leftarrow> on_gnodes (\<lambda>h. list_del h pos) s;
          s \<leftarrow> player_dtor player_it s;
          Some (Next s) }"
  let ?I = "\<lambda>(t :: gnode list) s1. \<exists>g1. t = map PlayerItem (player_ids g1) \<and> game_models s1 (player_ids g1) g1 \<and> out s1 = out s"
  have "\<exists>s1. list_for_each_safe gnext ?body (Ptr PlayersList) s = Some (False, Ptr PlayersList, s1) \<and> ?I [] s1"
  proof (rule list_for_each_safe_all [where I = ?I and xs = "map PlayerItem (player_ids g)"])
    fix x t s1 assume "?I (x # t) s1"
    then obtain g1 where g1: "x # t = map PlayerItem (player_ids g1)" "game_models s1 (player_ids g1) g1" "out s1 = out s"
      by (elim exE conjE) (rule that)
    then obtain p i ds g2 where g2: "g1 = (p, i, ds) # g2" "x = PlayerItem p" "t = map PlayerItem (player_ids g2)"
      by (cases g1) auto
    have hp: "heap_of (gnodes s1) (p # player_ids g2) g1" and gk: "game_ok (gbrk s1) g1"
      using g1(2) g2(1) by (simp_all add: game_models_def)
    have l: "dlist (gnodes s1) PlayersList ([] @ PlayerItem p # map PlayerItem (player_ids g2))" using hp by (simp add: heap_of_def)
    from ll.unlink_law [OF l] obtain h where h: "list_del (gnodes s1) (Ptr (PlayerItem p)) = Some h"
      "dlist h PlayersList (map PlayerItem (player_ids g2))" "dom h = dom (gnodes s1)"
      "\<forall>K zs. set (K # zs) \<inter> set (PlayersList # PlayerItem p # map PlayerItem (player_ids g2)) = {} \<longrightarrow> dlist (gnodes s1) K zs \<longrightarrow> dlist h K zs"
      by (auto simp: unlink_node_def)
    have "dlist h (PlayerDice q) (map DiceNode (map fst es))" if q: "(q, j, es) \<in> set g1" for q j es
      by (rule h(4) [rule_format]) (use hp q in \<open>auto simp: heap_of_def\<close>)
    then have "heap_of h (player_ids g2) g1" using h(2,3) hp by (auto simp: heap_of_def)
    then have "game_models (s1\<lparr>gnodes := h\<rparr>) (player_ids g2) ((p, i, ds) # g2)" using g1(2) g2(1) by (simp add: game_models_def)
    moreover have "p \<notin> set (player_ids g2)" using gk g2(1) by (simp add: game_ok_def)
    ultimately obtain s2 where s2: "player_dtor p (s1\<lparr>gnodes := h\<rparr>) = Some s2" "game_models s2 (player_ids g2) g2" "out s2 = out s1"
      using player_dtor_ok by fastforce
    then have "?body (Ptr x) s1 = Some (Next s2)" using h(1) g2(2) by (simp add: on_gnodes_def)
    moreover have "?I t s2" using s2(2,3) g2(3) g1(3) by auto
    ultimately show "\<exists>s'. ?body (Ptr x) s1 = Some (Next s') \<and> ?I t s'" by blast
    show "x \<noteq> PlayersList \<and> gnext s1 (Ptr x) = Some (first_ptr PlayersList t)"
      using dlist_next [of "gnodes s1" PlayersList "[]" x t] l g2(2,3) by (simp add: heap_simps)
  next
    fix s1 assume "?I [] s1"
    then show "\<exists>q. gnext s1 (Ptr PlayersList) = Some q" using dlist_first [OF models_links] by (auto simp: heap_simps)
  next
    show "?I (map PlayerItem (player_ids g)) s" using m by blast
    show "gnext s (Ptr PlayersList) = Some (first_ptr PlayersList (map PlayerItem (player_ids g)))"
      using dlist_first [OF models_links [OF m]] by (simp add: heap_simps)
  qed
  then obtain s1 g1 where "list_for_each_safe gnext ?body (Ptr PlayersList) s = Some (False, Ptr PlayersList, s1)"
    "player_ids g1 = []" "game_models s1 (player_ids g1) g1" "out s1 = out s" by auto
  moreover from this(2) have "g1 = []" by (simp add: player_ids_def)
  ultimately show ?thesis by (simp add: cleanup_players_def)
qed

lemma models_start: "game_models game_start [] []"
  by (auto simp: game_models_def game_start_def heap_of_def dlist_def node_set_def nx_def pv_def game_ok_def)

lemma models_empty: "game_models s [] [] \<Longrightarrow> players s = Map.empty \<and> dices s = Map.empty \<and> dom (gnodes s) = {PlayersList} \<and> dlist (gnodes s) PlayersList []"
  by (simp add: game_models_def heap_of_def node_set_def)

lemma append_players_ok:
  assumes "goom s = []" "game_models s [] []"
  shows "\<exists>s' g. append_players (int n) s = Some s' \<and> game_models s' (player_ids g) g \<and> map shown g = map (\<lambda>i. (int i + 1, [])) [0..<n] \<and>
    goom s' = [] \<and> out s' = out s \<and> rolls s' = rolls s"
proof -
  let ?I = "\<lambda>k s1. \<exists>g. game_models s1 (player_ids g) g \<and> map shown g = map (\<lambda>i. (int i + 1, [])) [0..<k] \<and>
    goom s1 = [] \<and> out s1 = out s \<and> rolls s1 = rolls s"
  have "\<exists>s'. for_to n (\<lambda>i. append_player_to_game (int i + 1)) s = Some s' \<and> ?I n s'"
  proof (rule for_to_rule [where I = ?I])
    show "?I 0 s" using assms by (intro exI [of _ "[]"]) simp
    fix i s1 assume "?I i s1"
    then obtain g where g: "game_models s1 (player_ids g) g" "map shown g = map (\<lambda>i. (int i + 1, [])) [0..<i]"
      "goom s1 = []" "out s1 = out s" "rolls s1 = rolls s" by blast
    from append_player_ok [OF g(1,3)] obtain h where
      "append_player_to_game (int i + 1) s1 = Some (s1\<lparr>gbrk := Suc (gbrk s1), players := (players s1)(gbrk s1 \<mapsto> int i + 1), gnodes := h\<rparr>)"
      "game_models (s1\<lparr>gbrk := Suc (gbrk s1), players := (players s1)(gbrk s1 \<mapsto> int i + 1), gnodes := h\<rparr>) (player_ids g @ [gbrk s1]) (g @ [(gbrk s1, int i + 1, [])])"
      by blast
    with g(2-5) show "\<exists>s'. append_player_to_game (int i + 1) s1 = Some s' \<and> ?I (Suc i) s'"
      by (intro exI [of _ "s1\<lparr>gbrk := Suc (gbrk s1), players := (players s1)(gbrk s1 \<mapsto> int i + 1), gnodes := h\<rparr>"])
        (auto simp: shown_def intro!: exI [of _ "g @ [(gbrk s1, int i + 1, [])]"])
  qed
  then show ?thesis by (simp add: append_players_def)
qed

text \<open>The throws of player \<open>j\<close> in \<open>k\<close> rounds of \<open>m\<close> players and \<open>n\<close> dice each.\<close>

definition throws_of :: "(nat \<Rightarrow> nat) \<Rightarrow> nat \<Rightarrow> nat \<Rightarrow> nat \<Rightarrow> nat \<Rightarrow> int list" where
  "throws_of rnd m n k j = concat (map (\<lambda>r. map (\<lambda>d. roll rnd ((r * m + j) * n + d)) [0..<n]) [0..<k])"

lemma throws_of_Suc:
  "throws_of rnd m n (Suc k) j = throws_of rnd m n k j @ map (roll rnd) [k * (m * n) + j * n..<k * (m * n) + Suc j * n]"
proof -
  have "map (roll rnd) [a..<a + n] = map (\<lambda>d. roll rnd (a + d)) [0..<n]" for a
    by (rule nth_equalityI) auto
  from this [of "k * (m * n) + j * n"] show ?thesis by (simp add: throws_of_def algebra_simps)
qed

lemma throws_of_range: "v \<in> set (throws_of rnd m n k j) \<Longrightarrow> 1 \<le> v \<and> v \<le> 6"
  by (auto simp: throws_of_def roll_range)

lemma length_throws_of: "length (throws_of rnd m n k j) = k * n"
  by (induction k) (simp_all add: throws_of_Suc, simp add: throws_of_def)

lemma rounds_ok:
  assumes m: "game_models s (player_ids g) g" and g: "map shown g = map (\<lambda>i. (int i + 1, [])) [0..<m]" and o: "goom s = []" "rolls s = 0"
  shows "\<exists>s' g'. for_to k (\<lambda>i. play_game_iteration rnd (int n)) s = Some s' \<and> game_models s' (player_ids g') g' \<and>
    map shown g' = map (\<lambda>j. (int j + 1, throws_of rnd m n k j)) [0..<m] \<and> out s' = out s"
proof -
  let ?I = "\<lambda>k s1. \<exists>g. game_models s1 (player_ids g) g \<and> map shown g = map (\<lambda>j. (int j + 1, throws_of rnd m n k j)) [0..<m] \<and>
    goom s1 = [] \<and> out s1 = out s \<and> rolls s1 = k * (m * n)"
  have "\<exists>s'. for_to k (\<lambda>i. play_game_iteration rnd (int n)) s = Some s' \<and> ?I k s'"
  proof (rule for_to_rule [where I = ?I])
    show "?I 0 s" using assms by (intro exI [of _ g]) (simp add: throws_of_def)
    fix k s1 assume "?I k s1"
    then obtain g where g: "game_models s1 (player_ids g) g" "map shown g = map (\<lambda>j. (int j + 1, throws_of rnd m n k j)) [0..<m]"
      "goom s1 = []" "out s1 = out s" "rolls s1 = k * (m * n)" by blast
    have lg: "length g = m" using arg_cong [OF g(2), of length] by simp
    have gj: "shown (g ! j) = (int j + 1, throws_of rnd m n k j)" if "j < m" for j
      using arg_cong [OF g(2), of "\<lambda>xs. xs ! j"] that lg by simp
    from iteration_ok [OF g(1,3), of rnd n] obtain s2 g2 where s2: "play_game_iteration rnd (int n) s1 = Some s2"
      "game_models s2 (player_ids g2) g2" "length g2 = length g"
      "\<forall>j < length g. shown (g2 ! j) = (fst (shown (g ! j)), snd (shown (g ! j)) @ map (roll rnd) [rolls s1 + j * n..<rolls s1 + Suc j * n])"
      "rolls s2 = rolls s1 + length g * n" "goom s2 = []" "out s2 = out s1" by blast
    have "map shown g2 = map (\<lambda>j. (int j + 1, throws_of rnd m n (Suc k) j)) [0..<m]"
      by (rule nth_equalityI) (use s2(3,4) lg gj g(5) in \<open>auto simp: throws_of_Suc\<close>)
    then have "?I (Suc k) s2" using s2 g(4,5) lg by (intro exI [of _ g2]) simp
    with s2(1) show "\<exists>s'. play_game_iteration rnd (int n) s1 = Some s' \<and> ?I (Suc k) s'" by blast
  qed
  then show ?thesis by blast
qed

section \<open>Properties\<close>

definition history_text :: "int \<Rightarrow> int list \<Rightarrow> string list" where
  "history_text i vs = (''History of player with ID: '' @ show_int i @ '' \<newline>'') #
     map (\<lambda>v. ''['' @ show_int v @ '']'') vs @ [''\<newline> END HISTORY \<newline>'']"

definition score_text :: "int \<Rightarrow> int list \<Rightarrow> string" where
  "score_text i vs = ''Player ID: '' @ show_int i @ '', result:'' @ show_int (sum_list vs) @ '' \<newline>''"

lemma texts_shown:
  "map (\<lambda>(p, i, ds). score_line i ds) g = map (\<lambda>(i, vs). score_text i vs) (map shown g)"
  "concat (map (\<lambda>(p, i, ds). history i ds) g) = concat (map (\<lambda>(i, vs). history_text i vs) (map shown g))"
  by (induction g) (auto simp: shown_def score_line_def score_text_def history_def history_text_def)

lemma sum_throws: "(\<forall>v \<in> set vs. 1 \<le> v \<and> v \<le> 6) \<Longrightarrow> int (length vs) \<le> sum_list vs \<and> sum_list vs \<le> 6 * int (length vs)"
  by (induction vs) auto

text \<open>A whole game, from the numbers of players, dice and iterations.\<close>

lemma game_plays_and_cleans_up:
  assumes "6 * (k * n) \<le> 2147483647"
  shows "\<exists>s'. game_main rnd (int m) (int n) (int k) game_start = Some s' \<and>
    out s' = (''game setup: iterations:'' @ show_int (int k) @ '', num_dices: '' @ show_int (int n) @ ''\<newline>'') #
      map (\<lambda>j. score_text (int j + 1) (throws_of rnd m n k j)) [0..<m] @
      concat (map (\<lambda>j. history_text (int j + 1) (throws_of rnd m n k j)) [0..<m]) \<and>
    (\<forall>j. int (k * n) \<le> sum_list (throws_of rnd m n k j) \<and> sum_list (throws_of rnd m n k j) \<le> 6 * int (k * n)) \<and>
    players s' = Map.empty \<and> dices s' = Map.empty \<and> dlist (gnodes s') PlayersList [] \<and> dom (gnodes s') = {PlayersList}"
proof -
  let ?created = "''game setup: iterations:'' @ show_int (int k) @ '', num_dices: '' @ show_int (int n) @ ''\<newline>''"
  have sums: "int (k * n) \<le> sum_list (throws_of rnd m n k j) \<and> sum_list (throws_of rnd m n k j) \<le> 6 * int (k * n)" for j
    using sum_throws [of "throws_of rnd m n k j"] throws_of_range length_throws_of [of rnd m n k j] by metis
  have "goom game_start = []" "rolls game_start = 0" "out game_start = []" by (simp_all add: game_start_def)
  with append_players_ok [OF _ models_start, of m] obtain s1 g1 where s1: "append_players (int m) game_start = Some s1"
    "game_models s1 (player_ids g1) g1" "map shown g1 = map (\<lambda>i. (int i + 1, [])) [0..<m]" "goom s1 = []" "out s1 = []" "rolls s1 = 0"
    by auto
  have "game_models (print ?created s1) (player_ids g1) g1" "goom (print ?created s1) = []" "rolls (print ?created s1) = 0" "out (print ?created s1) = [?created]"
    using s1 by (simp_all add: print_def)
  with rounds_ok [OF _ s1(3), of "print ?created s1" k rnd n] obtain s2 g2 where s2: "for_to k (\<lambda>i. play_game_iteration rnd (int n)) (print ?created s1) = Some s2"
    "game_models s2 (player_ids g2) g2" "map shown g2 = map (\<lambda>j. (int j + 1, throws_of rnd m n k j)) [0..<m]" "out s2 = [?created]"
    by auto
  have "(\<forall>(d, v) \<in> set ds. 0 \<le> v) \<and> sum_list (map snd ds) \<le> 2147483647" if "(p, i, ds) \<in> set g2" for p i ds
  proof -
    have "(i, map snd ds) \<in> set (map shown g2)" using that by (force simp: shown_def)
    then obtain j where j: "map snd ds = throws_of rnd m n k j" unfolding s2(3) by auto
    have "0 \<le> v" if "(d, v) \<in> set ds" for d v
    proof -
      have "v \<in> set (throws_of rnd m n k j)" using that unfolding j [symmetric] by force
      then show ?thesis using throws_of_range [of v rnd m n k j] by simp
    qed
    moreover have "sum_list (map snd ds) \<le> 2147483647" using sums [of j] assms unfolding j by (simp add: of_nat_mult [symmetric] del: of_nat_mult)
    ultimately show ?thesis by blast
  qed
  then have "\<forall>(p, i, ds) \<in> set g2. (\<forall>(d, v) \<in> set ds. 0 \<le> v) \<and> sum_list (map snd ds) \<le> 2147483647" by blast
  note score = scoretable_ok [OF s2(2) this]
  let ?s3 = "s2\<lparr>out := out s2 @ map (\<lambda>(p, i, ds). score_line i ds) g2\<rparr>"
  have m3: "game_models ?s3 (player_ids g2) g2" using s2(2) by simp
  let ?s4 = "?s3\<lparr>out := out ?s3 @ concat (map (\<lambda>(p, i, ds). history i ds) g2)\<rparr>"
  have m4: "game_models ?s4 (player_ids g2) g2" using s2(2) by simp
  obtain s5 where s5: "cleanup_players ?s4 = Some s5" "game_models s5 [] []" "out s5 = out ?s4" using cleanup_ok [OF m4] by blast
  have "game_main rnd (int m) (int n) (int k) game_start = Some s5"
    using s1(1) s2(1) score histories_ok [OF m3] s5(1)
    by (simp add: game_main_def play_game_iterations_def end_game_def Let_def)
  moreover have "out s5 = ?created # map (\<lambda>j. score_text (int j + 1) (throws_of rnd m n k j)) [0..<m] @
      concat (map (\<lambda>j. history_text (int j + 1) (throws_of rnd m n k j)) [0..<m])"
    using s5(3) s2(4) by (simp add: texts_shown s2(3) comp_def)
  ultimately show ?thesis using sums models_empty [OF s5(2)] by blast
qed

section \<open>The program\<close>

lemma char_int_digits: "k < 10 \<Longrightarrow> char_int (char_of (48 + k :: nat)) = 48 + int k"
proof -
  have "\<forall>k \<in> set [0..<10]. char_int (char_of (48 + k :: nat)) = 48 + int k" by code_simp
  then show "k < 10 \<Longrightarrow> ?thesis" by simp
qed

lemma dec_snoc: "10 \<le> n \<Longrightarrow> dec n = dec (n div 10) @ [char_of (48 + n mod 10)]"
  by (simp add: dec_def digits_rev.simps [of n])

lemma dec_digits: "\<forall>c \<in> set (dec n). 48 \<le> char_int c \<and> char_int c \<le> 57"
proof (induction n rule: less_induct)
  case (less n)
  show ?case
  proof (cases "n < 10")
    case False
    then show ?thesis using less [of "n div 10"] char_int_digits [of "n mod 10"] by (simp add: dec_snoc)
  qed (simp add: dec_small char_int_digits)
qed

lemma dec_value: "foldl (\<lambda>v c. 10 * v + (char_int c - 48)) 0 (dec n) = int n"
proof (induction n rule: less_induct)
  case (less n)
  show ?case
  proof (cases "n < 10")
    case False
    then show ?thesis using less [of "n div 10"] char_int_digits [of "n mod 10"] by (simp add: dec_snoc zdiv_int zmod_int)
  qed (simp add: dec_small char_int_digits)
qed

lemma atoi_dec: "n \<le> 2147483647 \<Longrightarrow> atoi (dec n) = Some (int n)"
proof -
  assume n: "n \<le> 2147483647"
  obtain c cs where c: "dec n = c # cs" by (cases "dec n") simp_all
  have d: "48 \<le> char_int c" using dec_digits [of n] c by simp
  moreover have "char_int (CHR '' '') = 32" "char_int (CHR ''-'') = 45" "char_int (CHR ''+'') = 43" by (simp_all add: char_int_def)
  ultimately have "c \<noteq> CHR '' ''" "\<not> char_int c \<le> 13" "c \<noteq> CHR ''-''" "c \<noteq> CHR ''+''" by auto
  then have "atoi (dec n) = c_int (digits_value (dec n))" by (simp add: atoi_def c)
  moreover have "takeWhile (\<lambda>c. 48 \<le> char_int c \<and> char_int c \<le> 57) (dec n) = dec n"
    using dec_digits [of n] by (simp add: takeWhile_eq_all_conv)
  then have "digits_value (dec n) = int n" by (simp only: digits_value_def dec_value)
  ultimately show ?thesis using n by (simp add: c_int_def in_int_def)
qed

text \<open>C20: The program, called with the numbers of dice, players and iterations. With memory for every block it
  runs to its end, prints for each
  player the sum of exactly the dice it threw, in the order of the calls of \<open>rand\<close>, and then
  the dice one by one; every score lies between one and six times the number of dice; and at
  the end every player and every dice has been freed and the list of players is empty.\<close>

theorem game_program_plays:
  assumes "6 * (k * n) \<le> 2147483647" "m \<le> 2147483647" "n \<le> 2147483647" "k \<le> 2147483647"
  shows "\<exists>s'. game_program rnd [''-n'', dec n, ''-p'', dec m, ''-v'', dec k] game_start = Some (0, [], s') \<and>
    out s' = (''game setup: iterations:'' @ show_int (int k) @ '', num_dices: '' @ show_int (int n) @ ''\<newline>'') #
      map (\<lambda>j. score_text (int j + 1) (throws_of rnd m n k j)) [0..<m] @
      concat (map (\<lambda>j. history_text (int j + 1) (throws_of rnd m n k j)) [0..<m]) \<and>
    (\<forall>j. int (k * n) \<le> sum_list (throws_of rnd m n k j) \<and> sum_list (throws_of rnd m n k j) \<le> 6 * int (k * n)) \<and>
    players s' = Map.empty \<and> dices s' = Map.empty \<and> dlist (gnodes s') PlayersList [] \<and> dom (gnodes s') = {PlayersList}"
proof -
  have "read_options (getopt [''-n'', dec n, ''-p'', dec m, ''-v'', dec k]) (0, 0, 0) = Some (Inr (int m, int n, int k))"
    using assms by (simp add: atoi_dec)
  then show ?thesis using game_plays_and_cleans_up [OF assms(1), of rnd m] by (auto simp: game_program_def)
qed

theorem game_program_plays_witness:
  "\<exists>s'. game_program (\<lambda>i. i) [''-n'', dec 3, ''-p'', dec 2, ''-v'', dec 1] game_start = Some (0, [], s') \<and> players s' = Map.empty \<and> dices s' = Map.empty"
  using game_program_plays [of 1 3 2 "\<lambda>i. i"] by auto

text \<open>What happens to other arguments: too few, an option that is unknown or has no argument.\<close>

lemma game_program_few: "length args < 4 \<Longrightarrow> \<exists>s'. game_program rnd args s = Some (- 1, [], s') \<and> players s' = players s"
  by (simp add: game_program_def print_def)

lemma game_program_unknown:
  "c \<notin> set ''npv-'' \<Longrightarrow> 3 \<le> length args \<Longrightarrow>
    \<exists>t. game_program rnd ([CHR ''-'', c] # args) s = Some (1, t, s)"
  by (cases args) (auto simp: game_program_def)

text \<open>The allocations are not tested: the game crashes as soon as one of them fails.\<close>

theorem allocation_failure_faults:
  "goom s = True # bs \<Longrightarrow> append_player_to_game i s = None \<and> player_add_new_dice p v s = None"
  by (simp add: append_player_to_game_def player_add_new_dice_def gmalloc_def)

theorem allocation_failure_faults_witness: "append_player_to_game 1 (game_start\<lparr>goom := [True]\<rparr>) = None"
  using allocation_failure_faults [of "game_start\<lparr>goom := [True]\<rparr>" "[]" 1] by simp

end
