(* ===== verification/Procfs.thy ===== *)
theory Procfs
  imports Prelude
begin

text \<open>
  What the kernel modules' \<^verbatim>\<open>procfs_handler.c\<close> files have in common (\<^verbatim>\<open>task6\<close>, \<^verbatim>\<open>task7\<close>):
  a text of at most 63 characters per file, its length and the position of the reader, in
  arrays indexed by the file. A module's state extends the record \<open>procfs\<close>, so that
  the operations and the lemmas here serve every module. Sizes are 64-bit words; an access
  outside a buffer is \<open>None\<close>.
\<close>

section \<open>State and operations\<close>

type_synonym size_t = "64 word"

definition PROCFS_BUFFER_FORMAT_SIZE :: nat where "PROCFS_BUFFER_FORMAT_SIZE = 64"

text \<open>\<open>sz n\<close> is the \<open>size_t\<close> an \<open>int\<close> becomes.\<close>

abbreviation sz :: "int \<Rightarrow> size_t" where "sz \<equiv> of_int"

record 'p procfs =
  proc_buffer :: "'p \<Rightarrow> string"
  proc_msg_length :: "'p \<Rightarrow> size_t"
  proc_msg_read_pos :: "'p \<Rightarrow> size_t"

text \<open>\<open>snprintf\<close> into an array: the text as far as it fits, and a NUL; the rest of the array stays.\<close>

definition snprintf_into :: "string \<Rightarrow> string \<Rightarrow> string" where
  "snprintf_into buf t = (let u = take (length buf - 1) t @ [NUL] in u @ drop (length u) buf)"

definition strlen :: "string \<Rightarrow> size_t" where
  "strlen buf = of_nat (length (takeWhile (\<lambda>c. c \<noteq> NUL) buf))"

definition show_size :: "size_t \<Rightarrow> string" where
  "show_size n = dec (unat n)"

definition publish :: "'p \<Rightarrow> string \<Rightarrow> ('p, 'a) procfs_scheme \<Rightarrow> ('p, 'a) procfs_scheme" where
  "publish p t s =
     (let s = s\<lparr>proc_buffer := (proc_buffer s)(p := snprintf_into (proc_buffer s p) t)\<rparr> in
      s\<lparr>proc_msg_length := (proc_msg_length s)(p := strlen (proc_buffer s p))\<rparr>)"

text \<open>
  \<open>copy_to_user\<close> of \<open>length\<close> bytes at an offset of an array, to a user who can take \<open>room\<close>
  of them: what arrives, and how many bytes are left over.
\<close>

definition copy_to_user :: "nat \<Rightarrow> char list \<Rightarrow> size_t \<Rightarrow> size_t \<Rightarrow> (char list \<times> size_t) option" where
  "copy_to_user room buf pos len =
     (if unat pos + unat len \<le> length buf
      then let n = min room (unat len) in Some (take n (drop (unat pos) buf), of_nat (unat len - n))
      else None)"

text \<open>
  The common part of every read: at most what is left of the text of \<open>p\<close> is copied, from the
  address the position of \<open>q\<close> gives, and the position of \<open>p\<close> moves on.
\<close>

definition proc_copy :: "'p \<Rightarrow> 'p \<Rightarrow> nat \<Rightarrow> size_t \<Rightarrow> ('p, 'a) procfs_scheme \<Rightarrow> (size_t \<times> char list \<times> ('p, 'a) procfs_scheme) option" where
  "proc_copy p q room len s =
     (let len = (if len > proc_msg_length s p - proc_msg_read_pos s p
                 then proc_msg_length s p - proc_msg_read_pos s p else len) in do {
        (bytes, left) \<leftarrow> copy_to_user room (proc_buffer s p) (proc_msg_read_pos s q) len;
        Some (len - left, bytes, s\<lparr>proc_msg_read_pos := (proc_msg_read_pos s)(p := proc_msg_read_pos s p + (len - left))\<rparr>) })"

text \<open>A read that finds the end of the text goes back to its start.\<close>

definition proc_read :: "'p \<Rightarrow> 'p \<Rightarrow> nat \<Rightarrow> size_t \<Rightarrow> ('p, 'a) procfs_scheme \<Rightarrow> (int \<times> char list \<times> ('p, 'a) procfs_scheme) option" where
  "proc_read p q room len s = do {
     (n, bytes, s) \<leftarrow> proc_copy p q room len s;
     let read_length = sint (ucast n :: 32 word);
     let s = (if read_length = 0 then s\<lparr>proc_msg_read_pos := (proc_msg_read_pos s)(p := 0)\<rparr> else s);
     Some (read_length, bytes, s) }"

section \<open>Sizes\<close>

lemma sint_small:
  assumes "unat (w :: 64 word) < 2 ^ 63"
  shows "sint w = int (unat w)"
proof -
  have "int (unat w) < int (2 ^ 63)" using assms by (simp only: of_nat_less_iff)
  then have "uint w < 2 ^ 63" by simp
  moreover have "- (2 ^ 63) \<le> uint w" by (rule order_trans [OF _ uint_ge_0]) simp
  ultimately have "signed_take_bit 63 (uint w) = uint w" by (intro signed_take_bit_int_eq_self)
  then show ?thesis by (simp add: sint_uint)
qed

lemma unat_sz: "0 \<le> i \<Longrightarrow> i \<le> 2147483647 \<Longrightarrow> unat (sz i) = nat i"
proof -
  assume "0 \<le> i" "i \<le> 2147483647"
  then have "uint (sz i) = i" by (simp add: uint_word_of_int)
  then show ?thesis by (simp add: unat_eq_nat_uint)
qed

lemma unat_small [simp]: "n < 2 ^ 64 \<Longrightarrow> unat (of_nat n :: size_t) = n"
  by (simp add: unat_of_nat)

lemma size_underflow:
  assumes "a < b" "b \<le> 2 ^ 64"
  shows "unat (of_nat a - of_nat b :: size_t) = 2 ^ 64 - (b - a)"
proof -
  have le: "b - a \<le> 2 ^ 64" "0 < b - a" using assms by simp_all
  have "(of_nat (2 ^ 64 - (b - a)) :: size_t) = of_nat (2 ^ 64) - of_nat (b - a)" by (rule of_nat_diff [OF le(1)])
  also have "of_nat (b - a) = (of_nat b - of_nat a :: size_t)" by (rule of_nat_diff) (use assms in simp)
  also have "(of_nat (2 ^ 64) :: size_t) = 0" by simp
  finally have "of_nat a - of_nat b = (of_nat (2 ^ 64 - (b - a)) :: size_t)" by simp
  then show ?thesis by (simp only:) (rule unat_small, use le(2) in simp)
qed

lemma copy_to_user_Some:
  assumes "unat len \<le> length buf" "length buf \<le> 2147483647"
  shows "copy_to_user room buf 0 len = Some (take (min room (unat len)) buf, of_nat (unat len - min room (unat len)))"
    "(of_nat (unat len - min room (unat len)) :: size_t) = 0 \<longleftrightarrow> unat len \<le> room"
proof -
  show "copy_to_user room buf 0 len = Some (take (min room (unat len)) buf, of_nat (unat len - min room (unat len)))"
    using assms(1) by (simp add: copy_to_user_def Let_def)
  have "unat (of_nat (unat len - min room (unat len)) :: size_t) = unat len - min room (unat len)"
    by (rule unat_small, rule le_less_trans [of _ 2147483647]) (use assms in linarith, simp)
  moreover have "(of_nat (unat len - min room (unat len)) :: size_t) = 0 \<longleftrightarrow> unat (of_nat (unat len - min room (unat len)) :: size_t) = 0"
    by (rule unat_eq_zero [symmetric])
  ultimately show "(of_nat (unat len - min room (unat len)) :: size_t) = 0 \<longleftrightarrow> unat len \<le> room"
    by (simp only:) linarith
qed

section \<open>A text that is shown\<close>

text \<open>The file of a parameter shows a text: it starts the array, and its length is recorded.\<close>

definition shows_text :: "'p \<Rightarrow> string \<Rightarrow> ('p, 'a) procfs_scheme \<Rightarrow> bool" where
  "shows_text p t s \<longleftrightarrow> take (length t) (proc_buffer s p) = t \<and> proc_msg_length s p = of_nat (length t) \<and> length t < 64 \<and>
    length (proc_buffer s p) = 64"

lemma publish_shows:
  assumes "length (proc_buffer s p) = 64" "length t < 64" "NUL \<notin> set t"
  shows "shows_text p t (publish p t s)" "proc_msg_read_pos (publish p t s) = proc_msg_read_pos s"
proof -
  have "snprintf_into (proc_buffer s p) t = t @ NUL # drop (Suc (length t)) (proc_buffer s p)"
    using assms(1,2) by (simp add: snprintf_into_def)
  moreover from assms(3) have "takeWhile (\<lambda>c. c \<noteq> NUL) (t @ NUL # r) = t" for r by (induction t) auto
  ultimately show "shows_text p t (publish p t s)"
    using assms(1,2) by (simp add: shows_text_def publish_def Let_def strlen_def)
qed (simp add: publish_def Let_def)

lemma read_length_int: "m < 64 \<Longrightarrow> sint (ucast (of_nat m :: size_t) :: 32 word) = int m"
proof -
  have "\<forall>m \<in> set [0..<64]. sint (ucast (of_nat m :: size_t) :: 32 word) = int m" by code_simp
  then show "m < 64 \<Longrightarrow> ?thesis" by simp
qed

text \<open>The copy of a read: with \<open>k\<close> characters of the text behind it, the rest or as much as is asked for.\<close>

lemma copy_rest:
  assumes "take (length t) buf = t" "length t \<le> length buf" "length t \<le> 4096" "k \<le> length t" "unat len \<le> room"
  defines "m \<equiv> min (unat len) (length t - k)"
  shows "(if len > of_nat (length t) - of_nat k then of_nat (length t) - of_nat k else len) = (of_nat m :: size_t)"
    "copy_to_user room buf (of_nat k) (of_nat m) = Some (take m (drop k t), 0)" "m \<le> 4096"
proof -
  have small: "unat (of_nat j :: size_t) = j" if "j \<le> 4096" for j
    by (rule unat_small, rule le_less_trans [OF that]) simp
  have d: "of_nat (length t) - of_nat k = (of_nat (length t - k) :: size_t)" using assms(4) by (simp add: of_nat_diff)
  have u: "unat (of_nat (length t - k) :: size_t) = length t - k" by (rule small) (use assms(3) in simp)
  show m4096: "m \<le> 4096" using assms(3) by (simp add: m_def)
  have "unat (if len > of_nat (length t - k) then of_nat (length t - k) else len) = m"
    using u unfolding m_def word_less_nat_alt by (cases "length t - k < unat len") (simp_all add: min_def del: of_nat_diff)
  then have "unat (if len > of_nat (length t - k) then of_nat (length t - k) else len) = unat (of_nat m :: size_t)"
    using small [OF m4096] by simp
  then show "(if len > of_nat (length t) - of_nat k then of_nat (length t) - of_nat k else len) = (of_nat m :: size_t)"
    unfolding d by (rule word_unat_eq_iff [THEN iffD2])
  have m: "m \<le> room" "k + m \<le> length t" using assms(4,5) by (auto simp: m_def)
  have k: "unat (of_nat k :: size_t) = k" by (rule small) (use assms(3,4) in simp)
  have "take m (drop k (take (length t) buf)) = take m (drop k buf)"
    using m(2) by (simp add: drop_take min_absorb1 le_diff_conv2)
  then have t: "take m (drop k buf) = take m (drop k t)" using assms(1) by simp
  have in_range: "k + m \<le> length buf" using m(2) assms(2) by linarith
  show "copy_to_user room buf (of_nat k) (of_nat m) = Some (take m (drop k t), 0)"
    unfolding copy_to_user_def k small [OF m4096] Let_def min_absorb2 [OF m(1)] t if_P [OF in_range] by simp
qed

lemma proc_copy_shown:
  assumes "shows_text p t s" "proc_msg_read_pos s p = of_nat k" "k \<le> length t" "unat len \<le> room"
  defines "m \<equiv> min (unat len) (length t - k)"
  shows "proc_copy p p room len s = Some (of_nat m, take m (drop k t),
    s\<lparr>proc_msg_read_pos := (proc_msg_read_pos s)(p := of_nat (k + m))\<rparr>)" "m < 64"
proof -
  have sh: "take (length t) (proc_buffer s p) = t" "length t \<le> length (proc_buffer s p)" "length t \<le> 4096"
    "proc_msg_length s p = of_nat (length t)" "length t < 64" using assms(1) by (simp_all add: shows_text_def)
  note c = copy_rest [OF sh(1-3) assms(3,4), folded m_def]
  show "proc_copy p p room len s = Some (of_nat m, take m (drop k t),
    s\<lparr>proc_msg_read_pos := (proc_msg_read_pos s)(p := of_nat (k + m))\<rparr>)"
    unfolding proc_copy_def Let_def sh(4) assms(2) c(1) by (simp add: c(2))
  show "m < 64" using sh(5) by (simp add: m_def)
qed

section \<open>Reading to the end of a file\<close>

text \<open>A reader who asks for more until there is none, as \<^verbatim>\<open>cat\<close> does; each call may ask for another size.\<close>

fun cat :: "('s \<Rightarrow> (int \<times> char list \<times> 's) option) list \<Rightarrow> 's \<Rightarrow> (string \<times> 's) option" where
  "cat [] s = None"
| "cat (rd # rds) s = do {
     (n, bytes, s) \<leftarrow> rd s;
     if n = 0 then Some ([], s) else do {
       (t, s) \<leftarrow> cat rds s;
       Some (bytes @ t, s) } }"

text \<open>
  What makes a read function one of a file with a text: from each position it gives some of the
  text that follows and moves on, and at the end it says so. \<open>e\<close> is what a call depends on:
  the sizes, and in \<^verbatim>\<open>task7\<close> the time.
\<close>

locale text_file =
  fixes rd :: "'e \<Rightarrow> 's \<Rightarrow> (int \<times> char list \<times> 's) option" and ok :: "'e \<Rightarrow> bool"
    and pos :: "nat \<Rightarrow> 's \<Rightarrow> bool" and fin :: "'s \<Rightarrow> bool" and t :: string
  assumes more: "ok e \<Longrightarrow> pos k s \<Longrightarrow> k < length t \<Longrightarrow>
      \<exists>m s'. rd e s = Some (int m, take m (drop k t), s') \<and> 0 < m \<and> k + m \<le> length t \<and> pos (k + m) s'"
    and eof: "ok e \<Longrightarrow> pos (length t) s \<Longrightarrow> \<exists>s'. rd e s = Some (0, [], s') \<and> fin s'"
begin

lemma cat_rest:
  "list_all ok es \<Longrightarrow> length t - k < length es \<Longrightarrow> pos k s \<Longrightarrow> k \<le> length t \<Longrightarrow>
    \<exists>s'. cat (map rd es) s = Some (drop k t, s') \<and> fin s'"
proof (induction es arbitrary: k s)
  case (Cons e es)
  show ?case
  proof (cases "k = length t")
    case True
    then show ?thesis using eof [of e s] Cons.prems by auto
  next
    case False
    then have "k < length t" using Cons.prems(4) by simp
    with more [of e k s] Cons.prems obtain m s1 where
      m: "rd e s = Some (int m, take m (drop k t), s1)" "0 < m" "k + m \<le> length t" "pos (k + m) s1" by auto
    have "\<exists>s'. cat (map rd es) s1 = Some (drop (k + m) t, s') \<and> fin s'"
      by (rule Cons.IH) (use Cons.prems m in auto)
    moreover have "take m (drop k t) @ drop (k + m) t = drop k t"
      by (metis add.commute append_take_drop_id drop_drop)
    ultimately show ?thesis using m(1,2) by auto
  qed
qed simp

lemma cat_text:
  "list_all ok es \<Longrightarrow> length t < length es \<Longrightarrow> pos 0 s \<Longrightarrow> \<exists>s'. cat (map rd es) s = Some (t, s') \<and> fin s'"
  using cat_rest [of es 0 s] by simp

end

text \<open>Sizes a user may ask for: at least one byte, and no more than there is room for.\<close>

definition sizes_ok :: "nat \<times> size_t \<Rightarrow> bool" where
  "sizes_ok = (\<lambda>(room, len). unat len \<le> room \<and> 0 < unat len)"

definition at_pos :: "'p \<Rightarrow> string \<Rightarrow> ('p, 'a) procfs_scheme \<Rightarrow> nat \<Rightarrow> ('p, 'a) procfs_scheme \<Rightarrow> bool" where
  "at_pos p t s0 k s \<longleftrightarrow> shows_text p t s0 \<and> s = s0\<lparr>proc_msg_read_pos := (proc_msg_read_pos s0)(p := of_nat k)\<rparr>"

lemma at_pos_self: "shows_text p t s \<Longrightarrow> proc_msg_read_pos s p = of_nat k \<Longrightarrow> at_pos p t s k s"
  by (cases s) (auto simp: at_pos_def fun_upd_idem)

lemma at_pos_copy:
  assumes "at_pos p t s0 k s" "k \<le> length t" "sizes_ok (room, len)"
  shows "\<exists>m. proc_copy p p room len s = Some (of_nat m, take m (drop k t),
      s0\<lparr>proc_msg_read_pos := (proc_msg_read_pos s0)(p := of_nat (k + m))\<rparr>) \<and> m < 64 \<and> k + m \<le> length t \<and>
      (m = 0 \<longleftrightarrow> k = length t) \<and> at_pos p t s0 (k + m) (s0\<lparr>proc_msg_read_pos := (proc_msg_read_pos s0)(p := of_nat (k + m))\<rparr>)"
proof -
  from assms(1) have s: "shows_text p t s" "proc_msg_read_pos s p = of_nat k"
    "s\<lparr>proc_msg_read_pos := (proc_msg_read_pos s)(p := x)\<rparr> = s0\<lparr>proc_msg_read_pos := (proc_msg_read_pos s0)(p := x)\<rparr>" for x
    by (auto simp: at_pos_def shows_text_def)
  have len: "unat len \<le> room" "0 < unat len" using assms(3) by (auto simp: sizes_ok_def)
  have "shows_text p t s0" using assms(1) by (simp add: at_pos_def)
  then show ?thesis using proc_copy_shown [OF s(1,2) assms(2) len(1)] len(2) assms(2) unfolding s(3)
    by (intro exI [of _ "min (unat len) (length t - k)"]) (auto simp: at_pos_def)
qed

interpretation shown: text_file "\<lambda>(room, len). proc_read p p room len" sizes_ok "at_pos p t s0"
    "\<lambda>s. s = s0\<lparr>proc_msg_read_pos := (proc_msg_read_pos s0)(p := 0)\<rparr>" t for p t and s0 :: "('p, 'a) procfs_scheme"
proof
  fix e :: "nat \<times> size_t" and k and s :: "('p, 'a) procfs_scheme"
  obtain room len where e: "e = (room, len)" by (cases e)
  assume ok: "sizes_ok e" and at: "at_pos p t s0 k s" and k: "k < length t"
  from at_pos_copy [OF at less_imp_le [OF k], of room len] ok e obtain m where
    "proc_copy p p room len s = Some (of_nat m, take m (drop k t), s0\<lparr>proc_msg_read_pos := (proc_msg_read_pos s0)(p := of_nat (k + m))\<rparr>)"
    "m < 64" "k + m \<le> length t" "m \<noteq> 0" "at_pos p t s0 (k + m) (s0\<lparr>proc_msg_read_pos := (proc_msg_read_pos s0)(p := of_nat (k + m))\<rparr>)"
    using k by auto
  then show "\<exists>m s'. (case e of (room, len) \<Rightarrow> proc_read p p room len) s = Some (int m, take m (drop k t), s') \<and> 0 < m \<and>
      k + m \<le> length t \<and> at_pos p t s0 (k + m) s'"
    using read_length_int [of m] by (simp add: e proc_read_def)
next
  fix e :: "nat \<times> size_t" and s :: "('p, 'a) procfs_scheme"
  obtain room len where e: "e = (room, len)" by (cases e)
  assume ok: "sizes_ok e" and at: "at_pos p t s0 (length t) s"
  from at_pos_copy [OF at order_refl, of room len] ok e
  show "\<exists>s'. (case e of (room, len) \<Rightarrow> proc_read p p room len) s = Some (0, [], s') \<and>
      s' = s0\<lparr>proc_msg_read_pos := (proc_msg_read_pos s0)(p := 0)\<rparr>"
    by (auto simp: proc_read_def)
qed

lemma NUL_not_in_text: "NUL \<notin> set (dec n)" "NUL \<notin> set ''Full buffer: ''" "NUL \<notin> set ''Remaining buffer: ''"
  "NUL \<notin> set ''Messages count: ''" "NUL \<notin> set '' \<newline>''"
  by (simp_all only: NUL_not_in_dec not_False_eq_True) (simp_all add: NUL_def)

lemma length_size: "length (dec (unat (n :: size_t))) \<le> 20"
  proof -
  have "unat n < 2 ^ LENGTH(64)" by (rule unsigned_less)
  then have "unat n < 10 ^ 20" by (rule less_trans) simp
  then show ?thesis by (rule length_dec) simp
qed

end
