(* ===== verification/Messenger.thy ===== *)
theory Messenger
  imports Procfs
begin

text \<open>
  The messenger module of \<^verbatim>\<open>task6\<close>: a character device that keeps one message
  (\<^verbatim>\<open>module_main.c\<close>), three files under \<^verbatim>\<open>/proc\<close> that report on it
  (\<^verbatim>\<open>procfs_handler.c\<close>), and a class attribute that clears it (\<^verbatim>\<open>sysfs_handler.c\<close>).
  Sizes are 64-bit words. An access outside a buffer or through a NULL pointer is \<open>None\<close>.
\<close>

section \<open>State\<close>

datatype param = Total_size | Remaining_size | Messages_count

text \<open>\<open>proc_files\<close> and \<open>proc_root\<close> say which entries under \<^verbatim>\<open>/proc\<close> exist.\<close>

record messenger = "param procfs" +
  memory_buffer_size :: int
  device_memory_buffer :: "char list obj"
  chardev_buffer_rw_holder :: int
  total_messages_count :: size_t
  proc_root :: bool
  proc_files :: "param \<Rightarrow> bool"
  on_received_clear_request_cb :: bool
  chrdev_registered :: bool
  chrdev_added :: bool
  devclass_exists :: bool
  clear_class_exists :: bool

definition messenger_start :: "int \<Rightarrow> messenger" where
  "messenger_start n = \<lparr>proc_buffer = (\<lambda>_. replicate PROCFS_BUFFER_FORMAT_SIZE NUL), proc_msg_length = (\<lambda>_. 0),
     proc_msg_read_pos = (\<lambda>_. 0), memory_buffer_size = n, device_memory_buffer = Absent, chardev_buffer_rw_holder = 0,
     total_messages_count = 0, proc_root = False, proc_files = (\<lambda>_. False), on_received_clear_request_cb = False,
     chrdev_registered = False, chrdev_added = False, devclass_exists = False, clear_class_exists = False\<rparr>"

section \<open>\<^verbatim>\<open>procfs_handler.c\<close>\<close>

definition update_buffer_total_size :: "size_t \<Rightarrow> messenger \<Rightarrow> messenger" where
  "update_buffer_total_size n = publish Total_size (''Full buffer: '' @ show_size n @ '' \<newline>'')"

definition update_remaining_buffer_size :: "size_t \<Rightarrow> messenger \<Rightarrow> messenger" where
  "update_remaining_buffer_size n = publish Remaining_size (''Remaining buffer: '' @ show_size n @ '' \<newline>'')"

definition update_total_messages_count :: "size_t \<Rightarrow> messenger \<Rightarrow> messenger" where
  "update_total_messages_count n = publish Messages_count (''Messages count: '' @ show_size n @ '' \<newline>'')"

text \<open>The read of the remaining size computes its address from the position of the total size.\<close>

definition proc_buffer_total_size_read :: "nat \<Rightarrow> size_t \<Rightarrow> messenger \<Rightarrow> (int \<times> char list \<times> messenger) option" where
  "proc_buffer_total_size_read = proc_read Total_size Total_size"

definition proc_buffer_remaining_size_read :: "nat \<Rightarrow> size_t \<Rightarrow> messenger \<Rightarrow> (int \<times> char list \<times> messenger) option" where
  "proc_buffer_remaining_size_read = proc_read Remaining_size Total_size"

definition proc_total_messages_count_read :: "nat \<Rightarrow> size_t \<Rightarrow> messenger \<Rightarrow> (int \<times> char list \<times> messenger) option" where
  "proc_total_messages_count_read = proc_read Messages_count Messages_count"

text \<open>\<open>mkdir\<close> and \<open>create\<close> say which entries the kernel makes.\<close>

definition initialize_procfs_handler :: "bool \<Rightarrow> (param \<Rightarrow> bool) \<Rightarrow> messenger \<Rightarrow> int \<times> messenger" where
  "initialize_procfs_handler mkdir create s =
     (let s = s\<lparr>proc_root := mkdir\<rparr> in
      if \<not> mkdir then (- EFAULT, s)
      else let s = s\<lparr>proc_files := (proc_files s)(Total_size := create Total_size)\<rparr> in
        if \<not> create Total_size then (- EFAULT, s)
        else let s = s\<lparr>proc_files := (proc_files s)(Remaining_size := create Remaining_size)\<rparr> in
          if \<not> create Remaining_size then (- EFAULT, s)
          else let s = s\<lparr>proc_files := (proc_files s)(Messages_count := create Messages_count)\<rparr> in
            if \<not> create Messages_count then (- EFAULT, s) else (0, s))"

definition cleanup_procfs_entries :: "messenger \<Rightarrow> messenger" where
  "cleanup_procfs_entries s =
     (let s = (if proc_files s Total_size then s\<lparr>proc_files := (proc_files s)(Total_size := False)\<rparr> else s);
          s = (if proc_files s Remaining_size then s\<lparr>proc_files := (proc_files s)(Remaining_size := False)\<rparr> else s);
          s = (if proc_files s Messages_count then s\<lparr>proc_files := (proc_files s)(Messages_count := False)\<rparr> else s) in
      if proc_root s then s\<lparr>proc_root := False\<rparr> else s)"

section \<open>\<^verbatim>\<open>module_main.c\<close>: the device\<close>

text \<open>The bytes behind \<open>device_memory_buffer\<close>; a NULL or stale pointer has none.\<close>

definition device_bytes :: "messenger \<Rightarrow> char list" where
  "device_bytes s = (case device_memory_buffer s of Live buf \<Rightarrow> buf | _ \<Rightarrow> [])"

definition set_device_bytes :: "char list \<Rightarrow> messenger \<Rightarrow> messenger" where
  "set_device_bytes bs s = (case device_memory_buffer s of Live _ \<Rightarrow> s\<lparr>device_memory_buffer := Live bs\<rparr> | _ \<Rightarrow> s)"

definition messenger_chardev_read :: "nat \<Rightarrow> size_t \<Rightarrow> int \<Rightarrow> messenger \<Rightarrow> (int \<times> char list \<times> messenger) option" where
  "messenger_chardev_read room count ppos s =
     (let count = (if count > sz (chardev_buffer_rw_holder s) then sz (chardev_buffer_rw_holder s) else count) in
      if ppos \<noteq> 0 then Some (0, [], s)
      else do {
        (bytes, ret) \<leftarrow> copy_to_user room (device_bytes s) 0 count;
        if ret \<noteq> 0 then Some (- EFAULT, bytes, s)
        else
          let s = s\<lparr>chardev_buffer_rw_holder := 0\<rparr>;
              s = update_remaining_buffer_size (sz (memory_buffer_size s)) s in
          Some (uint count, bytes, s) })"

text \<open>
  \<open>copy_from_user\<close> of \<open>n\<close> bytes over the start of the buffer; \<open>src\<close> are the bytes that can
  be read at the user's address, as far as the length goes. The number is what was not copied and is
  zero bytes instead.
\<close>

definition copy_message_from_user :: "char list \<Rightarrow> nat \<Rightarrow> messenger \<Rightarrow> (nat \<times> messenger) option" where
  "copy_message_from_user src n s =
     (if n \<le> length (device_bytes s)
      then Some (n - length src, set_device_bytes (take n src @ replicate (n - length src) NUL @ drop n (device_bytes s)) s)
      else None)"

definition messenger_chardev_write :: "char list \<Rightarrow> size_t \<Rightarrow> messenger \<Rightarrow> (int \<times> messenger) option" where
  "messenger_chardev_write src len s =
     (let s = s\<lparr>chardev_buffer_rw_holder := sint len\<rparr>;
          s = (if chardev_buffer_rw_holder s > memory_buffer_size s
               then s\<lparr>chardev_buffer_rw_holder := memory_buffer_size s\<rparr> else s) in do {
        (ret, s) \<leftarrow> copy_message_from_user src (unat (sz (chardev_buffer_rw_holder s))) s;
        if ret \<noteq> 0 then Some (- EFAULT, s)
        else
          let s = update_remaining_buffer_size (sz (memory_buffer_size s) - len) s;
              s = s\<lparr>total_messages_count := total_messages_count s + 1\<rparr>;
              s = update_total_messages_count (total_messages_count s) s in
          Some (chardev_buffer_rw_holder s, s) })"

definition cleanup_message_buffer :: "messenger \<Rightarrow> messenger option" where
  "cleanup_message_buffer s =
     (let s = s\<lparr>chardev_buffer_rw_holder := 0\<rparr>;
          n = unat (sz (memory_buffer_size s)) in
      if n \<le> length (device_bytes s) then
        let s = set_device_bytes (replicate n NUL @ drop n (device_bytes s)) s in
        Some (update_remaining_buffer_size (sz (memory_buffer_size s)) s)
      else None)"

definition messenger_devnode :: "nat option \<Rightarrow> nat option" where
  "messenger_devnode mode = (case mode of None \<Rightarrow> None | Some _ \<Rightarrow> Some 438)"

section \<open>\<^verbatim>\<open>sysfs_handler.c\<close>\<close>

definition PROCFS_BUF_LEN :: nat where "PROCFS_BUF_LEN = 10"
definition CLEAR_BUF_ARG :: int where "CLEAR_BUF_ARG = 1"

definition set_on_clear_requested_callback :: "bool \<Rightarrow> messenger \<Rightarrow> messenger" where
  "set_on_clear_requested_callback cb s = s\<lparr>on_received_clear_request_cb := cb\<rparr>"

definition clear_buffer_show :: int where
  "clear_buffer_show = - EIO"

text \<open>\<open>kstrtos32\<close> is the kernel's parser of a number, \<open>None\<close> when the text is none.\<close>

definition clear_buffer_store :: "(string \<Rightarrow> int option) \<Rightarrow> string \<Rightarrow> nat \<Rightarrow> messenger \<Rightarrow> (int \<times> messenger) option" where
  "clear_buffer_store kstrtos32 buf count s =
     (let count = (if count \<ge> PROCFS_BUF_LEN then PROCFS_BUF_LEN - 1 else count);
          proc_buf = takeWhile (\<lambda>c. c \<noteq> NUL) (take count buf);
          clear_buf_int = (case kstrtos32 proc_buf of None \<Rightarrow> 0 | Some v \<Rightarrow> v) in do {
        s \<leftarrow> (if clear_buf_int = CLEAR_BUF_ARG then
               if on_received_clear_request_cb s then cleanup_message_buffer s else Some s
             else Some s);
        Some (int count, s) })"

text \<open>\<open>class_ok\<close> and \<open>file_ret\<close>: whether the class is made, and the result of making the file.\<close>

definition sysfs_handler_init :: "bool \<Rightarrow> int \<Rightarrow> messenger \<Rightarrow> (int \<times> messenger) option" where
  "sysfs_handler_init class_ok file_ret s =
     (if class_ok then Some (file_ret, s\<lparr>clear_class_exists := True\<rparr>) else None)"

definition sysfs_handler_cleanup :: "messenger \<Rightarrow> messenger option" where
  "sysfs_handler_cleanup s = (if clear_class_exists s then Some (s\<lparr>clear_class_exists := False\<rparr>) else None)"

section \<open>\<^verbatim>\<open>module_main.c\<close>: the module\<close>

text \<open>What the kernel answers while the module is loaded; \<open>kmalloc\<close> is the fresh memory, if any.\<close>

record msg_kernel =
  alloc_chrdev_region :: int
  cdev_add :: int
  class_create :: bool
  kmalloc :: "(nat \<Rightarrow> char) option"
  proc_mkdir :: bool
  proc_create :: "param \<Rightarrow> bool"
  clear_class_create :: bool
  class_create_file :: int

definition free_buffer :: "messenger \<Rightarrow> messenger" where
  "free_buffer s = (case device_memory_buffer s of Live _ \<Rightarrow> s\<lparr>device_memory_buffer := Freed\<rparr> | _ \<Rightarrow> s)"

definition chardev_init :: "msg_kernel \<Rightarrow> messenger \<Rightarrow> (int \<times> messenger) option" where
  "chardev_init k s =
     (if alloc_chrdev_region k < 0 then Some (alloc_chrdev_region k, free_buffer s)
      else if cdev_add k < 0 then Some (cdev_add k, free_buffer s)
      else
        let s = s\<lparr>chrdev_registered := True, chrdev_added := True\<rparr> in
        if \<not> class_create k then None
        else
          let s = s\<lparr>devclass_exists := True,
            device_memory_buffer := (case kmalloc k of None \<Rightarrow> Absent
              | Some m \<Rightarrow> Live (map m [0..<unat (sz (memory_buffer_size s))]))\<rparr> in do {
            let s = snd (initialize_procfs_handler (proc_mkdir k) (proc_create k) s);
            (_, s) \<leftarrow> sysfs_handler_init (clear_class_create k) (class_create_file k) s;
            let s = update_buffer_total_size (sz (memory_buffer_size s)) s;
            let s = update_remaining_buffer_size (sz (memory_buffer_size s)) s;
            let s = update_total_messages_count (total_messages_count s) s;
            Some (0, set_on_clear_requested_callback True s) })"

definition chardev_exit :: "messenger \<Rightarrow> messenger option" where
  "chardev_exit s =
     (if devclass_exists s \<and> chrdev_added s \<and> chrdev_registered s then do {
        let s = s\<lparr>devclass_exists := False, chrdev_added := False, chrdev_registered := False\<rparr>;
        s \<leftarrow> sysfs_handler_cleanup s;
        let s = cleanup_procfs_entries s;
        Some (free_buffer s) }
      else None)"

end
