(* ===== verification/MessengerSpec.thy ===== *)
theory MessengerSpec
  imports Messenger
begin

text \<open>
  What the messenger module promises: a message is read back as it was written, the files
  under \<^verbatim>\<open>/proc\<close> read back the text that was published whatever the sizes of the reads, and
  the places where it does not keep the promise.
\<close>

section \<open>The device\<close>

definition device_ok :: "messenger \<Rightarrow> bool" where
  "device_ok s \<longleftrightarrow> (\<exists>buf. device_memory_buffer s = Live buf \<and> int (length buf) = memory_buffer_size s) \<and>
    memory_buffer_size s \<le> 2147483647 \<and> 0 \<le> chardev_buffer_rw_holder s \<and> chardev_buffer_rw_holder s \<le> memory_buffer_size s"

lemma device_publish [simp]:
  "device_memory_buffer (publish p t s) = device_memory_buffer s" "memory_buffer_size (publish p t s) = memory_buffer_size s"
  "chardev_buffer_rw_holder (publish p t s) = chardev_buffer_rw_holder s"
  by (simp_all add: publish_def Let_def)

lemmas update_defs = update_buffer_total_size_def update_remaining_buffer_size_def update_total_messages_count_def

lemma device_okE:
  assumes "device_ok s"
  obtains buf where "device_memory_buffer s = Live buf" "memory_buffer_size s = int (length buf)" "length buf \<le> 2147483647"
    "0 \<le> chardev_buffer_rw_holder s" "chardev_buffer_rw_holder s \<le> int (length buf)"
  using assms by (auto simp: device_ok_def)

text \<open>How much of a write of \<open>len\<close> bytes is kept.\<close>

definition kept :: "messenger \<Rightarrow> size_t \<Rightarrow> nat" where
  "kept s len = min (unat len) (nat (memory_buffer_size s))"

lemma kept_le: "device_ok s \<Longrightarrow> kept s len \<le> 2147483647"
  by (auto simp: kept_def device_ok_def)

lemma unat_kept: "device_ok s \<Longrightarrow> unat (sz (int (kept s len))) = kept s len"
  by (rule trans [OF unat_sz]) (use kept_le [of s len] in auto)

lemma clamp_int: "0 \<le> m \<Longrightarrow> (if m < int n then f m else f (int n)) = f (int (min n (nat m)))"
proof -
  assume "0 \<le> m"
  then have "int (min n (nat m)) = (if m < int n then m else int n)" by (auto simp: min_def le_nat_iff)
  then show ?thesis by simp
qed

lemma write_holder:
  assumes "device_ok s" "unat len < 2 ^ 63"
  shows "(if memory_buffer_size s < sint len then s\<lparr>chardev_buffer_rw_holder := memory_buffer_size s\<rparr>
    else s\<lparr>chardev_buffer_rw_holder := sint len\<rparr>) = s\<lparr>chardev_buffer_rw_holder := int (kept s len)\<rparr>"
proof -
  have "0 \<le> memory_buffer_size s" using assms(1) by (auto simp: device_ok_def)
  from clamp_int [OF this] show ?thesis unfolding sint_small [OF assms(2)] kept_def .
qed

lemma copy_message_from_user_Some:
  "n \<le> length (device_bytes s) \<Longrightarrow> copy_message_from_user src n s =
     Some (n - length src, set_device_bytes (take n src @ replicate (n - length src) NUL @ drop n (device_bytes s)) s)"
  by (simp add: copy_message_from_user_def)

lemma device_okD:
  assumes "device_ok s"
  shows "device_memory_buffer s = Live (device_bytes s)" "memory_buffer_size s = int (length (device_bytes s))"
    "length (device_bytes s) \<le> 2147483647"
  using assms by (auto simp: device_ok_def device_bytes_def)

lemma device_bytes_frame [simp]:
  "device_bytes (s\<lparr>chardev_buffer_rw_holder := h\<rparr>) = device_bytes s"
  "device_bytes (s\<lparr>total_messages_count := c\<rparr>) = device_bytes s"
  "device_bytes (publish p t s) = device_bytes s"
  by (simp_all add: device_bytes_def)

text \<open>A write ends in one of two ways; either way the device stays in order.\<close>

definition written :: "char list \<Rightarrow> nat \<Rightarrow> messenger \<Rightarrow> messenger" where
  "written src n s = s\<lparr>chardev_buffer_rw_holder := int n,
     device_memory_buffer := Live (take n src @ replicate (n - length src) NUL @ drop n (device_bytes s))\<rparr>"

lemma write_eq:
  assumes "device_ok s" "unat len < 2 ^ 63"
  shows "messenger_chardev_write src len s =
    (let s' = written src (kept s len) s in
     if length src < kept s len then Some (- EFAULT, s')
     else Some (int (kept s len), update_total_messages_count (total_messages_count s + 1)
       ((update_remaining_buffer_size (sz (memory_buffer_size s) - len) s')\<lparr>total_messages_count := total_messages_count s + 1\<rparr>)))"
proof -
  note ok = device_okD [OF assms(1)]
  let ?n = "kept s len" and ?s1 = "s\<lparr>chardev_buffer_rw_holder := int (kept s len)\<rparr>"
  have n: "?n \<le> length (device_bytes ?s1)" using ok(2) by (simp add: kept_def)
  have set: "set_device_bytes bs ?s1 = s\<lparr>chardev_buffer_rw_holder := int ?n, device_memory_buffer := Live bs\<rparr>" for bs
    unfolding set_device_bytes_def by (simp add: ok(1))
  have c: "copy_message_from_user src ?n ?s1 = Some (?n - length src, written src ?n s)"
    unfolding copy_message_from_user_Some [OF n] set written_def by simp
  have g: "(?n - length src \<noteq> 0) = (length src < ?n)" by auto
  have h: "chardev_buffer_rw_holder ?s1 = int ?n" by simp
  let ?a = "s\<lparr>chardev_buffer_rw_holder := sint len\<rparr>"
  have e: "(if memory_buffer_size ?a < chardev_buffer_rw_holder ?a
      then ?a\<lparr>chardev_buffer_rw_holder := memory_buffer_size ?a\<rparr> else ?a) = ?s1"
    using write_holder [OF assms] by (simp split: if_split_asm)
  have w: "memory_buffer_size (written src ?n s) = memory_buffer_size s" "chardev_buffer_rw_holder (written src ?n s) = int ?n"
    "total_messages_count (written src ?n s) = total_messages_count s" by (simp_all add: written_def)
  have p: "total_messages_count (publish p t s) = total_messages_count s" for p t s by (simp add: publish_def Let_def)
  show ?thesis
    unfolding messenger_chardev_write_def Let_def e h unat_kept [OF assms(1)] c
    by (simp add: g w p update_defs)
qed

text \<open>How much a read of \<open>count\<close> bytes takes.\<close>

definition taken :: "messenger \<Rightarrow> size_t \<Rightarrow> nat" where
  "taken s count = min (unat count) (nat (chardev_buffer_rw_holder s))"

lemma read_eq:
  assumes "device_ok s"
  shows "messenger_chardev_read room count ppos s = Some
    (if ppos \<noteq> 0 then (0, [], s)
     else if room < taken s count then (- EFAULT, take room (device_bytes s), s)
     else (int (taken s count), take (taken s count) (device_bytes s),
       update_remaining_buffer_size (sz (memory_buffer_size s)) (s\<lparr>chardev_buffer_rw_holder := 0\<rparr>)))"
proof -
  note ok = device_okD [OF assms]
  let ?h = "chardev_buffer_rw_holder s"
  define c where "c = (if count > sz ?h then sz ?h else count)"
  have h: "0 \<le> ?h" "?h \<le> int (length (device_bytes s))" using assms ok by (auto simp: device_ok_def)
  have u: "unat (sz ?h) = nat ?h" by (rule unat_sz) (use h ok in auto)
  have c: "unat c = taken s count"
  proof (cases "count > sz ?h")
    case True
    then have "unat (sz ?h) < unat count" unfolding word_less_nat_alt .
    then show ?thesis using True unfolding u by (simp add: c_def taken_def u)
  next
    case False
    then have "\<not> unat (sz ?h) < unat count" unfolding word_less_nat_alt .
    then show ?thesis using False unfolding u by (simp add: c_def taken_def)
  qed
  have le: "unat c \<le> length (device_bytes s)" using h unfolding c by (simp add: taken_def)
  note cp = copy_to_user_Some [OF le ok(3), of room, unfolded c]
  have ui: "uint c = int (taken s count)" unfolding c [symmetric] by simp
  show ?thesis
    unfolding messenger_chardev_read_def Let_def c_def [symmetric] cp(1) Option.bind.simps case_prod_conv cp(2) ui
    by (cases "room < taken s count") (simp_all add: min_def)
qed

lemma device_ok_update [simp]:
  "device_ok (publish p t s) = device_ok s" "device_ok (s\<lparr>total_messages_count := c\<rparr>) = device_ok s"
  by (simp_all add: device_ok_def)

lemma device_ok_emptied: "device_ok s \<Longrightarrow> device_ok (s\<lparr>chardev_buffer_rw_holder := 0\<rparr>)"
  by (auto simp: device_ok_def)

lemma kept_in_buffer: "device_ok s \<Longrightarrow> kept s len \<le> length (device_bytes s)"
  using device_okD(2) [of s] by (simp add: kept_def)

lemma device_ok_written:
  assumes "device_ok s"
  shows "device_ok (written src (kept s len) s)"
  using device_okD [OF assms] kept_in_buffer [OF assms, of len] by (auto simp: device_ok_def written_def)

lemma cleanup_empties:
  assumes "device_ok s"
  shows "\<exists>s'. cleanup_message_buffer s = Some s' \<and> device_ok s' \<and> chardev_buffer_rw_holder s' = 0 \<and>
    device_bytes s' = replicate (length (device_bytes s)) NUL"
proof -
  note ok = device_okD [OF assms]
  have n: "unat (sz (memory_buffer_size s)) = length (device_bytes s)" unfolding ok(2) by (rule trans [OF unat_sz]) (use ok(3) in auto)
  have "set_device_bytes bs (s\<lparr>chardev_buffer_rw_holder := 0\<rparr>) = s\<lparr>chardev_buffer_rw_holder := 0, device_memory_buffer := Live bs\<rparr>" for bs
    unfolding set_device_bytes_def by (simp add: ok(1))
  then have "cleanup_message_buffer s = Some (update_remaining_buffer_size (sz (memory_buffer_size s))
      (s\<lparr>chardev_buffer_rw_holder := 0, device_memory_buffer := Live (replicate (length (device_bytes s)) NUL)\<rparr>))"
    by (simp add: cleanup_message_buffer_def Let_def n)
  moreover have "device_bytes (s\<lparr>chardev_buffer_rw_holder := 0, device_memory_buffer := Live bs\<rparr>) = bs" for bs
    by (simp add: device_bytes_def)
  ultimately show ?thesis using ok(2,3) by (auto simp: device_ok_def update_defs)
qed

text \<open>C30: No read, write or clear leaves a device out of order that was in order, and none touches memory outside
  the message buffer, whatever the sizes the user asks for and whatever part of his memory can
  be accessed.
\<close>

theorem device_never_faults:
  assumes "device_ok s" "unat len < 2 ^ 63"
  shows "(\<exists>n bytes s'. messenger_chardev_read room count ppos s = Some (n, bytes, s') \<and> device_ok s') \<and>
    (\<exists>n s'. messenger_chardev_write src len s = Some (n, s') \<and> device_ok s') \<and>
    (\<exists>s'. cleanup_message_buffer s = Some s' \<and> device_ok s')"
proof -
  have "\<exists>n bytes s'. messenger_chardev_read room count ppos s = Some (n, bytes, s') \<and> device_ok s'"
    using assms(1) by (simp add: read_eq device_ok_emptied update_defs)
  moreover have "\<exists>n s'. messenger_chardev_write src len s = Some (n, s') \<and> device_ok s'"
    unfolding write_eq [OF assms] Let_def using device_ok_written [OF assms(1)] by (simp add: update_defs)
  moreover have "\<exists>s'. cleanup_message_buffer s = Some s' \<and> device_ok s'" using cleanup_empties [OF assms(1)] by blast
  ultimately show ?thesis by blast
qed

text \<open>C9: A message is read back as it was written, as far as it fits into the buffer; the next read finds
  the end of the file.
\<close>

theorem message_round_trip:
  assumes "device_ok s" "length msg < 2 ^ 63" "length msg \<le> unat count" "length msg \<le> room"
  shows "\<exists>s1 s2 s3. messenger_chardev_write msg (of_nat (length msg)) s = Some (int (min (length msg) (nat (memory_buffer_size s))), s1) \<and>
    messenger_chardev_read room count 0 s1 = Some (int (min (length msg) (nat (memory_buffer_size s))), take (nat (memory_buffer_size s)) msg, s2) \<and>
    messenger_chardev_read room count 0 s2 = Some (0, [], s3)"
proof -
  have l: "unat (of_nat (length msg) :: size_t) = length msg"
    by (rule unat_small, rule less_trans [OF assms(2)]) simp
  have k: "kept s (of_nat (length msg)) = min (length msg) (nat (memory_buffer_size s))" unfolding kept_def l ..
  let ?n = "kept s (of_nat (length msg))"
  have n: "?n \<le> length msg" "take (nat (memory_buffer_size s)) msg = take ?n msg" by (simp_all add: k min_def)
  have "unat (of_nat (length msg) :: size_t) < 2 ^ 63" unfolding l by (rule assms(2))
  note w = write_eq [OF assms(1) this, of msg]
  define s1 where "s1 = update_total_messages_count (total_messages_count s + 1)
    ((update_remaining_buffer_size (sz (memory_buffer_size s) - of_nat (length msg)) (written msg ?n s))
      \<lparr>total_messages_count := total_messages_count s + 1\<rparr>)"
  have w: "messenger_chardev_write msg (of_nat (length msg)) s = Some (int ?n, s1)"
    unfolding w Let_def s1_def using n(1) by simp
  have s1: "device_ok s1" using device_ok_written [OF assms(1)] by (simp add: s1_def update_defs)
  have b: "take ?n (device_bytes s1) = take ?n msg" using n(1) by (simp add: s1_def update_defs written_def device_bytes_def)
  have t: "taken s1 count = ?n" using n(1) assms(3) by (simp add: taken_def s1_def update_defs written_def)
  define s2 where "s2 = update_remaining_buffer_size (sz (memory_buffer_size s1)) (s1\<lparr>chardev_buffer_rw_holder := 0\<rparr>)"
  have r1: "messenger_chardev_read room count 0 s1 = Some (int ?n, take ?n msg, s2)"
    using n(1) assms(4) by (simp add: read_eq [OF s1] t b s2_def)
  have s2: "device_ok s2" using device_ok_emptied [OF s1] by (simp add: s2_def update_defs)
  have t2: "taken s2 count = 0" by (simp add: taken_def s2_def update_defs)
  have "\<exists>s3. messenger_chardev_read room count 0 s2 = Some (0, [], s3)" by (simp add: read_eq [OF s2] t2)
  then show ?thesis using w r1 unfolding k n(2) by blast
qed

text \<open>The device of the witnesses: a buffer of eight bytes.\<close>

definition small_messenger :: messenger where
  "small_messenger = (messenger_start 8)\<lparr>device_memory_buffer := Live (replicate 8 NUL)\<rparr>"

lemma small_messenger_ok: "device_ok small_messenger"
  by (simp add: device_ok_def small_messenger_def messenger_start_def)

lemma device_never_faults_witness:
  "(\<exists>n bytes s'. messenger_chardev_read 4 4 0 small_messenger = Some (n, bytes, s') \<and> device_ok s') \<and>
   (\<exists>n s'. messenger_chardev_write ''hello world'' 11 small_messenger = Some (n, s') \<and> device_ok s') \<and>
   (\<exists>s'. cleanup_message_buffer small_messenger = Some s' \<and> device_ok s')"
  using device_never_faults [OF small_messenger_ok, of 11 4 4 0 "''hello world''"] by simp

lemma message_round_trip_witness:
  "\<exists>s1 s2 s3. messenger_chardev_write ''hello world'' 11 small_messenger = Some (8, s1) \<and>
    messenger_chardev_read 16 16 0 s1 = Some (8, ''hello wo'', s2) \<and>
    messenger_chardev_read 16 16 0 s2 = Some (0, [], s3)"
  using message_round_trip [OF small_messenger_ok, of "''hello world''" 16 16]
  by (simp add: small_messenger_def messenger_start_def)

section \<open>The files under \<^verbatim>\<open>/proc\<close>\<close>

text \<open>The files under \<^verbatim>\<open>/proc\<close> that report the size of the buffer and the number of messages give the
  text last published, number in decimal included, to a reader with a buffer of any size, and
  then start over.
\<close>

theorem proc_file_gives_text:
  assumes "length (proc_buffer s Total_size) = 64" "length (proc_buffer s Messages_count) = 64"
    "proc_msg_read_pos s = (\<lambda>_. 0)" "list_all sizes_ok sizes" "64 \<le> length sizes"
  shows "cat (map (\<lambda>(room, len). proc_buffer_total_size_read room len) sizes) (update_buffer_total_size n s) =
      Some (''Full buffer: '' @ dec (unat n) @ '' \<newline>'', update_buffer_total_size n s) \<and>
    cat (map (\<lambda>(room, len). proc_total_messages_count_read room len) sizes) (update_total_messages_count n s) =
      Some (''Messages count: '' @ dec (unat n) @ '' \<newline>'', update_total_messages_count n s)"
proof -
  have c: "cat (map (\<lambda>(room, len). proc_read p p room len) sizes) (publish p t s) = Some (t, publish p t s)"
    if "length (proc_buffer s p) = 64" "length t < 64" "NUL \<notin> set t" for p t
  proof -
    note pub = publish_shows [OF that]
    have z: "(publish p t s)\<lparr>proc_msg_read_pos := (proc_msg_read_pos (publish p t s))(p := 0)\<rparr> = publish p t s"
      by (rule trans [OF _ messenger.surjective [symmetric]]) (simp add: pub(2) assms(3) fun_upd_idem)
    then have "at_pos p t (publish p t s) 0 (publish p t s)" using pub(1) by (simp add: at_pos_def)
    from shown.cat_text [OF assms(4) _ this] that(2) assms(5) show ?thesis by (simp add: z)
  qed
  have "cat (map (\<lambda>(room, len). proc_buffer_total_size_read room len) sizes) (update_buffer_total_size n s) =
      Some (''Full buffer: '' @ dec (unat n) @ '' \<newline>'', update_buffer_total_size n s)"
    unfolding proc_buffer_total_size_read_def update_defs show_size_def
    by (rule c [OF assms(1)]) (use length_size [of n] NUL_not_in_text in auto)
  moreover have "cat (map (\<lambda>(room, len). proc_total_messages_count_read room len) sizes) (update_total_messages_count n s) =
      Some (''Messages count: '' @ dec (unat n) @ '' \<newline>'', update_total_messages_count n s)"
    unfolding proc_total_messages_count_read_def update_defs show_size_def
    by (rule c [OF assms(2)]) (use length_size [of n] NUL_not_in_text in auto)
  ultimately show ?thesis ..
qed

lemma proc_file_gives_text_witness:
  "cat (map (\<lambda>(room, len). proc_buffer_total_size_read room len) (replicate 64 (5, 5))) (update_buffer_total_size 1024 small_messenger) =
      Some (''Full buffer: 1024 \<newline>'', update_buffer_total_size 1024 small_messenger) \<and>
   cat (map (\<lambda>(room, len). proc_total_messages_count_read room len) (replicate 64 (3, 3))) (update_total_messages_count 7 small_messenger) =
      Some (''Messages count: 7 \<newline>'', update_total_messages_count 7 small_messenger)"
proof -
  have d: "dec (unat (1024 :: size_t)) = ''1024''" "dec (unat (7 :: size_t)) = ''7''" by code_simp+
  have s: "length (proc_buffer small_messenger p) = 64" "proc_msg_read_pos small_messenger = (\<lambda>_. 0)" for p
    by (simp_all add: small_messenger_def messenger_start_def PROCFS_BUFFER_FORMAT_SIZE_def)
  have z: "list_all sizes_ok (replicate 64 (5, 5))" "list_all sizes_ok (replicate 64 (3, 3))" "64 \<le> length (replicate 64 x)" for x :: "nat \<times> size_t"
    by (simp_all add: list_all_iff sizes_ok_def)
  show ?thesis
    using proc_file_gives_text [OF s(1) s(1) s(2) z(1,3), of 1024, unfolded d]
      proc_file_gives_text [OF s(1) s(1) s(2) z(2,3), of 7, unfolded d]
    by (intro conjI) (simp_all only: append.simps)
qed

text \<open>The file of the remaining size takes its address from the position of the file of the total size: a
  reader whose buffer is smaller than the text sees its start again and again, and a position
  left in the other file shifts what is read.
\<close>

theorem remaining_size_misread:
  "map_option fst (cat (replicate 64 (proc_buffer_remaining_size_read 12 12)) (update_remaining_buffer_size 8 small_messenger)) =
     Some ''Remaining buRemaining''"
  by code_simp

text \<open>A message longer than the buffer makes the remaining size, published as the difference of the two lengths, wrap
  around: the file shows a number near \<open>2 ^ 64\<close>.
\<close>

theorem remaining_size_wraps:
  assumes "device_ok s" "length (proc_buffer s Remaining_size) = 64" "unat len < 2 ^ 63"
    "memory_buffer_size s < int (unat len)" "unat len \<le> length src"
  shows "\<exists>s'. messenger_chardev_write src len s = Some (memory_buffer_size s, s') \<and>
    shows_text Remaining_size (''Remaining buffer: '' @ dec (2 ^ 64 - (unat len - nat (memory_buffer_size s))) @ '' \<newline>'') s'"
proof -
  note ok = device_okD [OF assms(1)]
  define b where "b = length (device_bytes s)"
  have m: "memory_buffer_size s = int b" "b < unat len" using ok(2) assms(4) unfolding b_def by (simp_all only: of_nat_less_iff)
  have k: "kept s len = b" using m by (simp add: kept_def)
  let ?n = "sz (memory_buffer_size s) - len"
  have "unat len \<le> 2 ^ 64" by (rule less_imp_le, rule less_trans [OF assms(3)]) simp
  from size_underflow [OF m(2) this] have n: "unat ?n = 2 ^ 64 - (unat len - b)" using m(1) by simp
  have "shows_text Remaining_size (''Remaining buffer: '' @ dec (unat ?n) @ '' \<newline>'') (update_remaining_buffer_size ?n (written src b s))"
    unfolding update_defs show_size_def
    by (rule publish_shows(1)) (use length_size [of ?n] NUL_not_in_text assms(2) in \<open>auto simp: written_def\<close>)
  then have "shows_text Remaining_size (''Remaining buffer: '' @ dec (unat ?n) @ '' \<newline>'')
     (update_total_messages_count (total_messages_count s + 1)
       ((update_remaining_buffer_size ?n (written src b s))\<lparr>total_messages_count := total_messages_count s + 1\<rparr>))"
    by (simp add: update_defs shows_text_def publish_def Let_def)
  moreover have "\<not> length src < b" using assms(5) m(2) by linarith
  ultimately show ?thesis unfolding write_eq [OF assms(1,3)] Let_def k n by (simp add: m)
qed

lemma remaining_size_wraps_witness:
  "\<exists>s'. messenger_chardev_write ''hello world'' 11 small_messenger = Some (8, s') \<and>
    shows_text Remaining_size ''Remaining buffer: 18446744073709551613 \<newline>'' s'"
proof -
  have "dec 18446744073709551613 = ''18446744073709551613''" by (simp add: dec_def digits_rev.simps, code_simp)
  then show ?thesis using remaining_size_wraps [OF small_messenger_ok, of 11 "''hello world''"]
    by (simp add: small_messenger_def messenger_start_def PROCFS_BUFFER_FORMAT_SIZE_def)
qed

section \<open>Loading and unloading\<close>

text \<open>What the module holds of the kernel's.\<close>

definition holds_nothing :: "messenger \<Rightarrow> bool" where
  "holds_nothing s \<longleftrightarrow> (\<forall>b. device_memory_buffer s \<noteq> Live b) \<and> \<not> chrdev_registered s \<and> \<not> chrdev_added s \<and>
    \<not> devclass_exists s \<and> \<not> clear_class_exists s \<and> \<not> proc_root s \<and> proc_files s = (\<lambda>_. False)"

lemma initialize_procfs_frame [simp]:
  "device_memory_buffer (snd (initialize_procfs_handler m c s)) = device_memory_buffer s"
  "memory_buffer_size (snd (initialize_procfs_handler m c s)) = memory_buffer_size s"
  "chardev_buffer_rw_holder (snd (initialize_procfs_handler m c s)) = chardev_buffer_rw_holder s"
  "devclass_exists (snd (initialize_procfs_handler m c s)) = devclass_exists s"
  "chrdev_added (snd (initialize_procfs_handler m c s)) = chrdev_added s"
  "chrdev_registered (snd (initialize_procfs_handler m c s)) = chrdev_registered s"
  "clear_class_exists (snd (initialize_procfs_handler m c s)) = clear_class_exists s"
  by (simp_all add: initialize_procfs_handler_def Let_def)

lemma cleanup_procfs_frame:
  "cleanup_procfs_entries s = s\<lparr>proc_root := False, proc_files := (\<lambda>_. False)\<rparr>"
proof -
  have "f = (\<lambda>_. False)" if "\<not> f Total_size" "\<not> f Remaining_size" "\<not> f Messages_count" for f
  proof
    fix p show "f p = False" using that by (cases p) auto
  qed
  note this [intro]
  have f: "(if f Total_size then f(Total_size := False) else f) Total_size = False" for f by simp
  let ?a = "\<lambda>p s. (if proc_files s p then s\<lparr>proc_files := (proc_files s)(p := False)\<rparr> else s)"
  have a: "?a p s = s\<lparr>proc_files := (proc_files s)(p := False)\<rparr>" for p s
    by (cases "proc_files s p") (auto simp: fun_upd_idem)
  have "cleanup_procfs_entries s = s\<lparr>proc_files := (proc_files s)(Total_size := False, Remaining_size := False, Messages_count := False), proc_root := False\<rparr>"
    unfolding cleanup_procfs_entries_def Let_def a by simp
  moreover have "(proc_files s)(Total_size := False, Remaining_size := False, Messages_count := False) = (\<lambda>_. False)" by auto
  ultimately show ?thesis by simp
qed

lemma publish_frame [simp]:
  "devclass_exists (publish p t s) = devclass_exists s"
  "chrdev_added (publish p t s) = chrdev_added s"
  "chrdev_registered (publish p t s) = chrdev_registered s"
  "clear_class_exists (publish p t s) = clear_class_exists s"
  by (simp_all add: publish_def Let_def)

text \<open>The state a loaded module starts from, and that unloading gives everything back.\<close>

lemma load_success:
  assumes "chardev_init k s = Some (r, s')" "\<not> alloc_chrdev_region k < 0" "\<not> cdev_add k < 0"
  shows "r = 0 \<and> devclass_exists s' \<and> chrdev_added s' \<and> chrdev_registered s' \<and> clear_class_exists s' \<and>
    memory_buffer_size s' = memory_buffer_size s \<and> chardev_buffer_rw_holder s' = chardev_buffer_rw_holder s \<and>
    device_memory_buffer s' = (case kmalloc k of None \<Rightarrow> Absent | Some m \<Rightarrow> Live (map m [0..<unat (sz (memory_buffer_size s))]))"
proof -
  from assms show ?thesis
    by (cases "kmalloc k")
      (auto simp: chardev_init_def Let_def sysfs_handler_init_def set_on_clear_requested_callback_def update_defs split: if_splits)
qed

text \<open>Loading the module either fails and leaves nothing behind, or what it took is given back when it
  is removed: the numbers of the device, its class, the class of the attribute, the directory and
  the files under \<^verbatim>\<open>/proc\<close>, and the buffer.
\<close>

theorem load_unload:
  assumes "chardev_init k (messenger_start n) = Some (r, s)"
  shows "if r < 0 then holds_nothing s else \<exists>s'. chardev_exit s = Some s' \<and> holds_nothing s'"
proof (cases "alloc_chrdev_region k < 0 \<or> cdev_add k < 0")
  case True
  moreover have "free_buffer (messenger_start n) = messenger_start n" by (simp add: free_buffer_def messenger_start_def)
  ultimately have "r < 0" "s = messenger_start n" using assms
    by (cases "alloc_chrdev_region k < 0"; simp add: chardev_init_def)+
  then show ?thesis by (simp add: holds_nothing_def messenger_start_def)
next
  case False
  with load_success [OF assms] have "r = 0" "devclass_exists s" "chrdev_added s" "chrdev_registered s" "clear_class_exists s" by auto
  then show ?thesis
    by (auto simp: chardev_exit_def Let_def sysfs_handler_cleanup_def cleanup_procfs_frame free_buffer_def holds_nothing_def split: obj.splits)
qed

lemma load_unload_witness:
  defines "k \<equiv> \<lparr>alloc_chrdev_region = 0, cdev_add = 0, class_create = True, kmalloc = Some (\<lambda>_. NUL), proc_mkdir = True,
    proc_create = (\<lambda>_. True), clear_class_create = True, class_create_file = 0\<rparr>"
  shows "\<exists>s s'. chardev_init k (messenger_start 16) = Some (0, s) \<and> chardev_exit s = Some s' \<and> holds_nothing s'"
proof -
  have "\<exists>s. chardev_init k (messenger_start 16) = Some (0, s)"
    by (simp add: k_def chardev_init_def Let_def sysfs_handler_init_def)
  then obtain s where "chardev_init k (messenger_start 16) = Some (0, s)" ..
  with load_unload [OF this] show ?thesis by auto
qed

lemma load_ok:
  assumes "chardev_init k (messenger_start n) = Some (r, s)" "\<not> alloc_chrdev_region k < 0" "\<not> cdev_add k < 0"
    "kmalloc k = Some m" "0 \<le> n" "n \<le> 2147483647"
  shows "device_ok s"
  using load_success [OF assms(1-3)] assms(4-6) unat_sz [OF assms(5,6)]
  by (auto simp: device_ok_def messenger_start_def)

section \<open>The attribute that clears\<close>

lemma clear_attribute_empties:
  assumes "device_ok s" "on_received_clear_request_cb s" "kstrtos32 (takeWhile (\<lambda>c. c \<noteq> NUL) (take (min count 9) buf)) = Some 1"
  shows "\<exists>s'. clear_buffer_store kstrtos32 buf count s = Some (int (min count 9), s') \<and>
    chardev_buffer_rw_holder s' = 0 \<and> device_bytes s' = replicate (length (device_bytes s)) NUL"
proof -
  have "(if PROCFS_BUF_LEN \<le> count then PROCFS_BUF_LEN - 1 else count) = min count 9" by (auto simp: PROCFS_BUF_LEN_def)
  then show ?thesis using assms(2,3) cleanup_empties [OF assms(1)] by (auto simp: clear_buffer_store_def Let_def CLEAR_BUF_ARG_def)
qed

end
