(* ===== verification/TimeTrack.thy ===== *)
theory TimeTrack
  imports Procfs
begin

text \<open>
  The time module of \<^verbatim>\<open>task7\<close>: two files under \<^verbatim>\<open>/proc\<close> that report the time of day and the
  time since the files were last used (\<^verbatim>\<open>procfs_handler.c\<close>), formatted by \<^verbatim>\<open>module_main.c\<close> from
  the clocks of \<^verbatim>\<open>timer_track_module.c\<close>, an attribute that selects the format
  (\<^verbatim>\<open>sysfs_handler.c\<close>), and a timer that draws random numbers (\<^verbatim>\<open>random_timer_handler.c\<close>).
  A call that reads a clock takes the instant it runs at.
\<close>

section \<open>State\<close>

record tm =
  tm_hour :: int
  tm_min :: int
  tm_sec :: int

text \<open>What the clocks show at an instant, and what the kernel computes with times.\<close>

record instant =
  jiffies :: "64 word"
  real_seconds :: int

record time_kernel =
  HZ :: "32 word"
  time64_to_tm :: "int \<Rightarrow> tm"
  msecs_to_jiffies :: "32 word \<Rightarrow> 64 word"

datatype display_time_mode = passed_seconds | full_time_display | display_time_mode_enum_end

datatype time_param = Absolute_time | Last_used_time

text \<open>
  \<open>ready_read\<close> is the static variable of \<^verbatim>\<open>proc_buffer_last_accessed_read\<close>; a callback pointer
  is whether it is set, since each is set to one function only; \<open>random_log\<close> are the numbers
  the random handler printed; \<open>timer_expires\<close> is the instant of the pending timer.
\<close>

record time_track = "time_param procfs" +
  current_displaying_mode :: display_time_mode
  current_time :: tm
  timestamp_measure_begin :: "32 word"
  ready_read :: bool
  procfs_entry_used_cb :: bool
  procfs_request_absolute_time_callback :: bool
  on_received_mode_change_request_cb :: bool
  new_random_ready :: bool
  rand_min :: "32 word"
  rand_max :: "32 word"
  timer_period :: "32 word"
  timer_expires :: "64 word option"
  random_log :: "int list"
  proc_dir_time_module_root :: bool
  time_files :: "time_param \<Rightarrow> bool"
  display_mode_class :: bool

definition time_track_start :: time_track where
  "time_track_start = \<lparr>proc_buffer = (\<lambda>_. replicate PROCFS_BUFFER_FORMAT_SIZE NUL), proc_msg_length = (\<lambda>_. 0),
     proc_msg_read_pos = (\<lambda>_. 0), current_displaying_mode = passed_seconds,
     current_time = \<lparr>tm_hour = 0, tm_min = 0, tm_sec = 0\<rparr>, timestamp_measure_begin = 0, ready_read = True,
     procfs_entry_used_cb = False, procfs_request_absolute_time_callback = False, on_received_mode_change_request_cb = False,
     new_random_ready = False, rand_min = 0, rand_max = 5, timer_period = 1, timer_expires = None, random_log = [],
     proc_dir_time_module_root = False, time_files = (\<lambda>_. False), display_mode_class = False\<rparr>"

section \<open>\<^verbatim>\<open>timer_track_module.c\<close>\<close>

definition timer_handler_get_absolute_time_value :: "time_kernel \<Rightarrow> instant \<Rightarrow> time_track \<Rightarrow> tm \<times> time_track" where
  "timer_handler_get_absolute_time_value k now s =
     (let s = s\<lparr>current_time := time64_to_tm k (real_seconds now)\<rparr> in (current_time s, s))"

text \<open>The division is one of unsigned 32-bit numbers.\<close>

definition timer_handler_get_seconds_last_used_value :: "time_kernel \<Rightarrow> instant \<Rightarrow> time_track \<Rightarrow> int" where
  "timer_handler_get_seconds_last_used_value k now s =
     (let current_jiffies = ucast (jiffies now) in sint ((current_jiffies - timestamp_measure_begin s) div HZ k))"

definition timer_handler_get_last_used_as_tm :: "time_kernel \<Rightarrow> instant \<Rightarrow> time_track \<Rightarrow> tm" where
  "timer_handler_get_last_used_as_tm k now s = time64_to_tm k (timer_handler_get_seconds_last_used_value k now s)"

definition init_timer_module :: "instant \<Rightarrow> time_track \<Rightarrow> time_track" where
  "init_timer_module now s = s\<lparr>timestamp_measure_begin := ucast (jiffies now)\<rparr>"

definition timer_handler_refresh_last_used_time :: "instant \<Rightarrow> time_track \<Rightarrow> time_track" where
  "timer_handler_refresh_last_used_time now s = s\<lparr>timestamp_measure_begin := ucast (jiffies now)\<rparr>"

section \<open>\<^verbatim>\<open>module_main.c\<close>: formats\<close>

text \<open>The conversions \<open>%d\<close> and \<open>%u\<close> of a 32-bit argument.\<close>

definition show_d :: "32 word \<Rightarrow> string" where
  "show_d w = show_int (sint w)"

definition show_u :: "int \<Rightarrow> string" where
  "show_u i = dec (unat (of_int i :: 32 word))"

definition format_procfs_passed_seconds :: "time_kernel \<Rightarrow> instant \<Rightarrow> time_track \<Rightarrow> time_track" where
  "format_procfs_passed_seconds k now s =
     (let seconds_since_last_use = of_int (timer_handler_get_seconds_last_used_value k now s) in
      publish Last_used_time (''Seconds since last procfs use: '' @ show_d seconds_since_last_use @ '' \<newline>'') s)"

definition format_procfs_passed_fulldate :: "time_kernel \<Rightarrow> instant \<Rightarrow> time_track \<Rightarrow> time_track" where
  "format_procfs_passed_fulldate k now s =
     (let fill_up = timer_handler_get_last_used_as_tm k now s in
      publish Last_used_time (''Full date last procfs use: '' @ show_u (tm_hour fill_up) @ '':'' @
        show_u (tm_min fill_up) @ '':'' @ show_u (tm_sec fill_up) @ '' \<newline>'') s)"

definition procfs_entry_has_been_used_handler :: "time_kernel \<Rightarrow> instant \<Rightarrow> time_track \<Rightarrow> time_track" where
  "procfs_entry_has_been_used_handler k now s =
     timer_handler_refresh_last_used_time now (case current_displaying_mode s of
       passed_seconds \<Rightarrow> format_procfs_passed_seconds k now s
     | full_time_display \<Rightarrow> format_procfs_passed_fulldate k now s
     | display_time_mode_enum_end \<Rightarrow> s)"

definition time_text :: "tm \<Rightarrow> string" where
  "time_text t = ''Absolute time: '' @ show_u (tm_hour t) @ '':'' @ show_u (tm_min t) @ '':'' @ show_u (tm_sec t) @ '' \<newline>''"

definition procfs_entry_request_absolut_time_handler :: "time_kernel \<Rightarrow> instant \<Rightarrow> time_track \<Rightarrow> time_track" where
  "procfs_entry_request_absolut_time_handler k now s =
     (let (absolute_time, s) = timer_handler_get_absolute_time_value k now s in
      publish Absolute_time (time_text absolute_time) s)"

definition displaying_mode_changed_handler :: "display_time_mode \<Rightarrow> time_track \<Rightarrow> time_track" where
  "displaying_mode_changed_handler new_mode s = s\<lparr>current_displaying_mode := new_mode\<rparr>"

definition new_random_value_generated_handler :: "int \<Rightarrow> time_track \<Rightarrow> time_track" where
  "new_random_value_generated_handler random_value s = s\<lparr>random_log := random_log s @ [random_value]\<rparr>"

section \<open>\<^verbatim>\<open>procfs_handler.c\<close>\<close>

definition emit_event_procfs_entry_used :: "time_kernel \<Rightarrow> instant \<Rightarrow> time_track \<Rightarrow> time_track" where
  "emit_event_procfs_entry_used k now s =
     (if procfs_entry_used_cb s then procfs_entry_has_been_used_handler k now s else s)"

definition emit_procfs_absolute_time_request :: "time_kernel \<Rightarrow> instant \<Rightarrow> time_track \<Rightarrow> time_track" where
  "emit_procfs_absolute_time_request k now s =
     (if procfs_request_absolute_time_callback s then procfs_entry_request_absolut_time_handler k now s else s)"

definition proc_buffer_absolute_time_read ::
    "time_kernel \<Rightarrow> instant \<Rightarrow> nat \<Rightarrow> size_t \<Rightarrow> time_track \<Rightarrow> (int \<times> char list \<times> time_track) option" where
  "proc_buffer_absolute_time_read k now room len s =
     (let s = emit_procfs_absolute_time_request k now s;
          s = emit_event_procfs_entry_used k now s in
      proc_read Absolute_time Absolute_time room len s)"

definition proc_buffer_last_accessed_read ::
    "time_kernel \<Rightarrow> instant \<Rightarrow> nat \<Rightarrow> size_t \<Rightarrow> time_track \<Rightarrow> (int \<times> char list \<times> time_track) option" where
  "proc_buffer_last_accessed_read k now room len s =
     (let s = (if ready_read s then
                 let s = emit_event_procfs_entry_used k now s;
                     s = s\<lparr>ready_read := False\<rparr> in
                 s\<lparr>proc_msg_read_pos := (proc_msg_read_pos s)(Last_used_time := 0)\<rparr>
               else s) in do {
        (n, bytes, s) \<leftarrow> proc_copy Last_used_time Last_used_time room len s;
        let read_length = sint (ucast n :: 32 word);
        let s = (if read_length = 0 then s\<lparr>ready_read := True\<rparr> else s);
        Some (read_length, bytes, s) })"

definition init_procfs_handler :: "bool \<Rightarrow> (time_param \<Rightarrow> bool) \<Rightarrow> time_track \<Rightarrow> int \<times> time_track" where
  "init_procfs_handler mkdir create s =
     (let s = s\<lparr>proc_dir_time_module_root := mkdir\<rparr> in
      if \<not> mkdir then (- EFAULT, s)
      else let s = s\<lparr>time_files := (time_files s)(Absolute_time := create Absolute_time)\<rparr> in
        if \<not> create Absolute_time then (- EFAULT, s)
        else let s = s\<lparr>time_files := (time_files s)(Last_used_time := create Last_used_time)\<rparr> in
          if \<not> create Last_used_time then (- EFAULT, s) else (0, s))"

definition cleanup_procfs_handler :: "time_track \<Rightarrow> time_track" where
  "cleanup_procfs_handler s =
     (let s = (if time_files s Absolute_time then s\<lparr>time_files := (time_files s)(Absolute_time := False)\<rparr> else s);
          s = (if time_files s Last_used_time then s\<lparr>time_files := (time_files s)(Last_used_time := False)\<rparr> else s) in
      if proc_dir_time_module_root s then s\<lparr>proc_dir_time_module_root := False\<rparr> else s)"

section \<open>\<^verbatim>\<open>sysfs_handler.c\<close>\<close>

definition MODE_BUF_LEN :: nat where "MODE_BUF_LEN = 10"

definition display_mode_show :: int where
  "display_mode_show = - EIO"

text \<open>\<open>kstrtos32\<close> is the kernel's parser of a number, \<open>None\<close> when the text is none.\<close>

definition display_mode_store :: "(string \<Rightarrow> int option) \<Rightarrow> string \<Rightarrow> nat \<Rightarrow> time_track \<Rightarrow> int \<times> time_track" where
  "display_mode_store kstrtos32 buf count s =
     (let count = (if count \<ge> MODE_BUF_LEN then MODE_BUF_LEN - 1 else count);
          mode_buf = takeWhile (\<lambda>c. c \<noteq> NUL) (take count buf);
          display_option_value = (case kstrtos32 mode_buf of None \<Rightarrow> 0 | Some v \<Rightarrow> v);
          displaying_mode = (if display_option_value = 1 then full_time_display
            else if display_option_value = 0 then passed_seconds else display_time_mode_enum_end);
          s = (if displaying_mode \<noteq> display_time_mode_enum_end \<and> on_received_mode_change_request_cb s
               then displaying_mode_changed_handler displaying_mode s else s) in
      (int count, s))"

definition sysfs_mode_init :: "bool \<Rightarrow> int \<Rightarrow> time_track \<Rightarrow> (int \<times> time_track) option" where
  "sysfs_mode_init class_ok file_ret s =
     (if class_ok then Some (file_ret, s\<lparr>display_mode_class := True\<rparr>) else None)"

definition sysfs_mode_cleanup :: "time_track \<Rightarrow> time_track option" where
  "sysfs_mode_cleanup s = (if display_mode_class s then Some (s\<lparr>display_mode_class := False\<rparr>) else None)"

section \<open>\<^verbatim>\<open>random_timer_handler.c\<close>\<close>

text \<open>\<open>msecs_to_jiffies((timer_period)*1000)\<close>: the product wraps around.\<close>

definition secs_to_jiffies :: "time_kernel \<Rightarrow> 32 word \<Rightarrow> 64 word" where
  "secs_to_jiffies k secs = msecs_to_jiffies k (secs * 1000)"

definition mod_timer :: "time_kernel \<Rightarrow> instant \<Rightarrow> time_track \<Rightarrow> time_track" where
  "mod_timer k now s = s\<lparr>timer_expires := Some (jiffies now + secs_to_jiffies k (timer_period s))\<rparr>"

text \<open>\<open>rnd\<close> is what \<open>get_random_bytes\<close> puts into the variable.\<close>

definition random_timer_callback :: "time_kernel \<Rightarrow> instant \<Rightarrow> 32 word \<Rightarrow> time_track \<Rightarrow> time_track option" where
  "random_timer_callback k now rnd s =
     (if rand_max s - rand_min s + 1 = 0 then None
      else let random_value = rnd mod (rand_max s - rand_min s + 1) + rand_min s;
               s = (if new_random_ready s then new_random_value_generated_handler (sint random_value) s else s) in
        Some (mod_timer k now s))"

definition init_random_timer :: "time_kernel \<Rightarrow> instant \<Rightarrow> time_track \<Rightarrow> time_track" where
  "init_random_timer k now s = mod_timer k now s"

definition deinit_random_timer :: "time_track \<Rightarrow> time_track" where
  "deinit_random_timer s = s\<lparr>timer_expires := None\<rparr>"

section \<open>\<^verbatim>\<open>module_main.c\<close>: the module\<close>

text \<open>The parameters say what the kernel makes of the class, its file, the directory and the files.\<close>

definition time_track_module_init ::
    "time_kernel \<Rightarrow> instant \<Rightarrow> bool \<Rightarrow> int \<Rightarrow> bool \<Rightarrow> (time_param \<Rightarrow> bool) \<Rightarrow> time_track \<Rightarrow> (int \<times> time_track) option" where
  "time_track_module_init k now class_ok file_ret mkdir create s = do {
     (_, s) \<leftarrow> sysfs_mode_init class_ok file_ret s;
     let s = snd (init_procfs_handler mkdir create s);
     let s = init_timer_module now s;
     let s = init_random_timer k now s;
     let s = s\<lparr>on_received_mode_change_request_cb := True\<rparr>;
     let s = s\<lparr>new_random_ready := True\<rparr>;
     let s = s\<lparr>procfs_entry_used_cb := True\<rparr>;
     let s = s\<lparr>procfs_request_absolute_time_callback := True\<rparr>;
     Some (0, s) }"

definition time_track_module_exit :: "time_track \<Rightarrow> time_track option" where
  "time_track_module_exit s = do {
     let s = deinit_random_timer s;
     let s = cleanup_procfs_handler s;
     sysfs_mode_cleanup s }"

end
