(* ===== verification/TimeTrackSpec.thy ===== *)
theory TimeTrackSpec
  imports TimeTrack
begin

text \<open>
  What the time module promises: the file of the last use reads as one text although the time
  goes on between the calls that read it, and measures rightly across the wrap-around of
  \<^verbatim>\<open>jiffies\<close>; the random numbers lie in their range. The file of the time of day does not keep the promise: its
  text changes under the reader.
\<close>

section \<open>Effects on the files\<close>

lemma publish_other [simp]:
  "p \<noteq> q \<Longrightarrow> proc_buffer (publish q t s) p = proc_buffer s p"
  "p \<noteq> q \<Longrightarrow> proc_msg_length (publish q t s) p = proc_msg_length s p"
  by (simp_all add: publish_def Let_def)

lemma publish_length [simp]: "0 < length (proc_buffer s q) \<Longrightarrow> length (proc_buffer (publish q t s) p) = length (proc_buffer s p)"
  by (cases "proc_buffer s q") (auto simp: publish_def Let_def snprintf_into_def min_def)

lemma publish_module [simp]:
  fixes s :: time_track
  shows "proc_msg_read_pos (publish p t s) = proc_msg_read_pos s" "current_displaying_mode (publish p t s) = current_displaying_mode s"
    "ready_read (publish p t s) = ready_read s" "procfs_entry_used_cb (publish p t s) = procfs_entry_used_cb s"
    "procfs_request_absolute_time_callback (publish p t s) = procfs_request_absolute_time_callback s"
  by (simp_all add: publish_def Let_def)

lemma NUL_not_in_show: "NUL \<notin> set (show_u i)" "NUL \<notin> set ''Absolute time: ''" "NUL \<notin> set ''Seconds since last procfs use: ''"
    "NUL \<notin> set '':''" "NUL \<notin> set '' \<newline>''"
  by (simp_all add: show_u_def NUL_not_in_text) (simp_all add: NUL_def)

lemma length_word32: "length (dec (unat (w :: 32 word))) \<le> 10"
proof -
  have "unat w < 2 ^ LENGTH(32)" by (rule unsigned_less)
  then have "unat w < 10 ^ 10" by (rule less_trans) simp
  then show ?thesis by (rule length_dec) simp
qed

lemma length_show_u: "length (show_u i) \<le> 10"
  unfolding show_u_def by (rule length_word32)

lemma length_time_text: "length (time_text t) < 64"
  using length_show_u [of "tm_hour t"] length_show_u [of "tm_min t"] length_show_u [of "tm_sec t"]
  by (simp add: time_text_def)

lemma NUL_not_in_time_text: "NUL \<notin> set (time_text t)"
  by (simp add: time_text_def NUL_not_in_show) (simp add: NUL_def)

section \<open>The time since the last use\<close>

lemma elapsed:
  assumes "timestamp_measure_begin s = ucast b" "jiffies now = b + of_nat d" "d < 2 ^ 31" "HZ k = of_nat hz" "0 < hz" "hz < 2 ^ 31"
  shows "timer_handler_get_seconds_last_used_value k now s = int (d div hz)"
proof -
  have "(ucast (jiffies now) :: 32 word) - timestamp_measure_begin s = of_nat d"
    by (simp add: assms(1,2) ucast_add ucast_of_nat_down)
  moreover have "(of_nat d div of_nat hz :: 32 word) = of_nat (d div hz)"
    using assms(3,5,6) by (simp add: word_arith_nat_div unat_of_nat)
  moreover have "sint (of_nat (d div hz) :: 32 word) = int (d div hz)"
    by (rule sint_of_nat32, rule le_less_trans [OF div_le_dividend assms(3)])
  ultimately show ?thesis by (simp add: timer_handler_get_seconds_last_used_value_def assms(4))
qed

text \<open>After its first call a reader finds a text that no longer changes, at whatever instants the calls come.\<close>

interpretation last: text_file "\<lambda>(now, room, len). proc_buffer_last_accessed_read k now room len" "\<lambda>(now :: instant, sizes). sizes_ok sizes"
    "\<lambda>i s. at_pos Last_used_time t s0 i s \<and> \<not> ready_read s"
    "\<lambda>s. s = s0\<lparr>proc_msg_read_pos := (proc_msg_read_pos s0)(Last_used_time := of_nat (length t)), ready_read := True\<rparr>" t
  for k t and s0 :: time_track
proof
  fix e :: "instant \<times> nat \<times> size_t" and i and s :: time_track
  obtain now room len where e: "e = (now, room, len)" by (cases e)
  assume "case e of (now, sizes) \<Rightarrow> sizes_ok sizes" and at: "at_pos Last_used_time t s0 i s \<and> \<not> ready_read s" and i: "i < length t"
  with at_pos_copy [of Last_used_time t s0 i s room len] obtain m where
    "proc_copy Last_used_time Last_used_time room len s =
      Some (of_nat m, take m (drop i t), s0\<lparr>proc_msg_read_pos := (proc_msg_read_pos s0)(Last_used_time := of_nat (i + m))\<rparr>)"
    "m < 64" "i + m \<le> length t" "m \<noteq> 0"
    "at_pos Last_used_time t s0 (i + m) (s0\<lparr>proc_msg_read_pos := (proc_msg_read_pos s0)(Last_used_time := of_nat (i + m))\<rparr>)"
    by (auto simp: e)
  moreover from at have "\<not> ready_read s" "\<not> ready_read s0" by (auto simp: at_pos_def)
  ultimately show "\<exists>m s'. (case e of (now, room, len) \<Rightarrow> proc_buffer_last_accessed_read k now room len) s =
      Some (int m, take m (drop i t), s') \<and> 0 < m \<and> i + m \<le> length t \<and> at_pos Last_used_time t s0 (i + m) s' \<and> \<not> ready_read s'"
    using read_length_int [of m] by (simp add: e proc_buffer_last_accessed_read_def)
next
  fix e :: "instant \<times> nat \<times> size_t" and s :: time_track
  obtain now room len where e: "e = (now, room, len)" by (cases e)
  assume "case e of (now, sizes) \<Rightarrow> sizes_ok sizes" and at: "at_pos Last_used_time t s0 (length t) s \<and> \<not> ready_read s"
  with at_pos_copy [of Last_used_time t s0 "length t" s room len]
  show "\<exists>s'. (case e of (now, room, len) \<Rightarrow> proc_buffer_last_accessed_read k now room len) s = Some (0, [], s') \<and>
      s' = s0\<lparr>proc_msg_read_pos := (proc_msg_read_pos s0)(Last_used_time := of_nat (length t)), ready_read := True\<rparr>"
    by (auto simp: e proc_buffer_last_accessed_read_def)
qed

text \<open>The state the first call of a reader works on.\<close>

definition first_call :: "time_kernel \<Rightarrow> instant \<Rightarrow> time_track \<Rightarrow> time_track" where
  "first_call k now s = (let s = emit_event_procfs_entry_used k now s in
     s\<lparr>ready_read := False, proc_msg_read_pos := (proc_msg_read_pos s)(Last_used_time := 0)\<rparr>)"

lemma first_call_read:
  "ready_read s \<Longrightarrow> proc_buffer_last_accessed_read k now room len s = proc_buffer_last_accessed_read k now room len (first_call k now s)"
  by (simp add: proc_buffer_last_accessed_read_def first_call_def Let_def)

lemma first_call_shows:
  assumes "procfs_entry_used_cb s" "current_displaying_mode s = passed_seconds" "length (proc_buffer s Last_used_time) = 64"
    "timer_handler_get_seconds_last_used_value k now s = int n" "n < 2 ^ 31"
  shows "at_pos Last_used_time (''Seconds since last procfs use: '' @ dec n @ '' \<newline>'') (first_call k now s) 0 (first_call k now s)"
    "timestamp_measure_begin (first_call k now s) = ucast (jiffies now)" "\<not> ready_read (first_call k now s)"
proof -
  let ?t = "''Seconds since last procfs use: '' @ dec n @ '' \<newline>''"
  have d: "show_d (of_int (int n)) = dec n" using sint_of_nat32 [OF assms(5)] by (simp add: show_d_def show_int_def)
  have "n < 10 ^ 10" by (rule less_trans [OF assms(5)]) simp
  then have "length (dec n) \<le> 10" by (rule length_dec) simp
  then have "length ?t < 64" by simp
  moreover have "NUL \<notin> set ?t" using NUL_not_in_show NUL_not_in_text by simp
  ultimately have p: "shows_text Last_used_time ?t (publish Last_used_time ?t s)" by (rule publish_shows(1) [OF assms(3)])
  have e: "emit_event_procfs_entry_used k now s = (publish Last_used_time ?t s)\<lparr>timestamp_measure_begin := ucast (jiffies now)\<rparr>"
    using assms(1,2) d by (simp add: emit_event_procfs_entry_used_def procfs_entry_has_been_used_handler_def
        format_procfs_passed_seconds_def assms(4) Let_def timer_handler_refresh_last_used_time_def)
  show "at_pos Last_used_time ?t (first_call k now s) 0 (first_call k now s)"
    by (rule at_pos_self) (use p in \<open>simp_all add: first_call_def e Let_def shows_text_def\<close>)
qed (simp_all add: first_call_def Let_def emit_event_procfs_entry_used_def procfs_entry_has_been_used_handler_def assms
    timer_handler_refresh_last_used_time_def)

text \<open>C19: The file of the last use gives the number of whole seconds since the previous use to a reader with buffers of any
  size, as of the first of the calls, although time goes on between them; the count of
  \<^verbatim>\<open>jiffies\<close> may wrap around in between. The use is the start of the next measurement.\<close>

theorem last_accessed_text:
  assumes "ready_read s" "procfs_entry_used_cb s" "current_displaying_mode s = passed_seconds" "length (proc_buffer s Last_used_time) = 64"
    "timestamp_measure_begin s = ucast b" "jiffies now = b + of_nat d" "d < 2 ^ 31" "HZ k = of_nat hz" "0 < hz" "hz < 2 ^ 31"
    "sizes_ok sizes" "list_all (\<lambda>(now, sizes). sizes_ok sizes) calls" "64 \<le> length calls"
  shows "\<exists>s'. cat (map (\<lambda>(now, room, len). proc_buffer_last_accessed_read k now room len) ((now, sizes) # calls)) s =
      Some (''Seconds since last procfs use: '' @ dec (d div hz) @ '' \<newline>'', s') \<and>
    timestamp_measure_begin s' = ucast (jiffies now) \<and> ready_read s'"
proof -
  let ?t = "''Seconds since last procfs use: '' @ dec (d div hz) @ '' \<newline>''"
  have n: "d div hz < 2 ^ 31" by (rule le_less_trans [OF div_le_dividend assms(7)])
  note f = first_call_shows [OF assms(2-4) elapsed [OF assms(5-10)] n]
  have "d div hz < 10 ^ 10" by (rule less_trans [OF n]) simp
  then have "length (dec (d div hz)) \<le> 10" by (rule length_dec) simp
  then have "length ?t < length ((now, sizes) # calls)" using assms(13) by simp
  moreover have "list_all (\<lambda>(now, sizes). sizes_ok sizes) ((now, sizes) # calls)" using assms(11,12) by simp
  ultimately obtain s' where c: "cat (map (\<lambda>(now, room, len). proc_buffer_last_accessed_read k now room len) ((now, sizes) # calls))
      (first_call k now s) = Some (?t, s')" and s': "s' = (first_call k now s)\<lparr>proc_msg_read_pos :=
        (proc_msg_read_pos (first_call k now s))(Last_used_time := of_nat (length ?t)), ready_read := True\<rparr>"
    using last.cat_text [OF _ _ conjI [OF f(1,3)]] by blast
  from s' have "timestamp_measure_begin s' = ucast (jiffies now)" "ready_read s'" using f(2) by simp_all
  moreover have "(case sizes of (room, len) \<Rightarrow> proc_buffer_last_accessed_read k now room len) s =
      (case sizes of (room, len) \<Rightarrow> proc_buffer_last_accessed_read k now room len) (first_call k now s)"
    by (cases sizes) (simp only: prod.case first_call_read [OF assms(1)])
  with c have "cat (map (\<lambda>(now, room, len). proc_buffer_last_accessed_read k now room len) ((now, sizes) # calls)) s = Some (?t, s')"
    by (simp only: list.map cat.simps prod.case)
  ultimately show ?thesis by blast
qed

text \<open>A clock of a hundred ticks a second, for the examples.\<close>

definition clock100 :: time_kernel where
  "clock100 = \<lparr>HZ = 100, time64_to_tm = (\<lambda>n. \<lparr>tm_hour = n div 3600 mod 24, tm_min = n div 60 mod 60, tm_sec = n mod 60\<rparr>),
     msecs_to_jiffies = (\<lambda>m. ucast m div 10)\<rparr>"

definition watched :: time_track where
  "watched = time_track_start\<lparr>timestamp_measure_begin := 0xFFFFFF00, procfs_entry_used_cb := True,
     procfs_request_absolute_time_callback := True, new_random_ready := True\<rparr>"

lemma last_accessed_text_witness:
  "\<exists>s'. cat (map (\<lambda>(now, room, len). proc_buffer_last_accessed_read clock100 now room len)
      ((\<lparr>jiffies = 0x100000144, real_seconds = 0\<rparr>, 7, 7) # replicate 64 (\<lparr>jiffies = 0x100000999, real_seconds = 9\<rparr>, 1, 1))) watched =
      Some (''Seconds since last procfs use: 5 \<newline>'', s') \<and>
    timestamp_measure_begin s' = ucast (0x100000144 :: 64 word) \<and> ready_read s'"
proof -
  have d: "dec (580 div 100) = ''5''" by code_simp
  have w: "ready_read watched" "procfs_entry_used_cb watched" "current_displaying_mode watched = passed_seconds"
    "length (proc_buffer watched Last_used_time) = 64" "timestamp_measure_begin watched = ucast (0xFFFFFF00 :: 64 word)"
    by (simp_all add: watched_def time_track_start_def PROCFS_BUFFER_FORMAT_SIZE_def)
  have c: "jiffies \<lparr>jiffies = 0x100000144, real_seconds = 0\<rparr> = 0xFFFFFF00 + of_nat 580" "HZ clock100 = of_nat 100"
    by (simp_all add: clock100_def)
  show ?thesis
    using last_accessed_text [OF w c(1) _ c(2), of "(7, 7)" "replicate 64 (\<lparr>jiffies = 0x100000999, real_seconds = 9\<rparr>, 1, 1)", unfolded d]
    by (simp add: sizes_ok_def list_all_iff del: cat.simps list.map)
qed

section \<open>The time of day\<close>

lemma entry_used_absolute [simp]:
  assumes "length (proc_buffer s Last_used_time) = 64"
  shows "proc_buffer (emit_event_procfs_entry_used k now s) Absolute_time = proc_buffer s Absolute_time"
    "proc_msg_length (emit_event_procfs_entry_used k now s) Absolute_time = proc_msg_length s Absolute_time"
    "proc_msg_read_pos (emit_event_procfs_entry_used k now s) = proc_msg_read_pos s"
    "length (proc_buffer (emit_event_procfs_entry_used k now s) Last_used_time) = 64"
    "procfs_request_absolute_time_callback (emit_event_procfs_entry_used k now s) = procfs_request_absolute_time_callback s"
  using assms by (simp_all add: emit_event_procfs_entry_used_def procfs_entry_has_been_used_handler_def
      timer_handler_refresh_last_used_time_def format_procfs_passed_seconds_def format_procfs_passed_fulldate_def Let_def
      split: display_time_mode.split)

text \<open>What a call to read the time of day works on.\<close>

lemma absolute_time_call:
  assumes "procfs_request_absolute_time_callback s" "length (proc_buffer s Absolute_time) = 64" "length (proc_buffer s Last_used_time) = 64"
  shows "\<exists>s'. proc_buffer_absolute_time_read k now room len s = proc_read Absolute_time Absolute_time room len s' \<and>
    shows_text Absolute_time (time_text (time64_to_tm k (real_seconds now))) s' \<and> proc_msg_read_pos s' = proc_msg_read_pos s \<and>
    procfs_request_absolute_time_callback s' \<and> length (proc_buffer s' Last_used_time) = 64"
proof -
  let ?t = "time_text (time64_to_tm k (real_seconds now))"
  let ?s = "s\<lparr>current_time := time64_to_tm k (real_seconds now)\<rparr>"
  have e: "emit_procfs_absolute_time_request k now s = publish Absolute_time ?t ?s"
    using assms(1) by (simp add: emit_procfs_absolute_time_request_def procfs_entry_request_absolut_time_handler_def
        timer_handler_get_absolute_time_value_def Let_def)
  have p: "shows_text Absolute_time ?t (publish Absolute_time ?t ?s)"
    by (rule publish_shows(1)) (use assms(2) length_time_text NUL_not_in_time_text in simp_all)
  have l: "length (proc_buffer (publish Absolute_time ?t ?s) Last_used_time) = 64" using assms(3) by simp
  show ?thesis unfolding proc_buffer_absolute_time_read_def Let_def e
    by (intro exI [of _ "emit_event_procfs_entry_used k now (publish Absolute_time ?t ?s)"] conjI refl)
      (use p l assms(1) in \<open>simp_all add: shows_text_def\<close>)
qed

text \<open>The file of the time of day is formatted anew at each call, and the position of the reader stays: when the text is
  shorter at the second call (a minute or an hour later), the number of bytes left
  wraps around, and the read leaves the buffer.\<close>

theorem absolute_time_reads_past_end:
  assumes "procfs_request_absolute_time_callback s" "length (proc_buffer s Absolute_time) = 64" "length (proc_buffer s Last_used_time) = 64"
    "proc_msg_read_pos s Absolute_time = 0" "64 \<le> unat len" "unat len < 2 ^ 63" "unat len \<le> room"
    "length (time_text (time64_to_tm k (real_seconds later))) < length (time_text (time64_to_tm k (real_seconds now)))"
  shows "\<exists>s'. proc_buffer_absolute_time_read k now room len s =
      Some (int (length (time_text (time64_to_tm k (real_seconds now)))), time_text (time64_to_tm k (real_seconds now)), s') \<and>
    proc_buffer_absolute_time_read k later room len s' = None"
proof -
  let ?t1 = "time_text (time64_to_tm k (real_seconds now))" and ?t2 = "time_text (time64_to_tm k (real_seconds later))"
  from absolute_time_call [OF assms(1-3), of k now room len] obtain s1 where
    r1: "proc_buffer_absolute_time_read k now room len s = proc_read Absolute_time Absolute_time room len s1"
    and s1: "shows_text Absolute_time ?t1 s1" "proc_msg_read_pos s1 = proc_msg_read_pos s" "procfs_request_absolute_time_callback s1"
      "length (proc_buffer s1 Last_used_time) = 64" by blast
  have p1: "proc_msg_read_pos s1 Absolute_time = of_nat 0" using s1(2) assms(4) by simp
  have l1: "length ?t1 < 64" "min (unat len) (length ?t1) = length ?t1" "0 < length ?t1"
    using length_time_text [of "time64_to_tm k (real_seconds now)"] assms(5,8) by linarith+
  let ?s = "s1\<lparr>proc_msg_read_pos := (proc_msg_read_pos s1)(Absolute_time := of_nat (length ?t1))\<rparr>"
  have "proc_copy Absolute_time Absolute_time room len s1 = Some (of_nat (length ?t1), ?t1, ?s)"
    using proc_copy_shown(1) [OF s1(1) p1 _ assms(7)] l1(2) by simp
  then have first: "proc_buffer_absolute_time_read k now room len s = Some (int (length ?t1), ?t1, ?s)"
    using read_length_int [OF l1(1)] l1(3) by (simp add: r1 proc_read_def)
  have "length (proc_buffer ?s Absolute_time) = 64" using s1(1) by (simp add: shows_text_def)
  from absolute_time_call [OF _ this, of k later room len] s1(3,4) obtain s2 where
    r2: "proc_buffer_absolute_time_read k later room len ?s = proc_read Absolute_time Absolute_time room len s2"
    and s2: "shows_text Absolute_time ?t2 s2" "proc_msg_read_pos s2 Absolute_time = of_nat (length ?t1)" by auto
  have len2: "proc_msg_length s2 Absolute_time = of_nat (length ?t2)" using s2(1) by (simp add: shows_text_def)
  have "unat (of_nat (length ?t2) - of_nat (length ?t1) :: size_t) = 2 ^ 64 - (length ?t1 - length ?t2)"
    by (rule size_underflow [OF assms(8)], rule order_trans [of _ 64]) (use l1(1) in simp_all)
  moreover have "(2::nat) ^ 63 \<le> 2 ^ 64 - (length ?t1 - length ?t2)" using l1(1) by simp
  ultimately have "\<not> len > proc_msg_length s2 Absolute_time - proc_msg_read_pos s2 Absolute_time"
    using assms(6) unfolding word_less_nat_alt s2(2) len2 by linarith
  moreover have "unat (of_nat (length ?t1) :: size_t) = length ?t1" by (rule unat_small, rule less_trans [OF l1(1)]) simp
  moreover have "length (proc_buffer s2 Absolute_time) = 64" using s2(1) by (simp add: shows_text_def)
  moreover have too_long: "\<not> length ?t1 + unat len \<le> 64" using l1(3) assms(5) by linarith
  ultimately have "proc_copy Absolute_time Absolute_time room len s2 = None"
    unfolding proc_copy_def copy_to_user_def Let_def s2(2) using too_long by simp
  then have "proc_buffer_absolute_time_read k later room len ?s = None" by (simp add: r2 proc_read_def)
  with first show ?thesis by blast
qed

lemma absolute_time_reads_past_end_witness:
  "\<exists>s'. proc_buffer_absolute_time_read clock100 \<lparr>jiffies = 0, real_seconds = 38459\<rparr> 4096 4096 watched =
      Some (25, ''Absolute time: 10:40:59 \<newline>'', s') \<and>
    proc_buffer_absolute_time_read clock100 \<lparr>jiffies = 0, real_seconds = 38460\<rparr> 4096 4096 s' = None"
proof -
  have t: "time_text (time64_to_tm clock100 38459) = ''Absolute time: 10:40:59 \<newline>''"
    "time_text (time64_to_tm clock100 38460) = ''Absolute time: 10:41:0 \<newline>''" by code_simp+
  have w: "procfs_request_absolute_time_callback watched" "length (proc_buffer watched Absolute_time) = 64"
    "length (proc_buffer watched Last_used_time) = 64" "proc_msg_read_pos watched Absolute_time = 0"
    by (simp_all add: watched_def time_track_start_def PROCFS_BUFFER_FORMAT_SIZE_def)
  show ?thesis
    using absolute_time_reads_past_end [OF w, of 4096 4096 clock100 "\<lparr>jiffies = 0, real_seconds = 38460\<rparr>" "\<lparr>jiffies = 0, real_seconds = 38459\<rparr>"]
    by (simp add: t)
qed

section \<open>Random numbers\<close>

text \<open>The timer draws a number from the range the parameters give and arms itself again; it divides by zero
  exactly when the upper end of the range is followed by the lower one, as for the range of all 32-bit
  numbers.\<close>

theorem random_number_in_range:
  "(random_timer_callback k now rnd s = None \<longleftrightarrow> rand_max s + 1 = rand_min s) \<and>
   (rand_min s \<le> rand_max s \<and> unat (rand_max s) < 2 ^ 31 \<and> new_random_ready s \<longrightarrow>
     (\<exists>n s'. random_timer_callback k now rnd s = Some s' \<and> random_log s' = random_log s @ [int n] \<and>
        unat (rand_min s) \<le> n \<and> n \<le> unat (rand_max s) \<and> timer_expires s' = Some (jiffies now + secs_to_jiffies k (timer_period s))))"
proof (intro conjI impI)
  have "rand_max s - rand_min s + 1 = 0 \<longleftrightarrow> rand_max s + 1 - rand_min s = 0" by (simp add: algebra_simps)
  then show "random_timer_callback k now rnd s = None \<longleftrightarrow> rand_max s + 1 = rand_min s"
    by (simp add: random_timer_callback_def Let_def)
next
  assume a: "rand_min s \<le> rand_max s \<and> unat (rand_max s) < 2 ^ 31 \<and> new_random_ready s"
  define m M where "m = unat (rand_min s)" and "M = unat (rand_max s)"
  have mM: "m \<le> M" "M < 2 ^ 31" using a unfolding m_def M_def word_le_nat_alt by simp_all
  have e: "rand_min s = of_nat m" "rand_max s = of_nat M" by (simp_all add: m_def M_def)
  have w: "rand_max s - rand_min s + 1 = of_nat (M - m + 1)" using mM by (simp add: e of_nat_diff)
  have u: "unat (of_nat (M - m + 1) :: 32 word) = M - m + 1" by (rule unat_small32, use mM in simp)
  then have "(of_nat (M - m + 1) :: 32 word) \<noteq> 0" by (metis Suc_eq_plus1 unat_0 nat.distinct(1))
  moreover define n where "n = unat rnd mod (M - m + 1) + m"
  have "rnd mod of_nat (M - m + 1) = of_nat (unat rnd mod (M - m + 1))" by (subst word_arith_nat_mod) (simp only: u)
  then have "rnd mod of_nat (M - m + 1) + rand_min s = of_nat n" by (simp add: n_def e)
  moreover have "unat rnd mod (M - m + 1) < M - m + 1" by simp
  then have n: "m \<le> n" "n \<le> M" unfolding n_def using mM by linarith+
  moreover have "sint (of_nat n :: 32 word) = int n" by (rule sint_of_nat32) (use n mM in linarith)
  ultimately show "\<exists>n s'. random_timer_callback k now rnd s = Some s' \<and> random_log s' = random_log s @ [int n] \<and>
      unat (rand_min s) \<le> n \<and> n \<le> unat (rand_max s) \<and> timer_expires s' = Some (jiffies now + secs_to_jiffies k (timer_period s))"
    using a unfolding m_def [symmetric] M_def [symmetric]
    by (intro exI [of _ n]) (simp add: random_timer_callback_def w Let_def new_random_value_generated_handler_def mod_timer_def)
qed

lemma random_number_in_range_witness:
  "\<exists>n s'. random_timer_callback clock100 \<lparr>jiffies = 0, real_seconds = 0\<rparr> 77 watched = Some s' \<and> random_log s' = [int n] \<and>
     n \<le> 5 \<and> timer_expires s' \<noteq> None"
  using random_number_in_range [of clock100 "\<lparr>jiffies = 0, real_seconds = 0\<rparr>" 77 watched]
  by (auto simp: watched_def time_track_start_def)


section \<open>The attribute and the module\<close>

text \<open>A text that is no number selects the display of seconds, since its value stays 0; other numbers change nothing.\<close>

lemma display_mode_store_mode:
  fixes kstrtos32 :: "string \<Rightarrow> int option" and buf :: string and count :: nat
  assumes "on_received_mode_change_request_cb s"
  defines "v \<equiv> kstrtos32 (takeWhile (\<lambda>c. c \<noteq> NUL) (take (min count 9) buf))"
  shows "display_mode_store kstrtos32 buf count s = (int (min count 9),
    s\<lparr>current_displaying_mode := (case v of None \<Rightarrow> passed_seconds
      | Some i \<Rightarrow> if i = 1 then full_time_display else if i = 0 then passed_seconds else current_displaying_mode s)\<rparr>)"
proof -
  have "(if MODE_BUF_LEN \<le> count then MODE_BUF_LEN - 1 else count) = min count 9" by (auto simp: MODE_BUF_LEN_def)
  then show ?thesis using assms(1)
    by (simp add: display_mode_store_def Let_def v_def [symmetric] displaying_mode_changed_handler_def split: option.split)
qed

lemma time_module_load_unload:
  assumes "time_track_module_init k now True file_ret mkdir create time_track_start = Some (r, s)"
  shows "r = 0 \<and> (\<exists>s'. time_track_module_exit s = Some s' \<and> timer_expires s' = None \<and> \<not> display_mode_class s' \<and>
    \<not> proc_dir_time_module_root s' \<and> (\<forall>p. \<not> time_files s' p))"
proof -
  have f: "\<not> time_files (cleanup_procfs_handler s) p" for s p
    by (cases p) (simp_all add: cleanup_procfs_handler_def Let_def)
  have g: "\<not> proc_dir_time_module_root (cleanup_procfs_handler s)" "timer_expires (cleanup_procfs_handler s) = timer_expires s"
    "display_mode_class (cleanup_procfs_handler s) = display_mode_class s" for s
    by (simp_all add: cleanup_procfs_handler_def Let_def)
  have i: "display_mode_class (snd (init_procfs_handler mkdir create s)) = display_mode_class s" for s
    by (simp add: init_procfs_handler_def Let_def)
  from assms have "r = 0" "display_mode_class s"
    by (auto simp: time_track_module_init_def sysfs_mode_init_def Let_def i init_timer_module_def init_random_timer_def mod_timer_def)
  then show ?thesis
    by (simp add: time_track_module_exit_def sysfs_mode_cleanup_def Let_def deinit_random_timer_def f g)
qed

end
