(* ===== verification/Currency.thy ===== *)
theory Currency
  imports Procfs
begin

text \<open>
  The currency converters of \<^verbatim>\<open>task5\<close>. \<^verbatim>\<open>part01\<close> prints one conversion when it is loaded.
  \<^verbatim>\<open>part02\<close> converts the number written to a file under \<^verbatim>\<open>/proc\<close> (\<^verbatim>\<open>procfs_handler.c\<close>) by a
  factor that an attribute changes (\<^verbatim>\<open>sysfs_handler.c\<close>), and puts the result into the buffer of
  the file (\<^verbatim>\<open>module_main.c\<close>, \<^verbatim>\<open>currency_conveter.c\<close>). A call or a string that leaves its buffer, a
  signed overflow, a division by zero and a second \<open>kfree\<close> of a block are \<open>None\<close>.
\<close>

section \<open>The conversion\<close>

text \<open>Whole units and hundredths, each division truncating towards zero.\<close>

definition convert_amount :: "int \<Rightarrow> int \<Rightarrow> (int \<times> int) option" where
  "convert_amount amount rate = do {
     cents \<leftarrow> c_mul amount 100;
     conversionResult \<leftarrow> c_div cents rate;
     full \<leftarrow> c_div conversionResult 100;
     remainder \<leftarrow> c_mod conversionResult 100;
     Some (full, remainder) }"

definition CONVERSION_LINE_SIZE :: nat where "CONVERSION_LINE_SIZE = 200"

definition format_line :: "string \<Rightarrow> string" where
  "format_line t = take (CONVERSION_LINE_SIZE - 1) t"

definition conversion_lines :: "int \<Rightarrow> int \<Rightarrow> int \<Rightarrow> int \<Rightarrow> string list" where
  "conversion_lines amount rate full remainder =
     [format_line (''UAH'' @ '':'' @ show_int amount @ ''\<newline>''),
      format_line (''Conversion value'' @ '':'' @ show_int rate @ ''\<newline>''),
      format_line (show_int full @ ''.'' @ show_int remainder @ ''\<newline>'')]"

text \<open>\<^verbatim>\<open>part01\<close>: the lines printed while loading, and the result.\<close>

definition converter_currency_init :: "int \<Rightarrow> int \<Rightarrow> (string list \<times> int) option" where
  "converter_currency_init uahToEuro uahAmount = do {
     (full, remainder) \<leftarrow> convert_amount uahAmount uahToEuro;
     Some (conversion_lines uahAmount uahToEuro full remainder, 0) }"

section \<open>State of \<^verbatim>\<open>part02\<close>\<close>

definition BUFFER_SIZE :: nat where "BUFFER_SIZE = 40"
definition LEN_MSG :: nat where "LEN_MSG = 160"

text \<open>The callback pointers are whether they are set: each is set to one function only.\<close>

record converter =
  conversion_factor :: int
  convertion_ready_handler :: bool
  printed :: "string list"
  last_converted_value_request :: int
  conv_buffer :: "string obj"
  conv_msg_length :: size_t
  conv_msg_read_pos :: size_t
  proc_dir :: bool
  proc_file :: bool
  value_changed_cb :: bool
  on_conversion_factor_changed_cb :: bool
  buf_msg :: string
  currency_factor_class :: bool

definition converter_start :: "int \<Rightarrow> converter" where
  "converter_start factor = \<lparr>conversion_factor = factor, convertion_ready_handler = False, printed = [],
     last_converted_value_request = 0, conv_buffer = Absent, conv_msg_length = 0, conv_msg_read_pos = 0,
     proc_dir = False, proc_file = False, value_changed_cb = False, on_conversion_factor_changed_cb = False,
     buf_msg = ''Hello from module!\<newline>'' @ replicate 142 NUL, currency_factor_class = False\<rparr>"

section \<open>\<^verbatim>\<open>currency_conveter.c\<close> and the handlers of \<^verbatim>\<open>module_main.c\<close>\<close>

definition conversion_result_ready :: "int \<Rightarrow> int \<Rightarrow> converter \<Rightarrow> converter option" where
  "conversion_result_ready full remainder s = (case conv_buffer s of
     Live buf \<Rightarrow>
       if BUFFER_SIZE \<le> length buf then
         Some (s\<lparr>conv_buffer := Live (snprintf_into (take BUFFER_SIZE buf) (show_int full @ ''.'' @ show_int remainder @ ''\<newline>'') @ drop BUFFER_SIZE buf)\<rparr>)
       else None
   | _ \<Rightarrow> None)"

definition set_conversion_factor :: "int \<Rightarrow> converter \<Rightarrow> converter" where
  "set_conversion_factor new_factor s = s\<lparr>conversion_factor := new_factor\<rparr>"

definition convert_currency :: "int \<Rightarrow> converter \<Rightarrow> converter option" where
  "convert_currency to_convert s = do {
     (full, remainder) \<leftarrow> convert_amount to_convert (conversion_factor s);
     let s = s\<lparr>printed := printed s @ conversion_lines to_convert (conversion_factor s) full remainder\<rparr>;
     (if convertion_ready_handler s then conversion_result_ready full remainder s else Some s) }"

definition conversion_factor_changed_handler :: "int \<Rightarrow> converter \<Rightarrow> converter option" where
  "conversion_factor_changed_handler new_factor s =
     (let s = set_conversion_factor new_factor s in convert_currency (last_converted_value_request s) s)"

text \<open>\<open>kstrtos32\<close> is the kernel's parser of a number, \<open>None\<close> when the text is none.\<close>

definition handle_procfs_data_arrived :: "(string \<Rightarrow> int option) \<Rightarrow> string \<Rightarrow> converter \<Rightarrow> converter option" where
  "handle_procfs_data_arrived kstrtos32 new_value_to_convert s = do {
     let new_value = (case kstrtos32 new_value_to_convert of None \<Rightarrow> 0 | Some v \<Rightarrow> v);
     s \<leftarrow> convert_currency new_value s;
     Some (s\<lparr>last_converted_value_request := new_value\<rparr>) }"

section \<open>\<^verbatim>\<open>procfs_handler.c\<close>\<close>

text \<open>\<open>mem\<close> is the fresh memory, if any.\<close>

definition create_buffer :: "(nat \<Rightarrow> char) option \<Rightarrow> converter \<Rightarrow> int \<times> converter" where
  "create_buffer mem s =
     (let s = s\<lparr>conv_buffer := (case mem of None \<Rightarrow> Absent | Some m \<Rightarrow> Live (map m [0..<BUFFER_SIZE]))\<rparr> in
      if mem = None then (- ENOMEM, s) else (0, s\<lparr>conv_msg_length := 0\<rparr>))"

text \<open>The pointer that is set to NULL is the function's own copy.\<close>

definition cleanup_buffer :: "converter \<Rightarrow> converter option" where
  "cleanup_buffer s = do {
     s \<leftarrow> (case conv_buffer s of Absent \<Rightarrow> Some s | Live _ \<Rightarrow> Some (s\<lparr>conv_buffer := Freed\<rparr>) | Freed \<Rightarrow> None);
     Some (s\<lparr>conv_msg_length := 0\<rparr>) }"

definition crate_proc_entry :: "bool \<Rightarrow> bool \<Rightarrow> converter \<Rightarrow> int \<times> converter" where
  "crate_proc_entry mkdir create s =
     (let s = s\<lparr>proc_dir := mkdir\<rparr> in
      if \<not> mkdir then (- EFAULT, s)
      else let s = s\<lparr>proc_file := create\<rparr> in
        if \<not> create then (- EFAULT, s) else (0, s))"

definition remove_procfs_entries :: "converter \<Rightarrow> converter" where
  "remove_procfs_entries s =
     (let s = (if proc_file s then s\<lparr>proc_file := False\<rparr> else s) in
      if proc_dir s then s\<lparr>proc_dir := False\<rparr> else s)"

definition procfs_read_callback :: "nat \<Rightarrow> size_t \<Rightarrow> converter \<Rightarrow> (int \<times> char list \<times> converter) option" where
  "procfs_read_callback room len s =
     (let len = (if len > conv_msg_length s - conv_msg_read_pos s then conv_msg_length s - conv_msg_read_pos s else len) in
      case conv_buffer s of
        Live buf \<Rightarrow> do {
          (bytes, left) \<leftarrow> copy_to_user room buf (conv_msg_read_pos s) len;
          let s = s\<lparr>conv_msg_read_pos := conv_msg_read_pos s + (len - left)\<rparr>;
          Some (sint (len - left), bytes, s) }
      | _ \<Rightarrow> None)"

text \<open>
  \<open>src\<close> are the bytes that can be read at the user's address, as far as the length goes. The
  text is printed with \<open>%s\<close> before the callback gets it.
\<close>

definition procfs_write_callback :: "(string \<Rightarrow> int option) \<Rightarrow> char list \<Rightarrow> size_t \<Rightarrow> converter \<Rightarrow> (int \<times> converter) option" where
  "procfs_write_callback kstrtos32 src len s = (case conv_buffer s of
     Live buf \<Rightarrow>
       if BUFFER_SIZE \<le> length buf then
         (let buf = replicate BUFFER_SIZE NUL @ drop BUFFER_SIZE buf;
              msg_length = (if len > of_nat BUFFER_SIZE then of_nat BUFFER_SIZE else len);
              got = take (unat msg_length) src;
              left = msg_length - of_nat (length got);
              s = s\<lparr>conv_buffer := Live (got @ drop (length got) buf)\<rparr>;
              s = s\<lparr>conv_msg_length := msg_length - left\<rparr>;
              s = s\<lparr>conv_msg_read_pos := 0\<rparr> in do {
            text \<leftarrow> c_string (got @ drop (length got) buf);
            s \<leftarrow> (if value_changed_cb s then handle_procfs_data_arrived kstrtos32 text s else Some s);
            Some (sint len, s) })
       else None
   | _ \<Rightarrow> None)"

definition init_procfs_converter :: "(nat \<Rightarrow> char) option \<Rightarrow> bool \<Rightarrow> bool \<Rightarrow> converter \<Rightarrow> (int \<times> converter) option" where
  "init_procfs_converter mem mkdir create s =
     (let (err, s) = create_buffer mem s;
          (err, s) = (if err \<noteq> 0 then (err, s) else crate_proc_entry mkdir create s) in
      if err \<noteq> 0 then do {
        s \<leftarrow> cleanup_buffer (remove_procfs_entries s);
        Some (err, s) }
      else Some (0, s))"

definition procfs_handler_deinit :: "converter \<Rightarrow> converter option" where
  "procfs_handler_deinit s = cleanup_buffer (remove_procfs_entries s)"

section \<open>\<^verbatim>\<open>sysfs_handler.c\<close>\<close>

text \<open>The text given to the reader, and its length.\<close>

definition currency_factor_show :: "converter \<Rightarrow> (int \<times> string) option" where
  "currency_factor_show s = do {
     buf \<leftarrow> c_string (buf_msg s);
     Some (int (length buf), buf) }"

definition currency_factor_store :: "(string \<Rightarrow> int option) \<Rightarrow> string \<Rightarrow> nat \<Rightarrow> converter \<Rightarrow> (int \<times> converter) option" where
  "currency_factor_store kstrtos32 buf count s =
     (if count < length (buf_msg s) then
        (let s = s\<lparr>buf_msg := strncpy buf count @ NUL # drop (Suc count) (buf_msg s)\<rparr> in do {
           text \<leftarrow> c_string (buf_msg s);
           let factor = (case kstrtos32 text of None \<Rightarrow> 0 | Some v \<Rightarrow> v);
           (if factor \<le> 0 then Some (int count, s)
            else do {
              s \<leftarrow> (if on_conversion_factor_changed_cb s then conversion_factor_changed_handler factor s else Some s);
              Some (int count, s) }) })
      else None)"

definition sysfs_converter_init :: "bool \<Rightarrow> int \<Rightarrow> converter \<Rightarrow> (int \<times> converter) option" where
  "sysfs_converter_init class_ok file_ret s =
     (if class_ok then Some (file_ret, s\<lparr>currency_factor_class := True\<rparr>) else None)"

text \<open>The kernel's functions accept the NULL of a class that was never made.\<close>

definition sysfs_converter_cleanup :: "converter \<Rightarrow> converter" where
  "sysfs_converter_cleanup s = s\<lparr>currency_factor_class := False\<rparr>"

section \<open>\<^verbatim>\<open>module_main.c\<close>: the module\<close>

definition currency_converter_init ::
    "(nat \<Rightarrow> char) option \<Rightarrow> bool \<Rightarrow> bool \<Rightarrow> bool \<Rightarrow> int \<Rightarrow> converter \<Rightarrow> (int \<times> converter) option" where
  "currency_converter_init mem mkdir create class_ok file_ret s = do {
     (err, s) \<leftarrow> init_procfs_converter mem mkdir create s;
     (err, s) \<leftarrow> (if err \<noteq> 0 then Some (err, s) else sysfs_converter_init class_ok file_ret s);
     (if err \<noteq> 0 then do {
        s \<leftarrow> procfs_handler_deinit (sysfs_converter_cleanup s);
        Some (err, s) }
      else Some (0, s\<lparr>on_conversion_factor_changed_cb := True, convertion_ready_handler := True, value_changed_cb := True\<rparr>)) }"

definition currency_converter_exit :: "converter \<Rightarrow> converter option" where
  "currency_converter_exit s = procfs_handler_deinit (sysfs_converter_cleanup s)"

end
