(* ===== verification/CurrencySpec.thy ===== *)
theory CurrencySpec
  imports Currency
begin

text \<open>
  What the currency converter does with an amount that is written to its file: the value
  of the conversion, what a reader gets of it, and the messages and failures that make it leave its
  memory.
\<close>

section \<open>The value\<close>

lemma convert_amount_eq:
  assumes "0 \<le> a" "a * 100 \<le> 2147483647" "0 < r"
  shows "convert_amount a r = Some (a div r, (a * 100 div r) mod 100)"
proof -
  let ?c = "a * 100 div r"
  have c: "0 \<le> ?c" using assms by (simp add: pos_imp_zdiv_nonneg_iff)
  have "?c \<le> a * 100 div 1" by (rule zdiv_mono2) (use assms in simp_all)
  then have c2: "?c \<le> 2147483647" using assms(2) by simp
  have "a * 100 div (r * 100) = ?c div 100" by (rule zdiv_zmult2_eq) simp
  then have d: "?c div 100 = a div r" by simp
  have "?c div 100 \<le> ?c div 1" by (rule zdiv_mono2) (use c in simp_all)
  then have le: "a div r \<le> ?c" by (simp add: d)
  have q: "0 \<le> a div r" using assms by (simp add: pos_imp_zdiv_nonneg_iff)
  have "in_int (a * 100)" "in_int ?c" "in_int (a div r)"
    unfolding in_int_def using c c2 le q assms(1,2) by linarith+
  then show ?thesis using assms(3) c
    by (simp add: convert_amount_def c_mul_def c_div_def c_mod_def c_int_def tdiv_nonneg tmod_nonneg d assms(1))
qed

section \<open>Reading what was written\<close>

text \<open>The read of the file, as far as the buffer shows a text.\<close>

definition conv_at :: "string \<Rightarrow> converter \<Rightarrow> nat \<Rightarrow> converter \<Rightarrow> bool" where
  "conv_at t s0 k s \<longleftrightarrow> s = s0\<lparr>conv_msg_read_pos := of_nat k\<rparr> \<and>
    (\<exists>buf. conv_buffer s0 = Live buf \<and> take (length t) buf = t \<and> length t \<le> length buf) \<and> length t \<le> 40 \<and>
    conv_msg_length s0 = of_nat (length t)"

lemma conv_read:
  assumes "conv_at t s0 k s" "k \<le> length t" "sizes_ok (room, len)"
  shows "\<exists>m. procfs_read_callback room len s = Some (int m, take m (drop k t), s0\<lparr>conv_msg_read_pos := of_nat (k + m)\<rparr>) \<and>
    k + m \<le> length t \<and> (m = 0 \<longleftrightarrow> k = length t) \<and> conv_at t s0 (k + m) (s0\<lparr>conv_msg_read_pos := of_nat (k + m)\<rparr>)"
proof -
  from assms(1) obtain buf where buf: "conv_buffer s = Live buf" "take (length t) buf = t" "length t \<le> length buf"
    "length t \<le> 4096" "conv_msg_length s = of_nat (length t)" "conv_msg_read_pos s = of_nat k" by (auto simp: conv_at_def)
  have len: "unat len \<le> room" "0 < unat len" using assms(3) by (auto simp: sizes_ok_def)
  define m where "m = min (unat len) (length t - k)"
  note c = copy_rest [OF buf(2-4) assms(2) len(1), folded m_def]
  have "procfs_read_callback room len s = Some (sint (of_nat m :: size_t), take m (drop k t), s\<lparr>conv_msg_read_pos := of_nat k + of_nat m\<rparr>)"
    unfolding procfs_read_callback_def Let_def buf(5,6) c(1) by (simp add: buf(1) c(2))
  moreover have "sint (of_nat m :: size_t) = int m"
    by (rule trans [OF sint_small]) (use c(3) in \<open>simp_all add: unat_of_nat\<close>)
  moreover have "s\<lparr>conv_msg_read_pos := of_nat k + of_nat m\<rparr> = s0\<lparr>conv_msg_read_pos := of_nat (k + m)\<rparr>"
    using assms(1) by (auto simp: conv_at_def)
  moreover have "conv_at t s0 (k + m) (s0\<lparr>conv_msg_read_pos := of_nat (k + m)\<rparr>)" using assms(1) by (simp add: conv_at_def)
  moreover have "k + m \<le> length t" "m = 0 \<longleftrightarrow> k = length t" using assms(2) len(2) by (auto simp: m_def)
  ultimately show ?thesis by (intro exI [of _ m]) simp
qed

interpretation converted: text_file "\<lambda>(room, len). procfs_read_callback room len" sizes_ok "conv_at t s0"
    "\<lambda>s. s = s0\<lparr>conv_msg_read_pos := of_nat (length t)\<rparr>" t for t s0
proof
  fix e k s
  assume "sizes_ok e" "conv_at t s0 k s" "k < length t"
  then show "\<exists>m s'. (case e of (room, len) \<Rightarrow> procfs_read_callback room len) s = Some (int m, take m (drop k t), s') \<and> 0 < m \<and>
      k + m \<le> length t \<and> conv_at t s0 (k + m) s'"
    using conv_read [of t s0 k s "fst e" "snd e"] by (cases e) auto
next
  fix e s
  assume "sizes_ok e" "conv_at t s0 (length t) s"
  then show "\<exists>s'. (case e of (room, len) \<Rightarrow> procfs_read_callback room len) s = Some (0, [], s') \<and>
      s' = s0\<lparr>conv_msg_read_pos := of_nat (length t)\<rparr>"
    using conv_read [of t s0 "length t" s "fst e" "snd e"] by (cases e) auto
qed

lemma take_le_append: "n \<le> length xs \<Longrightarrow> take n (xs @ ys) = take n xs"
  by simp

text \<open>A module that is loaded, with its buffer.\<close>

definition loaded :: "converter \<Rightarrow> bool" where
  "loaded s \<longleftrightarrow> (\<exists>buf. conv_buffer s = Live buf \<and> length buf = 40) \<and> value_changed_cb s \<and> convertion_ready_handler s \<and>
    on_conversion_factor_changed_cb s"

definition amount_text :: "int \<Rightarrow> int \<Rightarrow> string" where
  "amount_text a r = dec (nat (a div r)) @ ''.'' @ dec (nat (a * 100 div r mod 100)) @ ''\<newline>''"

lemma amount_text_length:
  assumes "0 \<le> a" "a * 100 \<le> 2147483647" "0 < r"
  shows "length (amount_text a r) < 40"
proof -
  have "a div r \<le> a div 1" by (rule zdiv_mono2) (use assms in simp_all)
  then have "nat (a div r) < 10 ^ 10" using assms(2) by simp
  then have "length (dec (nat (a div r))) \<le> 10" by (rule length_dec) simp
  moreover have "a * 100 div r mod 100 < 100" by simp
  then have "nat (a * 100 div r mod 100) < 10 ^ 2" by simp
  then have "length (dec (nat (a * 100 div r mod 100))) \<le> 2" by (rule length_dec) simp
  ultimately show ?thesis by (simp add: amount_text_def)
qed

lemma convert_currency_loaded:
  assumes "conv_buffer s = Live buf" "length buf = 40" "convertion_ready_handler s" "0 \<le> a" "a * 100 \<le> 2147483647" "0 < conversion_factor s"
  shows "convert_currency a s = Some (s\<lparr>printed := printed s @ conversion_lines a (conversion_factor s) (a div conversion_factor s)
      (a * 100 div conversion_factor s mod 100), conv_buffer := Live (snprintf_into buf (amount_text a (conversion_factor s)))\<rparr>)"
proof -
  have "show_int (a div conversion_factor s) = dec (nat (a div conversion_factor s))"
    using assms(4,6) by (simp add: show_int_def pos_imp_zdiv_neg_iff)
  moreover have "show_int (a * 100 div conversion_factor s mod 100) = dec (nat (a * 100 div conversion_factor s mod 100))"
    by (simp add: show_int_def)
  ultimately show ?thesis using assms
    by (simp add: convert_currency_def convert_amount_eq Let_def conversion_result_ready_def amount_text_def BUFFER_SIZE_def)
qed

text \<open>C13: An amount written to the file of a loaded module is converted at the factor in force, rounded down to hundredths, and the reader gets
  the whole units, a point and the number of hundredths without leading zeros, so that three hundredths read as \<^verbatim>\<open>.3\<close>. However he reads, he gets
  as many characters as the amount had been written with: the length of the message is not that of the result. A shorter result is
  followed by its NUL and what the message left in the buffer. The amount is not negative, a hundred times it is an \<open>int\<close>, its text has fewer than 40
  characters and the factor is positive.\<close>

theorem write_then_read_amount:
  assumes "loaded s" "0 < conversion_factor s" "length msg < 40" "NUL \<notin> set msg" "kstrtos32 msg = Some a" "0 \<le> a" "a * 100 \<le> 2147483647"
    "list_all sizes_ok sizes" "41 \<le> length sizes"
  shows "\<exists>s1 s2. procfs_write_callback kstrtos32 msg (of_nat (length msg)) s = Some (int (length msg), s1) \<and>
    last_converted_value_request s1 = a \<and>
    cat (map (\<lambda>(room, len). procfs_read_callback room len) sizes) s1 =
      Some (take (length msg) (amount_text a (conversion_factor s) @ NUL # drop (Suc (length (amount_text a (conversion_factor s)))) msg), s2)"
proof -
  let ?n = "length msg" and ?T = "amount_text a (conversion_factor s)"
  let ?B = "msg @ replicate (40 - ?n) NUL" and ?t = "take ?n (?T @ NUL # drop (Suc (length ?T)) msg)"
  obtain buf where buf: "conv_buffer s = Live buf" "length buf = 40" and cb: "value_changed_cb s" "convertion_ready_handler s"
    using assms(1) by (auto simp: loaded_def)
  have T: "length ?T < 40" by (rule amount_text_length [OF assms(6,7,2)])
  have n: "unat (of_nat ?n :: size_t) = ?n" by (rule unat_small) (use assms(3) in simp)
  have "\<not> (of_nat ?n :: size_t) > of_nat BUFFER_SIZE" using assms(3) unfolding word_less_nat_alt n by (simp add: BUFFER_SIZE_def)
  then have ml: "(if (of_nat ?n :: size_t) > of_nat BUFFER_SIZE then of_nat BUFFER_SIZE else of_nat ?n) = (of_nat ?n :: size_t)" by simp
  have B: "msg @ drop ?n (replicate BUFFER_SIZE NUL @ drop BUFFER_SIZE buf) = ?B" using buf(2) assms(3) by (simp add: BUFFER_SIZE_def)
  have str: "c_string ?B = Some msg"
  proof -
    have "takeWhile (\<lambda>c. c \<noteq> NUL) ?B = msg @ takeWhile (\<lambda>c. c \<noteq> NUL) (replicate (40 - ?n) NUL)"
      by (rule takeWhile_append2) (use assms(4) in auto)
    then show ?thesis using assms(3) by (cases "40 - ?n") (auto simp: c_string_def)
  qed
  define s1 where "s1 = s\<lparr>conv_buffer := Live ?B, conv_msg_length := of_nat ?n, conv_msg_read_pos := 0\<rparr>"
  have "conv_buffer s1 = Live ?B" "length ?B = 40" "convertion_ready_handler s1" "0 < conversion_factor s1"
    using assms(2,3) cb by (simp_all add: s1_def)
  from convert_currency_loaded [OF this(1-3) assms(6,7) this(4)] obtain p where
    c: "convert_currency a s1 = Some (s1\<lparr>printed := p, conv_buffer := Live (snprintf_into ?B ?T)\<rparr>)" by (simp add: s1_def)
  define s2 where "s2 = s1\<lparr>printed := p, conv_buffer := Live (snprintf_into ?B ?T), last_converted_value_request := a\<rparr>"
  have h: "handle_procfs_data_arrived kstrtos32 msg s1 = Some s2"
    by (simp add: handle_procfs_data_arrived_def assms(5) c s2_def)
  have si: "sint (of_nat ?n :: size_t) = int ?n"
    by (rule trans [OF sint_small]) (use assms(3) n in \<open>simp_all only: n\<close>, simp)
  have cb1: "value_changed_cb s1" by (simp add: s1_def cb)
  have w: "procfs_write_callback kstrtos32 msg (of_nat ?n) s = Some (int ?n, s2)"
    unfolding procfs_write_callback_def Let_def ml n
    using h str cb1 by (simp add: buf B cb si s1_def [symmetric] BUFFER_SIZE_def)
  define t where "t = ?t"
  have tn: "length t = ?n" by (simp add: t_def)
  have sn: "snprintf_into ?B ?T = ?T @ NUL # drop (Suc (length ?T)) ?B" using T assms(3) by (simp add: snprintf_into_def)
  have sl: "length (snprintf_into ?B ?T) = 40" unfolding sn using T assms(3) by simp
  have tk: "take (length t) (snprintf_into ?B ?T) = t"
  proof -
    let ?A = "?T @ NUL # drop (Suc (length ?T)) msg" and ?R = "drop (Suc (length ?T) - ?n) (replicate (40 - ?n) NUL)"
    have "snprintf_into ?B ?T = ?A @ ?R" unfolding sn drop_append by simp
    moreover have "take ?n (?A @ ?R) = take ?n ?A" by (rule take_le_append) simp
    ultimately show ?thesis unfolding tn by (simp only: t_def)
  qed
  have "conv_at t s2 0 s2" using tk sl assms(3) by (simp add: conv_at_def s2_def s1_def tn)
  moreover have "length t < length sizes" using assms(3,9) by (simp add: tn)
  ultimately obtain s3 where "cat (map (\<lambda>(room, len). procfs_read_callback room len) sizes) s2 = Some (t, s3)"
    using converted.cat_text [OF assms(8)] by blast
  moreover have "last_converted_value_request s2 = a" by (simp add: s2_def)
  ultimately show ?thesis using w unfolding t_def by blast
qed

text \<open>A parser of digits, for the examples.\<close>

definition parse_digits :: "string \<Rightarrow> int option" where
  "parse_digits t = (let ds = takeWhile (\<lambda>c. c \<noteq> CHR 0x0A) t in
     if ds \<noteq> [] \<and> (\<forall>c \<in> set ds. c \<in> set ''0123456789'') then Some (foldl (\<lambda>n c. 10 * n + (of_char c - 48)) 0 ds) else None)"

definition converting :: converter where
  "converting = (converter_start 31)\<lparr>conv_buffer := Live (replicate 40 NUL), value_changed_cb := True,
     convertion_ready_handler := True, on_conversion_factor_changed_cb := True\<rparr>"

lemma write_then_read_amount_witness:
  "\<exists>s1 s2. procfs_write_callback parse_digits ''1000'' 4 converting = Some (4, s1) \<and> last_converted_value_request s1 = 1000 \<and>
    cat (map (\<lambda>(room, len). procfs_read_callback room len) (replicate 41 (3, 3))) s1 = Some (''32.2'', s2)"
proof -
  have t: "amount_text 1000 31 = ''32.25\<newline>''" "parse_digits ''1000'' = Some 1000" by code_simp+
  have l: "loaded converting" "conversion_factor converting = 31" by (simp_all add: loaded_def converting_def converter_start_def)
  show ?thesis
    using write_then_read_amount [OF l(1), of "''1000''" parse_digits 1000 "replicate 41 (3, 3)"]
    by (simp add: l(2) t sizes_ok_def list_all_iff NUL_def del: cat.simps)
qed

section \<open>Where it leaves its memory\<close>

text \<open>A message of forty or more characters fills the buffer and leaves no NUL: printing and parsing it run past the
  buffer's end.\<close>

theorem full_message_overreads:
  assumes "loaded s" "unat len \<ge> 40" "40 \<le> length msg" "NUL \<notin> set (take 40 msg)"
  shows "procfs_write_callback kstrtos32 msg len s = None"
proof -
  obtain buf where buf: "conv_buffer s = Live buf" "length buf = 40" using assms(1) by (auto simp: loaded_def)
  have "unat (if len > of_nat BUFFER_SIZE then of_nat BUFFER_SIZE else len) = 40"
    using assms(2) unfolding word_less_nat_alt by (simp add: BUFFER_SIZE_def)
  moreover have "drop 40 (replicate 40 NUL @ drop 40 buf) = []" using buf(2) by simp
  ultimately show ?thesis
    using assms(3,4) buf by (simp add: procfs_write_callback_def Let_def BUFFER_SIZE_def c_string_def)
qed

lemma full_message_overreads_witness:
  "procfs_write_callback parse_digits (replicate 40 (CHR ''1'')) 40 converting = None"
proof -
  have "loaded converting" by (simp add: loaded_def converting_def converter_start_def)
  from full_message_overreads [OF this, of 40 "replicate 40 (CHR ''1'')"] show ?thesis by (simp add: NUL_def)
qed

text \<open>When the entries under \<^verbatim>\<open>/proc\<close> cannot be made, the buffer is freed where that fails and once more by
  the error path of the module, whose pointer still names it. With the entries made, loading
  fails without a trace or succeeds, and unloading gives everything back.\<close>

theorem failed_entry_frees_twice:
  "(mem \<noteq> None \<and> \<not> (mkdir \<and> create) \<longrightarrow> currency_converter_init mem mkdir create class_ok file_ret (converter_start r) = None) \<and>
   (mem \<noteq> None \<and> mkdir \<and> create \<and> class_ok \<longrightarrow>
     (\<exists>s. currency_converter_init mem mkdir create class_ok file_ret (converter_start r) = Some (file_ret, s) \<and>
        (\<exists>s'. (if file_ret \<noteq> 0 then s' = s else loaded s \<and> currency_converter_exit s = Some s') \<and>
          conv_buffer s' = Freed \<and> \<not> proc_dir s' \<and> \<not> proc_file s' \<and> \<not> currency_factor_class s')))"
proof (intro conjI impI)
  assume "mem \<noteq> None \<and> \<not> (mkdir \<and> create)"
  then show "currency_converter_init mem mkdir create class_ok file_ret (converter_start r) = None"
    by (cases mkdir) (auto simp: currency_converter_init_def init_procfs_converter_def create_buffer_def crate_proc_entry_def
        cleanup_buffer_def remove_procfs_entries_def procfs_handler_deinit_def sysfs_converter_cleanup_def Let_def EFAULT_def)
next
  assume "mem \<noteq> None \<and> mkdir \<and> create \<and> class_ok"
  then show "\<exists>s. currency_converter_init mem mkdir create class_ok file_ret (converter_start r) = Some (file_ret, s) \<and>
      (\<exists>s'. (if file_ret \<noteq> 0 then s' = s else loaded s \<and> currency_converter_exit s = Some s') \<and>
        conv_buffer s' = Freed \<and> \<not> proc_dir s' \<and> \<not> proc_file s' \<and> \<not> currency_factor_class s')"
    by (auto simp: currency_converter_init_def init_procfs_converter_def create_buffer_def crate_proc_entry_def
        sysfs_converter_init_def cleanup_buffer_def remove_procfs_entries_def procfs_handler_deinit_def
        sysfs_converter_cleanup_def currency_converter_exit_def loaded_def BUFFER_SIZE_def Let_def)
qed

lemma failed_entry_frees_twice_witness:
  "currency_converter_init (Some (\<lambda>_. NUL)) False True True 0 (converter_start 31) = None \<and>
   (\<exists>s. currency_converter_init (Some (\<lambda>_. NUL)) True True True 0 (converter_start 31) = Some (0, s) \<and> loaded s)"
  using failed_entry_frees_twice [of "Some (\<lambda>_. NUL)" False True True 0 31]
    failed_entry_frees_twice [of "Some (\<lambda>_. NUL)" True True True 0 31] by auto

text \<open>A text of more than 160 characters written to the attribute runs past its buffer.\<close>

lemma long_factor_overflows:
  "length (buf_msg s) = Suc LEN_MSG \<Longrightarrow> LEN_MSG < count \<Longrightarrow> currency_factor_store kstrtos32 buf count s = None"
  by (simp add: currency_factor_store_def)

text \<open>A factor of zero, given while loading, divides by zero.\<close>

lemma zero_factor_faults: "convert_amount a 0 = None"
  by (cases "c_mul a 100") (simp_all add: convert_amount_def c_div_def)

end
