(* ===== verification/ProcMessage.thy ===== *)
theory ProcMessage
  imports Procfs
begin

text \<open>
  A message that is written to a file under \<^verbatim>\<open>/proc\<close> and read from it, as the modules of
  \<^verbatim>\<open>exercise10\<close> keep it (\<^verbatim>\<open>part01/rw.c\<close>, \<^verbatim>\<open>part03/rw.c\<close>): the length of the message, the position of
  the reader, the directory and the file. The module's buffers are its own; its state extends
  the record.
\<close>

section \<open>State and operations\<close>

record message_file =
  msg_length :: size_t
  msg_read_pos :: size_t
  msg_dir :: bool
  msg_file :: bool

text \<open>\<open>mkdir\<close> and \<open>create\<close> say which entries the kernel makes.\<close>

definition create_message_entry :: "bool \<Rightarrow> bool \<Rightarrow> 'a message_file_scheme \<Rightarrow> int \<times> 'a message_file_scheme" where
  "create_message_entry mkdir create s =
     (let s = s\<lparr>msg_dir := mkdir\<rparr> in
      if \<not> mkdir then (- EFAULT, s)
      else let s = s\<lparr>msg_file := create\<rparr> in
        if \<not> create then (- EFAULT, s) else (0, s))"

definition remove_message_entry :: "'a message_file_scheme \<Rightarrow> 'a message_file_scheme" where
  "remove_message_entry s =
     (let s = (if msg_file s then s\<lparr>msg_file := False\<rparr> else s) in
      if msg_dir s then s\<lparr>msg_dir := False\<rparr> else s)"

definition message_read :: "nat \<Rightarrow> size_t \<Rightarrow> string \<Rightarrow> 'a message_file_scheme \<Rightarrow> (int \<times> char list \<times> 'a message_file_scheme) option" where
  "message_read room len buf s =
     (let len = (if len > msg_length s - msg_read_pos s then msg_length s - msg_read_pos s else len) in do {
        (bytes, left) \<leftarrow> copy_to_user room buf (msg_read_pos s) len;
        let s = s\<lparr>msg_read_pos := msg_read_pos s + (len - left)\<rparr>;
        Some (sint (len - left), bytes, s) })"

text \<open>
  The first part of a write into a buffer of \<open>capacity\<close> characters. \<open>src\<close> are the bytes that can be
  read at the user's address, as far as the length goes; the kernel puts zero bytes for what cannot be read.
\<close>

definition message_write :: "nat \<Rightarrow> char list \<Rightarrow> size_t \<Rightarrow> string \<Rightarrow> 'a message_file_scheme \<Rightarrow> (string \<times> 'a message_file_scheme) option" where
  "message_write capacity src len buf s =
     (let n = (if len > of_nat capacity then of_nat capacity else len);
          got = take (unat n) src;
          left = n - of_nat (length got) in do {
        buf \<leftarrow> poke buf 0 (got @ replicate (unat n - length got) NUL);
        let s = s\<lparr>msg_length := n - left\<rparr>;
        let s = s\<lparr>msg_read_pos := 0\<rparr>;
        Some (buf, s) })"

section \<open>Writing the message\<close>

lemma message_write_stores:
  assumes "length buf = capacity" "capacity \<le> 4096" "length msg < 2 ^ 63"
  shows "message_write capacity msg (of_nat (length msg)) buf s = Some (take capacity msg @ drop (length msg) buf,
    s\<lparr>msg_length := of_nat (min capacity (length msg)), msg_read_pos := 0\<rparr>)"
proof -
  define n :: size_t where "n = (if of_nat (length msg) > (of_nat capacity :: size_t) then of_nat capacity else of_nat (length msg))"
  have small: "unat (of_nat (length msg) :: size_t) = length msg" "unat (of_nat capacity :: size_t) = capacity"
    using assms(2,3) by (simp_all add: unat_small)
  then have n: "unat n = min capacity (length msg)"
    unfolding n_def word_less_nat_alt by (cases "capacity < length msg") simp_all
  then have n': "n = of_nat (min capacity (length msg))" by (metis of_nat_unat ucast_id)
  have got: "take (unat n) msg = take capacity msg" unfolding n by (simp add: min_def)
  have len: "of_nat (length (take capacity msg)) = n" unfolding n' by (simp add: min.commute)
  have pad: "take capacity msg @ replicate (unat n - length (take capacity msg)) NUL = take capacity msg" unfolding n by (simp add: min.commute)
  have "poke buf 0 (take capacity msg) = Some (take capacity msg @ drop (length msg) buf)"
    using assms(1) by (cases "length msg \<le> capacity") (simp_all add: poke_def)
  then show ?thesis unfolding message_write_def Let_def n_def [symmetric] got len pad by (simp add: n')
qed

section \<open>Reading the message\<close>

text \<open>The reader has \<open>k\<close> characters of a text that starts the buffer behind it.\<close>

definition message_at :: "string \<Rightarrow> string \<Rightarrow> 'a message_file_scheme \<Rightarrow> nat \<Rightarrow> 'a message_file_scheme \<Rightarrow> bool" where
  "message_at t buf s0 k s \<longleftrightarrow> s = s0\<lparr>msg_read_pos := of_nat k\<rparr> \<and> take (length t) buf = t \<and> length t \<le> length buf \<and>
    length t \<le> 4096 \<and> msg_length s0 = of_nat (length t)"

lemma message_read_at:
  assumes "message_at t buf s0 k s" "k \<le> length t" "sizes_ok (room, len)"
  shows "\<exists>m. message_read room len buf s = Some (int m, take m (drop k t), s0\<lparr>msg_read_pos := of_nat (k + m)\<rparr>) \<and>
    k + m \<le> length t \<and> (m = 0 \<longleftrightarrow> k = length t) \<and> message_at t buf s0 (k + m) (s0\<lparr>msg_read_pos := of_nat (k + m)\<rparr>)"
proof -
  from assms(1) have b: "take (length t) buf = t" "length t \<le> length buf" "length t \<le> 4096"
    "msg_length s = of_nat (length t)" "msg_read_pos s = of_nat k" by (auto simp: message_at_def)
  have len: "unat len \<le> room" "0 < unat len" using assms(3) by (auto simp: sizes_ok_def)
  define m where "m = min (unat len) (length t - k)"
  note c = copy_rest [OF b(1-3) assms(2) len(1), folded m_def]
  have "message_read room len buf s = Some (sint (of_nat m :: size_t), take m (drop k t), s\<lparr>msg_read_pos := of_nat k + of_nat m\<rparr>)"
    unfolding message_read_def Let_def b(4,5) c(1) by (simp add: c(2))
  moreover have "sint (of_nat m :: size_t) = int m"
    by (rule trans [OF sint_small]) (use c(3) in \<open>simp_all add: unat_of_nat\<close>)
  moreover have "s\<lparr>msg_read_pos := of_nat k + of_nat m\<rparr> = s0\<lparr>msg_read_pos := of_nat (k + m)\<rparr>"
    using assms(1) by (auto simp: message_at_def)
  moreover have "message_at t buf s0 (k + m) (s0\<lparr>msg_read_pos := of_nat (k + m)\<rparr>)" using assms(1) by (simp add: message_at_def)
  moreover have "k + m \<le> length t" "m = 0 \<longleftrightarrow> k = length t" using assms(2) len(2) by (auto simp: m_def)
  ultimately show ?thesis by (intro exI [of _ m]) simp
qed

interpretation message: text_file "\<lambda>(room, len). message_read room len buf" sizes_ok "message_at t buf s0"
    "\<lambda>s. s = s0\<lparr>msg_read_pos := of_nat (length t)\<rparr>" t for t buf and s0 :: "'a message_file_scheme"
proof
  fix e k and s :: "'a message_file_scheme"
  assume "sizes_ok e" "message_at t buf s0 k s" "k < length t"
  then show "\<exists>m s'. (case e of (room, len) \<Rightarrow> message_read room len buf) s = Some (int m, take m (drop k t), s') \<and> 0 < m \<and>
      k + m \<le> length t \<and> message_at t buf s0 (k + m) s'"
    using message_read_at [of t buf s0 k s "fst e" "snd e"] by (cases e) auto
next
  fix e and s :: "'a message_file_scheme"
  assume "sizes_ok e" "message_at t buf s0 (length t) s"
  then show "\<exists>s'. (case e of (room, len) \<Rightarrow> message_read room len buf) s = Some (0, [], s') \<and>
      s' = s0\<lparr>msg_read_pos := of_nat (length t)\<rparr>"
    using message_read_at [of t buf s0 "length t" s "fst e" "snd e"] by (cases e) auto
qed

end
