(* ===== verification/ExampleBuffer.thy ===== *)
theory ExampleBuffer
  imports ProcMessage
begin

text \<open>
  The module of \<^verbatim>\<open>exercise10/part01/rw.c\<close>: a file under \<^verbatim>\<open>/proc\<close> that keeps up to ten characters of what is
  written to it.
\<close>

definition EXAMPLE_BUFFER_SIZE :: nat where "EXAMPLE_BUFFER_SIZE = 10"

record example = message_file +
  example_buffer :: "string obj"

definition example_start :: example where
  "example_start = \<lparr>msg_length = 0, msg_read_pos = 0, msg_dir = False, msg_file = False, example_buffer = Absent\<rparr>"

definition create_example_buffer :: "(nat \<Rightarrow> char) option \<Rightarrow> example \<Rightarrow> int \<times> example" where
  "create_example_buffer mem s =
     (let s = s\<lparr>example_buffer := fresh_buffer EXAMPLE_BUFFER_SIZE mem\<rparr> in
      if mem = None then (- ENOMEM, s) else (0, s\<lparr>msg_length := 0\<rparr>))"

definition cleanup_example_buffer :: "example \<Rightarrow> example option" where
  "cleanup_example_buffer s = do {
     s \<leftarrow> (case example_buffer s of Absent \<Rightarrow> Some s | Live _ \<Rightarrow> Some (s\<lparr>example_buffer := Absent\<rparr>) | Freed \<Rightarrow> None);
     Some (s\<lparr>msg_length := 0\<rparr>) }"

definition example_read :: "nat \<Rightarrow> size_t \<Rightarrow> example \<Rightarrow> (int \<times> char list \<times> example) option" where
  "example_read room len s = message_read room len (obj_bytes (example_buffer s)) s"

definition example_write :: "char list \<Rightarrow> size_t \<Rightarrow> example \<Rightarrow> (int \<times> example) option" where
  "example_write src len s = do {
     (buf, s) \<leftarrow> message_write EXAMPLE_BUFFER_SIZE src len (obj_bytes (example_buffer s)) s;
     let s = (case example_buffer s of Live _ \<Rightarrow> s\<lparr>example_buffer := Live buf\<rparr> | _ \<Rightarrow> s);
     Some (sint len, s) }"

definition example_init :: "(nat \<Rightarrow> char) option \<Rightarrow> bool \<Rightarrow> bool \<Rightarrow> example \<Rightarrow> (int \<times> example) option" where
  "example_init mem mkdir create s =
     (let (err, s) = create_example_buffer mem s;
          (err, s) = (if err \<noteq> 0 then (err, s) else create_message_entry mkdir create s) in
      if err \<noteq> 0 then do {
        s \<leftarrow> cleanup_example_buffer (remove_message_entry s);
        Some (err, s) }
      else Some (0, s))"

definition example_exit :: "example \<Rightarrow> example option" where
  "example_exit s = cleanup_example_buffer (remove_message_entry s)"

section \<open>A message is read back\<close>

definition example_ok :: "example \<Rightarrow> bool" where
  "example_ok s \<longleftrightarrow> (\<exists>buf. example_buffer s = Live buf \<and> length buf = 10)"

interpretation example: text_file "\<lambda>(room, len). example_read room len" sizes_ok
    "\<lambda>k s. message_at t buf s0 k s \<and> example_buffer s0 = Live buf" "\<lambda>s. s = s0\<lparr>msg_read_pos := of_nat (length t)\<rparr>" t
  for t buf and s0 :: example
proof
  have eq: "(case e of (room, len) \<Rightarrow> example_read room len) s = (case e of (room, len) \<Rightarrow> message_read room len buf) s"
    if "message_at t buf s0 k s \<and> example_buffer s0 = Live buf" for e k s
    using that by (cases e) (auto simp: message_at_def example_read_def obj_bytes_def)
  fix e k s assume at: "message_at t buf s0 k s \<and> example_buffer s0 = Live buf" and "sizes_ok e" "k < length t"
  then show "\<exists>m s'. (case e of (room, len) \<Rightarrow> example_read room len) s = Some (int m, take m (drop k t), s') \<and> 0 < m \<and>
      k + m \<le> length t \<and> message_at t buf s0 (k + m) s' \<and> example_buffer s0 = Live buf"
    unfolding eq [OF at] using message.more [of e t buf s0 k s] by auto
next
  fix e s assume at: "message_at t buf s0 (length t) s \<and> example_buffer s0 = Live buf" and "sizes_ok e"
  then show "\<exists>s'. (case e of (room, len) \<Rightarrow> example_read room len) s = Some (0, [], s') \<and> s' = s0\<lparr>msg_read_pos := of_nat (length t)\<rparr>"
    using message.eof [of e t buf s0 s] by (cases e) (auto simp: message_at_def example_read_def obj_bytes_def)
qed

text \<open>The first ten characters of what was written are read back, whatever the sizes of the reads; the
  write reports the whole length.\<close>

theorem example_round_trip:
  assumes "example_ok s" "length msg < 2 ^ 63" "list_all sizes_ok sizes" "11 \<le> length sizes"
  shows "\<exists>s1 s2. example_write msg (of_nat (length msg)) s = Some (int (length msg), s1) \<and> example_ok s1 \<and>
    cat (map (\<lambda>(room, len). example_read room len) sizes) s1 = Some (take 10 msg, s2)"
proof -
  from assms(1) obtain buf where b: "example_buffer s = Live buf" "length buf = 10" by (auto simp: example_ok_def)
  define s1 where "s1 = s\<lparr>msg_length := of_nat (min 10 (length msg)), msg_read_pos := 0,
    example_buffer := Live (take 10 msg @ drop (length msg) buf)\<rparr>"
  have len: "sint (of_nat (length msg) :: size_t) = int (length msg)"
    using assms(2) by (subst sint_small) (simp_all add: unat_small)
  have "example_write msg (of_nat (length msg)) s = Some (int (length msg), s1)"
    using message_write_stores [of buf 10 msg s] b assms(2) len
    by (simp add: example_write_def EXAMPLE_BUFFER_SIZE_def obj_bytes_def s1_def)
  moreover have "example_ok s1" using b(2) by (auto simp: example_ok_def s1_def min_def)
  moreover have "message_at (take 10 msg) (take 10 msg @ drop (length msg) buf) s1 0 s1"
    by (simp add: message_at_def s1_def min_def)
  then have "\<exists>s2. cat (map (\<lambda>(room, len). example_read room len) sizes) s1 = Some (take 10 msg, s2)"
    using example.cat_text [OF assms(3), of "take 10 msg" _ s1 s1] assms(4) by (fastforce simp: s1_def)
  ultimately show ?thesis by blast
qed

text \<open>The initial state of a loaded module, a message that is too long, and a reader of four bytes.\<close>

theorem example_round_trip_witness:
  "\<exists>s0 s1 s2. example_init (Some (\<lambda>_. NUL)) True True example_start = Some (0, s0) \<and>
    example_write ''hello, world'' (of_nat 12) s0 = Some (12, s1) \<and> example_ok s1 \<and>
    cat (map (\<lambda>(room, len). example_read room len) (replicate 11 (4, 4))) s1 = Some (''hello, wor'', s2)"
proof -
  obtain s0 where s0: "example_init (Some (\<lambda>_. NUL)) True True example_start = Some (0, s0)" "example_ok s0"
    by (auto simp: example_init_def create_example_buffer_def create_message_entry_def example_ok_def fresh_buffer_def
      EXAMPLE_BUFFER_SIZE_def)
  show ?thesis using example_round_trip [OF s0(2), of "''hello, world''" "replicate 11 (4, 4)"] s0(1)
    by (simp add: sizes_ok_def list_all_iff)
qed

text \<open>Whatever the kernel gives, loading fails with nothing left or unloading gives everything back.\<close>

lemma example_load_unload:
  "\<exists>err s. example_init mem mkdir create example_start = Some (err, s) \<and>
    (if err = 0 then example_ok s \<and> example_exit s = Some example_start else s = example_start \<and> err \<in> {- ENOMEM, - EFAULT})"
  by (cases mem; cases mkdir; cases create)
    (simp_all add: example_init_def create_example_buffer_def create_message_entry_def remove_message_entry_def fresh_buffer_def
      cleanup_example_buffer_def example_exit_def example_ok_def example_start_def ENOMEM_def EFAULT_def EXAMPLE_BUFFER_SIZE_def)

end
