(* ===== verification/Strings.thy ===== *)
theory Strings
  imports Prelude
begin

text \<open>
  The string processors of \<^verbatim>\<open>exercise10\<close>: \<^verbatim>\<open>part02/strings_processor.c\<close> works on two static buffers,
  \<^verbatim>\<open>part03/strings_processor.c\<close> is the same text with the buffers passed in or allocated.
  A pointer into the working buffer is an index; a write outside a buffer and a string without its
  NUL are \<open>None\<close>.
\<close>

definition STRINGS_BUFFER_SIZE :: nat where "STRINGS_BUFFER_SIZE = 1024"

text \<open>
  \<open>strsep(&rest, " ")\<close>: the token starts where \<open>rest\<close> points; the space that ends it becomes
  a NUL and \<open>rest\<close> points behind it, or is NULL when the string ends.
\<close>

definition strsep :: "string \<Rightarrow> nat \<Rightarrow> (nat option \<times> string) option" where
  "strsep buf i =
     (let j = i + length (takeWhile (\<lambda>c. c \<noteq> CHR '' '' \<and> c \<noteq> NUL) (drop i buf)) in
      if j < length buf then
        if buf ! j = CHR '' '' then Some (Some (j + 1), buf[j := NUL]) else Some (None, buf)
      else None)"

text \<open>\<open>source\<close> is the string behind the pointer, as far as the buffer goes.\<close>

definition reverse_token :: "string \<Rightarrow> nat \<Rightarrow> string \<Rightarrow> nat \<Rightarrow> string option" where
  "reverse_token source source_string_len destination write_pos =
     for_to source_string_len (\<lambda>i d.
       if source_string_len - i - 1 < length source then poke d (write_pos + i) [source ! (source_string_len - i - 1)] else None) destination"

function reverse_words_loop :: "string \<Rightarrow> nat option \<Rightarrow> string \<Rightarrow> nat \<Rightarrow> (string \<times> string) option" where
  "reverse_words_loop buf None out write_position = Some (buf, out)"
| "reverse_words_loop buf (Some token) out write_position =
     (case strsep buf token of
        None \<Rightarrow> None
      | Some (rest, buf') \<Rightarrow>
          (case c_string (drop token buf') of
             None \<Rightarrow> None
           | Some t \<Rightarrow>
               (case reverse_token (drop token buf') (length t) out write_position of
                  None \<Rightarrow> None
                | Some out' \<Rightarrow>
                    (case poke out' (write_position + length t) '' '' of
                       None \<Rightarrow> None
                     | Some out'' \<Rightarrow> reverse_words_loop buf' rest out'' (write_position + length t + 1)))))"
  by pat_completeness auto

lemma strsep_progress: "strsep buf i = Some (Some j, buf') \<Longrightarrow> length buf' - j < length buf - i"
  by (auto simp: strsep_def Let_def split: if_splits)

termination reverse_words_loop
  by (relation "measure (\<lambda>(buf, rest, _). case rest of None \<Rightarrow> 0 | Some i \<Rightarrow> Suc (length buf - i))")
    (auto dest: strsep_progress split: option.splits)

declare reverse_words_loop.simps [simp del]

text \<open>The operations take the string (\<open>None\<close> for NULL), the working buffer and the output.\<close>

definition reverse_string_words :: "string option \<Rightarrow> string \<Rightarrow> string \<Rightarrow> (string \<times> string) option" where
  "reverse_string_words incoming_string string_processing_buffer output_buffer = (case incoming_string of
     None \<Rightarrow> Some (string_processing_buffer, output_buffer)
   | Some incoming \<Rightarrow> do {
       str \<leftarrow> c_string incoming;
       if length str + 1 > STRINGS_BUFFER_SIZE then Some (string_processing_buffer, output_buffer)
       else do {
         buf \<leftarrow> poke string_processing_buffer 0 (str @ [NUL]);
         (buf, out) \<leftarrow> reverse_words_loop buf (Some 0) output_buffer 0;
         out \<leftarrow> poke out (length str + 1) [NUL];
         Some (buf, out) } })"

text \<open>
  \<open>isdigit\<close> and \<open>toupper\<close> are the kernel's; \<open>toupper\<close> is a parameter, since the kernel's
  tables include letters beyond ASCII. Each character is read before its place in the output is
  written, so that the string may lie in the output itself.
\<close>

definition isdigit :: "char \<Rightarrow> bool" where
  "isdigit c \<longleftrightarrow> 48 \<le> (of_char c :: nat) \<and> (of_char c :: nat) \<le> 57"

definition to_upper_string :: "(char \<Rightarrow> char) \<Rightarrow> string option \<Rightarrow> string \<Rightarrow> string option" where
  "to_upper_string toupper incoming_string output_buffer = (case incoming_string of
     None \<Rightarrow> Some output_buffer
   | Some incoming \<Rightarrow> do {
       str \<leftarrow> c_string incoming;
       if length str + 1 > STRINGS_BUFFER_SIZE then Some output_buffer
       else do {
         out \<leftarrow> for_to (length str) (\<lambda>i out. let char_it = str ! i in
           poke out i [if isdigit char_it then char_it else toupper char_it]) output_buffer;
         poke out (length str + 1) [NUL] } })"

text \<open>Only in \<^verbatim>\<open>part03\<close>.\<close>

definition copy_string_to_output :: "string option \<Rightarrow> string option \<Rightarrow> string option option" where
  "copy_string_to_output incoming_string output_buffer = (case (incoming_string, output_buffer) of
     (Some incoming, Some out) \<Rightarrow> do {
       str \<leftarrow> c_string incoming;
       out \<leftarrow> poke out 0 (str @ [NUL]);
       Some (Some out) }
   | _ \<Rightarrow> Some output_buffer)"

text \<open>The module of \<^verbatim>\<open>part02\<close>: what it prints of its buffers, which start as zeros.\<close>

definition string_processor_init :: "(char \<Rightarrow> char) \<Rightarrow> (string list \<times> int) option" where
  "string_processor_init toupper = do {
     let str = ''hello for Geeks 12345'' @ [NUL];
     (buf, out) \<leftarrow> reverse_string_words (Some str) (replicate STRINGS_BUFFER_SIZE NUL) (replicate STRINGS_BUFFER_SIZE NUL);
     reversed \<leftarrow> c_string out;
     out \<leftarrow> to_upper_string toupper (Some out) out;
     upper \<leftarrow> c_string out;
     Some ([reversed, upper], 0) }"

section \<open>What the operations compute\<close>

text \<open>The words of a text, split at every space.\<close>

function words :: "string \<Rightarrow> string list" where
  "words s = (if CHR '' '' \<in> set s then
     takeWhile (\<lambda>c. c \<noteq> CHR '' '') s # words (tl (dropWhile (\<lambda>c. c \<noteq> CHR '' '') s))
   else [s])"
  by auto

lemma space_split:
  assumes "CHR '' '' \<in> set s"
  shows "s = takeWhile (\<lambda>c. c \<noteq> CHR '' '') s @ CHR '' '' # tl (dropWhile (\<lambda>c. c \<noteq> CHR '' '') s)"
proof -
  have "dropWhile (\<lambda>c. c \<noteq> CHR '' '') s \<noteq> []" using assms by (auto simp: dropWhile_eq_Nil_conv)
  then have "hd (dropWhile (\<lambda>c. c \<noteq> CHR '' '') s) = CHR '' ''" using hd_dropWhile by blast
  then have "dropWhile (\<lambda>c. c \<noteq> CHR '' '') s = CHR '' '' # tl (dropWhile (\<lambda>c. c \<noteq> CHR '' '') s)"
    using \<open>dropWhile (\<lambda>c. c \<noteq> CHR '' '') s \<noteq> []\<close> by (metis list.collapse)
  then show ?thesis by (metis takeWhile_dropWhile_id)
qed

termination words
proof (relation "measure length")
  fix s :: string
  assume "CHR '' '' \<in> set s"
  from arg_cong [OF space_split [OF this], of length]
  show "(tl (dropWhile (\<lambda>c. c \<noteq> CHR '' '') s), s) \<in> measure length" by simp
qed simp

declare words.simps [simp del]

text \<open>Each word backwards and followed by a space.\<close>

definition reversed_words :: "string \<Rightarrow> string" where
  "reversed_words s = concat (map (\<lambda>w. rev w @ '' '') (words s))"

lemma words_word: "CHR '' '' \<notin> set s \<Longrightarrow> words s = [s]"
  by (subst words.simps) simp

lemma words_space: "CHR '' '' \<notin> set w \<Longrightarrow> words (w @ CHR '' '' # r) = w # words r"
proof -
  assume w: "CHR '' '' \<notin> set w"
  then have "takeWhile (\<lambda>c. c \<noteq> CHR '' '') (w @ CHR '' '' # r) = w" "dropWhile (\<lambda>c. c \<noteq> CHR '' '') (w @ CHR '' '' # r) = CHR '' '' # r"
    by (induction w) auto
  then show ?thesis by (subst words.simps) simp
qed

lemma reverse_token_eq:
  assumes "n \<le> length source" "wp + n \<le> length d"
  shows "reverse_token source n d wp = Some (take wp d @ rev (take n source) @ drop (wp + n) d)"
proof -
  have "for_to (length (rev (take n source))) (\<lambda>i d. if n - i - 1 < length source then poke d (wp + i) [source ! (n - i - 1)] else None) d =
      Some (take wp d @ rev (take n source) @ drop (wp + length (rev (take n source))) d)"
    by (rule for_to_poke) (use assms in \<open>auto simp: rev_nth\<close>)
  then show ?thesis using assms(1) by (simp add: reverse_token_def)
qed

lemma reverse_words_loop_eq:
  assumes "NUL \<notin> set s" "wp + length s + 1 \<le> length out"
  shows "\<exists>buf'. reverse_words_loop (pre @ s @ NUL # rest) (Some (length pre)) out wp =
      Some (buf', take wp out @ reversed_words s @ drop (wp + length s + 1) out) \<and> length buf' = length (pre @ s @ NUL # rest)"
  using assms
proof (induction s arbitrary: pre out wp rule: words.induct)
  case (1 s)
  show ?case
  proof (cases "CHR '' '' \<in> set s")
    case False
    have tk: "takeWhile (\<lambda>c. c \<noteq> CHR '' '' \<and> c \<noteq> NUL) (s @ NUL # rest) = s"
      using False "1.prems"(1) by (subst takeWhile_append2) (auto simp: NUL_def)
    have "reverse_token (s @ NUL # rest) (length s) out wp = Some (take wp out @ rev s @ drop (wp + length s) out)"
      using "1.prems"(2) by (subst reverse_token_eq) auto
    moreover have "NUL \<noteq> CHR '' ''" by (simp add: NUL_def)
    ultimately show ?thesis using False "1.prems"
      by (simp add: reverse_words_loop.simps strsep_def Let_def tk c_string_middle words_word reversed_words_def nth_append poke_def min_def)
  next
    case True
    define w r where "w = takeWhile (\<lambda>c. c \<noteq> CHR '' '') s" and "r = tl (dropWhile (\<lambda>c. c \<noteq> CHR '' '') s)"
    have s: "s = w @ CHR '' '' # r" unfolding w_def r_def by (rule space_split [OF True])
    have w: "CHR '' '' \<notin> set w" unfolding w_def by (auto dest: set_takeWhileD)
    have ls: "length s = length w + length r + 1" by (simp add: s)
    have nul: "NUL \<notin> set w" "NUL \<notin> set r" using "1.prems"(1) s by auto
    let ?buf = "pre @ w @ CHR '' '' # r @ NUL # rest" and ?buf' = "(pre @ w @ [NUL]) @ r @ NUL # rest"
    let ?out = "take wp out @ rev w @ CHR '' '' # drop (wp + length w + 1) out"
    have tk: "takeWhile (\<lambda>c. c \<noteq> CHR '' '' \<and> c \<noteq> NUL) (w @ CHR '' '' # r @ NUL # rest) = w"
      using w nul by (subst takeWhile_append2) auto
    have sep: "strsep ?buf (length pre) = Some (Some (length (pre @ w @ [NUL])), ?buf')"
      by (simp add: strsep_def tk nth_append list_update_append)
    have tok: "c_string (drop (length pre) ?buf') = Some w" using nul(1) by (simp add: c_string_middle)
    have rev: "reverse_token (drop (length pre) ?buf') (length w) out wp = Some (take wp out @ rev w @ drop (wp + length w) out)"
      using "1.prems"(2) s by (subst reverse_token_eq) auto
    have sp: "poke (take wp out @ rev w @ drop (wp + length w) out) (wp + length w) '' '' = Some ?out"
      using "1.prems"(2) s by (simp add: poke_def min_def)
    have "\<exists>buf'. reverse_words_loop ?buf' (Some (length (pre @ w @ [NUL]))) ?out (wp + length w + 1) =
        Some (buf', take (wp + length w + 1) ?out @ reversed_words r @ drop (wp + length w + 1 + length r + 1) ?out) \<and>
        length buf' = length ?buf'"
      by (rule "1.IH" [OF True, folded r_def, OF nul(2)]) (use "1.prems"(2) ls in simp)
    moreover have "reverse_words_loop ?buf (Some (length pre)) out wp =
        reverse_words_loop ?buf' (Some (length (pre @ w @ [NUL]))) ?out (wp + length w + 1)"
      using sep tok rev sp by (subst reverse_words_loop.simps) simp
    moreover have "take (wp + length w + 1) ?out @ reversed_words r @ drop (wp + length w + 1 + length r + 1) ?out =
        take wp out @ reversed_words s @ drop (wp + length s + 1) out"
      using "1.prems"(2) s w by (simp add: reversed_words_def words_space min_def add.left_commute add.commute)
    ultimately show ?thesis using s by simp
  qed
qed

text \<open>What the two operations write, on a string that fits.\<close>

lemma length_reversed_words: "length (reversed_words s) = length s + 1"
proof (induction s rule: words.induct)
  case (1 s)
  show ?case
  proof (cases "CHR '' '' \<in> set s")
    case True
    define w r where "w = takeWhile (\<lambda>c. c \<noteq> CHR '' '') s" and "r = tl (dropWhile (\<lambda>c. c \<noteq> CHR '' '') s)"
    have s: "s = w @ CHR '' '' # r" unfolding w_def r_def by (rule space_split [OF True])
    have "CHR '' '' \<notin> set w" unfolding w_def by (auto dest: set_takeWhileD)
    from words_space [OF this, of r] 1 [OF True, folded r_def] show ?thesis by (simp add: reversed_words_def s)
  qed (simp add: words_word reversed_words_def)
qed

lemma poke_tail: "length xs = off \<Longrightarrow> poke (xs @ a # ys) off [c] = Some (xs @ c # ys)"
  by (auto simp: poke_def)

theorem reverse_string_words_eq:
  assumes "NUL \<notin> set s" "length s < 1023" "length buf = 1024" "length out = 1024"
  shows "\<exists>buf'. reverse_string_words (Some (s @ NUL # rest)) buf out =
      Some (buf', reversed_words s @ NUL # drop (length s + 2) out) \<and> length buf' = 1024"
proof -
  have p: "poke buf 0 (s @ [NUL]) = Some ([] @ s @ NUL # drop (length s + 1) buf)" using assms by (simp add: poke_def)
  from reverse_words_loop_eq [OF assms(1), of 0 out "[]" "drop (length s + 1) buf"] assms(2-4)
  obtain buf' where l: "reverse_words_loop (s @ NUL # drop (length s + 1) buf) (Some 0) out 0 =
      Some (buf', reversed_words s @ drop (length s + 1) out)" "length buf' = 1024" by auto
  have "drop (length s + 1) out = out ! (length s + 1) # drop (length s + 2) out"
    using assms(2,4) Cons_nth_drop_Suc [of "length s + 1" out] by simp
  then have "poke (reversed_words s @ drop (length s + 1) out) (length s + 1) [NUL] =
      Some (reversed_words s @ NUL # drop (length s + 2) out)"
    by (simp only:) (rule poke_tail, rule length_reversed_words)
  then show ?thesis using assms(2) p l
    by (simp add: reverse_string_words_def c_string_middle [OF assms(1)] STRINGS_BUFFER_SIZE_def)
qed

lemma to_upper_string_eq:
  fixes toupper :: "char \<Rightarrow> char"
  assumes "NUL \<notin> set s" "length s < 1023" "length out = 1024"
  defines "up \<equiv> \<lambda>c. if isdigit c then c else toupper c"
  shows "to_upper_string toupper (Some (s @ NUL # rest)) out =
      Some (map up s @ out ! length s # NUL # drop (length s + 2) out)"
proof -
  have "for_to (length (map up s)) (\<lambda>i out. let char_it = s ! i in poke out i [if isdigit char_it then char_it else toupper char_it]) out =
      Some (take 0 out @ map up s @ drop (0 + length (map up s)) out)"
    by (rule for_to_poke) (use assms(2,3) in \<open>auto simp: Let_def up_def\<close>)
  moreover have "drop (length s) out = out ! length s # out ! (length s + 1) # drop (length s + 2) out"
    using assms(2,3) by (simp add: Cons_nth_drop_Suc)
  moreover have "poke ((map up s @ [out ! length s]) @ out ! (length s + 1) # drop (length s + 2) out) (length s + 1) [NUL] =
      Some ((map up s @ [out ! length s]) @ NUL # drop (length s + 2) out)" by (rule poke_tail) simp
  ultimately show ?thesis using assms(2)
    by (simp add: to_upper_string_def c_string_middle [OF assms(1)] STRINGS_BUFFER_SIZE_def)
qed

lemma reverse_string_words_fits:
  assumes "NUL \<notin> set s" "length s < 1023" "length buf = 1024" "length out = 1024"
  shows "\<exists>buf' out'. reverse_string_words (Some (s @ NUL # rest)) buf out = Some (buf', out') \<and>
    c_string out' = Some (concat (map (\<lambda>w. rev w @ '' '') (words s))) \<and> drop (length s + 2) out' = drop (length s + 2) out"
proof -
  have "set (reversed_words t) \<subseteq> insert (CHR '' '') (set t)" for t
  proof (induction t rule: words.induct)
    case (1 t)
    show ?case
    proof (cases "CHR '' '' \<in> set t")
      case True
      then have "words t = takeWhile (\<lambda>c. c \<noteq> CHR '' '') t # words (tl (dropWhile (\<lambda>c. c \<noteq> CHR '' '') t))" by (subst words.simps) simp
      then have "reversed_words t = rev (takeWhile (\<lambda>c. c \<noteq> CHR '' '') t) @ CHR '' '' # reversed_words (tl (dropWhile (\<lambda>c. c \<noteq> CHR '' '') t))"
        by (simp add: reversed_words_def)
      moreover have "set (tl (dropWhile (\<lambda>c. c \<noteq> CHR '' '') t)) \<subseteq> set t"
        using space_split [OF True] by (metis set_subset_Cons set_append Un_upper2 subset_trans)
      moreover have "set (takeWhile (\<lambda>c. c \<noteq> CHR '' '') t) \<subseteq> set t" by (auto dest: set_takeWhileD)
      ultimately show ?thesis using 1 [OF True] by (simp only: set_append set_rev list.set) blast
    qed (auto simp: words_word reversed_words_def)
  qed
  then have "NUL \<notin> set (reversed_words s)" using assms(1) by (auto simp: NUL_def)
  then have "c_string (reversed_words s @ NUL # drop (length s + 2) out) = Some (reversed_words s)" by (rule c_string_middle)
  moreover have "drop (length s + 2) (reversed_words s @ NUL # drop (length s + 2) out) = drop (length s + 2) out"
    by (simp add: length_reversed_words)
  ultimately show ?thesis using reverse_string_words_eq [OF assms] unfolding reversed_words_def by blast
qed

text \<open>A string that fills the buffer, 1023 characters, passes the test of its length, but the NUL is written one
  further than the buffer goes: both operations write past the end of the output.\<close>

theorem longest_string_overflows:
  assumes "NUL \<notin> set s" "length s = 1023" "length buf = 1024" "length out = 1024"
  shows "reverse_string_words (Some (s @ NUL # rest)) buf out = None \<and> to_upper_string toupper (Some (s @ NUL # rest)) out = None"
proof
  have p: "poke buf 0 (s @ [NUL]) = Some ([] @ s @ NUL # [])" using assms by (simp add: poke_def)
  from reverse_words_loop_eq [OF assms(1), of 0 out "[]" "[]"] assms(2-4)
  obtain buf' where "reverse_words_loop (s @ [NUL]) (Some 0) out 0 = Some (buf', reversed_words s)" by auto
  then show "reverse_string_words (Some (s @ NUL # rest)) buf out = None"
    using assms p by (simp add: reverse_string_words_def c_string_middle [OF assms(1)] STRINGS_BUFFER_SIZE_def poke_def length_reversed_words)
  have "for_to (length (map (\<lambda>c. if isdigit c then c else toupper c) s)) (\<lambda>i out. let char_it = s ! i in poke out i [if isdigit char_it then char_it else toupper char_it]) out =
      Some (take 0 out @ map (\<lambda>c. if isdigit c then c else toupper c) s @ drop (0 + length (map (\<lambda>c. if isdigit c then c else toupper c) s)) out)"
    by (rule for_to_poke) (use assms(2,4) in \<open>auto simp: Let_def\<close>)
  then show "to_upper_string toupper (Some (s @ NUL # rest)) out = None"
    using assms by (simp add: to_upper_string_def c_string_middle [OF assms(1)] STRINGS_BUFFER_SIZE_def poke_def)
qed

lemma longest_string_overflows_witness:
  "reverse_string_words (Some (replicate 1023 (CHR ''a'') @ NUL # [])) (replicate 1024 NUL) (replicate 1024 NUL) = None"
  using longest_string_overflows [of "replicate 1023 (CHR ''a'')" "replicate 1024 NUL" "replicate 1024 NUL" "[]" "\<lambda>c. c"]
  by (simp add: NUL_def)

text \<open>C31: \<^verbatim>\<open>reverse_string_words\<close> on every string, with the two buffers of 1024 bytes. Up to 1022 characters it stays in its buffers and computes its
  reference: each word of the string backwards, followed by a space, the last word too, and a NUL; the rest of the output stays. With 1023
  characters, which its test of the length lets through, it writes past the end of the output. A longer string leaves both buffers as they were.\<close>

theorem reverse_string_words_reference:
  assumes "NUL \<notin> set s" "length buf = 1024" "length out = 1024"
  shows "if length s < 1023 then
      \<exists>buf' out'. reverse_string_words (Some (s @ NUL # rest)) buf out = Some (buf', out') \<and>
        c_string out' = Some (concat (map (\<lambda>w. rev w @ '' '') (words s))) \<and> drop (length s + 2) out' = drop (length s + 2) out
    else reverse_string_words (Some (s @ NUL # rest)) buf out = (if length s = 1023 then None else Some (buf, out))"
proof (cases "length s < 1023")
  case True
  then show ?thesis using reverse_string_words_fits [OF assms(1) True assms(2,3)] by simp
next
  case False
  have "reverse_string_words (Some (s @ NUL # rest)) buf out = Some (buf, out)" if "1023 < length s"
    using that by (simp add: reverse_string_words_def c_string_middle [OF assms(1)] STRINGS_BUFFER_SIZE_def)
  moreover have "reverse_string_words (Some (s @ NUL # rest)) buf out = None" if "length s = 1023"
    using longest_string_overflows [OF assms(1) that assms(2,3)] by simp
  ultimately show ?thesis using False by simp
qed

lemma reverse_string_words_reference_witness:
  "\<exists>buf' out'. reverse_string_words (Some (''ab  cde'' @ NUL # [])) (replicate 1024 NUL) (replicate 1024 NUL) = Some (buf', out') \<and>
    c_string out' = Some ''ba  edc ''"
proof -
  have "concat (map (\<lambda>w. rev w @ '' '') (words ''ab  cde'')) = ''ba  edc ''" by (simp add: words.simps)
  with reverse_string_words_reference [of "''ab  cde''" "replicate 1024 NUL" "replicate 1024 NUL" "[]"] show ?thesis
    by (auto simp: NUL_def)
qed

lemma upper_no_NUL:
  "\<forall>c. c \<noteq> NUL \<longrightarrow> toupper c \<noteq> NUL \<Longrightarrow> NUL \<notin> set r \<Longrightarrow> NUL \<notin> set (map (\<lambda>c. if isdigit c then c else toupper c) r)"
  by (induction r) (auto simp: eq_commute [of NUL])

text \<open>What the module of \<^verbatim>\<open>part02\<close> prints: the reversed words, and the same in capitals.\<close>

lemma string_processor_init_prints:
  "string_processor_init toupper = Some ([''olleh rof skeeG 54321 '',
     map (\<lambda>c. if isdigit c then c else toupper c) ''olleh rof skeeG 54321 ''], 0)"
  if "\<forall>c. c \<noteq> NUL \<longrightarrow> toupper c \<noteq> NUL"
proof -
  let ?s = "''hello for Geeks 12345''" and ?r = "''olleh rof skeeG 54321 ''" and ?z = "replicate 1024 NUL"
  let ?up = "map (\<lambda>c. if isdigit c then c else toupper c) ?r"
  have r: "reversed_words ?s = ?r" by (simp add: reversed_words_def words.simps)
  have s: "NUL \<notin> set ?s" "NUL \<notin> set ?r" by (simp_all add: NUL_def)
  have up: "NUL \<notin> set ?up" by (rule upper_no_NUL [OF that s(2)])
  from reverse_string_words_eq [OF s(1), of ?z ?z "[]"] r obtain buf where
    rev: "reverse_string_words (Some (?s @ [NUL])) ?z ?z = Some (buf, ?r @ NUL # replicate 1001 NUL)" by auto
  have "to_upper_string toupper (Some (?r @ NUL # replicate 1001 NUL)) (?r @ NUL # replicate 1001 NUL) = Some (?up @ NUL # NUL # replicate 1000 NUL)"
    by (subst to_upper_string_eq [OF s(2)]) simp_all
  then show ?thesis unfolding string_processor_init_def STRINGS_BUFFER_SIZE_def Let_def rev
    using c_string_middle [OF s(2)] c_string_middle [OF up] by (simp del: list.map)
qed

end
