(* ===== verification/Attributes.thy ===== *)
theory Attributes
  imports Prelude
begin

text \<open>
  Attributes under \<^verbatim>\<open>/sys/class\<close> that keep a text: the demonstrations of \<^verbatim>\<open>exercise10/demo_sysfs\<close>, one attribute
  (\<^verbatim>\<open>xxx.c\<close>), three of them from one macro (\<^verbatim>\<open>xxm.c\<close>), and one whose operations report an error
  (\<^verbatim>\<open>xxe.c\<close>). The attributes of the other modules are of the same kind.
\<close>

section \<open>An attribute that keeps its text\<close>

text \<open>
  \<open>shown\<close> is the text of a state; every text of at most \<open>bound\<close> bytes can be stored, and is
  shown up to a NUL.
\<close>

locale text_attribute =
  fixes show_attr :: "'s \<Rightarrow> (int \<times> string) option" and store :: "string \<Rightarrow> nat \<Rightarrow> 's \<Rightarrow> (int \<times> 's) option"
    and ok :: "'s \<Rightarrow> bool" and shown :: "'s \<Rightarrow> string" and bound :: nat
  assumes store_text: "ok s \<Longrightarrow> count \<le> bound \<Longrightarrow>
      \<exists>s'. store buf count s = Some (int count, s') \<and> ok s' \<and> shown s' = takeWhile (\<lambda>c. c \<noteq> NUL) (take count buf)"
    and show_text: "ok s \<Longrightarrow> show_attr s = Some (int (length (shown s)), shown s)"
begin

lemma store_then_show:
  assumes "ok s" "count \<le> bound"
  shows "\<exists>s'. store buf count s = Some (int count, s') \<and> ok s' \<and>
    show_attr s' = Some (int (length (takeWhile (\<lambda>c. c \<noteq> NUL) (take count buf))), takeWhile (\<lambda>c. c \<noteq> NUL) (take count buf))"
  using store_text [OF assms, of buf] show_text by auto

text \<open>Of several stores the last is shown.\<close>

lemma last_is_shown:
  assumes "ok s" "\<forall>(buf, count) \<in> set stores. count \<le> bound" "stores \<noteq> []"
  shows "\<exists>s'. for_list (\<lambda>(buf, count) s. map_option snd (store buf count s)) stores s = Some s' \<and> ok s' \<and>
    map_option snd (show_attr s') = Some ((\<lambda>(buf, count). takeWhile (\<lambda>c. c \<noteq> NUL) (take count buf)) (last stores))"
  using assms
proof (induction stores arbitrary: s)
  case (Cons bc stores)
  obtain buf count where bc: "bc = (buf, count)" "count \<le> bound" using Cons.prems(2) by (cases bc) auto
  obtain s1 where s1: "store buf count s = Some (int count, s1)" "ok s1" "shown s1 = takeWhile (\<lambda>c. c \<noteq> NUL) (take count buf)"
    using store_text [OF Cons.prems(1) bc(2), of buf] by blast
  show ?case
  proof (cases "stores = []")
    case True
    then show ?thesis using s1 bc(1) show_text [OF s1(2)] by simp
  next
    case False
    then show ?thesis using Cons.IH [OF s1(2)] Cons.prems(2) s1(1) bc(1) by simp
  qed
qed simp

end

section \<open>The demonstrations\<close>

definition ATTR_LEN_MSG :: nat where "ATTR_LEN_MSG = 160"

text \<open>An array of 161 characters that starts with a text.\<close>

definition attr_buffer :: "string \<Rightarrow> string" where
  "attr_buffer t = t @ replicate (ATTR_LEN_MSG + 1 - length t) NUL"

definition xxx_start :: string where
  "xxx_start = attr_buffer ''Hello from module!\<newline>''"

definition xxx_show :: "string \<Rightarrow> (int \<times> string) option" where
  "xxx_show buf_msg = do { buf \<leftarrow> c_string buf_msg; Some (int (length buf), buf) }"

definition xxx_store :: "string \<Rightarrow> nat \<Rightarrow> string \<Rightarrow> (int \<times> string) option" where
  "xxx_store buf count buf_msg = do {
     msg \<leftarrow> poke buf_msg 0 (strncpy buf count);
     msg \<leftarrow> poke msg count [NUL];
     Some (int count, msg) }"

text \<open>\<^verbatim>\<open>xxe.c\<close> does the same and reports an error.\<close>

definition xxe_show :: "string \<Rightarrow> (int \<times> string) option" where
  "xxe_show buf_msg = do { buf \<leftarrow> c_string buf_msg; Some (- EIO, buf) }"

definition xxe_store :: "string \<Rightarrow> nat \<Rightarrow> string \<Rightarrow> (int \<times> string) option" where
  "xxe_store buf count buf_msg = do {
     msg \<leftarrow> poke buf_msg 0 (strncpy buf count);
     msg \<leftarrow> poke msg count [NUL];
     Some (- EIO, msg) }"

text \<open>\<^verbatim>\<open>xxm.c\<close>: the macro's three instances, one buffer each. The text before the name is Russian, in UTF-8.\<close>

datatype xxm_attr = Data1 | Data2 | Data3

definition not_initialised :: string where
  "not_initialised = map char_of ([208, 189, 208, 181, 32, 208, 184, 208, 189, 208, 184, 209, 134, 208, 184, 208, 176, 208, 187, 208, 184,
     208, 183, 208, 184, 209, 128, 208, 190, 208, 178, 208, 176, 208, 189, 208, 190, 32] :: nat list)"

definition xxm_name :: "xxm_attr \<Rightarrow> string" where
  "xxm_name a = (case a of Data1 \<Rightarrow> ''data1'' | Data2 \<Rightarrow> ''data2'' | Data3 \<Rightarrow> ''data3'')"

definition xxm_start :: "xxm_attr \<Rightarrow> string" where
  "xxm_start a = attr_buffer (not_initialised @ xxm_name a @ ''\<newline>'')"

definition xxm_show :: "xxm_attr \<Rightarrow> (xxm_attr \<Rightarrow> string) \<Rightarrow> (int \<times> string) option" where
  "xxm_show a bufs = do { buf \<leftarrow> c_string (bufs a); Some (int (length buf), buf) }"

definition xxm_store :: "xxm_attr \<Rightarrow> string \<Rightarrow> nat \<Rightarrow> (xxm_attr \<Rightarrow> string) \<Rightarrow> (int \<times> (xxm_attr \<Rightarrow> string)) option" where
  "xxm_store a buf count bufs = do {
     msg \<leftarrow> poke (bufs a) 0 (strncpy buf count);
     msg \<leftarrow> poke msg count [NUL];
     Some (int count, bufs(a := msg)) }"

text \<open>
  Loading and unloading: the class and the files in it. \<open>file_ret\<close> is the kernel's answer for a file. A class that cannot be made
  is used all the same, which is a fault; a file that cannot be made is noticed by \<^verbatim>\<open>xxx.c\<close> only.
\<close>

record attr_class =
  class_made :: bool
  class_files :: "string list"

definition no_class :: attr_class where
  "no_class = \<lparr>class_made = False, class_files = []\<rparr>"

definition class_create_file :: "int \<Rightarrow> string \<Rightarrow> attr_class \<Rightarrow> (int \<times> attr_class) option" where
  "class_create_file file_ret name s =
     (if class_made s then Some (file_ret, if file_ret = 0 then s\<lparr>class_files := name # class_files s\<rparr> else s) else None)"

definition class_remove_file :: "string \<Rightarrow> attr_class \<Rightarrow> attr_class" where
  "class_remove_file name s = s\<lparr>class_files := remove1 name (class_files s)\<rparr>"

definition xxx_init :: "bool \<Rightarrow> int \<Rightarrow> attr_class \<Rightarrow> (int \<times> attr_class) option" where
  "xxx_init class_ok file_ret s = class_create_file file_ret ''xxx'' (s\<lparr>class_made := class_ok\<rparr>)"

definition xxx_cleanup :: "attr_class \<Rightarrow> attr_class" where
  "xxx_cleanup s = (class_remove_file ''xxx'' s)\<lparr>class_made := False\<rparr>"

definition xxe_init :: "bool \<Rightarrow> int \<Rightarrow> attr_class \<Rightarrow> (int \<times> attr_class) option" where
  "xxe_init class_ok file_ret s = do { (_, s) \<leftarrow> class_create_file file_ret ''xxx'' (s\<lparr>class_made := class_ok\<rparr>); Some (0, s) }"

definition xxm_init :: "bool \<Rightarrow> (xxm_attr \<Rightarrow> int) \<Rightarrow> attr_class \<Rightarrow> (int \<times> attr_class) option" where
  "xxm_init class_ok file_ret s = do {
     (_, s) \<leftarrow> class_create_file (file_ret Data1) (xxm_name Data1) (s\<lparr>class_made := class_ok\<rparr>);
     (_, s) \<leftarrow> class_create_file (file_ret Data2) (xxm_name Data2) s;
     (_, s) \<leftarrow> class_create_file (file_ret Data3) (xxm_name Data3) s;
     Some (0, s) }"

definition xxm_cleanup :: "attr_class \<Rightarrow> attr_class" where
  "xxm_cleanup s = (class_remove_file (xxm_name Data3) (class_remove_file (xxm_name Data2) (class_remove_file (xxm_name Data1) s)))\<lparr>class_made := False\<rparr>"

section \<open>What they show\<close>

lemma poke_strncpy:
  assumes "length msg = 161" "count \<le> 160"
  shows "poke msg 0 (strncpy buf count) = Some (strncpy buf count @ drop count msg)"
    "poke (strncpy buf count @ drop count msg) count [NUL] = Some (strncpy buf count @ NUL # drop (Suc count) msg)"
  using assms by (simp_all add: poke_def)

interpretation xxx: text_attribute xxx_show xxx_store "\<lambda>s. length s = 161 \<and> NUL \<in> set s" "\<lambda>s. takeWhile (\<lambda>c. c \<noteq> NUL) s" 160
proof
  fix s buf :: string and count assume s: "length s = 161 \<and> NUL \<in> set s" and c: "(count :: nat) \<le> 160"
  let ?s' = "strncpy buf count @ NUL # drop (Suc count) s"
  have "xxx_store buf count s = Some (int count, ?s')" using s c poke_strncpy [of s count buf] by (simp add: xxx_store_def)
  moreover have "takeWhile (\<lambda>c. c \<noteq> NUL) ?s' = takeWhile (\<lambda>c. c \<noteq> NUL) (take count buf)"
    using c_string_strncpy [of buf count "drop (Suc count) s"] by (simp add: c_string_def split: if_splits)
  ultimately show "\<exists>s'. xxx_store buf count s = Some (int count, s') \<and> (length s' = 161 \<and> NUL \<in> set s') \<and>
      takeWhile (\<lambda>c. c \<noteq> NUL) s' = takeWhile (\<lambda>c. c \<noteq> NUL) (take count buf)"
    using s c by (intro exI [of _ ?s']) simp
qed (simp add: xxx_show_def c_string_def)

definition xxm_ok :: "(xxm_attr \<Rightarrow> string) \<Rightarrow> bool" where
  "xxm_ok bufs \<longleftrightarrow> (\<forall>a. length (bufs a) = 161 \<and> NUL \<in> set (bufs a))"

lemma xxm_is_xxx:
  "xxm_show a bufs = xxx_show (bufs a)" "xxm_store a buf count bufs = map_option (\<lambda>(n, m). (n, bufs(a := m))) (xxx_store buf count (bufs a))"
  by (simp_all add: xxm_show_def xxx_show_def xxm_store_def xxx_store_def map_option_bind comp_def)

interpretation xxm: text_attribute "xxm_show a" "xxm_store a" xxm_ok "\<lambda>bufs. takeWhile (\<lambda>c. c \<noteq> NUL) (bufs a)" 160 for a
proof
  fix bufs buf and count :: nat assume "xxm_ok bufs" "count \<le> 160"
  then show "\<exists>bufs'. xxm_store a buf count bufs = Some (int count, bufs') \<and> xxm_ok bufs' \<and>
      takeWhile (\<lambda>c. c \<noteq> NUL) (bufs' a) = takeWhile (\<lambda>c. c \<noteq> NUL) (take count buf)"
    using xxx.store_text [of "bufs a" count buf] by (auto simp: xxm_is_xxx xxm_ok_def)
qed (use xxx.show_text in \<open>simp add: xxm_is_xxx xxm_ok_def\<close>)

text \<open>Each attribute of \<^verbatim>\<open>xxm.c\<close> shows the last text that was stored in it, whatever is stored in the others
  before and after.\<close>

theorem attributes_independent:
  assumes "xxm_ok bufs" "\<forall>(a, buf, count) \<in> set stores. count \<le> 160"
  shows "\<exists>bufs'. for_list (\<lambda>(a, buf, count) bufs. map_option snd (xxm_store a buf count bufs)) stores bufs = Some bufs' \<and> xxm_ok bufs' \<and>
    (\<forall>a. xxm_show a bufs' = (case List.find (\<lambda>st. fst st = a) (rev stores) of
       None \<Rightarrow> xxm_show a bufs
     | Some (b, buf, count) \<Rightarrow> let t = takeWhile (\<lambda>c. c \<noteq> NUL) (take count buf) in Some (int (length t), t)))"
  using assms
proof (induction stores rule: rev_induct)
  case (snoc st stores)
  obtain a buf count where st: "st = (a, buf, count)" "count \<le> 160" using snoc.prems(2) by (cases st) auto
  obtain bufs1 where b1: "for_list (\<lambda>(a, buf, count) bufs. map_option snd (xxm_store a buf count bufs)) stores bufs = Some bufs1" "xxm_ok bufs1"
    "\<forall>a. xxm_show a bufs1 = (case List.find (\<lambda>st. fst st = a) (rev stores) of None \<Rightarrow> xxm_show a bufs
       | Some (b, buf, count) \<Rightarrow> let t = takeWhile (\<lambda>c. c \<noteq> NUL) (take count buf) in Some (int (length t), t))"
    using snoc.IH [OF snoc.prems(1)] snoc.prems(2) by auto
  obtain bufs2 where b2: "xxm_store a buf count bufs1 = Some (int count, bufs2)" "xxm_ok bufs2"
    "takeWhile (\<lambda>c. c \<noteq> NUL) (bufs2 a) = takeWhile (\<lambda>c. c \<noteq> NUL) (take count buf)"
    using xxm.store_text [OF b1(2) st(2), of a buf] by blast
  have "xxm_show c bufs2 = xxm_show c bufs1" if "c \<noteq> a" for c
    using b2(1) that by (auto simp: xxm_is_xxx)
  moreover have "xxm_show a bufs2 = (let t = takeWhile (\<lambda>c. c \<noteq> NUL) (take count buf) in Some (int (length t), t))"
    using xxm.show_text [OF b2(2), of a] b2(3) by (simp add: Let_def)
  ultimately show ?case using b1 b2 st(1) by (auto simp: for_list_append)
qed simp

lemma attributes_independent_witness:
  "\<exists>bufs. for_list (\<lambda>(a, buf, count) bufs. map_option snd (xxm_store a buf count bufs)) [(Data1, ''one'', 3), (Data2, ''two'', 3)] xxm_start = Some bufs \<and>
    xxm_show Data1 bufs = Some (3, ''one'') \<and> xxm_show Data2 bufs = Some (3, ''two'')"
proof -
  have "length (attr_buffer t) = 161 \<and> NUL \<in> set (attr_buffer t)" if "length t \<le> 160" for t
    using that by (auto simp: attr_buffer_def ATTR_LEN_MSG_def)
  moreover have "length (not_initialised @ xxm_name a @ ''\<newline>'') \<le> 160" for a
    by (cases a) (simp_all add: not_initialised_def xxm_name_def)
  ultimately have "xxm_ok xxm_start" by (simp add: xxm_ok_def xxm_start_def)
  from attributes_independent [OF this, of "[(Data1, ''one'', 3), (Data2, ''two'', 3)]"]
  obtain bufs where b: "for_list (\<lambda>(a, buf, count) bufs. map_option snd (xxm_store a buf count bufs)) [(Data1, ''one'', 3), (Data2, ''two'', 3)] xxm_start = Some bufs"
    "\<forall>a. xxm_show a bufs = (case List.find (\<lambda>st. fst st = a) (rev [(Data1, ''one'', 3), (Data2, ''two'', 3)]) of None \<Rightarrow> xxm_show a xxm_start
       | Some (b, buf, count) \<Rightarrow> let t = takeWhile (\<lambda>c. c \<noteq> NUL) (take count buf) in Some (int (length t), t))" by auto
  have "takeWhile (\<lambda>c. c \<noteq> NUL) ''one'' = ''one''" "takeWhile (\<lambda>c. c \<noteq> NUL) ''two'' = ''two''" by (simp_all add: NUL_def)
  then show ?thesis using b by (intro exI [of _ bufs]) simp
qed

text \<open>A text of more than 160 bytes runs past its buffer.\<close>

lemma long_text_overflows: "length msg = 161 \<Longrightarrow> 160 < count \<Longrightarrow> xxx_store buf count msg = None"
  by (cases "count = 161") (simp_all add: xxx_store_def poke_def)

text \<open>The attribute of \<^verbatim>\<open>xxe.c\<close> keeps the text although it reports that it failed.\<close>

lemma xxe_store_keeps: "map_option snd (xxe_store buf count msg) = map_option snd (xxx_store buf count msg)"
  by (simp add: xxe_store_def xxx_store_def map_option_bind comp_def)

text \<open>Unloading undoes loading, whichever files could be made.\<close>

lemma xxm_load_unload: "\<exists>s. xxm_init True file_ret no_class = Some (0, s) \<and> xxm_cleanup s = no_class"
  by (simp add: xxm_init_def class_create_file_def xxm_cleanup_def class_remove_file_def xxm_name_def no_class_def)

lemma xxx_load_unload: "\<exists>s. xxx_init True 0 no_class = Some (0, s) \<and> xxx_cleanup s = no_class"
  by (simp add: xxx_init_def class_create_file_def xxx_cleanup_def class_remove_file_def no_class_def)

text \<open>When its file cannot be made \<^verbatim>\<open>xxx.c\<close> fails to load and leaves its class behind.\<close>

lemma xxx_failed_load_leaks: "e \<noteq> 0 \<Longrightarrow> xxx_init True e no_class = Some (e, no_class\<lparr>class_made := True\<rparr>)"
  by (simp add: xxx_init_def class_create_file_def no_class_def)

end
