(* ===== verification/StringModule.thy ===== *)
theory StringModule
  imports ProcMessage Strings Attributes
begin

text \<open>
  The module of \<^verbatim>\<open>exercise10/part03\<close>: a text written to a file under \<^verbatim>\<open>/proc\<close> is converted as an
  attribute asks for (\<^verbatim>\<open>sysfs_handler.c\<close>, \<^verbatim>\<open>convertor_mode_enum.h\<close>), and the result is read from the
  same file (\<^verbatim>\<open>rw.c\<close>). The conversions are those of \<^verbatim>\<open>strings_processor.c\<close>.
\<close>

section \<open>State\<close>

datatype ConversionMode = NoneConversion | Flip | Uppercase | EnumEnd

definition CONF_LEN_MSG :: nat where "CONF_LEN_MSG = 15"

text \<open>The callback pointer is whether it is set: it is set to one function only.\<close>

record string_module = message_file +
  active_conversion_mode :: ConversionMode
  proc_buffer_in :: "string obj"
  proc_buffer_out :: "string obj"
  string_processing_buffer :: "string obj"
  on_conversion_mode_changed_cb :: bool
  conf_msg :: string
  x_class :: bool

definition string_module_start :: string_module where
  "string_module_start = \<lparr>msg_length = 0, msg_read_pos = 0, msg_dir = False, msg_file = False,
     active_conversion_mode = NoneConversion, proc_buffer_in = Absent, proc_buffer_out = Absent, string_processing_buffer = Absent,
     on_conversion_mode_changed_cb = False, conf_msg = ''Hello_sysfs\<newline>'' @ replicate 4 NUL, x_class = False\<rparr>"

section \<open>\<^verbatim>\<open>sysfs_handler.c\<close>\<close>

text \<open>
  \<open>kstrtos32\<close> is the kernel's parser of a number, \<open>None\<close> when the text is none: the value stays 0.
  The result is the mode that is stored, if any.
\<close>

definition convertToEnum :: "(string \<Rightarrow> int option) \<Rightarrow> string \<Rightarrow> ConversionMode option" where
  "convertToEnum kstrtos32 input_buffer =
     (let value = (case kstrtos32 input_buffer of None \<Rightarrow> 0 | Some v \<Rightarrow> v) in
      if value < 0 \<or> value \<ge> 3 then None
      else Some ([NoneConversion, Flip, Uppercase] ! nat value))"

definition register_on_conversion_mode_changed_cb :: "string_module \<Rightarrow> string_module" where
  "register_on_conversion_mode_changed_cb s = s\<lparr>on_conversion_mode_changed_cb := True\<rparr>"

definition handle_conversion_mode_changed :: "ConversionMode \<Rightarrow> string_module \<Rightarrow> string_module" where
  "handle_conversion_mode_changed conversion_mode s = s\<lparr>active_conversion_mode := conversion_mode\<rparr>"

definition conv_conf_show :: "string_module \<Rightarrow> (int \<times> string) option" where
  "conv_conf_show s = do {
     buf \<leftarrow> c_string (conf_msg s);
     Some (int (length buf), buf) }"

definition conv_conf_store :: "(string \<Rightarrow> int option) \<Rightarrow> string \<Rightarrow> nat \<Rightarrow> string_module \<Rightarrow> (int \<times> string_module) option" where
  "conv_conf_store kstrtos32 buf count s =
     (if count > CONF_LEN_MSG then Some (- EIO, s)
      else do {
        msg \<leftarrow> poke (conf_msg s) 0 (strncpy buf count);
        msg \<leftarrow> poke msg count [NUL];
        let s = s\<lparr>conf_msg := msg\<rparr>;
        text \<leftarrow> c_string msg;
        let conversion_mode = (case convertToEnum kstrtos32 text of None \<Rightarrow> NoneConversion | Some m \<Rightarrow> m);
        let s = (if on_conversion_mode_changed_cb s then handle_conversion_mode_changed conversion_mode s else s);
        Some (int count, s) })"

text \<open>An error pointer for the class is used as a class, which faults.\<close>

definition init_sysfs_handler :: "bool \<Rightarrow> int \<Rightarrow> string_module \<Rightarrow> (int \<times> string_module) option" where
  "init_sysfs_handler class_ok file_ret s = (if class_ok then Some (file_ret, s\<lparr>x_class := True\<rparr>) else None)"

text \<open>The kernel's functions accept the NULL of a class that was never made.\<close>

definition conv_sysfs_handler_cleanup :: "string_module \<Rightarrow> string_module" where
  "conv_sysfs_handler_cleanup s = s\<lparr>x_class := False\<rparr>"

section \<open>\<^verbatim>\<open>strings_processor.c\<close>: the working buffer\<close>

text \<open>The test for NULL is made on the first character: it faults when there is no memory.\<close>

definition init_converter_module :: "(nat \<Rightarrow> char) option \<Rightarrow> string_module \<Rightarrow> (int \<times> string_module) option" where
  "init_converter_module mem s =
     (let s = s\<lparr>string_processing_buffer := fresh_buffer STRINGS_BUFFER_SIZE mem\<rparr> in
      case mem of None \<Rightarrow> None
      | Some m \<Rightarrow> if m 0 = NUL then Some (- ENOMEM, s) else Some (0, s))"

definition deinit_converter_module :: "string_module \<Rightarrow> string_module option" where
  "deinit_converter_module s = (case string_processing_buffer s of
     Absent \<Rightarrow> Some s | Live _ \<Rightarrow> Some (s\<lparr>string_processing_buffer := Absent\<rparr>) | Freed \<Rightarrow> None)"

section \<open>\<^verbatim>\<open>rw.c\<close>\<close>

text \<open>The two uses of \<open>create_buffer\<close>, and what \<open>cleanup_buffer\<close> leaves behind the caller's pointer, which it does not clear.\<close>

definition create_string_buffer ::
    "((string obj \<Rightarrow> string obj) \<Rightarrow> string_module \<Rightarrow> string_module) \<Rightarrow> (nat \<Rightarrow> char) option \<Rightarrow> string_module \<Rightarrow> int \<times> string_module" where
  "create_string_buffer p_buffer mem s =
     (let s = p_buffer (\<lambda>_. fresh_buffer STRINGS_BUFFER_SIZE mem) s in
      if mem = None then (- ENOMEM, s) else (0, s\<lparr>msg_length := 0\<rparr>))"

definition cleanup_string_buffer ::
    "(string_module \<Rightarrow> string obj) \<Rightarrow> ((string obj \<Rightarrow> string obj) \<Rightarrow> string_module \<Rightarrow> string_module) \<Rightarrow> string_module \<Rightarrow> string_module option" where
  "cleanup_string_buffer p_buffer update s = do {
     s \<leftarrow> (case p_buffer s of Absent \<Rightarrow> Some s | Live _ \<Rightarrow> Some (update (\<lambda>_. Freed) s) | Freed \<Rightarrow> None);
     Some (s\<lparr>msg_length := 0\<rparr>) }"





definition string_module_exit :: "string_module \<Rightarrow> string_module option" where
  "string_module_exit s = do {
     let s = remove_message_entry s;
     s \<leftarrow> cleanup_string_buffer proc_buffer_in proc_buffer_in_update s;
     s \<leftarrow> cleanup_string_buffer proc_buffer_out proc_buffer_out_update s;
     s \<leftarrow> deinit_converter_module s;
     Some (conv_sysfs_handler_cleanup s) }"

text \<open>The three blocks of memory, the entries and the class the kernel gives; the error path does what unloading does.\<close>

definition string_module_init ::
    "(nat \<Rightarrow> char) option \<Rightarrow> (nat \<Rightarrow> char) option \<Rightarrow> (nat \<Rightarrow> char) option \<Rightarrow> bool \<Rightarrow> bool \<Rightarrow> bool \<Rightarrow> int \<Rightarrow> string_module \<Rightarrow> (int \<times> string_module) option" where
  "string_module_init mem_in mem_out mem_processing mkdir create class_ok file_ret s =
     (let (err, s) = create_string_buffer proc_buffer_in_update mem_in s;
          (err, s) = (if err \<noteq> 0 then (err, s) else create_string_buffer proc_buffer_out_update mem_out s);
          (err, s) = (if err \<noteq> 0 then (err, s) else create_message_entry mkdir create s) in
      if err \<noteq> 0 then do {
        s \<leftarrow> string_module_exit s;
        Some (err, s) }
      else do {
        (_, s) \<leftarrow> init_converter_module mem_processing s;
        (_, s) \<leftarrow> init_sysfs_handler class_ok file_ret s;
        Some (0, register_on_conversion_mode_changed_cb s) })"

section \<open>Loading, choosing a conversion, writing and reading\<close>

text \<open>A loaded module: the buffers are there, and the text behind the input ends in it.\<close>

definition string_module_ok :: "string_module \<Rightarrow> bool" where
  "string_module_ok s \<longleftrightarrow> (\<exists>i out buf. proc_buffer_in s = Live i \<and> length i = 1024 \<and> proc_buffer_out s = Live out \<and> length out = 1024 \<and>
     string_processing_buffer s = Live buf \<and> length buf = 1024) \<and> length (conf_msg s) = 16 \<and> NUL \<in> set (conf_msg s) \<and>
     on_conversion_mode_changed_cb s \<and> msg_dir s \<and> msg_file s \<and> x_class s"








text \<open>A text written to the attribute is shown by it and selects its conversion, or none when it is no number of one.\<close>

lemma conf_selects_mode:
  fixes buf :: string
  assumes "string_module_ok s" "count \<le> 15"
  defines "t \<equiv> takeWhile (\<lambda>c. c \<noteq> NUL) (take count buf)"
  shows "\<exists>s'. conv_conf_store kstrtos32 buf count s = Some (int count, s') \<and> string_module_ok s' \<and>
    conv_conf_show s' = Some (int (length t), t) \<and>
    active_conversion_mode s' = (if kstrtos32 t = Some 1 then Flip else if kstrtos32 t = Some 2 then Uppercase else NoneConversion)"
proof -
  have l: "length (conf_msg s) = 16" using assms(1) by (simp add: string_module_ok_def)
  let ?msg = "strncpy buf count @ NUL # drop (Suc count) (conf_msg s)"
  have "poke (conf_msg s) 0 (strncpy buf count) = Some (strncpy buf count @ drop count (conf_msg s))"
    "poke (strncpy buf count @ drop count (conf_msg s)) count [NUL] = Some ?msg"
    using l assms(2) by (simp_all add: poke_def)
  moreover have "c_string ?msg = Some t" unfolding t_def by (rule c_string_strncpy)
  moreover have "length ?msg = 16" using l assms(2) by simp
  moreover have "(case convertToEnum kstrtos32 t of None \<Rightarrow> NoneConversion | Some m \<Rightarrow> m) =
      (if kstrtos32 t = Some 1 then Flip else if kstrtos32 t = Some 2 then Uppercase else NoneConversion)"
  proof (cases "kstrtos32 t")
    case (Some v)
    then consider "v < 0 \<or> v \<ge> 3" | "v = 0" | "v = 1" | "v = 2" by linarith
    then show ?thesis using Some by cases (auto simp: convertToEnum_def)
  qed (simp add: convertToEnum_def)
  ultimately show ?thesis using assms(1,2)
    by (simp add: conv_conf_store_def CONF_LEN_MSG_def handle_conversion_mode_changed_def conv_conf_show_def string_module_ok_def)
qed

interpretation conf: text_attribute conv_conf_show "conv_conf_store kstrtos32" string_module_ok "\<lambda>s. takeWhile (\<lambda>c. c \<noteq> NUL) (conf_msg s)" 15
  for kstrtos32
proof
  fix s buf and count :: nat assume "string_module_ok s" "count \<le> 15"
  from conf_selects_mode [OF this, of kstrtos32 buf]
  show "\<exists>s'. conv_conf_store kstrtos32 buf count s = Some (int count, s') \<and> string_module_ok s' \<and>
      takeWhile (\<lambda>c. c \<noteq> NUL) (conf_msg s') = takeWhile (\<lambda>c. c \<noteq> NUL) (take count buf)"
    by (auto simp: conv_conf_show_def c_string_def split: if_splits bind_splits)
qed (auto simp: conv_conf_show_def c_string_def string_module_ok_def)

text \<open>A longer text is refused.\<close>

lemma conf_too_long: "15 < count \<Longrightarrow> conv_conf_store kstrtos32 buf count s = Some (- EIO, s)"
  by (simp add: conv_conf_store_def CONF_LEN_MSG_def)

text \<open>Loading either fails with an error and nothing left, or unloading gives everything back; without memory for the working
  buffer, and with a class that cannot be made, it faults.\<close>

definition string_module_clear :: "string_module \<Rightarrow> bool" where
  "string_module_clear s \<longleftrightarrow> (\<forall>b \<in> {proc_buffer_in s, proc_buffer_out s, string_processing_buffer s}. b \<in> {Absent, Freed}) \<and>
     \<not> msg_dir s \<and> \<not> msg_file s \<and> \<not> x_class s"

lemma fresh_buffer_Live: "fresh_buffer n (Some m) = Live (map m [0..<n])" "fresh_buffer n None = Absent"
  by (simp_all add: fresh_buffer_def)

lemma STRINGS_BUFFER_length: "length (map m [0..<STRINGS_BUFFER_SIZE]) = 1024"
  by (simp only: length_map length_upt STRINGS_BUFFER_SIZE_def diff_zero)

lemma string_module_load_unload:
  assumes "string_module_init mem_in mem_out mem_processing mkdir create class_ok file_ret string_module_start = r"
  shows "(if mem_in = None \<or> mem_out = None then \<exists>s. r = Some (- ENOMEM, s) \<and> string_module_clear s
     else if \<not> (mkdir \<and> create) then \<exists>s. r = Some (- EFAULT, s) \<and> string_module_clear s
     else if mem_processing = None \<or> \<not> class_ok then r = None
     else \<exists>s s'. r = Some (0, s) \<and> string_module_ok s \<and> string_module_exit s = Some s' \<and> string_module_clear s')"
proof -
  note defs = string_module_init_def create_string_buffer_def string_module_exit_def cleanup_string_buffer_def fresh_buffer_Live
    create_message_entry_def remove_message_entry_def init_converter_module_def deinit_converter_module_def init_sysfs_handler_def
    conv_sysfs_handler_cleanup_def register_on_conversion_mode_changed_cb_def string_module_start_def string_module_clear_def
    ENOMEM_def EFAULT_def
  show ?thesis
  proof (cases "mem_in = None \<or> mem_out = None")
    case True
    then show ?thesis unfolding assms [symmetric] by (cases mem_in) (simp_all add: defs)
  next
    case False
    then obtain m n where m: "mem_in = Some m" "mem_out = Some n" by auto
    show ?thesis
    proof (cases "mkdir \<and> create \<and> mem_processing \<noteq> None \<and> class_ok")
      case True
      then obtain k where "mem_processing = Some k" "mkdir" "create" "class_ok" by auto
      then show ?thesis unfolding assms [symmetric]
        by (cases "k 0 = NUL") (simp_all add: m defs string_module_ok_def STRINGS_BUFFER_length del: length_map)
    next
      case False
      then show ?thesis unfolding assms [symmetric]
        by (cases mkdir; cases create; cases mem_processing) (simp_all add: m defs Let_def)
    qed
  qed
qed

end
