(* ===== verification/Threads.thy ===== *)
theory Threads
  imports Prelude
begin

text \<open>
  The thread exercise of \<^verbatim>\<open>task9/module_main.c\<close>: a module makes three tasks, starts a kernel thread for each,
  waits until each thread has completed, and frees everything; then its init function returns -1, for which the kernel
  discards its code. Threads and module run interleaved: a step
  is one access to the shared memory, and a thread that has completed still has to return. The kernel's lists are the lists of their entries,
  a block of memory is a number that is never used twice, and using a block that is not allocated is a
  fault.
\<close>

section \<open>Memory\<close>

record task_descriptor =
  task_message :: nat
  delay_message :: int
  total_time :: int
  p_completition :: nat

text \<open>\<open>allocations\<close> counts the calls of \<open>kmalloc\<close>; \<open>live\<close> are the blocks that are allocated.\<close>

record threads_memory =
  allocations :: nat
  live :: "nat set"
  tasks :: "nat \<Rightarrow> task_descriptor"
  texts :: "nat \<Rightarrow> string"
  completed :: "nat \<Rightarrow> bool"
  task_node :: "nat \<Rightarrow> nat option"
  task_list :: "nat list"
  completitions_list :: "nat list"
  threads_list :: "nat list"

definition kmalloc :: "(nat \<Rightarrow> bool) \<Rightarrow> threads_memory \<Rightarrow> nat option \<times> threads_memory" where
  "kmalloc ok s =
     (if ok (allocations s)
      then (Some (allocations s), s\<lparr>live := insert (allocations s) (live s), allocations := allocations s + 1\<rparr>)
      else (None, s\<lparr>allocations := allocations s + 1\<rparr>))"

definition kfree :: "nat \<Rightarrow> threads_memory \<Rightarrow> threads_memory option" where
  "kfree a s = (if a \<in> live s then Some (s\<lparr>live := live s - {a}\<rparr>) else None)"

definition read_task :: "nat \<Rightarrow> threads_memory \<Rightarrow> task_descriptor option" where
  "read_task t s = (if t \<in> live s then Some (tasks s t) else None)"

section \<open>Tasks\<close>

text \<open>Only the first two allocations are tested for success.\<close>

definition add_task :: "(nat \<Rightarrow> bool) \<Rightarrow> string \<times> int \<times> int \<Rightarrow> threads_memory \<Rightarrow> threads_memory option" where
  "add_task ok = (\<lambda>(message, delay, total) s.
     (case kmalloc ok s of
        (None, s) \<Rightarrow> Some s
      | (Some new_task, s) \<Rightarrow>
          (case kmalloc ok s of
             (None, s) \<Rightarrow> kfree new_task s
           | (Some string_buffer, s) \<Rightarrow>
               let s = s\<lparr>texts := (texts s)(string_buffer := message)\<rparr> in
               (case kmalloc ok s of
                  (None, s) \<Rightarrow> None
                | (Some p_complete_handler, s) \<Rightarrow>
                    let s = s\<lparr>completed := (completed s)(p_complete_handler := False)\<rparr>;
                        s = s\<lparr>tasks := (tasks s)(new_task := \<lparr>task_message = string_buffer, delay_message = delay,
                              total_time = total, p_completition = p_complete_handler\<rparr>)\<rparr>;
                        s = s\<lparr>task_list := task_list s @ [new_task]\<rparr> in
                    Some (s\<lparr>completitions_list := completitions_list s @ [p_complete_handler]\<rparr>)))))"

definition task_dtor :: "nat \<Rightarrow> threads_memory \<Rightarrow> threads_memory option" where
  "task_dtor task s = do { d \<leftarrow> read_task task s; s \<leftarrow> kfree (task_message d) s; kfree task s }"

definition cleanup_tasks :: "threads_memory \<Rightarrow> threads_memory option" where
  "cleanup_tasks s = for_list (\<lambda>pos s. task_dtor pos (s\<lparr>task_list := remove1 pos (task_list s)\<rparr>)) (task_list s) s"

definition cleanup_completitions :: "threads_memory \<Rightarrow> threads_memory option" where
  "cleanup_completitions s =
     for_list (\<lambda>pos s. kfree pos (s\<lparr>completitions_list := remove1 pos (completitions_list s)\<rparr>)) (completitions_list s) s"

definition cleanup_threads :: "threads_memory \<Rightarrow> threads_memory option" where
  "cleanup_threads s = for_list (\<lambda>pos s. kfree pos (s\<lparr>threads_list := remove1 pos (threads_list s)\<rparr>)) (threads_list s) s"

definition cleanup_items :: "threads_memory \<Rightarrow> threads_memory option" where
  "cleanup_items s = do { s \<leftarrow> cleanup_tasks s; s \<leftarrow> cleanup_completitions s; cleanup_threads s }"

section \<open>Threads\<close>

text \<open>Where a thread is in \<open>thread_func\<close>, with \<open>remaining_process\<close> once it is set; \<open>Ending\<close> is between
  \<open>complete\<close> and \<open>return\<close>.\<close>

datatype thread_pc = Starting | Testing int | Sleeping int | Ending | Returned

fun thread_func :: "nat \<Rightarrow> thread_pc \<Rightarrow> threads_memory \<Rightarrow> (thread_pc \<times> (int \<times> string) list \<times> threads_memory) outcome" where
  "thread_func thread_data Starting s = outcome_of (do {
     d \<leftarrow> read_task thread_data s;
     Some (Testing (total_time d), [], s) })"
| "thread_func thread_data (Testing remaining_process) s = outcome_of (do {
     d \<leftarrow> read_task thread_data s;
     (if remaining_process > 0 then Some (Sleeping remaining_process, [], s)
      else if p_completition d \<in> live s
        then Some (Ending, [], s\<lparr>completed := (completed s)(p_completition d := True)\<rparr>)
        else None) })"
| "thread_func thread_data (Sleeping remaining_process) s = outcome_of (do {
     d \<leftarrow> read_task thread_data s;
     remaining \<leftarrow> c_sub remaining_process (delay_message d);
     (if task_message d \<in> live s then Some (Testing remaining, [(delay_message d, texts s (task_message d))], s) else None) })"
| "thread_func thread_data Ending s = Step (Returned, [], s)"
| "thread_func thread_data Returned s = Blocked"

section \<open>The module\<close>

text \<open>Where \<open>test_module\<close> is: the tasks still to be started, then the completions still to be waited for.
  After it has returned an error the kernel discards the module.\<close>

datatype main_pc = Spawning "nat list" | Waiting "nat list" | MainReturned int | Discarded

record system =
  memory :: threads_memory
  main_at :: main_pc
  workers :: "(nat \<times> thread_pc) list"
  task_lines :: "(int \<times> string) list"

text \<open>\<open>kthread\<close> says for which task \<open>kthread_run\<close> gets a thread; its result is not tested.\<close>

definition main_step :: "(nat \<Rightarrow> bool) \<Rightarrow> (nat \<Rightarrow> bool) \<Rightarrow> system \<Rightarrow> system outcome" where
  "main_step ok kthread s = (case main_at s of
     Spawning (task_it # rest) \<Rightarrow>
       (case kmalloc ok (memory s) of
          (None, m) \<Rightarrow> Fault
        | (Some p_thread, m) \<Rightarrow>
            let m = m\<lparr>task_node := (task_node m)(p_thread := if kthread task_it then Some task_it else None)\<rparr>;
                m = m\<lparr>threads_list := threads_list m @ [p_thread]\<rparr> in
            Step (s\<lparr>memory := m, main_at := Spawning rest,
              workers := (if kthread task_it then workers s @ [(task_it, Starting)] else workers s)\<rparr>))
   | Spawning [] \<Rightarrow> Step (s\<lparr>main_at := Waiting (completitions_list (memory s))\<rparr>)
   | Waiting (completition_it # rest) \<Rightarrow>
       if completition_it \<notin> live (memory s) then Fault
       else if completed (memory s) completition_it then Step (s\<lparr>main_at := Waiting rest\<rparr>)
       else Blocked
   | Waiting [] \<Rightarrow> outcome_of (do { m \<leftarrow> cleanup_items (memory s); Some (s\<lparr>memory := m, main_at := MainReturned (- 1)\<rparr>) })
   | MainReturned r \<Rightarrow> if r \<noteq> 0 then Step (s\<lparr>main_at := Discarded\<rparr>) else Blocked
   | Discarded \<Rightarrow> Blocked)"

text \<open>A thread that has not returned runs code of the module, which is a fault once that is discarded.\<close>

definition thread_step :: "system \<Rightarrow> nat \<Rightarrow> thread_pc \<Rightarrow> (thread_pc \<times> (int \<times> string) list \<times> threads_memory) outcome" where
  "thread_step s thread_data pc =
     (if main_at s = Discarded \<and> pc \<noteq> Returned then Fault else thread_func thread_data pc (memory s))"

text \<open>A step of the whole: of the module, or of one of the threads; a fault is \<open>None\<close>.\<close>

inductive sys_step :: "(nat \<Rightarrow> bool) \<Rightarrow> (nat \<Rightarrow> bool) \<Rightarrow> system \<Rightarrow> system option \<Rightarrow> bool" for ok kthread where
  main: "main_step ok kthread s = Step s' \<Longrightarrow> sys_step ok kthread s (Some s')"
| main_fault: "main_step ok kthread s = Fault \<Longrightarrow> sys_step ok kthread s None"
| worker: "i < length (workers s) \<Longrightarrow> workers s ! i = (t, pc) \<Longrightarrow> thread_step s t pc = Step (pc', lines, m) \<Longrightarrow>
    sys_step ok kthread s (Some (s\<lparr>memory := m, workers := (workers s)[i := (t, pc')], task_lines := task_lines s @ lines\<rparr>))"
| worker_fault: "i < length (workers s) \<Longrightarrow> workers s ! i = (t, pc) \<Longrightarrow> thread_step s t pc = Fault \<Longrightarrow>
    sys_step ok kthread s None"

definition threads_start :: threads_memory where
  "threads_start = \<lparr>allocations = 0, live = {}, tasks = \<lambda>_. \<lparr>task_message = 0, delay_message = 0, total_time = 0, p_completition = 0\<rparr>,
     texts = \<lambda>_. [], completed = \<lambda>_. False, task_node = \<lambda>_. None, task_list = [], completitions_list = [], threads_list = []\<rparr>"

definition begin_threads :: "threads_memory \<Rightarrow> system" where
  "begin_threads m = \<lparr>memory = m, main_at = Spawning (task_list m), workers = [], task_lines = []\<rparr>"

text \<open>The tasks of \<open>test_module\<close>, and the module up to the start of its threads, for any tasks.\<close>

definition test_tasks :: "(string \<times> int \<times> int) list" where
  "test_tasks = [(''test task1'', 70, 100), (''test task2'', 40, 100), (''test task5'', 10, 100)]"

definition test_module :: "(nat \<Rightarrow> bool) \<Rightarrow> (string \<times> int \<times> int) list \<Rightarrow> system option" where
  "test_module ok specs = do { m \<leftarrow> for_list (add_task ok) specs threads_start; Some (begin_threads m) }"

text \<open>So many steps lead from one state to another.\<close>

inductive steps :: "(nat \<Rightarrow> bool) \<Rightarrow> (nat \<Rightarrow> bool) \<Rightarrow> nat \<Rightarrow> system \<Rightarrow> system option \<Rightarrow> bool" for ok kthread where
  none: "steps ok kthread 0 s (Some s)"
| more: "steps ok kthread n s (Some s') \<Longrightarrow> sys_step ok kthread s' r \<Longrightarrow> steps ok kthread (Suc n) s r"

end
