(* ===== verification/ThreadsSpec.thy ===== *)
theory ThreadsSpec
  imports Threads "HOL-Library.Multiset"
begin

text \<open>
  Every run of the thread exercise, in whatever order its threads are scheduled, when everything can be allocated: it prints the
  lines of every task and leaves nothing allocated. One fault is possible: a thread that has completed, but not
  returned when the module is discarded. All other runs take one and the same number of steps. The state is described by an invariant that numbers the blocks in the
  order of their allocation.
\<close>

section \<open>What a task prints\<close>

text \<open>The number of lines for the time that remains: its quotient by the delay, rounded up.\<close>

definition lines_for :: "int \<Rightarrow> int \<Rightarrow> nat" where
  "lines_for remaining delay = (if remaining \<le> 0 then 0 else nat ((remaining + delay - 1) div delay))"

lemma lines_for_step:
  assumes "0 < d" "0 < r"
  shows "lines_for r d = Suc (lines_for (r - d) d)"
proof (cases "r \<le> d")
  case True
  then have "(r + d - 1) div d = 1" using assms by (intro div_pos_geq [THEN trans]) (auto simp: div_pos_pos_trivial)
  then show ?thesis using assms True by (simp add: lines_for_def)
next
  case False
  then have "(r + d - 1) div d = (r - 1) div d + 1" "0 \<le> (r - 1) div d"
    using assms by (auto simp: div_pos_geq pos_imp_zdiv_nonneg_iff)
  then show ?thesis using assms False by (simp add: lines_for_def nat_add_distrib)
qed

definition specs_ok :: "(string \<times> int \<times> int) list \<Rightarrow> bool" where
  "specs_ok specs \<longleftrightarrow> (\<forall>(message, delay, total) \<in> set specs. 0 < delay \<and> in_int delay \<and> in_int total)"

fun pc_lines :: "string \<times> int \<times> int \<Rightarrow> thread_pc \<Rightarrow> nat" where
  "pc_lines (message, delay, time) Starting = lines_for time delay"
| "pc_lines (message, delay, time) (Testing r) = lines_for r delay"
| "pc_lines (message, delay, time) (Sleeping r) = lines_for r delay"
| "pc_lines (message, delay, time) Ending = 0"
| "pc_lines (message, delay, time) Returned = 0"

fun pc_steps :: "string \<times> int \<times> int \<Rightarrow> thread_pc \<Rightarrow> nat" where
  "pc_steps spec Starting = 2 * pc_lines spec Starting + 3"
| "pc_steps spec (Testing r) = 2 * pc_lines spec (Testing r) + 2"
| "pc_steps spec (Sleeping r) = 2 * pc_lines spec (Sleeping r) + 1"
| "pc_steps spec Ending = 1"
| "pc_steps spec Returned = 0"

fun pc_ok :: "thread_pc \<Rightarrow> bool" where
  "pc_ok (Testing r) = in_int r"
| "pc_ok (Sleeping r) = (in_int r \<and> 0 < r)"
| "pc_ok _ = True"

text \<open>The thread has completed.\<close>

definition ended :: "thread_pc \<Rightarrow> bool" where
  "ended pc \<longleftrightarrow> pc = Ending \<or> pc = Returned"

lemma ended_simps [simp]: "ended Ending" "ended Returned" "\<not> ended Starting" "\<not> ended (Testing r)" "\<not> ended (Sleeping r)"
  by (simp_all add: ended_def)

definition spec_line :: "string \<times> int \<times> int \<Rightarrow> int \<times> string" where
  "spec_line = (\<lambda>(message, delay, total). (delay, message))"

section \<open>The memory\<close>

text \<open>The tasks are there, and \<open>j\<close> threads have been started.\<close>

definition tasks_added :: "(string \<times> int \<times> int) list \<Rightarrow> nat \<Rightarrow> threads_memory \<Rightarrow> bool" where
  "tasks_added specs j m \<longleftrightarrow>
     allocations m = 3 * length specs + j \<and> live m = {..<3 * length specs + j} \<and>
     task_list m = map (\<lambda>k. 3 * k) [0..<length specs] \<and>
     completitions_list m = map (\<lambda>k. 3 * k + 2) [0..<length specs] \<and>
     threads_list m = [3 * length specs..<3 * length specs + j] \<and>
     (\<forall>k < length specs. tasks m (3 * k) = \<lparr>task_message = 3 * k + 1, delay_message = fst (snd (specs ! k)),
        total_time = snd (snd (specs ! k)), p_completition = 3 * k + 2\<rparr> \<and> texts m (3 * k + 1) = fst (specs ! k))"

lemma lessThan_3: "{..<Suc (Suc (Suc n))} = insert (Suc (Suc n)) (insert (Suc n) (insert n {..<n}))"
  "n + 3 = Suc (Suc (Suc n))"
  by auto

lemma add_tasks:
  "\<exists>m. for_list (add_task (\<lambda>_. True)) specs threads_start = Some m \<and> tasks_added specs 0 m \<and> completed m = (\<lambda>_. False)"
proof (induction specs rule: rev_induct)
  case (snoc spec specs)
  then obtain m where m: "for_list (add_task (\<lambda>_. True)) specs threads_start = Some m" "tasks_added specs 0 m"
    "completed m = (\<lambda>_. False)" by blast
  obtain msg d t where spec: "spec = (msg, d, t)" by (cases spec)
  let ?n = "3 * length specs"
  have "add_task (\<lambda>_. True) spec m = Some (m\<lparr>allocations := ?n + 3, live := {..<?n + 3},
      texts := (texts m)(?n + 1 := msg), completed := \<lambda>_. False,
      tasks := (tasks m)(?n := \<lparr>task_message = ?n + 1, delay_message = d, total_time = t, p_completition = ?n + 2\<rparr>),
      task_list := task_list m @ [?n], completitions_list := completitions_list m @ [?n + 2]\<rparr>)"
    using m(2,3) by (simp add: add_task_def kmalloc_def spec tasks_added_def fun_upd_idem lessThan_3)
  moreover have "tasks_added (specs @ [spec]) 0 (m\<lparr>allocations := ?n + 3, live := {..<?n + 3},
      texts := (texts m)(?n + 1 := msg), completed := \<lambda>_. False,
      tasks := (tasks m)(?n := \<lparr>task_message = ?n + 1, delay_message = d, total_time = t, p_completition = ?n + 2\<rparr>),
      task_list := task_list m @ [?n], completitions_list := completitions_list m @ [?n + 2]\<rparr>)"
    using m(2) by (auto simp: tasks_added_def spec nth_append less_Suc_eq)
  ultimately show ?case using m(1) by (simp add: for_list_append)
qed (simp add: tasks_added_def threads_start_def)

text \<open>Freeing everything.\<close>

lemma free_all:
  assumes "distinct xs" "set xs \<subseteq> live m" "get m = xs"
    and upd: "\<And>m xs. get (set_it xs m) = xs" "\<And>m xs. live (set_it xs m) = live m" "\<And>m xs ys. set_it xs (set_it ys m) = set_it xs m"
      "\<And>m f. get (live_update f m) = get m" "\<And>m f xs. set_it xs (live_update f m) = live_update f (set_it xs m)" "\<And>m. set_it (get m) m = m"
  shows "for_list (\<lambda>pos s. kfree pos (set_it (remove1 pos (get s)) s)) xs m = Some (set_it [] (m\<lparr>live := live m - set xs\<rparr>))"
  using assms(1-3)
proof (induction xs arbitrary: m)
  case Nil
  then have "set_it [] m = m" using upd(6) [of m] by simp
  then show ?case by (simp add: upd)
next
  case (Cons a xs)
  let ?m = "(set_it xs m)\<lparr>live := live m - {a}\<rparr>"
  have "kfree a (set_it (remove1 a (get m)) m) = Some ?m" using Cons.prems by (simp add: kfree_def upd)
  moreover have "for_list (\<lambda>pos s. kfree pos (set_it (remove1 pos (get s)) s)) xs ?m = Some (set_it [] (?m\<lparr>live := live ?m - set xs\<rparr>))"
    by (rule Cons.IH) (use Cons.prems in \<open>auto simp: upd\<close>)
  moreover have "live m - {a} - set xs = live m - set (a # xs)" by auto
  ultimately show ?case by (simp add: upd)
qed

lemma free_tasks:
  assumes "distinct ts" "task_list m = ts" "\<And>t. t \<in> set ts \<Longrightarrow> t \<in> live m \<and> task_message (tasks m t) = Suc t \<and> Suc t \<in> live m \<and> Suc t \<notin> set ts"
  shows "for_list (\<lambda>pos s. task_dtor pos (s\<lparr>task_list := remove1 pos (task_list s)\<rparr>)) ts m =
    Some (m\<lparr>task_list := [], live := live m - set ts - Suc ` set ts\<rparr>)"
  using assms
proof (induction ts arbitrary: m)
  case (Cons t ts)
  let ?m = "m\<lparr>task_list := ts, live := live m - {Suc t} - {t}\<rparr>"
  have "task_dtor t (m\<lparr>task_list := remove1 t (task_list m)\<rparr>) = Some ?m"
    using Cons.prems by (simp add: task_dtor_def read_task_def kfree_def)
  moreover have "for_list (\<lambda>pos s. task_dtor pos (s\<lparr>task_list := remove1 pos (task_list s)\<rparr>)) ts ?m =
      Some (?m\<lparr>task_list := [], live := live ?m - set ts - Suc ` set ts\<rparr>)"
    by (rule Cons.IH) (use Cons.prems in auto)
  moreover have "live m - {Suc t} - {t} - set ts - Suc ` set ts = live m - set (t # ts) - Suc ` set (t # ts)" by auto
  ultimately show ?case by simp
qed simp

lemma three_cases: "n < 3 * k \<Longrightarrow> \<exists>i < k. n = 3 * i \<or> n = Suc (3 * i) \<or> n = 3 * i + 2" for n k :: nat
  by presburger

lemma cleanup_all:
  assumes "tasks_added specs j m"
  shows "\<exists>m'. cleanup_items m = Some m' \<and> live m' = {} \<and> task_list m' = [] \<and> completitions_list m' = [] \<and> threads_list m' = [] \<and>
    completed m' = completed m"
proof -
  define n where "n = length specs"
  define ts cs hs where "ts = map (\<lambda>k. 3 * k) [0..<n]" and "cs = map (\<lambda>k. 3 * k + 2) [0..<n]" and "hs = [3 * n..<3 * n + j]"
  have m: "live m = {..<3 * n + j}" "task_list m = ts" "completitions_list m = cs" "threads_list m = hs"
    "k < n \<Longrightarrow> task_message (tasks m (3 * k)) = Suc (3 * k)" for k
    using assms by (simp_all add: tasks_added_def n_def ts_def cs_def hs_def)
  have d: "distinct ts" "distinct cs" "distinct hs" by (auto simp: ts_def cs_def hs_def distinct_map inj_on_def)
  have sets: "x \<in> set ts \<longleftrightarrow> (\<exists>i < n. x = 3 * i)" "x \<in> set cs \<longleftrightarrow> (\<exists>i < n. x = 3 * i + 2)" "x \<in> set hs \<longleftrightarrow> 3 * n \<le> x \<and> x < 3 * n + j" for x
    by (auto simp: ts_def cs_def hs_def)
  let ?m1 = "m\<lparr>task_list := [], live := live m - set ts - Suc ` set ts\<rparr>"
  let ?m2 = "?m1\<lparr>live := live ?m1 - set cs, completitions_list := []\<rparr>"
  let ?m3 = "?m2\<lparr>live := live ?m2 - set hs, threads_list := []\<rparr>"
  have tasks_live: "t \<in> live m \<and> task_message (tasks m t) = Suc t \<and> Suc t \<in> live m \<and> Suc t \<notin> set ts" if "t \<in> set ts" for t
  proof -
    from that obtain i where i: "i < n" "t = 3 * i" by (auto simp: sets)
    moreover have "Suc (3 * i) \<noteq> 3 * k" for k by presburger
    ultimately show ?thesis using m(1,5) by (auto simp: sets)
  qed
  have "cleanup_tasks m = Some ?m1"
    unfolding cleanup_tasks_def m(2) by (rule free_tasks [OF d(1) m(2) tasks_live])
  moreover have l2: "completitions_list ?m1 = cs" using m(3) by simp
  have cs_live: "set cs \<subseteq> live ?m1"
  proof
    fix x assume "x \<in> set cs"
    then obtain i where "i < n" "x = 3 * i + 2" by (auto simp: sets)
    moreover have "3 * i + 2 \<noteq> 3 * k" "3 * i + 2 \<noteq> Suc (3 * k)" for k by presburger+
    ultimately show "x \<in> live ?m1" using m(1) by (auto simp: sets)
  qed
  have "cleanup_completitions ?m1 = Some ?m2"
    unfolding cleanup_completitions_def l2
    by (rule free_all [where get = completitions_list and set_it = "\<lambda>xs m. m\<lparr>completitions_list := xs\<rparr>", OF d(2) cs_live l2]) simp_all
  moreover have l3: "threads_list ?m2 = hs" using m(4) by simp
  have hs_live: "set hs \<subseteq> live ?m2"
  proof
    fix x assume "x \<in> set hs"
    then have "3 * n \<le> x" "x \<in> live m" using m(1) by (simp_all add: sets)
    moreover have "Suc y < 3 * n" if "y \<in> set ts" for y using that unfolding sets by auto
    moreover have "y < 3 * n" if "y \<in> set cs" for y using that unfolding sets by auto
    ultimately have "x \<notin> set ts" "x \<notin> Suc ` set ts" "x \<notin> set cs" by fastforce+
    with \<open>x \<in> live m\<close> show "x \<in> live ?m2" by simp
  qed
  have "cleanup_threads ?m2 = Some ?m3"
    unfolding cleanup_threads_def l3
    by (rule free_all [where get = threads_list and set_it = "\<lambda>xs m. m\<lparr>threads_list := xs\<rparr>", OF d(3) hs_live l3]) simp_all
  moreover have "live ?m3 = {}"
  proof -
    have "x \<in> set ts \<or> x \<in> Suc ` set ts \<or> x \<in> set cs \<or> x \<in> set hs" if "x < 3 * n + j" for x
      using three_cases [of x n] that by (cases "x < 3 * n") (auto simp: sets)
    then show ?thesis using m(1) by auto
  qed
  ultimately show ?thesis by (intro exI [of _ ?m3]) (simp add: cleanup_items_def)
qed

section \<open>The invariant of a run\<close>

definition pc_of :: "system \<Rightarrow> nat \<Rightarrow> thread_pc" where
  "pc_of s i = (if i < length (workers s) then snd (workers s ! i) else Starting)"

fun main_steps :: "nat \<Rightarrow> main_pc \<Rightarrow> nat" where
  "main_steps n (Spawning ts) = length ts + n + 3"
| "main_steps n (Waiting cs) = length cs + 2"
| "main_steps n (MainReturned r) = 1"
| "main_steps n Discarded = 0"

definition steps_left :: "(string \<times> int \<times> int) list \<Rightarrow> system \<Rightarrow> nat" where
  "steps_left specs s = main_steps (length specs) (main_at s) + (\<Sum>i<length specs. pc_steps (specs ! i) (pc_of s i))"

definition lines_left :: "(string \<times> int \<times> int) list \<Rightarrow> (nat \<Rightarrow> thread_pc) \<Rightarrow> (int \<times> string) multiset" where
  "lines_left specs pcs = (\<Sum>i<length specs. replicate_mset (pc_lines (specs ! i) (pcs i)) (spec_line (specs ! i)))"

definition run_inv :: "(string \<times> int \<times> int) list \<Rightarrow> system \<Rightarrow> bool" where
  "run_inv specs s \<longleftrightarrow>
     map fst (workers s) = map (\<lambda>k. 3 * k) [0..<length (workers s)] \<and> length (workers s) \<le> length specs \<and>
     (\<forall>i < length specs. pc_ok (pc_of s i) \<and> (completed (memory s) (3 * i + 2) \<longleftrightarrow> ended (pc_of s i))) \<and>
     mset (task_lines s) + lines_left specs (pc_of s) = lines_left specs (\<lambda>_. Starting) \<and>
     (case main_at s of
        Spawning ts \<Rightarrow> tasks_added specs (length (workers s)) (memory s) \<and> ts = map (\<lambda>k. 3 * k) [length (workers s)..<length specs]
      | Waiting cs \<Rightarrow> length (workers s) = length specs \<and> tasks_added specs (length specs) (memory s) \<and>
          (\<exists>w \<le> length specs. cs = map (\<lambda>k. 3 * k + 2) [w..<length specs] \<and> (\<forall>i < w. ended (pc_of s i)))
      | MainReturned r \<Rightarrow> length (workers s) = length specs \<and> r = - 1 \<and> live (memory s) = {} \<and> (\<forall>i < length specs. ended (pc_of s i))
      | Discarded \<Rightarrow> length (workers s) = length specs \<and> live (memory s) = {} \<and> (\<forall>i < length specs. ended (pc_of s i)))"

lemma tasks_added_completed [simp]: "tasks_added specs j (m\<lparr>completed := f\<rparr>) = tasks_added specs j m"
  by (simp add: tasks_added_def)

lemma sum_change:
  fixes f g :: "nat \<Rightarrow> 'a :: comm_monoid_add"
  assumes "i < n" "\<And>k. k < n \<Longrightarrow> k \<noteq> i \<Longrightarrow> g k = f k"
  shows "(\<Sum>k<n. g k) + f i = (\<Sum>k<n. f k) + g i"
proof -
  have "(\<Sum>k<n. f k) = f i + sum f ({..<n} - {i})" "(\<Sum>k<n. g k) = g i + sum g ({..<n} - {i})"
    using assms(1) by (simp_all add: sum.remove)
  moreover have "sum g ({..<n} - {i}) = sum f ({..<n} - {i})" by (rule sum.cong) (use assms(2) in auto)
  ultimately show ?thesis by (simp add: add_ac)
qed

text \<open>A step of one thread that prints \<open>ls\<close>.\<close>

lemma worker_update:
  assumes inv: "run_inv specs s" and i: "i < length (workers s)" and pc: "ended (pc_of s i) \<longrightarrow> ended pc'" and ok: "pc_ok pc'"
    and steps: "pc_steps (specs ! i) (pc_of s i) = Suc (pc_steps (specs ! i) pc')"
    and lines: "replicate_mset (pc_lines (specs ! i) (pc_of s i)) (spec_line (specs ! i)) =
      mset ls + replicate_mset (pc_lines (specs ! i) pc') (spec_line (specs ! i))"
  defines "s' \<equiv> s\<lparr>memory := (memory s)\<lparr>completed := (completed (memory s))(3 * i + 2 := ended pc')\<rparr>,
      workers := (workers s)[i := (3 * i, pc')], task_lines := task_lines s @ ls\<rparr>"
  shows "run_inv specs s' \<and> steps_left specs s = Suc (steps_left specs s')"
proof -
  have n: "i < length specs" using inv i by (simp add: run_inv_def)
  have pc_of: "pc_of s' k = (if k = i then pc' else pc_of s k)" for k
    using i by (auto simp: pc_of_def s'_def)
  have len: "length (workers s') = length (workers s)" and main: "main_at s' = main_at s" by (simp_all add: s'_def)
  have done_: "completed (memory s') (3 * k + 2) = (if k = i then ended pc' else completed (memory s) (3 * k + 2))" for k
    by (auto simp: s'_def)
  have fst: "map fst (workers s') = map fst (workers s)"
  proof -
    have "map fst (workers s) ! i = 3 * i" using inv i unfolding run_inv_def by simp
    then show ?thesis by (simp add: s'_def map_update) (metis list_update_id)
  qed
  have "(\<Sum>k<length specs. pc_steps (specs ! k) (pc_of s' k)) + pc_steps (specs ! i) (pc_of s i) =
      (\<Sum>k<length specs. pc_steps (specs ! k) (pc_of s k)) + pc_steps (specs ! i) (pc_of s' i)"
    by (rule sum_change [OF n]) (simp add: pc_of)
  then have "steps_left specs s = Suc (steps_left specs s')"
    using steps by (simp add: steps_left_def pc_of main)
  moreover have "lines_left specs (pc_of s') + replicate_mset (pc_lines (specs ! i) (pc_of s i)) (spec_line (specs ! i)) =
      lines_left specs (pc_of s) + replicate_mset (pc_lines (specs ! i) (pc_of s' i)) (spec_line (specs ! i))"
    unfolding lines_left_def by (rule sum_change [OF n]) (simp add: pc_of)
  then have "mset ls + lines_left specs (pc_of s') = lines_left specs (pc_of s)"
    unfolding lines pc_of by (simp add: add_ac)
  then have "mset (task_lines s') + lines_left specs (pc_of s') = mset (task_lines s) + lines_left specs (pc_of s)"
    by (simp add: s'_def add_ac)
  moreover have "tasks_added specs j (memory s') = tasks_added specs j (memory s)" "live (memory s') = live (memory s)" for j
    by (simp_all add: s'_def)
  ultimately show ?thesis using inv n pc ok unfolding run_inv_def fst len main pc_of done_
    by (cases "main_at s") auto
qed

lemma run_inv_memory:
  assumes "run_inv specs s" "i < length specs" "\<not> ended (pc_of s i)"
  shows "\<exists>j. tasks_added specs j (memory s)"
  using assms by (auto simp: run_inv_def split: main_pc.splits)

lemma thread_runs:
  assumes inv: "run_inv specs s" and ok: "specs_ok specs" and i: "i < length (workers s)" "workers s ! i = (t, pc)" and pc: "\<not> ended pc"
  shows "\<exists>pc' ls m. thread_func t pc (memory s) = Step (pc', ls, m) \<and> pc' \<noteq> Returned \<and>
    run_inv specs (s\<lparr>memory := m, workers := (workers s)[i := (t, pc')], task_lines := task_lines s @ ls\<rparr>) \<and>
    steps_left specs s = Suc (steps_left specs (s\<lparr>memory := m, workers := (workers s)[i := (t, pc')], task_lines := task_lines s @ ls\<rparr>))"
proof -
  have n: "i < length specs" using inv i(1) by (simp add: run_inv_def)
  have at: "pc_of s i = pc" using i by (simp add: pc_of_def)
  have "map fst (workers s) ! i = 3 * i" using inv i(1) unfolding run_inv_def by simp
  then have t: "t = 3 * i" using i by simp
  obtain msg d tot where spec: "specs ! i = (msg, d, tot)" by (cases "specs ! i")
  have d: "0 < d" "in_int d" "in_int tot" using ok n spec unfolding specs_ok_def by (metis (no_types, lifting) case_prodD nth_mem)+
  obtain j where mem: "tasks_added specs j (memory s)" using run_inv_memory [OF inv n] at pc by blast
  have live: "3 * i \<in> live (memory s)" "3 * i + 1 \<in> live (memory s)" "3 * i + 2 \<in> live (memory s)"
    using mem n by (auto simp: tasks_added_def)
  have task: "read_task t (memory s) = Some \<lparr>task_message = 3 * i + 1, delay_message = d, total_time = tot, p_completition = 3 * i + 2\<rparr>"
    "texts (memory s) (3 * i + 1) = msg"
    using mem n live(1) by (simp_all add: tasks_added_def read_task_def t spec)
  have pc_ok: "pc_ok pc" and done_: "\<not> completed (memory s) (3 * i + 2)" using inv n at pc by (auto simp: run_inv_def)
  have same: "(memory s)\<lparr>completed := (completed (memory s))(3 * i + 2 := False)\<rparr> = memory s" using done_ by (simp add: fun_upd_idem)
  note upd = worker_update [OF inv i(1), unfolded at]
  show ?thesis
  proof (cases pc)
    case Starting
    have "thread_func t pc (memory s) = Step (Testing tot, [], memory s)" using task Starting by (simp add: outcome_of_def)
    with upd [of "Testing tot" "[]"] show ?thesis using Starting d spec same t by auto
  next
    case (Testing r)
    show ?thesis
    proof (cases "r > 0")
      case True
      have "thread_func t pc (memory s) = Step (Sleeping r, [], memory s)" using task Testing True by (simp add: outcome_of_def)
      with upd [of "Sleeping r" "[]"] show ?thesis using Testing True pc_ok spec same t by auto
    next
      case False
      have "thread_func t pc (memory s) = Step (Ending, [], (memory s)\<lparr>completed := (completed (memory s))(3 * i + 2 := True)\<rparr>)"
        using task live(3) Testing False by (simp add: outcome_of_def)
      moreover have "lines_for r d = 0" using False by (simp add: lines_for_def)
      ultimately show ?thesis using upd [of Ending "[]"] Testing spec t by auto
    qed
  next
    case (Sleeping r)
    have r: "0 < r" "in_int r" using pc_ok Sleeping by auto
    then have in_int: "in_int (r - d)" using d(1,2) by (auto simp: in_int_def)
    then have "thread_func t pc (memory s) = Step (Testing (r - d), [(d, msg)], memory s)"
      using task live(2) Sleeping by (simp add: outcome_of_def c_sub_def c_int_def)
    with upd [of "Testing (r - d)" "[(d, msg)]"] show ?thesis
      using Sleeping spec same t in_int lines_for_step [OF d(1) r(1)] by (auto simp: spec_line_def)
  qed (use pc in simp_all)
qed

lemma thread_returns:
  assumes inv: "run_inv specs s" and i: "i < length (workers s)" "workers s ! i = (t, Ending)"
  defines "s' \<equiv> s\<lparr>memory := memory s, workers := (workers s)[i := (t, Returned)], task_lines := task_lines s @ []\<rparr>"
  shows "run_inv specs s' \<and> steps_left specs s = Suc (steps_left specs s')"
proof -
  have at: "pc_of s i = Ending" using i by (simp add: pc_of_def)
  have n: "i < length specs" using inv i(1) by (simp add: run_inv_def)
  have "map fst (workers s) ! i = 3 * i" using inv i(1) unfolding run_inv_def by simp
  then have t: "t = 3 * i" using i by simp
  obtain msg d tot where spec: "specs ! i = (msg, d, tot)" by (cases "specs ! i")
  have "completed (memory s) (3 * i + 2)" using inv n at by (auto simp: run_inv_def)
  then have same: "(memory s)\<lparr>completed := (completed (memory s))(3 * i + 2 := True)\<rparr> = memory s" by (simp add: fun_upd_idem)
  from worker_update [OF inv i(1), unfolded at, of Returned "[]"] show ?thesis using spec same t by (simp add: s'_def)
qed

lemma worker_step:
  assumes inv: "run_inv specs s" and ok: "specs_ok specs" and i: "i < length (workers s)" "workers s ! i = (t, pc)" and pc: "pc \<noteq> Returned"
    and main: "main_at s \<noteq> Discarded"
  shows "\<exists>pc' ls m. thread_step s t pc = Step (pc', ls, m) \<and>
    run_inv specs (s\<lparr>memory := m, workers := (workers s)[i := (t, pc')], task_lines := task_lines s @ ls\<rparr>) \<and>
    steps_left specs s = Suc (steps_left specs (s\<lparr>memory := m, workers := (workers s)[i := (t, pc')], task_lines := task_lines s @ ls\<rparr>))"
proof (cases "ended pc")
  case True
  then have e: "pc = Ending" using pc by (simp add: ended_def)
  with thread_returns [OF inv i(1)] i(2) main show ?thesis by (simp add: thread_step_def)
next
  case False
  with thread_runs [OF inv ok i False] main show ?thesis by (auto simp: thread_step_def)
qed

text \<open>The module takes its next step, or waits for a thread, or has returned.\<close>

definition main_progress :: "(string \<times> int \<times> int) list \<Rightarrow> system \<Rightarrow> bool" where
  "main_progress specs s \<longleftrightarrow>
    (main_step (\<lambda>_. True) (\<lambda>_. True) s = Blocked \<and> (main_at s = Discarded \<or> (\<exists>i < length (workers s). \<not> ended (pc_of s i)))) \<or>
    (\<exists>s'. main_step (\<lambda>_. True) (\<lambda>_. True) s = Step s' \<and> run_inv specs s' \<and> steps_left specs s = Suc (steps_left specs s'))"

lemma main_spawns:
  assumes inv: "run_inv specs s" and Spawning: "main_at s = Spawning ts"
  shows "main_progress specs s"
proof -
  let ?j = "length (workers s)" and ?n = "length specs"
  have inv': "map fst (workers s) = map (\<lambda>k. 3 * k) [0..<?j]" "?j \<le> ?n" "tasks_added specs ?j (memory s)" "ts = map (\<lambda>k. 3 * k) [?j..<?n]"
    using inv Spawning by (auto simp: run_inv_def)
  show ?thesis
  proof (cases "?j < ?n")
    case True
    then have ts: "ts = 3 * ?j # map (\<lambda>k. 3 * k) [Suc ?j..<?n]" using inv'(4) by (simp add: upt_conv_Cons)
    define m where "m = (memory s)\<lparr>live := insert (3 * ?n + ?j) (live (memory s)), allocations := 3 * ?n + ?j + 1,
      task_node := (task_node (memory s))(3 * ?n + ?j := Some (3 * ?j)), threads_list := threads_list (memory s) @ [3 * ?n + ?j]\<rparr>"
    define s' where "s' = s\<lparr>memory := m, main_at := Spawning (map (\<lambda>k. 3 * k) [Suc ?j..<?n]), workers := workers s @ [(3 * ?j, Starting)]\<rparr>"
    have step: "main_step (\<lambda>_. True) (\<lambda>_. True) s = Step s'"
      using Spawning ts inv'(3) by (simp add: main_step_def kmalloc_def tasks_added_def s'_def m_def)
    have pcs: "pc_of s' = pc_of s" by (rule ext) (auto simp: pc_of_def s'_def nth_append)
    have "tasks_added specs (Suc ?j) m" using inv'(3) by (auto simp: tasks_added_def m_def)
    moreover have "completed m = completed (memory s)" by (simp add: m_def)
    ultimately have "run_inv specs s'" using inv True Spawning inv'(1) unfolding run_inv_def pcs by (simp add: s'_def)
    moreover have "steps_left specs s = Suc (steps_left specs s')"
      unfolding steps_left_def pcs Spawning ts by (simp add: s'_def)
    ultimately show ?thesis unfolding main_progress_def using step by blast
  next
    case False
    then have j: "?j = ?n" "ts = []" using inv' by auto
    define s' where "s' = s\<lparr>main_at := Waiting (completitions_list (memory s))\<rparr>"
    have step: "main_step (\<lambda>_. True) (\<lambda>_. True) s = Step s'" using Spawning j by (simp add: main_step_def s'_def)
    have pcs: "pc_of s' = pc_of s" by (rule ext) (auto simp: pc_of_def s'_def)
    have l: "completitions_list (memory s) = map (\<lambda>k. 3 * k + 2) [0..<?n]" using inv'(3) by (simp add: tasks_added_def)
    have "run_inv specs s'" using inv j inv'(3) Spawning unfolding run_inv_def pcs by (auto simp: s'_def l intro!: exI [of _ 0])
    moreover have "steps_left specs s = Suc (steps_left specs s')"
      unfolding steps_left_def pcs Spawning j by (simp add: s'_def l)
    ultimately show ?thesis unfolding main_progress_def using step by blast
  qed
qed

lemma main_waits:
  assumes inv: "run_inv specs s" and Waiting: "main_at s = Waiting cs"
  shows "main_progress specs s"
proof -
  let ?n = "length specs"
  obtain w where inv': "length (workers s) = ?n" "tasks_added specs ?n (memory s)" "w \<le> ?n" "cs = map (\<lambda>k. 3 * k + 2) [w..<?n]"
    "\<forall>i < w. ended (pc_of s i)" using inv Waiting by (auto simp: run_inv_def)
  show ?thesis
  proof (cases "w < ?n")
    case True
    then have cs: "cs = (3 * w + 2) # map (\<lambda>k. 3 * k + 2) [Suc w..<?n]" using inv'(4) by (simp add: upt_conv_Cons)
    have live: "3 * w + 2 \<in> live (memory s)" using inv'(2) True by (auto simp: tasks_added_def)
    show ?thesis
    proof (cases "ended (pc_of s w)")
      case ret: True
      then have c: "completed (memory s) (3 * w + 2)" using inv True by (auto simp: run_inv_def)
      define s' where "s' = s\<lparr>main_at := Waiting (map (\<lambda>k. 3 * k + 2) [Suc w..<?n])\<rparr>"
      have step: "main_step (\<lambda>_. True) (\<lambda>_. True) s = Step s'" unfolding main_step_def Waiting cs using c live by (simp add: s'_def)
      have pcs: "pc_of s' = pc_of s" by (rule ext) (auto simp: pc_of_def s'_def)
      have "run_inv specs s'" using inv inv' Waiting True ret unfolding run_inv_def pcs
        by (auto simp: s'_def less_Suc_eq intro!: exI [of _ "Suc w"])
      moreover have "steps_left specs s = Suc (steps_left specs s')" unfolding steps_left_def pcs Waiting cs by (simp add: s'_def)
      ultimately show ?thesis unfolding main_progress_def using step by blast
    next
      case False
      then have "\<not> completed (memory s) (3 * w + 2)" using inv True by (auto simp: run_inv_def)
      then have "main_step (\<lambda>_. True) (\<lambda>_. True) s = Blocked" unfolding main_step_def Waiting cs using live by simp
      then show ?thesis using False True inv'(1) by (auto simp: main_progress_def)
    qed
  next
    case False
    then have cs: "cs = []" and all: "\<forall>i < ?n. ended (pc_of s i)" using inv' by auto
    obtain m where m: "cleanup_items (memory s) = Some m" "live m = {}" "completed m = completed (memory s)"
      using cleanup_all [OF inv'(2)] by blast
    define s' where "s' = s\<lparr>memory := m, main_at := MainReturned (- 1)\<rparr>"
    have step: "main_step (\<lambda>_. True) (\<lambda>_. True) s = Step s'" unfolding main_step_def Waiting cs using m by (simp add: s'_def outcome_of_def)
    have pcs: "pc_of s' = pc_of s" by (rule ext) (auto simp: pc_of_def s'_def)
    have "run_inv specs s'" using inv inv'(1) Waiting all m unfolding run_inv_def pcs by (simp add: s'_def)
    moreover have "steps_left specs s = Suc (steps_left specs s')" unfolding steps_left_def pcs Waiting cs by (simp add: s'_def)
    ultimately show ?thesis unfolding main_progress_def using step by blast
  qed
qed

lemma main_step_inv:
  assumes inv: "run_inv specs s"
  shows "main_progress specs s"
proof (cases "main_at s")
  case (MainReturned r)
  let ?s' = "s\<lparr>main_at := Discarded\<rparr>"
  have pcs: "pc_of ?s' = pc_of s" by (rule ext) (simp add: pc_of_def)
  have "r = - 1" using inv MainReturned by (simp add: run_inv_def)
  then have "main_step (\<lambda>_. True) (\<lambda>_. True) s = Step ?s'" using MainReturned by (simp add: main_step_def)
  moreover have "run_inv specs ?s'" using inv MainReturned unfolding run_inv_def pcs by simp
  moreover have "steps_left specs s = Suc (steps_left specs ?s')" unfolding steps_left_def pcs using MainReturned by simp
  ultimately show ?thesis unfolding main_progress_def by blast
next
  case Discarded
  then show ?thesis by (simp add: main_progress_def main_step_def)
qed (use assms main_spawns main_waits in blast)+

section \<open>Every run\<close>

definition total_steps :: "(string \<times> int \<times> int) list \<Rightarrow> nat" where
  "total_steps specs = 2 * length specs + 3 + sum_list (map (\<lambda>spec. pc_steps spec Starting) specs)"

definition all_lines :: "(string \<times> int \<times> int) list \<Rightarrow> (int \<times> string) multiset" where
  "all_lines specs = mset (concat (map (\<lambda>(message, delay, total). replicate (lines_for total delay) (delay, message)) specs))"

definition module_over :: "(string \<times> int \<times> int) list \<Rightarrow> system \<Rightarrow> bool" where
  "module_over specs s \<longleftrightarrow> main_at s = Discarded \<and> live (memory s) = {} \<and>
     length (workers s) = length specs \<and> (\<forall>(t, pc) \<in> set (workers s). pc = Returned) \<and>
     mset (task_lines s) = all_lines specs"

lemma sum_over: "(\<Sum>i<length xs. f (xs ! i)) = sum_list (map f xs)"
  by (simp add: sum_list_sum_nth atLeast0LessThan)

lemma lines_left_Starting:
  "lines_left specs (\<lambda>_. Starting) = all_lines specs"
proof -
  have "lines_left specs (\<lambda>_. Starting) = sum_list (map (\<lambda>spec. replicate_mset (pc_lines spec Starting) (spec_line spec)) specs)"
    unfolding lines_left_def by (rule sum_over)
  also have "\<dots> = mset (concat (map (\<lambda>(message, delay, total). replicate (lines_for total delay) (delay, message)) specs))"
    by (induction specs) (auto simp: spec_line_def)
  finally show ?thesis unfolding all_lines_def .
qed

lemma run_inv_start:
  "\<exists>s0. test_module (\<lambda>_. True) specs = Some s0 \<and> run_inv specs s0 \<and> steps_left specs s0 = total_steps specs \<and> workers s0 = []"
proof -
  obtain m where m: "for_list (add_task (\<lambda>_. True)) specs threads_start = Some m" "tasks_added specs 0 m" "completed m = (\<lambda>_. False)"
    using add_tasks by blast
  have pc: "pc_of (begin_threads m) = (\<lambda>_. Starting)" by (rule ext) (simp add: pc_of_def begin_threads_def)
  have "task_list m = map (\<lambda>k. 3 * k) [0..<length specs]" using m(2) by (simp add: tasks_added_def)
  then have "run_inv specs (begin_threads m)" using m unfolding run_inv_def pc by (simp add: begin_threads_def)
  moreover have "steps_left specs (begin_threads m) = total_steps specs"
    unfolding steps_left_def pc sum_over [of "\<lambda>spec. pc_steps spec Starting"] total_steps_def
    using m(2) by (simp add: begin_threads_def tasks_added_def)
  ultimately show ?thesis using m(1) by (simp add: test_module_def) (simp add: begin_threads_def)
qed

text \<open>The one fault there is.\<close>

definition returns_too_late :: "system \<Rightarrow> bool" where
  "returns_too_late s \<longleftrightarrow> main_at s = Discarded \<and> (\<exists>(t, pc) \<in> set (workers s). pc = Ending)"

lemma discarded_workers:
  assumes "run_inv specs s" "main_at s = Discarded" "i < length (workers s)" "workers s ! i = (t, pc)" "pc \<noteq> Returned"
  shows "pc = Ending"
proof -
  have "i < length specs" "ended (pc_of s i)" using assms by (simp_all add: run_inv_def)
  then show ?thesis using assms(3-5) by (simp add: pc_of_def ended_def)
qed

lemma sys_step_inv:
  assumes "sys_step (\<lambda>_. True) (\<lambda>_. True) s r" "run_inv specs s" "specs_ok specs"
  shows "case r of Some s' \<Rightarrow> run_inv specs s' \<and> steps_left specs s = Suc (steps_left specs s') | None \<Rightarrow> returns_too_late s"
  using assms(1)
proof cases
  case (main s')
  then show ?thesis using main_step_inv [OF assms(2)] by (simp add: main_progress_def)
next
  case main_fault
  then show ?thesis using main_step_inv [OF assms(2)] by (simp add: main_progress_def)
next
  case (worker i t pc pc' lines m)
  then have "pc \<noteq> Returned" "main_at s \<noteq> Discarded" by (auto simp: thread_step_def split: if_splits)
  with worker worker_step [OF assms(2,3) worker(2,3)] show ?thesis by auto
next
  case (worker_fault i t pc)
  then have pc: "pc \<noteq> Returned" by (auto simp: thread_step_def)
  with worker_fault worker_step [OF assms(2,3) worker_fault(2,3) pc] have d: "main_at s = Discarded" by auto
  then have "pc = Ending" using discarded_workers [OF assms(2) d worker_fault(2,3) pc] by simp
  moreover have "(t, pc) \<in> set (workers s)" using worker_fault(2,3) by (metis nth_mem)
  ultimately show ?thesis using worker_fault(1) d by (auto simp: returns_too_late_def)
qed

lemma too_late_faults: "returns_too_late s \<Longrightarrow> sys_step (\<lambda>_. True) (\<lambda>_. True) s None"
proof -
  assume l: "returns_too_late s"
  then obtain i t where "i < length (workers s)" "workers s ! i = (t, Ending)" by (auto simp: returns_too_late_def in_set_conv_nth)
  then show ?thesis using l by (intro sys_step.worker_fault [of i s t Ending]) (simp_all add: returns_too_late_def thread_step_def)
qed

lemma too_late_left:
  assumes "run_inv specs s" "returns_too_late s"
  shows "0 < steps_left specs s"
proof -
  obtain i t where i: "i < length (workers s)" "workers s ! i = (t, Ending)" using assms(2) by (auto simp: returns_too_late_def in_set_conv_nth)
  then have "i < length specs" "pc_of s i = Ending" using assms(1) by (simp_all add: run_inv_def pc_of_def)
  then have "(\<Sum>i<length specs. pc_steps (specs ! i) (pc_of s i)) = pc_steps (specs ! i) (pc_of s i) +
      (\<Sum>k \<in> {..<length specs} - {i}. pc_steps (specs ! k) (pc_of s k))" "pc_steps (specs ! i) (pc_of s i) = 1"
    by (simp_all add: sum.remove)
  then show ?thesis by (simp add: steps_left_def)
qed

lemma steps_inv:
  "steps (\<lambda>_. True) (\<lambda>_. True) k s0 r \<Longrightarrow> run_inv specs s0 \<Longrightarrow> specs_ok specs \<Longrightarrow>
    case r of Some s \<Rightarrow> run_inv specs s \<and> k + steps_left specs s = steps_left specs s0 | None \<Rightarrow> k \<le> steps_left specs s0"
proof (induction rule: steps.induct)
  case (more n s s' r)
  then have i: "run_inv specs s'" "n + steps_left specs s' = steps_left specs s" by simp_all
  from sys_step_inv [OF more.hyps(2) i(1) more.prems(2)] i(2) too_late_left [OF i(1)] show ?case by (cases r) auto
qed simp

lemma lines_done:
  assumes "run_inv specs s" "\<forall>i < length specs. ended (pc_of s i)"
  shows "mset (task_lines s) = all_lines specs"
proof -
  have "pc_lines spec pc = 0" if "ended pc" for spec pc using that by (cases spec) (auto simp: ended_def)
  then have "lines_left specs (pc_of s) = {#}" unfolding lines_left_def using assms(2) by simp
  then show ?thesis using assms(1) by (simp add: run_inv_def lines_left_Starting)
qed

lemma run_over:
  assumes "run_inv specs s"
  shows "steps_left specs s = 0 \<longleftrightarrow> module_over specs s"
proof -
  have pcs: "(\<forall>(t, pc) \<in> set (workers s). pc = Returned) \<longleftrightarrow> (\<forall>i < length specs. pc_of s i = Returned)" if "length (workers s) = length specs"
    using that by (fastforce simp: pc_of_def in_set_conv_nth split_beta)
  have zero: "pc_steps spec pc = 0 \<longleftrightarrow> pc = Returned" for spec pc by (cases pc) simp_all
  show ?thesis
  proof
    assume z: "steps_left specs s = 0"
    then have d: "main_at s = Discarded" by (cases "main_at s") (auto simp: steps_left_def)
    have r: "\<forall>i < length specs. pc_of s i = Returned" using z by (simp add: steps_left_def zero)
    have "length (workers s) = length specs" "live (memory s) = {}" using assms d by (simp_all add: run_inv_def)
    then show "module_over specs s" using d r lines_done [OF assms] pcs by (simp add: module_over_def)
  next
    assume "module_over specs s"
    then show "steps_left specs s = 0" using pcs by (simp add: module_over_def steps_left_def)
  qed
qed

text \<open>The schedule in which no thread gets to return before the module is discarded.\<close>

lemma steps_first: "sys_step ok kthread s (Some s1) \<Longrightarrow> steps ok kthread n s1 r \<Longrightarrow> steps ok kthread (Suc n) s r"
proof (induction n arbitrary: r)
  case 0
  then have "r = Some s1" by (auto elim: steps.cases)
  then show ?case using steps.more [OF steps.none 0(1)] by simp
next
  case (Suc n)
  from Suc.prems(2) obtain s2 where "steps ok kthread n s1 (Some s2)" "sys_step ok kthread s2 r" by (auto elim: steps.cases)
  with Suc.IH [OF Suc.prems(1)] show ?case by (blast intro: steps.more)
qed

lemma no_thread_returns:
  assumes "specs_ok specs"
  shows "run_inv specs s \<Longrightarrow> \<forall>(t, pc) \<in> set (workers s). pc \<noteq> Returned \<Longrightarrow>
    \<exists>n s'. steps (\<lambda>_. True) (\<lambda>_. True) n s (Some s') \<and> run_inv specs s' \<and> main_at s' = Discarded \<and> (\<forall>(t, pc) \<in> set (workers s'). pc \<noteq> Returned)"
proof (induction "steps_left specs s" arbitrary: s rule: less_induct)
  case less
  have go: ?case if "sys_step (\<lambda>_. True) (\<lambda>_. True) s (Some s1)" "run_inv specs s1" "steps_left specs s = Suc (steps_left specs s1)"
    "\<forall>(t, pc) \<in> set (workers s1). pc \<noteq> Returned" for s1
    using less.hyps [of s1] that steps_first [OF that(1)] by fastforce
  show ?case
  proof (cases "main_at s = Discarded")
    case True
    then show ?thesis using less.prems steps.none by blast
  next
    case False
    show ?thesis
    proof (cases "\<exists>i < length (workers s). \<not> ended (pc_of s i)")
      case True
      then obtain i t pc where i: "i < length (workers s)" "workers s ! i = (t, pc)" "\<not> ended pc"
        by (auto simp: pc_of_def) (metis prod.collapse)
      from thread_runs [OF less.prems(1) assms i] obtain pc' ls m where t: "thread_func t pc (memory s) = Step (pc', ls, m)" "pc' \<noteq> Returned"
        "run_inv specs (s\<lparr>memory := m, workers := (workers s)[i := (t, pc')], task_lines := task_lines s @ ls\<rparr>)"
        "steps_left specs s = Suc (steps_left specs (s\<lparr>memory := m, workers := (workers s)[i := (t, pc')], task_lines := task_lines s @ ls\<rparr>))"
        by blast
      have "thread_step s t pc = Step (pc', ls, m)" using t(1) False by (simp add: thread_step_def)
      from sys_step.worker [OF i(1,2) this] t(3,4) show ?thesis
      proof (rule go)
        have "set ((workers s)[i := (t, pc')]) \<subseteq> insert (t, pc') (set (workers s))" by (rule set_update_subset_insert)
        then show "\<forall>(t, pc) \<in> set (workers (s\<lparr>memory := m, workers := (workers s)[i := (t, pc')], task_lines := task_lines s @ ls\<rparr>)). pc \<noteq> Returned"
          using less.prems(2) t(2) by auto
      qed
    next
      case no: False
      then obtain s1 where s1: "main_step (\<lambda>_. True) (\<lambda>_. True) s = Step s1" "run_inv specs s1" "steps_left specs s = Suc (steps_left specs s1)"
        using main_step_inv [OF less.prems(1)] False unfolding main_progress_def by blast
      have "set (workers s1) \<subseteq> set (workers s) \<union> {(t, pc). pc = Starting}"
        using s1(1) by (auto simp: main_step_def Let_def outcome_of_def split: main_pc.splits list.splits option.splits prod.splits if_splits bind_splits)
      then show ?thesis using go [OF sys_step.main [OF s1(1)] s1(2,3)] less.prems(2) by fast
    qed
  qed
qed

text \<open>C6: With memory for everything, a thread for each task and positive delays, every run of the module is over after at most one and the
  same number of steps, however its threads are scheduled. When the init function has returned every line has been printed once and nothing
  is allocated. One fault is possible, and with any task it can happen: a thread that has completed, but not
  returned when the kernel discards the module for the -1 it returned. A run without it goes on until each thread has returned.\<close>

theorem every_run_completes:
  assumes "specs_ok specs"
  shows "\<exists>s0. test_module (\<lambda>_. True) specs = Some s0 \<and>
    (\<forall>k r. steps (\<lambda>_. True) (\<lambda>_. True) k s0 r \<longrightarrow> k \<le> total_steps specs) \<and>
    (\<forall>k s. steps (\<lambda>_. True) (\<lambda>_. True) k s0 (Some s) \<longrightarrow>
      (k = total_steps specs \<longleftrightarrow> module_over specs s) \<and>
      (k < total_steps specs \<longrightarrow> (\<exists>r. sys_step (\<lambda>_. True) (\<lambda>_. True) s r)) \<and>
      (main_at s \<in> {MainReturned (- 1), Discarded} \<longrightarrow> live (memory s) = {} \<and> mset (task_lines s) = all_lines specs) \<and>
      (sys_step (\<lambda>_. True) (\<lambda>_. True) s None \<longleftrightarrow> main_at s = Discarded \<and> (\<exists>(t, pc) \<in> set (workers s). pc = Ending))) \<and>
    (specs \<noteq> [] \<longrightarrow> (\<exists>k. steps (\<lambda>_. True) (\<lambda>_. True) k s0 None))"
proof -
  let ?steps = "steps (\<lambda>_. True) (\<lambda>_. True)" and ?step = "sys_step (\<lambda>_. True) (\<lambda>_. True)"
  obtain s0 where s0: "test_module (\<lambda>_. True) specs = Some s0" "run_inv specs s0" "steps_left specs s0 = total_steps specs" "workers s0 = []"
    using run_inv_start by blast
  have inv: "run_inv specs s" "k + steps_left specs s = total_steps specs" if "?steps k s0 (Some s)" for k s
    using steps_inv [OF that s0(2) assms] s0(3) by simp_all
  have le: "k \<le> total_steps specs" if "?steps k s0 r" for k r
    using steps_inv [OF that s0(2) assms] s0(3) by (cases r) auto
  have over: "k = total_steps specs \<longleftrightarrow> module_over specs s" if "?steps k s0 (Some s)" for k s
    using run_over [OF inv(1) [OF that]] inv(2) [OF that] by linarith
  have more: "\<exists>r. ?step s r" if "?steps k s0 (Some s)" "k < total_steps specs" for k s
  proof -
    have i: "run_inv specs s" "0 < steps_left specs s" using inv [OF that(1)] that(2) by simp_all
    show ?thesis
    proof (cases "\<exists>i < length (workers s). pc_of s i \<noteq> Returned")
      case True
      then obtain i t pc where w: "i < length (workers s)" "workers s ! i = (t, pc)" "pc \<noteq> Returned"
        by (auto simp: pc_of_def) (metis prod.collapse)
      show ?thesis
      proof (cases "main_at s = Discarded")
        case True
        then show ?thesis using sys_step.worker_fault [OF w(1,2)] w(3) by (auto simp: thread_step_def)
      next
        case False
        from worker_step [OF i(1) assms w this] obtain pc' ls m where "thread_step s t pc = Step (pc', ls, m)" by blast
        from sys_step.worker [OF w(1,2) this] show ?thesis by blast
      qed
    next
      case False
      have "main_at s \<noteq> Discarded"
      proof
        assume d: "main_at s = Discarded"
        then have "\<forall>i < length specs. pc_of s i = Returned" using i(1) False by (simp add: run_inv_def)
        then show False using d i(2) by (simp add: steps_left_def)
      qed
      moreover have "\<not> (\<exists>i < length (workers s). \<not> ended (pc_of s i))" using False by (auto simp: ended_def)
      ultimately show ?thesis using main_step_inv [OF i(1)] sys_step.main unfolding main_progress_def by blast
    qed
  qed
  have fin: "live (memory s) = {} \<and> mset (task_lines s) = all_lines specs"
    if "?steps k s0 (Some s)" "main_at s \<in> {MainReturned (- 1), Discarded}" for k s
  proof -
    have "live (memory s) = {}" "\<forall>i < length specs. ended (pc_of s i)" using inv(1) [OF that(1)] that(2) by (auto simp: run_inv_def)
    with lines_done [OF inv(1) [OF that(1)]] show ?thesis by blast
  qed
  have late: "?step s None \<longleftrightarrow> returns_too_late s" if "?steps k s0 (Some s)" for k s
    using sys_step_inv [OF _ inv(1) [OF that] assms, of None] too_late_faults by auto
  have first: "\<exists>k. ?steps k s0 None" if "specs \<noteq> []"
  proof -
    obtain n s where s: "?steps n s0 (Some s)" "run_inv specs s" "main_at s = Discarded" "\<forall>(t, pc) \<in> set (workers s). pc \<noteq> Returned"
      using no_thread_returns [OF assms s0(2)] s0(4) by auto
    have l: "0 < length (workers s)" using s(2,3) that by (simp add: run_inv_def)
    obtain t pc where w: "workers s ! 0 = (t, pc)" by (cases "workers s ! 0")
    have m: "(t, pc) \<in> set (workers s)" using l w by (metis nth_mem)
    with s(4) have "pc \<noteq> Returned" by blast
    from discarded_workers [OF s(2,3) l w this] m s(3) have "returns_too_late s" by (auto simp: returns_too_late_def)
    from steps.more [OF s(1) too_late_faults [OF this]] show ?thesis by blast
  qed
  show ?thesis
    by (rule exI [of _ s0], intro conjI allI impI)
      (fact s0(1), erule le, erule over, erule (1) more, (drule (1) fin, erule conjunct1), (drule (1) fin, erule conjunct2),
        (drule late, unfold returns_too_late_def, assumption), erule first)
qed

text \<open>The module's own three tasks: 15 lines, 48 steps.\<close>

lemma every_run_completes_witness:
  "\<exists>s0 k. test_module (\<lambda>_. True) test_tasks = Some s0 \<and> steps (\<lambda>_. True) (\<lambda>_. True) k s0 None \<and> k \<le> 48"
proof -
  have ok: "specs_ok test_tasks" by (simp add: specs_ok_def test_tasks_def in_int_def)
  have t: "total_steps test_tasks = 48" "test_tasks \<noteq> []" by (simp_all add: total_steps_def test_tasks_def lines_for_def)
  show ?thesis
  proof (rule exE [OF every_run_completes [OF ok]], elim conjE)
    fix s0
    assume "test_module (\<lambda>_. True) test_tasks = Some s0"
      and b: "\<forall>k r. steps (\<lambda>_. True) (\<lambda>_. True) k s0 r \<longrightarrow> k \<le> total_steps test_tasks"
      and "test_tasks \<noteq> [] \<longrightarrow> (\<exists>k. steps (\<lambda>_. True) (\<lambda>_. True) k s0 None)"
    moreover from this(3) t(2) obtain k where "steps (\<lambda>_. True) (\<lambda>_. True) k s0 None" by blast
    moreover from this b t(1) have "k \<le> 48" by fastforce
    ultimately show ?thesis by blast
  qed
qed

section \<open>What makes the module wait forever\<close>

text \<open>A task whose thread is not there, or goes on without an end.\<close>

definition endless :: "(string \<times> int \<times> int) list \<Rightarrow> (nat \<Rightarrow> bool) \<Rightarrow> nat \<Rightarrow> bool" where
  "endless specs kthread i \<longleftrightarrow> \<not> kthread (3 * i) \<or> (fst (snd (specs ! i)) = 0 \<and> 0 < snd (snd (specs ! i)))"

fun going_on :: "int \<Rightarrow> thread_pc \<Rightarrow> bool" where
  "going_on t Starting = True"
| "going_on t (Testing r) = (r = t)"
| "going_on t (Sleeping r) = (r = t)"
| "going_on t Ending = False"
| "going_on t Returned = False"

definition waiting_inv :: "(string \<times> int \<times> int) list \<Rightarrow> (nat \<Rightarrow> bool) \<Rightarrow> nat \<Rightarrow> system \<Rightarrow> bool" where
  "waiting_inv specs kthread i s \<longleftrightarrow>
     (\<forall>k < length specs. tasks (memory s) (3 * k) = \<lparr>task_message = 3 * k + 1, delay_message = fst (snd (specs ! k)),
        total_time = snd (snd (specs ! k)), p_completition = 3 * k + 2\<rparr>) \<and>
     \<not> completed (memory s) (3 * i + 2) \<and> 3 * i + 2 \<in> set (completitions_list (memory s)) \<and>
     (\<forall>(t, pc) \<in> set (workers s). \<exists>k < length specs. t = 3 * k \<and> kthread t \<and> (k = i \<longrightarrow> going_on (snd (snd (specs ! i))) pc)) \<and>
     (case main_at s of
        Spawning ts \<Rightarrow> (\<forall>t \<in> set ts. \<exists>k < length specs. t = 3 * k)
      | Waiting cs \<Rightarrow> 3 * i + 2 \<in> set cs
      | _ \<Rightarrow> False)"

lemma thread_func_waits:
  assumes "endless specs kthread i" "k < length specs" "kthread (3 * k)" "k = i \<longrightarrow> going_on (snd (snd (specs ! i))) pc"
    and "tasks m (3 * k) = \<lparr>task_message = 3 * k + 1, delay_message = fst (snd (specs ! k)), total_time = snd (snd (specs ! k)), p_completition = 3 * k + 2\<rparr>"
    and "thread_func (3 * k) pc m = Step (pc', ls, m')"
  shows "(k = i \<longrightarrow> going_on (snd (snd (specs ! i))) pc') \<and> tasks m' = tasks m \<and> completitions_list m' = completitions_list m \<and>
    (completed m' (3 * i + 2) \<longrightarrow> completed m (3 * i + 2))"
proof (cases pc)
  case (Testing r)
  then show ?thesis using assms
    by (cases "k = i"; cases "3 * k \<in> live m"; cases "0 < r"; cases "3 * k + 2 \<in> live m") (auto simp: outcome_of_def read_task_def endless_def)
next
  case (Sleeping r)
  then show ?thesis using assms
    by (cases "3 * k \<in> live m"; cases "c_sub r (fst (snd (specs ! k)))"; cases "3 * k + 1 \<in> live m")
      (auto simp: outcome_of_def read_task_def endless_def c_simps)
qed (use assms in \<open>auto simp: outcome_of_def read_task_def endless_def split: option.splits if_splits\<close>)

lemma waiting_inv_step:
  assumes "sys_step (\<lambda>_. True) kthread s (Some s')" "waiting_inv specs kthread i s" "endless specs kthread i"
  shows "waiting_inv specs kthread i s'"
  using assms(1)
proof cases
  case main
  then show ?thesis using assms(2)
    by (auto simp: main_step_def waiting_inv_def kmalloc_def outcome_of_def Let_def split: main_pc.splits list.splits if_splits option.splits)
next
  case (worker j t pc pc' ls m)
  have "(t, pc) \<in> set (workers s)" using worker(2,3) by (metis nth_mem)
  then obtain k where k: "k < length specs" "t = 3 * k" "kthread t" "k = i \<longrightarrow> going_on (snd (snd (specs ! i))) pc"
    using assms(2) unfolding waiting_inv_def by fast
  have "(k = i \<longrightarrow> going_on (snd (snd (specs ! i))) pc') \<and> tasks m = tasks (memory s) \<and> completitions_list m = completitions_list (memory s) \<and>
      (completed m (3 * i + 2) \<longrightarrow> completed (memory s) (3 * i + 2))"
    by (rule thread_func_waits [OF assms(3) k(1) k(3) [unfolded k(2)] k(4)]) (use assms(2) k worker(4) in \<open>auto simp: waiting_inv_def thread_step_def split: if_splits\<close>)
  moreover have "set ((workers s)[j := (t, pc')]) \<subseteq> insert (t, pc') (set (workers s))" by (rule set_update_subset_insert)
  ultimately show ?thesis using assms(2) k worker(1)
    unfolding waiting_inv_def by (auto split: main_pc.splits)
qed

text \<open>When \<^verbatim>\<open>kthread_run\<close> fails for one of the tasks, or one has a positive time and a delay of zero, the
  module never returns: it waits for a completion that does not come.\<close>

theorem endless_task_hangs:
  assumes "i < length specs" "endless specs kthread i" "test_module (\<lambda>_. True) specs = Some s0"
    and "steps (\<lambda>_. True) kthread n s0 (Some s)"
  shows "main_at s \<noteq> MainReturned r"
proof -
  obtain m where m: "for_list (add_task (\<lambda>_. True)) specs threads_start = Some m" "tasks_added specs 0 m" "completed m = (\<lambda>_. False)"
    using add_tasks by blast
  have "waiting_inv specs kthread i s0"
    using assms(1,3) m by (auto simp: test_module_def begin_threads_def waiting_inv_def tasks_added_def)
  moreover have "steps (\<lambda>_. True) kthread n s0 r' \<Longrightarrow> r' = Some s' \<Longrightarrow> waiting_inv specs kthread i s0 \<Longrightarrow> waiting_inv specs kthread i s'" for n r' s'
    by (induction arbitrary: s' rule: steps.induct) (use waiting_inv_step assms(2) in auto)
  ultimately have "waiting_inv specs kthread i s" using assms(4) by blast
  then show ?thesis by (auto simp: waiting_inv_def)
qed

lemma endless_task_hangs_witness:
  "\<exists>s0. test_module (\<lambda>_. True) [(''idle'', 0, 1)] = Some s0 \<and> main_at s0 \<noteq> MainReturned (- 1)"
proof -
  obtain s0 where s0: "test_module (\<lambda>_. True) [(''idle'', 0, 1)] = Some s0" using run_inv_start by blast
  have "main_at s0 \<noteq> MainReturned (- 1)"
    by (rule endless_task_hangs [OF _ _ s0 steps.none, of 0 "\<lambda>_. True"]) (simp_all add: endless_def)
  then show ?thesis using s0 by blast
qed

text \<open>The third allocation of a task is used without a test.\<close>

lemma completion_not_tested:
  "ok (allocations s) \<Longrightarrow> ok (Suc (allocations s)) \<Longrightarrow> \<not> ok (Suc (Suc (allocations s))) \<Longrightarrow> add_task ok spec s = None"
  by (cases spec) (simp add: add_task_def kmalloc_def)

end
