(* ===== verification/Workqueue.thy ===== *)
theory Workqueue
  imports Threads "HOL-Library.Multiset"
begin

text \<open>
  The deferred works of \<^verbatim>\<open>exercise15/mod_workqueue.c\<close>. Loading the module allocates blocks, each a work that is put
  into a queue; the kernel's workers take works from the queue in any order while the module is still loading,
  print them and free their blocks; unloading waits for the queue to be empty and for every work that was taken to return. After a
  load that failed, and after unloading, the kernel discards the code of the module: a work that has still to run or to
  return is then a fault. Module and workers run interleaved; a work is taken, runs up to its \<open>kfree\<close>, which touches its own block only, and returns.
\<close>

section \<open>The module\<close>

record my_work =
  my_work_id :: int
  my_work_j :: "32 word"
  my_work_cycles :: "64 word"

text \<open>What a work prints: its number, its times, the times of its run, and the difference.\<close>

type_synonym work_line = "int \<times> 64 word \<times> 32 word \<times> 64 word \<times> 32 word \<times> 64 word"

datatype wq_pc = Creating | Loading int | Queueing int nat | LoadReturned int | Flushing | Unloaded | CodeFreed

record wq_system =
  wq_at :: wq_pc
  my_wq :: bool
  pending :: "nat list"
  running :: "nat list"
  leaving :: nat
  blocks :: "nat \<Rightarrow> my_work option"
  blocks_made :: nat
  work_lines :: "work_line list"

definition EPERM :: int where "EPERM = 1"
definition EBADRQC :: int where "EBADRQC = 56"

text \<open>\<open>pending\<close> are the works in the queue, \<open>running\<close> those taken from it; \<open>leaving\<close> counts the runs that have freed their work and
  have not returned.\<close>

text \<open>A work that is still pending is not queued again.\<close>

definition queue_work :: "nat \<Rightarrow> wq_system \<Rightarrow> bool \<times> wq_system" where
  "queue_work work s = (if work \<in> set (pending s) then (False, s) else (True, s\<lparr>pending := pending s @ [work]\<rparr>))"

text \<open>
  The steps of \<open>init_module\<close> and \<open>cleanup_module\<close>; \<open>created\<close> says whether the queue can be made, \<open>ok\<close> which
  allocations succeed, \<open>j\<close> and \<open>cycles\<close> are the clocks at the step. A module that failed to load is not unloaded, it is discarded.
\<close>

definition wq_module_step ::
  "bool \<Rightarrow> (nat \<Rightarrow> bool) \<Rightarrow> int \<Rightarrow> 32 word \<Rightarrow> 64 word \<Rightarrow> wq_system \<Rightarrow> wq_system outcome" where
  "wq_module_step created ok works j cycles s = (case wq_at s of
     Creating \<Rightarrow>
       if created then Step (s\<lparr>my_wq := True, wq_at := Loading 0\<rparr>) else Step (s\<lparr>wq_at := LoadReturned (- EBADRQC)\<rparr>)
   | Loading n \<Rightarrow>
       if n < works then
         (let work = blocks_made s; s = s\<lparr>blocks_made := work + 1\<rparr> in
          if ok work then
            Step (s\<lparr>blocks := (blocks s)(work \<mapsto> \<lparr>my_work_id = n, my_work_j = j, my_work_cycles = cycles\<rparr>), wq_at := Queueing n work\<rparr>)
          else Step (s\<lparr>wq_at := LoadReturned (- ENOMEM)\<rparr>))
       else Step (s\<lparr>wq_at := LoadReturned 0\<rparr>)
   | Queueing n work \<Rightarrow>
       (let (ret, s) = queue_work work s in
        if \<not> ret then Step (s\<lparr>wq_at := LoadReturned (- EPERM)\<rparr>)
        else outcome_of (do { n \<leftarrow> c_add n 1; Some (s\<lparr>wq_at := Loading n\<rparr>) }))
   | LoadReturned r \<Rightarrow> if r = 0 then Step (s\<lparr>wq_at := Flushing\<rparr>) else Step (s\<lparr>wq_at := CodeFreed\<rparr>)
   | Flushing \<Rightarrow>
       if pending s = [] \<and> running s = [] \<and> leaving s = 0 then Step (s\<lparr>my_wq := False, wq_at := Unloaded\<rparr>) else Blocked
   | Unloaded \<Rightarrow> Blocked
   | CodeFreed \<Rightarrow> Blocked)"

definition my_wq_function :: "nat \<Rightarrow> 32 word \<Rightarrow> 64 word \<Rightarrow> wq_system \<Rightarrow> wq_system option" where
  "my_wq_function work j cycles s = (case blocks s work of
     None \<Rightarrow> None
   | Some wrk \<Rightarrow> Some (s\<lparr>work_lines := work_lines s @
         [(my_work_id wrk, my_work_cycles wrk, my_work_j wrk, cycles, j, cycles - my_work_cycles wrk)],
       blocks := (blocks s)(work := None)\<rparr>))"

text \<open>A worker of the kernel takes a pending work, runs it and returns from it.\<close>

definition code_gone :: "wq_system \<Rightarrow> bool" where
  "code_gone s \<longleftrightarrow> wq_at s \<in> {Unloaded, CodeFreed}"

datatype worker_action = Take nat | Run nat | Return

definition worker_step :: "worker_action \<Rightarrow> 32 word \<Rightarrow> 64 word \<Rightarrow> wq_system \<Rightarrow> wq_system outcome" where
  "worker_step act j cycles s = (case act of
     Take work \<Rightarrow>
       if work \<in> set (pending s) then Step (s\<lparr>pending := remove1 work (pending s), running := running s @ [work]\<rparr>) else Blocked
   | Run work \<Rightarrow>
       if work \<notin> set (running s) then Blocked
       else if code_gone s then Fault
       else outcome_of (my_wq_function work j cycles (s\<lparr>running := remove1 work (running s), leaving := leaving s + 1\<rparr>))
   | Return \<Rightarrow>
       if leaving s = 0 then Blocked
       else if code_gone s then Fault
       else Step (s\<lparr>leaving := leaving s - 1\<rparr>))"

definition wq_start :: wq_system where
  "wq_start = \<lparr>wq_at = Creating, my_wq = False, pending = [], running = [], leaving = 0, blocks = Map.empty, blocks_made = 0,
     work_lines = []\<rparr>"

inductive wq_step :: "bool \<Rightarrow> (nat \<Rightarrow> bool) \<Rightarrow> int \<Rightarrow> wq_system \<Rightarrow> wq_system \<Rightarrow> bool" for created ok works where
  module: "wq_module_step created ok works j cycles s = Step s' \<Longrightarrow> wq_step created ok works s s'"
| worker: "worker_step act j cycles s = Step s' \<Longrightarrow> wq_step created ok works s s'"

definition wq_faults :: "bool \<Rightarrow> (nat \<Rightarrow> bool) \<Rightarrow> int \<Rightarrow> wq_system \<Rightarrow> bool" where
  "wq_faults created ok works s \<longleftrightarrow>
     (\<exists>j cycles. wq_module_step created ok works j cycles s = Fault \<or> (\<exists>act. worker_step act j cycles s = Fault))"

section \<open>The invariant\<close>

text \<open>The numbers of the works that have still to run and of those printed.\<close>

definition work_ids :: "wq_system \<Rightarrow> int list" where
  "work_ids s = map (\<lambda>a. my_work_id (the (blocks s a))) (pending s @ running s) @ map fst (work_lines s)"

definition held :: "wq_system \<Rightarrow> nat set" where
  "held s = (case wq_at s of Queueing n a \<Rightarrow> {a} | _ \<Rightarrow> {})"

definition idle :: "wq_system \<Rightarrow> bool" where
  "idle s \<longleftrightarrow> pending s = [] \<and> running s = [] \<and> leaving s = 0"

definition wq_inv :: "int \<Rightarrow> wq_system \<Rightarrow> bool" where
  "wq_inv works s \<longleftrightarrow>
     distinct (pending s @ running s) \<and> (set (pending s) \<union> set (running s)) \<inter> held s = {} \<and>
     dom (blocks s) = set (pending s) \<union> set (running s) \<union> held s \<and>
     (\<forall>a \<in> dom (blocks s). a < blocks_made s) \<and> distinct (work_ids s) \<and>
     (case wq_at s of
        Creating \<Rightarrow> work_ids s = [] \<and> leaving s = 0 \<and> \<not> my_wq s
      | Loading n \<Rightarrow> 0 \<le> n \<and> n \<le> max 0 works \<and> set (work_ids s) = {0..<n} \<and> my_wq s
      | Queueing n a \<Rightarrow> 0 \<le> n \<and> n < works \<and> my_work_id (the (blocks s a)) = n \<and> set (work_ids s) = {0..<n} \<and> my_wq s
      | LoadReturned r \<Rightarrow> (r = 0 \<and> set (work_ids s) = {0..<works} \<and> my_wq s \<or> r = - ENOMEM \<and> my_wq s \<or>
          r = - EBADRQC \<and> \<not> my_wq s \<and> work_ids s = [] \<and> leaving s = 0)
      | Flushing \<Rightarrow> set (work_ids s) = {0..<works} \<and> my_wq s
      | Unloaded \<Rightarrow> set (work_ids s) = {0..<works} \<and> \<not> my_wq s \<and> idle s
      | CodeFreed \<Rightarrow> my_wq s \<or> idle s)"

lemma wq_inv_start: "wq_inv works wq_start"
  by (simp add: wq_inv_def wq_start_def work_ids_def held_def)

lemma wq_inv_take:
  assumes "wq_inv works s" "work \<in> set (pending s)"
  shows "wq_inv works (s\<lparr>pending := remove1 work (pending s), running := running s @ [work]\<rparr>)"
proof -
  let ?s' = "s\<lparr>pending := remove1 work (pending s), running := running s @ [work]\<rparr>"
  have m: "mset (pending ?s' @ running ?s') = mset (pending s @ running s)"
    using assms(2) by (simp add: insert_DiffM)
  then have "mset (work_ids ?s') = mset (work_ids s)"
    by (simp only: work_ids_def mset_append [of "map _ _"] mset_map) simp
  then have ids: "set (work_ids ?s') = set (work_ids s)" "distinct (work_ids ?s') = distinct (work_ids s)" "work_ids ?s' = [] \<longleftrightarrow> work_ids s = []"
    by (metis set_mset_mset, metis mset_eq_imp_distinct_iff, metis mset_zero_iff)
  have d: "distinct (pending ?s' @ running ?s')" using mset_eq_imp_distinct_iff [OF m] assms(1) by (simp add: wq_inv_def)
  have st: "set (pending ?s') \<union> set (running ?s') = set (pending s) \<union> set (running s)"
    using mset_eq_setD [OF m] by simp
  have h: "held ?s' = held s" by (simp add: held_def)
  have i: "\<not> idle s" using assms(2) by (auto simp: idle_def)
  show ?thesis using assms(1) i d unfolding wq_inv_def ids h st by (simp split: wq_pc.splits)
qed

lemma wq_inv_run:
  assumes "wq_inv works s" "work \<in> set (running s)" "\<not> code_gone s"
  shows "\<exists>s'. worker_step (Run work) j cycles s = Step s' \<and> wq_inv works s' \<and> wq_at s' = wq_at s \<and> pending s' = pending s \<and>
    Suc (length (running s')) = length (running s) \<and> leaving s' = leaving s + 1 \<and> blocks_made s' = blocks_made s"
proof -
  obtain u v where p: "running s = u @ work # v" "work \<notin> set u" by (meson split_list_first assms(2))
  have "work \<in> dom (blocks s)" using assms unfolding wq_inv_def by blast
  then obtain wrk where wrk: "blocks s work = Some wrk" by blast
  let ?line = "(my_work_id wrk, my_work_cycles wrk, my_work_j wrk, cycles, j, cycles - my_work_cycles wrk)"
  let ?s' = "s\<lparr>running := u @ v, leaving := leaving s + 1, work_lines := work_lines s @ [?line], blocks := (blocks s)(work := None)\<rparr>"
  have v: "work \<notin> set v" "work \<notin> set (pending s)" "work \<notin> held s" using assms(1) p by (auto simp: wq_inv_def)
  have step: "worker_step (Run work) j cycles s = Step ?s'"
    using assms(2,3) p wrk by (simp add: worker_step_def my_wq_function_def outcome_of_def remove1_append)
  have h: "held ?s' = held s" by (simp add: held_def)
  let ?ids = "map (\<lambda>a. my_work_id (the (blocks s a)))"
  have ids: "work_ids s = ?ids (pending s) @ ?ids u @ my_work_id wrk # ?ids v @ map fst (work_lines s)"
    using wrk by (simp add: work_ids_def p(1))
  have ids': "work_ids ?s' = ?ids (pending s) @ ?ids u @ ?ids v @ map fst (work_lines s) @ [my_work_id wrk]"
    using p(2) v(1,2) by (auto simp: work_ids_def)
  have eq: "set (work_ids ?s') = set (work_ids s)" "distinct (work_ids ?s') \<longleftrightarrow> distinct (work_ids s)"
    unfolding ids ids' by auto
  have "work_ids s \<noteq> []" "\<not> idle s" using ids p by (simp_all add: idle_def)
  moreover have "distinct (pending ?s' @ running ?s')" "(set (pending ?s') \<union> set (running ?s')) \<inter> held s = {}"
    "dom (blocks ?s') = set (pending ?s') \<union> set (running ?s') \<union> held s" "\<forall>a \<in> dom (blocks ?s'). a < blocks_made s"
    using assms(1) p v unfolding wq_inv_def by auto
  moreover have "my_work_id (the (blocks ?s' a)) = my_work_id (the (blocks s a))" if "a \<in> held s" for a
    using v(3) that by auto
  ultimately have "wq_inv works ?s'" using assms(1) eq h
    unfolding wq_inv_def by (auto split: wq_pc.splits simp: held_def)
  then show ?thesis using step p(1) by auto
qed

lemma wq_inv_module:
  assumes "wq_inv works s" "in_int works"
  shows "wq_module_step created ok works j cycles s \<noteq> Fault"
    and "wq_module_step created ok works j cycles s = Step s' \<Longrightarrow> wq_inv works s'"
proof -
  have "(wq_module_step created ok works j cycles s \<noteq> Fault) \<and>
    (\<forall>s'. wq_module_step created ok works j cycles s = Step s' \<longrightarrow> wq_inv works s')"
  proof (cases "wq_at s")
    case (Loading n)
    let ?b = "blocks_made s"
    have fresh: "?b \<notin> dom (blocks s)" "dom (blocks s) = set (pending s) \<union> set (running s)" using assms(1) Loading by (auto simp: wq_inv_def held_def)
    have ids: "work_ids (s\<lparr>blocks_made := m, blocks := (blocks s)(?b \<mapsto> w), wq_at := q\<rparr>) = work_ids s"
      "work_ids (s\<lparr>blocks_made := m, wq_at := q\<rparr>) = work_ids s" "work_ids (s\<lparr>wq_at := q\<rparr>) = work_ids s" for m w q
      using fresh by (auto simp: work_ids_def)
    show ?thesis using assms(1) Loading fresh
      by (auto simp: wq_module_step_def wq_inv_def Let_def held_def ids less_Suc_eq)
  next
    case (Queueing n a)
    have "a \<notin> set (pending s)" "a \<notin> set (running s)" "n < works" "0 \<le> n" using assms(1) Queueing by (auto simp: wq_inv_def held_def)
    moreover have "in_int (n + 1)" using assms(2) calculation by (simp add: in_int_def)
    ultimately show ?thesis using assms(1) Queueing
      by (auto simp: wq_module_step_def queue_work_def outcome_of_def c_add_def c_int_def wq_inv_def held_def work_ids_def)
  qed (use assms(1) in \<open>auto simp: wq_module_step_def wq_inv_def held_def idle_def work_ids_def max_def ENOMEM_def EBADRQC_def\<close>)
  then show "wq_module_step created ok works j cycles s \<noteq> Fault"
    and "wq_module_step created ok works j cycles s = Step s' \<Longrightarrow> wq_inv works s'" by blast+
qed

text \<open>When the code has gone after a failed load, and when works can be waiting at all.\<close>

definition load_inv :: "bool \<Rightarrow> (nat \<Rightarrow> bool) \<Rightarrow> int \<Rightarrow> wq_system \<Rightarrow> bool" where
  "load_inv created ok works s \<longleftrightarrow>
     (idle s \<or> created \<and> ok 0) \<and>
     (case wq_at s of
        Loading n \<Rightarrow> created \<and> blocks_made s = nat n \<and> 0 \<le> n \<and> (0 < n \<longrightarrow> ok 0)
      | Queueing n a \<Rightarrow> created \<and> blocks_made s = nat (n + 1) \<and> 0 \<le> n \<and> ok 0
      | LoadReturned r \<Rightarrow> r \<noteq> 0 \<longrightarrow> \<not> created \<or> (\<exists>i. int i < works \<and> \<not> ok i)
      | CodeFreed \<Rightarrow> \<not> created \<or> (\<exists>i. int i < works \<and> \<not> ok i)
      | Creating \<Rightarrow> blocks_made s = 0
      | _ \<Rightarrow> True)"

lemma load_inv_module:
  assumes "wq_inv works s" "load_inv created ok works s" "wq_module_step created ok works j cycles s = Step s'"
  shows "load_inv created ok works s'"
proof (cases "wq_at s")
  case (Loading n)
  then have n: "blocks_made s = nat n" "0 \<le> n" "int (nat n) = n" "0 < n \<longrightarrow> ok 0" "created" "idle s \<or> ok 0"
    using assms(2) by (auto simp: load_inv_def)
  show ?thesis
  proof (cases "n < works \<and> \<not> ok (nat n)")
    case True
    then have "\<exists>i. int i < works \<and> \<not> ok i" using n(3) by metis
    then show ?thesis using assms(3) Loading True n
      by (auto simp: wq_module_step_def load_inv_def Let_def idle_def)
  next
    case False
    have "ok 0" if "ok (nat n)" using that n(2,4) by (cases "n = 0") auto
    then show ?thesis using assms(3) Loading False n
      by (auto simp: wq_module_step_def load_inv_def Let_def idle_def split: if_splits)
  qed
next
  case (Queueing n a)
  then have "a \<notin> set (pending s)" using assms(1) by (auto simp: wq_inv_def held_def)
  then show ?thesis using assms Queueing
    by (auto simp: wq_module_step_def queue_work_def outcome_of_def c_add_def c_int_def load_inv_def idle_def add.commute
        split: option.splits if_splits)
qed (use assms in \<open>auto simp: wq_module_step_def load_inv_def idle_def split: if_splits\<close>)

section \<open>Every run\<close>

text \<open>What is left to do: five steps for every work that is still to be made, three for a work in the queue, two for one
  that was taken, one for one that ran.\<close>

definition work_left :: "int \<Rightarrow> wq_system \<Rightarrow> nat" where
  "work_left works s = 3 * length (pending s) + 2 * length (running s) + leaving s + (case wq_at s of
     Creating \<Rightarrow> 5 * nat works + 4
   | Loading n \<Rightarrow> 5 * nat (works - n) + 3
   | Queueing n a \<Rightarrow> 5 * nat (works - n) + 2
   | LoadReturned r \<Rightarrow> 2
   | Flushing \<Rightarrow> 1
   | _ \<Rightarrow> 0)"

lemma module_step_decreases:
  assumes "wq_inv works s" "wq_module_step created ok works j cycles s = Step s'"
  shows "work_left works s' < work_left works s"
proof (cases "wq_at s")
  case (Queueing n a)
  then have "nat (works - n) = Suc (nat (works - (n + 1)))" using assms(1) by (simp add: wq_inv_def) linarith
  then show ?thesis using assms Queueing
    by (auto simp: wq_module_step_def queue_work_def outcome_of_def c_add_def c_int_def work_left_def wq_inv_def held_def
        split: option.splits if_splits)
qed (use assms in \<open>auto simp: wq_module_step_def Let_def work_left_def split: if_splits\<close>)

text \<open>What a worker does: it faults when the code is gone, keeps the invariant otherwise.\<close>

lemma worker_faults_iff:
  assumes "wq_inv works s"
  shows "(\<exists>act j cycles. worker_step act j cycles s = Fault) \<longleftrightarrow> wq_at s = CodeFreed \<and> (running s \<noteq> [] \<or> leaving s > 0)"
proof
  assume "\<exists>act j cycles. worker_step act j cycles s = Fault"
  then obtain act j cycles where f: "worker_step act j cycles s = Fault" by blast
  have "code_gone s \<and> (running s \<noteq> [] \<or> leaving s > 0)"
  proof (cases act)
    case (Run work)
    then show ?thesis using f wq_inv_run [OF assms, of work j cycles] by (auto simp: worker_step_def split: if_splits)
  qed (use f in \<open>auto simp: worker_step_def split: if_splits\<close>)
  then show "wq_at s = CodeFreed \<and> (running s \<noteq> [] \<or> leaving s > 0)" using assms by (auto simp: code_gone_def wq_inv_def idle_def)
next
  assume "wq_at s = CodeFreed \<and> (running s \<noteq> [] \<or> leaving s > 0)"
  then have "worker_step (Run (hd (running s))) 0 0 s = Fault \<or> worker_step Return 0 0 s = Fault"
    by (auto simp: worker_step_def code_gone_def)
  then show "\<exists>act j cycles. worker_step act j cycles s = Fault" by blast
qed

lemma wq_faults_iff:
  assumes "wq_inv works s" "in_int works"
  shows "wq_faults created ok works s \<longleftrightarrow> wq_at s = CodeFreed \<and> (running s \<noteq> [] \<or> leaving s > 0)"
proof -
  have "wq_module_step created ok works j cycles s \<noteq> Fault" for j cycles by (rule wq_inv_module(1) [OF assms])
  then show ?thesis using worker_faults_iff [OF assms(1)] unfolding wq_faults_def by auto
qed

lemma worker_keeps:
  assumes "wq_inv works s" "load_inv created ok works s" "worker_step act j cycles s = Step s'"
  shows "wq_inv works s' \<and> load_inv created ok works s' \<and> work_left works s' < work_left works s"
proof (cases act)
  case (Take work)
  then have w: "work \<in> set (pending s)" and s': "s' = s\<lparr>pending := remove1 work (pending s), running := running s @ [work]\<rparr>"
    using assms(3) by (auto simp: worker_step_def split: if_splits)
  have "created \<and> ok 0" using assms(2) w by (auto simp: load_inv_def idle_def)
  then have "load_inv created ok works s'" using assms(2) unfolding s' load_inv_def by (simp split: wq_pc.splits)
  moreover have "length (pending s) = Suc (length (remove1 work (pending s)))" using w length_pos_if_in_set [OF w] by (simp add: length_remove1)
  ultimately show ?thesis using wq_inv_take [OF assms(1) w] unfolding s' work_left_def by simp
next
  case (Run work)
  then have w: "work \<in> set (running s)" "\<not> code_gone s" using assms(3) by (auto simp: worker_step_def split: if_splits)
  from wq_inv_run [OF assms(1) this, of j cycles] assms(3) Run have r: "wq_inv works s'" "wq_at s' = wq_at s" "pending s' = pending s"
    "Suc (length (running s')) = length (running s)" "leaving s' = leaving s + 1" "blocks_made s' = blocks_made s" by auto
  have "created \<and> ok 0" using assms(2) w by (auto simp: load_inv_def idle_def)
  then have "load_inv created ok works s'" using assms(2) r unfolding load_inv_def by (simp split: wq_pc.splits)
  moreover have "work_left works s' < work_left works s" using r unfolding work_left_def by (simp split: wq_pc.splits)
  ultimately show ?thesis using r(1) by simp
next
  case Return
  then have l: "leaving s > 0" and s': "s' = s\<lparr>leaving := leaving s - 1\<rparr>"
    using assms(3) by (auto simp: worker_step_def split: if_splits)
  have c: "created \<and> ok 0" using assms(2) l by (auto simp: load_inv_def idle_def)
  have "work_ids s' = work_ids s" "held s' = held s" by (simp_all add: s' work_ids_def held_def)
  then have "wq_inv works s'" using assms(1) l unfolding wq_inv_def by (auto simp: s' idle_def split: wq_pc.splits)
  moreover have "load_inv created ok works s'" using assms(2) c unfolding s' load_inv_def by (simp split: wq_pc.splits)
  ultimately show ?thesis using l unfolding s' work_left_def by simp
qed

lemma wq_step_inv:
  assumes "in_int works" "wq_inv works s" "load_inv created ok works s" "wq_step created ok works s s'"
  shows "wq_inv works s' \<and> load_inv created ok works s' \<and> work_left works s' < work_left works s"
  using assms(4)
proof cases
  case (module j cycles)
  then show ?thesis using wq_inv_module(2) [OF assms(2,1)] module_step_decreases [OF assms(2)] load_inv_module [OF assms(2,3)] by blast
next
  case (worker act j cycles)
  then show ?thesis using worker_keeps [OF assms(2,3)] by blast
qed

lemma wq_steps_inv:
  assumes "in_int works"
  shows "(wq_step created ok works ^^ k) wq_start s \<Longrightarrow>
    wq_inv works s \<and> load_inv created ok works s \<and> k + work_left works s \<le> 5 * nat works + 4"
proof (induction k arbitrary: s)
  case 0
  then have "s = wq_start" by simp
  moreover have "load_inv created ok works wq_start" by (simp add: load_inv_def wq_start_def idle_def)
  ultimately show ?case using wq_inv_start by (simp add: work_left_def) (simp add: wq_start_def)
next
  case (Suc k)
  then obtain s1 where s1: "(wq_step created ok works ^^ k) wq_start s1" "wq_step created ok works s1 s" by auto
  then show ?case using Suc.IH [OF s1(1)] wq_step_inv [OF assms _ _ s1(2)] by force
qed

lemma wq_progress:
  assumes "wq_inv works s" "in_int works" "wq_at s \<noteq> Unloaded" "wq_at s = CodeFreed \<longrightarrow> pending s \<noteq> []"
  shows "\<exists>s'. wq_step created ok works s s'"
proof (cases "idle s")
  case True
  have "wq_module_step created ok works 0 0 s \<noteq> Fault" by (rule wq_inv_module(1) [OF assms(1,2)])
  moreover have "wq_module_step created ok works 0 0 s \<noteq> Blocked"
    using True assms(3,4) by (auto simp: wq_module_step_def Let_def outcome_of_def idle_def split: wq_pc.splits option.splits prod.splits)
  ultimately show ?thesis by (metis outcome.exhaust wq_step.module)
next
  case False
  consider "pending s \<noteq> []" | "pending s = []" "running s \<noteq> []" | "pending s = []" "leaving s > 0" using False by (auto simp: idle_def)
  then show ?thesis
  proof cases
    case 1
    then have "\<exists>s'. worker_step (Take (hd (pending s))) 0 0 s = Step s'" by (simp add: worker_step_def)
    then show ?thesis using wq_step.worker by blast
  next
    case 2
    then have "hd (running s) \<in> set (running s)" "\<not> code_gone s" using assms(3,4) by (auto simp: code_gone_def)
    from wq_inv_run [OF assms(1) this] show ?thesis by (metis wq_step.worker)
  next
    case 3
    then have "\<exists>s'. worker_step Return 0 0 s = Step s'" using assms(3,4) by (auto simp: worker_step_def code_gone_def)
    then show ?thesis using wq_step.worker by blast
  qed
qed

text \<open>The module makes and queues works that no worker takes, up to the first allocation that fails; then a worker takes the first.\<close>

lemma load_undisturbed:
  assumes "\<forall>i < n. ok i" "int n \<le> works" "in_int works"
  shows "\<exists>s. (wq_step True ok works)\<^sup>*\<^sup>* wq_start s \<and> wq_at s = Loading (int n) \<and> pending s = [0..<n] \<and> running s = [] \<and>
    leaving s = 0 \<and> blocks_made s = n \<and> my_wq s"
  using assms(1,2)
proof (induction n)
  case 0
  have "wq_step True ok works wq_start (wq_start\<lparr>my_wq := True, wq_at := Loading 0\<rparr>)"
    by (rule module [of _ _ _ 0 0]) (simp add: wq_module_step_def wq_start_def)
  then show ?case by (intro exI [of _ "wq_start\<lparr>my_wq := True, wq_at := Loading 0\<rparr>"]) (auto simp: wq_start_def)
next
  case (Suc n)
  then obtain s where s: "(wq_step True ok works)\<^sup>*\<^sup>* wq_start s" "wq_at s = Loading (int n)" "pending s = [0..<n]" "running s = []"
    "leaving s = 0" "blocks_made s = n" "my_wq s" by auto
  let ?w = "\<lparr>my_work_id = int n, my_work_j = 0, my_work_cycles = 0\<rparr>"
  let ?s1 = "s\<lparr>blocks_made := n + 1, blocks := (blocks s)(n \<mapsto> ?w), wq_at := Queueing (int n) n\<rparr>"
  let ?s2 = "?s1\<lparr>pending := [0..<n] @ [n], wq_at := Loading (int n + 1)\<rparr>"
  have "wq_step True ok works s ?s1" using s(2,6) Suc.prems by (intro module [of _ _ _ 0 0]) (simp add: wq_module_step_def)
  moreover have "in_int (int n + 1)" using assms(3) Suc.prems by (simp add: in_int_def)
  then have "wq_step True ok works ?s1 ?s2"
    using s(3) by (intro module [of _ _ _ 0 0]) (simp add: wq_module_step_def queue_work_def outcome_of_def c_add_def c_int_def)
  ultimately have "(wq_step True ok works)\<^sup>*\<^sup>* wq_start ?s2" using s(1) by (meson rtranclp.rtrancl_into_rtrancl)
  then show ?case using s by (intro exI [of _ ?s2]) (simp add: add.commute)
qed

lemma failed_load_leaves_works:
  assumes "ok 0" "\<not> ok i" "int i < works" "in_int works"
  shows "\<exists>s. (wq_step True ok works)\<^sup>*\<^sup>* wq_start s \<and> wq_at s = CodeFreed \<and> 0 \<in> set (pending s) \<and> my_wq s"
proof -
  define n where "n = (LEAST n. \<not> ok n)"
  have n: "\<not> ok n" unfolding n_def by (rule LeastI [of "\<lambda>n. \<not> ok n", OF assms(2)])
  have l: "\<forall>i < n. ok i" unfolding n_def using not_less_Least [of _ "\<lambda>n. \<not> ok n"] by blast
  have "n \<le> i" unfolding n_def by (rule Least_le) (rule assms(2))
  then have w: "int n < works" using assms(3) by linarith
  have p: "0 < n" using n assms(1) by (cases n) auto
  from w obtain s where s: "(wq_step True ok works)\<^sup>*\<^sup>* wq_start s" "wq_at s = Loading (int n)" "pending s = [0..<n]" "blocks_made s = n" "my_wq s"
    using load_undisturbed [OF l _ assms(4)] by auto
  let ?s1 = "s\<lparr>blocks_made := n + 1, wq_at := LoadReturned (- ENOMEM)\<rparr>"
  have "wq_step True ok works s ?s1" using s(2,4) w n by (intro module [of _ _ _ 0 0]) (simp add: wq_module_step_def)
  moreover have "wq_step True ok works ?s1 (?s1\<lparr>wq_at := CodeFreed\<rparr>)" by (intro module [of _ _ _ 0 0]) (simp add: wq_module_step_def ENOMEM_def)
  ultimately have "(wq_step True ok works)\<^sup>*\<^sup>* wq_start (?s1\<lparr>wq_at := CodeFreed\<rparr>)" using s(1) by (meson rtranclp.rtrancl_into_rtrancl)
  then show ?thesis using s p by (intro exI [of _ "?s1\<lparr>wq_at := CodeFreed\<rparr>"]) simp
qed

lemma failed_load_faults:
  assumes "ok 0" "\<not> ok i" "int i < works" "in_int works"
  shows "\<exists>s. (wq_step True ok works)\<^sup>*\<^sup>* wq_start s \<and> wq_faults True ok works s"
proof -
  obtain s where s: "(wq_step True ok works)\<^sup>*\<^sup>* wq_start s" "wq_at s = CodeFreed" "0 \<in> set (pending s)"
    using failed_load_leaves_works [of ok i works] assms by blast
  let ?s1 = "s\<lparr>pending := remove1 0 (pending s), running := running s @ [0]\<rparr>"
  have "wq_step True ok works s ?s1" using s(3) by (intro worker [of "Take 0" 0 0]) (simp add: worker_step_def)
  with s(1) have "(wq_step True ok works)\<^sup>*\<^sup>* wq_start ?s1" by (meson rtranclp.rtrancl_into_rtrancl)
  moreover have "worker_step (Run 0) 0 0 ?s1 = Fault" using s(2) by (simp add: worker_step_def code_gone_def)
  ultimately show ?thesis unfolding wq_faults_def by blast
qed

text \<open>C7: Whatever the order in which module and workers run, whichever allocations fail: every run has at most five steps for
  each work and four more. It goes on until the module is unloaded, or discarded after a failed load with an empty queue. No step
  uses memory that is not allocated. The one fault is that of a work that was taken and has not returned when the module is discarded. It can
  happen exactly when the queue was made, the first allocation succeeds and a later one fails. A module that was unloaded has run each of its works exactly
  once, every run has returned, all blocks are freed and the queue is destroyed.\<close>

theorem every_work_runs_once:
  assumes "in_int works"
  shows "(\<forall>k s. (wq_step created ok works ^^ k) wq_start s \<longrightarrow>
      k \<le> 5 * nat works + 4 \<and>
      ((\<exists>s'. wq_step created ok works s s') \<or> wq_at s = Unloaded \<or> wq_at s = CodeFreed \<and> pending s = []) \<and>
      (wq_faults created ok works s \<longleftrightarrow> wq_at s = CodeFreed \<and> (running s \<noteq> [] \<or> leaving s > 0)) \<and>
      (wq_at s = Unloaded \<longrightarrow> blocks s = Map.empty \<and> \<not> my_wq s \<and> pending s = [] \<and> running s = [] \<and> leaving s = 0 \<and>
         distinct (map fst (work_lines s)) \<and> set (map fst (work_lines s)) = {0..<works})) \<and>
    ((\<exists>s. (wq_step created ok works)\<^sup>*\<^sup>* wq_start s \<and> wq_faults created ok works s) \<longleftrightarrow>
       created \<and> ok 0 \<and> (\<exists>i. int i < works \<and> \<not> ok i))"
proof (intro conjI allI impI)
  fix k s assume run: "(wq_step created ok works ^^ k) wq_start s"
  have inv: "wq_inv works s" "k \<le> 5 * nat works + 4" using wq_steps_inv [OF assms run] by auto
  show "k \<le> 5 * nat works + 4" by (rule inv(2))
  show "(\<exists>s'. wq_step created ok works s s') \<or> wq_at s = Unloaded \<or> wq_at s = CodeFreed \<and> pending s = []"
    using wq_progress [OF inv(1) assms] by blast
  show "wq_faults created ok works s \<longleftrightarrow> wq_at s = CodeFreed \<and> (running s \<noteq> [] \<or> leaving s > 0)"
    by (rule wq_faults_iff [OF inv(1) assms])
  assume u: "wq_at s = Unloaded"
  then have i: "idle s" "\<not> my_wq s" "set (work_ids s) = {0..<works}" "distinct (work_ids s)" "dom (blocks s) = set (pending s) \<union> set (running s)"
    using inv(1) by (simp_all add: wq_inv_def held_def)
  then show "blocks s = Map.empty" "\<not> my_wq s" "pending s = []" "running s = []" "leaving s = 0"
    "distinct (map fst (work_lines s))" "set (map fst (work_lines s)) = {0..<works}" by (simp_all add: work_ids_def idle_def)
next
  show "(\<exists>s. (wq_step created ok works)\<^sup>*\<^sup>* wq_start s \<and> wq_faults created ok works s) \<longleftrightarrow>
       created \<and> ok 0 \<and> (\<exists>i. int i < works \<and> \<not> ok i)"
  proof
    assume "\<exists>s. (wq_step created ok works)\<^sup>*\<^sup>* wq_start s \<and> wq_faults created ok works s"
    then obtain s k where s: "(wq_step created ok works ^^ k) wq_start s" "wq_faults created ok works s" by (meson rtranclp_imp_relpowp)
    have inv: "wq_inv works s" "load_inv created ok works s" using wq_steps_inv [OF assms s(1)] by auto
    have "wq_at s = CodeFreed" "\<not> idle s"
      using s(2) wq_faults_iff [OF inv(1) assms] by (auto simp: idle_def)
    then show "created \<and> ok 0 \<and> (\<exists>i. int i < works \<and> \<not> ok i)" using inv(2) by (simp add: load_inv_def)
  next
    assume "created \<and> ok 0 \<and> (\<exists>i. int i < works \<and> \<not> ok i)"
    then show "\<exists>s. (wq_step created ok works)\<^sup>*\<^sup>* wq_start s \<and> wq_faults created ok works s"
      using failed_load_faults [of ok _ works] assms by auto
  qed
qed

text \<open>Two works of which the second gets no memory: the run of the first can fault.\<close>

lemma every_work_runs_once_witness:
  "\<exists>s. (wq_step True (\<lambda>i. i = 0) 2)\<^sup>*\<^sup>* wq_start s \<and> wq_faults True (\<lambda>i. i = 0) 2 s"
proof -
  have "in_int 2" by (simp add: in_int_def)
  note every_work_runs_once [OF this, of True "\<lambda>i. i = 0"]
  moreover have "\<exists>i. int i < 2 \<and> i \<noteq> 0" by (rule exI [of _ 1]) simp
  ultimately show ?thesis by simp
qed

end
