(* ===== verification/Interrupts.thy ===== *)
theory Interrupts
  imports Prelude
begin

text \<open>
  The interrupt modules of \<^verbatim>\<open>exercise15\<close>: \<^verbatim>\<open>lab1_interrupt.c\<close> counts the interrupts of a shared line,
  \<^verbatim>\<open>mod_ser.c\<close> puts several handlers on one line, \<^verbatim>\<open>mod_tasklet.c\<close> defers a function. A line
  keeps its handlers in the order of their registration and an interrupt calls them all; a handler is known by
  the \<open>dev_id\<close> it was registered with. Whether the kernel grants a registration is a parameter.
\<close>

section \<open>Shared lines\<close>

text \<open>The handlers of all lines, as pairs of line and \<open>dev_id\<close>.\<close>

type_synonym irq_handlers = "(int \<times> int) list"

definition request_irq :: "int \<Rightarrow> int \<Rightarrow> int \<Rightarrow> irq_handlers \<Rightarrow> int \<times> irq_handlers" where
  "request_irq answer irq dev_id hs = (answer, if answer = 0 then hs @ [(irq, dev_id)] else hs)"

definition free_irq :: "int \<Rightarrow> int \<Rightarrow> irq_handlers \<Rightarrow> irq_handlers" where
  "free_irq irq dev_id hs = remove1 (irq, dev_id) hs"

definition handlers_of :: "int \<Rightarrow> irq_handlers \<Rightarrow> int list" where
  "handlers_of irq hs = map snd (filter (\<lambda>h. fst h = irq) hs)"

section \<open>Counting\<close>

text \<open>The module's \<open>dev_id\<close> is the address of \<open>my_dev_id\<close>.\<close>

record lab1 =
  lab1_irq :: int
  irq_counter :: int
  irq_lines :: irq_handlers
  lab1_log :: "string list"

definition SHARED_IRQ :: int where "SHARED_IRQ = 17"

definition my_interrupt :: "lab1 \<Rightarrow> (int \<times> lab1) option" where
  "my_interrupt s = do {
     counter \<leftarrow> c_add (irq_counter s) 1;
     let s = s\<lparr>irq_counter := counter, lab1_log := lab1_log s @ [''In the ISR: counter = '' @ show_int counter @ ''\<newline>'']\<rparr>;
     Some (0, s) }"

definition my_init :: "int \<Rightarrow> int \<Rightarrow> lab1 \<Rightarrow> int \<times> lab1" where
  "my_init answer my_dev_id s =
     (let (r, hs) = request_irq answer (lab1_irq s) my_dev_id (irq_lines s); s = s\<lparr>irq_lines := hs\<rparr> in
      if r \<noteq> 0 then (- 1, s)
      else (0, s\<lparr>lab1_log := lab1_log s @ [''Successfully loading ISR handler on IRQ '' @ show_int (lab1_irq s) @ ''\<newline>'']\<rparr>))"

definition my_exit :: "int \<Rightarrow> lab1 \<Rightarrow> lab1" where
  "my_exit my_dev_id s =
     (let s = s\<lparr>irq_lines := free_irq (lab1_irq s) my_dev_id (irq_lines s)\<rparr> in
      s\<lparr>lab1_log := lab1_log s @ [''Successfully unloading, irq_counter = '' @ show_int (irq_counter s) @ ''\<newline>'']\<rparr>)"

text \<open>An interrupt on a line runs the module's handler as often as it is registered there.\<close>

definition raise_irq :: "int \<Rightarrow> int \<Rightarrow> lab1 \<Rightarrow> lab1 option" where
  "raise_irq my_dev_id irq s =
     for_list (\<lambda>d s. if d = my_dev_id then map_option snd (my_interrupt s) else Some s) (handlers_of irq (irq_lines s)) s"

section \<open>Several handlers\<close>

definition MAX_SHARED :: nat where "MAX_SHARED = 9"
definition NAME_LEN :: nat where "NAME_LEN = 10"

text \<open>A number in a field of at least \<open>n\<close> places filled with zeros, as \<open>%02ld\<close> prints it.\<close>

definition pad0 :: "nat \<Rightarrow> string \<Rightarrow> string" where
  "pad0 n t = replicate (n - length t) (CHR ''0'') @ t"

definition show_padded :: "nat \<Rightarrow> int \<Rightarrow> string" where
  "show_padded n i = (if i < 0 then ''-'' @ pad0 (n - 1) (dec (nat (- i))) else pad0 n (dec (nat i)))"

text \<open>
  Other modules may have handlers on the line, so an action says whose function it calls. \<open>request_irq\<close> appends an
  action when the kernel grants it, \<open>free_irq\<close> removes the first of the line with this \<open>dev_id\<close>, whoever's it is.
\<close>

datatype irq_function = Serial | Foreign

type_synonym irq_actions = "(int \<times> irq_function \<times> int) list"

definition request_shared :: "int \<Rightarrow> int \<Rightarrow> irq_function \<Rightarrow> int \<Rightarrow> irq_actions \<Rightarrow> int \<times> irq_actions" where
  "request_shared answer irq f dev_id hs = (answer, if answer = 0 then hs @ [(irq, f, dev_id)] else hs)"

fun free_shared :: "int \<Rightarrow> int \<Rightarrow> irq_actions \<Rightarrow> irq_actions" where
  "free_shared irq dev_id [] = []"
| "free_shared irq dev_id ((l, f, d) # hs) = (if l = irq \<and> d = dev_id then hs else (l, f, d) # free_shared irq dev_id hs)"

text \<open>\<open>ser_code\<close> says whether the kernel has the code of the module.\<close>

record ser =
  ser_irq :: int
  ser_num :: int
  dev_names :: "string list"
  ser_lines :: irq_actions
  ser_code :: bool

definition ser_start :: "int \<Rightarrow> int \<Rightarrow> irq_actions \<Rightarrow> ser" where
  "ser_start irq num hs =
     \<lparr>ser_irq = irq, ser_num = num, dev_names = replicate MAX_SHARED (replicate NAME_LEN NUL), ser_lines = hs, ser_code = True\<rparr>"

text \<open>What \<open>handler\<close> prints; the cycle counter is a parameter.\<close>

definition ser_handler :: "int \<Rightarrow> int \<Rightarrow> int \<Rightarrow> int \<times> string" where
  "ser_handler cycles irq dev_id =
     (0, show_padded 10 cycles @ '' : irq='' @ show_int irq @ '' - handler #'' @ show_int dev_id @ ''\<newline>'')"

text \<open>
  An interrupt calls the functions of all actions of its line. Those of the module print; without the code of the
  module the call is a fault. What the others' functions do is theirs.
\<close>

definition serial_actions :: "int \<Rightarrow> irq_actions \<Rightarrow> int list" where
  "serial_actions irq hs = map (\<lambda>(l, f, d). d) (filter (\<lambda>(l, f, d). l = irq \<and> f = Serial) hs)"

definition raise_ser :: "int \<Rightarrow> int \<Rightarrow> ser \<Rightarrow> string list option" where
  "raise_ser cycles irq s =
     (if serial_actions irq (ser_lines s) \<noteq> [] \<and> \<not> ser_code s then None
      else Some (map (\<lambda>d. snd (ser_handler cycles irq d)) (serial_actions irq (ser_lines s))))"

text \<open>The loop of \<open>init_module\<close>: how many runs are left, and the index.\<close>

fun ser_request_from :: "(nat \<Rightarrow> int) \<Rightarrow> nat \<Rightarrow> nat \<Rightarrow> ser \<Rightarrow> (int \<times> ser) option" where
  "ser_request_from answer 0 i s = Some (0, s)"
| "ser_request_from answer (Suc n) i s =
     (if i < length (dev_names s) then do {
        name \<leftarrow> poke (dev_names s ! i) 0 (''serial_'' @ show_padded 2 (int i + 1) @ [NUL]);
        let s = s\<lparr>dev_names := (dev_names s)[i := name]\<rparr>;
        let (r, hs) = request_shared (answer i) (ser_irq s) Serial (int i + 1) (ser_lines s);
        let s = s\<lparr>ser_lines := hs\<rparr>;
        if r \<noteq> 0 then Some (- 1, s) else ser_request_from answer n (i + 1) s }
      else None)"

definition ser_init :: "(nat \<Rightarrow> int) \<Rightarrow> ser \<Rightarrow> (int \<times> ser) option" where
  "ser_init answer s =
     (let s = (if ser_num s > int MAX_SHARED then s\<lparr>ser_num := int MAX_SHARED\<rparr> else s) in
      ser_request_from answer (nat (ser_num s)) 0 s)"

definition ser_cleanup :: "ser \<Rightarrow> ser option" where
  "ser_cleanup s = for_to (nat (ser_num s)) (\<lambda>i s. Some (s\<lparr>ser_lines := free_shared (ser_irq s) (int i + 1) (ser_lines s)\<rparr>)) s"

text \<open>The kernel discards the code when loading fails and when the module is unloaded.\<close>

definition ser_load :: "(nat \<Rightarrow> int) \<Rightarrow> ser \<Rightarrow> (int \<times> ser) option" where
  "ser_load answer s = do { (r, s) \<leftarrow> ser_init answer s; Some (r, s\<lparr>ser_code := (r = 0)\<rparr>) }"

definition ser_unload :: "ser \<Rightarrow> ser option" where
  "ser_unload s = do { s \<leftarrow> ser_cleanup s; Some (s\<lparr>ser_code := False\<rparr>) }"

section \<open>A tasklet\<close>

text \<open>
  \<open>tasklet_data\<close> lies at a 64-bit address; its low half is what the module stores. The function
  prints the text at the address that is stored, if there is one.
\<close>

record tasklet =
  tasklet_field :: "64 word"
  tasklet_scheduled :: bool
  tasklet_log :: "string list"

definition tasklet_text :: string where "tasklet_text = ''tasklet function was called''"

definition tasklet_init :: "64 word \<Rightarrow> tasklet \<Rightarrow> int \<times> tasklet" where
  "tasklet_init tasklet_data s =
     (0, s\<lparr>tasklet_field := ucast (ucast tasklet_data :: 32 word), tasklet_scheduled := True\<rparr>)"

text \<open>\<open>mem\<close> gives the string at an address; an address with none is a fault.\<close>

definition tasklet_function :: "(64 word \<Rightarrow> string option) \<Rightarrow> int \<Rightarrow> 32 word \<Rightarrow> int \<Rightarrow> tasklet \<Rightarrow> tasklet option" where
  "tasklet_function mem cycles2 j2 atomic s = do {
     t \<leftarrow> mem (tasklet_field s);
     Some (s\<lparr>tasklet_scheduled := False, tasklet_log := tasklet_log s @
       [show_padded 10 cycles2 @ '' ['' @ show_padded 5 (sint j2) @ ''] : '' @ t @ '' in contxt '' @ show_int atomic @ ''\<newline>'']\<rparr>) }"

text \<open>\<open>tasklet_kill\<close> waits for a tasklet that is scheduled.\<close>

definition tasklet_cleanup :: "(64 word \<Rightarrow> string option) \<Rightarrow> int \<Rightarrow> 32 word \<Rightarrow> int \<Rightarrow> tasklet \<Rightarrow> tasklet option" where
  "tasklet_cleanup mem cycles2 j2 atomic s = (if tasklet_scheduled s then tasklet_function mem cycles2 j2 atomic s else Some s)"

section \<open>What they do\<close>

lemma handlers_of_append [simp]: "handlers_of irq (hs @ hs') = handlers_of irq hs @ handlers_of irq hs'"
  by (simp add: handlers_of_def)

lemma handlers_of_Cons [simp]: "handlers_of irq ((l, d) # hs) = (if l = irq then d # handlers_of irq hs else handlers_of irq hs)"
  by (simp add: handlers_of_def)

lemma handlers_of_replicate [simp]: "handlers_of irq (map (\<lambda>i. (irq, f i)) xs) = map f xs"
  by (induction xs) (simp_all add: handlers_of_def)

lemma raise_irq_other: "my_dev_id \<notin> set ds \<Longrightarrow>
    for_list (\<lambda>d s. if d = my_dev_id then map_option snd (my_interrupt s) else Some s) ds s = Some s"
  by (induction ds) auto

lemma my_interrupt_Some:
  "in_int (irq_counter s + 1) \<Longrightarrow> my_interrupt s = Some (0, s\<lparr>irq_counter := irq_counter s + 1,
     lab1_log := lab1_log s @ [''In the ISR: counter = '' @ show_int (irq_counter s + 1) @ ''\<newline>'']\<rparr>)"
  by (simp add: my_interrupt_def c_add_def c_int_def)

text \<open>The address of the module's variable is no one else's \<open>dev_id\<close>.\<close>

lemma raise_irq_eq:
  assumes "irq_lines s = hs @ [(lab1_irq s, my_dev_id)]" "my_dev_id \<notin> snd ` set hs"
  shows "raise_irq my_dev_id irq s = (if irq = lab1_irq s then map_option snd (my_interrupt s) else Some s)"
proof -
  have "my_dev_id \<notin> set (handlers_of irq hs)" using assms(2) by (auto simp: handlers_of_def)
  moreover have "handlers_of irq (irq_lines s) = handlers_of irq hs @ (if irq = lab1_irq s then [my_dev_id] else [])"
    by (simp add: assms(1) handlers_of_def)
  ultimately show ?thesis by (simp add: raise_irq_def for_list_append raise_irq_other)
qed

lemma raise_all:
  assumes "irq_lines s = hs @ [(lab1_irq s, my_dev_id)]" "my_dev_id \<notin> snd ` set hs" "- 2147483648 \<le> irq_counter s"
    and "irq_counter s + int (length (filter (\<lambda>i. i = lab1_irq s) irqs)) \<le> 2147483647"
  shows "\<exists>s'. for_list (raise_irq my_dev_id) irqs s = Some s' \<and> irq_lines s' = irq_lines s \<and> lab1_irq s' = lab1_irq s \<and>
    irq_counter s' = irq_counter s + int (length (filter (\<lambda>i. i = lab1_irq s) irqs))"
  using assms(1,3,4)
proof (induction irqs arbitrary: s)
  case (Cons irq irqs)
  note step = raise_irq_eq [OF Cons.prems(1) assms(2), of irq]
  show ?case
  proof (cases "irq = lab1_irq s")
    case True
    let ?s = "s\<lparr>irq_counter := irq_counter s + 1,
       lab1_log := lab1_log s @ [''In the ISR: counter = '' @ show_int (irq_counter s + 1) @ ''\<newline>'']\<rparr>"
    have "in_int (irq_counter s + 1)" using Cons.prems True by (simp add: in_int_def)
    then have "raise_irq my_dev_id irq s = Some ?s" using step True by (simp add: my_interrupt_Some)
    then show ?thesis using Cons.IH [of ?s] Cons.prems True by (auto simp: add.assoc)
  next
    case False
    then show ?thesis using step Cons.IH [of s] Cons.prems by simp
  qed
qed simp

text \<open>Between loading and unloading \<^verbatim>\<open>lab1_interrupt.c\<close> counts the interrupts of its line and no others,
  whoever else is on the line; it says so when it is unloaded, and the handlers of the others stay.\<close>

theorem interrupts_counted:
  assumes "irq_counter s = 0" "my_dev_id \<notin> snd ` set (irq_lines s)"
    and "length (filter (\<lambda>i. i = lab1_irq s) irqs) \<le> 2147483647"
  shows "\<exists>s1 s2. my_init 0 my_dev_id s = (0, s1) \<and> for_list (raise_irq my_dev_id) irqs s1 = Some s2 \<and>
    irq_lines (my_exit my_dev_id s2) = irq_lines s \<and>
    last (lab1_log (my_exit my_dev_id s2)) =
      ''Successfully unloading, irq_counter = '' @ dec (length (filter (\<lambda>i. i = lab1_irq s) irqs)) @ ''\<newline>''"
proof -
  let ?s1 = "snd (my_init 0 my_dev_id s)"
  have s1: "my_init 0 my_dev_id s = (0, ?s1)" "irq_lines ?s1 = irq_lines s @ [(lab1_irq ?s1, my_dev_id)]" "irq_counter ?s1 = 0" "lab1_irq ?s1 = lab1_irq s"
    using assms(1) by (simp_all add: my_init_def request_irq_def)
  obtain s2 where s2: "for_list (raise_irq my_dev_id) irqs ?s1 = Some s2" "irq_lines s2 = irq_lines ?s1" "lab1_irq s2 = lab1_irq ?s1"
    "irq_counter s2 = int (length (filter (\<lambda>i. i = lab1_irq s) irqs))"
    using raise_all [OF s1(2) assms(2), of irqs] assms(3) s1 by auto
  have "(lab1_irq s, my_dev_id) \<notin> set (irq_lines s)" using assms(2) by force
  then have "remove1 (lab1_irq s, my_dev_id) (irq_lines s @ [(lab1_irq s, my_dev_id)]) = irq_lines s" by (simp add: remove1_append)
  then show ?thesis using s1 s2 by (intro exI [of _ ?s1] exI [of _ s2]) (simp add: my_exit_def free_irq_def show_int_def)
qed

section \<open>Several handlers on one line\<close>

lemma poke_name:
  assumes "length buf = 10" "i < 9"
  shows "poke buf 0 (''serial_'' @ show_padded 2 (int i + 1) @ [NUL]) = Some (''serial_0'' @ dec (i + 1) @ [NUL])"
proof -
  have "show_padded 2 (int i + 1) = CHR ''0'' # dec (i + 1) \<and> length (dec (i + 1)) = 1"
  proof (cases "i + 1 < 10")
    case True
    then have "nat (int i + 1) = i + 1" "dec (i + 1) = [char_of (48 + (i + 1))]" by (simp_all only: dec_small)
    then show ?thesis by (simp add: show_padded_def pad0_def)
  qed (use assms in simp)
  then show ?thesis using assms(1) by (simp add: poke_def)
qed

lemma serial_actions_simps [simp]:
  "serial_actions irq [] = []"
  "serial_actions irq (hs @ hs') = serial_actions irq hs @ serial_actions irq hs'"
  "serial_actions irq (map (\<lambda>j. (l, Serial, f j)) xs) = (if l = irq then map f xs else [])"
  by (simp_all add: serial_actions_def)

lemma serial_actions_foreign: "\<forall>(l, f, d) \<in> set hs. f = Foreign \<Longrightarrow> serial_actions irq hs = []"
  by (induction hs) (auto simp: serial_actions_def)

lemma free_shared_append: "\<forall>(l, f, d) \<in> set hs. l = irq \<longrightarrow> d \<noteq> dev_id \<Longrightarrow>
    free_shared irq dev_id (hs @ hs') = hs @ free_shared irq dev_id hs'"
  by (induction hs) auto

text \<open>The loop: registrations up to the first that is refused.\<close>

lemma ser_request_from_eq:
  assumes "length (dev_names s) = 9" "\<forall>b \<in> set (dev_names s). length b = 10" "i + n \<le> 9"
  shows "\<exists>s'. ser_request_from answer n i s =
      Some (if \<forall>j \<in> {i..<i + n}. answer j = 0 then 0 else - 1, s') \<and>
    ser_irq s' = ser_irq s \<and> ser_num s' = ser_num s \<and>
    ser_lines s' = ser_lines s @ map (\<lambda>j. (ser_irq s, Serial, int j + 1)) (takeWhile (\<lambda>j. answer j = 0) [i..<i + n]) \<and>
    (\<forall>j < i. dev_names s' ! j = dev_names s ! j) \<and>
    (\<forall>j \<in> set (takeWhile (\<lambda>j. answer j = 0) [i..<i + n]). dev_names s' ! j = ''serial_0'' @ dec (j + 1) @ [NUL])"
  using assms
proof (induction n arbitrary: i s)
  case (Suc n)
  let ?t = "''serial_0'' @ dec (i + 1) @ [NUL]" and ?ok = "answer i = 0"
  let ?s = "s\<lparr>dev_names := (dev_names s)[i := ?t], ser_lines := (if ?ok then ser_lines s @ [(ser_irq s, Serial, int i + 1)] else ser_lines s)\<rparr>"
  have i: "i < 9" "length (dev_names s ! i) = 10" using Suc.prems by simp_all
  have step: "ser_request_from answer (Suc n) i s = (if ?ok then ser_request_from answer n (i + 1) ?s else Some (- 1, ?s))"
    using i Suc.prems(1) poke_name [OF i(2,1)] by (simp add: request_shared_def)
  have range: "[i..<i + Suc n] = i # [i + 1..<i + 1 + n]" "{i..<i + Suc n} = insert i {i + 1..<i + 1 + n}"
    by (simp_all add: upt_conv_Cons atLeastLessThanSuc_atLeastAtMost) auto
  show ?case
  proof (cases ?ok)
    case True
    have "length ?t = 10" using i(1) by (simp add: dec_small)
    then have "\<forall>b \<in> set (dev_names ?s). length b = 10"
      using Suc.prems(2) set_update_subset_insert [of "dev_names s" i ?t] by auto
    with True Suc.IH [of ?s "i + 1"] Suc.prems(1,3) obtain s' where s': "ser_request_from answer n (i + 1) ?s =
        Some (if \<forall>j \<in> {i + 1..<i + 1 + n}. answer j = 0 then 0 else - 1, s')"
      "ser_irq s' = ser_irq s" "ser_num s' = ser_num s"
      "ser_lines s' = ser_lines s @ (ser_irq s, Serial, int i + 1) # map (\<lambda>j. (ser_irq s, Serial, int j + 1)) (takeWhile (\<lambda>j. answer j = 0) [i + 1..<i + 1 + n])"
      "\<forall>j < i + 1. dev_names s' ! j = dev_names ?s ! j"
      "\<forall>j \<in> set (takeWhile (\<lambda>j. answer j = 0) [i + 1..<i + 1 + n]). dev_names s' ! j = ''serial_0'' @ dec (j + 1) @ [NUL]"
      by auto
    then show ?thesis unfolding range using True step i(1) Suc.prems(1) by simp
  next
    case False
    then show ?thesis unfolding range using step by auto
  qed
qed auto

lemma takeWhile_upt: "takeWhile P [0..<n] = [0..<length (takeWhile P [0..<n])]"
proof -
  have "length (takeWhile P [0..<n]) \<le> n" using length_takeWhile_le [of P "[0..<n]"] by simp
  then show ?thesis using takeWhile_eq_take [of P "[0..<n]"] take_upt [of 0 "length (takeWhile P [0..<n])" n] by simp
qed

lemma all_taken: "(\<forall>j \<in> {0..<n}. P j) \<longleftrightarrow> length (takeWhile P [0..<n]) = n"
proof
  assume "length (takeWhile P [0..<n]) = n"
  then have "takeWhile P [0..<n] = [0..<n]" using takeWhile_upt [of P n] by simp
  then show "\<forall>j \<in> {0..<n}. P j" using set_takeWhileD [of _ P "[0..<n]"] by (metis atLeastLessThan_upt)
qed (metis atLeastLessThan_upt length_upt diff_zero takeWhile_eq_all_conv)

lemma ser_cleanup_all:
  assumes "ser_lines s = hs @ map (\<lambda>j. (ser_irq s, Serial, int j + 1)) [0..<nat (ser_num s)]"
    and "\<forall>(l, f, d) \<in> set hs. l = ser_irq s \<longrightarrow> d \<notin> {1..9}" "ser_num s \<le> 9"
  shows "\<exists>s'. ser_cleanup s = Some s' \<and> ser_lines s' = hs"
proof -
  let ?own = "\<lambda>i. map (\<lambda>j. (ser_irq s, Serial, int j + 1)) [i..<nat (ser_num s)]"
  have "\<exists>s'. ser_cleanup s = Some s' \<and> ser_irq s' = ser_irq s \<and> ser_lines s' = hs @ ?own (nat (ser_num s))"
    unfolding ser_cleanup_def
  proof (rule for_to_rule [where I = "\<lambda>i s'. ser_irq s' = ser_irq s \<and> ser_lines s' = hs @ ?own i"])
    fix i s'
    assume i: "i < nat (ser_num s)" and s': "ser_irq s' = ser_irq s \<and> ser_lines s' = hs @ ?own i"
    have "int i + 1 \<in> {1..9}" using i assms(3) by simp
    then have "\<forall>(l, f, d) \<in> set hs. l = ser_irq s \<longrightarrow> d \<noteq> int i + 1" using assms(2) by blast
    from free_shared_append [OF this]
    show "\<exists>s''. Some (s'\<lparr>ser_lines := free_shared (ser_irq s') (int i + 1) (ser_lines s')\<rparr>) = Some s'' \<and> ser_irq s'' = ser_irq s \<and>
        ser_lines s'' = hs @ ?own (Suc i)"
      using i s' by (simp add: upt_conv_Cons)
  qed (use assms(1) in simp)
  then show ?thesis by auto
qed

text \<open>C34: \<^verbatim>\<open>mod_ser.c\<close> registers its handlers, nine at most, up to the first that is refused, on a line that other modules may
  use with other values of \<open>dev_id\<close> than 1 to 9. With all of them every name fits its array, an interrupt of the line runs each
  handler once in order, other interrupts run none, and unloading leaves the others' handlers and no more. When one is refused the module
  fails to load and is discarded, those before it stay, and if there are any the next interrupt of the line is a fault.\<close>

theorem ser_handlers:
  assumes "n = nat (min num 9)" "k = length (takeWhile (\<lambda>j. answer j = 0) [0..<n])"
    and "\<forall>(l, f, d) \<in> set hs. f = Foreign \<and> (l = irq \<longrightarrow> d \<notin> {1..9})"
  shows "\<exists>s. ser_load answer (ser_start irq num hs) = Some (if k = n then 0 else - 1, s) \<and>
    ser_lines s = hs @ map (\<lambda>j. (irq, Serial, int j + 1)) [0..<k] \<and>
    (\<forall>j < k. c_string (dev_names s ! j) = Some (''serial_0'' @ dec (j + 1))) \<and>
    (\<forall>cycles line. raise_ser cycles line s =
       (if line \<noteq> irq then Some []
        else if k = n \<or> k = 0 then Some (map (\<lambda>j. snd (ser_handler cycles irq (int j + 1))) [0..<k])
        else None)) \<and>
    (k = n \<longrightarrow> (\<exists>s'. ser_unload s = Some s' \<and> ser_lines s' = hs \<and> (\<forall>cycles line. raise_ser cycles line s' = Some [])))"
proof -
  let ?s0 = "let s = ser_start irq num hs in if ser_num s > int MAX_SHARED then s\<lparr>ser_num := int MAX_SHARED\<rparr> else s"
  have s0: "nat (ser_num ?s0) = n" "ser_irq ?s0 = irq" "ser_lines ?s0 = hs" "ser_num ?s0 \<le> 9"
    "length (dev_names ?s0) = 9" "\<forall>b \<in> set (dev_names ?s0). length b = 10"
    using assms(1) by (auto simp: Let_def ser_start_def MAX_SHARED_def NAME_LEN_def min_def)
  have "n \<le> 9" using assms(1) by simp
  have tk: "takeWhile (\<lambda>j. answer j = 0) [0..<0 + n] = [0..<k]" using takeWhile_upt [of "\<lambda>j. answer j = 0" n] assms(2) by simp
  have init: "ser_init answer (ser_start irq num hs) = ser_request_from answer n 0 ?s0"
    using s0(1) by (simp add: ser_init_def Let_def)
  obtain s1 where s1: "ser_request_from answer n 0 ?s0 = Some (if \<forall>j \<in> {0..<0 + n}. answer j = 0 then 0 else - 1, s1)"
    "ser_irq s1 = irq" "ser_num s1 = ser_num ?s0" "ser_lines s1 = hs @ map (\<lambda>j. (irq, Serial, int j + 1)) [0..<k]"
    "\<forall>j \<in> set [0..<k]. dev_names s1 ! j = ''serial_0'' @ dec (j + 1) @ [NUL]"
    using ser_request_from_eq [OF s0(5,6), of 0 n answer] \<open>n \<le> 9\<close> unfolding tk s0(2,3) by auto
  let ?s = "s1\<lparr>ser_code := (k = n)\<rparr>"
  have f: "serial_actions line hs = []" for line using assms(3) by (intro serial_actions_foreign) auto
  have load: "ser_load answer (ser_start irq num hs) = Some (if k = n then 0 else - 1, ?s)"
    using init s1(1) all_taken [of n "\<lambda>j. answer j = 0"] assms(2) by (auto simp: ser_load_def)
  have "serial_actions line (ser_lines ?s) = (if line = irq then map (\<lambda>j. int j + 1) [0..<k] else [])" for line
    using s1(4) f by simp
  then have raise: "raise_ser cycles line ?s = (if line \<noteq> irq then Some []
        else if k = n \<or> k = 0 then Some (map (\<lambda>j. snd (ser_handler cycles irq (int j + 1))) [0..<k])
        else None)" for cycles line
    by (simp add: raise_ser_def comp_def)
  have names: "c_string (dev_names ?s ! j) = Some (''serial_0'' @ dec (j + 1))" if "j < k" for j
  proof -
    have "dev_names ?s ! j = (''serial_0'' @ dec (j + 1)) @ NUL # []" using s1(5) that by simp
    moreover have "NUL \<notin> set (''serial_0'' @ dec (j + 1))"
      using NUL_not_in_dec [of "j + 1"] by (auto simp: NUL_def)
    ultimately show ?thesis by (simp only: c_string_middle not_False_eq_True)
  qed
  have unload: "\<exists>s'. ser_unload ?s = Some s' \<and> ser_lines s' = hs \<and> (\<forall>cycles line. raise_ser cycles line s' = Some [])" if "k = n"
  proof -
    have "\<exists>s'. ser_cleanup ?s = Some s' \<and> ser_lines s' = hs"
      by (rule ser_cleanup_all) (use s1(2-4) s0(1,4) assms(3) that in auto)
    then show ?thesis using f by (auto simp: ser_unload_def raise_ser_def)
  qed
  show ?thesis by (rule exI [of _ ?s]) (use load raise names unload s1(4) in simp)
qed

text \<open>The third of nine registrations on a line that the keyboard has: the module is discarded, and the next key is a fault.\<close>

lemma ser_handlers_witness:
  "\<exists>s. ser_load (\<lambda>i. if i = 2 then - 16 else 0) (ser_start 1 12 [(1, Foreign, 70)]) = Some (- 1, s) \<and>
    ser_lines s = [(1, Foreign, 70), (1, Serial, 1), (1, Serial, 2)] \<and> raise_ser 7 1 s = None \<and> raise_ser 7 2 s = Some []"
proof -
  let ?answer = "\<lambda>i :: nat. if i = 2 then - 16 else 0 :: int"
  have k: "2 = length (takeWhile (\<lambda>j. ?answer j = 0) [0..<9])" by code_simp
  have "map (\<lambda>j. (1 :: int, Serial, int j + 1)) [0..<2] = [(1, Serial, 1), (1, Serial, 2)]" by code_simp
  with ser_handlers [of 9 12 2 ?answer "[(1, Foreign, 70)]" 1] k show ?thesis by auto
qed

lemma interrupts_counted_witness:
  "\<exists>s1 s2. my_init 0 7 \<lparr>lab1_irq = SHARED_IRQ, irq_counter = 0, irq_lines = [(17, 5)], lab1_log = []\<rparr> = (0, s1) \<and>
    for_list (raise_irq 7) [17, 3, 17] s1 = Some s2 \<and> irq_lines (my_exit 7 s2) = [(17, 5)] \<and>
    last (lab1_log (my_exit 7 s2)) = ''Successfully unloading, irq_counter = 2\<newline>''"
proof -
  let ?s = "\<lparr>lab1_irq = SHARED_IRQ, irq_counter = 0, irq_lines = [(17, 5)], lab1_log = []\<rparr>"
  have "dec 2 = ''2''" by code_simp
  with interrupts_counted [of ?s 7 "[17, 3, 17]"] show ?thesis by (simp add: SHARED_IRQ_def numeral_2_eq_2)
qed

section \<open>The text of the tasklet\<close>

text \<open>The text is found only where it lies in the lower 4 GB; the kernel's data do not.\<close>

lemma tasklet_prints:
  assumes "unat a < 2 ^ 32" "mem a = Some tasklet_text"
  shows "map_option (\<lambda>s. last (tasklet_log s)) (tasklet_cleanup mem c j at (snd (tasklet_init a s))) =
    Some (show_padded 10 c @ '' ['' @ show_padded 5 (sint j) @ ''] : tasklet function was called in contxt '' @ show_int at @ ''\<newline>'')"
proof -
  have "ucast (ucast a :: 32 word) = a" using assms(1) by (simp add: word_unat_eq_iff unsigned_ucast_eq unsigned_take_bit_eq take_bit_nat_eq_self)
  then show ?thesis using assms(2) by (simp add: tasklet_cleanup_def tasklet_function_def tasklet_init_def tasklet_text_def)
qed

lemma tasklet_pointer_cut:
  assumes "\<And>x. unat x < 2 ^ 32 \<Longrightarrow> mem x = None"
  shows "tasklet_cleanup mem c j at (snd (tasklet_init a s)) = None"
proof -
  have "unat (ucast (ucast a :: 32 word) :: 64 word) = take_bit 32 (unat a)" by (simp add: unsigned_ucast_eq unsigned_take_bit_eq)
  also have "\<dots> < 2 ^ 32" by (rule take_bit_nat_less_exp)
  finally show ?thesis using assms by (simp add: tasklet_cleanup_def tasklet_function_def tasklet_init_def)
qed

end
