(* ===== verification/Timers.thy ===== *)
theory Timers
  imports Prelude
begin

text \<open>
  The timer modules of \<^verbatim>\<open>exercise13\<close>: \<^verbatim>\<open>tick.c\<close> and \<^verbatim>\<open>interv.c\<close> print the tick counter and the
  time a module was loaded, \<^verbatim>\<open>mytimer.c\<close> arms a timer that arms itself again, \<^verbatim>\<open>hrtimer.c\<close> has
  a periodic timer of high resolution. The tick counter, the clock and \<open>HZ\<close> are parameters.
\<close>

text \<open>The conversion \<open>%X\<close>.\<close>

definition show_hex :: "nat \<Rightarrow> string" where
  "show_hex n = rev (hex_rev 65 n)"

section \<open>The tick counter\<close>

text \<open>\<open>jiffies\<close> is the machine word of the 64-bit counter, on a 64-bit machine the same. The module never stays loaded.\<close>

definition tick_init :: "64 word \<Rightarrow> int \<Rightarrow> 64 word \<Rightarrow> int \<times> string list" where
  "tick_init jiffies HZ jiffies_64 =
     (- 1, [''jiffies = '' @ show_hex (unat jiffies) @ ''\<newline>'', ''HZ value = '' @ show_int HZ @ ''\<newline>'',
       ''jiffies 64-bit = '' @ replicate (16 - length (show_hex (unat jiffies_64))) (CHR ''0'') @ show_hex (unat jiffies_64) @ ''\<newline>''])"

section \<open>The time a module was loaded\<close>

text \<open>The state is the static \<open>j\<close>, the low half of the counter.\<close>

definition interv_init :: "64 word \<Rightarrow> (int \<times> string list) \<times> 32 word" where
  "interv_init jiffies =
     (let j = ucast jiffies :: 32 word in ((0, [''module: jiffies on start = '' @ show_hex (unat j) @ ''\<newline>'']), j))"

definition interv_cleanup :: "64 word \<Rightarrow> 32 word \<Rightarrow> 32 word \<Rightarrow> string list \<times> 32 word" where
  "interv_cleanup jiffies HZ j =
     (let j1 = ucast jiffies :: 32 word; j = j1 - j in
      ([''module: jiffies on finish = '' @ show_hex (unat j1) @ ''\<newline>'',
        ''module: interval of life = '' @ show_int (sint (j div HZ)) @ ''\<newline>''], j))"

section \<open>A timer that arms itself\<close>

text \<open>\<open>None\<close>: not pending; otherwise when it expires. Adding a timer that is pending is a bug the kernel stops at.\<close>

type_synonym timer_list = "64 word option"

definition timer_setup :: "timer_list \<Rightarrow> timer_list" where
  "timer_setup t = None"

definition mod_timer_at :: "64 word \<Rightarrow> timer_list \<Rightarrow> int \<times> timer_list" where
  "mod_timer_at expires t = (if t = None then 0 else 1, Some expires)"

definition add_timer :: "timer_list \<Rightarrow> timer_list option" where
  "add_timer t = (case t of None \<Rightarrow> Some (Some 0) | Some _ \<Rightarrow> None)"

definition timer_function :: "64 word \<Rightarrow> 64 word \<Rightarrow> timer_list \<Rightarrow> timer_list" where
  "timer_function jiffies HZ my_timer = snd (mod_timer_at (jiffies + HZ div 2) my_timer)"

definition mytimer_init :: "64 word \<Rightarrow> 64 word \<Rightarrow> timer_list \<Rightarrow> ((int \<times> string list) \<times> timer_list) option" where
  "mytimer_init jiffies HZ my_timer =
     (let log = [''Hello My Timer\<newline>'']; my_timer = timer_setup my_timer;
          (ret, my_timer) = mod_timer_at (jiffies + HZ) my_timer;
          log = (if ret \<noteq> 0 then log @ [''init_module: Timer firing failed\<newline>''] else log) in
      do { my_timer \<leftarrow> add_timer my_timer; Some ((0, log @ [''END: init_module() \<newline>'']), my_timer) })"

definition mytimer_cleanup :: "timer_list \<Rightarrow> string list \<times> timer_list" where
  "mytimer_cleanup my_timer = ([''Goodbye\<newline>''], None)"

section \<open>A periodic timer\<close>

text \<open>Times are in nanoseconds. The timer is moved on by whole intervals until it lies in the future.\<close>

record hrtimer =
  hr_expires :: int
  hr_active :: bool

definition timer_interval_ns :: int where "timer_interval_ns = 1000000"

definition ktime_set :: "int \<Rightarrow> int \<Rightarrow> int" where
  "ktime_set secs nsecs = secs * 1000000000 + nsecs"

definition hrtimer_forward :: "int \<Rightarrow> int \<Rightarrow> hrtimer \<Rightarrow> int \<times> hrtimer" where
  "hrtimer_forward now interval t =
     (if now < hr_expires t then (0, t)
      else let overruns = (now - hr_expires t) div interval + 1 in (overruns, t\<lparr>hr_expires := hr_expires t + overruns * interval\<rparr>))"

text \<open>The callback asks to be started again, so the timer stays active.\<close>

definition timer_callback :: "int \<Rightarrow> hrtimer \<Rightarrow> hrtimer" where
  "timer_callback currtime t = (snd (hrtimer_forward currtime (ktime_set 0 timer_interval_ns) t))\<lparr>hr_active := True\<rparr>"

definition hrtimer_module_init :: "int \<Rightarrow> int \<times> hrtimer" where
  "hrtimer_module_init now = (0, \<lparr>hr_expires = now + ktime_set 0 timer_interval_ns, hr_active = True\<rparr>)"

definition hrtimer_module_exit :: "hrtimer \<Rightarrow> string list \<times> hrtimer" where
  "hrtimer_module_exit t =
     ((if hr_active t then [''The timer was still in use...\<newline>''] else []) @ [''HR Timer module uninstalling\<newline>''], t\<lparr>hr_active := False\<rparr>)"

section \<open>What they do\<close>

text \<open>\<^verbatim>\<open>interv.c\<close> reports the seconds it was loaded, also when the 32-bit counter wraps around in between, as long
  as that was less than 2 to the 32 ticks and the number of seconds fits an \<open>int\<close>.\<close>

theorem interval_of_life:
  assumes "unat t1 = unat t0 + d" "d < 2 ^ 32" "0 < hz" "hz < 2 ^ 31" "d div hz < 2 ^ 31"
  shows "last (fst (interv_cleanup t1 (of_nat hz) (snd (interv_init t0)))) = ''module: interval of life = '' @ dec (d div hz) @ ''\<newline>''"
proof -
  have "t1 = t0 + of_nat d" using arg_cong [OF assms(1), of "of_nat :: nat \<Rightarrow> 64 word"] by simp
  then have "(ucast t1 :: 32 word) - ucast t0 = of_nat d" by (simp add: ucast_add ucast_of_nat_down)
  moreover have "unat (of_nat d :: 32 word) = d" "unat (of_nat hz :: 32 word) = hz"
    using assms by (simp_all add: unat_small32)
  then have "of_nat d div of_nat hz = (of_nat (d div hz) :: 32 word)"
    using assms(2) by (simp add: word_unat_eq_iff unat_div_distrib unat_small32 le_less_trans [OF div_le_dividend])
  moreover have "sint (of_nat (d div hz) :: 32 word) = int (d div hz)" by (rule sint_of_nat32 [OF assms(5)])
  ultimately show ?thesis by (simp add: interv_cleanup_def interv_init_def Let_def show_int_def)
qed

lemma interval_of_life_witness:
  "last (fst (interv_cleanup 4294967546 100 (snd (interv_init 4294967196)))) = ''module: interval of life = 3\<newline>''"
proof -
  have "dec 3 = ''3''" by code_simp
  with interval_of_life [of 4294967546 4294967196 350 100] show ?thesis by simp
qed

text \<open>The timer of \<^verbatim>\<open>mytimer.c\<close> is pending from \<open>mod_timer\<close> on, so adding it again is always a bug.\<close>

lemma mytimer_init_faults: "mytimer_init jiffies HZ t = None"
  by (simp add: mytimer_init_def timer_setup_def mod_timer_at_def add_timer_def)

section \<open>The periodic timer\<close>

text \<open>The callback leaves the timer in the future, by one interval at most, and on the grid of its start.\<close>

lemma timer_callback_forward:
  assumes "hr_expires t \<le> now"
  shows "now < hr_expires (timer_callback now t)" "hr_expires (timer_callback now t) \<le> now + timer_interval_ns"
    "hr_expires (timer_callback now t) mod timer_interval_ns = hr_expires t mod timer_interval_ns"
proof -
  let ?d = "now - hr_expires t" and ?i = timer_interval_ns
  have i: "0 < ?i" by (simp add: timer_interval_ns_def)
  have e: "hr_expires (timer_callback now t) = hr_expires t + (?d div ?i + 1) * ?i"
    using assms by (simp add: timer_callback_def hrtimer_forward_def ktime_set_def Let_def)
  have d: "?d div ?i * ?i + ?d mod ?i = ?d" by simp
  have "0 \<le> ?d mod ?i" "?d mod ?i < ?i" using i by simp_all
  then show "now < hr_expires (timer_callback now t)" "hr_expires (timer_callback now t) \<le> now + ?i"
    unfolding e distrib_right using d by linarith+
  show "hr_expires (timer_callback now t) mod ?i = hr_expires t mod ?i" unfolding e by simp
qed

text \<open>However late the callbacks of \<^verbatim>\<open>hrtimer.c\<close> run, the timer stays on the grid of one millisecond that its start set,
  the next callback lies less than an interval behind the last, and the timer is still active when the module is unloaded,
  which says so.\<close>

theorem periodic_timer_keeps_phase:
  assumes "t0 = snd (hrtimer_module_init start)"
    and "\<forall>i < length nows. hr_expires (fold timer_callback (take i nows) t0) \<le> nows ! i"
  shows "hr_active (fold timer_callback nows t0) \<and>
    hr_expires (fold timer_callback nows t0) mod timer_interval_ns = start mod timer_interval_ns \<and>
    (nows \<noteq> [] \<longrightarrow> last nows < hr_expires (fold timer_callback nows t0) \<and>
       hr_expires (fold timer_callback nows t0) \<le> last nows + timer_interval_ns) \<and>
    hd (fst (hrtimer_module_exit (fold timer_callback nows t0))) = ''The timer was still in use...\<newline>''"
  using assms(2)
proof (induction nows rule: rev_induct)
  case Nil
  then show ?case using assms(1) by (simp add: hrtimer_module_init_def hrtimer_module_exit_def ktime_set_def)
next
  case (snoc now nows)
  let ?t = "fold timer_callback nows t0"
  have "\<forall>i < length nows. hr_expires (fold timer_callback (take i nows) t0) \<le> nows ! i"
    using snoc.prems by (auto simp: nth_append less_Suc_eq dest: spec)
  moreover have "hr_expires ?t \<le> now" using snoc.prems by (auto dest: spec [of _ "length nows"])
  moreover have "hr_active (timer_callback now ?t)" by (simp add: timer_callback_def)
  ultimately show ?case using snoc.IH timer_callback_forward [of ?t now] by (simp add: hrtimer_module_exit_def)
qed

lemma periodic_timer_keeps_phase_witness:
  "hr_expires (fold timer_callback [1000300, 4200000] (snd (hrtimer_module_init 250))) = 5000250"
  "hr_expires (fold timer_callback [1000300, 4200000] (snd (hrtimer_module_init 250))) mod timer_interval_ns = 250 mod timer_interval_ns"
proof -
  show "hr_expires (fold timer_callback [1000300, 4200000] (snd (hrtimer_module_init 250))) = 5000250" by code_simp
  have "\<forall>i < length [1000300, 4200000 :: int]. hr_expires (fold timer_callback (take i [1000300, 4200000]) (snd (hrtimer_module_init 250))) \<le> [1000300, 4200000] ! i"
    by (simp add: less_Suc_eq all_conj_distrib timer_callback_def hrtimer_module_init_def hrtimer_forward_def ktime_set_def timer_interval_ns_def)
  from periodic_timer_keeps_phase [OF refl this]
  show "hr_expires (fold timer_callback [1000300, 4200000] (snd (hrtimer_module_init 250))) mod timer_interval_ns = 250 mod timer_interval_ns" by simp
qed

end
