(* ===== verification/Ds3231.thy ===== *)
theory Ds3231
  imports Prelude
begin

text \<open>
  The driver of the DS3231 clock of \<^verbatim>\<open>exercise12\<close> (\<^verbatim>\<open>ds3231_driver.c\<close>, \<^verbatim>\<open>ds3231_registers.h\<close>): it reads four registers over
  I2C and shows the time and the temperature as attributes. What a register read returns, a
  byte or a negative error number, is a parameter. A \<open>char\<close> is signed.
\<close>

section \<open>State\<close>

definition REG_SEC :: nat where "REG_SEC = 0"
definition REG_MIN :: nat where "REG_MIN = 1"
definition REG_HOUR :: nat where "REG_HOUR = 2"
definition REG_TEMP_H :: nat where "REG_TEMP_H = 17"

definition ENODEV :: int where "ENODEV = 19"

text \<open>\<open>attr_class\<close> is NULL, a class, or an error pointer (\<open>Freed\<close>), which must not be used.\<close>

record ds3231 =
  drv_client :: bool
  ds_sec :: "8 word"
  ds_min :: "8 word"
  ds_hour :: "8 word"
  ds_temp :: int
  param1 :: string
  attr_class :: "unit obj"
  attr_files :: "string list"
  i2c_driver :: bool

definition ds3231_start :: "string \<Rightarrow> ds3231" where
  "ds3231_start param = \<lparr>drv_client = False, ds_sec = 0, ds_min = 0, ds_hour = 0, ds_temp = 0, param1 = param,
     attr_class = Absent, attr_files = [], i2c_driver = False\<rparr>"

section \<open>Reading and showing\<close>

definition ds_read_data :: "(nat \<Rightarrow> int) \<Rightarrow> ds3231 \<Rightarrow> int \<times> ds3231" where
  "ds_read_data read_byte s =
     (if \<not> drv_client s then (- ENODEV, s)
      else (0, s\<lparr>ds_sec := word_of_int (read_byte REG_SEC), ds_min := word_of_int (read_byte REG_MIN),
        ds_hour := word_of_int (read_byte REG_HOUR), ds_temp := read_byte REG_TEMP_H\<rparr>))"

text \<open>The conversion \<open>%02x\<close> of a \<open>char\<close>, which is passed as an \<open>int\<close>.\<close>

definition show_hex2 :: "8 word \<Rightarrow> string" where
  "show_hex2 c = (let t = rev (hex_rev 97 (unat (scast c :: 32 word))) in replicate (2 - length t) (CHR ''0'') @ t)"

definition ds_time_show :: "(nat \<Rightarrow> int) \<Rightarrow> ds3231 \<Rightarrow> string \<times> ds3231" where
  "ds_time_show read_byte s =
     (let (_, s) = ds_read_data read_byte s in
      (show_hex2 (ds_hour s) @ '':'' @ show_hex2 (ds_min s) @ '':'' @ show_hex2 (ds_sec s) @ ''\<newline>'', s))"

text \<open>The first character of \<open>param1\<close> is the NUL when the text is empty.\<close>

definition ds_temp_show :: "(nat \<Rightarrow> int) \<Rightarrow> ds3231 \<Rightarrow> (string \<times> ds3231) option" where
  "ds_temp_show read_byte s =
     (let (_, s) = ds_read_data read_byte s;
          unit_char = hd (param1 s @ [NUL]) in
      if unit_char = CHR ''C'' then Some (show_int (ds_temp s) @ '' '' @ param1 s @ ''\<newline>'', s)
      else if unit_char = CHR ''F'' then do {
        t \<leftarrow> c_mul (ds_temp s) 18;
        t \<leftarrow> c_add t 320;
        t \<leftarrow> c_div t 10;
        Some (show_int t @ '' '' @ param1 s @ ''\<newline>'', s) }
      else Some (''--\<newline>'', s))"

section \<open>The driver and the module\<close>

text \<open>The device tree may give another \<open>param1\<close>.\<close>

definition ds3231_probe :: "(nat \<Rightarrow> int) \<Rightarrow> string option \<Rightarrow> ds3231 \<Rightarrow> int \<times> ds3231" where
  "ds3231_probe read_byte property s =
     (let s = s\<lparr>drv_client := True\<rparr>;
          (_, s) = ds_read_data read_byte s;
          s = (case property of None \<Rightarrow> s | Some p \<Rightarrow> s\<lparr>param1 := p\<rparr>) in (0, s))"

definition ds3231_remove :: "ds3231 \<Rightarrow> int \<times> ds3231" where
  "ds3231_remove s = (0, s\<lparr>drv_client := False\<rparr>)"

text \<open>\<open>driver_ret\<close>, \<open>time_ret\<close> and \<open>temp_ret\<close> are the kernel's answers; \<open>class_ret\<close> is 0 or the error of the class.\<close>

definition ds3231_init :: "int \<Rightarrow> int \<Rightarrow> int \<Rightarrow> int \<Rightarrow> ds3231 \<Rightarrow> int \<times> ds3231" where
  "ds3231_init driver_ret class_ret time_ret temp_ret s =
     (if driver_ret \<noteq> 0 then (driver_ret, s)
      else let s = s\<lparr>i2c_driver := True\<rparr> in
        if class_ret \<noteq> 0 then (class_ret, s\<lparr>attr_class := Freed\<rparr>)
        else let s = s\<lparr>attr_class := Live ()\<rparr> in
          if time_ret \<noteq> 0 then (time_ret, s)
          else let s = s\<lparr>attr_files := attr_files s @ [''ds_time'']\<rparr> in
            if temp_ret \<noteq> 0 then (temp_ret, s)
            else (0, s\<lparr>attr_files := attr_files s @ [''ds_temp'']\<rparr>))"

definition ds3231_exit :: "ds3231 \<Rightarrow> ds3231 option" where
  "ds3231_exit s = do {
     s \<leftarrow> (case attr_class s of
        Absent \<Rightarrow> Some s
      | Live _ \<Rightarrow> Some (s\<lparr>attr_files := removeAll ''ds_temp'' (removeAll ''ds_time'' (attr_files s)), attr_class := Freed\<rparr>)
      | Freed \<Rightarrow> None);
     Some (s\<lparr>i2c_driver := False\<rparr>) }"

section \<open>What is shown\<close>

text \<open>The clock counts in binary coded decimals; the temperature is a signed byte.\<close>

definition bcd :: "nat \<Rightarrow> int" where
  "bcd n = int (16 * (n div 10) + n mod 10)"

definition two_digits :: "nat \<Rightarrow> string" where
  "two_digits n = [char_of (48 + n div 10), char_of (48 + n mod 10)]"

lemma show_hex2_bcd: "n < 60 \<Longrightarrow> show_hex2 (word_of_int (bcd n)) = two_digits n"
proof -
  have "\<forall>n \<in> set [0..<60]. show_hex2 (word_of_int (bcd n)) = two_digits n" by code_simp
  then show "n < 60 \<Longrightarrow> ?thesis" by simp
qed

text \<open>Printing the registers in hexadecimal shows the time of day in decimal, since the clock counts in binary coded
  decimals, with two digits for each part, in the 24 hour mode.\<close>

theorem time_shown:
  assumes "drv_client s" "h < 24" "m < 60" "sec < 60"
    and "read_byte REG_HOUR = bcd h" "read_byte REG_MIN = bcd m" "read_byte REG_SEC = bcd sec"
  shows "fst (ds_time_show read_byte s) = two_digits h @ '':'' @ two_digits m @ '':'' @ two_digits sec @ ''\<newline>''"
  using assms by (simp add: ds_time_show_def ds_read_data_def show_hex2_bcd)

lemma time_shown_witness:
  "fst (ds_time_show (\<lambda>r. if r = 2 then 35 else if r = 1 then 89 else 7) (ds3231_start ''N''\<lparr>drv_client := True\<rparr>)) = ''23:59:07\<newline>''"
proof -
  have "two_digits 23 = ''23''" "two_digits 59 = ''59''" "two_digits 7 = ''07''" by code_simp+
  with time_shown [of "ds3231_start ''N''\<lparr>drv_client := True\<rparr>" 23 59 7 "\<lambda>r. if r = 2 then 35 else if r = 1 then 89 else 7"]
  show ?thesis by (simp add: bcd_def REG_HOUR_def REG_MIN_def REG_SEC_def)
qed

text \<open>The temperature shown is the sensor's while that is not negative, in either unit, and 256 degrees Celsius too
  high below zero, since the byte of the register is taken as unsigned.\<close>

theorem temperature_shown:
  assumes "drv_client s" "- 128 \<le> t" "t < 128" "read_byte REG_TEMP_H = t mod 256"
  defines "shown \<equiv> (if 0 \<le> t then t else t + 256)"
  shows "(hd (param1 s @ [NUL]) = CHR ''C'' \<longrightarrow> map_option fst (ds_temp_show read_byte s) = Some (show_int shown @ '' '' @ param1 s @ ''\<newline>'')) \<and>
    (hd (param1 s @ [NUL]) = CHR ''F'' \<longrightarrow> map_option fst (ds_temp_show read_byte s) = Some (show_int ((9 * shown + 160) div 5) @ '' '' @ param1 s @ ''\<newline>''))"
proof -
  have m: "t mod 256 = shown" "0 \<le> shown" "shown < 256"
  proof -
    have "t mod 256 = (t + 256) mod 256" by simp
    then show "t mod 256 = shown" unfolding shown_def using assms(2,3) by (cases "0 \<le> t") (simp_all add: mod_pos_pos_trivial del: mod_add_self2)
  qed (use assms(2,3) in \<open>auto simp: shown_def\<close>)
  have "2 * (9 * shown + 160) div (2 * 5) = (9 * shown + 160) div 5" by (rule div_mult_mult1) simp
  then have "(18 * shown + 320) div 10 = (9 * shown + 160) div 5" by (simp add: algebra_simps)
  moreover have "0 \<le> (18 * shown + 320) div 10" using m(2) by (simp add: pos_imp_zdiv_nonneg_iff)
  moreover have "(18 * shown + 320) div 10 \<le> (18 * 256 + 320) div 10" by (rule zdiv_mono1) (use m(3) in simp_all)
  ultimately have "c_mul shown 18 = Some (18 * shown)" "c_add (18 * shown) 320 = Some (18 * shown + 320)"
    "c_div (18 * shown + 320) 10 = Some ((18 * shown + 320) div 10)"
    "(18 * shown + 320) div 10 = (9 * shown + 160) div 5"
    using m(2,3) by (simp_all add: c_mul_def c_add_def c_div_def c_int_def in_int_def tdiv_nonneg)
  moreover have "read_byte REG_TEMP_H = shown" using assms(4) m(1) by (rule trans)
  ultimately show ?thesis using assms(1) by (simp only: ds_temp_show_def ds_read_data_def) simp
qed

text \<open>Ten degrees below zero, in Fahrenheit: 474 degrees instead of 14.\<close>

lemma temperature_shown_witness:
  "map_option fst (ds_temp_show (\<lambda>r. 246) (ds3231_start ''F''\<lparr>drv_client := True\<rparr>)) = Some ''474 F\<newline>''"
proof -
  have "show_int 474 = ''474''" by code_simp
  with temperature_shown [of "ds3231_start ''F''\<lparr>drv_client := True\<rparr>" "- 10" "\<lambda>_. 246"] show ?thesis
    by (simp add: ds3231_start_def)
qed

text \<open>Without a client the last values are shown.\<close>

lemma no_client: "\<not> drv_client s \<Longrightarrow> ds_read_data read_byte s = (- ENODEV, s)"
  by (simp add: ds_read_data_def)

section \<open>Loading and unloading\<close>

text \<open>Loading that succeeds is undone by unloading. Loading that fails after the driver was registered leaves the
  driver behind, and a class and its first file that were made as well.\<close>

theorem driver_load_unload:
  "\<exists>s. ds3231_init driver_ret class_ret time_ret temp_ret (ds3231_start param) =
      (if driver_ret \<noteq> 0 then driver_ret else if class_ret \<noteq> 0 then class_ret else if time_ret \<noteq> 0 then time_ret else temp_ret, s) \<and>
    i2c_driver s = (driver_ret = 0) \<and>
    (attr_class s = Live ()) = (driver_ret = 0 \<and> class_ret = 0) \<and>
    attr_files s = take (if driver_ret \<noteq> 0 \<or> class_ret \<noteq> 0 \<or> time_ret \<noteq> 0 then 0 else if temp_ret \<noteq> 0 then 1 else 2) [''ds_time'', ''ds_temp''] \<and>
    (attr_class s = Live () \<longrightarrow> (\<exists>s'. ds3231_exit s = Some s' \<and> \<not> i2c_driver s' \<and> attr_files s' = [] \<and> attr_class s' = Freed))"
  by (auto simp: ds3231_init_def ds3231_start_def ds3231_exit_def Let_def)

lemma driver_load_unload_witness:
  "\<exists>s s'. ds3231_init 0 0 0 0 (ds3231_start ''C'') = (0, s) \<and> ds3231_exit s = Some s' \<and> \<not> i2c_driver s' \<and> attr_files s' = []"
  using driver_load_unload [of 0 0 0 0 "''C''"] by auto

end
