(* ===== verification/Devices.thy ===== *)
theory Devices
  imports Procfs
begin

text \<open>
  The character devices of \<^verbatim>\<open>exercise11\<close>: one text that can be read (\<^verbatim>\<open>dev.h\<close>), from three devices without nodes
  that one process at a time may open (\<^verbatim>\<open>part01/fixdev.c\<close>), or from devices whose nodes the module
  makes (\<^verbatim>\<open>part01/dyndev.c\<close>, and \<^verbatim>\<open>part02/dyndev.c\<close>, where their minor numbers are parameters).
\<close>

section \<open>Reading\<close>

definition EINVAL :: int where "EINVAL = 22"
definition EBUSY :: int where "EBUSY = 16"

definition hello_str :: string where "hello_str = ''Hello, world!\<newline>''"

text \<open>The file position goes from call to call; \<open>count\<close> is compared as a \<open>size_t\<close>.\<close>

definition dev_read :: "nat \<Rightarrow> size_t \<Rightarrow> int \<Rightarrow> (int \<times> char list \<times> int) option" where
  "dev_read room count ppos =
     (let len = length hello_str in
      if count < of_nat len then Some (- EINVAL, [], ppos)
      else if ppos \<noteq> 0 then Some (0, [], ppos)
      else do {
        (bytes, left) \<leftarrow> copy_to_user room hello_str 0 (of_nat len);
        (if left \<noteq> 0 then Some (- EINVAL, bytes, ppos)
         else Some (int len, bytes, int len)) })"

section \<open>Modules\<close>

text \<open>
  What the kernel keeps for a module: the region of device numbers (the major, the first minor and
  the count), the character device over it, the class, and the nodes with their minor number and name.
\<close>

record chrdev =
  dev_major :: int
  dev_region :: "(int \<times> int \<times> int) option"
  hcdev :: "(int \<times> int \<times> int) option"
  devclass :: bool
  dev_nodes :: "(int \<times> string) list"
  device_open :: int

definition chrdev_start :: "int \<Rightarrow> chrdev" where
  "chrdev_start m = \<lparr>dev_major = m, dev_region = None, hcdev = None, devclass = False, dev_nodes = [], device_open = 0\<rparr>"

definition DEVICE_FIRST :: int where "DEVICE_FIRST = 0"
definition DEVICE_COUNT :: int where "DEVICE_COUNT = 3"

text \<open>
  The part the three modules share. \<open>ret\<close> is the answer to the registration, \<open>got\<close> the major number that
  comes with it, whatever the answer, and \<open>add_ret\<close> the answer to \<open>cdev_add\<close>.
\<close>

definition dev_register :: "int \<Rightarrow> int \<Rightarrow> int \<Rightarrow> int \<Rightarrow> int \<Rightarrow> chrdev \<Rightarrow> int \<times> chrdev" where
  "dev_register first count ret got add_ret s =
     (let s = (if dev_major s \<noteq> 0 then s else s\<lparr>dev_major := got\<rparr>) in
      if ret < 0 then (ret, s)
      else let s = s\<lparr>dev_region := Some (dev_major s, first, count)\<rparr> in
        if add_ret < 0 then (add_ret, s\<lparr>dev_region := None\<rparr>)
        else (add_ret, s\<lparr>hcdev := Some (dev_major s, first, count)\<rparr>))"

definition dev_unregister :: "chrdev \<Rightarrow> chrdev" where
  "dev_unregister s = s\<lparr>hcdev := None, dev_region := None\<rparr>"

definition fixdev_open :: "chrdev \<Rightarrow> int \<times> chrdev" where
  "fixdev_open s = (if device_open s \<noteq> 0 then (- EBUSY, s) else (0, s\<lparr>device_open := device_open s + 1\<rparr>))"

definition fixdev_release :: "chrdev \<Rightarrow> int \<times> chrdev" where
  "fixdev_release s = (0, s\<lparr>device_open := device_open s - 1\<rparr>)"

definition fixdev_init :: "int \<Rightarrow> int \<Rightarrow> int \<Rightarrow> chrdev \<Rightarrow> int \<times> chrdev" where
  "fixdev_init ret got add_ret s = dev_register DEVICE_FIRST DEVICE_COUNT ret got add_ret s"

definition fixdev_exit :: "chrdev \<Rightarrow> chrdev" where
  "fixdev_exit s = dev_unregister s"

text \<open>A class that cannot be made is used all the same, which faults. Nodes: \<open>part01\<close> counts from 0 to the count, \<open>part02\<close> from the first minor to the \<open>max\<close>, which is also the count.\<close>

definition node_name :: "int \<Rightarrow> string" where
  "node_name i = ''dyn_'' @ show_int i"

definition create_nodes :: "int \<Rightarrow> int \<Rightarrow> int \<Rightarrow> chrdev \<Rightarrow> chrdev" where
  "create_nodes base lo hi s = s\<lparr>dev_nodes := dev_nodes s @ map (\<lambda>i. (base + i, node_name i)) [lo..hi - 1]\<rparr>"

definition destroy_nodes :: "int \<Rightarrow> int \<Rightarrow> int \<Rightarrow> chrdev \<Rightarrow> chrdev" where
  "destroy_nodes base lo hi s = s\<lparr>dev_nodes := filter (\<lambda>(m, _). m \<notin> (\<lambda>i. base + i) ` {lo..hi - 1}) (dev_nodes s)\<rparr>"

definition dyndev_init :: "int \<Rightarrow> int \<Rightarrow> int \<Rightarrow> bool \<Rightarrow> chrdev \<Rightarrow> (int \<times> chrdev) option" where
  "dyndev_init ret got add_ret class_ok s =
     (let (r, s) = dev_register DEVICE_FIRST DEVICE_COUNT ret got add_ret s in
      if r < 0 then Some (r, s)
      else if \<not> class_ok then None
      else let s = s\<lparr>devclass := True\<rparr> in Some (r, create_nodes DEVICE_FIRST 0 DEVICE_COUNT s))"

definition dyndev_exit :: "chrdev \<Rightarrow> chrdev" where
  "dyndev_exit s =
     (let s = destroy_nodes DEVICE_FIRST 0 DEVICE_COUNT s;
          s = s\<lparr>devclass := False\<rparr> in dev_unregister s)"

definition dyndev_param_init :: "int \<Rightarrow> int \<Rightarrow> int \<Rightarrow> int \<Rightarrow> int \<Rightarrow> bool \<Rightarrow> chrdev \<Rightarrow> (int \<times> chrdev) option" where
  "dyndev_param_init devices_minor_min devices_minor_max ret got add_ret class_ok s =
     (let (r, s) = dev_register devices_minor_min devices_minor_max ret got add_ret s in
      if r < 0 then Some (r, s)
      else if \<not> class_ok then None
      else let s = s\<lparr>devclass := True\<rparr> in Some (r, create_nodes devices_minor_min devices_minor_min devices_minor_max s))"

definition dyndev_param_exit :: "int \<Rightarrow> int \<Rightarrow> chrdev \<Rightarrow> chrdev" where
  "dyndev_param_exit devices_minor_min devices_minor_max s =
     (let s = destroy_nodes devices_minor_min devices_minor_min devices_minor_max s;
          s = s\<lparr>devclass := False\<rparr> in dev_unregister s)"

section \<open>What is read\<close>

lemma hello_length: "length hello_str = 14"
  by (simp add: hello_str_def)

definition hello_sizes :: "nat \<times> size_t \<Rightarrow> bool" where
  "hello_sizes = (\<lambda>(room, count). 14 \<le> unat count \<and> 14 \<le> room)"

interpretation hello: text_file "\<lambda>(room, count). dev_read room count" hello_sizes
    "\<lambda>k ppos. (k = 0 \<or> k = 14) \<and> ppos = int k" "\<lambda>ppos. ppos = 14" hello_str
proof
  fix e :: "nat \<times> size_t" and k and ppos :: int
  assume e: "hello_sizes e" and at: "(k = 0 \<or> k = 14) \<and> ppos = int k" and "k < length hello_str"
  then have k: "k = 0" "ppos = 0" by (auto simp: hello_length)
  obtain room count where rc: "e = (room, count)" "14 \<le> unat count" "14 \<le> room" using e by (cases e) (auto simp: hello_sizes_def)
  have "unat (14 :: size_t) = 14" by simp
  then have "\<not> count < 14" using rc(2) unfolding word_less_nat_alt by simp
  then have "dev_read room count 0 = Some (14, hello_str, 14)"
    using copy_to_user_Some [of "of_nat 14" hello_str room] rc(3) by (simp add: dev_read_def hello_length)
  then show "\<exists>m ppos'. (case e of (room, count) \<Rightarrow> dev_read room count) ppos = Some (int m, take m (drop k hello_str), ppos') \<and> 0 < m \<and>
      k + m \<le> length hello_str \<and> (k + m = 0 \<or> k + m = 14) \<and> ppos' = int (k + m)"
    using k rc(1) by (intro exI [of _ 14]) (simp add: hello_length)
next
  fix e :: "nat \<times> size_t" and ppos :: int
  assume e: "hello_sizes e" and at: "(length hello_str = 0 \<or> length hello_str = 14) \<and> ppos = int (length hello_str)"
  obtain room count where rc: "e = (room, count)" "14 \<le> unat count" using e by (cases e) (auto simp: hello_sizes_def)
  have "unat (14 :: size_t) = 14" by simp
  then have "\<not> count < 14" using rc(2) unfolding word_less_nat_alt by simp
  then show "\<exists>ppos'. (case e of (room, count) \<Rightarrow> dev_read room count) ppos = Some (0, [], ppos') \<and> ppos' = 14"
    using at rc(1) by (simp add: dev_read_def hello_length)
qed

text \<open>A reader whose buffer holds the text gets it once, and then the end of the file; a shorter buffer is refused.\<close>

theorem hello_read:
  assumes "list_all hello_sizes sizes" "15 \<le> length sizes"
  shows "(\<exists>ppos. cat (map (\<lambda>(room, count). dev_read room count) sizes) 0 = Some (''Hello, world!\<newline>'', ppos)) \<and>
    (\<forall>room count ppos. unat count < 14 \<longrightarrow> dev_read room count ppos = Some (- EINVAL, [], ppos))"
proof
  show "\<exists>ppos. cat (map (\<lambda>(room, count). dev_read room count) sizes) 0 = Some (''Hello, world!\<newline>'', ppos)"
    using hello.cat_text [OF assms(1)] assms(2) by (auto simp: hello_length) (auto simp: hello_str_def)
  have "unat (14 :: size_t) = 14" by simp
  then show "\<forall>room count ppos. unat count < 14 \<longrightarrow> dev_read room count ppos = Some (- EINVAL, [], ppos)"
    by (simp add: dev_read_def hello_length word_less_nat_alt)
qed

lemma hello_read_witness:
  "\<exists>ppos. cat (map (\<lambda>(room, count). dev_read room count) (replicate 15 (64, 64))) 0 = Some (''Hello, world!\<newline>'', ppos)"
  using hello_read [of "replicate 15 (64, 64)"] by (simp add: hello_sizes_def list_all_iff)

section \<open>Opening, loading and unloading\<close>

text \<open>Between its opening and its release a device is busy.\<close>

lemma open_exclusive:
  assumes "device_open s = 0"
  shows "\<exists>s1. fixdev_open s = (0, s1) \<and> fixdev_open s1 = (- EBUSY, s1) \<and> fixdev_release s1 = (0, s)"
  using assms by (auto simp: fixdev_open_def fixdev_release_def)

text \<open>Loading fails with nothing left, or unloading takes every number, node and class back, for any minor numbers.\<close>

theorem dyndev_load_unload:
  "\<exists>r s. dyndev_param_init lo hi ret got add_ret True (chrdev_start m) = Some (r, s) \<and>
    (if r < 0 then dev_region s = None \<and> hcdev s = None \<and> \<not> devclass s \<and> dev_nodes s = []
     else dev_region s = Some (dev_major s, lo, hi) \<and> hcdev s = dev_region s \<and> devclass s \<and>
       dyndev_param_exit lo hi s = chrdev_start (dev_major s))"
  by (auto simp: dyndev_param_init_def dyndev_param_exit_def dev_register_def dev_unregister_def create_nodes_def destroy_nodes_def
      chrdev_start_def Let_def)

text \<open>The module of \<open>part01\<close> is the one of \<open>part02\<close> with its default parameters.\<close>

lemma dyndev_default: "dyndev_init = dyndev_param_init 0 3" "dyndev_exit = dyndev_param_exit 0 3"
  unfolding fun_eq_iff dyndev_init_def dyndev_param_init_def dyndev_exit_def dyndev_param_exit_def DEVICE_FIRST_def DEVICE_COUNT_def
  by simp_all

text \<open>The nodes get twice the first minor number and on, so that they cover the region of the device exactly when
  the first minor is 0, and otherwise leave some of its minors without a node.\<close>

theorem node_minors_doubled:
  assumes "0 \<le> lo" "lo < hi" "0 \<le> ret" "0 \<le> add_ret"
  shows "\<exists>r s. dyndev_param_init lo hi ret got add_ret True (chrdev_start m) = Some (r, s) \<and> hcdev s = Some (dev_major s, lo, hi) \<and>
    map fst (dev_nodes s) = [2 * lo..lo + hi - 1] \<and> (set (map fst (dev_nodes s)) = {lo..<lo + hi} \<longleftrightarrow> lo = 0)"
proof -
  have nodes: "map (\<lambda>i. lo + i) [lo..hi - 1] = [2 * lo..lo + hi - 1]"
    by (rule nth_equalityI) (auto simp: nth_upto)
  have "{2 * lo..lo + hi - 1} = {lo..<lo + hi} \<longleftrightarrow> lo = 0"
  proof
    assume eq: "{2 * lo..lo + hi - 1} = {lo..<lo + hi}"
    have "lo \<in> {lo..<lo + hi}" using assms(1,2) by auto
    then have "lo \<in> {2 * lo..lo + hi - 1}" unfolding eq .
    then show "lo = 0" using assms(1) by simp
  qed auto
  moreover define s where "s = snd (the (dyndev_param_init lo hi ret got add_ret True (chrdev_start m)))"
  moreover have "dyndev_param_init lo hi ret got add_ret True (chrdev_start m) = Some (add_ret, s)" "hcdev s = Some (dev_major s, lo, hi)"
    "map fst (dev_nodes s) = map (\<lambda>i. lo + i) [lo..hi - 1]"
    using assms by (simp_all add: s_def dyndev_param_init_def dev_register_def create_nodes_def chrdev_start_def comp_def)
  ultimately show ?thesis unfolding nodes by (metis set_upto)
qed

lemma node_minors_doubled_witness:
  "\<exists>r s. dyndev_param_init 1 3 0 250 0 True (chrdev_start 0) = Some (r, s) \<and> hcdev s = Some (dev_major s, 1, 3) \<and> map fst (dev_nodes s) = [2..3]"
  using node_minors_doubled [of 1 3 0 0 250 0] by auto

end
