(* ===== verification/MemoryTest.thy ===== *)
theory MemoryTest
  imports Prelude
begin

text \<open>
  The allocation test of \<^verbatim>\<open>exercise14/userspace_mem_test.c\<close>: it asks for twice as much memory each time, until
  there is none. The sizes are 64-bit words, which wrap around to 0; which sizes the allocator
  has memory for, and how much the stack holds, are parameters. The times that are printed are left out.
\<close>

datatype profiling_alloc = malloc_allocator | calloc_allocator

datatype alloc_line = Completed "64 word" | Failed_request "64 word"

text \<open>The loop has no end of its own: not returning is \<open>None\<close>.\<close>

partial_function (option) profile_alloc_from :: "(64 word \<Rightarrow> bool) \<Rightarrow> 64 word \<Rightarrow> alloc_line list option" where
  "profile_alloc_from allocates alloc_request =
     (if \<not> allocates alloc_request then Some [Failed_request alloc_request]
      else do {
        rest \<leftarrow> profile_alloc_from allocates (alloc_request * 2);
        Some (Completed alloc_request # rest) })"

definition profile_alloc :: "(profiling_alloc \<Rightarrow> 64 word \<Rightarrow> bool) \<Rightarrow> profiling_alloc \<Rightarrow> alloc_line list option" where
  "profile_alloc allocates profiling_mode = profile_alloc_from (allocates profiling_mode) 1"

text \<open>
  \<open>alloca\<close> never returns NULL: a request that the stack does not hold is undefined. The rounds of the
  loop are counted; the result is the request of the next round.
\<close>

definition profile_alloca_impl :: "nat \<Rightarrow> 64 word \<Rightarrow> bool option" where
  "profile_alloca_impl stack request_mem = (if unat request_mem \<le> stack then Some True else None)"

fun profile_alloca_rounds :: "nat \<Rightarrow> nat \<Rightarrow> 64 word \<Rightarrow> 64 word option" where
  "profile_alloca_rounds 0 stack alloc_size = Some alloc_size"
| "profile_alloca_rounds (Suc n) stack alloc_size = do {
     ok \<leftarrow> profile_alloca_impl stack alloc_size;
     (if \<not> ok then Some alloc_size else profile_alloca_rounds n stack (alloc_size * 2)) }"

section \<open>When the test ends\<close>

lemma word_2_power_64: "(2 :: 64 word) ^ 64 = 0"
  by simp

lemma profile_alloc_prefix:
  assumes "\<forall>i < k. allocates (2 ^ (j + i))"
  shows "profile_alloc_from allocates (2 ^ j) =
    map_option (\<lambda>rest. map (\<lambda>i. Completed (2 ^ (j + i))) [0..<k] @ rest) (profile_alloc_from allocates (2 ^ (j + k)))"
  using assms
proof (induction k)
  case (Suc k)
  then have "allocates (2 ^ (j + k))" by simp
  then have "profile_alloc_from allocates (2 ^ (j + k)) =
      map_option ((#) (Completed (2 ^ (j + k)))) (profile_alloc_from allocates (2 ^ (j + Suc k)))"
    by (subst profile_alloc_from.simps) (simp add: map_option_case mult.commute split: option.split bind_splits)
  then show ?case using Suc by (simp add: option.map_comp comp_def)
qed (cases "profile_alloc_from allocates (2 ^ j)"; simp)

text \<open>A request for nothing that succeeds is repeated for ever.\<close>

lemma profile_alloc_zero: "allocates 0 \<Longrightarrow> profile_alloc_from allocates 0 = None"
proof (rule ccontr)
  assume a: "allocates 0" and "profile_alloc_from allocates 0 \<noteq> None"
  then obtain ls where ls: "profile_alloc_from allocates 0 = Some ls" by blast
  have "profile_alloc_from allocates 0 = do { rest \<leftarrow> profile_alloc_from allocates 0; Some (Completed 0 # rest) }"
    using a by (subst profile_alloc_from.simps) simp
  then have "ls = Completed 0 # ls" using ls by simp
  then show False by simp
qed

text \<open>C32: The test asks for the powers of two in order and returns with the first of them that fails, where the power after
  the 63rd is 0; it does not return when there is memory for each of them and for 0 bytes.\<close>

theorem profile_alloc_result:
  "profile_alloc allocates mode = (case List.find (\<lambda>k. \<not> allocates mode (2 ^ k)) [0..<65] of
     Some k \<Rightarrow> Some (map (\<lambda>i. Completed (2 ^ i)) [0..<k] @ [Failed_request (2 ^ k)])
   | None \<Rightarrow> None)"
proof (cases "List.find (\<lambda>k. \<not> allocates mode (2 ^ k)) [0..<65]")
  case None
  then have all: "k < 65 \<Longrightarrow> allocates mode (2 ^ k)" for k by (auto simp: find_None_iff)
  have "allocates mode (2 ^ 64)" by (rule all) simp
  then have "allocates mode 0" by (simp only: word_2_power_64)
  moreover have "profile_alloc_from (allocates mode) (2 ^ 0) =
      map_option (\<lambda>rest. map (\<lambda>i. Completed (2 ^ (0 + i))) [0..<64] @ rest) (profile_alloc_from (allocates mode) (2 ^ (0 + 64)))"
    by (rule profile_alloc_prefix) (use all in simp)
  ultimately show ?thesis using None profile_alloc_zero [of "allocates mode"] unfolding profile_alloc_def
    by (simp only: add_0 word_2_power_64 power_0 option.map option.case)
next
  case (Some k)
  then have k: "k < 65" "\<not> allocates mode (2 ^ k)" "\<forall>i < k. allocates mode (2 ^ i)"
    by (auto simp: find_Some_iff)
  have "profile_alloc_from (allocates mode) (2 ^ 0) =
      map_option (\<lambda>rest. map (\<lambda>i. Completed (2 ^ (0 + i))) [0..<k] @ rest) (profile_alloc_from (allocates mode) (2 ^ (0 + k)))"
    by (rule profile_alloc_prefix) (use k(3) in simp)
  moreover have "profile_alloc_from (allocates mode) (2 ^ k) = Some [Failed_request (2 ^ k)]"
    using k(2) by (subst profile_alloc_from.simps) simp
  ultimately show ?thesis using Some by (simp add: profile_alloc_def)
qed

text \<open>The test of \<open>alloca\<close> never gets to its end: below 64 doublings it leaves the stack.\<close>

lemma profile_alloca_overflows:
  assumes "stack < 2 ^ 63"
  shows "profile_alloca_rounds 64 stack 1 = None"
proof -
  have small: "unat ((2 :: 64 word) ^ k) = 2 ^ k" if "k < 64" for k
  proof -
    have "(2 :: 64 word) ^ k = of_nat (2 ^ k)" by simp
    moreover have "(2 :: nat) ^ k < 2 ^ LENGTH(64)" using that by (intro power_strict_increasing) simp_all
    ultimately show ?thesis by (simp only: unat_of_nat mod_less)
  qed
  have "k \<le> 63 \<Longrightarrow> profile_alloca_rounds (Suc k) stack (2 ^ (63 - k)) = None" for k
  proof (induction k)
    case 0
    have "unat ((2 :: 64 word) ^ 63) = 2 ^ 63" by (rule small) simp
    then have "\<not> unat ((2 :: 64 word) ^ 63) \<le> stack" using assms by linarith
    then show ?case by (simp only: profile_alloca_rounds.simps profile_alloca_impl_def diff_zero if_False Option.bind_lzero)
  next
    case (Suc k)
    then have "(2 :: 64 word) ^ (63 - Suc k) * 2 = 2 ^ (63 - k)"
      by (metis Suc_diff_Suc Suc_le_lessD power_Suc2)
    then show ?case using Suc by (subst profile_alloca_rounds.simps) (simp add: profile_alloca_impl_def)
  qed
  from this [of 63] show ?thesis by (simp add: eval_nat_numeral)
qed

end
