(* ===== verification/Exports.thy ===== *)
theory Exports
  imports Prelude
begin

text \<open>
  The first modules, \<^verbatim>\<open>exercise9\<close>: \<^verbatim>\<open>part01/ex01.c\<close> prints a line when it is loaded and one when it
  is unloaded; \<^verbatim>\<open>part02/ex02.c\<close> exports two functions that build a text in a static array, which
  \<^verbatim>\<open>part02/test_ex02.c\<close> calls from another module. What a module prints is the list of its lines.
\<close>

section \<open>A module that prints\<close>

definition ex01_init :: "int \<times> string list" where
  "ex01_init = (0, [''Hello!!!\<newline>''])"

definition ex01_exit :: "string list" where
  "ex01_exit = [''Bye...\<newline>'']"

section \<open>Exported functions\<close>

text \<open>The static arrays of the two functions, 80 characters each.\<close>

record exports =
  res_01 :: string
  res_02 :: string

definition exports_start :: exports where
  "exports_start = \<lparr>res_01 = replicate 80 NUL, res_02 = replicate 80 NUL\<rparr>"

definition retpref :: string where
  "retpref = ''this string returned from ''"

definition strcpy :: "string \<Rightarrow> string \<Rightarrow> string option" where
  "strcpy dest src = poke dest 0 (src @ [NUL])"

definition strcat :: "string \<Rightarrow> string \<Rightarrow> string option" where
  "strcat dest src = do { t \<leftarrow> c_string dest; poke dest (length t) (src @ [NUL]) }"

text \<open>The result is a pointer to the array: the text in it and the state.\<close>

definition test_01 :: "exports \<Rightarrow> (string \<times> exports) option" where
  "test_01 s = do {
     res \<leftarrow> strcpy (res_01 s) retpref;
     res \<leftarrow> strcat res ''test_01'';
     t \<leftarrow> c_string res;
     Some (t, s\<lparr>res_01 := res\<rparr>) }"

definition test_02 :: "exports \<Rightarrow> (string \<times> exports) option" where
  "test_02 s = do {
     res \<leftarrow> strcpy (res_02 s) retpref;
     res \<leftarrow> strcat res ''test_02'';
     t \<leftarrow> c_string res;
     Some (t, s\<lparr>res_02 := res\<rparr>) }"

definition ex02_init :: "exports \<Rightarrow> ((int \<times> string list) \<times> exports) option" where
  "ex02_init s = do {
     (t1, s) \<leftarrow> test_01 s;
     (t2, s) \<leftarrow> test_02 s;
     Some ((0, [''ex02: Hello!!!\<newline>'', ''ex02: '' @ t1 @ ''\<newline>'', ''ex02: '' @ t2 @ ''\<newline>'']), s) }"

definition ex02_exit :: "string list" where
  "ex02_exit = [''ex02: Bye...\<newline>'']"

definition test_ex02_init :: "exports \<Rightarrow> ((int \<times> string list) \<times> exports) option" where
  "test_ex02_init s = do {
     (t1, s) \<leftarrow> test_01 s;
     (t2, s) \<leftarrow> test_02 s;
     Some ((0, [''test_ex02: Hello!!!\<newline>'', ''test_ex02: '' @ t1 @ ''\<newline>'', ''test_ex02: '' @ t2 @ ''\<newline>'', ''test_ex02: Bye...\<newline>'']), s) }"

definition test_ex02_exit :: "string list" where
  "test_ex02_exit = [''test_ex02: Bye...\<newline>'']"

section \<open>What they return\<close>

lemma build_text:
  assumes "length res = 80" "length t + length u < 80" "NUL \<notin> set t" "NUL \<notin> set u"
  shows "\<exists>res'. do { r \<leftarrow> strcpy res t; strcat r u } = Some res' \<and> length res' = 80 \<and> c_string res' = Some (t @ u)"
proof -
  have "strcpy res t = Some (t @ NUL # drop (Suc (length t)) res)" using assms(1,2) by (simp add: strcpy_def poke_def)
  moreover have "strcat (t @ NUL # drop (Suc (length t)) res) u = Some ((t @ u) @ NUL # drop (length t + length u + 1) res)"
    using assms(1,2) by (simp add: strcat_def c_string_middle [OF assms(3)] poke_def add.commute)
  ultimately show ?thesis using assms c_string_middle [of "t @ u" "drop (length t + length u + 1) res"] by simp
qed

text \<open>The texts fit their arrays, at the first call and at every later one, whichever module calls.\<close>

lemma exports_texts:
  assumes "length (res_01 s) = 80" "length (res_02 s) = 80"
  shows "\<exists>s'. test_01 s = Some (retpref @ ''test_01'', s') \<and> length (res_01 s') = 80 \<and> res_02 s' = res_02 s"
    "\<exists>s'. test_02 s = Some (retpref @ ''test_02'', s') \<and> length (res_02 s') = 80 \<and> res_01 s' = res_01 s"
proof -
  have n: "NUL \<notin> set retpref" "NUL \<notin> set ''test_01''" "NUL \<notin> set ''test_02''" "length retpref = 26" by (simp_all add: retpref_def NUL_def)
  obtain r1 where "do { r \<leftarrow> strcpy (res_01 s) retpref; strcat r ''test_01'' } = Some r1" "length r1 = 80" "c_string r1 = Some (retpref @ ''test_01'')"
    using build_text [OF assms(1), of retpref "''test_01''"] n by auto
  then show "\<exists>s'. test_01 s = Some (retpref @ ''test_01'', s') \<and> length (res_01 s') = 80 \<and> res_02 s' = res_02 s"
    by (auto simp: test_01_def bind_eq_Some_conv)
  obtain r2 where "do { r \<leftarrow> strcpy (res_02 s) retpref; strcat r ''test_02'' } = Some r2" "length r2 = 80" "c_string r2 = Some (retpref @ ''test_02'')"
    using build_text [OF assms(2), of retpref "''test_02''"] n by auto
  then show "\<exists>s'. test_02 s = Some (retpref @ ''test_02'', s') \<and> length (res_02 s') = 80 \<and> res_01 s' = res_01 s"
    by (auto simp: test_02_def bind_eq_Some_conv)
qed

lemma both_modules_load:
  "\<exists>s1 s2 l1 l2. ex02_init exports_start = Some ((0, l1), s1) \<and> test_ex02_init s1 = Some ((0, l2), s2) \<and>
    l1 ! 1 = ''ex02: this string returned from test_01\<newline>'' \<and> l2 ! 2 = ''test_ex02: this string returned from test_02\<newline>''"
proof -
  have "length (res_01 exports_start) = 80" "length (res_02 exports_start) = 80" by (simp_all add: exports_start_def)
  then obtain s1 where "test_01 exports_start = Some (retpref @ ''test_01'', s1)" "length (res_01 s1) = 80" "length (res_02 s1) = 80"
    using exports_texts(1) by metis
  moreover from this obtain s2 where "test_02 s1 = Some (retpref @ ''test_02'', s2)" "length (res_01 s2) = 80" "length (res_02 s2) = 80"
    using exports_texts(2) by metis
  moreover from this obtain s3 where "test_01 s2 = Some (retpref @ ''test_01'', s3)" "length (res_01 s3) = 80" "length (res_02 s3) = 80"
    using exports_texts(1) by metis
  moreover from this obtain s4 where "test_02 s3 = Some (retpref @ ''test_02'', s4)" using exports_texts(2) by metis
  ultimately show ?thesis by (simp add: ex02_init_def test_ex02_init_def retpref_def)
qed

end
