(* ===== verification/Lvgl.thy ===== *)
theory Lvgl
  imports Prelude
begin

text \<open>
  The widget library LVGL, as the graphical application of \<^verbatim>\<open>final_task/userspace_app\<close> calls it. The
  library is not in the repository: its functions are the fields of a record that every
  definition of the application takes as an argument, and \<open>lvgl_laws\<close> states what its documentation
  promises and the application relies on. The state \<open>'w\<close> of the library is whatever it is; an
  object is known by its handle. A call on an object that is not alive is the value \<open>None\<close>.
\<close>

section \<open>The functions\<close>

datatype event_code = LV_EVENT_ALL | LV_EVENT_CLICKED | LV_EVENT_SCROLL

datatype event_callback = On_scroll | On_notification_button | On_messagebox

datatype timer_slot = Autoscroll_timer | Notification_timer

datatype extent = Px int | Pct int | Size_content

text \<open>Calls that change the looks of an object and nothing else.\<close>

datatype looks =
    Set_size extent extent
  | Center
  | Align_center int int
  | Flex_flow_column
  | Style_radius_circle
  | Style_clip_corner bool
  | Scroll_dir_vertical
  | Scroll_snap_y_center
  | Scrollbar_off
  | Style_translate_x int
  | Style_opa int

record area =
  y1 :: int
  y2 :: int

text \<open>\<open>lv_obj_get_child\<close>, \<open>lv_obj_get_parent\<close> and \<open>lv_obj_get_user_data\<close> give \<open>Some None\<close> for NULL.\<close>

record 'w lvgl =
  lv_scr_act :: "'w \<Rightarrow> nat"
  lv_obj_is_valid :: "nat \<Rightarrow> 'w \<Rightarrow> bool"
  lv_obj_get_parent :: "nat \<Rightarrow> 'w \<Rightarrow> nat option option"
  lv_obj_get_child_cnt :: "nat \<Rightarrow> 'w \<Rightarrow> nat option"
  lv_obj_get_child :: "nat \<Rightarrow> nat \<Rightarrow> 'w \<Rightarrow> nat option option"
  lv_obj_get_user_data :: "nat \<Rightarrow> 'w \<Rightarrow> nat option option"
  lv_obj_get_coords :: "nat \<Rightarrow> 'w \<Rightarrow> area option"
  lv_obj_create :: "nat \<Rightarrow> 'w \<Rightarrow> (nat \<times> 'w) option"
  lv_btn_create :: "nat \<Rightarrow> 'w \<Rightarrow> (nat \<times> 'w) option"
  lv_label_create :: "nat \<Rightarrow> 'w \<Rightarrow> (nat \<times> 'w) option"
  lv_msgbox_create :: "string \<Rightarrow> string \<Rightarrow> string list \<Rightarrow> bool \<Rightarrow> 'w \<Rightarrow> (nat \<times> 'w) option"
  lv_msgbox_close :: "nat \<Rightarrow> 'w \<Rightarrow> 'w option"
  lv_obj_del :: "nat \<Rightarrow> 'w \<Rightarrow> 'w option"
  lv_obj_del_async :: "nat \<Rightarrow> 'w \<Rightarrow> 'w option"
  lv_obj_set_user_data :: "nat \<Rightarrow> nat \<Rightarrow> 'w \<Rightarrow> 'w option"
  lv_label_set_text :: "nat \<Rightarrow> string \<Rightarrow> 'w \<Rightarrow> 'w option"
  lv_obj_looks :: "nat \<Rightarrow> looks \<Rightarrow> 'w \<Rightarrow> 'w option"
  lv_obj_add_event_cb :: "nat \<Rightarrow> event_callback \<Rightarrow> event_code \<Rightarrow> 'w \<Rightarrow> 'w option"
  lv_obj_scroll_to_view :: "nat \<Rightarrow> bool \<Rightarrow> 'w \<Rightarrow> 'w option"
  lv_timer_create :: "timer_slot \<Rightarrow> nat \<Rightarrow> 'w \<Rightarrow> (nat \<times> 'w) option"
  lv_timer_del :: "nat \<Rightarrow> 'w \<Rightarrow> 'w option"
  lv_area_get_height :: "area \<Rightarrow> int"
  lv_obj_get_height :: "nat \<Rightarrow> 'w \<Rightarrow> int option"
  lv_sqrt :: "nat \<Rightarrow> nat"
  lv_map :: "int \<Rightarrow> int \<Rightarrow> int \<Rightarrow> int \<Rightarrow> int \<Rightarrow> int"

section \<open>What the documentation promises\<close>

text \<open>The children of an object in order, and the objects below another one or equal to it.\<close>

definition children :: "'w lvgl \<Rightarrow> nat \<Rightarrow> 'w \<Rightarrow> nat list" where
  "children L x w = (case lv_obj_get_child_cnt L x w of None \<Rightarrow> []
     | Some n \<Rightarrow> map (\<lambda>i. case lv_obj_get_child L x i w of Some (Some c) \<Rightarrow> c | _ \<Rightarrow> 0) [0..<n])"

inductive inside :: "'w lvgl \<Rightarrow> 'w \<Rightarrow> nat \<Rightarrow> nat \<Rightarrow> bool" for L w x where
  here: "inside L w x x"
| below: "lv_obj_get_parent L y w = Some (Some p) \<Longrightarrow> inside L w x p \<Longrightarrow> inside L w x y"

inductive_cases insideE: "inside L w x y"

definition on_screen :: "'w lvgl \<Rightarrow> 'w \<Rightarrow> nat \<Rightarrow> bool" where
  "on_screen L w y \<longleftrightarrow> inside L w (lv_scr_act L w) y"

text \<open>What an object is to the application: alive, its place in the tree, the pointer it carries.\<close>

definition same_place :: "'w lvgl \<Rightarrow> nat \<Rightarrow> 'w \<Rightarrow> 'w \<Rightarrow> bool" where
  "same_place L y w w' \<longleftrightarrow> lv_obj_is_valid L y w' \<and> lv_obj_get_parent L y w' = lv_obj_get_parent L y w"

definition same_obj :: "'w lvgl \<Rightarrow> nat \<Rightarrow> 'w \<Rightarrow> 'w \<Rightarrow> bool" where
  "same_obj L y w w' \<longleftrightarrow> same_place L y w w' \<and> children L y w' = children L y w \<and>
     lv_obj_get_user_data L y w' = lv_obj_get_user_data L y w"

definition keeps :: "'w lvgl \<Rightarrow> 'w \<Rightarrow> 'w \<Rightarrow> bool" where
  "keeps L w w' \<longleftrightarrow> lv_scr_act L w' = lv_scr_act L w \<and>
     (\<forall>y. lv_obj_is_valid L y w \<longrightarrow> same_obj L y w w')"

definition keeps_screen :: "'w lvgl \<Rightarrow> 'w \<Rightarrow> 'w \<Rightarrow> bool" where
  "keeps_screen L w w' \<longleftrightarrow> lv_scr_act L w' = lv_scr_act L w \<and>
     (\<forall>y. lv_obj_is_valid L y w \<longrightarrow> on_screen L w y \<longrightarrow> same_obj L y w w')"

definition created :: "'w lvgl \<Rightarrow> nat \<Rightarrow> nat \<Rightarrow> 'w \<Rightarrow> 'w \<Rightarrow> bool" where
  "created L p b w w' \<longleftrightarrow> lv_scr_act L w' = lv_scr_act L w \<and>
     \<not> lv_obj_is_valid L b w \<and> lv_obj_is_valid L b w' \<and> lv_obj_get_parent L b w' = Some (Some p) \<and>
     children L b w' = [] \<and> children L p w' = children L p w @ [b] \<and>
     (\<forall>y. lv_obj_is_valid L y w \<longrightarrow> same_place L y w w' \<and>
        lv_obj_get_user_data L y w' = lv_obj_get_user_data L y w \<and>
        (y \<noteq> p \<longrightarrow> children L y w' = children L y w))"

definition deleted :: "'w lvgl \<Rightarrow> nat \<Rightarrow> 'w \<Rightarrow> 'w \<Rightarrow> bool" where
  "deleted L x w w' \<longleftrightarrow> lv_scr_act L w' = lv_scr_act L w \<and>
     (\<forall>y. lv_obj_is_valid L y w \<longrightarrow> \<not> inside L w x y \<longrightarrow> same_place L y w w' \<and>
        lv_obj_get_user_data L y w' = lv_obj_get_user_data L y w \<and>
        children L y w' = filter (\<lambda>c. c \<noteq> x) (children L y w))"

definition data_set :: "'w lvgl \<Rightarrow> nat \<Rightarrow> nat \<Rightarrow> 'w \<Rightarrow> 'w \<Rightarrow> bool" where
  "data_set L x d w w' \<longleftrightarrow> lv_scr_act L w' = lv_scr_act L w \<and>
     (\<forall>y. lv_obj_is_valid L y w \<longrightarrow> same_place L y w w' \<and> children L y w' = children L y w \<and>
        lv_obj_get_user_data L y w' = (if y = x then Some (Some d) else lv_obj_get_user_data L y w))"

text \<open>
  Queries of a live object answer; an index past the last child gives NULL; the active screen is
  alive and has no parent; new objects are appended to the children of their parent; deleting an object
  takes it from its parent and leaves everything outside it alone; message boxes lie on a layer
  above the screen.
\<close>

definition query_laws :: "'w lvgl \<Rightarrow> bool" where
  "query_laws L \<longleftrightarrow> (\<forall>w. lv_obj_is_valid L (lv_scr_act L w) w \<and> lv_obj_get_parent L (lv_scr_act L w) w = Some None) \<and>
     (\<forall>x w. lv_obj_is_valid L x w \<longrightarrow>
        lv_obj_get_child_cnt L x w = Some (length (children L x w)) \<and>
        (\<forall>i. lv_obj_get_child L x i w = Some (if i < length (children L x w) then Some (children L x w ! i) else None)) \<and>
        lv_obj_get_user_data L x w \<noteq> None \<and> lv_obj_get_coords L x w \<noteq> None \<and> lv_obj_get_height L x w \<noteq> None)"

definition update_laws :: "'w lvgl \<Rightarrow> bool" where
  "update_laws L \<longleftrightarrow> (\<forall>x w. lv_obj_is_valid L x w \<longrightarrow>
     (\<forall>k. \<exists>w'. lv_obj_looks L x k w = Some w' \<and> keeps L w w') \<and>
     (\<forall>t. \<exists>w'. lv_label_set_text L x t w = Some w' \<and> keeps L w w') \<and>
     (\<forall>f c. \<exists>w'. lv_obj_add_event_cb L x f c w = Some w' \<and> keeps L w w') \<and>
     (\<forall>anim. \<exists>w'. lv_obj_scroll_to_view L x anim w = Some w' \<and> keeps L w w') \<and>
     (\<exists>w'. lv_obj_del_async L x w = Some w' \<and> keeps L w w') \<and>
     (\<forall>d. \<exists>w'. lv_obj_set_user_data L x d w = Some w' \<and> data_set L x d w w'))"

definition creation_laws :: "'w lvgl \<Rightarrow> bool" where
  "creation_laws L \<longleftrightarrow> (\<forall>p w. lv_obj_is_valid L p w \<longrightarrow>
     (\<exists>b w'. lv_obj_create L p w = Some (b, w') \<and> created L p b w w') \<and>
     (\<exists>b w'. lv_btn_create L p w = Some (b, w') \<and> created L p b w w') \<and>
     (\<exists>b w'. lv_label_create L p w = Some (b, w') \<and> created L p b w w'))"

definition deletion_laws :: "'w lvgl \<Rightarrow> bool" where
  "deletion_laws L \<longleftrightarrow> (\<forall>x w. lv_obj_is_valid L x w \<longrightarrow> lv_obj_get_parent L x w \<noteq> Some None \<longrightarrow>
     (\<exists>w'. lv_obj_del L x w = Some w' \<and> deleted L x w w'))"

definition messagebox_laws :: "'w lvgl \<Rightarrow> bool" where
  "messagebox_laws L \<longleftrightarrow>
     (\<forall>title txt btns c w. \<exists>b w'. lv_msgbox_create L title txt btns c w = Some (b, w') \<and> keeps_screen L w w' \<and>
        lv_obj_is_valid L b w' \<and> \<not> on_screen L w' b) \<and>
     (\<forall>b w. lv_obj_is_valid L b w \<longrightarrow> \<not> on_screen L w b \<longrightarrow> (\<exists>w'. lv_msgbox_close L b w = Some w' \<and> keeps_screen L w w'))"

definition timer_laws :: "'w lvgl \<Rightarrow> bool" where
  "timer_laws L \<longleftrightarrow> (\<forall>f n w. \<exists>t w'. lv_timer_create L f n w = Some (t, w') \<and> keeps L w w') \<and>
     (\<forall>t w. \<exists>w'. lv_timer_del L t w = Some w' \<and> keeps L w w')"

definition lvgl_laws :: "'w lvgl \<Rightarrow> bool" where
  "lvgl_laws L \<longleftrightarrow> query_laws L \<and> update_laws L \<and> creation_laws L \<and> deletion_laws L \<and> messagebox_laws L \<and> timer_laws L"

text \<open>The two arithmetic routines: an integer square root, and a linear map between two ranges.\<close>

definition sqrt_law :: "'w lvgl \<Rightarrow> bool" where
  "sqrt_law L \<longleftrightarrow> (\<forall>n < 2 ^ 32. (lv_sqrt L n)\<^sup>2 \<le> n \<and> n < (Suc (lv_sqrt L n))\<^sup>2)"

definition map_law :: "'w lvgl \<Rightarrow> bool" where
  "map_law L \<longleftrightarrow> (\<forall>x lo hi lo' hi'. lo \<le> x \<longrightarrow> x \<le> hi \<longrightarrow> lo < hi \<longrightarrow> lo' \<le> hi' \<longrightarrow>
     lv_map L x lo hi lo' hi' = (x - lo) * (hi' - lo') div (hi - lo) + lo')"

section \<open>Consequences\<close>

lemma inside_chain: "inside L w a y \<Longrightarrow> inside L w b y \<Longrightarrow> inside L w a b \<or> inside L w b a"
proof (induction rule: inside.induct)
  case (below y p)
  show ?case
  proof (cases "b = y")
    case False
    with below show ?thesis by (auto elim: insideE intro: inside.intros)
  qed (use below in \<open>auto intro: inside.intros\<close>)
qed auto

lemma on_screen_root: "on_screen L w (lv_scr_act L w)"
  by (simp add: on_screen_def here)

lemma on_screen_below: "lv_obj_get_parent L y w = Some (Some p) \<Longrightarrow> on_screen L w p \<Longrightarrow> on_screen L w y"
  by (simp add: on_screen_def below)

lemma laws_parts:
  assumes "lvgl_laws L"
  shows "query_laws L" "update_laws L" "creation_laws L" "deletion_laws L" "messagebox_laws L" "timer_laws L"
  using assms by (simp_all add: lvgl_laws_def)

end
