(* ===== verification/ViewModel.thy ===== *)
theory ViewModel
  imports Lvgl RemindersModel
begin

text \<open>
  \<^verbatim>\<open>example.cpp\<close> and \<^verbatim>\<open>example.h\<close> under \<^verbatim>\<open>final_task/userspace_app/lvgl_lib/application_view\<close>:
  the view of the reminder queue. It owns a list with one button per queued reminder, a label
  for the empty list and two timers; the model tells it, from inside the timer tick, which reminder is about to go.
  The state has three parts: the reminders module, the members of the \<open>RemindersViewModel\<close>
  object, and the state of LVGL. \<open>shown\<close> lists what the user was shown, in order.
\<close>

section \<open>State\<close>

datatype direction = Forward | Backward

record view_model =
  m_autoscrollChildrenIndex :: nat
  m_scrollDirection :: direction
  m_notificationsListRoot :: "nat option"
  m_emptyListLabel :: "nat option"
  m_scrollNotificationsTimer :: "nat option"
  m_notificationsTimer :: "nat option"

datatype shown_item = Message_box string string | Scrolled_to nat | Label_shown string

record 'w ui =
  queue_model :: rstate
  view :: view_model
  widgets :: 'w
  shown :: "shown_item list"

abbreviation show_item :: "shown_item \<Rightarrow> 'w ui \<Rightarrow> 'w ui" where
  "show_item e g \<equiv> g\<lparr>shown := shown g @ [e]\<rparr>"

abbreviation kMessageboxButtons :: "string list" where
  "kMessageboxButtons \<equiv> [''OK'', '''']"

text \<open>A call into LVGL that changes its state only.\<close>

definition on_widgets :: "('w \<Rightarrow> 'w option) \<Rightarrow> 'w ui \<Rightarrow> 'w ui option" where
  "on_widgets f g = do { w \<leftarrow> f (widgets g); Some (g\<lparr>widgets := w\<rparr>) }"

text \<open>The counting loop over children, left by a \<open>return\<close> in its body.\<close>

fun for_children :: "(nat \<Rightarrow> 's \<Rightarrow> 's ctl option) \<Rightarrow> nat list \<Rightarrow> 's \<Rightarrow> 's option" where
  "for_children f [] s = Some s"
| "for_children f (i # is) s = do {
     c \<leftarrow> f i s;
     case c of Next s \<Rightarrow> for_children f is s | Break s \<Rightarrow> Some s }"

section \<open>Scrolling along the round screen\<close>

text \<open>A conversion to \<open>lv_coord_t\<close>, 16 bits with sign.\<close>

definition lv_coord :: "int \<Rightarrow> int" where
  "lv_coord i = signed_take_bit 15 i"

definition x_on_circle :: "(nat \<Rightarrow> nat) \<Rightarrow> int \<Rightarrow> int \<Rightarrow> int" where
  "x_on_circle sqrt_fn r diff_y =
     (if diff_y \<ge> r then r
      else let x_sqr = nat ((r * r - diff_y * diff_y) mod 2 ^ 32)
           in lv_coord (r - int (sqrt_fn x_sqr)))"

definition item_opacity :: "(int \<Rightarrow> int \<Rightarrow> int \<Rightarrow> int \<Rightarrow> int \<Rightarrow> int) \<Rightarrow> int \<Rightarrow> int \<Rightarrow> int" where
  "item_opacity map_fn r x = (let opa = map_fn x 0 r 0 255 mod 256 in 255 - opa)"

definition scrollEventCallback :: "'w lvgl \<Rightarrow> nat \<Rightarrow> 'w \<Rightarrow> 'w option" where
  "scrollEventCallback L cont w = do {
     cont_a \<leftarrow> lv_obj_get_coords L cont w;
     let cont_y_center = lv_coord (y1 cont_a + tdiv (lv_area_get_height L cont_a) 2);
     height \<leftarrow> lv_obj_get_height L cont w;
     let r = lv_coord (tdiv (height * 7) 10);
     child_cnt \<leftarrow> lv_obj_get_child_cnt L cont w;
     for_to child_cnt (\<lambda>i w. do {
       c \<leftarrow> lv_obj_get_child L cont i w;
       child \<leftarrow> c;
       child_a \<leftarrow> lv_obj_get_coords L child w;
       let child_y_center = lv_coord (y1 child_a + tdiv (lv_area_get_height L child_a) 2);
       let diff_y = lv_coord (child_y_center - cont_y_center);
       let diff_y = lv_coord \<bar>diff_y\<bar>;
       let x = x_on_circle (lv_sqrt L) r diff_y;
       w \<leftarrow> lv_obj_looks L child (Style_translate_x x) w;
       lv_obj_looks L child (Style_opa (item_opacity (lv_map L) r x)) w }) w }"

section \<open>Message boxes\<close>

definition messageBoxDefaultCallback :: "'w lvgl \<Rightarrow> nat \<Rightarrow> 'w ui \<Rightarrow> 'w ui option" where
  "messageBoxDefaultCallback L obj g = on_widgets (lv_msgbox_close L obj) g"

definition open_messagebox :: "'w lvgl \<Rightarrow> string \<Rightarrow> string \<Rightarrow> 'w ui \<Rightarrow> 'w ui option" where
  "open_messagebox L title txt g = do {
     (messagebox, w) \<leftarrow> lv_msgbox_create L title txt kMessageboxButtons True (widgets g);
     w \<leftarrow> lv_obj_add_event_cb L messagebox On_messagebox LV_EVENT_CLICKED w;
     w \<leftarrow> lv_obj_looks L messagebox Center w;
     Some (show_item (Message_box title txt) (g\<lparr>widgets := w\<rparr>)) }"

text \<open>The strings of a reminder are read where LVGL copies them.\<close>

definition createMessageboxForReminder :: "'w lvgl \<Rightarrow> nat \<Rightarrow> 'w ui \<Rightarrow> 'w ui option" where
  "createMessageboxForReminder L pReminder g = do {
     u \<leftarrow> get_notification_username pReminder (queue_model g);
     t \<leftarrow> get_notification_text pReminder (queue_model g);
     reminderUsername \<leftarrow> strings (queue_model g) u;
     reminderText \<leftarrow> strings (queue_model g) t;
     open_messagebox L reminderUsername reminderText g }"

definition onNotificationButtonClicked :: "'w lvgl \<Rightarrow> event_code \<Rightarrow> nat \<Rightarrow> 'w ui \<Rightarrow> 'w ui option" where
  "onNotificationButtonClicked L code pButton g =
     (if code = LV_EVENT_CLICKED then do {
        d \<leftarrow> lv_obj_get_user_data L pButton (widgets g);
        pReminder \<leftarrow> d;
        createMessageboxForReminder L pReminder g }
      else Some g)"

definition showExpriedNotificationMessageBox :: "'w lvgl \<Rightarrow> nat \<Rightarrow> 'w ui \<Rightarrow> 'w ui option" where
  "showExpriedNotificationMessageBox L pReminder g = do {
     t \<leftarrow> get_notification_text pReminder (queue_model g);
     reminderText \<leftarrow> strings (queue_model g) t;
     open_messagebox L ''!REMINDER!'' reminderText g }"

section \<open>The list of buttons\<close>

definition createNotification :: "'w lvgl \<Rightarrow> nat \<Rightarrow> 'w ui \<Rightarrow> 'w ui option" where
  "createNotification L pReminder g = do {
     listContainer \<leftarrow> m_notificationsListRoot (view g);
     (notificationButton, w) \<leftarrow> lv_btn_create L listContainer (widgets g);
     w \<leftarrow> lv_obj_looks L notificationButton (Set_size (Pct 100) Size_content) w;
     w \<leftarrow> lv_obj_add_event_cb L notificationButton On_notification_button LV_EVENT_ALL w;
     w \<leftarrow> lv_obj_set_user_data L notificationButton pReminder w;
     (label, w) \<leftarrow> lv_label_create L notificationButton w;
     u \<leftarrow> get_notification_username pReminder (queue_model g);
     txt \<leftarrow> strings (queue_model g) u;
     w \<leftarrow> lv_label_set_text L label txt w;
     Some (g\<lparr>widgets := w\<rparr>) }"

text \<open>\<open>reset\<close> of a \<open>unique_ptr\<close> whose deleter is \<open>lv_obj_del_async\<close>: the new pointer first, then the old object.\<close>

definition delete_async :: "'w lvgl \<Rightarrow> nat option \<Rightarrow> 'w \<Rightarrow> 'w option" where
  "delete_async L old w = (case old of None \<Rightarrow> Some w | Some x \<Rightarrow> lv_obj_del_async L x w)"

definition set_empty_label :: "nat option \<Rightarrow> 'w ui \<Rightarrow> 'w ui" where
  "set_empty_label l g = g\<lparr>view := (view g)\<lparr>m_emptyListLabel := l\<rparr>\<rparr>"

definition checkIsListEmpty :: "'w lvgl \<Rightarrow> 'w ui \<Rightarrow> 'w ui option" where
  "checkIsListEmpty L g = do {
     isEmpty \<leftarrow> is_notifications_list_empty (queue_model g);
     if isEmpty then do {
       (label, w) \<leftarrow> lv_label_create L (lv_scr_act L (widgets g)) (widgets g);
       w \<leftarrow> delete_async L (m_emptyListLabel (view g)) w;
       let g = set_empty_label (Some label) (g\<lparr>widgets := w\<rparr>);
       g \<leftarrow> on_widgets (lv_label_set_text L label ''Notification list is empty'') g;
       g \<leftarrow> on_widgets (lv_obj_looks L label (Align_center 0 0)) g;
       Some (show_item (Label_shown ''Notification list is empty'') g) }
     else do {
       w \<leftarrow> delete_async L (m_emptyListLabel (view g)) (widgets g);
       Some (set_empty_label None (g\<lparr>widgets := w\<rparr>)) } }"

definition slotNotificationIsAboutToBeRemoved :: "'w lvgl \<Rightarrow> nat \<Rightarrow> 'w ui \<Rightarrow> 'w ui option" where
  "slotNotificationIsAboutToBeRemoved L pReminder g = do {
     listContainer \<leftarrow> m_notificationsListRoot (view g);
     numChildren \<leftarrow> lv_obj_get_child_cnt L listContainer (widgets g);
     for_children (\<lambda>childIt g. do {
       pChildButton \<leftarrow> lv_obj_get_child L listContainer childIt (widgets g);
       case pChildButton of
         None \<Rightarrow> Some (Next g)
       | Some b \<Rightarrow> do {
           pReminderButton \<leftarrow> lv_obj_get_user_data L b (widgets g);
           if Some pReminder = pReminderButton then do {
             g \<leftarrow> on_widgets (lv_obj_del L b) g;
             g \<leftarrow> showExpriedNotificationMessageBox L pReminder g;
             g \<leftarrow> checkIsListEmpty L g;
             Some (Break g) }
           else Some (Next g) } }) [0..<numChildren] g }"

section \<open>The timers\<close>

definition on_model :: "(rstate \<Rightarrow> rstate option) \<Rightarrow> 'w ui \<Rightarrow> 'w ui option" where
  "on_model f g = do { s \<leftarrow> f (queue_model g); Some (g\<lparr>queue_model := s\<rparr>) }"

text \<open>
  \<open>handle_timer_tick\<close> and \<open>handle_reminder_expired\<close> of \<^verbatim>\<open>reminders_model.c\<close> once more, now with the callback run where the code runs it:
  the reminder has left its lists and is not freed yet.
\<close>

definition unlink_expired :: "nat \<Rightarrow> rstate \<Rightarrow> rstate option" where
  "unlink_expired reminder_it s = do {
     R \<leftarrow> reminders s reminder_it;
     t \<leftarrow> strings s (notification_text R);
     let s = printf (''Notification Alert! '' @ t @ '' \<newline>'') s;
     s \<leftarrow> on_nodes (\<lambda>h. list_del h (Ptr (RemNode reminder_it))) s;
     case belongs_to R of
       None \<Rightarrow> Some s
     | Some user_it \<Rightarrow> do {
         (found_notification_in_list, pos_user, _) \<leftarrow> list_for_each_safe (\<lambda>_. next_in s)
           (\<lambda>pos _. do {
              r \<leftarrow> reminder_of_user_notify_list pos;
              if r = reminder_it then Some (Break ()) else Some (Next ()) })
           (Ptr (NotifHead user_it)) ();
         if found_notification_in_list then on_nodes (\<lambda>h. list_del h pos_user) s
         else Some s } }"

definition announce_removal :: "nat \<Rightarrow> rstate \<Rightarrow> rstate" where
  "announce_removal r s = s\<lparr>trace := trace s @ [AboutToBeRemoved r]\<rparr>"

lemma handle_reminder_expired_steps:
  "handle_reminder_expired r s = do {
     R \<leftarrow> reminders s r;
     if ellapse_time R = 0 then do {
       s \<leftarrow> unlink_expired r s;
       reminder_dtor r (if callback_notification_is_about_to_be_removed s then announce_removal r s else s) }
     else Some s }"
  unfolding announce_removal_def by (cases "reminders s r") (auto simp: handle_reminder_expired_def unlink_expired_def Let_def)

definition expire_and_notify :: "'w lvgl \<Rightarrow> nat \<Rightarrow> 'w ui \<Rightarrow> 'w ui option" where
  "expire_and_notify L reminder_it g = do {
     R \<leftarrow> reminders (queue_model g) reminder_it;
     if ellapse_time R = 0 then do {
       g \<leftarrow> on_model (unlink_expired reminder_it) g;
       g \<leftarrow> (if callback_notification_is_about_to_be_removed (queue_model g) then do {
           g \<leftarrow> on_model (\<lambda>s. Some (announce_removal reminder_it s)) g;
           slotNotificationIsAboutToBeRemoved L reminder_it g }
         else Some g);
       on_model (reminder_dtor reminder_it) g }
     else Some g }"

definition slotNotificationTimerTick :: "'w lvgl \<Rightarrow> 'w ui \<Rightarrow> 'w ui option" where
  "slotNotificationTimerTick L g = do {
     (b, p, g) \<leftarrow> list_for_each_safe (\<lambda>g. next_in (queue_model g))
       (\<lambda>pos g. do {
          reminder_it \<leftarrow> reminder_of_list pos;
          R \<leftarrow> reminders (queue_model g) reminder_it;
          t \<leftarrow> c_sub (ellapse_time R) 1;
          g \<leftarrow> on_model (set_reminder (\<lambda>R. R\<lparr>ellapse_time := t\<rparr>) reminder_it) g;
          g \<leftarrow> (if t = 0 then expire_and_notify L reminder_it g else Some g);
          Some (Next g) })
       (Ptr RemindersList) g;
     Some g }"

text \<open>The next child to scroll to, back and forth over \<open>n\<close> children.\<close>

fun autoscroll_advance :: "nat \<Rightarrow> nat \<times> direction \<Rightarrow> nat \<times> direction" where
  "autoscroll_advance n (i, Forward) =
     (let i = i + 1 in if i = n then (i - 1, Backward) else (i, Forward))"
| "autoscroll_advance n (i, Backward) = (if i = 0 then (i, Forward) else (i - 1, Backward))"

definition slotAutoScrollTimerExpired :: "'w lvgl \<Rightarrow> 'w ui \<Rightarrow> 'w ui option" where
  "slotAutoScrollTimerExpired L g = do {
     root \<leftarrow> m_notificationsListRoot (view g);
     isEmpty \<leftarrow> is_notifications_list_empty (queue_model g);
     if isEmpty then Some g
     else do {
       notificationsCount \<leftarrow> get_notifications_total_count (queue_model g);
       let i = m_autoscrollChildrenIndex (view g);
       if \<not> (notificationsCount > 1 \<and> i < notificationsCount) then Some g
       else do {
         c \<leftarrow> lv_obj_get_child L root i (widgets g);
         child \<leftarrow> c;
         g \<leftarrow> on_widgets (lv_obj_scroll_to_view L child True) g;
         let g = show_item (Scrolled_to i) g;
         let (j, d) = autoscroll_advance notificationsCount (i, m_scrollDirection (view g));
         Some (g\<lparr>view := (view g)\<lparr>m_autoscrollChildrenIndex := j, m_scrollDirection := d\<rparr>\<rparr>) } } }"

section \<open>Construction and destruction\<close>

definition createSimpleNotificationsModel :: "rstate \<Rightarrow> rstate option" where
  "createSimpleNotificationsModel s =
     (let valenti = ''Valenti''; voidUser = ''Void''; alex = ''Alex'' in do {
     s \<leftarrow> add_new_user valenti s;
     s \<leftarrow> add_new_user voidUser s;
     s \<leftarrow> add_new_user alex s;
     s \<leftarrow> add_new_user valenti s;
     s \<leftarrow> add_new_user voidUser s;
     s \<leftarrow> add_new_user alex s;
     s \<leftarrow> add_user_reminder valenti ''Buy a new phone!'' 15 s;
     s \<leftarrow> add_user_reminder valenti ''Check the post office!'' 20 s;
     s \<leftarrow> add_user_reminder valenti ''Check cat's food '' 25 s;
     s \<leftarrow> add_user_reminder voidUser ''Physical activity!'' 30 s;
     s \<leftarrow> add_user_reminder alex ''Don't forget the meeting'' 35 s;
     add_user_reminder alex ''Yoga practice'' 40 s })"

text \<open>\<open>for_each_notification_in_queue\<close> with an enumerator that works on the widgets too.\<close>

definition for_each_notification :: "(nat \<Rightarrow> 'w ui \<Rightarrow> 'w ui option) \<Rightarrow> 'w ui \<Rightarrow> 'w ui option" where
  "for_each_notification enumerator g = do {
     (b, p, g) \<leftarrow> list_for_each (\<lambda>g. next_in (queue_model g))
       (\<lambda>pos g. do {
          r \<leftarrow> reminder_of_list pos;
          g \<leftarrow> enumerator r g;
          Some (Next g) })
       (Ptr RemindersList) g;
     Some g }"

definition start_timer :: "'w lvgl \<Rightarrow> timer_slot \<Rightarrow> nat \<Rightarrow> (nat \<Rightarrow> view_model \<Rightarrow> view_model) \<Rightarrow> 'w ui \<Rightarrow> 'w ui option" where
  "start_timer L callback period store g = do {
     (timer, w) \<leftarrow> lv_timer_create L callback period (widgets g);
     Some (g\<lparr>widgets := w, view := store timer (view g)\<rparr>) }"

definition size_looks :: "looks list" where
  "size_looks = [Set_size (Px 240) (Px 240), Center, Flex_flow_column]"

definition list_looks :: "looks list" where
  "list_looks = [Style_radius_circle, Style_clip_corner True, Scroll_dir_vertical, Scroll_snap_y_center, Scrollbar_off]"

definition RemindersViewModel :: "'w lvgl \<Rightarrow> 'w ui \<Rightarrow> 'w ui option" where
  "RemindersViewModel L g = do {
     let g = g\<lparr>view := \<lparr>m_autoscrollChildrenIndex = 0, m_scrollDirection = Forward,
       m_notificationsListRoot = None, m_emptyListLabel = None,
       m_scrollNotificationsTimer = None, m_notificationsTimer = None\<rparr>\<rparr>;
     g \<leftarrow> on_model createSimpleNotificationsModel g;
     (cont, w) \<leftarrow> lv_obj_create L (lv_scr_act L (widgets g)) (widgets g);
     let g = g\<lparr>widgets := w, view := (view g)\<lparr>m_notificationsListRoot := Some cont\<rparr>\<rparr>;
     g \<leftarrow> on_widgets (for_list (lv_obj_looks L cont) size_looks) g;
     g \<leftarrow> on_widgets (lv_obj_add_event_cb L cont On_scroll LV_EVENT_SCROLL) g;
     g \<leftarrow> on_widgets (for_list (lv_obj_looks L cont) list_looks) g;
     g \<leftarrow> for_each_notification (createNotification L) g;
     g \<leftarrow> on_widgets (scrollEventCallback L cont) g;
     c \<leftarrow> lv_obj_get_child L cont 0 (widgets g);
     first \<leftarrow> c;
     g \<leftarrow> on_widgets (lv_obj_scroll_to_view L first False) g;
     g \<leftarrow> on_model (\<lambda>s. Some (set_notification_is_about_to_remove_callback True s)) g;
     g \<leftarrow> start_timer L Autoscroll_timer 1500 (\<lambda>t v. v\<lparr>m_scrollNotificationsTimer := Some t\<rparr>) g;
     start_timer L Notification_timer 1000 (\<lambda>t v. v\<lparr>m_notificationsTimer := Some t\<rparr>) g }"

text \<open>The members are destroyed after the body, the last one first.\<close>

definition delete_timer :: "'w lvgl \<Rightarrow> nat option \<Rightarrow> 'w \<Rightarrow> 'w option" where
  "delete_timer L t w = (case t of None \<Rightarrow> Some w | Some t \<Rightarrow> lv_timer_del L t w)"

definition RemindersViewModel_dtor :: "'w lvgl \<Rightarrow> 'w ui \<Rightarrow> 'w ui option" where
  "RemindersViewModel_dtor L g = do {
     g \<leftarrow> on_model cleanup_users g;
     g \<leftarrow> on_model cleanup_reminders g;
     g \<leftarrow> on_widgets (delete_timer L (m_notificationsTimer (view g))) g;
     g \<leftarrow> on_widgets (delete_timer L (m_scrollNotificationsTimer (view g))) g;
     g \<leftarrow> on_widgets (delete_async L (m_emptyListLabel (view g))) g;
     on_widgets (delete_async L (m_notificationsListRoot (view g))) g }"

section \<open>Runs\<close>

text \<open>
  What LVGL calls: the two timers, and the callbacks of the objects. \<open>possible\<close> says on which objects an
  event arrives: a button of the list, a message box, the list.
\<close>

datatype ui_event =
    Notification_tick
  | Autoscroll_tick
  | Button_event event_code nat
  | Messagebox_clicked nat
  | List_scrolled

fun handle_event :: "'w lvgl \<Rightarrow> ui_event \<Rightarrow> 'w ui \<Rightarrow> 'w ui option" where
  "handle_event L Notification_tick g = slotNotificationTimerTick L g"
| "handle_event L Autoscroll_tick g = slotAutoScrollTimerExpired L g"
| "handle_event L (Button_event code b) g = onNotificationButtonClicked L code b g"
| "handle_event L (Messagebox_clicked b) g = messageBoxDefaultCallback L b g"
| "handle_event L List_scrolled g = do {
     root \<leftarrow> m_notificationsListRoot (view g);
     on_widgets (scrollEventCallback L root) g }"

fun possible :: "'w lvgl \<Rightarrow> ui_event \<Rightarrow> 'w ui \<Rightarrow> bool" where
  "possible L (Button_event code b) g \<longleftrightarrow> (\<exists>root. m_notificationsListRoot (view g) = Some root \<and>
     b \<in> set (children L root (widgets g)))"
| "possible L (Messagebox_clicked b) g \<longleftrightarrow> lv_obj_is_valid L b (widgets g) \<and> \<not> on_screen L (widgets g) b"
| "possible L _ g \<longleftrightarrow> True"

text \<open>
  Between the callbacks LVGL works on its own: it draws, animates, deletes what was to be deleted later and closes
  message boxes. It leaves alone what the view still owns.
\<close>

definition owned :: "'w lvgl \<Rightarrow> 'w ui \<Rightarrow> nat set" where
  "owned L g = (case m_notificationsListRoot (view g) of None \<Rightarrow> {} | Some root \<Rightarrow> insert root (set (children L root (widgets g)))) \<union>
     set_option (m_emptyListLabel (view g))"

definition lvgl_idle :: "'w lvgl \<Rightarrow> 'w ui \<Rightarrow> 'w \<Rightarrow> bool" where
  "lvgl_idle L g w \<longleftrightarrow> lv_scr_act L w = lv_scr_act L (widgets g) \<and> (\<forall>y \<in> owned L g. same_obj L y (widgets g) w)"

inductive ui_reachable :: "'w lvgl \<Rightarrow> 'w ui \<Rightarrow> bool" for L where
  started: "queue_model g0 = init_state\<lparr>oom := bs\<rparr> \<Longrightarrow> RemindersViewModel L g0 = Some g \<Longrightarrow> ui_reachable L g"
| event: "ui_reachable L g \<Longrightarrow> possible L e g \<Longrightarrow> handle_event L e g = Some g' \<Longrightarrow> ui_reachable L g'"
| idle: "ui_reachable L g \<Longrightarrow> lvgl_idle L g w \<Longrightarrow> ui_reachable L (g\<lparr>widgets := w\<rparr>)"

end
