(* ===== verification/ViewModelSpec.thy ===== *)
theory ViewModelSpec
  imports ViewModel RemindersRefine
begin

text \<open>
  What the view promises: its buttons are the reminders of the queue in order, through every tick, click and
  scroll; a reminder whose time has come is announced in a message box while its text is still
  there; no callback faults. The proofs follow the calls of the code through the laws of LVGL.
\<close>

section \<open>The list and the label\<close>

definition list_view :: "'w lvgl \<Rightarrow> nat \<Rightarrow> nat list \<Rightarrow> 'w \<Rightarrow> bool" where
  "list_view L root ids w \<longleftrightarrow> lv_obj_is_valid L root w \<and> root \<noteq> lv_scr_act L w \<and>
     lv_obj_get_parent L root w = Some (Some (lv_scr_act L w)) \<and> distinct (children L root w) \<and>
     (\<forall>b \<in> set (children L root w). lv_obj_is_valid L b w \<and> lv_obj_get_parent L b w = Some (Some root)) \<and>
     map (\<lambda>b. lv_obj_get_user_data L b w) (children L root w) = map (\<lambda>r. Some (Some r)) ids"

definition label_view :: "'w lvgl \<Rightarrow> nat \<Rightarrow> nat \<Rightarrow> 'w \<Rightarrow> bool" where
  "label_view L root l w \<longleftrightarrow> lv_obj_is_valid L l w \<and> lv_obj_get_parent L l w = Some (Some (lv_scr_act L w)) \<and> l \<noteq> root"

definition view_ok :: "'w lvgl \<Rightarrow> nat list \<Rightarrow> 'w ui \<Rightarrow> bool" where
  "view_ok L ids g \<longleftrightarrow> (\<exists>root. m_notificationsListRoot (view g) = Some root \<and> list_view L root ids (widgets g) \<and>
     (\<forall>l. m_emptyListLabel (view g) = Some l \<longrightarrow> label_view L root l (widgets g)))"

lemma list_view_on_screen:
  assumes "list_view L root ids w" "y = root \<or> y \<in> set (children L root w)"
  shows "on_screen L w y" "lv_obj_is_valid L y w"
proof -
  have "on_screen L w root" using assms(1) by (auto simp: list_view_def intro: on_screen_below [OF _ on_screen_root])
  then show "on_screen L w y" using assms by (auto simp: list_view_def dest: on_screen_below)
  show "lv_obj_is_valid L y w" using assms by (auto simp: list_view_def)
qed

lemma label_view_on_screen: "label_view L root l w \<Longrightarrow> on_screen L w l" "label_view L root l w \<Longrightarrow> lv_obj_is_valid L l w"
  by (auto simp: label_view_def intro: on_screen_below on_screen_root)

lemma list_view_same:
  assumes "lv_scr_act L w' = lv_scr_act L w" "\<And>y. y = root \<or> y \<in> set (children L root w) \<Longrightarrow> same_obj L y w w'"
    "list_view L root ids w"
  shows "list_view L root ids w'"
proof -
  have c: "children L root w' = children L root w" using assms(2) [of root] by (simp add: same_obj_def)
  have "map (\<lambda>b. lv_obj_get_user_data L b w') (children L root w) = map (\<lambda>b. lv_obj_get_user_data L b w) (children L root w)"
    using assms(2) by (intro map_cong) (auto simp: same_obj_def)
  with assms c show ?thesis by (auto simp: list_view_def same_obj_def same_place_def)
qed

lemma label_view_same: "lv_scr_act L w' = lv_scr_act L w \<Longrightarrow> same_obj L l w w' \<Longrightarrow> label_view L root l w \<Longrightarrow> label_view L root l w'"
  by (simp add: label_view_def same_obj_def same_place_def)

lemma keeps_keeps_screen: "keeps L w w' \<Longrightarrow> keeps_screen L w w'"
  by (simp add: keeps_def keeps_screen_def)

lemma list_view_keeps: "keeps_screen L w w' \<Longrightarrow> list_view L root ids w \<Longrightarrow> list_view L root ids w'"
  by (rule list_view_same) (auto simp: keeps_screen_def dest: list_view_on_screen)

lemma label_view_keeps: "keeps_screen L w w' \<Longrightarrow> label_view L root l w \<Longrightarrow> label_view L root l w'"
  by (rule label_view_same) (auto simp: keeps_screen_def dest: label_view_on_screen)

lemma view_ok_keeps: "keeps_screen L (widgets g) w' \<Longrightarrow> view_ok L ids g \<Longrightarrow> view_ok L ids (g\<lparr>widgets := w'\<rparr>)"
  by (auto simp: view_ok_def intro: list_view_keeps label_view_keeps)

lemma view_ok_parts [simp]:
  "view_ok L ids (g\<lparr>queue_model := s\<rparr>) = view_ok L ids g" "view_ok L ids (g\<lparr>shown := e\<rparr>) = view_ok L ids g"
  "view_ok L ids (g\<lparr>view := (view g)\<lparr>m_autoscrollChildrenIndex := i, m_scrollDirection := d\<rparr>\<rparr>) = view_ok L ids g"
  by (simp_all add: view_ok_def)

lemma list_view_length: "list_view L root ids w \<Longrightarrow> length (children L root w) = length ids"
  by (metis list_view_def length_map)

lemma list_view_data: "list_view L root ids w \<Longrightarrow> i < length ids \<Longrightarrow>
    lv_obj_get_user_data L (children L root w ! i) w = Some (Some (ids ! i))"
  using list_view_length [of L root ids w] by (auto simp: list_view_def dest: arg_cong [where f = "\<lambda>xs. xs ! i"])

lemma query_lawsD:
  assumes "query_laws L"
  shows "lv_obj_is_valid L (lv_scr_act L w) w" "lv_obj_get_parent L (lv_scr_act L w) w = Some None"
    "lv_obj_is_valid L x w \<Longrightarrow> lv_obj_get_child_cnt L x w = Some (length (children L x w))"
    "lv_obj_is_valid L x w \<Longrightarrow> lv_obj_get_child L x i w = Some (if i < length (children L x w) then Some (children L x w ! i) else None)"
    "lv_obj_is_valid L x w \<Longrightarrow> \<exists>d. lv_obj_get_user_data L x w = Some d"
    "lv_obj_is_valid L x w \<Longrightarrow> \<exists>a. lv_obj_get_coords L x w = Some a"
    "lv_obj_is_valid L x w \<Longrightarrow> \<exists>h. lv_obj_get_height L x w = Some h"
  using assms by (auto simp: query_laws_def)

lemma update_lawsD:
  assumes "update_laws L" "lv_obj_is_valid L x w"
  shows "\<exists>w'. lv_obj_looks L x k w = Some w' \<and> keeps L w w'" "\<exists>w'. lv_label_set_text L x t w = Some w' \<and> keeps L w w'"
    "\<exists>w'. lv_obj_add_event_cb L x f c w = Some w' \<and> keeps L w w'"
    "\<exists>w'. lv_obj_scroll_to_view L x anim w = Some w' \<and> keeps L w w'"
    "\<exists>w'. lv_obj_del_async L x w = Some w' \<and> keeps L w w'"
    "\<exists>w'. lv_obj_set_user_data L x d w = Some w' \<and> data_set L x d w w'"
  using assms by (simp_all add: update_laws_def)

lemma keeps_valid: "keeps L w w' \<Longrightarrow> lv_obj_is_valid L x w \<Longrightarrow> lv_obj_is_valid L x w'"
  by (simp add: keeps_def same_obj_def same_place_def)

lemma same_obj_trans: "same_obj L y w1 w2 \<Longrightarrow> same_obj L y w2 w3 \<Longrightarrow> same_obj L y w1 w3"
  by (simp add: same_obj_def same_place_def)

lemma keeps_trans: "keeps L w1 w2 \<Longrightarrow> keeps L w2 w3 \<Longrightarrow> keeps L w1 w3"
  unfolding keeps_def by (metis same_obj_trans keeps_def keeps_valid same_obj_def same_place_def)


section \<open>Calls on the list\<close>

lemma data_set_new_child:
  assumes "data_set L b r w w'" "lv_obj_is_valid L b w" "lv_obj_is_valid L y w" "y \<noteq> b"
  shows "same_obj L y w w'"
  using assms by (simp add: data_set_def same_obj_def)

text \<open>A button that was appended and given its reminder, in a state where the other objects are as before.\<close>

lemma list_view_append:
  assumes l: "list_view L root ids w" and b: "\<not> lv_obj_is_valid L b w"
    and scr: "lv_scr_act L w' = lv_scr_act L w"
    and new: "lv_obj_is_valid L b w'" "lv_obj_get_parent L b w' = Some (Some root)"
      "lv_obj_get_user_data L b w' = Some (Some r)" "children L root w' = children L root w @ [b]"
    and old: "\<And>y. lv_obj_is_valid L y w \<Longrightarrow> same_place L y w w' \<and> lv_obj_get_user_data L y w' = lv_obj_get_user_data L y w"
  shows "list_view L root (ids @ [r]) w'"
proof -
  have "b \<notin> set (children L root w)" using l b by (auto simp: list_view_def)
  moreover have m: "map (\<lambda>b. lv_obj_get_user_data L b w') (children L root w) = map (\<lambda>b. lv_obj_get_user_data L b w) (children L root w)"
    using l old by (intro map_cong) (auto simp: list_view_def)
  have "map (\<lambda>b. lv_obj_get_user_data L b w') (children L root w) = map (\<lambda>r. Some (Some r)) ids"
    unfolding m using l by (simp add: list_view_def)
  ultimately show ?thesis using l scr new old unfolding list_view_def same_place_def by auto
qed

lemma createNotification_sim:
  assumes laws: "lvgl_laws L" and l: "list_view L root ids (widgets g)" and root: "m_notificationsListRoot (view g) = Some root"
    and name: "get_notification_username r (queue_model g) = Some u" "strings (queue_model g) u = Some t"
  shows "\<exists>w. createNotification L r g = Some (g\<lparr>widgets := w\<rparr>) \<and> list_view L root (ids @ [r]) w"
proof -
  note law = laws_parts [OF laws]
  have v: "lv_obj_is_valid L root (widgets g)" using l by (simp add: list_view_def)
  obtain b w1 where b: "lv_btn_create L root (widgets g) = Some (b, w1)" "created L root b (widgets g) w1"
    using law(3) v unfolding creation_laws_def by blast
  have v1: "lv_obj_is_valid L b w1" using b(2) by (simp add: created_def)
  obtain w2 where w2: "lv_obj_looks L b (Set_size (Pct 100) Size_content) w1 = Some w2" "keeps L w1 w2"
    using update_lawsD(1) [OF law(2) v1] by blast
  note v2 = keeps_valid [OF w2(2) v1]
  obtain w3 where w3: "lv_obj_add_event_cb L b On_notification_button LV_EVENT_ALL w2 = Some w3" "keeps L w2 w3"
    using update_lawsD(3) [OF law(2) v2] by blast
  note v3 = keeps_valid [OF w3(2) v2]
  obtain w4 where w4: "lv_obj_set_user_data L b r w3 = Some w4" "data_set L b r w3 w4"
    using update_lawsD(6) [OF law(2) v3] by blast
  have v4: "lv_obj_is_valid L b w4" using w4(2) v3 by (simp add: data_set_def same_place_def)
  obtain lab w5 where w5: "lv_label_create L b w4 = Some (lab, w5)" "created L b lab w4 w5"
    using law(3) v4 unfolding creation_laws_def by blast
  have "lv_obj_is_valid L lab w5" using w5(2) by (simp add: created_def)
  then obtain w6 where w6: "lv_label_set_text L lab t w5 = Some w6" "keeps L w5 w6"
    using update_lawsD(2) [OF law(2)] by blast
  note steps = b(2) w2(2) w3(2) w4(2) w5(2) w6(2)
  have bw: "\<not> lv_obj_is_valid L b (widgets g)" using b(2) by (simp add: created_def)
  have rb: "root \<noteq> b" using v bw by auto
  have k13: "keeps L w1 w3" by (rule keeps_trans [OF w2(2) w3(2)])
  have place: "same_place L y (widgets g) w6 \<and> lv_obj_get_user_data L y w6 = lv_obj_get_user_data L y (widgets g)"
    if "lv_obj_is_valid L y (widgets g)" for y
  proof -
    have "y \<noteq> b" using that bw by auto
    with that steps(1,4,5,6) k13 show ?thesis
      by (simp add: created_def data_set_def keeps_def same_obj_def same_place_def)
  qed
  have "list_view L root (ids @ [r]) w6"
  proof (rule list_view_append [OF l bw])
    show "lv_scr_act L w6 = lv_scr_act L (widgets g)" using steps by (simp add: created_def data_set_def keeps_def)
    show "lv_obj_is_valid L b w6" "lv_obj_get_parent L b w6 = Some (Some root)" "lv_obj_get_user_data L b w6 = Some (Some r)"
      using steps(1,4,5,6) k13 by (simp_all add: created_def data_set_def keeps_def same_obj_def same_place_def)
    show "children L root w6 = children L root (widgets g) @ [b]"
      using steps(1,4,5,6) k13 v rb by (simp add: created_def data_set_def keeps_def same_obj_def same_place_def)
  qed (rule place)
  moreover have "createNotification L r g = Some (g\<lparr>widgets := w6\<rparr>)"
    using root b(1) w2(1) w3(1) w4(1) w5(1) w6(1) name by (simp add: createNotification_def)
  ultimately show ?thesis by blast
qed


text \<open>Deleting the button at a position takes one entry from the list.\<close>

lemma not_inside_button:
  assumes "query_laws L" "list_view L root ids w" "b \<in> set (children L root w)"
  shows "\<not> inside L w b root" "\<not> inside L w b (lv_scr_act L w)" "c \<in> set (children L root w) \<Longrightarrow> c \<noteq> b \<Longrightarrow> \<not> inside L w b c"
    "label_view L root l w \<Longrightarrow> \<not> inside L w b l"
proof -
  have p: "lv_obj_get_parent L b w = Some (Some root)" "lv_obj_get_parent L root w = Some (Some (lv_scr_act L w))"
    "root \<noteq> lv_scr_act L w" using assms(2,3) by (auto simp: list_view_def)
  note scr = query_lawsD(2) [OF assms(1), of w]
  show s: "\<not> inside L w b (lv_scr_act L w)" using p scr by (auto elim: insideE)
  then show r: "\<not> inside L w b root" using p by (auto elim: insideE)
  show "c \<in> set (children L root w) \<Longrightarrow> c \<noteq> b \<Longrightarrow> \<not> inside L w b c"
    using r assms(2) by (auto simp: list_view_def elim: insideE)
  show "label_view L root l w \<Longrightarrow> \<not> inside L w b l"
    using s p by (auto simp: label_view_def elim: insideE)
qed

lemma list_view_delete:
  assumes q: "query_laws L" and l: "list_view L root (pre @ r # post) w" and d: "deleted L (children L root w ! length pre) w w'"
  shows "list_view L root (pre @ post) w'" "label_view L root k w \<Longrightarrow> label_view L root k w'"
proof -
  have len: "length (children L root w) = Suc (length pre + length post)" using list_view_length [OF l] by simp
  obtain cs b ds where c: "children L root w = cs @ b # ds" "length cs = length pre"
    using id_take_nth_drop [of "length pre" "children L root w"] len
    by (metis add_Suc_right length_take less_add_Suc1 min.absorb4)
  then have b: "children L root w ! length pre = b" by (metis nth_append_length)
  have m: "map (\<lambda>b. lv_obj_get_user_data L b w) cs = map (\<lambda>r. Some (Some r)) pre"
    "map (\<lambda>b. lv_obj_get_user_data L b w) ds = map (\<lambda>r. Some (Some r)) post"
    using l c by (simp_all add: list_view_def append_eq_append_conv)
  note nin = not_inside_button [OF q l, of b]
  have bc: "b \<in> set (children L root w)" using c by simp
  have dist: "distinct (cs @ b # ds)" using l c by (simp add: list_view_def)
  have fr: "same_place L y w w' \<and> lv_obj_get_user_data L y w' = lv_obj_get_user_data L y w \<and>
      children L y w' = filter (\<lambda>c. c \<noteq> b) (children L y w)" if "lv_obj_is_valid L y w" "\<not> inside L w b y" for y
    using d that b by (simp add: deleted_def)
  have v: "lv_obj_is_valid L root w" using l by (simp add: list_view_def)
  have "filter (\<lambda>c. c \<noteq> b) (cs @ b # ds) = cs @ ds" by (rule filter_neq_split [OF dist])
  then have c': "children L root w' = cs @ ds" using fr [OF v nin(1) [OF bc]] c by simp
  have ch: "same_place L y w w' \<and> lv_obj_get_user_data L y w' = lv_obj_get_user_data L y w" if "y \<in> set (cs @ ds)" for y
    using that fr [of y] nin(3) [OF bc, of y] l c dist by (auto simp: list_view_def)
  have "map (\<lambda>b. lv_obj_get_user_data L b w') (cs @ ds) = map (\<lambda>b. lv_obj_get_user_data L b w) (cs @ ds)"
    using ch by (intro map_cong) auto
  also have "\<dots> = map (\<lambda>r. Some (Some r)) (pre @ post)" using m by simp
  finally have m': "map (\<lambda>b. lv_obj_get_user_data L b w') (children L root w') = map (\<lambda>r. Some (Some r)) (pre @ post)"
    unfolding c' .
  have ch': "\<forall>y \<in> set (children L root w'). lv_obj_is_valid L y w' \<and> lv_obj_get_parent L y w' = Some (Some root)"
    using ch l c c' by (auto simp: list_view_def same_place_def)
  have s: "lv_scr_act L w' = lv_scr_act L w" using d by (simp add: deleted_def)
  have r: "same_place L root w w'" using fr [OF v nin(1) [OF bc]] by simp
  show "list_view L root (pre @ post) w'"
    using m' ch' s r l c' dist unfolding list_view_def same_place_def by auto
  show "label_view L root k w'" if k: "label_view L root k w"
    using fr [OF label_view_on_screen(2) [OF k] nin(4) [OF bc k]] k s by (simp add: label_view_def same_place_def)
qed

section \<open>Message boxes and the label\<close>

lemma open_messagebox_sim:
  assumes laws: "lvgl_laws L"
  shows "\<exists>w. open_messagebox L title txt g = Some (g\<lparr>widgets := w, shown := shown g @ [Message_box title txt]\<rparr>) \<and>
    keeps_screen L (widgets g) w"
proof -
  note law = laws_parts [OF laws]
  obtain b w1 where b: "lv_msgbox_create L title txt kMessageboxButtons True (widgets g) = Some (b, w1)"
    "keeps_screen L (widgets g) w1" "lv_obj_is_valid L b w1" "\<not> on_screen L w1 b"
    using law(5) unfolding messagebox_laws_def by metis
  obtain w2 where w2: "lv_obj_add_event_cb L b On_messagebox LV_EVENT_CLICKED w1 = Some w2" "keeps L w1 w2"
    using update_lawsD(3) [OF law(2) b(3)] by blast
  obtain w3 where w3: "lv_obj_looks L b Center w2 = Some w3" "keeps L w2 w3"
    using update_lawsD(1) [OF law(2) keeps_valid [OF w2(2) b(3)]] by blast
  have "keeps_screen L (widgets g) w3"
    using b(2) keeps_trans [OF w2(2) w3(2)]
    by (auto simp: keeps_screen_def keeps_def same_obj_def same_place_def)
  with b(1) w2(1) w3(1) show ?thesis by (auto simp: open_messagebox_def)
qed

lemma label_created:
  assumes q: "query_laws L" and c: "created L (lv_scr_act L w) b w w'" and l: "list_view L root ids w"
  shows "list_view L root ids w'" "label_view L root b w'" "label_view L root k w \<Longrightarrow> lv_obj_is_valid L k w'"
proof -
  have "same_obj L y w w'" if "lv_obj_is_valid L y w" "y \<noteq> lv_scr_act L w" for y
    using c that by (simp add: created_def same_obj_def)
  moreover have "y \<noteq> lv_scr_act L w" if "y = root \<or> y \<in> set (children L root w)" for y
    using that l query_lawsD(2) [OF q, of w] by (auto simp: list_view_def)
  ultimately show "list_view L root ids w'"
    using c l by (intro list_view_same [OF _ _ l]) (auto simp: created_def list_view_def)
  show "label_view L root b w'" using c l by (auto simp: label_view_def created_def list_view_def)
  show "label_view L root k w \<Longrightarrow> lv_obj_is_valid L k w'" using c by (auto simp: label_view_def created_def same_place_def)
qed

lemma delete_async_sim:
  assumes "update_laws L" "\<And>x. old = Some x \<Longrightarrow> lv_obj_is_valid L x w"
  shows "\<exists>w'. delete_async L old w = Some w' \<and> keeps L w w'"
proof (cases old)
  case None
  then show ?thesis by (simp add: delete_async_def keeps_def same_obj_def same_place_def)
next
  case (Some x)
  with update_lawsD(5) [OF assms(1), of x w] assms(2) show ?thesis by (auto simp: delete_async_def)
qed


definition empty_notice :: "bool \<Rightarrow> shown_item list" where
  "empty_notice e = (if e then [Label_shown ''Notification list is empty''] else [])"

text \<open>What the callbacks leave alone of the view: the list widget and the state of the automatic scrolling.\<close>

definition same_scroll :: "view_model \<Rightarrow> view_model \<Rightarrow> bool" where
  "same_scroll v v' \<longleftrightarrow> m_notificationsListRoot v' = m_notificationsListRoot v \<and>
     m_autoscrollChildrenIndex v' = m_autoscrollChildrenIndex v \<and> m_scrollDirection v' = m_scrollDirection v"

lemma same_scroll_trans: "same_scroll v1 v2 \<Longrightarrow> same_scroll v2 v3 \<Longrightarrow> same_scroll v1 v3"
  by (simp add: same_scroll_def)

lemma same_scroll_refl [simp]: "same_scroll v v"
  by (simp add: same_scroll_def)

definition label_agrees :: "bool \<Rightarrow> 'w ui \<Rightarrow> bool" where
  "label_agrees e g \<longleftrightarrow> (m_emptyListLabel (view g) \<noteq> None \<longleftrightarrow> e)"

lemma checkIsListEmpty_sim:
  assumes laws: "lvgl_laws L" and v: "view_ok L ids g" and e: "is_notifications_list_empty (queue_model g) = Some e"
  shows "\<exists>g'. checkIsListEmpty L g = Some g' \<and> queue_model g' = queue_model g \<and> view_ok L ids g' \<and> label_agrees e g' \<and>
    same_scroll (view g) (view g') \<and> shown g' = shown g @ empty_notice e"
proof -
  note law = laws_parts [OF laws]
  obtain root where r: "m_notificationsListRoot (view g) = Some root" "list_view L root ids (widgets g)"
    "\<And>k. m_emptyListLabel (view g) = Some k \<Longrightarrow> label_view L root k (widgets g)"
    using v by (auto simp: view_ok_def)
  show ?thesis
  proof (cases e)
    case True
    obtain b w1 where b: "lv_label_create L (lv_scr_act L (widgets g)) (widgets g) = Some (b, w1)"
      "created L (lv_scr_act L (widgets g)) b (widgets g) w1"
      using law(3) query_lawsD(1) [OF law(1)] unfolding creation_laws_def by blast
    note lc = label_created [OF law(1) b(2) r(2)]
    obtain w2 where w2: "delete_async L (m_emptyListLabel (view g)) w1 = Some w2" "keeps L w1 w2"
      using delete_async_sim [OF law(2), of "m_emptyListLabel (view g)" w1] r(3) [THEN lc(3)] by auto
    note k2 = keeps_keeps_screen [OF w2(2)]
    have v2: "lv_obj_is_valid L b w2" using keeps_valid [OF w2(2)] lc(2) by (simp add: label_view_def)
    obtain w3 where w3: "lv_label_set_text L b ''Notification list is empty'' w2 = Some w3" "keeps L w2 w3"
      using update_lawsD(2) [OF law(2) v2] by blast
    obtain w4 where w4: "lv_obj_looks L b (Align_center 0 0) w3 = Some w4" "keeps L w3 w4"
      using update_lawsD(1) [OF law(2) keeps_valid [OF w3(2) v2]] by blast
    note k = keeps_keeps_screen [OF keeps_trans [OF w2(2) keeps_trans [OF w3(2) w4(2)]]]
    have "list_view L root ids w4" "label_view L root b w4"
      using list_view_keeps [OF k] label_view_keeps [OF k] lc(1,2) by auto
    then show ?thesis using True e b(1) w2(1) w3(1) w4(1) r(1)
      by (simp add: checkIsListEmpty_def set_empty_label_def on_widgets_def view_ok_def label_agrees_def same_scroll_def empty_notice_def)
  next
    case False
    obtain w2 where w2: "delete_async L (m_emptyListLabel (view g)) (widgets g) = Some w2" "keeps L (widgets g) w2"
      using delete_async_sim [OF law(2), of "m_emptyListLabel (view g)" "widgets g"] r(3) [THEN label_view_on_screen(2)] by auto
    then show ?thesis using False e r(1) list_view_keeps [OF keeps_keeps_screen [OF w2(2)] r(2)]
      by (simp add: checkIsListEmpty_def set_empty_label_def view_ok_def label_agrees_def same_scroll_def empty_notice_def)
  qed
qed

text \<open>The search for the button of a reminder passes the buttons of the others.\<close>

lemma for_children_find:
  assumes "\<And>i. i \<in> set pre \<Longrightarrow> f i s = Some (Next s)" "f k s = Some (Break s')"
  shows "for_children f (pre @ k # post) s = Some s'"
  using assms by (induction pre) auto

lemma slot_sim:
  assumes laws: "lvgl_laws L" and v: "view_ok L (pre @ r # post) g" and r: "r \<notin> set pre"
    and e: "is_notifications_list_empty (queue_model g) = Some (pre @ post = [])"
    and t: "get_notification_text r (queue_model g) = Some b" "strings (queue_model g) b = Some txt"
  shows "\<exists>g'. slotNotificationIsAboutToBeRemoved L r g = Some g' \<and> queue_model g' = queue_model g \<and>
    view_ok L (pre @ post) g' \<and> label_agrees (pre @ post = []) g' \<and> same_scroll (view g) (view g') \<and>
    shown g' = shown g @ Message_box ''!REMINDER!'' txt # empty_notice (pre @ post = [])"
proof -
  note law = laws_parts [OF laws]
  obtain root where root: "m_notificationsListRoot (view g) = Some root" "list_view L root (pre @ r # post) (widgets g)"
    "\<And>k. m_emptyListLabel (view g) = Some k \<Longrightarrow> label_view L root k (widgets g)"
    using v by (auto simp: view_ok_def)
  let ?w = "widgets g" and ?n = "length pre"
  have val: "lv_obj_is_valid L root ?w" using root(2) by (simp add: list_view_def)
  have len: "length (children L root ?w) = Suc (?n + length post)" using list_view_length [OF root(2)] by simp
  have child: "lv_obj_get_child L root i ?w = Some (Some (children L root ?w ! i))" if "i < Suc (?n + length post)" for i
    using query_lawsD(4) [OF law(1) val, of i] that len by simp
  have data: "lv_obj_get_user_data L (children L root ?w ! i) ?w = Some (Some ((pre @ r # post) ! i))" if "i < Suc (?n + length post)" for i
    using list_view_data [OF root(2), of i] that by simp
  let ?b = "children L root ?w ! ?n"
  have bc: "?b \<in> set (children L root ?w)" using len by simp
  then have bv: "lv_obj_is_valid L ?b ?w" "lv_obj_get_parent L ?b ?w \<noteq> Some None" using root(2) by (auto simp: list_view_def)
  obtain w1 where w1: "lv_obj_del L ?b ?w = Some w1" "deleted L ?b ?w w1"
    using law(4) bv unfolding deletion_laws_def by blast
  let ?g1 = "g\<lparr>widgets := w1\<rparr>"
  have v1: "view_ok L (pre @ post) ?g1"
    using root list_view_delete [OF law(1) root(2) w1(2)] by (auto simp: view_ok_def)
  obtain w2 where w2: "open_messagebox L ''!REMINDER!'' txt ?g1 = Some (?g1\<lparr>widgets := w2, shown := shown g @ [Message_box ''!REMINDER!'' txt]\<rparr>)"
    "keeps_screen L w1 w2"
    using open_messagebox_sim [OF laws, of "''!REMINDER!''" "txt" ?g1] by auto
  let ?g2 = "?g1\<lparr>widgets := w2, shown := shown g @ [Message_box ''!REMINDER!'' txt]\<rparr>"
  have v2: "view_ok L (pre @ post) ?g2" using view_ok_keeps [of L ?g1 w2] w2(2) v1 by simp
  obtain g' where g': "checkIsListEmpty L ?g2 = Some g'" "queue_model g' = queue_model g" "view_ok L (pre @ post) g'"
    "label_agrees (pre @ post = []) g'" "same_scroll (view g) (view g')"
    "shown g' = shown ?g2 @ empty_notice (pre @ post = [])"
    using checkIsListEmpty_sim [OF laws v2, of "pre @ post = []"] e by auto
  define f where "f = (\<lambda>childIt g. do {
       pChildButton \<leftarrow> lv_obj_get_child L root childIt (widgets g);
       case pChildButton of
         None \<Rightarrow> Some (Next g)
       | Some b \<Rightarrow> do {
           pReminderButton \<leftarrow> lv_obj_get_user_data L b (widgets g);
           if Some r = pReminderButton then do {
             g \<leftarrow> on_widgets (lv_obj_del L b) g;
             g \<leftarrow> showExpriedNotificationMessageBox L r g;
             g \<leftarrow> checkIsListEmpty L g;
             Some (Break g) }
           else Some (Next g) } })"
  have "f i g = Some (Next g)" if "i \<in> set [0..<?n]" for i
  proof -
    have "pre ! i \<noteq> r" using that r by auto
    then show ?thesis using that child [of i] data [of i] by (simp add: f_def nth_append)
  qed
  moreover have "f ?n g = Some (Break g')"
    using child [of ?n] data [of ?n] w1(1) w2(1) g'(1) t
    by (simp add: f_def on_widgets_def showExpriedNotificationMessageBox_def)
  moreover have "[0..<Suc (?n + length post)] = [0..<?n] @ ?n # [Suc ?n..<Suc (?n + length post)]"
    using upt_add_eq_append [of 0 ?n "Suc (length post)"] upt_conv_Cons [of ?n "Suc (?n + length post)"] by simp
  ultimately have "for_children f [0..<Suc (?n + length post)] g = Some g'"
    using for_children_find [of "[0..<?n]" f g ?n g'] by metis
  then have "slotNotificationIsAboutToBeRemoved L r g = Some g'"
    using query_lawsD(3) [OF law(1) val] len root(1) by (simp add: slotNotificationIsAboutToBeRemoved_def f_def)
  with g' show ?thesis by simp
qed


section \<open>A reminder expires\<close>

text \<open>Whatever the widgets do, the reminders go through the module's own tick.\<close>

lemma on_widgets_model: "on_widgets f g = Some g' \<Longrightarrow> queue_model g' = queue_model g"
  by (auto simp: on_widgets_def bind_eq_Some_conv)

lemma open_messagebox_model: "open_messagebox L title t g = Some g' \<Longrightarrow> queue_model g' = queue_model g"
  by (auto simp: open_messagebox_def bind_eq_Some_conv)

lemma checkIsListEmpty_model: "checkIsListEmpty L g = Some g' \<Longrightarrow> queue_model g' = queue_model g"
  by (auto simp: checkIsListEmpty_def bind_eq_Some_conv set_empty_label_def on_widgets_def split: if_splits)

lemma for_children_model:
  assumes "for_children f xs g = Some g'" "\<And>i g c. f i g = Some c \<Longrightarrow> (case c of Next g1 \<Rightarrow> M g1 | Break g1 \<Rightarrow> M g1) = M g"
  shows "M g' = M g"
  using assms(1)
proof (induction xs arbitrary: g)
  case (Cons i xs)
  then obtain c where c: "f i g = Some c" by (auto simp: bind_eq_Some_conv)
  with Cons assms(2) [OF c] show ?case by (cases c) auto
qed simp

lemma slot_model: "slotNotificationIsAboutToBeRemoved L r g = Some g' \<Longrightarrow> queue_model g' = queue_model g"
  by (auto simp: slotNotificationIsAboutToBeRemoved_def bind_eq_Some_conv showExpriedNotificationMessageBox_def
      dest!: on_widgets_model open_messagebox_model checkIsListEmpty_model split: option.splits if_splits
      intro!: for_children_model [where M = queue_model])

lemma expire_model:
  assumes "expire_and_notify L r g = Some g'"
  shows "handle_reminder_expired r (queue_model g) = Some (queue_model g')"
proof -
  obtain R where R: "reminders (queue_model g) r = Some R" using assms by (auto simp: expire_and_notify_def bind_eq_Some_conv)
  show ?thesis
  proof (cases "ellapse_time R = 0")
    case True
    then obtain s0 where s0: "unlink_expired r (queue_model g) = Some s0"
      using assms R by (auto simp: expire_and_notify_def on_model_def bind_eq_Some_conv)
    show ?thesis
      using assms R True s0
      by (cases "callback_notification_is_about_to_be_removed s0")
        (auto simp: expire_and_notify_def handle_reminder_expired_steps on_model_def bind_eq_Some_conv dest!: slot_model)
  qed (use assms R in \<open>simp add: expire_and_notify_def handle_reminder_expired_def\<close>)
qed

lemma tick_model:
  assumes "slotNotificationTimerTick L g = Some g'"
  shows "handle_timer_tick (queue_model g) = Some (queue_model g')"
proof -
  let ?body = "\<lambda>pos g. do {
          reminder_it \<leftarrow> reminder_of_list pos;
          R \<leftarrow> reminders (queue_model g) reminder_it;
          t \<leftarrow> c_sub (ellapse_time R) 1;
          g \<leftarrow> on_model (set_reminder (\<lambda>R. R\<lparr>ellapse_time := t\<rparr>) reminder_it) g;
          g \<leftarrow> (if t = 0 then expire_and_notify L reminder_it g else Some g);
          Some (Next g) }"
  obtain b p where loop: "list_for_each_safe (\<lambda>g. next_in (queue_model g)) ?body (Ptr RemindersList) g = Some (b, p, g')"
    using assms by (auto simp: slotNotificationTimerTick_def bind_eq_Some_conv)
  let ?body' = "\<lambda>pos s. do {
          reminder_it \<leftarrow> reminder_of_list pos;
          R \<leftarrow> reminders s reminder_it;
          t \<leftarrow> c_sub (ellapse_time R) 1;
          s \<leftarrow> set_reminder (\<lambda>R. R\<lparr>ellapse_time := t\<rparr>) reminder_it s;
          s \<leftarrow> (if t = 0 then handle_reminder_expired reminder_it s else Some s);
          Some (Next s) }"
  have "\<exists>s'. list_for_each_safe next_in ?body' (Ptr RemindersList) (queue_model g) = Some (b, p, s') \<and> s' = queue_model g'"
  proof (rule list_for_each_safe_same [OF loop, where R = "\<lambda>g s. s = queue_model g"])
    fix p g s c assume s: "s = queue_model g" and "?body p g = Some c"
    then obtain r R t g1 g2 where *: "reminder_of_list p = Some r" "reminders s r = Some R" "c_sub (ellapse_time R) 1 = Some t"
      "on_model (set_reminder (\<lambda>R. R\<lparr>ellapse_time := t\<rparr>) r) g = Some g1"
      "(if t = 0 then expire_and_notify L r g1 else Some g1) = Some g2" "c = Next g2"
      by (auto simp: bind_eq_Some_conv)
    have "set_reminder (\<lambda>R. R\<lparr>ellapse_time := t\<rparr>) r s = Some (queue_model g1)"
      using *(4) s by (auto simp: on_model_def bind_eq_Some_conv)
    moreover have "(if t = 0 then handle_reminder_expired r (queue_model g1) else Some (queue_model g1)) = Some (queue_model g2)"
      using *(5) expire_model by (auto split: if_splits)
    ultimately show "\<exists>c'. ?body' p s = Some c' \<and> same_ctl (\<lambda>g s. s = queue_model g) c c'"
      using * by (intro exI [of _ "Next (queue_model g2)"]) simp
  qed simp_all
  then show ?thesis by (auto simp: handle_timer_tick_def)
qed


text \<open>When the view is told, the reminder has left the queue and its text is still there.\<close>

lemma unlink_expired_sim:
  assumes m: "models s a" and x: "x \<in> set (a_queue a)"
  shows "\<exists>s0. unlink_expired (r_id x) s = Some s0 \<and> is_notifications_list_empty s0 = Some (queue_ids (a_del x a) = []) \<and>
    reminders s0 = reminders s \<and> strings s0 = strings s \<and>
    callback_notification_is_about_to_be_removed s0 = callback_notification_is_about_to_be_removed s"
proof -
  let ?r = "r_id x" and ?u = "r_owner x"
  note wf = models_awf [OF m]
  have l: "lists_model (nodes s) (user_ids a) (queue_ids a) (a_notif a)"
    using m by (simp add: models_def heap_models_lists)
  obtain k1 k2 where k: "list_del (nodes s) (Ptr (RemNode ?r)) = Some k1" "list_del k1 (Ptr (RemUserNode ?r)) = Some k2"
    "lists_model k2 (user_ids a) (queue_ids (a_del x a)) (a_notif (a_del x a))"
    "dlist k1 (NotifHead ?u) (map RemUserNode (a_notif a ?u))"
    using models_unlink_lists [OF wf x l] by metis
  note o = models_reminder [OF m x]
  let ?s = "printf (''Notification Alert! '' @ r_title x @ '' \<newline>'') s\<lparr>nodes := k1\<rparr>"
  have loop: "list_for_each_safe (\<lambda>_. next_in ?s) (\<lambda>pos _. do {
       r \<leftarrow> reminder_of_user_notify_list pos; if r = ?r then Some (Break ()) else Some (Next ()) }) (Ptr (NotifHead ?u)) () =
      Some (True, Ptr (RemUserNode ?r), ())"
    using find_entry_loop [of k1 "NotifHead ?u" RemUserNode "a_notif a ?u" "\<lambda>_. next_in ?s" reminder_of_user_notify_list ?r]
      k(4) awf_owner(2) [OF wf x] by simp
  have "list_empty k2 (Ptr RemindersList) = Some (map RemNode (queue_ids (a_del x a)) = [])"
    using k(3) by (intro list_empty_dlist) (simp add: lists_model_def)
  then show ?thesis using o k(1,2) loop
    by (simp add: unlink_expired_def reminder_object_def printf_def on_nodes_def is_notifications_list_empty_def)
qed

lemma expire_sim:
  assumes laws: "lvgl_laws L" and m: "models (queue_model g) a" and x: "x \<in> set (a_queue a)" and z: "r_time x = 0"
    and cb: "callback_notification_is_about_to_be_removed (queue_model g)" and v: "view_ok L (queue_ids a) g"
  shows "\<exists>g'. expire_and_notify L (r_id x) g = Some g' \<and> models (queue_model g') (a_del x a) \<and>
    callback_notification_is_about_to_be_removed (queue_model g') \<and>
    view_ok L (queue_ids (a_del x a)) g' \<and> label_agrees (queue_ids (a_del x a) = []) g' \<and> same_scroll (view g) (view g') \<and>
    shown g' = shown g @ Message_box ''!REMINDER!'' (r_title x) # empty_notice (queue_ids (a_del x a) = [])"
proof -
  let ?e = "queue_ids (a_del x a) = []"
  note wf = models_awf [OF m]
  obtain s0 where s0: "unlink_expired (r_id x) (queue_model g) = Some s0" "is_notifications_list_empty s0 = Some ?e"
    "reminders s0 = reminders (queue_model g)" "strings s0 = strings (queue_model g)"
    "callback_notification_is_about_to_be_removed s0"
    using unlink_expired_sim [OF m x] cb by auto
  obtain pre post where q: "queue_ids a = pre @ r_id x # post" using x by (metis queue_ids_def image_eqI list.set_map split_list)
  have d: "distinct (queue_ids a)" using wf by (simp add: awf_def)
  have del: "queue_ids (a_del x a) = pre @ post" using d filter_neq_split [of pre "r_id x" post] by (simp add: q del: filter_append)
  let ?g = "g\<lparr>queue_model := announce_removal (r_id x) s0\<rparr>"
  note o = models_reminder [OF m x]
  have "\<exists>g'. slotNotificationIsAboutToBeRemoved L (r_id x) ?g = Some g' \<and> queue_model g' = queue_model ?g \<and>
    view_ok L (pre @ post) g' \<and> label_agrees (pre @ post = []) g' \<and> same_scroll (view ?g) (view g') \<and>
    shown g' = shown ?g @ Message_box ''!REMINDER!'' (r_title x) # empty_notice (pre @ post = [])"
  proof (rule slot_sim [OF laws])
    show "r_id x \<notin> set pre" using d q by auto
    show "is_notifications_list_empty (queue_model ?g) = Some (pre @ post = [])"
      using s0(2) del by (simp add: is_notifications_list_empty_def announce_removal_def)
    show "get_notification_text (r_id x) (queue_model ?g) = Some (Suc (r_id x))" "strings (queue_model ?g) (Suc (r_id x)) = Some (r_title x)"
      using o s0(3,4) by (simp_all add: get_notification_text_def announce_removal_def reminder_object_def)
  qed (use v q in simp)
  then obtain g1 where g1: "slotNotificationIsAboutToBeRemoved L (r_id x) ?g = Some g1" "queue_model g1 = announce_removal (r_id x) s0"
    "view_ok L (queue_ids (a_del x a)) g1" "label_agrees ?e g1" "same_scroll (view g) (view g1)"
    "shown g1 = shown g @ Message_box ''!REMINDER!'' (r_title x) # empty_notice ?e"
    unfolding del by auto
  obtain s' where s': "handle_reminder_expired (r_id x) (queue_model g) = Some s'" "models s' (a_del x a)"
    "callback_notification_is_about_to_be_removed s'"
    using handle_reminder_expired_sim [OF m x z] cb by auto
  have "reminder_dtor (r_id x) (announce_removal (r_id x) s0) = Some s'"
    using s'(1) o s0(1,5) z by (simp add: handle_reminder_expired_steps reminder_object_def)
  then have "expire_and_notify L (r_id x) g = Some (g1\<lparr>queue_model := s'\<rparr>)"
    using o s0(1,5) z g1(1,2) by (simp add: expire_and_notify_def on_model_def reminder_object_def)
  moreover have "label_agrees ?e (g1\<lparr>queue_model := s'\<rparr>)" using g1(4) by (simp add: label_agrees_def)
  ultimately show ?thesis using g1 s' by (intro exI [of _ "g1\<lparr>queue_model := s'\<rparr>"]) (simp del: a_del_ids)
qed

section \<open>A tick\<close>

text \<open>What a tick shows: a box for every reminder that is due, and the notice when the last one is gone.\<close>

definition reminder_boxes :: "areminder list \<Rightarrow> shown_item list" where
  "reminder_boxes q = map (\<lambda>x. Message_box ''!REMINDER!'' (r_title x)) (tick_expired q)"

definition tick_shows :: "areminder list \<Rightarrow> areminder list \<Rightarrow> shown_item list" where
  "tick_shows pre post = reminder_boxes pre @ empty_notice (pre \<noteq> [] \<and> tick_queue pre @ post = [])"

definition ui_models :: "'w lvgl \<Rightarrow> aspec \<Rightarrow> 'w ui \<Rightarrow> bool" where
  "ui_models L a g \<longleftrightarrow> models (queue_model g) a \<and> callback_notification_is_about_to_be_removed (queue_model g) \<and>
     view_ok L (queue_ids a) g \<and> label_agrees (a_queue a = []) g"

lemma queue_ids_Nil: "queue_ids a = [] \<longleftrightarrow> a_queue a = []"
  by (simp add: queue_ids_def)

lemma ui_tick_body:
  assumes laws: "lvgl_laws L" and m: "ui_models L (a_tick_upto pre (x # post) a) g"
    and d: "distinct (map r_id (pre @ x # post))" and i: "in_int (r_time x - 1)"
  shows "\<exists>g'. do {
      R \<leftarrow> reminders (queue_model g) (r_id x);
      t \<leftarrow> c_sub (ellapse_time R) 1;
      g \<leftarrow> on_model (set_reminder (\<lambda>R. R\<lparr>ellapse_time := t\<rparr>) (r_id x)) g;
      if t = 0 then expire_and_notify L (r_id x) g else Some g } = Some g' \<and>
    ui_models L (a_tick_upto (pre @ [x]) post a) g' \<and> same_scroll (view g) (view g') \<and>
    shown g' = shown g @ reminder_boxes [x] @ empty_notice (r_time x = 1 \<and> tick_queue pre @ post = [])"
proof -
  let ?a = "a_tick_upto pre (x # post) a"
  let ?t = "r_time x - 1"
  let ?s = "(queue_model g)\<lparr>reminders := (reminders (queue_model g))(r_id x \<mapsto> (reminder_object x)\<lparr>ellapse_time := ?t\<rparr>)\<rparr>"
  let ?b = "a_set_time (r_id x) ?t ?a"
  let ?g = "g\<lparr>queue_model := ?s\<rparr>"
  have m': "models (queue_model g) ?a" "callback_notification_is_about_to_be_removed (queue_model g)" "view_ok L (queue_ids ?a) g"
    "label_agrees (a_queue ?a = []) g" using m by (simp_all add: ui_models_def)
  have x: "x \<in> set (a_queue ?a)" by (simp add: a_tick_upto_def)
  have s: "models (queue_model ?g) ?b" using models_set_time [OF m'(1) x] by simp
  note st = tick_step [OF models_awf [OF m'(1)] d]
  have c: "c_sub (ellapse_time (reminder_object x)) 1 = Some ?t" using i by (simp add: c_simps reminder_object_def)
  have set: "on_model (set_reminder (\<lambda>R. R\<lparr>ellapse_time := ?t\<rparr>) (r_id x)) g = Some ?g"
    using models_reminder(1) [OF m'(1) x] by (simp add: on_model_def set_reminder_def)
  have lb: "label_agrees False ?g" using m'(4) by (simp add: label_agrees_def a_tick_upto_def)
  show ?thesis
  proof (cases "r_time x = 1")
    case True
    have xb: "x\<lparr>r_time := 0\<rparr> \<in> set (a_queue ?b)" using x True by (force simp: a_set_time_def)
    let ?c = "a_tick_upto (pre @ [x]) post a"
    have cq: "a_del (x\<lparr>r_time := 0\<rparr>) ?b = ?c" using st True by simp
    have ce: "queue_ids ?c = [] \<longleftrightarrow> tick_queue pre @ post = []" using True by (simp add: queue_ids_Nil a_tick_upto_def tick_queue_def)
    obtain g' where g': "expire_and_notify L (r_id x) ?g = Some g'" "models (queue_model g') ?c"
      "callback_notification_is_about_to_be_removed (queue_model g')" "view_ok L (queue_ids ?c) g'" "label_agrees (queue_ids ?c = []) g'"
      "same_scroll (view g) (view g')" "shown g' = shown g @ Message_box ''!REMINDER!'' (r_title x) # empty_notice (queue_ids ?c = [])"
      using expire_sim [OF laws s xb] m'(2,3) cq by auto
    have "shown g' = shown g @ reminder_boxes [x] @ empty_notice (r_time x = 1 \<and> tick_queue pre @ post = [])"
      using g'(7) True unfolding ce by (simp add: reminder_boxes_def tick_expired_def)
    then show ?thesis using g'(1-6) True models_reminder(1) [OF m'(1) x] c set
      by (auto simp: ui_models_def queue_ids_Nil)
  next
    case False
    let ?c = "a_tick_upto (pre @ [x]) post a"
    have cq: "?b = ?c" using st False by simp
    have "label_agrees (a_queue ?b = []) ?g" using lb by (simp add: a_set_time_def a_tick_upto_def)
    then have "ui_models L ?b ?g" using s m'(2,3) by (simp add: ui_models_def)
    then have "ui_models L ?c ?g" unfolding cq .
    then show ?thesis using False models_reminder(1) [OF m'(1) x] c set
      by (simp add: reminder_boxes_def tick_expired_def empty_notice_def)
  qed
qed


lemma tick_shows_snoc:
  "tick_shows (pre @ [x]) post = tick_shows pre (x # post) @ reminder_boxes [x] @ empty_notice (r_time x = 1 \<and> tick_queue pre @ post = [])"
  by (auto simp: tick_shows_def reminder_boxes_def tick_expired_def tick_queue_def empty_notice_def)

lemma slotNotificationTimerTick_sim:
  assumes laws: "lvgl_laws L" and m: "ui_models L a g" and i: "\<forall>x \<in> set (a_queue a). in_int (r_time x - 1)"
  shows "\<exists>g'. slotNotificationTimerTick L g = Some g' \<and> ui_models L (a_tick a) g' \<and> same_scroll (view g) (view g') \<and>
    shown g' = shown g @ tick_shows (a_queue a) []"
proof -
  let ?body = "\<lambda>pos g. do {
          reminder_it \<leftarrow> reminder_of_list pos;
          R \<leftarrow> reminders (queue_model g) reminder_it;
          t \<leftarrow> c_sub (ellapse_time R) 1;
          g \<leftarrow> on_model (set_reminder (\<lambda>R. R\<lparr>ellapse_time := t\<rparr>) reminder_it) g;
          g \<leftarrow> (if t = 0 then expire_and_notify L reminder_it g else Some g);
          Some (Next g) }"
  let ?I = "\<lambda>(t::node list) g1. \<exists>pre post. a_queue a = pre @ post \<and> t = map RemNode (map r_id post) \<and>
      ui_models L (a_tick_upto pre post a) g1 \<and> same_scroll (view g) (view g1) \<and> shown g1 = shown g @ tick_shows pre post"
  have mq: "models (queue_model g) a" using m by (simp add: ui_models_def)
  have d: "distinct (map r_id (a_queue a))" using models_awf [OF mq] by (simp add: awf_def queue_ids_def)
  have "\<exists>g1. list_for_each_safe (\<lambda>g. next_in (queue_model g)) ?body (Ptr RemindersList) g = Some (False, Ptr RemindersList, g1) \<and> ?I [] g1"
  proof (rule list_for_each_safe_all [where I = ?I and xs = "map RemNode (queue_ids a)"])
    fix y t g1 assume "?I (y # t) g1"
    then obtain pre x post where p: "a_queue a = pre @ x # post" "y = RemNode (r_id x)" "t = map RemNode (map r_id post)"
      "ui_models L (a_tick_upto pre (x # post) a) g1" "same_scroll (view g) (view g1)" "shown g1 = shown g @ tick_shows pre (x # post)"
      by (auto simp: Cons_eq_map_conv map_eq_Cons_conv)
    have "in_int (r_time x - 1)" using i p(1) by simp
    from ui_tick_body [OF laws p(4) d [unfolded p(1)] this] obtain g2 where g2: "do {
      R \<leftarrow> reminders (queue_model g1) (r_id x);
      t \<leftarrow> c_sub (ellapse_time R) 1;
      g \<leftarrow> on_model (set_reminder (\<lambda>R. R\<lparr>ellapse_time := t\<rparr>) (r_id x)) g1;
      if t = 0 then expire_and_notify L (r_id x) g else Some g } = Some g2"
      "ui_models L (a_tick_upto (pre @ [x]) post a) g2" "same_scroll (view g1) (view g2)"
      "shown g2 = shown g1 @ reminder_boxes [x] @ empty_notice (r_time x = 1 \<and> tick_queue pre @ post = [])" by blast
    have "?I t g2" using p(1,3,6) g2(2,4) same_scroll_trans [OF p(5) g2(3)]
      by (intro exI [of _ "pre @ [x]"] exI [of _ post]) (simp add: tick_shows_snoc)
    moreover have "?body (Ptr y) g1 = Some (Next g2)"
      using g2(1) unfolding p(2) by (auto simp: bind_eq_Some_conv split: if_splits)
    ultimately show "\<exists>g'. ?body (Ptr y) g1 = Some (Next g') \<and> ?I t g'" by blast
  next
    fix y t g1 assume "?I (y # t) g1"
    then obtain pre x post where p: "y = RemNode (r_id x)" "t = map RemNode (map r_id post)"
      "models (queue_model g1) (a_tick_upto pre (x # post) a)"
      by (auto simp: Cons_eq_map_conv map_eq_Cons_conv ui_models_def)
    then show "y \<noteq> RemindersList \<and> next_in (queue_model g1) (Ptr y) = Some (first_ptr RemindersList t)"
      using models_lists(2) [OF p(3)]
      by (auto simp: heap_simps queue_ids_upto intro: dlist_next [of _ _ "map RemNode (map r_id (tick_queue pre))"])
  next
    fix g1 assume "?I [] g1"
    then obtain pre post where "models (queue_model g1) (a_tick_upto pre post a)" by (auto simp: ui_models_def)
    from dlist_first [OF models_lists(2) [OF this]] show "\<exists>p. next_in (queue_model g1) (Ptr RemindersList) = Some p"
      by (simp add: heap_simps)
  next
    have "a_tick_upto [] (a_queue a) a = a"
      by (simp add: a_tick_upto_def tick_queue_def tick_expired_def)
    then show "?I (map RemNode (queue_ids a)) g"
      using m by (intro exI [of _ "[]"] exI [of _ "a_queue a"])
        (simp add: tick_shows_def reminder_boxes_def empty_notice_def tick_expired_def queue_ids_def)
    show "next_in (queue_model g) (Ptr RemindersList) = Some (first_ptr RemindersList (map RemNode (queue_ids a)))"
      using dlist_first [OF models_lists(2) [OF mq]] by (simp add: heap_simps)
  qed
  then show ?thesis by (auto simp: slotNotificationTimerTick_def a_tick_def)
qed

end
