(* ===== verification/LvglTree.thy ===== *)
theory LvglTree
  imports Lvgl
begin

text \<open>
  A widget library that keeps to \<open>lvgl_laws\<close>: objects are numbered in the order of their creation, the
  screen is 0 and the layer above it 1; an object is alive while its parent is recorded. The witnesses of
  the application's properties run on it.
\<close>

record tree =
  bound :: nat
  parent_of :: "nat \<Rightarrow> nat option"
  data_of :: "nat \<Rightarrow> nat option"

definition tree_parent :: "nat \<Rightarrow> tree \<Rightarrow> nat option" where
  "tree_parent x w = (if 2 \<le> x \<and> x < 2 + bound w then
     (case parent_of w x of Some p \<Rightarrow> if p < x then Some p else None | None \<Rightarrow> None) else None)"

definition alive :: "nat \<Rightarrow> tree \<Rightarrow> bool" where
  "alive x w \<longleftrightarrow> x < 2 \<or> tree_parent x w \<noteq> None"

definition tree_children :: "nat \<Rightarrow> tree \<Rightarrow> nat list" where
  "tree_children x w = filter (\<lambda>c. tree_parent c w = Some x) [2..<2 + bound w]"

definition tree_create :: "nat \<Rightarrow> tree \<Rightarrow> (nat \<times> tree) option" where
  "tree_create p w = (if alive p w then
     let b = 2 + bound w in Some (b, w\<lparr>bound := Suc (bound w), parent_of := (parent_of w)(b := Some p), data_of := (data_of w)(b := None)\<rparr>)
     else None)"

text \<open>Whether an object is below another one, looking at most \<open>n\<close> steps up.\<close>

fun under :: "nat \<Rightarrow> tree \<Rightarrow> nat \<Rightarrow> nat \<Rightarrow> bool" where
  "under 0 w x c \<longleftrightarrow> c = x"
| "under (Suc n) w x c \<longleftrightarrow> c = x \<or> (case tree_parent c w of None \<Rightarrow> False | Some p \<Rightarrow> under n w x p)"

definition tree_delete :: "nat \<Rightarrow> tree \<Rightarrow> tree option" where
  "tree_delete x w = (if alive x w then Some (w\<lparr>parent_of := (\<lambda>c. if under (bound w) w x c then None else parent_of w c)\<rparr>) else None)"

definition when_alive :: "nat \<Rightarrow> tree \<Rightarrow> 'a \<Rightarrow> 'a option" where
  "when_alive x w v = (if alive x w then Some v else None)"

text \<open>The largest root below \<open>n\<close>, found by counting up.\<close>

fun sqrt_from :: "nat \<Rightarrow> nat \<Rightarrow> nat \<Rightarrow> nat" where
  "sqrt_from 0 n k = k"
| "sqrt_from (Suc m) n k = (if Suc k * Suc k \<le> n then sqrt_from m n (Suc k) else k)"

definition widget_tree :: "tree lvgl" where
  "widget_tree = \<lparr>
     lv_scr_act = (\<lambda>w. 0),
     lv_obj_is_valid = alive,
     lv_obj_get_parent = (\<lambda>x w. when_alive x w (tree_parent x w)),
     lv_obj_get_child_cnt = (\<lambda>x w. when_alive x w (length (tree_children x w))),
     lv_obj_get_child = (\<lambda>x i w. when_alive x w (if i < length (tree_children x w) then Some (tree_children x w ! i) else None)),
     lv_obj_get_user_data = (\<lambda>x w. when_alive x w (data_of w x)),
     lv_obj_get_coords = (\<lambda>x w. when_alive x w \<lparr>y1 = 0, y2 = 239\<rparr>),
     lv_obj_create = tree_create, lv_btn_create = tree_create, lv_label_create = tree_create,
     lv_msgbox_create = (\<lambda>title t btns c w. tree_create 1 w),
     lv_msgbox_close = tree_delete, lv_obj_del = tree_delete,
     lv_obj_del_async = (\<lambda>x w. when_alive x w w),
     lv_obj_set_user_data = (\<lambda>x d w. when_alive x w (w\<lparr>data_of := (data_of w)(x := Some d)\<rparr>)),
     lv_label_set_text = (\<lambda>x t w. when_alive x w w),
     lv_obj_looks = (\<lambda>x k w. when_alive x w w),
     lv_obj_add_event_cb = (\<lambda>x f c w. when_alive x w w),
     lv_obj_scroll_to_view = (\<lambda>x a w. when_alive x w w),
     lv_timer_create = (\<lambda>f n w. Some (0, w)),
     lv_timer_del = (\<lambda>t w. Some w),
     lv_area_get_height = (\<lambda>a. y2 a - y1 a + 1),
     lv_obj_get_height = (\<lambda>x w. when_alive x w 240),
     lv_sqrt = (\<lambda>n. sqrt_from 65536 n 0),
     lv_map = (\<lambda>x lo hi lo' hi'. (x - lo) * (hi' - lo') div (hi - lo) + lo')\<rparr>"

lemmas tree_fields [simp] = widget_tree_def [THEN arg_cong, of lv_scr_act, simplified]
  widget_tree_def [THEN arg_cong, of lv_obj_is_valid, simplified] widget_tree_def [THEN arg_cong, of lv_obj_get_parent, simplified]
  widget_tree_def [THEN arg_cong, of lv_obj_get_user_data, simplified] widget_tree_def [THEN arg_cong, of lv_obj_get_child_cnt, simplified]
  widget_tree_def [THEN arg_cong, of lv_obj_get_child, simplified]

lemma children_tree [simp]: "children widget_tree x w = (if alive x w then tree_children x w else [])"
proof (cases "alive x w")
  case True
  have "map (\<lambda>i. case if i < length xs then Some (xs ! i) else None of None \<Rightarrow> 0 | Some c \<Rightarrow> c) [0..<length xs] = xs" for xs :: "nat list"
    by (rule nth_equalityI) auto
  then show ?thesis using True by (simp add: children_def when_alive_def)
qed (simp add: children_def when_alive_def)



lemma tree_parent_less: "tree_parent c w = Some p \<Longrightarrow> p < c \<and> 2 \<le> c \<and> c < 2 + bound w"
  by (auto simp: tree_parent_def split: if_splits option.splits)

lemma set_tree_children: "set (tree_children x w) = {c. tree_parent c w = Some x}"
  by (auto simp: tree_children_def dest: tree_parent_less)

lemma inside_step: "tree_parent c w = Some p \<Longrightarrow> inside widget_tree w x p \<Longrightarrow> inside widget_tree w x c"
  by (rule inside.below) (simp_all add: when_alive_def alive_def)

lemma under_inside: "under n w x c \<Longrightarrow> inside widget_tree w x c"
  by (induction n arbitrary: c) (auto intro: inside.here inside_step split: option.splits)

lemma on_screen_tree: "on_screen widget_tree w y \<longleftrightarrow> inside widget_tree w 0 y"
  by (simp add: on_screen_def)

lemma tree_query_laws: "query_laws widget_tree"
  by (auto simp: query_laws_def when_alive_def alive_def tree_parent_def) (auto simp: widget_tree_def when_alive_def alive_def tree_parent_def)

lemma keeps_same: "keeps L w w"
  by (simp add: keeps_def same_obj_def same_place_def)

lemma tree_update_laws: "update_laws widget_tree"
proof -
  have "data_set widget_tree x d w (w\<lparr>data_of := (data_of w)(x := Some d)\<rparr>)" if "alive x w" for x d w
  proof -
    have p: "tree_parent y (w\<lparr>data_of := f\<rparr>) = tree_parent y w" for y f by (simp add: tree_parent_def)
    then have "alive y (w\<lparr>data_of := f\<rparr>) = alive y w" "tree_children y (w\<lparr>data_of := f\<rparr>) = tree_children y w" for y f
      by (simp_all add: alive_def tree_children_def)
    with p that show ?thesis by (simp add: data_set_def same_place_def when_alive_def)
  qed
  then show ?thesis by (auto simp: update_laws_def widget_tree_def when_alive_def keeps_same)
qed

lemma tree_create_created:
  assumes "alive p w"
  shows "\<exists>b w'. tree_create p w = Some (b, w') \<and> created widget_tree p b w w' \<and> b = 2 + bound w \<and> (\<forall>y. y \<noteq> b \<longrightarrow> tree_parent y w' = tree_parent y w)
    \<and> tree_parent b w' = Some p"
proof -
  let ?b = "2 + bound w"
  define v where "v = w\<lparr>bound := Suc (bound w), parent_of := (parent_of w)(?b := Some p), data_of := (data_of w)(?b := None)\<rparr>"
  have pb: "p < ?b" using assms by (auto simp: alive_def dest: tree_parent_less)
  have par: "tree_parent y v = (if y = ?b then Some p else tree_parent y w)" for y
    using pb by (auto simp: tree_parent_def v_def)
  have nb: "tree_parent ?b w = None" by (simp add: tree_parent_def)
  have al: "alive y v = (y = ?b \<or> alive y w)" for y by (simp add: alive_def par)
  have not_b: "\<not> alive ?b w" using nb by (simp add: alive_def)
  have bv: "bound v = Suc (bound w)" by (simp add: v_def)
  have ch: "tree_children y v = tree_children y w @ (if y = p then [?b] else [])" for y
  proof -
    have "tree_children y v = filter (\<lambda>c. tree_parent c v = Some y) [2..<?b] @ (if y = p then [?b] else [])"
      using bv par [of ?b] by (simp add: tree_children_def)
    moreover have "filter (\<lambda>c. tree_parent c v = Some y) [2..<?b] = tree_children y w"
      unfolding tree_children_def by (intro filter_cong) (auto simp: par)
    ultimately show ?thesis by simp
  qed
  have leaf: "tree_children ?b w = []"
    by (auto simp: tree_children_def filter_empty_conv dest: tree_parent_less)
  have "data_of v y = data_of w y" if "y \<noteq> ?b" for y using that by (simp add: v_def)
  then have "created widget_tree p ?b w v"
    using assms not_b leaf pb by (auto simp: created_def same_place_def when_alive_def al ch par)
  moreover have "tree_create p w = Some (?b, v)" using assms by (simp add: tree_create_def v_def Let_def)
  ultimately show ?thesis using par by (intro exI [of _ ?b] exI [of _ v]) simp
qed

lemma tree_creation_laws: "creation_laws widget_tree"
  using tree_create_created by (fastforce simp: creation_laws_def widget_tree_def)

text \<open>Deleting an object leaves everything outside it as it was.\<close>

lemma tree_delete_outside:
  assumes "tree_delete x w = Some w'"
  shows "bound w' = bound w" "data_of w' = data_of w" "\<And>y. \<not> inside widget_tree w x y \<Longrightarrow> tree_parent y w' = tree_parent y w"
    "tree_parent x w' = None"
    "\<And>y. tree_parent y w' = None \<or> tree_parent y w' = tree_parent y w"
proof -
  have w': "w' = w\<lparr>parent_of := (\<lambda>c. if under (bound w) w x c then None else parent_of w c)\<rparr>"
    using assms by (auto simp: tree_delete_def split: if_splits)
  then show "bound w' = bound w" "data_of w' = data_of w" by simp_all
  show "\<not> inside widget_tree w x y \<Longrightarrow> tree_parent y w' = tree_parent y w" for y
    using under_inside [of "bound w" w x y] by (auto simp: w' tree_parent_def)
  have "under (bound w) w x x" by (cases "bound w") auto
  then show "tree_parent x w' = None" by (simp add: w' tree_parent_def)
  show "tree_parent y w' = None \<or> tree_parent y w' = tree_parent y w" for y by (auto simp: w' tree_parent_def)
qed

lemma tree_delete_children:
  assumes d: "tree_delete x w = Some w'" and y: "\<not> inside widget_tree w x y"
  shows "tree_children y w' = filter (\<lambda>c. c \<noteq> x) (tree_children y w)"
proof -
  note o = tree_delete_outside [OF d]
  have "(tree_parent c w' = Some y) = (c \<noteq> x \<and> tree_parent c w = Some y)" for c
  proof (cases "tree_parent c w = Some y \<and> c \<noteq> x")
    case True
    have "\<not> inside widget_tree w x c"
    proof
      assume "inside widget_tree w x c"
      then show False
        by (rule insideE) (use True y in \<open>auto simp: when_alive_def split: if_splits\<close>)
    qed
    with True o(3) show ?thesis by simp
  qed (use o(4) o(5) [of c] in auto)
  then show ?thesis using o(1) by (simp add: tree_children_def conj_commute)
qed

lemma tree_deleted:
  assumes "alive x w"
  shows "\<exists>w'. tree_delete x w = Some w' \<and> deleted widget_tree x w w'"
proof -
  obtain w' where d: "tree_delete x w = Some w'" using assms by (auto simp: tree_delete_def)
  have al: "alive y w' = alive y w" if "\<not> inside widget_tree w x y" for y
    using tree_delete_outside(3) [OF d that] by (simp add: alive_def)
  have "deleted widget_tree x w w'"
    using tree_delete_outside [OF d] tree_delete_children [OF d] al
    by (auto simp: deleted_def same_place_def when_alive_def)
  with d show ?thesis by blast
qed

lemma tree_deletion_laws: "deletion_laws widget_tree"
  using tree_deleted by (fastforce simp: deletion_laws_def widget_tree_def)

text \<open>What is on the screen is not below an object of the layer above it.\<close>

lemma on_screen_apart:
  assumes "on_screen widget_tree w y" "\<not> on_screen widget_tree w x"
  shows "\<not> inside widget_tree w x y"
proof
  assume "inside widget_tree w x y"
  with assms inside_chain [of widget_tree w 0 y x] have "inside widget_tree w x 0" by (auto simp: on_screen_tree)
  then have "x = 0" by (auto elim: insideE simp: when_alive_def tree_parent_def alive_def)
  with assms(2) show False by (simp add: on_screen_tree inside.here)
qed

lemma tree_messagebox_laws: "messagebox_laws widget_tree"
proof -
  have "\<exists>b w'. tree_create 1 w = Some (b, w') \<and> keeps_screen widget_tree w w' \<and> alive b w' \<and> \<not> on_screen widget_tree w' b" for w
  proof -
    have "alive 1 w" by (simp add: alive_def)
    from tree_create_created [OF this] obtain b w' where c: "tree_create 1 w = Some (b, w')" "created widget_tree 1 b w w'"
      "b = 2 + bound w" "tree_parent b w' = Some 1" by blast
    have n1: "\<not> inside widget_tree v 0 1" for v by (auto elim: insideE simp: when_alive_def tree_parent_def alive_def)
    have "\<not> inside widget_tree w' 0 b" using c(3,4) n1 [of w'] by (auto elim: insideE simp: when_alive_def split: if_splits)
    moreover have "alive b w'" using c(4) by (simp add: alive_def)
    moreover have "keeps_screen widget_tree w w'"
      using c(2) n1 by (auto simp: keeps_screen_def created_def same_obj_def on_screen_tree)
    ultimately show ?thesis using c(1) by (simp add: on_screen_tree)
  qed
  moreover have "\<exists>w'. tree_delete x w = Some w' \<and> keeps_screen widget_tree w w'"
    if "alive x w" "\<not> on_screen widget_tree w x" for x w
  proof -
    obtain w' where d: "tree_delete x w = Some w'" "deleted widget_tree x w w'" using tree_deleted [OF \<open>alive x w\<close>] by blast
    have "filter (\<lambda>c. c \<noteq> x) (tree_children y w) = tree_children y w" if y: "on_screen widget_tree w y" for y
      using y \<open>\<not> on_screen widget_tree w x\<close>
      by (intro filter_True ballI) (auto simp: set_tree_children on_screen_tree dest: inside_step)
    then have "keeps_screen widget_tree w w'"
      using d(2) on_screen_apart [OF _ \<open>\<not> on_screen widget_tree w x\<close>]
      by (auto simp: keeps_screen_def deleted_def same_obj_def same_place_def)
    with d(1) show ?thesis by blast
  qed
  ultimately show ?thesis unfolding messagebox_laws_def by (simp add: widget_tree_def [THEN arg_cong, of lv_msgbox_create, simplified]
    widget_tree_def [THEN arg_cong, of lv_msgbox_close, simplified])
qed

lemma tree_timer_laws: "timer_laws widget_tree"
  by (auto simp: timer_laws_def widget_tree_def keeps_same)

lemma widget_tree_laws: "lvgl_laws widget_tree"
  by (simp add: lvgl_laws_def tree_query_laws tree_update_laws tree_creation_laws tree_deletion_laws tree_messagebox_laws tree_timer_laws)

text \<open>Its arithmetic.\<close>

lemma sqrt_from: "k\<^sup>2 \<le> n \<Longrightarrow> n < (Suc (k + m))\<^sup>2 \<Longrightarrow> (sqrt_from m n k)\<^sup>2 \<le> n \<and> n < (Suc (sqrt_from m n k))\<^sup>2"
proof (induction m arbitrary: k)
  case (Suc m)
  show ?case
  proof (cases "Suc k * Suc k \<le> n")
    case True
    then have "(Suc k)\<^sup>2 \<le> n" by (simp add: power2_eq_square)
    from Suc.IH [OF this] Suc.prems(2) True show ?thesis by simp
  qed (use Suc.prems(1) in \<open>simp add: power2_eq_square\<close>)
qed simp

lemma tree_sqrt_law: "sqrt_law widget_tree"
proof -
  have "lv_sqrt widget_tree n = sqrt_from 65536 n 0" for n by (simp add: widget_tree_def)
  moreover have "(2::nat) ^ 32 \<le> (Suc 65536)\<^sup>2" by simp
  ultimately show ?thesis using sqrt_from [of 0 _ 65536] by (auto simp: sqrt_law_def dest: less_le_trans)
qed

lemma tree_map_law: "map_law widget_tree"
  by (simp add: map_law_def widget_tree_def)

end
