(* ===== verification/ViewModelRuns.thy ===== *)
theory ViewModelRuns
  imports ViewModelSpec LvglTree Reminders
begin

text \<open>
  The view in its runs: construction, any order of timer ticks, clicks, scrolling and work of LVGL in
  between, destruction. The properties hold in every state such a run reaches, for every LVGL that keeps to its
  documentation; \<open>LvglTree\<close> has one.
\<close>

section \<open>The other callbacks\<close>

lemma keeps_refl_trans: "keeps L w w"
  by (simp add: keeps_def same_obj_def same_place_def)

lemma scrollEventCallback_sim:
  assumes laws: "lvgl_laws L" and v: "lv_obj_is_valid L root w" and ch: "\<forall>b \<in> set (children L root w). lv_obj_is_valid L b w"
  shows "\<exists>w'. scrollEventCallback L root w = Some w' \<and> keeps L w w'"
proof -
  note law = laws_parts [OF laws]
  obtain ar h where ar: "lv_obj_get_coords L root w = Some ar" "lv_obj_get_height L root w = Some h"
    using query_lawsD(6,7) [OF law(1) v] by blast
  define body where "body = (\<lambda>i w. do {
       c \<leftarrow> lv_obj_get_child L root i w;
       child \<leftarrow> c;
       child_a \<leftarrow> lv_obj_get_coords L child w;
       let child_y_center = lv_coord (y1 child_a + tdiv (lv_area_get_height L child_a) 2);
       let diff_y = lv_coord (child_y_center - lv_coord (y1 ar + tdiv (lv_area_get_height L ar) 2));
       let diff_y = lv_coord \<bar>diff_y\<bar>;
       let x = x_on_circle (lv_sqrt L) (lv_coord (tdiv (h * 7) 10)) diff_y;
       w \<leftarrow> lv_obj_looks L child (Style_translate_x x) w;
       lv_obj_looks L child (Style_opa (item_opacity (lv_map L) (lv_coord (tdiv (h * 7) 10)) x)) w })"
  let ?n = "length (children L root w)"
  have "\<exists>w'. for_to ?n body w = Some w' \<and> keeps L w w'"
  proof (rule for_to_rule [where I = "\<lambda>_. keeps L w"])
    fix i w1 assume i: "i < ?n" and k: "keeps L w w1"
    let ?c = "children L root w ! i"
    have r: "lv_obj_is_valid L root w1" "children L root w1 = children L root w"
      using k v by (simp_all add: keeps_def same_obj_def same_place_def)
    have cv: "lv_obj_is_valid L ?c w1" using keeps_valid [OF k] ch i by simp
    have c: "lv_obj_get_child L root i w1 = Some (Some ?c)" using query_lawsD(4) [OF law(1) r(1)] r(2) i by simp
    obtain ca where ca: "lv_obj_get_coords L ?c w1 = Some ca" using query_lawsD(6) [OF law(1) cv] by blast
    let ?x = "x_on_circle (lv_sqrt L) (lv_coord (tdiv (h * 7) 10)) (lv_coord \<bar>lv_coord (lv_coord (y1 ca + tdiv (lv_area_get_height L ca) 2) -
      lv_coord (y1 ar + tdiv (lv_area_get_height L ar) 2))\<bar>)"
    obtain w2 where w2: "lv_obj_looks L ?c (Style_translate_x ?x) w1 = Some w2" "keeps L w1 w2"
      using update_lawsD(1) [OF law(2) cv] by blast
    obtain w3 where w3: "lv_obj_looks L ?c (Style_opa (item_opacity (lv_map L) (lv_coord (tdiv (h * 7) 10)) ?x)) w2 = Some w3" "keeps L w2 w3"
      using update_lawsD(1) [OF law(2) keeps_valid [OF w2(2) cv]] by blast
    have "body i w1 = Some w3" using c ca w2(1) w3(1) by (simp add: body_def Let_def)
    then show "\<exists>w'. body i w1 = Some w' \<and> keeps L w w'"
      using keeps_trans [OF k keeps_trans [OF w2(2) w3(2)]] by blast
  qed (rule keeps_refl_trans)
  then show ?thesis using ar query_lawsD(3) [OF law(1) v]
    by (simp add: scrollEventCallback_def body_def Let_def)
qed

lemma ui_models_keeps:
  assumes "keeps_screen L (widgets g) w" "ui_models L a g"
  shows "ui_models L a (g\<lparr>widgets := w\<rparr>)"
  using assms view_ok_keeps [OF assms(1)] by (simp add: ui_models_def label_agrees_def)

lemma ui_models_shown [simp]: "ui_models L a (g\<lparr>shown := e\<rparr>) = ui_models L a g"
  by (simp add: ui_models_def label_agrees_def)

lemma ui_models_scroll [simp]:
  "ui_models L a (g\<lparr>view := (view g)\<lparr>m_autoscrollChildrenIndex := i, m_scrollDirection := d\<rparr>\<rparr>) = ui_models L a g"
  by (simp add: ui_models_def label_agrees_def)

lemma ui_models_root:
  assumes "ui_models L a g"
  obtains root where "m_notificationsListRoot (view g) = Some root" "list_view L root (queue_ids a) (widgets g)"
    "\<And>l. m_emptyListLabel (view g) = Some l \<Longrightarrow> label_view L root l (widgets g)"
  using assms by (auto simp: ui_models_def view_ok_def)

lemma list_scrolled_sim:
  assumes laws: "lvgl_laws L" and m: "ui_models L a g"
  shows "\<exists>w. handle_event L List_scrolled g = Some (g\<lparr>widgets := w\<rparr>) \<and> ui_models L a (g\<lparr>widgets := w\<rparr>)"
proof -
  obtain root where r: "m_notificationsListRoot (view g) = Some root" "list_view L root (queue_ids a) (widgets g)"
    using m by (rule ui_models_root)
  have "lv_obj_is_valid L root (widgets g)" "\<forall>b \<in> set (children L root (widgets g)). lv_obj_is_valid L b (widgets g)"
    using r(2) by (auto simp: list_view_def)
  from scrollEventCallback_sim [OF laws this] obtain w where "scrollEventCallback L root (widgets g) = Some w" "keeps L (widgets g) w" by blast
  then show ?thesis using r(1) ui_models_keeps [OF keeps_keeps_screen m] by (auto simp: on_widgets_def)
qed

lemma button_sim:
  assumes laws: "lvgl_laws L" and m: "ui_models L a g" and p: "possible L (Button_event code b) g"
  shows "\<exists>g'. onNotificationButtonClicked L code b g = Some g' \<and> ui_models L a g' \<and> view g' = view g \<and>
    (shown g' = shown g \<or> (\<exists>x \<in> set (a_queue a). \<exists>n \<in> snd ` set (a_users a). shown g' = shown g @ [Message_box n (r_title x)]))"
proof (cases "code = LV_EVENT_CLICKED")
  case True
  obtain root where r: "m_notificationsListRoot (view g) = Some root" "list_view L root (queue_ids a) (widgets g)"
    using m by (rule ui_models_root)
  have mq: "models (queue_model g) a" using m by (simp add: ui_models_def)
  obtain i where i: "i < length (queue_ids a)" "b = children L root (widgets g) ! i"
    using p r list_view_length [OF r(2)] by (auto simp: in_set_conv_nth)
  define x where "x = a_queue a ! i"
  have x: "x \<in> set (a_queue a)" "queue_ids a ! i = r_id x" using i(1) by (simp_all add: x_def queue_ids_def)
  have d: "lv_obj_get_user_data L b (widgets g) = Some (Some (r_id x))" using list_view_data [OF r(2) i(1)] i(2) x(2) by simp
  obtain u where u: "get_notification_username (r_id x) (queue_model g) = Some u" "strings (queue_model g) u = map_of (a_users a) (r_owner x)"
    using get_notification_username_sim [OF mq x(1)] by blast
  obtain t where t: "get_notification_text (r_id x) (queue_model g) = Some t" "strings (queue_model g) t = Some (r_title x)"
    using get_notification_text_sim [OF mq x(1)] by blast
  have "r_owner x \<in> fst ` set (a_users a)" using awf_owner(1) [OF models_awf [OF mq] x(1)] by (simp add: user_ids_def)
  then obtain n where n: "map_of (a_users a) (r_owner x) = Some n" by (metis map_of_eq_None_iff not_None_eq)
  obtain w where w: "open_messagebox L n (r_title x) g = Some (g\<lparr>widgets := w, shown := shown g @ [Message_box n (r_title x)]\<rparr>)"
    "keeps_screen L (widgets g) w"
    using open_messagebox_sim [OF laws] by blast
  have "n \<in> snd ` set (a_users a)" using map_of_SomeD [OF n] by force
  then show ?thesis using True d u t n w(1) x(1) ui_models_keeps [OF w(2) m]
    by (auto simp: onNotificationButtonClicked_def createMessageboxForReminder_def)
qed (use m in \<open>simp add: onNotificationButtonClicked_def\<close>)

lemma messagebox_sim:
  assumes laws: "lvgl_laws L" and m: "ui_models L a g" and p: "possible L (Messagebox_clicked b) g"
  shows "\<exists>w. messageBoxDefaultCallback L b g = Some (g\<lparr>widgets := w\<rparr>) \<and> ui_models L a (g\<lparr>widgets := w\<rparr>)"
proof -
  obtain w where "lv_msgbox_close L b (widgets g) = Some w" "keeps_screen L (widgets g) w"
    using laws_parts(5) [OF laws] p unfolding messagebox_laws_def possible.simps by metis
  then show ?thesis using ui_models_keeps [of L g w a] m by (intro exI [of _ w]) (simp add: messageBoxDefaultCallback_def on_widgets_def)
qed

lemma autoscroll_sim:
  assumes laws: "lvgl_laws L" and m: "ui_models L a g"
  shows "\<exists>g'. slotAutoScrollTimerExpired L g = Some g' \<and> ui_models L a g' \<and> queue_model g' = queue_model g \<and>
    (let n = length (a_queue a); i = m_autoscrollChildrenIndex (view g); d = m_scrollDirection (view g) in
     if 1 < n \<and> i < n then shown g' = shown g @ [Scrolled_to i] \<and>
       (m_autoscrollChildrenIndex (view g'), m_scrollDirection (view g')) = autoscroll_advance n (i, d)
     else g' = g)"
proof -
  note law = laws_parts [OF laws]
  let ?n = "length (a_queue a)" and ?i = "m_autoscrollChildrenIndex (view g)" and ?d = "m_scrollDirection (view g)"
  obtain root where r: "m_notificationsListRoot (view g) = Some root" "list_view L root (queue_ids a) (widgets g)"
    using m by (rule ui_models_root)
  have mq: "models (queue_model g) a" using m by (simp add: ui_models_def)
  note q = is_notifications_list_empty_sim [OF mq] get_notifications_total_count_sim [OF mq]
  show ?thesis
  proof (cases "1 < ?n \<and> ?i < ?n")
    case True
    have len: "length (children L root (widgets g)) = ?n" using list_view_length [OF r(2)] by (simp add: queue_ids_def)
    let ?c = "children L root (widgets g) ! ?i"
    have v: "lv_obj_is_valid L root (widgets g)" "lv_obj_is_valid L ?c (widgets g)" using r(2) len True by (auto simp: list_view_def)
    obtain w where w: "lv_obj_scroll_to_view L ?c True (widgets g) = Some w" "keeps L (widgets g) w"
      using update_lawsD(4) [OF law(2) v(2)] by blast
    obtain j d' where jd: "autoscroll_advance ?n (?i, ?d) = (j, d')" by force
    have ne: "a_queue a \<noteq> []" using True by auto
    let ?g = "g\<lparr>widgets := w, shown := shown g @ [Scrolled_to ?i], view := (view g)\<lparr>m_autoscrollChildrenIndex := j, m_scrollDirection := d'\<rparr>\<rparr>"
    have "slotAutoScrollTimerExpired L g = Some ?g"
      using True ne r(1) q w(1) jd query_lawsD(4) [OF law(1) v(1), of ?i] len
      by (simp add: slotAutoScrollTimerExpired_def on_widgets_def Let_def)
    moreover have "ui_models L a ?g" using ui_models_keeps [OF keeps_keeps_screen [OF w(2)] m]
      by (simp add: ui_models_def label_agrees_def view_ok_def)
    ultimately show ?thesis using True jd by (intro exI [of _ ?g]) (simp add: Let_def)
  next
    case False
    then have "slotAutoScrollTimerExpired L g = Some g" using r(1) q by (auto simp: slotAutoScrollTimerExpired_def Let_def)
    then show ?thesis using m False by (auto simp: Let_def)
  qed
qed


section \<open>Construction\<close>

text \<open>The reminders the application starts with, as calls of the module, and their times.\<close>

definition setup_ops :: "client_op list" where
  "setup_ops = [Add_user ''Valenti'', Add_user ''Void'', Add_user ''Alex'', Add_user ''Valenti'', Add_user ''Void'', Add_user ''Alex'',
     Add_reminder ''Valenti'' ''Buy a new phone!'' 15, Add_reminder ''Valenti'' ''Check the post office!'' 20,
     Add_reminder ''Valenti'' ''Check cat's food '' 25, Add_reminder ''Void'' ''Physical activity!'' 30,
     Add_reminder ''Alex'' ''Don't forget the meeting'' 35, Add_reminder ''Alex'' ''Yoga practice'' 40]"

definition schedule :: "(string \<times> int) list" where
  "schedule = [(''Buy a new phone!'', 15), (''Check the post office!'', 20), (''Check cat's food '', 25),
     (''Physical activity!'', 30), (''Don't forget the meeting'', 35), (''Yoga practice'', 40)]"

lemma exec_all_fun: "exec_all (op # ops) = (\<lambda>s. exec op s \<bind> exec_all ops)" "exec_all [] = Some"
  by (rule ext, simp)+

lemma createSimpleNotificationsModel_exec: "createSimpleNotificationsModel s = exec_all setup_ops s"
  by (simp add: createSimpleNotificationsModel_def setup_ops_def Let_def exec_all_fun del: exec_all.simps)

fun adds :: "client_op \<Rightarrow> bool" where
  "adds (Add_user n) = True"
| "adds (Add_reminder n t k) = (1 \<le> k \<and> in_int k)"
| "adds _ = False"

lemma exec_all_adds_sim:
  assumes "models s a" "queue_inv a" "list_all adds ops"
  shows "\<exists>s' a'. exec_all ops s = Some s' \<and> models s' a' \<and> queue_inv a' \<and>
    snd ` set (a_users a') \<subseteq> snd ` set (a_users a) \<union> {n. Add_user n \<in> set ops}"
  using assms
proof (induction ops arbitrary: s a)
  case (Cons op ops)
  have ok: "client_ok op s" using Cons.prems(3) by (cases op) auto
  let ?a = "a_exec (alloc2 s) (brk s) op a"
  obtain s1 where s1: "exec op s = Some s1" "models s1 ?a" using exec_sim [OF Cons.prems(1,2) ok] by blast
  have "queue_inv ?a" using Cons.prems by (intro queue_inv_exec) auto
  from Cons.IH [OF s1(2) this] Cons.prems(3) obtain s' a' where *: "exec_all ops s1 = Some s'" "models s' a'" "queue_inv a'"
    "snd ` set (a_users a') \<subseteq> snd ` set (a_users ?a) \<union> {n. Add_user n \<in> set ops}" by auto
  have "snd ` set (a_users ?a) \<subseteq> snd ` set (a_users a) \<union> {n. Add_user n = op}"
    using Cons.prems(3) by (cases op) (auto simp: a_add_user_def a_add_reminder_def split: option.splits if_splits)
  with * s1(1) show ?case by (intro exI [of _ s'] exI [of _ a']) auto
qed auto

lemma setup_sim:
  "\<exists>s a. createSimpleNotificationsModel (init_state\<lparr>oom := bs\<rparr>) = Some s \<and> models s a \<and> queue_inv a \<and>
    ''!REMINDER!'' \<notin> snd ` set (a_users a)"
proof -
  have "queue_inv empty_spec" by (simp add: queue_inv_def empty_spec_def)
  moreover have "list_all adds setup_ops" by (simp add: setup_ops_def in_int_def)
  ultimately obtain s a where s: "exec_all setup_ops (init_state\<lparr>oom := bs\<rparr>) = Some s" "models s a" "queue_inv a"
    "snd ` set (a_users a) \<subseteq> snd ` set (a_users empty_spec) \<union> {n. Add_user n \<in> set setup_ops}"
    using exec_all_adds_sim [OF models_oom [OF init_models]] by blast
  moreover have "Add_user ''!REMINDER!'' \<notin> set setup_ops" by (simp add: setup_ops_def)
  ultimately show ?thesis by (auto simp: createSimpleNotificationsModel_exec empty_spec_def)
qed

lemma for_each_notification_sim:
  assumes laws: "lvgl_laws L" and m: "models (queue_model g) a" and root: "m_notificationsListRoot (view g) = Some root"
    and l: "list_view L root [] (widgets g)"
  shows "\<exists>w. for_each_notification (createNotification L) g = Some (g\<lparr>widgets := w\<rparr>) \<and> list_view L root (queue_ids a) w"
proof -
  let ?body = "\<lambda>pos g. do { r \<leftarrow> reminder_of_list pos; g \<leftarrow> createNotification L r g; Some (Next g) }"
  let ?I = "\<lambda>(t::node list) g1. \<exists>pre post w. a_queue a = pre @ post \<and> t = map RemNode (map r_id post) \<and>
      g1 = g\<lparr>widgets := w\<rparr> \<and> list_view L root (map r_id pre) w"
  note dl = models_lists(2) [OF m]
  have "\<exists>g1. list_for_each (\<lambda>g. next_in (queue_model g)) ?body (Ptr RemindersList) g = Some (False, Ptr RemindersList, g1) \<and> ?I [] g1"
  proof (rule list_for_each_all [where I = ?I and xs = "map RemNode (queue_ids a)"])
    fix y t g1 assume "?I (y # t) g1"
    then obtain pre x post w where p: "a_queue a = pre @ x # post" "y = RemNode (r_id x)" "t = map RemNode (map r_id post)"
      "g1 = g\<lparr>widgets := w\<rparr>" "list_view L root (map r_id pre) w"
      by (auto simp: Cons_eq_map_conv map_eq_Cons_conv)
    obtain u n where u: "get_notification_username (r_id x) (queue_model g) = Some u" "strings (queue_model g) u = Some n"
    proof -
      have x: "x \<in> set (a_queue a)" using p(1) by simp
      have "r_owner x \<in> fst ` set (a_users a)" using awf_owner(1) [OF models_awf [OF m] x] by (simp add: user_ids_def)
      then obtain n where "map_of (a_users a) (r_owner x) = Some n" by (metis map_of_eq_None_iff not_None_eq)
      with get_notification_username_sim [OF m x] that show thesis by auto
    qed
    obtain w2 where w2: "createNotification L (r_id x) g1 = Some (g\<lparr>widgets := w2\<rparr>)" "list_view L root (map r_id pre @ [r_id x]) w2"
      using createNotification_sim [OF laws, of root "map r_id pre" g1 "r_id x" u n] p(4,5) root u by auto
    have "next_in (queue_model g) (Ptr y) = Some (first_ptr RemindersList t)"
      using dl p by (auto simp: heap_simps queue_ids_def intro: dlist_next [of _ _ "map RemNode (map r_id pre)"])
    moreover have "?I t (g\<lparr>widgets := w2\<rparr>)"
      using p(1,3) w2(2) by (intro exI [of _ "pre @ [x]"] exI [of _ post] exI [of _ w2]) simp
    ultimately show "y \<noteq> RemindersList \<and> (\<exists>g'. ?body (Ptr y) g1 = Some (Next g') \<and>
        next_in (queue_model g') (Ptr y) = Some (first_ptr RemindersList t) \<and> ?I t g')"
      using p(2) w2(1) by (intro conjI exI [of _ "g\<lparr>widgets := w2\<rparr>"]) auto
  next
    show "?I (map RemNode (queue_ids a)) g"
      using l by (intro exI [of _ "[]"] exI [of _ "a_queue a"] exI [of _ "widgets g"]) (simp add: queue_ids_def)
    show "next_in (queue_model g) (Ptr RemindersList) = Some (first_ptr RemindersList (map RemNode (queue_ids a)))"
      using dlist_first [OF dl] by (simp add: heap_simps)
  qed
  then show ?thesis by (auto simp: for_each_notification_def queue_ids_def)
qed

lemma looks_all:
  assumes "update_laws L" "lv_obj_is_valid L x w"
  shows "\<exists>w'. for_list (lv_obj_looks L x) ks w = Some w' \<and> keeps L w w'"
  using assms(2)
proof (induction ks arbitrary: w)
  case (Cons k ks)
  obtain w1 where w1: "lv_obj_looks L x k w = Some w1" "keeps L w w1" using update_lawsD(1) [OF assms(1) Cons.prems] by blast
  with Cons.IH [OF keeps_valid [OF w1(2) Cons.prems]] keeps_trans [OF w1(2)] show ?case by auto
qed (simp add: keeps_refl_trans)


text \<open>
  The constructor needs a reminder in the queue, whose button it scrolls to; with one, it puts
  up the list and runs to its end.
\<close>

lemma constructor_sim:
  assumes laws: "lvgl_laws L" and s: "createSimpleNotificationsModel (queue_model g0) = Some s" and m: "models s a"
  shows "a_queue a \<noteq> [] \<Longrightarrow> \<exists>g. RemindersViewModel L g0 = Some g \<and> ui_models L a g \<and> shown g = shown g0 \<and>
      m_autoscrollChildrenIndex (view g) = 0 \<and> m_scrollDirection (view g) = Forward"
    "a_queue a = [] \<Longrightarrow> RemindersViewModel L g0 = None"
proof -
  note law = laws_parts [OF laws]
  let ?w0 = "widgets g0"
  obtain root w1 where w1: "lv_obj_create L (lv_scr_act L ?w0) ?w0 = Some (root, w1)" "created L (lv_scr_act L ?w0) root ?w0 w1"
    using law(3) query_lawsD(1) [OF law(1)] unfolding creation_laws_def by blast
  have ne: "root \<noteq> lv_scr_act L w1"
    using w1(2) query_lawsD(1) [OF law(1), of ?w0] by (auto simp: created_def)
  have l1: "list_view L root [] w1" using w1(2) ne by (simp add: list_view_def created_def)
  have v1: "lv_obj_is_valid L root w1" using l1 by (simp add: list_view_def)
  obtain w2 where w2: "for_list (lv_obj_looks L root) size_looks w1 = Some w2" "keeps L w1 w2"
    using looks_all [OF law(2) v1] by blast
  note v2 = keeps_valid [OF w2(2) v1]
  obtain w3 where w3: "lv_obj_add_event_cb L root On_scroll LV_EVENT_SCROLL w2 = Some w3" "keeps L w2 w3"
    using update_lawsD(3) [OF law(2) v2] by blast
  note v3 = keeps_valid [OF w3(2) v2]
  obtain w4 where w4: "for_list (lv_obj_looks L root) list_looks w3 = Some w4" "keeps L w3 w4"
    using looks_all [OF law(2) v3] by blast
  have l4: "list_view L root [] w4"
    using list_view_keeps [OF keeps_keeps_screen [OF keeps_trans [OF w2(2) keeps_trans [OF w3(2) w4(2)]]] l1] .
  let ?v = "\<lparr>m_autoscrollChildrenIndex = 0, m_scrollDirection = Forward, m_notificationsListRoot = Some root,
    m_emptyListLabel = None, m_scrollNotificationsTimer = None, m_notificationsTimer = None\<rparr>"
  let ?g4 = "g0\<lparr>queue_model := s, view := ?v, widgets := w4\<rparr>"
  obtain w5 where w5: "for_each_notification (createNotification L) ?g4 = Some (?g4\<lparr>widgets := w5\<rparr>)" "list_view L root (queue_ids a) w5"
    using for_each_notification_sim [OF laws, of ?g4 a root] m l4 by auto
  have "lv_obj_is_valid L root w5" "\<forall>b \<in> set (children L root w5). lv_obj_is_valid L b w5" using w5(2) by (auto simp: list_view_def)
  from scrollEventCallback_sim [OF laws this] obtain w6 where w6: "scrollEventCallback L root w5 = Some w6" "keeps L w5 w6" by blast
  note l6 = list_view_keeps [OF keeps_keeps_screen [OF w6(2)] w5(2)]
  have v6: "lv_obj_is_valid L root w6" using l6 by (simp add: list_view_def)
  have first: "lv_obj_get_child L root 0 w6 = Some (if a_queue a = [] then None else Some (children L root w6 ! 0))"
    using query_lawsD(4) [OF law(1) v6, of 0] list_view_length [OF l6] by (auto simp: queue_ids_def)
  note prefix = w1(1) w2(1) w3(1) w4(1) w5(1) w6(1)
  show "a_queue a = [] \<Longrightarrow> RemindersViewModel L g0 = None"
    using s prefix first by (simp add: RemindersViewModel_def on_model_def on_widgets_def)
  assume q: "a_queue a \<noteq> []"
  let ?c = "children L root w6 ! 0"
  have "lv_obj_is_valid L ?c w6" using l6 q list_view_length [OF l6] by (auto simp: list_view_def queue_ids_def)
  then obtain w7 where w7: "lv_obj_scroll_to_view L ?c False w6 = Some w7" "keeps L w6 w7"
    using update_lawsD(4) [OF law(2)] by blast
  obtain t1 w8 where w8: "lv_timer_create L Autoscroll_timer 1500 w7 = Some (t1, w8)" "keeps L w7 w8"
    using law(6) unfolding timer_laws_def by blast
  obtain t2 w9 where w9: "lv_timer_create L Notification_timer 1000 w8 = Some (t2, w9)" "keeps L w8 w9"
    using law(6) unfolding timer_laws_def by blast
  have l9: "list_view L root (queue_ids a) w9"
    using list_view_keeps [OF keeps_keeps_screen [OF keeps_trans [OF w7(2) keeps_trans [OF w8(2) w9(2)]]] l6] .
  let ?g = "?g4\<lparr>queue_model := set_notification_is_about_to_remove_callback True s, widgets := w9,
    view := ?v\<lparr>m_scrollNotificationsTimer := Some t1, m_notificationsTimer := Some t2\<rparr>\<rparr>"
  have "RemindersViewModel L g0 = Some ?g"
    using s prefix first q w7(1) w8(1) w9(1) by (simp add: RemindersViewModel_def on_model_def on_widgets_def start_timer_def)
  moreover have "ui_models L a ?g"
    using m l9 q by (simp add: ui_models_def view_ok_def label_agrees_def set_notification_is_about_to_remove_callback_def models_def)
  ultimately show "\<exists>g. RemindersViewModel L g0 = Some g \<and> ui_models L a g \<and> shown g = shown g0 \<and>
      m_autoscrollChildrenIndex (view g) = 0 \<and> m_scrollDirection (view g) = Forward"
    by (intro exI [of _ ?g]) simp
qed

section \<open>The invariant\<close>

definition ui_inv :: "'w lvgl \<Rightarrow> aspec \<Rightarrow> 'w ui \<Rightarrow> bool" where
  "ui_inv L a g \<longleftrightarrow> ui_models L a g \<and> queue_inv a"

definition reminder_box :: "shown_item \<Rightarrow> bool" where
  "reminder_box e = (case e of Message_box title _ \<Rightarrow> title = ''!REMINDER!'' | _ \<Rightarrow> False)"

text \<open>Only a tick changes the queue and shows reminder boxes; the other events show what they show.\<close>

lemma handle_event_sim:
  assumes laws: "lvgl_laws L" and i: "ui_inv L a g" and p: "possible L e g" and n: "''!REMINDER!'' \<notin> snd ` set (a_users a)"
  shows "\<exists>g'. handle_event L e g = Some g' \<and> ui_inv L (if e = Notification_tick then a_tick a else a) g' \<and>
    filter reminder_box (shown g') = filter reminder_box (shown g) @ (if e = Notification_tick then reminder_boxes (a_queue a) else [])"
proof (cases e)
  case Notification_tick
  have "\<forall>x \<in> set (a_queue a). in_int (r_time x - 1)" using i by (auto simp: ui_inv_def queue_inv_def in_int_def)
  moreover have "filter reminder_box (tick_shows q []) = reminder_boxes q" for q
    by (auto simp: tick_shows_def reminder_boxes_def empty_notice_def reminder_box_def)
  ultimately show ?thesis using slotNotificationTimerTick_sim [OF laws, of a g] i queue_inv_tick
    by (auto simp: Notification_tick ui_inv_def)
next
  case Autoscroll_tick
  from autoscroll_sim [OF laws, of a g] i obtain g' where "slotAutoScrollTimerExpired L g = Some g'" "ui_models L a g'"
    "shown g' = shown g @ [Scrolled_to (m_autoscrollChildrenIndex (view g))] \<or> shown g' = shown g"
    by (auto simp: ui_inv_def Let_def split: if_splits)
  then show ?thesis using i by (auto simp: Autoscroll_tick ui_inv_def reminder_box_def)
next
  case (Button_event code b)
  have m: "ui_models L a g" "possible L (Button_event code b) g" using i p Button_event by (simp_all add: ui_inv_def)
  from button_sim [OF laws m] obtain g' where g': "onNotificationButtonClicked L code b g = Some g'" "ui_models L a g'"
    "shown g' = shown g \<or> (\<exists>x \<in> set (a_queue a). \<exists>n \<in> snd ` set (a_users a). shown g' = shown g @ [Message_box n (r_title x)])" by blast
  have "filter reminder_box (shown g') = filter reminder_box (shown g)"
    using g'(3) n by (auto simp: reminder_box_def image_iff)
  then show ?thesis using g'(1,2) i Button_event by (simp add: ui_inv_def)
next
  case (Messagebox_clicked b)
  from messagebox_sim [OF laws, of a g b] i p show ?thesis by (auto simp: Messagebox_clicked ui_inv_def)
next
  case List_scrolled
  from list_scrolled_sim [OF laws, of a g] i show ?thesis by (auto simp: List_scrolled ui_inv_def)
qed

lemma idle_sim:
  assumes m: "ui_models L a g" and i: "lvgl_idle L g w"
  shows "ui_models L a (g\<lparr>widgets := w\<rparr>)"
proof -
  obtain root where r: "m_notificationsListRoot (view g) = Some root" "list_view L root (queue_ids a) (widgets g)"
    "\<And>l. m_emptyListLabel (view g) = Some l \<Longrightarrow> label_view L root l (widgets g)"
    using m unfolding ui_models_def view_ok_def by blast
  have s: "lv_scr_act L w = lv_scr_act L (widgets g)" using i by (simp add: lvgl_idle_def)
  have "list_view L root (queue_ids a) w"
    using i r(1) by (intro list_view_same [OF s _ r(2)]) (auto simp: lvgl_idle_def owned_def)
  moreover have "label_view L root l w" if "m_emptyListLabel (view g) = Some l" for l
    using i that by (intro label_view_same [OF s _ r(3) [OF that]]) (auto simp: lvgl_idle_def owned_def)
  ultimately show ?thesis using m r(1) by (simp add: ui_models_def view_ok_def label_agrees_def)
qed


text \<open>Runs with the number of ticks so far.\<close>

inductive ui_run :: "'w lvgl \<Rightarrow> nat \<Rightarrow> 'w ui \<Rightarrow> bool" for L where
  run_start: "queue_model g0 = init_state \<Longrightarrow> shown g0 = [] \<Longrightarrow> RemindersViewModel L g0 = Some g \<Longrightarrow> ui_run L 0 g"
| run_event: "ui_run L n g \<Longrightarrow> possible L e g \<Longrightarrow> handle_event L e g = Some g' \<Longrightarrow>
    ui_run L (if e = Notification_tick then Suc n else n) g'"
| run_idle: "ui_run L n g \<Longrightarrow> lvgl_idle L g w \<Longrightarrow> ui_run L n (g\<lparr>widgets := w\<rparr>)"

lemma ui_reachable_inv:
  assumes "ui_reachable L g" "lvgl_laws L"
  shows "\<exists>a. ui_inv L a g \<and> ''!REMINDER!'' \<notin> snd ` set (a_users a)"
  using assms(1)
proof induction
  case (started g0 bs g)
  obtain s a where s: "createSimpleNotificationsModel (queue_model g0) = Some s" "models s a" "queue_inv a" "''!REMINDER!'' \<notin> snd ` set (a_users a)"
    using setup_sim [of bs] started.hyps(1) by auto
  from constructor_sim [OF assms(2) s(1,2)] started.hyps(2) s(3,4) show ?case by (cases "a_queue a = []") (auto simp: ui_inv_def)
next
  case (event g e g')
  then obtain a where a: "ui_inv L a g" "''!REMINDER!'' \<notin> snd ` set (a_users a)" by blast
  let ?b = "if e = Notification_tick then a_tick a else a"
  have "''!REMINDER!'' \<notin> snd ` set (a_users ?b)" using a(2) by (simp add: a_tick_def a_tick_upto_def)
  moreover have "ui_inv L ?b g'" using handle_event_sim [OF assms(2) a(1) event.hyps(2) a(2)] event.hyps(3) by auto
  ultimately show ?case by blast
next
  case (idle g w)
  then obtain a where a: "ui_inv L a g" "''!REMINDER!'' \<notin> snd ` set (a_users a)" by blast
  with idle_sim [OF _ idle.hyps(2), of a] show ?case by (auto simp: ui_inv_def)
qed

section \<open>What is in the queue\<close>

text \<open>The queue read from the heap: each reminder with its title and the time left.\<close>

definition queue_contents :: "rstate \<Rightarrow> (nat \<times> string \<times> int) list option" where
  "queue_contents s = do {
     (b, p, xs) \<leftarrow> list_for_each (\<lambda>_. next_in s)
       (\<lambda>pos xs. do {
          r \<leftarrow> reminder_of_list pos;
          R \<leftarrow> reminders s r;
          t \<leftarrow> strings s (notification_text R);
          Some (Next (xs @ [(r, t, ellapse_time R)])) })
       (Ptr RemindersList) [];
     Some xs }"

lemma queue_contents_models:
  assumes m: "models s a"
  shows "queue_contents s = Some (map (\<lambda>x. (r_id x, r_title x, r_time x)) (a_queue a))"
proof -
  let ?body = "\<lambda>pos xs. do {
          r \<leftarrow> reminder_of_list pos;
          R \<leftarrow> reminders s r;
          t \<leftarrow> strings s (notification_text R);
          Some (Next (xs @ [(r, t, ellapse_time R)])) }"
  let ?I = "\<lambda>(t::node list) xs. \<exists>pre post. a_queue a = pre @ post \<and> t = map RemNode (map r_id post) \<and>
      xs = map (\<lambda>x. (r_id x, r_title x, r_time x)) pre"
  note dl = models_lists(2) [OF m]
  have "\<exists>xs. list_for_each (\<lambda>_. next_in s) ?body (Ptr RemindersList) [] = Some (False, Ptr RemindersList, xs) \<and> ?I [] xs"
  proof (rule list_for_each_all [where I = ?I and xs = "map RemNode (queue_ids a)"])
    fix y t xs assume "?I (y # t) xs"
    then obtain pre x post where p: "a_queue a = pre @ x # post" "y = RemNode (r_id x)" "t = map RemNode (map r_id post)"
      "xs = map (\<lambda>x. (r_id x, r_title x, r_time x)) pre"
      by (auto simp: Cons_eq_map_conv map_eq_Cons_conv)
    have x: "x \<in> set (a_queue a)" using p(1) by simp
    have "next_in s (Ptr y) = Some (first_ptr RemindersList t)"
      using dl p by (auto simp: heap_simps queue_ids_def intro: dlist_next [of _ _ "map RemNode (map r_id pre)"])
    moreover have "?I t (xs @ [(r_id x, r_title x, r_time x)])"
      using p by (intro exI [of _ "pre @ [x]"] exI [of _ post]) simp
    ultimately show "y \<noteq> RemindersList \<and> (\<exists>xs'. ?body (Ptr y) xs = Some (Next xs') \<and>
        next_in s (Ptr y) = Some (first_ptr RemindersList t) \<and> ?I t xs')"
      using p(2) models_reminder [OF m x] by (auto simp: reminder_object_def)
  next
    show "?I (map RemNode (queue_ids a)) []" by (intro exI [of _ "[]"] exI [of _ "a_queue a"]) (simp add: queue_ids_def)
    show "next_in s (Ptr RemindersList) = Some (first_ptr RemindersList (map RemNode (queue_ids a)))"
      using dlist_first [OF dl] by (simp add: heap_simps)
  qed
  then show ?thesis by (auto simp: queue_contents_def)
qed

text \<open>With enough memory the reminders are all there.\<close>

lemma insert_reminder_oom:
  assumes "insert_reminder_entry_to_global_list r s = Some s'" "oom s = []"
  shows "oom s' = []"
proof -
  let ?body = "\<lambda>ptr s. do {
          entry \<leftarrow> reminder_of_list ptr;
          E \<leftarrow> reminders s entry;
          N \<leftarrow> reminders s r;
          if ellapse_time E > ellapse_time N then do {
            s \<leftarrow> on_nodes (\<lambda>h. list_add_tail h (Ptr (RemNode r)) ptr) s;
            Some (Break s) }
          else Some (Next s) }"
  obtain b p s1 where loop: "list_for_each next_in ?body (Ptr RemindersList) s = Some (b, p, s1)"
    "(if b then Some s1 else on_nodes (\<lambda>h. list_add_tail h (Ptr (RemNode r)) (Ptr RemindersList)) s1) = Some s'"
    using assms(1) by (auto simp: insert_reminder_entry_to_global_list_def bind_eq_Some_conv)
  have "\<exists>t'. list_for_each next_in ?body (Ptr RemindersList) s = Some (b, p, t') \<and> s1 = t' \<and> oom s1 = []"
  proof (rule list_for_each_same [OF loop(1), where R = "\<lambda>s t. s = t \<and> oom s = []"])
    fix p s t c assume st: "s = t \<and> oom s = []" and c: "?body p s = Some c"
    then have "same_ctl (\<lambda>s t. s = t \<and> oom s = []) c c"
      by (auto simp: bind_eq_Some_conv on_nodes_def split: if_splits)
    with st c show "\<exists>c'. ?body p t = Some c' \<and> same_ctl (\<lambda>s t. s = t \<and> oom s = []) c c'" by blast
  qed (use assms(2) in auto)
  then show ?thesis using loop(2) by (auto simp: on_nodes_def bind_eq_Some_conv split: if_splits)
qed

lemma malloc_enough: "oom s = [] \<Longrightarrow> malloc s = (Some (brk s), s\<lparr>brk := Suc (brk s), oom := []\<rparr>)"
  by (simp add: malloc_def)

lemma exec_adds_oom:
  assumes "exec op s = Some s'" "adds op" "oom s = []"
  shows "oom s' = []"
proof (cases op)
  case (Add_user n)
  with assms show ?thesis
    by (auto simp: add_new_user_def malloc_enough new_user_object_def on_nodes_def bind_eq_Some_conv split: if_splits)
next
  case (Add_reminder n t k)
  with assms show ?thesis
    by (auto simp: add_user_reminder_def malloc_enough new_reminder_object_def on_nodes_def set_reminder_def bind_eq_Some_conv
        dest!: insert_reminder_oom split: option.splits)
qed (use assms(2) in auto)

fun a_exec_all :: "nat list \<Rightarrow> client_op list \<Rightarrow> aspec \<Rightarrow> aspec" where
  "a_exec_all (i # is) (op # ops) a = a_exec_all is ops (a_exec True i op a)"
| "a_exec_all _ _ a = a"

lemma exec_all_enough_memory:
  assumes "models s a" "queue_inv a" "list_all adds ops" "oom s = []"
  shows "\<exists>ids s'. length ids = length ops \<and> exec_all ops s = Some s' \<and> models s' (a_exec_all ids ops a)"
  using assms
proof (induction ops arbitrary: s a)
  case (Cons op ops)
  have ok: "client_ok op s" using Cons.prems(3) by (cases op) auto
  have al: "alloc2 s" using Cons.prems(4) by (simp add: alloc2_def)
  let ?a = "a_exec True (brk s) op a"
  obtain s1 where s1: "exec op s = Some s1" "models s1 ?a" using exec_sim [OF Cons.prems(1,2) ok] al by auto
  have "queue_inv ?a" using Cons.prems by (intro queue_inv_exec) auto
  moreover have "oom s1 = []" using exec_adds_oom [OF s1(1)] Cons.prems(3,4) by simp
  ultimately obtain ids s' where "length ids = length ops" "exec_all ops s1 = Some s'" "models s' (a_exec_all ids ops ?a)"
    using Cons.IH [OF s1(2)] Cons.prems(3) by auto
  with s1(1) show ?case by (intro exI [of _ "brk s # ids"] exI [of _ s']) simp
qed auto

lemma a_queue_adds:
  "a_queue (a_add_user i n a) = a_queue a"
  "a_queue (a_add_reminder i u t k a) = a_insert \<lparr>r_id = i, r_title = t, r_owner = u, r_time = k\<rparr> (a_queue a)"
  "a_users (a_add_user i n a) = a_users a @ [(i, n)]" "a_users (a_add_reminder i u t k a) = a_users a"
  by (simp_all add: a_add_user_def a_add_reminder_def)

lemma setup_abstract:
  assumes "length ids = length setup_ops"
  shows "map (\<lambda>x. (r_title x, r_time x)) (a_queue (a_exec_all ids setup_ops empty_spec)) = schedule"
proof -
  obtain i1 i2 i3 i4 i5 i6 i7 i8 i9 i10 i11 i12 where "ids = [i1, i2, i3, i4, i5, i6, i7, i8, i9, i10, i11, i12]"
    using assms by (auto simp: setup_ops_def length_Suc_conv numeral_eq_Suc)
  then show ?thesis
    by (simp add: setup_ops_def schedule_def a_find_def a_queue_adds empty_spec_def a_insert_def)
qed

lemma setup_schedule:
  "\<exists>s a. createSimpleNotificationsModel init_state = Some s \<and> models s a \<and> queue_inv a \<and>
    ''!REMINDER!'' \<notin> snd ` set (a_users a) \<and> map (\<lambda>x. (r_title x, r_time x)) (a_queue a) = schedule"
proof -
  have o: "oom init_state = []" by (simp add: init_state_def)
  have "init_state\<lparr>oom := []\<rparr> = init_state" by (simp add: init_state_def)
  with setup_sim [of "[]"] obtain s a where s: "createSimpleNotificationsModel init_state = Some s" "models s a" "queue_inv a"
    "''!REMINDER!'' \<notin> snd ` set (a_users a)" by auto
  have "queue_inv empty_spec" "list_all adds setup_ops" by (simp_all add: queue_inv_def empty_spec_def setup_ops_def in_int_def)
  from exec_all_enough_memory [OF init_models this o] s(1) obtain ids where
    ids: "length ids = length setup_ops" "models s (a_exec_all ids setup_ops empty_spec)"
    by (auto simp: createSimpleNotificationsModel_exec)
  have "map (\<lambda>x. (r_id x, r_title x, r_time x)) (a_queue a) =
      map (\<lambda>x. (r_id x, r_title x, r_time x)) (a_queue (a_exec_all ids setup_ops empty_spec))"
    using queue_contents_models [OF s(2)] queue_contents_models [OF ids(2)] by simp
  from arg_cong [where f = "map snd", OF this]
  have "map (\<lambda>x. (r_title x, r_time x)) (a_queue a) = map (\<lambda>x. (r_title x, r_time x)) (a_queue (a_exec_all ids setup_ops empty_spec))"
    unfolding map_map comp_def by simp
  with setup_abstract [OF ids(1)] s show ?thesis by auto
qed


section \<open>Reminders by the tick\<close>

definition left_after :: "nat \<Rightarrow> (string \<times> int) list \<Rightarrow> (string \<times> int) list" where
  "left_after n S = map (\<lambda>(t, k). (t, k - int n)) (filter (\<lambda>(t, k). int n < k) S)"

definition shown_by :: "nat \<Rightarrow> (string \<times> int) list \<Rightarrow> shown_item list" where
  "shown_by n S = map (\<lambda>(t, k). Message_box ''!REMINDER!'' t) (filter (\<lambda>(t, k). k \<le> int n) S)"

lemma left_after_Suc: "map (\<lambda>(t, k). (t, k - 1)) (filter (\<lambda>(t, k). k \<noteq> 1) (left_after n S)) = left_after (Suc n) S"
  by (induction S) (auto simp: left_after_def)

lemma shown_by_Suc:
  assumes "sorted (map snd S)"
  shows "shown_by n S @ map (\<lambda>(t, k). Message_box ''!REMINDER!'' t) (filter (\<lambda>(t, k). k = 1) (left_after n S)) = shown_by (Suc n) S"
  using assms
proof (induction S)
  case (Cons x S)
  obtain t k where x: "x = (t, k)" by force
  show ?case
  proof (cases "k \<le> int n")
    case False
    with Cons.prems x have "filter (\<lambda>(t, k). k \<le> int n) S = []" by (auto simp: filter_empty_conv)
    then show ?thesis using Cons False x by (auto simp: shown_by_def left_after_def)
  qed (use Cons x in \<open>auto simp: shown_by_def left_after_def\<close>)
qed (simp add: shown_by_def left_after_def)

lemma tick_queue_pairs: "map (\<lambda>x. (r_title x, r_time x)) (tick_queue q) =
    map (\<lambda>(t, k). (t, k - 1)) (filter (\<lambda>(t, k). k \<noteq> 1) (map (\<lambda>x. (r_title x, r_time x)) q))"
  by (induction q) (auto simp: tick_queue_def)

lemma reminder_boxes_pairs: "reminder_boxes q =
    map (\<lambda>(t, k). Message_box ''!REMINDER!'' t) (filter (\<lambda>(t, k). k = 1) (map (\<lambda>x. (r_title x, r_time x)) q))"
  by (induction q) (auto simp: reminder_boxes_def tick_expired_def)

definition run_state :: "'w lvgl \<Rightarrow> nat \<Rightarrow> 'w ui \<Rightarrow> aspec \<Rightarrow> bool" where
  "run_state L n g a \<longleftrightarrow> ui_inv L a g \<and> ''!REMINDER!'' \<notin> snd ` set (a_users a) \<and>
     map (\<lambda>x. (r_title x, r_time x)) (a_queue a) = left_after n schedule \<and> filter reminder_box (shown g) = shown_by n schedule"

lemma run_state_event:
  assumes laws: "lvgl_laws L" and i: "run_state L n g a" and p: "possible L e g"
  shows "\<exists>g' a'. handle_event L e g = Some g' \<and> run_state L (if e = Notification_tick then Suc n else n) g' a'"
proof -
  let ?a = "if e = Notification_tick then a_tick a else a"
  obtain g' where g': "handle_event L e g = Some g'" "ui_inv L ?a g'"
    "filter reminder_box (shown g') = filter reminder_box (shown g) @ (if e = Notification_tick then reminder_boxes (a_queue a) else [])"
    using handle_event_sim [OF laws _ p, of a] i by (auto simp: run_state_def)
  have s: "sorted (map snd schedule)" by (simp add: schedule_def)
  have "run_state L (if e = Notification_tick then Suc n else n) g' ?a"
  proof (cases "e = Notification_tick")
    case True
    have "map (\<lambda>x. (r_title x, r_time x)) (a_queue (a_tick a)) = left_after (Suc n) schedule"
      using i by (simp add: run_state_def a_tick_def a_tick_upto_def tick_queue_pairs left_after_Suc)
    moreover have "shown_by n schedule @ reminder_boxes (a_queue a) = shown_by (Suc n) schedule"
      using i shown_by_Suc [OF s, of n] by (simp add: run_state_def reminder_boxes_pairs)
    ultimately show ?thesis using True g' i by (simp add: run_state_def) (simp add: a_tick_def a_tick_upto_def)
  qed (use g' i in \<open>simp add: run_state_def\<close>)
  with g'(1) show ?thesis by blast
qed

lemma ui_run_start:
  assumes laws: "lvgl_laws L" and g0: "queue_model g0 = init_state" "shown g0 = []"
  shows "\<exists>g a. RemindersViewModel L g0 = Some g \<and> run_state L 0 g a \<and> shown g = [] \<and>
    m_autoscrollChildrenIndex (view g) = 0 \<and> m_scrollDirection (view g) = Forward"
proof -
  obtain s a where s: "createSimpleNotificationsModel (queue_model g0) = Some s" "models s a" "queue_inv a"
    "''!REMINDER!'' \<notin> snd ` set (a_users a)" "map (\<lambda>x. (r_title x, r_time x)) (a_queue a) = schedule"
    using setup_schedule g0(1) by auto
  have "a_queue a \<noteq> []" using s(5) by (auto simp: schedule_def)
  moreover have "left_after 0 schedule = schedule" "shown_by 0 schedule = []"
    by (simp_all add: left_after_def shown_by_def schedule_def)
  ultimately show ?thesis using constructor_sim(1) [OF laws s(1,2)] s g0(2) by (auto simp: run_state_def ui_inv_def)
qed

lemma ui_run_inv:
  assumes "ui_run L n g" "lvgl_laws L"
  shows "\<exists>a. run_state L n g a"
  using assms(1)
proof induction
  case (run_start g0 g)
  with ui_run_start [OF assms(2)] show ?case by fastforce
next
  case (run_event n g e g')
  with run_state_event [OF assms(2)] show ?case by fastforce
next
  case (run_idle n g w)
  then obtain a where "run_state L n g a" by blast
  with idle_sim [OF _ run_idle.hyps(2), of a] show ?case by (auto simp: run_state_def ui_inv_def)
qed

lemma ui_run_reachable: "ui_run L n g \<Longrightarrow> ui_reachable L g"
proof (induction rule: ui_run.induct)
  case (run_start g0 g)
  then show ?case using started [of g0 "[]" L g] by (simp add: init_state_def)
qed (auto intro: event idle)

section \<open>Automatic scrolling\<close>

definition zigzag :: "nat \<Rightarrow> nat \<Rightarrow> nat" where
  "zigzag n j = (let m = j mod (2 * n) in if m < n then m else 2 * n - 1 - m)"

definition zigzag_state :: "nat \<Rightarrow> nat \<Rightarrow> nat \<times> direction" where
  "zigzag_state n j = (zigzag n j, if j mod (2 * n) < n then Forward else Backward)"

lemma autoscroll_zigzag_step: "0 < n \<Longrightarrow> autoscroll_advance n (zigzag_state n j) = zigzag_state n (Suc j)"
  using mod_less_divisor [of "2 * n" j] by (auto simp: zigzag_state_def zigzag_def Let_def mod_Suc simp del: mod_less_divisor)

lemma zigzag_less: "0 < n \<Longrightarrow> zigzag n j < n"
  by (auto simp: zigzag_def Let_def)

fun autoscrolls :: "'w lvgl \<Rightarrow> nat \<Rightarrow> 'w ui \<Rightarrow> 'w ui option" where
  "autoscrolls L 0 g = Some g"
| "autoscrolls L (Suc k) g = do { g \<leftarrow> autoscrolls L k g; slotAutoScrollTimerExpired L g }"

lemma autoscrolls_sim:
  assumes laws: "lvgl_laws L" and m: "ui_models L a g" and n: "2 \<le> length (a_queue a)"
    and s: "(m_autoscrollChildrenIndex (view g), m_scrollDirection (view g)) = (0, Forward)"
  shows "\<exists>g'. autoscrolls L k g = Some g' \<and> ui_models L a g' \<and> queue_model g' = queue_model g \<and>
    (m_autoscrollChildrenIndex (view g'), m_scrollDirection (view g')) = zigzag_state (length (a_queue a)) k \<and>
    shown g' = shown g @ map (\<lambda>j. Scrolled_to (zigzag (length (a_queue a)) j)) [0..<k]"
proof (induction k)
  case 0
  have "0 < length (a_queue a)" by (rule less_le_trans [OF _ n]) simp
  then show ?case using m s by (simp add: zigzag_state_def zigzag_def)
next
  case (Suc k)
  let ?n = "length (a_queue a)"
  obtain g' where g': "autoscrolls L k g = Some g'" "ui_models L a g'" "queue_model g' = queue_model g"
    "(m_autoscrollChildrenIndex (view g'), m_scrollDirection (view g')) = zigzag_state ?n k"
    "shown g' = shown g @ map (\<lambda>j. Scrolled_to (zigzag ?n j)) [0..<k]" using Suc by blast
  have i: "m_autoscrollChildrenIndex (view g') = zigzag ?n k" using g'(4) by (simp add: zigzag_state_def)
  have n0: "0 < ?n" by (rule less_le_trans [OF _ n]) simp
  note lt = zigzag_less [OF n0, of k]
  obtain h where h: "slotAutoScrollTimerExpired L g' = Some h" "ui_models L a h" "queue_model h = queue_model g'"
    "shown h = shown g' @ [Scrolled_to (zigzag ?n k)]"
    "(m_autoscrollChildrenIndex (view h), m_scrollDirection (view h)) = autoscroll_advance ?n (zigzag_state ?n k)"
    using autoscroll_sim [OF laws g'(2)] n lt i g'(4) by (auto simp: Let_def)
  have "autoscroll_advance ?n (zigzag_state ?n k) = zigzag_state ?n (Suc k)" by (rule autoscroll_zigzag_step [OF n0])
  with g' h show ?case by simp
qed

lemma autoscrolls_reachable: "ui_reachable L g \<Longrightarrow> autoscrolls L k g = Some g' \<Longrightarrow> ui_reachable L g'"
proof (induction k arbitrary: g')
  case (Suc k)
  then obtain h where h: "autoscrolls L k g = Some h" "handle_event L Autoscroll_tick h = Some g'" by (auto simp: bind_eq_Some_conv)
  with Suc.IH [OF Suc.prems(1) h(1)] show ?case by (auto intro: event [of L h Autoscroll_tick])
qed simp


text \<open>Ticks one after the other.\<close>

lemma ticks_run:
  assumes "ui_run L n g" "lvgl_laws L"
  shows "\<exists>g'. ui_run L (n + k) g' \<and> same_scroll (view g) (view g')"
proof (induction k)
  case 0
  then show ?case using assms(1) by (metis add_0_right same_scroll_refl)
next
  case (Suc k)
  then obtain h where h: "ui_run L (n + k) h" "same_scroll (view g) (view h)" by blast
  obtain a where a: "run_state L (n + k) h a" using ui_run_inv [OF h(1) assms(2)] by blast
  have "\<forall>x \<in> set (a_queue a). in_int (r_time x - 1)" using a by (auto simp: run_state_def ui_inv_def queue_inv_def in_int_def)
  then obtain g' where "slotNotificationTimerTick L h = Some g'" "same_scroll (view h) (view g')"
    using slotNotificationTimerTick_sim [OF assms(2), of a h] a by (auto simp: run_state_def ui_inv_def)
  then show ?case using run_event [OF h(1), of Notification_tick g'] same_scroll_trans [OF h(2)] by auto
qed

lemma autoscrolls_run: "ui_run L n g \<Longrightarrow> autoscrolls L k g = Some g' \<Longrightarrow> ui_run L n g'"
proof (induction k arbitrary: g')
  case (Suc k)
  then obtain h where h: "autoscrolls L k g = Some h" "handle_event L Autoscroll_tick h = Some g'" by (auto simp: bind_eq_Some_conv)
  with run_event [OF Suc.IH [OF Suc.prems(1) h(1)], of Autoscroll_tick g'] show ?case by simp
qed simp

text \<open>The position is past the end of a list that became shorter.\<close>

definition past_the_end :: "'w ui \<Rightarrow> bool" where
  "past_the_end g \<longleftrightarrow> (case get_notifications_total_count (queue_model g) of
     Some n \<Rightarrow> n \<le> m_autoscrollChildrenIndex (view g) | None \<Rightarrow> False)"

definition is_scroll :: "shown_item \<Rightarrow> bool" where
  "is_scroll e = (case e of Scrolled_to _ \<Rightarrow> True | _ \<Rightarrow> False)"

lemma past_the_end_models: "ui_models L a g \<Longrightarrow> past_the_end g \<longleftrightarrow> length (a_queue a) \<le> m_autoscrollChildrenIndex (view g)"
  using get_notifications_total_count_sim [of "queue_model g" a] by (simp add: past_the_end_def ui_models_def)

lemma past_the_end_event:
  assumes laws: "lvgl_laws L" and i: "ui_inv L a g" and p: "possible L e g" and s: "past_the_end g" and h: "handle_event L e g = Some g'"
  shows "past_the_end g' \<and> filter is_scroll (shown g') = filter is_scroll (shown g)"
proof -
  have m: "ui_models L a g" using i by (simp add: ui_inv_def)
  note ix = past_the_end_models [OF m]
  have same: "past_the_end g' \<longleftrightarrow> past_the_end g" if "ui_models L a g'" "view g' = view g"
    using past_the_end_models [OF that(1)] ix that(2) by simp
  show ?thesis
  proof (cases e)
    case Notification_tick
    have "\<forall>x \<in> set (a_queue a). in_int (r_time x - 1)" using i by (auto simp: ui_inv_def queue_inv_def in_int_def)
    from slotNotificationTimerTick_sim [OF laws m this] h Notification_tick
    have g': "ui_models L (a_tick a) g'" "same_scroll (view g) (view g')" "shown g' = shown g @ tick_shows (a_queue a) []" by auto
    have "length (a_queue (a_tick a)) \<le> length (a_queue a)" by (simp add: a_tick_def a_tick_upto_def tick_queue_def)
    moreover have "filter is_scroll (tick_shows q []) = []" for q
      by (auto simp: tick_shows_def reminder_boxes_def empty_notice_def is_scroll_def filter_empty_conv)
    ultimately show ?thesis using past_the_end_models [OF g'(1)] ix g' s by (simp add: same_scroll_def)
  next
    case Autoscroll_tick
    with autoscroll_sim [OF laws m] h ix s show ?thesis by (auto simp: Let_def)
  next
    case (Button_event code b)
    from button_sim [OF laws m] p h Button_event have "ui_models L a g'" "view g' = view g"
      "filter is_scroll (shown g') = filter is_scroll (shown g)" by (fastforce simp: is_scroll_def)+
    with same s show ?thesis by simp
  next
    case (Messagebox_clicked b)
    from messagebox_sim [OF laws m, of b] p h Messagebox_clicked have "ui_models L a g'" "view g' = view g" "shown g' = shown g" by auto
    with same s show ?thesis by simp
  next
    case List_scrolled
    from list_scrolled_sim [OF laws m] h List_scrolled have "ui_models L a g'" "view g' = view g" "shown g' = shown g" by auto
    with same s show ?thesis by simp
  qed
qed

section \<open>Destruction\<close>

lemma destructor_sim:
  assumes laws: "lvgl_laws L" and m: "ui_models L a g"
  shows "\<exists>g'. RemindersViewModel_dtor L g = Some g' \<and> users (queue_model g') = Map.empty \<and> reminders (queue_model g') = Map.empty \<and>
    strings (queue_model g') = Map.empty \<and>
    nodes (queue_model g') = [UsersList \<mapsto> empty_head UsersList, RemindersList \<mapsto> empty_head RemindersList]"
proof -
  note law = laws_parts [OF laws]
  obtain root where r: "m_notificationsListRoot (view g) = Some root" "list_view L root (queue_ids a) (widgets g)"
    "\<forall>l. m_emptyListLabel (view g) = Some l \<longrightarrow> label_view L root l (widgets g)"
    using m unfolding ui_models_def view_ok_def by blast
  have mq: "models (queue_model g) a" using m by (simp add: ui_models_def)
  have di: "distinct_ids a" using awf_distinct_ids [OF models_awf [OF mq]] .
  obtain s1 where s1: "cleanup_users (queue_model g) = Some s1" "represents s1 (a\<lparr>a_users := []\<rparr>)"
    using cleanup_users_sim [OF _ di] mq unfolding models_represents by blast
  have "distinct_ids (a\<lparr>a_users := []\<rparr>)" using di by (simp add: distinct_ids_def user_ids_def queue_ids_def)
  then obtain s2 where s2: "cleanup_reminders s1 = Some s2" "represents s2 (a\<lparr>a_users := [], a_queue := []\<rparr>)"
    using cleanup_reminders_sim [OF s1(2)] by auto
  have t: "\<exists>w'. delete_timer L t w = Some w' \<and> keeps L w w'" for t w
    using law(6) by (cases t) (auto simp: delete_timer_def timer_laws_def keeps_refl_trans)
  obtain w1 where w1: "delete_timer L (m_notificationsTimer (view g)) (widgets g) = Some w1" "keeps L (widgets g) w1" using t by blast
  obtain w2 where w2: "delete_timer L (m_scrollNotificationsTimer (view g)) w1 = Some w2" "keeps L w1 w2" using t by blast
  note k2 = keeps_trans [OF w1(2) w2(2)]
  obtain w3 where w3: "delete_async L (m_emptyListLabel (view g)) w2 = Some w3" "keeps L w2 w3"
  proof -
    have "lv_obj_is_valid L l w2" if "m_emptyListLabel (view g) = Some l" for l
      using r(3) that keeps_valid [OF k2] by (simp add: label_view_def)
    from delete_async_sim [OF law(2) this] that show thesis by blast
  qed
  have "lv_obj_is_valid L root w3" using r(2) keeps_valid [OF keeps_trans [OF k2 w3(2)]] by (simp add: list_view_def)
  then obtain w4 where w4: "delete_async L (Some root) w3 = Some w4"
    using delete_async_sim [OF law(2), of "Some root" w3] by auto
  let ?g = "g\<lparr>queue_model := s2, widgets := w4\<rparr>"
  have "RemindersViewModel_dtor L g = Some ?g"
    using s1(1) s2(1) w1(1) w2(1) w3(1) w4 r(1) by (simp add: RemindersViewModel_dtor_def on_model_def on_widgets_def)
  then show ?thesis using represents_empty [OF s2(2)] by simp
qed

end
