(* ===== verification/ViewProperties.thy ===== *)
theory ViewProperties
  imports ViewModelRuns
begin

text \<open>
  The properties of the view model of the graphical application, for every widget library that keeps
  to \<open>lvgl_laws\<close>; the witnesses run on \<open>widget_tree\<close>.
\<close>

section \<open>A first state\<close>

definition blank_ui :: "tree ui" where
  "blank_ui = \<lparr>queue_model = init_state, view = undefined, widgets = \<lparr>bound = 0, parent_of = Map.empty, data_of = Map.empty\<rparr>, shown = []\<rparr>"

lemma blank_runs:
  obtains g where "ui_run widget_tree 0 g" "shown g = []" "m_autoscrollChildrenIndex (view g) = 0" "m_scrollDirection (view g) = Forward"
proof -
  have "queue_model blank_ui = init_state" "shown blank_ui = []" by (simp_all add: blank_ui_def)
  from ui_run_start [OF widget_tree_laws this] run_start [OF this] that show thesis by blast
qed

lemma run_contents:
  assumes "ui_run L n g" "lvgl_laws L"
  shows "\<exists>xs. queue_contents (queue_model g) = Some xs \<and> map snd xs = left_after n schedule"
proof -
  obtain a where a: "run_state L n g a" using ui_run_inv [OF assms] by blast
  then have "models (queue_model g) a" by (simp add: run_state_def ui_inv_def ui_models_def)
  from queue_contents_models [OF this] a show ?thesis by (simp add: run_state_def comp_def)
qed

lemma run_length: "run_state L n g a \<Longrightarrow> length (a_queue a) = length (left_after n schedule)"
  unfolding run_state_def by (elim conjE) (drule arg_cong [where f = length], simp)

section \<open>Properties\<close>

text \<open>No callback of the view faults. In every state that construction, ticks, clicks, scrolling and LVGL's own work
  reach in any order, with \<open>malloc\<close> failing at will while the reminders are created, each event
  that can arrive is handled to its end: no object of LVGL is used after it was deleted, and no reminder after it was freed.\<close>

theorem view_never_faults:
  assumes "lvgl_laws L" "ui_reachable L g" "possible L e g"
  shows "\<exists>g'. handle_event L e g = Some g'"
proof -
  obtain a where "ui_inv L a g" "''!REMINDER!'' \<notin> snd ` set (a_users a)" using ui_reachable_inv [OF assms(2,1)] by blast
  with handle_event_sim [OF assms(1) _ assms(3)] show ?thesis by blast
qed

theorem view_never_faults_witness:
  "\<exists>g. ui_reachable widget_tree g \<and> (\<exists>g'. handle_event widget_tree Notification_tick g = Some g')"
proof -
  obtain g where "ui_run widget_tree 0 g" by (rule blank_runs)
  then have r: "ui_reachable widget_tree g" by (rule ui_run_reachable)
  have "\<exists>g'. handle_event widget_tree Notification_tick g = Some g'"
    by (rule view_never_faults [OF widget_tree_laws r]) simp
  with r show ?thesis by blast
qed

text \<open>C3: The list on the screen is the queue. In every reachable state the buttons of the list are alive and carry the
  queued reminders in the order of the queue, and the label that says the list is empty is there exactly when the queue is empty.\<close>

theorem view_shows_the_queue:
  assumes "lvgl_laws L" "ui_reachable L g"
  shows "\<exists>root xs. m_notificationsListRoot (view g) = Some root \<and> queue_contents (queue_model g) = Some xs \<and>
    (\<forall>b \<in> set (children L root (widgets g)). lv_obj_is_valid L b (widgets g)) \<and>
    map (\<lambda>b. lv_obj_get_user_data L b (widgets g)) (children L root (widgets g)) = map (\<lambda>(r, t, k). Some (Some r)) xs \<and>
    (m_emptyListLabel (view g) \<noteq> None \<longleftrightarrow> xs = [])"
proof -
  obtain a where m: "ui_models L a g" using ui_reachable_inv [OF assms(2,1)] by (auto simp: ui_inv_def)
  obtain root where r: "m_notificationsListRoot (view g) = Some root" "list_view L root (queue_ids a) (widgets g)"
    using m by (rule ui_models_root)
  have "models (queue_model g) a" "label_agrees (a_queue a = []) g" using m by (simp_all add: ui_models_def)
  with r show ?thesis
    by (auto simp: queue_contents_models list_view_def queue_ids_def label_agrees_def comp_def)
qed

theorem view_shows_the_queue_witness:
  "\<exists>(g :: tree ui) root xs. m_notificationsListRoot (view g) = Some root \<and> queue_contents (queue_model g) = Some xs \<and>
    map (\<lambda>b. lv_obj_get_user_data widget_tree b (widgets g)) (children widget_tree root (widgets g)) = map (\<lambda>(r, t, k). Some (Some r)) xs \<and>
    length xs = 6"
proof -
  obtain g where g: "ui_run widget_tree 0 g" by (rule blank_runs)
  obtain xs where xs: "queue_contents (queue_model g) = Some xs" "map snd xs = left_after 0 schedule"
    using run_contents [OF g widget_tree_laws] by blast
  have "length (left_after 0 schedule) = 6" by (simp add: left_after_def schedule_def)
  then have l6: "length xs = 6" using arg_cong [OF xs(2), of length] by simp
  obtain root ys where "m_notificationsListRoot (view g) = Some root" "queue_contents (queue_model g) = Some ys"
    "map (\<lambda>b. lv_obj_get_user_data widget_tree b (widgets g)) (children widget_tree root (widgets g)) = map (\<lambda>(r, t, k). Some (Some r)) ys"
    using view_shows_the_queue [OF widget_tree_laws ui_run_reachable [OF g]] by blast
  moreover from this have "length ys = 6" using xs(1) l6 by simp
  ultimately show ?thesis by (intro exI [of _ g] exI [of _ root] exI [of _ ys] conjI)
qed

text \<open>C4: Every reminder is announced on time and once. After \<open>n\<close> ticks, with any clicks and scrolling in between, the
  boxes titled "!REMINDER!" that were opened are those of the reminders set for at most \<open>n\<close> seconds, in order, each with its text; the
  others are in the queue with the rest of their time.\<close>

theorem reminders_shown_on_time:
  assumes "lvgl_laws L" "ui_run L n g"
  shows "filter reminder_box (shown g) = map (\<lambda>(t, k). Message_box ''!REMINDER!'' t) (filter (\<lambda>(t, k). k \<le> int n) schedule) \<and>
    map_option (map snd) (queue_contents (queue_model g)) = Some (map (\<lambda>(t, k). (t, k - int n)) (filter (\<lambda>(t, k). int n < k) schedule))"
proof -
  obtain a where "run_state L n g a" using ui_run_inv [OF assms(2,1)] by blast
  then show ?thesis using run_contents [OF assms(2,1)] by (auto simp: run_state_def shown_by_def left_after_def)
qed

theorem reminders_shown_on_time_witness:
  "\<exists>g. ui_run widget_tree 20 g \<and>
    filter reminder_box (shown g) = [Message_box ''!REMINDER!'' ''Buy a new phone!'', Message_box ''!REMINDER!'' ''Check the post office!''] \<and>
    map_option (map snd) (queue_contents (queue_model g)) =
      Some [(''Check cat's food '', 5), (''Physical activity!'', 10), (''Don't forget the meeting'', 15), (''Yoga practice'', 20)]"
proof -
  obtain g0 where "ui_run widget_tree 0 g0" by (rule blank_runs)
  then obtain g where g: "ui_run widget_tree (0 + 20) g" using ticks_run [OF _ widget_tree_laws] by blast
  then have "ui_run widget_tree 20 g" by simp
  with reminders_shown_on_time [OF widget_tree_laws this] show ?thesis by (auto simp: schedule_def)
qed

text \<open>C16: While the queue does not change the list scrolls back and forth: from the start, \<open>k\<close> scrolls over \<open>n\<close> buttons visit
  0 up to \<open>n - 1\<close>, then \<open>n - 1\<close> down to 0, and so on, the ends twice.\<close>

theorem autoscroll_zigzag:
  assumes "lvgl_laws L" "ui_reachable L g" "queue_contents (queue_model g) = Some xs" "2 \<le> length xs"
    and "m_autoscrollChildrenIndex (view g) = 0" "m_scrollDirection (view g) = Forward"
  shows "\<exists>g'. autoscrolls L k g = Some g' \<and> shown g' = shown g @
    map (\<lambda>j. Scrolled_to (let m = j mod (2 * length xs) in if m < length xs then m else 2 * length xs - 1 - m)) [0..<k]"
proof -
  obtain a where m: "ui_models L a g" using ui_reachable_inv [OF assms(2,1)] by (auto simp: ui_inv_def)
  then have "models (queue_model g) a" by (simp add: ui_models_def)
  from queue_contents_models [OF this] assms(3) have len: "length xs = length (a_queue a)" by auto
  from autoscrolls_sim [OF assms(1) m] assms(4-6) show ?thesis unfolding len zigzag_def by auto
qed

theorem autoscroll_zigzag_witness:
  "\<exists>g'. ui_reachable widget_tree g' \<and> shown g' = map Scrolled_to [0, 1, 2, 3, 4, 5, 5, 4, 3, 2, 1, 0, 0, 1]"
proof -
  obtain g where g: "ui_run widget_tree 0 g" "shown g = []" "m_autoscrollChildrenIndex (view g) = 0" "m_scrollDirection (view g) = Forward"
    by (rule blank_runs)
  obtain xs where xs: "queue_contents (queue_model g) = Some xs" "map snd xs = left_after 0 schedule"
    using run_contents [OF g(1) widget_tree_laws] by blast
  have "length (left_after 0 schedule) = 6" by (simp add: left_after_def schedule_def)
  then have l6: "length xs = 6" using arg_cong [OF xs(2), of length] by simp
  obtain g' where g': "autoscrolls widget_tree 14 g = Some g'" "shown g' = shown g @
    map (\<lambda>j. Scrolled_to (let m = j mod (2 * length xs) in if m < length xs then m else 2 * length xs - 1 - m)) [0..<14]"
    using autoscroll_zigzag [OF widget_tree_laws ui_run_reachable [OF g(1)] xs(1) _ g(3,4), of 14] l6 by auto
  have "map (\<lambda>j. Scrolled_to (let m = j mod (2 * 6) in if m < 6 then m else 2 * 6 - 1 - m)) [0..<14] =
    map Scrolled_to [0, 1, 2, 3, 4, 5, 5, 4, 3, 2, 1, 0, 0, 1 :: nat]" by code_simp
  with g'(2) g(2) have "shown g' = map Scrolled_to [0, 1, 2, 3, 4, 5, 5, 4, 3, 2, 1, 0, 0, 1]" unfolding l6 by simp
  then show ?thesis using autoscrolls_reachable [OF ui_run_reachable [OF g(1)] g'(1)] by blast
qed

text \<open>C36: Automatic scrolling stops for good. Once reminders have expired so that the position is past the end of the list, no
  event brings it back: the position stays past the end and nothing is scrolled to again.\<close>

theorem autoscroll_stops:
  assumes "lvgl_laws L" "ui_reachable L g" "past_the_end g" "possible L e g" "handle_event L e g = Some g'"
  shows "past_the_end g' \<and> filter is_scroll (shown g') = filter is_scroll (shown g)"
proof -
  obtain a where "ui_inv L a g" using ui_reachable_inv [OF assms(2,1)] by blast
  from past_the_end_event [OF assms(1) this assms(4,3,5)] show ?thesis .
qed

theorem autoscroll_stops_witness:
  "\<exists>g g'. past_the_end g \<and> handle_event widget_tree Autoscroll_tick g = Some g' \<and>
    past_the_end g' \<and> filter is_scroll (shown g') = filter is_scroll (shown g) \<and>
    map_option (map (\<lambda>(r, t, k). k)) (queue_contents (queue_model g)) = Some [5, 10, 15, 20, 25]"
proof -
  obtain g0 where g0: "ui_run widget_tree 0 g0" "m_autoscrollChildrenIndex (view g0) = 0" "m_scrollDirection (view g0) = Forward"
    by (rule blank_runs)
  obtain a where a: "run_state widget_tree 0 g0 a" using ui_run_inv [OF g0(1) widget_tree_laws] by blast
  have "length (left_after 0 schedule) = 6" by (simp add: left_after_def schedule_def)
  then have len: "length (a_queue a) = 6" using run_length [OF a] by simp
  have m: "ui_models widget_tree a g0" using a by (simp add: run_state_def ui_inv_def)
  obtain g1 where g1: "autoscrolls widget_tree 5 g0 = Some g1" "m_autoscrollChildrenIndex (view g1) = 5"
    using autoscrolls_sim [OF widget_tree_laws m, of 5] g0(2,3) len by (auto simp: zigzag_state_def zigzag_def)
  obtain g where g: "ui_run widget_tree (0 + 15) g" "same_scroll (view g1) (view g)"
    using ticks_run [OF autoscrolls_run [OF g0(1) g1(1)] widget_tree_laws] by blast
  then have r: "ui_run widget_tree 15 g" by simp
  obtain b where b: "run_state widget_tree 15 g b" using ui_run_inv [OF r widget_tree_laws] by blast
  have mb: "ui_models widget_tree b g" using b by (simp add: run_state_def ui_inv_def)
  have "length (left_after 15 schedule) = 5" by (simp add: left_after_def schedule_def)
  then have lb: "length (a_queue b) = 5" using run_length [OF b] by simp
  have pe: "past_the_end g" using past_the_end_models [OF mb] lb g1(2) g(2) by (simp add: same_scroll_def)
  obtain xs where xs: "queue_contents (queue_model g) = Some xs" "map snd xs = left_after 15 schedule"
    using run_contents [OF r widget_tree_laws] by blast
  have "map (\<lambda>(r, t, k). k) xs = map snd (map snd xs)" by (simp add: comp_def case_prod_beta)
  also have "\<dots> = [5, 10, 15, 20, 25]" unfolding xs(2) by (simp add: left_after_def schedule_def)
  finally have c: "map_option (map (\<lambda>(r, t, k). k)) (queue_contents (queue_model g)) = Some [5, 10, 15, 20, 25]"
    using xs(1) by simp
  obtain g' where g': "handle_event widget_tree Autoscroll_tick g = Some g'"
    using autoscroll_sim [OF widget_tree_laws mb] by auto
  have "past_the_end g' \<and> filter is_scroll (shown g') = filter is_scroll (shown g)"
    by (rule autoscroll_stops [OF widget_tree_laws ui_run_reachable [OF r] pe _ g']) simp
  with pe g' c show ?thesis by (intro exI [of _ g] exI [of _ g'] conjI) simp_all
qed


text \<open>The destructor frees everything the module allocated, and leaves its two lists empty.\<close>

theorem view_destroyed_cleanly:
  assumes "lvgl_laws L" "ui_reachable L g"
  shows "\<exists>g'. RemindersViewModel_dtor L g = Some g' \<and> users (queue_model g') = Map.empty \<and> reminders (queue_model g') = Map.empty \<and>
    strings (queue_model g') = Map.empty \<and>
    nodes (queue_model g') = [UsersList \<mapsto> empty_head UsersList, RemindersList \<mapsto> empty_head RemindersList]"
proof -
  obtain a where "ui_inv L a g" using ui_reachable_inv [OF assms(2,1)] by blast
  then have "ui_models L a g" by (simp add: ui_inv_def)
  then show ?thesis by (rule destructor_sim [OF assms(1)])
qed

theorem view_destroyed_cleanly_witness:
  "\<exists>g g'. ui_run widget_tree 7 g \<and> RemindersViewModel_dtor widget_tree g = Some g' \<and> strings (queue_model g') = Map.empty"
proof -
  obtain g0 where "ui_run widget_tree 0 g0" by (rule blank_runs)
  then obtain g where "ui_run widget_tree (0 + 7) g" using ticks_run [OF _ widget_tree_laws] by blast
  then have g: "ui_run widget_tree 7 g" by simp
  with view_destroyed_cleanly [OF widget_tree_laws ui_run_reachable [OF g]] show ?thesis by blast
qed

section \<open>Along the circle\<close>

lemma lv_coord_id: "- 32768 \<le> i \<Longrightarrow> i \<le> 32767 \<Longrightarrow> lv_coord i = i"
  by (simp add: lv_coord_def signed_take_bit_int_eq_self)

lemma circle_root:
  assumes "sqrt_law L" "0 \<le> d" "d < r" "r \<le> 32767"
  obtains s where "x_on_circle (lv_sqrt L) r d = r - s" "0 \<le> s" "s \<le> r" "s\<^sup>2 \<le> r\<^sup>2 - d\<^sup>2" "r\<^sup>2 - d\<^sup>2 < (s + 1)\<^sup>2"
proof -
  have sq: "d * d \<le> r * r" using assms(2,3) by (intro mult_mono) auto
  have "r * r \<le> 32767 * 32767" using assms(2-4) by (intro mult_mono) auto
  moreover have "0 \<le> d * d" "(2::int) ^ 32 = 4294967296" by simp_all
  ultimately have b: "0 \<le> r * r - d * d" "r * r - d * d < 2 ^ 32" using sq by linarith+
  let ?n = "nat (r * r - d * d)"
  define s where "s = int (lv_sqrt L ?n)"
  have n: "?n < 2 ^ 32" using b by (simp add: nat_less_iff)
  have "(lv_sqrt L ?n)\<^sup>2 \<le> ?n" "?n < (Suc (lv_sqrt L ?n))\<^sup>2" using assms(1) n by (auto simp: sqrt_law_def)
  then have "int ((lv_sqrt L ?n)\<^sup>2) \<le> int ?n" "int ?n < int ((Suc (lv_sqrt L ?n))\<^sup>2)" by (simp_all only: of_nat_le_iff of_nat_less_iff)
  then have s: "s\<^sup>2 \<le> r\<^sup>2 - d\<^sup>2" "r\<^sup>2 - d\<^sup>2 < (s + 1)\<^sup>2" using b(1) by (simp_all add: s_def power2_eq_square algebra_simps)
  have s0: "0 \<le> s" by (simp add: s_def)
  have "s\<^sup>2 \<le> r\<^sup>2" using s(1) zero_le_power2 [of d] by linarith
  then have sr: "s \<le> r" by (rule power2_le_imp_le) (use assms(2,3) in simp)
  have "(r * r - d * d) mod 2 ^ 32 = r * r - d * d" using b by (simp add: mod_pos_pos_trivial)
  then have "x_on_circle (lv_sqrt L) r d = lv_coord (r - s)" using assms(3) by (simp add: x_on_circle_def Let_def s_def)
  also have "\<dots> = r - s" using s0 sr assms(4) by (intro lv_coord_id) auto
  finally show thesis using that s s0 sr by blast
qed

text \<open>C37: The buttons follow the round screen. For a button at the distance \<open>d\<close> from the middle of a list of radius \<open>r\<close> the shift is the least
  one that puts it inside the circle, and the radius when it is out of it; it is 0 in the middle and
  grows with the distance; the opacity is a byte, 255 in the middle and 0 out of the circle.\<close>

theorem scroll_follows_circle:
  assumes "sqrt_law L" "map_law L" "0 < r" "r \<le> 32767" "0 \<le> d"
  shows "let x = x_on_circle (lv_sqrt L) r d; opa = item_opacity (lv_map L) r x in
    0 \<le> x \<and> x \<le> r \<and> (d < r \<longrightarrow> (r - x)\<^sup>2 + d\<^sup>2 \<le> r\<^sup>2 \<and> r\<^sup>2 < (r - x + 1)\<^sup>2 + d\<^sup>2) \<and> (d = 0 \<longrightarrow> x = 0 \<and> opa = 255) \<and>
    (r \<le> d \<longrightarrow> x = r \<and> opa = 0) \<and> 0 \<le> opa \<and> opa \<le> 255 \<and> (\<forall>d'. d \<le> d' \<longrightarrow> x \<le> x_on_circle (lv_sqrt L) r d')"
proof -
  let ?x = "x_on_circle (lv_sqrt L) r d"
  have out: "r \<le> e \<Longrightarrow> x_on_circle (lv_sqrt L) r e = r" for e by (simp add: x_on_circle_def)
  have rng: "0 \<le> x_on_circle (lv_sqrt L) r e \<and> x_on_circle (lv_sqrt L) r e \<le> r" if "0 \<le> e" for e
  proof (cases "e < r")
    case True
    show ?thesis by (rule circle_root [OF assms(1) that True assms(4)]) simp
  qed (use out assms(3) in simp)
  have circ: "(r - ?x)\<^sup>2 + d\<^sup>2 \<le> r\<^sup>2 \<and> r\<^sup>2 < (r - ?x + 1)\<^sup>2 + d\<^sup>2" if "d < r"
    by (rule circle_root [OF assms(1,5) that assms(4)]) simp
  have mid: "?x = 0" if "d = 0"
  proof (rule circle_root [OF assms(1,5) _ assms(4)])
    fix s assume s: "?x = r - s" "0 \<le> s" "s \<le> r" "r\<^sup>2 - d\<^sup>2 < (s + 1)\<^sup>2"
    then have "r\<^sup>2 < (s + 1)\<^sup>2" using that by simp
    then have "r < s + 1" by (rule power2_less_imp_less) (use s(2) in simp)
    with s show "?x = 0" by simp
  qed (use that assms(3) in simp)
  have mono: "?x \<le> x_on_circle (lv_sqrt L) r e" if "d \<le> e" for e
  proof (cases "e < r")
    case True
    have de: "d < r" "0 \<le> e" using that True assms(5) by simp_all
    show ?thesis
    proof (rule circle_root [OF assms(1,5) de(1) assms(4)])
      fix s assume s: "?x = r - s" "0 \<le> s" "r\<^sup>2 - d\<^sup>2 < (s + 1)\<^sup>2"
      show ?thesis
      proof (rule circle_root [OF assms(1) de(2) True assms(4)])
        fix t assume t: "x_on_circle (lv_sqrt L) r e = r - t" "0 \<le> t" "t\<^sup>2 \<le> r\<^sup>2 - e\<^sup>2"
        have "d\<^sup>2 \<le> e\<^sup>2" using that assms(5) by (intro power_mono) auto
        then have "t\<^sup>2 < (s + 1)\<^sup>2" using s(3) t(3) by linarith
        then have "t < s + 1" by (rule power2_less_imp_less) (use s(2) in simp)
        with s(1) t(1) show ?thesis by simp
      qed
    qed
  qed (use out rng [OF assms(5)] in simp)
  have opa: "item_opacity (lv_map L) r x = 255 - x * 255 div r" "0 \<le> x * 255 div r" "x * 255 div r \<le> 255" if "0 \<le> x" "x \<le> r" for x
  proof -
    have m: "lv_map L x 0 r 0 255 = x * 255 div r" using assms(2,3) that by (simp add: map_law_def)
    show b: "0 \<le> x * 255 div r" using that assms(3) by (simp add: pos_imp_zdiv_nonneg_iff)
    have "x * 255 div r \<le> r * 255 div r" using that assms(3) by (intro zdiv_mono1) auto
    then show c: "x * 255 div r \<le> 255" using assms(3) by simp
    show "item_opacity (lv_map L) r x = 255 - x * 255 div r" using m b c by (simp add: item_opacity_def Let_def mod_pos_pos_trivial)
  qed
  note x = rng [OF assms(5), THEN conjunct1] rng [OF assms(5), THEN conjunct2]
  show ?thesis unfolding Let_def
  proof (intro conjI impI allI)
    show "item_opacity (lv_map L) r ?x = 255" if "d = 0" using mid [OF that] opa(1) [of 0] assms(3) by simp
    show "item_opacity (lv_map L) r ?x = 0" if "r \<le> d" using out [OF that] opa(1) [of r] assms(3) by simp
    show "0 \<le> item_opacity (lv_map L) r ?x" "item_opacity (lv_map L) r ?x \<le> 255" using opa [OF x] by simp_all
  qed (use x circ mid out mono in blast)+
qed

theorem scroll_follows_circle_witness:
  "(168 - x_on_circle (lv_sqrt widget_tree) 168 100)\<^sup>2 + 100\<^sup>2 \<le> (168 :: int)\<^sup>2"
  using scroll_follows_circle [OF tree_sqrt_law tree_map_law, of 168 100] by (simp add: Let_def)

end
