(* ===== verification/Connector.thy ===== *)
theory Connector
  imports ViewModel
begin

text \<open>
  \<^verbatim>\<open>utils/CallbackConnector.hpp\<close> of the graphical application: it makes plain function pointers, which C libraries
  want for callbacks, from member functions and closures. What is to be called is kept in static variables of a class template: one set per
  tag, class and signature for member functions, one per closure type for closures. So the store is a map from these template arguments, and
  a pointer made before is redirected by the next instantiation with the same arguments.
\<close>

section \<open>The templates\<close>

record ('k, 'o, 'm, 'c, 'f) statics =
  wrapped_obj :: "'k \<Rightarrow> 'o option"
  wrapped_member :: "'k \<Rightarrow> 'm option"
  wrapped_const_member :: "'k \<Rightarrow> 'm option"
  wrapped_functor :: "'c \<Rightarrow> 'f option"

definition no_statics :: "('k, 'o, 'm, 'c, 'f) statics" where
  "no_statics = \<lparr>wrapped_obj = Map.empty, wrapped_member = Map.empty, wrapped_const_member = Map.empty, wrapped_functor = Map.empty\<rparr>"

text \<open>The functions the templates give out.\<close>

datatype ('k, 'c) connector = MetaCall 'k | ConstMetaCall 'k | FunctorCall 'c

definition instantiate :: "'k \<Rightarrow> 'o \<Rightarrow> 'm \<Rightarrow> ('k, 'o, 'm, 'c, 'f) statics \<Rightarrow> ('k, 'c) connector \<times> ('k, 'o, 'm, 'c, 'f) statics" where
  "instantiate k t ptr s = (MetaCall k, s\<lparr>wrapped_obj := (wrapped_obj s)(k \<mapsto> t), wrapped_member := (wrapped_member s)(k \<mapsto> ptr)\<rparr>)"

definition instantiate_const :: "'k \<Rightarrow> 'o \<Rightarrow> 'm \<Rightarrow> ('k, 'o, 'm, 'c, 'f) statics \<Rightarrow> ('k, 'c) connector \<times> ('k, 'o, 'm, 'c, 'f) statics" where
  "instantiate_const k t ptr s =
     (ConstMetaCall k, s\<lparr>wrapped_obj := (wrapped_obj s)(k \<mapsto> t), wrapped_const_member := (wrapped_const_member s)(k \<mapsto> ptr)\<rparr>)"

definition instatiate_functor :: "'c \<Rightarrow> 'f \<Rightarrow> ('k, 'o, 'm, 'c, 'f) statics \<Rightarrow> ('k, 'c) connector \<times> ('k, 'o, 'm, 'c, 'f) statics" where
  "instatiate_functor c fn s = (FunctorCall c, s\<lparr>wrapped_functor := (wrapped_functor s)(c \<mapsto> fn)\<rparr>)"

text \<open>What a call of a connector runs; through a NULL object or member, or an empty \<open>std::function\<close>, nothing that is defined.\<close>

datatype ('o, 'm, 'f) target = Member 'o 'm | Closure 'f

fun connected :: "('k, 'c) connector \<Rightarrow> ('k, 'o, 'm, 'c, 'f) statics \<Rightarrow> ('o, 'm, 'f) target option" where
  "connected (MetaCall k) s = do { t \<leftarrow> wrapped_obj s k; ptr \<leftarrow> wrapped_member s k; Some (Member t ptr) }"
| "connected (ConstMetaCall k) s = do { t \<leftarrow> wrapped_obj s k; ptr \<leftarrow> wrapped_const_member s k; Some (Member t ptr) }"
| "connected (FunctorCall c) s = map_option Closure (wrapped_functor s c)"

fun connector_args :: "('k, 'c) connector \<Rightarrow> 'k + 'c" where
  "connector_args (MetaCall k) = Inl k"
| "connector_args (ConstMetaCall k) = Inl k"
| "connector_args (FunctorCall c) = Inr c"

section \<open>What a connector calls\<close>

datatype ('k, 'o, 'm, 'c, 'f) request = Connect 'k 'o 'm | Connect_const 'k 'o 'm | Connect_functor 'c 'f

fun obtain_connector :: "('k, 'o, 'm, 'c, 'f) request \<Rightarrow> ('k, 'o, 'm, 'c, 'f) statics \<Rightarrow> ('k, 'c) connector \<times> ('k, 'o, 'm, 'c, 'f) statics" where
  "obtain_connector (Connect k t ptr) s = instantiate k t ptr s"
| "obtain_connector (Connect_const k t ptr) s = instantiate_const k t ptr s"
| "obtain_connector (Connect_functor c fn) s = instatiate_functor c fn s"

fun obtain_all :: "('k, 'o, 'm, 'c, 'f) request list \<Rightarrow> ('k, 'o, 'm, 'c, 'f) statics \<Rightarrow> ('k, 'o, 'm, 'c, 'f) statics" where
  "obtain_all [] s = s"
| "obtain_all (r # rs) s = obtain_all rs (snd (obtain_connector r s))"

fun request_args :: "('k, 'o, 'm, 'c, 'f) request \<Rightarrow> 'k + 'c" where
  "request_args (Connect k t ptr) = Inl k"
| "request_args (Connect_const k t ptr) = Inl k"
| "request_args (Connect_functor c fn) = Inr c"

fun request_target :: "('k, 'o, 'm, 'c, 'f) request \<Rightarrow> ('o, 'm, 'f) target" where
  "request_target (Connect k t ptr) = Member t ptr"
| "request_target (Connect_const k t ptr) = Member t ptr"
| "request_target (Connect_functor c fn) = Closure fn"

lemma obtained_connected: "obtain_connector r s = (c, s') \<Longrightarrow> connected c s' = Some (request_target r) \<and> connector_args c = request_args r"
  by (cases r) (auto simp: instantiate_def instantiate_const_def instatiate_functor_def)

lemma connected_other: "request_args r \<noteq> connector_args c \<Longrightarrow> connected c (snd (obtain_connector r s)) = connected c s"
  by (cases r; cases c) (auto simp: instantiate_def instantiate_const_def instatiate_functor_def)

text \<open>A connector calls what it was made for as long as no other is made with the same template arguments.\<close>

lemma connected_until_reused:
  "connected c s = Some x \<Longrightarrow> \<forall>r \<in> set rs. request_args r \<noteq> connector_args c \<Longrightarrow> connected c (obtain_all rs s) = Some x"
  by (induction rs arbitrary: s) (simp_all add: connected_other)

text \<open>One with the same arguments redirects it.\<close>

lemma connected_redirected:
  "connected (MetaCall k) (snd (obtain_connector (Connect k t ptr) s)) = Some (Member t ptr)"
  by (simp add: instantiate_def)

section \<open>The connectors of the view model\<close>

text \<open>The template arguments are the tag and the type of the parameter; there is one class and one result type.\<close>

datatype view_param = Param_reminder | Param_timer

datatype view_fun = Fun_createNotification | Fun_slotNotificationIsAboutToBeRemoved | Fun_slotAutoScrollTimerExpired | Fun_slotNotificationTimerTick

type_synonym view_statics = "(nat \<times> view_param, unit, view_fun, unit, unit) statics"
type_synonym view_connector = "(nat \<times> view_param, unit) connector"

text \<open>What runs when the connector is called with a reminder, or by a timer.\<close>

definition call_reminder_connector :: "view_statics \<Rightarrow> view_connector \<Rightarrow> 'w lvgl \<Rightarrow> nat \<Rightarrow> 'w ui \<Rightarrow> 'w ui option" where
  "call_reminder_connector s c L r g = (case connected c s of
     Some (Member _ Fun_createNotification) \<Rightarrow> createNotification L r g
   | Some (Member _ Fun_slotNotificationIsAboutToBeRemoved) \<Rightarrow> slotNotificationIsAboutToBeRemoved L r g
   | _ \<Rightarrow> None)"

definition call_timer_connector :: "view_statics \<Rightarrow> view_connector \<Rightarrow> 'w lvgl \<Rightarrow> 'w ui \<Rightarrow> 'w ui option" where
  "call_timer_connector s c L g = (case connected c s of
     Some (Member _ Fun_slotAutoScrollTimerExpired) \<Rightarrow> slotAutoScrollTimerExpired L g
   | Some (Member _ Fun_slotNotificationTimerTick) \<Rightarrow> slotNotificationTimerTick L g
   | _ \<Rightarrow> None)"

text \<open>The constructor makes four; the first is used before the others are made.\<close>

definition enumNotifications :: "view_statics \<Rightarrow> view_connector \<times> view_statics" where
  "enumNotifications s = obtain_connector (Connect (0, Param_reminder) () Fun_createNotification) s"

record view_callbacks =
  autoscrollTimerCallback :: view_connector
  notificationTimerCallback :: view_connector
  notificationIsAboutToBeRemovedSlot :: view_connector

definition connect_timers_and_slot :: "view_statics \<Rightarrow> view_callbacks \<times> view_statics" where
  "connect_timers_and_slot s =
     (let (a, s) = obtain_connector (Connect (0, Param_timer) () Fun_slotAutoScrollTimerExpired) s;
          (n, s) = obtain_connector (Connect (1, Param_timer) () Fun_slotNotificationTimerTick) s;
          (r, s) = obtain_connector (Connect (0, Param_reminder) () Fun_slotNotificationIsAboutToBeRemoved) s in
      (\<lparr>autoscrollTimerCallback = a, notificationTimerCallback = n, notificationIsAboutToBeRemovedSlot = r\<rparr>, s))"

text \<open>The callbacks that the view registers are the ones that run: while the notifications are enumerated the connector calls
  \<open>createNotification\<close>; after the constructor each timer has its own slot and the model's callback is
  \<open>slotNotificationIsAboutToBeRemoved\<close>, although it shares its static variables with the enumerator, which from then on would call the
  slot too.\<close>

theorem view_callbacks_connected:
  "let (e, s1) = enumNotifications s; (cb, s2) = connect_timers_and_slot s1 in
     call_reminder_connector s1 e L r g = createNotification L r g \<and>
     call_timer_connector s2 (autoscrollTimerCallback cb) L g = slotAutoScrollTimerExpired L g \<and>
     call_timer_connector s2 (notificationTimerCallback cb) L g = slotNotificationTimerTick L g \<and>
     call_reminder_connector s2 (notificationIsAboutToBeRemovedSlot cb) L r g = slotNotificationIsAboutToBeRemoved L r g \<and>
     call_reminder_connector s2 e L r g = slotNotificationIsAboutToBeRemoved L r g"
  by (simp add: enumNotifications_def connect_timers_and_slot_def instantiate_def call_reminder_connector_def call_timer_connector_def)

end
