(* ===== verification/FrameFile.thy ===== *)
theory FrameFile
  imports Display
begin

text \<open>
  The two programs that write whole frames to the driver's device node: \<^verbatim>\<open>display_test_app/main.cpp\<close> and the
  flush callback of the graphical application in \<^verbatim>\<open>gs_platform_layer.cpp\<close>, both under \<^verbatim>\<open>final_task\<close>. A write to the
  node runs the driver's \<open>display_chardev_write\<close>, so that the theorems go from the colours of a frame to the bytes
  on the bus. Whether the node is there and can be opened is a parameter; an exception is the left side of a sum.
\<close>

section \<open>State\<close>

record frame_os =
  path_exists :: "string \<Rightarrow> bool"
  open_write :: "string \<Rightarrow> int"
  driver_kernel :: kernel

text \<open>\<open>fileGuard\<close> is the static object of the flush callback; \<open>flushes_ready\<close> counts the calls of \<open>lv_disp_flush_ready\<close>.\<close>

record frame_proc =
  panel :: display
  fileGuard :: "int option"
  closed_files :: "int list"
  flushes_ready :: nat
  app_text :: "string list"

abbreviation say_line :: "string \<Rightarrow> frame_proc \<Rightarrow> frame_proc" where
  "say_line t p \<equiv> p\<lparr>app_text := app_text p @ [t]\<rparr>"

section \<open>The file\<close>

definition kFrameBufferPath :: string where "kFrameBufferPath = ''/dev/gc9_framebuffer_0''"

definition FileRaiiGuard :: "frame_os \<Rightarrow> string \<Rightarrow> string + int" where
  "FileRaiiGuard os filePath =
     (if \<not> path_exists os filePath then Inl ''Bad file path for the FileRaiiGuard''
      else let m_fileHandle = open_write os filePath in
        if m_fileHandle = - 1 then Inl ''Failed to open the given file'' else Inr m_fileHandle)"

definition FileRaiiGuard_dtor :: "int \<Rightarrow> frame_proc \<Rightarrow> frame_proc" where
  "FileRaiiGuard_dtor m_fileHandle p =
     (if m_fileHandle \<noteq> - 1 then p\<lparr>closed_files := closed_files p @ [m_fileHandle]\<rparr> else p)"

text \<open>\<open>data\<close> holds the bytes that can be read at the address. The result of the call is not looked at.\<close>

definition writeToFile :: "frame_os \<Rightarrow> 8 word list \<Rightarrow> nat \<Rightarrow> frame_proc \<Rightarrow> frame_proc option" where
  "writeToFile os dataSequence dataSequenceSize p = do {
     (ret, d) \<leftarrow> display_chardev_write (driver_kernel os) dataSequence dataSequenceSize (panel p);
     Some (p\<lparr>panel := d\<rparr>) }"

definition writeToFile_checked :: "frame_os \<Rightarrow> int \<Rightarrow> 8 word list \<Rightarrow> nat \<Rightarrow> frame_proc \<Rightarrow> frame_proc option" where
  "writeToFile_checked os m_fileHandle dataSequence dataSequenceSize p =
     (if m_fileHandle \<noteq> - 1 then writeToFile os dataSequence dataSequenceSize p else Some p)"

section \<open>The test program\<close>

definition COLOR_CYAN :: "16 word" where "COLOR_CYAN = 0x07FF"
definition COLOR_MAGENTA :: "16 word" where "COLOR_MAGENTA = 0xF81F"
definition COLOR_YELLOW :: "16 word" where "COLOR_YELLOW = 0xFFE0"

definition kFillColorsArray :: "16 word list" where
  "kFillColorsArray = [COLOR_RED, COLOR_BLUE, COLOR_GREEN, COLOR_CYAN, COLOR_MAGENTA, COLOR_YELLOW]"

definition FramebufferHolder :: "nat \<Rightarrow> nat \<Rightarrow> 16 word list" where
  "FramebufferHolder DisplayWidth DisplayHeight = replicate (DisplayWidth * DisplayHeight) 0"

definition fillWithColor :: "16 word \<Rightarrow> 16 word list \<Rightarrow> 16 word list" where
  "fillWithColor color m_framebuffer = map (\<lambda>_. color) m_framebuffer"

text \<open>The bytes of the pixels on the little-endian target.\<close>

definition getRaw :: "16 word list \<Rightarrow> 8 word list" where
  "getRaw m_framebuffer = concat (map (\<lambda>c. [lo_byte c, hi_byte c]) m_framebuffer)"

definition show_color :: "frame_os \<Rightarrow> 16 word \<Rightarrow> 16 word list \<times> frame_proc \<Rightarrow> (16 word list \<times> frame_proc) option" where
  "show_color os color = (\<lambda>(frameBuffer, p). do {
     let frameBuffer = fillWithColor color frameBuffer;
     p \<leftarrow> writeToFile os (getRaw frameBuffer) (240 * 240 * 2) p;
     Some (frameBuffer, p) })"

definition display_test_main :: "frame_os \<Rightarrow> frame_proc \<Rightarrow> ((string + int) \<times> frame_proc) option" where
  "display_test_main os p = (
     let p = say_line ''App test init\<newline>'' p in
     case FileRaiiGuard os kFrameBufferPath of
       Inl e \<Rightarrow> Some (Inl e, p)
     | Inr fileWrapper \<Rightarrow> do {
         let frameBuffer = FramebufferHolder 240 240;
         let p = say_line ''Attempted to fill with color\<newline>'' p;
         (frameBuffer, p) \<leftarrow> for_list (show_color os) kFillColorsArray (frameBuffer, p);
         Some (Inr 0, FileRaiiGuard_dtor fileWrapper (say_line ''App exit\<newline>'' p)) })"

section \<open>The flush callback\<close>

text \<open>
  \<open>ver_res\<close> and \<open>hor_res\<close> are the members of the display driver. A static object whose constructor throws
  is constructed anew by the next call; the exception goes through LVGL to the caller.
\<close>

definition flush_frame :: "frame_os \<Rightarrow> int \<Rightarrow> int \<Rightarrow> int \<Rightarrow> 8 word list \<Rightarrow> frame_proc \<Rightarrow> frame_proc option" where
  "flush_frame os ver_res hor_res h colorFill p = do {
     n \<leftarrow> c_mul ver_res hor_res;
     let dataSize = nat ((n * 2) mod 2 ^ 64);
     p \<leftarrow> writeToFile_checked os h colorFill dataSize p;
     Some (p\<lparr>flushes_ready := flushes_ready p + 1\<rparr>) }"

definition fillDisplayCb :: "frame_os \<Rightarrow> int \<Rightarrow> int \<Rightarrow> 8 word list \<Rightarrow> frame_proc \<Rightarrow> ((string + unit) \<times> frame_proc) option" where
  "fillDisplayCb os ver_res hor_res colorFill p =
     (case (case fileGuard p of Some h \<Rightarrow> Inr h | None \<Rightarrow> FileRaiiGuard os kFrameBufferPath) of
        Inl e \<Rightarrow> Some (Inl e, p)
      | Inr h \<Rightarrow> do {
          p \<leftarrow> flush_frame os ver_res hor_res h colorFill (p\<lparr>fileGuard := Some h\<rparr>);
          Some (Inr (), p) })"

text \<open>How LVGL keeps a pixel: 16 bits, with the bytes swapped when it is configured so.\<close>

definition LV_COLOR_16_SWAP :: bool where "LV_COLOR_16_SWAP = True"

definition lv_color_bytes :: "16 word \<Rightarrow> 8 word list" where
  "lv_color_bytes c = (if LV_COLOR_16_SWAP then [hi_byte c, lo_byte c] else [lo_byte c, hi_byte c])"

section \<open>One frame\<close>

definition panel_ok :: "frame_proc \<Rightarrow> bool" where
  "panel_ok p \<longleftrightarrow> ready (panel p) \<and> has_frame (panel p)"

text \<open>A pixel as the panel takes it, the high byte first.\<close>

definition wire_pixel :: "16 word \<Rightarrow> 8 word list" where
  "wire_pixel c = [hi_byte c, lo_byte c]"

lemma framebuffer_bytes: "get_framebuffer_size = 115200"
  by (simp add: get_framebuffer_size_def fb_size_def LCD_WIDTH_def LCD_HEIGHT_def)

lemma write_whole_frame:
  assumes "panel_ok p" "length buf = get_framebuffer_size"
  obtains d where "writeToFile os buf get_framebuffer_size p = Some (p\<lparr>panel := d\<rparr>)" "ready d" "has_frame d"
    "bus d = bus (panel p) @ data_events buf"
proof -
  obtain b where b: "frame_buffer (panel p) = Live b" using assms(1) by (auto simp: panel_ok_def elim: has_frameE)
  let ?b = "copy_bytes 0 buf b"
  let ?d = "(panel p)\<lparr>frame_buffer := Live ?b\<rparr>"
  have r: "ready ?d" using assms(1) by (simp add: panel_ok_def ready_def)
  have "fb_bytes ?b = buf"
    using assms(2) by (intro nth_equalityI) (auto simp: fb_bytes_length fb_bytes_eq fb_byte_copy)
  then have "lcd_update_screen (driver_kernel os) ?d = Some (?d\<lparr>bus := bus (panel p) @ data_events buf\<rparr>)"
    using lcd_update_screen_ready [OF r, of ?b "driver_kernel os"] by simp
  then have w: "writeToFile os buf get_framebuffer_size p = Some (p\<lparr>panel := ?d\<lparr>bus := bus (panel p) @ data_events buf\<rparr>\<rparr>)"
    using b assms(2) by (simp add: writeToFile_def display_chardev_write_def copy_from_user_def)
  show thesis by (rule that [OF w]) (use r in \<open>simp_all add: has_frame_def ready_def\<close>)
qed

section \<open>The test program shows six screens\<close>

lemma getRaw_fill: "getRaw (fillWithColor c fb) = concat (replicate (length fb) (wire_pixel (swap_bytes c)))"
  by (simp add: getRaw_def fillWithColor_def wire_pixel_def swap_bytes_wire comp_def map_replicate_const)

lemma length_getRaw: "length (getRaw fb) = 2 * length fb"
  by (induction fb) (simp_all add: getRaw_def)

lemma show_colors:
  "panel_ok p \<Longrightarrow> length fb = LCD_WIDTH * LCD_HEIGHT \<Longrightarrow>
     \<exists>fb' d. for_list (show_color os) cs (fb, p) = Some (fb', p\<lparr>panel := d\<rparr>) \<and>
       bus d = bus (panel p) @ concat (map (\<lambda>c. data_events (concat (replicate (LCD_WIDTH * LCD_HEIGHT) (wire_pixel (swap_bytes c))))) cs)"
proof (induction cs arbitrary: fb p)
  case Nil
  show ?case by (intro exI [of _ fb] exI [of _ "panel p"]) simp
next
  case (Cons c cs)
  let ?fb = "fillWithColor c fb"
  have l: "length ?fb = LCD_WIDTH * LCD_HEIGHT" using Cons.prems(2) by (simp add: fillWithColor_def)
  then have "length (getRaw ?fb) = get_framebuffer_size" by (simp add: length_getRaw get_framebuffer_size_def fb_size_def)
  with write_whole_frame [OF Cons.prems(1), of "getRaw ?fb" os]
  obtain d where d: "writeToFile os (getRaw ?fb) get_framebuffer_size p = Some (p\<lparr>panel := d\<rparr>)" "ready d" "has_frame d"
    "bus d = bus (panel p) @ data_events (getRaw ?fb)" by blast
  have s: "show_color os c (fb, p) = Some (?fb, p\<lparr>panel := d\<rparr>)" using d(1) by (simp add: show_color_def framebuffer_bytes)
  have "panel_ok (p\<lparr>panel := d\<rparr>)" using d(2,3) by (simp add: panel_ok_def)
  from Cons.IH [OF this l] obtain fb' d' where r: "for_list (show_color os) cs (?fb, p\<lparr>panel := d\<rparr>) = Some (fb', p\<lparr>panel := d'\<rparr>)"
    "bus d' = bus d @ concat (map (\<lambda>c. data_events (concat (replicate (LCD_WIDTH * LCD_HEIGHT) (wire_pixel (swap_bytes c))))) cs)"
    by auto
  have g: "getRaw ?fb = concat (replicate (LCD_WIDTH * LCD_HEIGHT) (wire_pixel (swap_bytes c)))" unfolding getRaw_fill Cons.prems(2) ..
  show ?case by (intro exI [of _ fb'] exI [of _ d'] conjI) (simp add: s r(1), simp only: r(2) d(4) g list.map concat.simps append_assoc)
qed

text \<open>C38: The test program fills the panel with each of its six colours, one transfer of a full screen each, and closes the file; but
  the bytes of a pixel go out low byte first, so what the panel shows is the colour with its bytes swapped. When the device
  is not there or cannot be opened the program throws and sends nothing.\<close>

theorem test_program_frames:
  assumes "panel_ok p" "path_exists os kFrameBufferPath" "open_write os kFrameBufferPath = h" "h \<noteq> - 1"
  shows "\<exists>p'. display_test_main os p = Some (Inr 0, p') \<and> closed_files p' = closed_files p @ [h] \<and>
    bus (panel p') = bus (panel p) @ concat (map (\<lambda>c. data_events (concat (replicate (LCD_WIDTH * LCD_HEIGHT) (wire_pixel (swap_bytes c)))))
      [0xF800, 0x001F, 0x07E0, 0x07FF, 0xF81F, 0xFFE0])"
proof -
  let ?p = "say_line ''Attempted to fill with color\<newline>'' (say_line ''App test init\<newline>'' p)"
  have "length (FramebufferHolder 240 240) = LCD_WIDTH * LCD_HEIGHT"
    unfolding FramebufferHolder_def length_replicate by (simp add: LCD_WIDTH_def LCD_HEIGHT_def)
  moreover have "panel_ok ?p" using assms(1) by (simp add: panel_ok_def)
  ultimately obtain fb d where s: "for_list (show_color os) kFillColorsArray (FramebufferHolder 240 240, ?p) = Some (fb, ?p\<lparr>panel := d\<rparr>)"
    "bus d = bus (panel ?p) @ concat (map (\<lambda>c. data_events (concat (replicate (LCD_WIDTH * LCD_HEIGHT) (wire_pixel (swap_bytes c))))) kFillColorsArray)"
    using show_colors [of ?p "FramebufferHolder 240 240" os kFillColorsArray] by blast
  have k: "kFillColorsArray = [0xF800, 0x001F, 0x07E0, 0x07FF, 0xF81F, 0xFFE0]"
    by (simp add: kFillColorsArray_def COLOR_RED_def COLOR_BLUE_def COLOR_GREEN_def COLOR_CYAN_def COLOR_MAGENTA_def COLOR_YELLOW_def)
  have g: "FileRaiiGuard os kFrameBufferPath = Inr h" using assms(2-4) by (simp add: FileRaiiGuard_def)
  let ?q = "FileRaiiGuard_dtor h (say_line ''App exit\<newline>'' (?p\<lparr>panel := d\<rparr>))"
  have "display_test_main os p = Some (Inr 0, ?q)"
    unfolding display_test_main_def Let_def g sum.case s(1) by simp
  moreover have "closed_files ?q = closed_files p @ [h]" using assms(4) by (simp add: FileRaiiGuard_dtor_def)
  moreover have "panel ?q = d" by (simp add: FileRaiiGuard_dtor_def)
  moreover have "bus (panel ?p) = bus (panel p)" by simp
  ultimately show ?thesis using s(2) unfolding k by (intro exI [of _ ?q] conjI) (simp_all only:)
qed

definition blank_proc :: frame_proc where
  "blank_proc = \<lparr>panel = blank, fileGuard = None, closed_files = [], flushes_ready = 0, app_text = []\<rparr>"

definition frame_os_ok :: frame_os where
  "frame_os_ok = \<lparr>path_exists = \<lambda>_. True, open_write = \<lambda>_. 3, driver_kernel = good_kernel\<rparr>"

lemma blank_proc_ok [simp]: "panel_ok blank_proc"
  by (simp add: panel_ok_def blank_proc_def)

theorem test_program_frames_witness:
  "\<exists>p'. display_test_main frame_os_ok blank_proc = Some (Inr 0, p') \<and> closed_files p' = [3] \<and> length (bus (panel p')) = length (bus blank) + 12"
proof -
  obtain p' where "display_test_main frame_os_ok blank_proc = Some (Inr 0, p')" "closed_files p' = closed_files blank_proc @ [3]"
    "bus (panel p') = bus (panel blank_proc) @ concat (map (\<lambda>c. data_events (concat (replicate (LCD_WIDTH * LCD_HEIGHT) (wire_pixel (swap_bytes c)))))
      [0xF800, 0x001F, 0x07E0, 0x07FF, 0xF81F, 0xFFE0])"
    using test_program_frames [of blank_proc frame_os_ok 3] by (auto simp: frame_os_ok_def)
  then show ?thesis by (intro exI [of _ p'] conjI) (simp_all add: blank_proc_def data_events_def)
qed

section \<open>The flush callback shows every frame\<close>

lemma fillDisplayCb_frame:
  assumes "panel_ok p" "FileRaiiGuard os kFrameBufferPath = Inr h" "fileGuard p = None \<or> fileGuard p = Some h" "length buf = get_framebuffer_size"
  obtains d where "fillDisplayCb os 240 240 buf p = Some (Inr (), p\<lparr>panel := d, fileGuard := Some h, flushes_ready := Suc (flushes_ready p)\<rparr>)"
    "ready d" "has_frame d" "bus d = bus (panel p) @ data_events buf"
proof -
  have h: "h \<noteq> - 1" using assms(2) by (auto simp: FileRaiiGuard_def Let_def split: if_splits)
  have ok: "panel_ok (p\<lparr>fileGuard := Some h\<rparr>)" using assms(1) by (simp add: panel_ok_def)
  from write_whole_frame [OF ok assms(4), of os]
  obtain d where d: "writeToFile os buf get_framebuffer_size (p\<lparr>fileGuard := Some h\<rparr>) = Some (p\<lparr>fileGuard := Some h, panel := d\<rparr>)" "ready d" "has_frame d"
    "bus d = bus (panel p) @ data_events buf" by auto
  have m: "c_mul 240 240 = Some 57600" by (simp add: c_mul_def c_int_def in_int_def)
  have f: "flush_frame os 240 240 h buf (p\<lparr>fileGuard := Some h\<rparr>) = Some (p\<lparr>panel := d, fileGuard := Some h, flushes_ready := Suc (flushes_ready p)\<rparr>)"
    using d(1) h by (simp add: flush_frame_def m writeToFile_checked_def framebuffer_bytes)
  have "fillDisplayCb os 240 240 buf p = Some (Inr (), p\<lparr>panel := d, fileGuard := Some h, flushes_ready := Suc (flushes_ready p)\<rparr>)"
    using assms(2,3) f by (auto simp: fillDisplayCb_def)
  from this d(2-4) show thesis by (rule that)
qed

text \<open>Whatever becomes of the device, a flush of a whole frame throws exactly when the device has still to be opened and cannot.\<close>

definition flush_throws :: "frame_os \<Rightarrow> frame_proc \<Rightarrow> bool" where
  "flush_throws os p \<longleftrightarrow> fileGuard p = None \<and> (\<not> path_exists os kFrameBufferPath \<or> open_write os kFrameBufferPath = - 1)"

lemma fillDisplayCb_runs:
  assumes "panel_ok p" "length buf = get_framebuffer_size"
  shows "\<exists>r p'. fillDisplayCb os 240 240 buf p = Some (r, p') \<and> panel_ok p' \<and> (isl r \<longleftrightarrow> flush_throws os p)"
proof (cases "case fileGuard p of Some h \<Rightarrow> Inr h | None \<Rightarrow> FileRaiiGuard os kFrameBufferPath")
  case (Inl e)
  then show ?thesis using assms(1)
    by (auto simp: fillDisplayCb_def flush_throws_def FileRaiiGuard_def Let_def split: option.splits if_splits)
next
  case (Inr h)
  have ok: "panel_ok (p\<lparr>fileGuard := Some h\<rparr>)" using assms(1) by (simp add: panel_ok_def)
  from write_whole_frame [OF ok assms(2), of os]
  obtain d where d: "writeToFile os buf get_framebuffer_size (p\<lparr>fileGuard := Some h\<rparr>) = Some (p\<lparr>fileGuard := Some h, panel := d\<rparr>)" "ready d" "has_frame d"
    by auto
  have m: "c_mul 240 240 = Some 57600" by (simp add: c_mul_def c_int_def in_int_def)
  have "\<exists>p'. flush_frame os 240 240 h buf (p\<lparr>fileGuard := Some h\<rparr>) = Some p' \<and> panel_ok p'"
    using d assms(1) by (auto simp: flush_frame_def m writeToFile_checked_def framebuffer_bytes panel_ok_def)
  moreover have "\<not> flush_throws os p"
    using Inr by (auto simp: flush_throws_def FileRaiiGuard_def Let_def split: option.splits if_splits)
  ultimately show ?thesis using Inr by (auto simp: fillDisplayCb_def)
qed

text \<open>A run of flushes; a thrown exception ends it.\<close>

fun flush_all :: "frame_os \<Rightarrow> 8 word list list \<Rightarrow> frame_proc \<Rightarrow> ((string + unit) \<times> frame_proc) option" where
  "flush_all os [] p = Some (Inr (), p)"
| "flush_all os (f # fs) p = do {
     (r, p) \<leftarrow> fillDisplayCb os 240 240 f p;
     case r of Inl e \<Rightarrow> Some (Inl e, p) | Inr u \<Rightarrow> flush_all os fs p }"

lemma flush_all_frames:
  assumes "FileRaiiGuard os kFrameBufferPath = Inr h"
  shows "panel_ok p \<Longrightarrow> fileGuard p = None \<or> fileGuard p = Some h \<Longrightarrow> list_all (\<lambda>f. length f = get_framebuffer_size) fs \<Longrightarrow>
    \<exists>p'. flush_all os fs p = Some (Inr (), p') \<and> bus (panel p') = bus (panel p) @ concat (map data_events fs) \<and>
      flushes_ready p' = flushes_ready p + length fs \<and> fileGuard p' = (if fs = [] then fileGuard p else Some h) \<and> closed_files p' = closed_files p"
proof (induction fs arbitrary: p)
  case (Cons f fs)
  from Cons.prems(3) have l: "length f = get_framebuffer_size" "list_all (\<lambda>f. length f = get_framebuffer_size) fs" by simp_all
  obtain d where d: "fillDisplayCb os 240 240 f p = Some (Inr (), p\<lparr>panel := d, fileGuard := Some h, flushes_ready := Suc (flushes_ready p)\<rparr>)"
    "ready d" "has_frame d" "bus d = bus (panel p) @ data_events f"
    using fillDisplayCb_frame [OF Cons.prems(1) assms Cons.prems(2) l(1)] by blast
  let ?q = "p\<lparr>panel := d, fileGuard := Some h, flushes_ready := Suc (flushes_ready p)\<rparr>"
  have "panel_ok ?q" "fileGuard ?q = None \<or> fileGuard ?q = Some h" using d by (simp_all add: panel_ok_def)
  from Cons.IH [OF this l(2)] d show ?case by auto
qed simp

text \<open>C17: Every frame LVGL hands to the flush callback reaches the panel, in order: the bytes of the frame are one transfer of a full screen,
  pixels in the order and with the byte order of the panel, LVGL is told after each, and the device is opened once for all
  of them.\<close>

theorem frames_reach_the_panel:
  assumes "panel_ok p" "fileGuard p = None" "path_exists os kFrameBufferPath" "open_write os kFrameBufferPath = h" "h \<noteq> - 1"
    and "list_all (\<lambda>frame. length frame = LCD_WIDTH * LCD_HEIGHT) frames"
  shows "\<exists>p'. flush_all os (map (\<lambda>frame. concat (map lv_color_bytes frame)) frames) p = Some (Inr (), p') \<and>
    bus (panel p') = bus (panel p) @ concat (map (\<lambda>frame. data_events (concat (map wire_pixel frame))) frames) \<and>
    flushes_ready p' = flushes_ready p + length frames \<and> (frames \<noteq> [] \<longrightarrow> fileGuard p' = Some h) \<and> closed_files p' = closed_files p"
proof -
  have g: "FileRaiiGuard os kFrameBufferPath = Inr h" using assms(3-5) by (simp add: FileRaiiGuard_def)
  have b: "lv_color_bytes = wire_pixel" by (simp add: lv_color_bytes_def LV_COLOR_16_SWAP_def wire_pixel_def fun_eq_iff)
  have "length (concat (map wire_pixel frame)) = 2 * length frame" for frame by (induction frame) (simp_all add: wire_pixel_def)
  then have l: "list_all (\<lambda>f. length f = get_framebuffer_size) (map (\<lambda>frame. concat (map wire_pixel frame)) frames)"
    using assms(6) by (simp add: list_all_iff get_framebuffer_size_def fb_size_def)
  from flush_all_frames [OF g assms(1) _ l] assms(2) show ?thesis unfolding b by (auto simp: comp_def)
qed

theorem frames_reach_the_panel_witness:
  "\<exists>p'. flush_all frame_os_ok [concat (map lv_color_bytes (replicate (LCD_WIDTH * LCD_HEIGHT) COLOR_RED))] blank_proc = Some (Inr (), p') \<and>
    flushes_ready p' = 1 \<and> fileGuard p' = Some 3"
proof -
  let ?frame = "replicate (LCD_WIDTH * LCD_HEIGHT) COLOR_RED"
  have "path_exists frame_os_ok kFrameBufferPath" "open_write frame_os_ok kFrameBufferPath = 3" by (simp_all add: frame_os_ok_def)
  moreover have "fileGuard blank_proc = None" "flushes_ready blank_proc = 0" by (simp_all add: blank_proc_def)
  ultimately show ?thesis using frames_reach_the_panel [of blank_proc frame_os_ok 3 "[?frame]"] by auto
qed

text \<open>Without the device every flush throws, and LVGL is never told that the frame is done.\<close>

lemma flush_without_device:
  "fileGuard p = None \<Longrightarrow> \<not> path_exists os kFrameBufferPath \<Longrightarrow>
     fillDisplayCb os ver hor buf p = Some (Inl ''Bad file path for the FileRaiiGuard'', p)"
  by (simp add: fillDisplayCb_def FileRaiiGuard_def)

lemma test_program_without_device:
  "\<not> path_exists os kFrameBufferPath \<or> open_write os kFrameBufferPath = - 1 \<Longrightarrow>
     \<exists>e p'. display_test_main os p = Some (Inl e, p') \<and> panel p' = panel p \<and> closed_files p' = closed_files p"
  by (auto simp: display_test_main_def FileRaiiGuard_def)

end
