(* ===== verification/Logger.thy ===== *)
theory Logger
  imports Prelude
begin

text \<open>
  The logger of the graphical application, \<^verbatim>\<open>logger_service_impl.cpp\<close> and \<^verbatim>\<open>logger_service.hpp\<close>
  under \<^verbatim>\<open>final_task/userspace_app/logger\<close>, as it is built for the desktop. A view of a text is the memory at
  its address, which \<open>cout\<close> reads up to the NUL. The state of an \<open>atomic_flag\<close> that is not initialised is not
  specified, so it is a parameter.
\<close>

section \<open>Messages\<close>

record logger =
  m_loggerReady :: bool
  logged :: string

definition CaretReset :: string where "CaretReset = [CHR 0x0D, CHR 0x0A, NUL]"

definition logString :: "string \<Rightarrow> logger \<Rightarrow> logger option" where
  "logString toLog l = (if NUL \<in> set toLog then Some (l\<lparr>logged := logged l @ takeWhile (\<lambda>c. c \<noteq> NUL) toLog\<rparr>) else None)"

definition test_and_set :: "logger \<Rightarrow> bool \<times> logger" where
  "test_and_set l = (m_loggerReady l, l\<lparr>m_loggerReady := True\<rparr>)"

partial_function (option) while_flag :: "(logger \<Rightarrow> logger option) \<Rightarrow> logger \<Rightarrow> logger option" where
  "while_flag body l = (let (b, l) = test_and_set l in
     if b then do { l \<leftarrow> body l; while_flag body (l\<lparr>m_loggerReady := False\<rparr>) } else Some l)"

definition logDebugEndl_view :: "string \<Rightarrow> logger \<Rightarrow> logger option" where
  "logDebugEndl_view toLog l = while_flag (\<lambda>l. do { l \<leftarrow> logString toLog l; logString CaretReset l }) l"

definition logDebug_view :: "string \<Rightarrow> logger \<Rightarrow> logger option" where
  "logDebug_view toLog l = while_flag (logString toLog) l"

section \<open>Values of other types\<close>

text \<open>A text with its NUL, a character, or an integer with its size in bytes.\<close>

datatype log_value = Text_value string | Char_value char | Int_value nat int

fun IsStringType :: "log_value \<Rightarrow> bool" where
  "IsStringType (Text_value t) \<longleftrightarrow> True"
| "IsStringType v \<longleftrightarrow> False"

fun IsCharType :: "log_value \<Rightarrow> bool" where
  "IsCharType (Char_value c) \<longleftrightarrow> True"
| "IsCharType v \<longleftrightarrow> False"

fun log_sizeof :: "log_value \<Rightarrow> nat" where
  "log_sizeof (Text_value t) = 8"
| "log_sizeof (Char_value c) = 1"
| "log_sizeof (Int_value n i) = n"

fun log_number :: "log_value \<Rightarrow> int" where
  "log_number (Text_value t) = 0"
| "log_number (Char_value c) = char_int c"
| "log_number (Int_value n i) = i"

fun log_text :: "log_value \<Rightarrow> string" where
  "log_text (Text_value t) = t"
| "log_text v = [NUL]"

definition number_text :: "log_value \<Rightarrow> string option" where
  "number_text v = (let size = log_sizeof v * 8 in
     map_option (\<lambda>t. t @ replicate (size - length t) NUL) (to_chars size (log_number v)))"

definition logDebugEndl :: "log_value \<Rightarrow> logger \<Rightarrow> logger option" where
  "logDebugEndl v l =
     (if \<not> IsStringType v then (case number_text v of None \<Rightarrow> Some l | Some t \<Rightarrow> logDebugEndl_view t l)
      else if IsCharType v then (case number_text (Int_value 2 (log_number v)) of None \<Rightarrow> Some l | Some t \<Rightarrow> logDebugEndl_view t l)
      else logDebugEndl_view (log_text v) l)"

definition logDebug :: "log_value \<Rightarrow> logger \<Rightarrow> logger option" where
  "logDebug v l =
     (if \<not> IsStringType v then (case number_text v of None \<Rightarrow> Some l | Some t \<Rightarrow> logDebug_view t l)
      else if IsCharType v then (case number_text (Int_value 2 (log_number v)) of None \<Rightarrow> Some l | Some t \<Rightarrow> logDebug_view t l)
      else logDebug_view (log_text v) l)"

definition logDebug_array :: "log_value list \<Rightarrow> logger \<Rightarrow> logger option" where
  "logDebug_array arrayToLog l = for_list (\<lambda>arrayItem l. do {
     l \<leftarrow> logDebug (Char_value CHR ''['') l;
     l \<leftarrow> logDebug arrayItem l;
     logDebug (Char_value CHR '']'') l }) arrayToLog l"

definition logDebugEndl_array :: "log_value list \<Rightarrow> logger \<Rightarrow> logger option" where
  "logDebugEndl_array arrayToLog l = do {
     l \<leftarrow> logDebug_array arrayToLog l;
     logDebug (Char_value CHR 0x0A) l }"

section \<open>The loop\<close>

lemma while_flag_clear: "\<not> m_loggerReady l \<Longrightarrow> while_flag body l = Some (l\<lparr>m_loggerReady := True\<rparr>)"
  by (subst while_flag.simps) (simp add: test_and_set_def)

lemma while_flag_set:
  assumes "m_loggerReady l"
  shows "while_flag body l = map_option (\<lambda>l. l\<lparr>m_loggerReady := True\<rparr>) (body l)"
proof -
  have e: "l\<lparr>m_loggerReady := True\<rparr> = l" using assms by simp
  then have "while_flag body l = do { l \<leftarrow> body l; while_flag body (l\<lparr>m_loggerReady := False\<rparr>) }"
    using assms by (subst while_flag.simps) (simp add: test_and_set_def e)
  also have "\<dots> = map_option (\<lambda>l. l\<lparr>m_loggerReady := True\<rparr>) (body l)"
    by (cases "body l") (simp_all add: while_flag_clear)
  finally show ?thesis .
qed

text \<open>One message: printed when the flag was set before, lost when it was not; the flag is set afterwards.\<close>

definition message :: "string \<Rightarrow> logger \<Rightarrow> logger" where
  "message t l = l\<lparr>m_loggerReady := True, logged := logged l @ (if m_loggerReady l then t else [])\<rparr>"

lemma take_text: "NUL \<notin> set t \<Longrightarrow> takeWhile (\<lambda>c. c \<noteq> NUL) (t @ NUL # r) = t"
  by (induction t) auto

lemma CaretReset_text: "NUL \<in> set CaretReset" "takeWhile (\<lambda>c. c \<noteq> NUL) CaretReset = [CHR 0x0D, CHR 0x0A]"
  by (simp_all add: CaretReset_def NUL_def)

lemma logDebug_view_message: "NUL \<notin> set t \<Longrightarrow> logDebug_view (t @ NUL # r) l = Some (message t l)"
  by (cases "m_loggerReady l")
    (simp_all add: logDebug_view_def while_flag_set while_flag_clear logString_def message_def take_text)

lemma logDebugEndl_view_message:
  "NUL \<notin> set t \<Longrightarrow> logDebugEndl_view (t @ NUL # r) l = Some (message (t @ [CHR 0x0D, CHR 0x0A]) l)"
  using CaretReset_text
  by (cases "m_loggerReady l") (simp_all add: logDebugEndl_view_def while_flag_set while_flag_clear logString_def message_def take_text)

section \<open>What is printed\<close>

definition fits_bytes :: "nat \<Rightarrow> int \<Rightarrow> bool" where
  "fits_bytes n i \<longleftrightarrow> - (2 ^ (8 * n)) < i \<and> i < 2 ^ (8 * n)"

text \<open>A text ends in its only NUL; an integer has 1 to 8 bytes and a value of that size, signed or not.\<close>

fun value_ok :: "log_value \<Rightarrow> bool" where
  "value_ok (Text_value t) \<longleftrightarrow> t \<noteq> [] \<and> last t = NUL \<and> NUL \<notin> set (butlast t)"
| "value_ok (Char_value c) \<longleftrightarrow> True"
| "value_ok (Int_value n i) \<longleftrightarrow> 0 < n \<and> n \<le> 8 \<and> fits_bytes n i"

fun value_text :: "log_value \<Rightarrow> string" where
  "value_text (Text_value t) = butlast t"
| "value_text (Char_value c) = show_int (char_int c)"
| "value_text (Int_value n i) = show_int i"

lemma number_room: "0 < n \<Longrightarrow> fits_bytes n i \<Longrightarrow> length (show_int i) < n * 8"
proof -
  assume n: "0 < n" "fits_bytes n i"
  have "(2 :: int) ^ (8 * n) \<le> 10 ^ (3 * n)" using power_mono [of "(2::int) ^ 8" "10 ^ 3" n] by (simp add: power_mult)
  then have "\<bar>i\<bar> < 10 ^ (3 * n)" using n(2) by (auto simp: fits_bytes_def)
  then have "length (show_int i) \<le> Suc (3 * n)" using n(1) by (intro length_show_int) auto
  with n(1) show ?thesis by simp
qed

lemma number_text_ok:
  assumes "0 < log_sizeof v" "fits_bytes (log_sizeof v) (log_number v)"
  obtains r where "number_text v = Some (show_int (log_number v) @ NUL # r)"
proof -
  let ?t = "show_int (log_number v)"
  have l: "length ?t < log_sizeof v * 8" using number_room [OF assms] .
  then have "replicate (log_sizeof v * 8 - length ?t) NUL = NUL # replicate (log_sizeof v * 8 - length ?t - 1) NUL"
    by (cases "log_sizeof v * 8 - length ?t") auto
  with l show thesis by (intro that [of "replicate (log_sizeof v * 8 - length ?t - 1) NUL"]) (simp add: number_text_def to_chars_def Let_def)
qed

lemma char_fits: "fits_bytes 1 (char_int c)"
proof -
  have "0 \<le> (of_char c :: int) mod 256" "(of_char c :: int) mod 256 < 256" by (rule pos_mod_sign, simp, rule pos_mod_bound, simp)
  then have "0 \<le> (of_char c :: int)" "(of_char c :: int) < 256" by (simp_all only: of_char_mod_256)
  then show ?thesis by (simp add: fits_bytes_def char_int_def)
qed

lemma number_message:
  assumes "value_ok v" "\<not> IsStringType v"
  shows "logDebug v l = Some (message (value_text v) l) \<and> logDebugEndl v l = Some (message (value_text v @ [CHR 0x0D, CHR 0x0A]) l)"
proof -
  have s: "0 < log_sizeof v" "fits_bytes (log_sizeof v) (log_number v)" "value_text v = show_int (log_number v)"
    using assms char_fits by (cases v; simp)+
  obtain r where "number_text v = Some (show_int (log_number v) @ NUL # r)" by (rule number_text_ok [OF s(1,2)])
  with assms(2) s(3) show ?thesis by (simp add: logDebug_def logDebugEndl_def logDebug_view_message logDebugEndl_view_message)
qed

lemma text_message:
  assumes "value_ok v" "IsStringType v"
  shows "logDebug v l = Some (message (value_text v) l) \<and> logDebugEndl v l = Some (message (value_text v @ [CHR 0x0D, CHR 0x0A]) l)"
proof -
  obtain t where v: "v = Text_value t" using assms(2) by (cases v) auto
  then have "t = butlast t @ NUL # []" "NUL \<notin> set (butlast t)" using assms(1) by (metis append_butlast_last_id value_ok.simps(1), simp)
  then show ?thesis using v logDebug_view_message [of "butlast t" "[]" l] logDebugEndl_view_message [of "butlast t" "[]" l]
    by (simp add: logDebug_def logDebugEndl_def)
qed

lemma value_message:
  "value_ok v \<Longrightarrow> logDebug v l = Some (message (value_text v) l)"
  "value_ok v \<Longrightarrow> logDebugEndl v l = Some (message (value_text v @ [CHR 0x0D, CHR 0x0A]) l)"
  using number_message text_message by blast+

section \<open>Properties\<close>

text \<open>The four overloads a caller chooses from, and the messages each sends.\<close>

datatype log_call = LOG_DEBUG log_value | LOG_DEBUG_ENDL log_value | Log_array "log_value list" | Log_array_endl "log_value list"

fun do_log :: "log_call \<Rightarrow> logger \<Rightarrow> logger option" where
  "do_log (LOG_DEBUG v) = logDebug v"
| "do_log (LOG_DEBUG_ENDL v) = logDebugEndl v"
| "do_log (Log_array vs) = logDebug_array vs"
| "do_log (Log_array_endl vs) = logDebugEndl_array vs"

fun call_values :: "log_call \<Rightarrow> log_value list" where
  "call_values (LOG_DEBUG v) = [v]"
| "call_values (LOG_DEBUG_ENDL v) = [v]"
| "call_values (Log_array vs) = vs"
| "call_values (Log_array_endl vs) = vs"

definition array_messages :: "log_value list \<Rightarrow> string list" where
  "array_messages vs = concat (map (\<lambda>v. [''91'', value_text v, ''93'']) vs)"

fun messages :: "log_call \<Rightarrow> string list" where
  "messages (LOG_DEBUG v) = [value_text v]"
| "messages (LOG_DEBUG_ENDL v) = [value_text v @ [CHR 0x0D, CHR 0x0A]]"
| "messages (Log_array vs) = array_messages vs"
| "messages (Log_array_endl vs) = array_messages vs @ [''10'']"

definition printed :: "bool \<Rightarrow> string list \<Rightarrow> string" where
  "printed ready ms = concat (if ready then ms else tl ms)"

lemma fold_message:
  "fold message ms l = (if ms = [] then l else l\<lparr>m_loggerReady := True, logged := logged l @ printed (m_loggerReady l) ms\<rparr>)"
proof (induction ms arbitrary: l)
  case (Cons t ms)
  have "m_loggerReady (message t l)" "logged (message t l) = logged l @ (if m_loggerReady l then t else [])"
    "(message t l)\<lparr>m_loggerReady := True, logged := x\<rparr> = l\<lparr>m_loggerReady := True, logged := x\<rparr>" for x
    by (simp_all add: message_def)
  with Cons.IH [of "message t l"] show ?case by (cases "ms = []") (simp_all add: printed_def message_def)
qed simp

lemma bracket_text: "show_int (char_int CHR ''['') = ''91''" "show_int (char_int CHR '']'') = ''93''" "show_int (char_int CHR 0x0A) = ''10''"
  by code_simp+

lemma array_message: "list_all value_ok vs \<Longrightarrow> logDebug_array vs l = Some (fold message (array_messages vs) l)"
  by (induction vs arbitrary: l) (simp_all add: logDebug_array_def array_messages_def value_message bracket_text)

lemma log_call_messages: "list_all value_ok (call_values c) \<Longrightarrow> do_log c l = Some (fold message (messages c) l)"
  by (cases c) (simp_all add: value_message array_message logDebugEndl_array_def bracket_text)

lemma log_calls_messages:
  "list_all (\<lambda>c. list_all value_ok (call_values c)) cs \<Longrightarrow> for_list do_log cs l = Some (fold message (concat (map messages cs)) l)"
  by (induction cs arbitrary: l) (simp_all add: log_call_messages)

text \<open>C40: The logger prints what it is given, each message once and in order, with the end of line where one was asked for, characters as the
  decimal number of their code; but if the flag was clear at first, the first message is lost.\<close>

theorem logger_prints:
  assumes "list_all (\<lambda>c. list_all value_ok (call_values c)) cs"
  shows "\<exists>l'. for_list do_log cs l = Some l' \<and>
    logged l' = logged l @ concat (if m_loggerReady l then concat (map messages cs) else tl (concat (map messages cs)))"
proof (cases "concat (map messages cs) = []")
  case True
  then show ?thesis using log_calls_messages [OF assms, of l] by (simp only: True fold.simps id_apply list.sel if_cancel concat.simps) simp
next
  case False
  then show ?thesis using log_calls_messages [OF assms, of l] fold_message [of "concat (map messages cs)" l] by (simp only: if_False printed_def) simp
qed

theorem logger_prints_witness:
  "\<exists>l'. for_list do_log [LOG_DEBUG (Text_value (''Refresh time:'' @ [NUL])), LOG_DEBUG_ENDL (Int_value 4 17), Log_array [Char_value CHR ''A'']]
      \<lparr>m_loggerReady = False, logged = []\<rparr> = Some l' \<and>
    logged l' = ''17'' @ [CHR 0x0D, CHR 0x0A] @ ''916593''"
proof -
  let ?cs = "[LOG_DEBUG (Text_value (''Refresh time:'' @ [NUL])), LOG_DEBUG_ENDL (Int_value 4 17), Log_array [Char_value CHR ''A'']]"
  have ok: "list_all (\<lambda>c. list_all value_ok (call_values c)) ?cs" by (simp add: fits_bytes_def NUL_def)
  have "concat (tl (concat (map messages ?cs))) = ''17'' @ [CHR 0x0D, CHR 0x0A] @ ''916593''" by code_simp
  then show ?thesis using logger_prints [OF ok, of "\<lparr>m_loggerReady = False, logged = []\<rparr>"] by auto
qed

end
