(* ===== verification/Platform.thy ===== *)
theory Platform
  imports ViewModelRuns LvglTree FrameFile Logger
begin

text \<open>
  The graphical application around its view, under \<^verbatim>\<open>final_task/userspace_app\<close>: the platform back end with the
  thread that tells LVGL the time (\<^verbatim>\<open>gs_platform_layer.cpp\<close>), the service that starts LVGL
  (\<^verbatim>\<open>gs_lvgl_service.cpp\<close>) and the main loop (\<^verbatim>\<open>ap_application.cpp\<close>, \<^verbatim>\<open>main.cpp\<close>). The main thread and the tick
  thread run in any interleaving; while LVGL's task handler runs, it calls the callbacks of the view.
\<close>

section \<open>The platform back end\<close>

text \<open>
  The tick thread has a pointer to the back end, whose flag it reads; once the back end is destroyed that is a
  fault. \<open>told_ms\<close> is the time LVGL was told.
\<close>

datatype tick_pc = Tick_testing | Tick_sleeping | Tick_ended

record platform =
  m_isTickThreadRunning :: "bool obj"
  tick_threads :: "tick_pc list"
  told_ms :: nat
  stdout_unbuffered :: bool

definition LvglNotificationTime :: nat where "LvglNotificationTime = 5"

definition PlatformBackend :: platform where
  "PlatformBackend = \<lparr>m_isTickThreadRunning = Live False, tick_threads = [], told_ms = 0, stdout_unbuffered = False\<rparr>"

definition PlatformBackend_dtor :: "platform \<Rightarrow> platform option" where
  "PlatformBackend_dtor p = (case m_isTickThreadRunning p of Live b \<Rightarrow> Some (p\<lparr>m_isTickThreadRunning := Live False\<rparr>) | _ \<Rightarrow> None)"

definition start_tick_thread :: "platform \<Rightarrow> platform option" where
  "start_tick_thread p = (case m_isTickThreadRunning p of
     Live running \<Rightarrow>
       if \<not> running then
         Some (p\<lparr>m_isTickThreadRunning := Live True, stdout_unbuffered := True, tick_threads := tick_threads p @ [Tick_testing]\<rparr>)
       else Some p
   | _ \<Rightarrow> None)"

text \<open>One step of a tick thread: the test of the flag with the call that follows, or the sleep.\<close>

fun tick_thread :: "tick_pc \<Rightarrow> platform \<Rightarrow> (tick_pc \<times> platform) outcome" where
  "tick_thread Tick_testing p = (case m_isTickThreadRunning p of
     Live True \<Rightarrow> Step (Tick_sleeping, p\<lparr>told_ms := told_ms p + LvglNotificationTime\<rparr>)
   | Live False \<Rightarrow> Step (Tick_ended, p)
   | _ \<Rightarrow> Fault)"
| "tick_thread Tick_sleeping p = Step (Tick_testing, p)"
| "tick_thread Tick_ended p = Blocked"

definition step_tick_thread :: "nat \<Rightarrow> platform \<Rightarrow> platform outcome" where
  "step_tick_thread i p = (case tick_thread (tick_threads p ! i) p of
     Step (pc, p) \<Rightarrow> Step (p\<lparr>tick_threads := (tick_threads p)[i := pc]\<rparr>)
   | Fault \<Rightarrow> Fault
   | Blocked \<Rightarrow> Blocked)"

text \<open>The memory of the back end goes with the object it is a member of.\<close>

definition free_platform :: "platform \<Rightarrow> platform" where
  "free_platform p = p\<lparr>m_isTickThreadRunning := Freed\<rparr>"

text \<open>
  Nothing waits for the tick thread: if it sleeps while the back end is destroyed and freed, its next test is a
  use after free.
\<close>

lemma tick_thread_outlives_backend:
  assumes "m_isTickThreadRunning p = Live True" "i < length (tick_threads p)" "tick_threads p ! i = Tick_sleeping"
  obtains p1 p2 where "PlatformBackend_dtor p = Some p1" "step_tick_thread i (free_platform p1) = Step p2" "step_tick_thread i p2 = Fault"
proof -
  let ?p1 = "p\<lparr>m_isTickThreadRunning := Live False\<rparr>"
  let ?p2 = "(free_platform ?p1)\<lparr>tick_threads := (tick_threads p)[i := Tick_testing]\<rparr>"
  have "PlatformBackend_dtor p = Some ?p1" "step_tick_thread i (free_platform ?p1) = Step ?p2" "step_tick_thread i ?p2 = Fault"
    using assms by (simp_all add: PlatformBackend_dtor_def step_tick_thread_def free_platform_def)
  then show thesis by (rule that)
qed

section \<open>The service\<close>

text \<open>What LVGL is given for a draw buffer: the vector object itself, or its elements.\<close>

datatype draw_area = Vector_object | Vector_elements nat

record disp_drv =
  draw_buf :: "(draw_area \<times> draw_area \<times> nat) option"
  hor_res :: int
  ver_res :: int
  full_refresh :: bool
  monitor_cb :: bool
  flush_cb :: bool

datatype service_call = Lv_log_register_print_cb | Lv_init | Lv_disp_drv_register disp_drv

record service =
  m_dispFrameBufFirst :: nat
  m_dispFrameBufSecond :: nat
  service_calls :: "service_call list"

definition LV_HOR_RES_MAX :: nat where "LV_HOR_RES_MAX = 240"
definition LV_VER_RES_MAX :: nat where "LV_VER_RES_MAX = 240"

definition DisplayBufferSize :: nat where "DisplayBufferSize = LV_HOR_RES_MAX * LV_VER_RES_MAX"

definition service_did :: "service_call \<Rightarrow> service \<Rightarrow> service" where
  "service_did c s = s\<lparr>service_calls := service_calls s @ [c]\<rparr>"

definition lvglLoggerCallback :: "string \<Rightarrow> logger \<Rightarrow> logger option" where
  "lvglLoggerCallback buffer = logDebugEndl (Text_value buffer)"

definition monitorCallback :: "32 word \<Rightarrow> 32 word \<Rightarrow> logger \<Rightarrow> logger option" where
  "monitorCallback time px l = do {
     l \<leftarrow> logDebug (Text_value (''Refresh time:'' @ [NUL])) l;
     l \<leftarrow> logDebugEndl (Int_value 4 (uint time)) l;
     l \<leftarrow> logDebug (Text_value (''Refreshed pixels:'' @ [NUL])) l;
     logDebugEndl (Int_value 4 (uint px)) l }"

definition platformDependentInit :: "disp_drv \<Rightarrow> disp_drv" where
  "platformDependentInit displayDriver = displayDriver\<lparr>flush_cb := True\<rparr>"

definition initDisplayDriver :: "disp_drv \<Rightarrow> service \<Rightarrow> service" where
  "initDisplayDriver lv_disp_drv_init s =
     (let s = service_did Lv_init s;
          displayBuffer = (Vector_object, Vector_object, DisplayBufferSize);
          m_glDisplayDriver = lv_disp_drv_init;
          m_glDisplayDriver = m_glDisplayDriver\<lparr>draw_buf := Some displayBuffer, hor_res := int LV_HOR_RES_MAX,
            ver_res := int LV_VER_RES_MAX, full_refresh := True\<rparr>;
          m_glDisplayDriver = m_glDisplayDriver\<lparr>monitor_cb := True\<rparr>;
          m_glDisplayDriver = platformDependentInit m_glDisplayDriver in
      service_did (Lv_disp_drv_register m_glDisplayDriver) s)"

definition initLvglLogger :: "service \<Rightarrow> service" where
  "initLvglLogger s = service_did Lv_log_register_print_cb s"

text \<open>The constructor; the view model is made last. \<open>lv_disp_drv_init\<close> is what LVGL fills a driver with.\<close>

definition GSLvglServiceImpl :: "disp_drv \<Rightarrow> 'w lvgl \<Rightarrow> 'w ui \<Rightarrow> (service \<times> platform \<times> 'w ui) option" where
  "GSLvglServiceImpl lv_disp_drv_init L g = do {
     let s = \<lparr>m_dispFrameBufFirst = LV_HOR_RES_MAX * LV_VER_RES_MAX, m_dispFrameBufSecond = LV_HOR_RES_MAX * LV_VER_RES_MAX, service_calls = []\<rparr>;
     let s = initDisplayDriver lv_disp_drv_init (initLvglLogger s);
     g \<leftarrow> RemindersViewModel L g;
     Some (s, PlatformBackend, g) }"

text \<open>
  LVGL draws two bytes per pixel into the areas it was given. The elements of the vectors would have
  room for that; the vector objects, of a few machine words, have not.
\<close>

definition area_bytes :: "nat \<Rightarrow> draw_area \<Rightarrow> nat" where
  "area_bytes sizeof_vector a = (case a of Vector_object \<Rightarrow> sizeof_vector | Vector_elements n \<Rightarrow> 2 * n)"

lemma draw_buffers_overrun:
  assumes "GSLvglServiceImpl drv0 L g = Some (s, p, g')" "Lv_disp_drv_register drv \<in> set (service_calls s)" "sizeof_vector < 115200"
  shows "\<exists>a b n. draw_buf drv = Some (a, b, n) \<and> area_bytes sizeof_vector a < 2 * n \<and> area_bytes sizeof_vector b < 2 * n \<and>
    area_bytes sizeof_vector (Vector_elements (m_dispFrameBufFirst s)) = 2 * n"
  using assms by (auto simp: GSLvglServiceImpl_def initDisplayDriver_def initLvglLogger_def service_did_def platformDependentInit_def
      area_bytes_def DisplayBufferSize_def LV_HOR_RES_MAX_def LV_VER_RES_MAX_def Let_def split: bind_splits)

fun registered :: "service_call list \<Rightarrow> disp_drv option" where
  "registered [] = None"
| "registered (Lv_disp_drv_register drv # cs) = Some drv"
| "registered (c # cs) = registered cs"

lemma registered_areas:
  assumes "GSLvglServiceImpl drv0 L g = Some (s, p, g')"
  shows "\<exists>drv. registered (service_calls s) = Some drv \<and> draw_buf drv = Some (Vector_object, Vector_object, DisplayBufferSize) \<and>
    flush_cb drv \<and> monitor_cb drv \<and> hor_res drv = 240 \<and> ver_res drv = 240"
  using assms by (auto simp: GSLvglServiceImpl_def initDisplayDriver_def initLvglLogger_def service_did_def platformDependentInit_def
      LV_HOR_RES_MAX_def LV_VER_RES_MAX_def Let_def split: bind_splits)

text \<open>The display that is registered has its callbacks, and its resolution is that of the driver's framebuffer.\<close>

lemma registered_display:
  assumes "GSLvglServiceImpl drv0 L g = Some (s, p, g')"
  shows "\<exists>drv. service_calls s = [Lv_log_register_print_cb, Lv_init, Lv_disp_drv_register drv] \<and> full_refresh drv \<and> monitor_cb drv \<and> flush_cb drv \<and>
    hor_res drv = int LCD_WIDTH \<and> ver_res drv = int LCD_HEIGHT"
  using assms by (auto simp: GSLvglServiceImpl_def initDisplayDriver_def initLvglLogger_def service_did_def platformDependentInit_def
      LV_HOR_RES_MAX_def LV_VER_RES_MAX_def LCD_WIDTH_def LCD_HEIGHT_def Let_def split: bind_splits)

lemma uint_value_ok: "value_ok (Int_value 4 (uint (w :: 32 word)))"
proof -
  have "- (2 ^ 32) < (0 :: int)" by simp
  also have "0 \<le> uint w" by (rule uint_ge_0)
  finally show ?thesis using uint_lt2p [of w] by (simp add: fits_bytes_def)
qed

text \<open>The four messages of the monitor; it always returns.\<close>

lemma monitorCallback_message:
  "monitorCallback time px l = Some (message (show_int (uint px) @ [CHR 0x0D, CHR 0x0A]) (message ''Refreshed pixels:''
     (message (show_int (uint time) @ [CHR 0x0D, CHR 0x0A]) (message ''Refresh time:'' l))))"
proof -
  have t: "value_ok (Text_value (''Refresh time:'' @ [NUL]))" "value_ok (Text_value (''Refreshed pixels:'' @ [NUL]))" by (simp_all add: NUL_def)
  have "value_text (Text_value (t @ [NUL])) = t" for t by simp
  then show ?thesis unfolding monitorCallback_def value_message(1) [OF t(1)] value_message(1) [OF t(2)] value_message(2) [OF uint_value_ok]
    by simp
qed

lemma monitorCallback_logs:
  "m_loggerReady l \<Longrightarrow> \<exists>l'. monitorCallback time px l = Some l' \<and> m_loggerReady l' \<and> logged l' = logged l @
     ''Refresh time:'' @ show_int (uint time) @ [CHR 0x0D, CHR 0x0A] @ ''Refreshed pixels:'' @ show_int (uint px) @ [CHR 0x0D, CHR 0x0A]"
  by (simp add: monitorCallback_message message_def)

end
