(* ===== verification/Application.thy ===== *)
theory Application
  imports Platform
begin

text \<open>
  The main loop of the graphical application (\<^verbatim>\<open>ap_application.cpp\<close>, \<^verbatim>\<open>main.cpp\<close>) with everything it runs: the
  view and its callbacks, the refresh of the display with the flush callback, the platform back end and the tick thread, in any
  interleaving. The flag of the loop is never given a value, so the one it happens to have is a parameter, like the size of a
  vector object and, at each refresh, what LVGL draws and the device.
\<close>

section \<open>State and steps\<close>

datatype app_pc = App_test | App_round | App_handler | App_sleep | App_destroy | App_free | App_exit | App_terminated

record 'w gui_app =
  m_applicationRuning :: bool
  platform :: platform
  gui :: "'w ui"
  m_graphicsService :: service
  screen :: frame_proc
  log :: logger
  app_at :: app_pc

text \<open>\<open>screen\<close> holds what the flush callback works on, \<open>log\<close> the logger.\<close>

definition Application :: "disp_drv \<Rightarrow> bool \<Rightarrow> 'w lvgl \<Rightarrow> 'w ui \<Rightarrow> frame_proc \<Rightarrow> logger \<Rightarrow> 'w gui_app option" where
  "Application lv_disp_drv_init b L g scr l = do {
     (graphicsService, p, g) \<leftarrow> GSLvglServiceImpl lv_disp_drv_init L g;
     Some \<lparr>m_applicationRuning = b, platform = p, gui = g, m_graphicsService = graphicsService, screen = scr, log = l, app_at = App_test\<rparr> }"

text \<open>
  The test of the loop; \<open>executeLvTaskHandler\<close>, which starts the tick thread and goes into LVGL's task handler, from which
  two more steps lead through its sleep back to the test (what happens inside are the refreshes, callbacks and changes below); and
  the destructors: the members of the service in the reverse order, the view, then the back end, then the memory of both.
\<close>

definition runApplicationLoop :: "'w gui_app \<Rightarrow> 'w gui_app" where
  "runApplicationLoop a = a\<lparr>app_at := if m_applicationRuning a then App_round else App_destroy\<rparr>"

definition executeLvTaskHandler :: "'w gui_app \<Rightarrow> 'w gui_app option" where
  "executeLvTaskHandler a = do {
     p \<leftarrow> start_tick_thread (platform a);
     Some (a\<lparr>platform := p, app_at := App_handler\<rparr>) }"

definition Application_dtor :: "'w lvgl \<Rightarrow> 'w gui_app \<Rightarrow> 'w gui_app option" where
  "Application_dtor L a = do {
     g \<leftarrow> RemindersViewModel_dtor L (gui a);
     p \<leftarrow> PlatformBackend_dtor (platform a);
     Some (a\<lparr>gui := g, platform := p, app_at := App_free\<rparr>) }"

fun app_main_step :: "'w lvgl \<Rightarrow> app_pc \<Rightarrow> 'w gui_app \<Rightarrow> 'w gui_app outcome" where
  "app_main_step L App_test a = Step (runApplicationLoop a)"
| "app_main_step L App_round a = outcome_of (executeLvTaskHandler a)"
| "app_main_step L App_handler a = Step (a\<lparr>app_at := App_sleep\<rparr>)"
| "app_main_step L App_sleep a = Step (a\<lparr>app_at := App_test\<rparr>)"
| "app_main_step L App_destroy a = outcome_of (Application_dtor L a)"
| "app_main_step L App_free a = Step (a\<lparr>platform := free_platform (platform a), app_at := App_exit\<rparr>)"
| "app_main_step L App_exit a = Blocked"
| "app_main_step L App_terminated a = Blocked"

text \<open>
  A refresh: LVGL draws into one of the areas it was given, calls the flush callback with it and then the monitor. Drawing
  behind the end of the area is a fault; an exception of the callback is caught nowhere and ends the program.
\<close>

definition lv_refresh ::
  "nat \<Rightarrow> frame_os \<Rightarrow> 8 word list \<Rightarrow> bool \<Rightarrow> 32 word \<Rightarrow> 32 word \<Rightarrow> 'w gui_app \<Rightarrow> 'w gui_app outcome" where
  "lv_refresh sizeof_vector os drawn second time px a = (case registered (service_calls (m_graphicsService a)) of
     None \<Rightarrow> Blocked
   | Some drv \<Rightarrow> (case draw_buf drv of
       None \<Rightarrow> Fault
     | Some (buf1, buf2, n) \<Rightarrow>
         if area_bytes sizeof_vector (if second then buf2 else buf1) < length drawn then Fault
         else (case fillDisplayCb os (ver_res drv) (hor_res drv) drawn (screen a) of
            None \<Rightarrow> Fault
          | Some (Inl e, scr) \<Rightarrow> Step (a\<lparr>screen := scr, app_at := App_terminated\<rparr>)
          | Some (Inr u, scr) \<Rightarrow>
              outcome_of (do { l \<leftarrow> monitorCallback time px (log a); Some (a\<lparr>screen := scr, log := l\<rparr>) }))))"

text \<open>With \<open>full_refresh\<close> every pixel of the display is drawn, two bytes each.\<close>

definition whole_frame :: "8 word list \<Rightarrow> bool" where
  "whole_frame drawn \<longleftrightarrow> length drawn = 2 * (LV_HOR_RES_MAX * LV_VER_RES_MAX)"

definition app_tick_step :: "nat \<Rightarrow> 'w gui_app \<Rightarrow> 'w gui_app outcome" where
  "app_tick_step i a = (case step_tick_thread i (platform a) of
     Step p \<Rightarrow> Step (a\<lparr>platform := p\<rparr>) | Fault \<Rightarrow> Fault | Blocked \<Rightarrow> Blocked)"

lemmas app_defs = runApplicationLoop_def executeLvTaskHandler_def Application_dtor_def outcome_of_def

text \<open>Inside the task handler LVGL refreshes the display, calls callbacks and works on its own. \<open>vs\<close> is the size of a vector object.\<close>

inductive app_step :: "nat \<Rightarrow> 'w lvgl \<Rightarrow> 'w gui_app \<Rightarrow> 'w gui_app \<Rightarrow> bool" for vs L where
  main: "app_main_step L (app_at a) a = Step a' \<Longrightarrow> app_step vs L a a'"
| tick: "app_at a \<noteq> App_terminated \<Longrightarrow> i < length (tick_threads (platform a)) \<Longrightarrow> app_tick_step i a = Step a' \<Longrightarrow> app_step vs L a a'"
| callback: "app_at a = App_handler \<Longrightarrow> possible L e (gui a) \<Longrightarrow> handle_event L e (gui a) = Some g \<Longrightarrow> app_step vs L a (a\<lparr>gui := g\<rparr>)"
| idle: "app_at a = App_handler \<Longrightarrow> lvgl_idle L (gui a) w \<Longrightarrow> app_step vs L a (a\<lparr>gui := (gui a)\<lparr>widgets := w\<rparr>\<rparr>)"
| refresh: "app_at a = App_handler \<Longrightarrow> whole_frame drawn \<Longrightarrow> lv_refresh vs os drawn second time px a = Step a' \<Longrightarrow> app_step vs L a a'"

inductive app_reachable :: "nat \<Rightarrow> 'w lvgl \<Rightarrow> bool \<Rightarrow> 'w gui_app \<Rightarrow> bool" for vs L b where
  start: "queue_model g0 = init_state\<lparr>oom := bs\<rparr> \<Longrightarrow> panel_ok scr \<Longrightarrow> Application drv0 b L g0 scr l = Some a \<Longrightarrow> app_reachable vs L b a"
| step: "app_reachable vs L b a \<Longrightarrow> app_step vs L a a' \<Longrightarrow> app_reachable vs L b a'"

section \<open>The invariant\<close>

text \<open>
  While the loop runs, there is at most one tick thread and the flag says whether it was started; the loop only ends when
  its flag was not set at first, and then there is none. The driver that is registered has the addresses of the vector objects.
\<close>

definition vectors_registered :: "service \<Rightarrow> bool" where
  "vectors_registered s \<longleftrightarrow> (\<exists>drv. registered (service_calls s) = Some drv \<and>
     draw_buf drv = Some (Vector_object, Vector_object, DisplayBufferSize) \<and> hor_res drv = 240 \<and> ver_res drv = 240)"

definition app_inv :: "'w lvgl \<Rightarrow> bool \<Rightarrow> 'w gui_app \<Rightarrow> bool" where
  "app_inv L b a \<longleftrightarrow> vectors_registered (m_graphicsService a) \<and> panel_ok (screen a) \<and> m_applicationRuning a = b \<and> length (tick_threads (platform a)) \<le> 1 \<and>
     (app_at a \<in> {App_free, App_exit} \<or> ui_reachable L (gui a)) \<and>
     (if b then app_at a \<in> {App_test, App_round, App_handler, App_sleep, App_terminated} \<and> Tick_ended \<notin> set (tick_threads (platform a)) \<and>
           m_isTickThreadRunning (platform a) = Live (tick_threads (platform a) \<noteq> [])
      else app_at a \<in> {App_test, App_destroy, App_free, App_exit} \<and> tick_threads (platform a) = [] \<and>
           m_isTickThreadRunning (platform a) = (if app_at a = App_exit then Freed else Live False))"

lemma one_thread:
  assumes "length ts \<le> 1" "i < length ts"
  shows "i = 0 \<and> ts = [ts ! 0]"
  using assms by (cases ts) auto

lemma app_tick_step_inv:
  assumes "app_inv L b a" "i < length (tick_threads (platform a))"
  shows "\<exists>a'. app_tick_step i a = Step a' \<and> app_inv L b a'"
proof -
  let ?p = "platform a"
  obtain t where t: "tick_threads ?p = [t]" "i = 0" using one_thread [OF _ assms(2)] assms(1) by (auto simp: app_inv_def)
  then have b: "b" "m_isTickThreadRunning ?p = Live True" "t \<noteq> Tick_ended" using assms(1) by (auto simp: app_inv_def split: if_splits)
  show ?thesis using assms(1) t b
    by (cases t) (auto simp: app_tick_step_def step_tick_thread_def app_inv_def)
qed

lemma app_main_step_inv:
  assumes "app_inv L b a" "app_main_step L (app_at a) a = Step a'"
  shows "app_inv L b a'"
proof (cases "app_at a")
  case App_test
  then show ?thesis using assms by (auto simp: app_inv_def app_defs)
next
  case App_round
  then show ?thesis using assms
    by (auto simp: app_inv_def app_defs start_tick_thread_def split: if_splits option.splits)
next
  case App_destroy
  then show ?thesis using assms
    by (auto simp: app_inv_def app_defs PlatformBackend_dtor_def split: if_splits option.splits bind_splits)
qed (use assms in \<open>auto simp: app_inv_def free_platform_def split: if_splits\<close>)

text \<open>A refresh draws over the vector objects, and does nothing worse where these happen to be large enough.\<close>

lemma lv_refresh_outcome:
  assumes "app_inv L b a" "whole_frame drawn"
  shows "if vs < 115200 then lv_refresh vs os drawn second time px a = Fault
    else \<exists>scr l. panel_ok scr \<and> lv_refresh vs os drawn second time px a =
      Step (a\<lparr>screen := scr, log := l, app_at := (if flush_throws os (screen a) then App_terminated else app_at a)\<rparr>)"
proof -
  have l: "length drawn = 115200" using assms(2) by (simp add: whole_frame_def LV_HOR_RES_MAX_def LV_VER_RES_MAX_def)
  obtain drv where drv: "registered (service_calls (m_graphicsService a)) = Some drv"
    "draw_buf drv = Some (Vector_object, Vector_object, DisplayBufferSize)" "hor_res drv = 240" "ver_res drv = 240"
    using assms(1) by (auto simp: app_inv_def vectors_registered_def)
  have ok: "panel_ok (screen a)" using assms(1) by (simp add: app_inv_def)
  have "length drawn = get_framebuffer_size" using l framebuffer_bytes by simp
  from fillDisplayCb_runs [OF ok this, of os] obtain r p' where f: "fillDisplayCb os 240 240 drawn (screen a) = Some (r, p')" "panel_ok p'"
    "isl r \<longleftrightarrow> flush_throws os (screen a)" by blast
  show ?thesis
  proof (cases "vs < 115200")
    case True
    then show ?thesis by (simp add: lv_refresh_def drv area_bytes_def l)
  next
    case False
    have "lv_refresh vs os drawn second time px a = (case r of
        Inl e \<Rightarrow> Step (a\<lparr>screen := p', app_at := App_terminated\<rparr>)
      | Inr u \<Rightarrow> outcome_of (do { l \<leftarrow> monitorCallback time px (log a); Some (a\<lparr>screen := p', log := l\<rparr>) }))"
      using False by (simp add: lv_refresh_def drv area_bytes_def l f(1))
    then obtain l where "lv_refresh vs os drawn second time px a =
        Step (a\<lparr>screen := p', log := l, app_at := (if isl r then App_terminated else app_at a)\<rparr>)"
    proof (cases r)
      case (Inl e)
      with \<open>lv_refresh vs os drawn second time px a = _\<close> show thesis by (intro that [of "log a"]) (cases a; simp)
    next
      case (Inr u)
      obtain l where "monitorCallback time px (log a) = Some l" using monitorCallback_message by blast
      with Inr \<open>lv_refresh vs os drawn second time px a = _\<close> show thesis
        by (intro that [of l]) (cases a; simp add: outcome_of_def)
    qed
    then have "lv_refresh vs os drawn second time px a =
        Step (a\<lparr>screen := p', log := l, app_at := (if flush_throws os (screen a) then App_terminated else app_at a)\<rparr>)"
      using f(3) by (simp only:)
    then show ?thesis using False f(2) by auto
  qed
qed

lemma lv_refresh_inv:
  assumes "app_inv L b a" "app_at a = App_handler" "whole_frame drawn" "lv_refresh vs os drawn second time px a = Step a'"
  shows "app_inv L b a'"
proof -
  have "b" using assms(1,2) by (auto simp: app_inv_def split: if_splits)
  obtain scr l where "panel_ok scr" "a' = a\<lparr>screen := scr, log := l, app_at := (if flush_throws os (screen a) then App_terminated else app_at a)\<rparr>"
    using lv_refresh_outcome [OF assms(1,3), of vs os second time px] assms(4) by (auto split: if_splits)
  then show ?thesis using assms(1,2) \<open>b\<close> by (auto simp: app_inv_def)
qed

lemma Application_inv:
  assumes "queue_model g0 = init_state\<lparr>oom := bs\<rparr>" "panel_ok scr" "Application drv0 b L g0 scr l = Some a"
  shows "app_inv L b a"
proof -
  obtain s p g where g: "GSLvglServiceImpl drv0 L g0 = Some (s, p, g)"
    "a = \<lparr>m_applicationRuning = b, platform = p, gui = g, m_graphicsService = s, screen = scr, log = l, app_at = App_test\<rparr>"
    using assms(3) by (auto simp: Application_def split: bind_splits)
  moreover have "RemindersViewModel L g0 = Some g" "p = PlatformBackend" using g(1) by (auto simp: GSLvglServiceImpl_def split: bind_splits)
  moreover from this have "ui_reachable L g" using ui_reachable.started [OF assms(1)] by blast
  moreover have "vectors_registered s" using registered_areas [OF g(1)] unfolding vectors_registered_def by auto
  ultimately show ?thesis using assms(2) by (simp add: app_inv_def PlatformBackend_def)
qed

lemma app_reachable_inv: "app_reachable vs L b a \<Longrightarrow> app_inv L b a"
proof (induction rule: app_reachable.induct)
  case (start g0 bs scr drv0 l a)
  then show ?case by (rule Application_inv)
next
  case (step a a')
  show ?case using step.hyps(2)
  proof (cases rule: app_step.cases)
    case main
    then show ?thesis using app_main_step_inv [OF step.IH] by blast
  next
    case (tick i)
    then show ?thesis using app_tick_step_inv [OF step.IH] by fastforce
  next
    case (callback e g)
    then have "ui_reachable L g" using ui_reachable.event step.IH by (fastforce simp: app_inv_def)
    with callback step.IH show ?thesis by (auto simp: app_inv_def split: if_splits)
  next
    case (idle w)
    then have "ui_reachable L ((gui a)\<lparr>widgets := w\<rparr>)" using ui_reachable.idle step.IH by (fastforce simp: app_inv_def)
    with idle step.IH show ?thesis by (auto simp: app_inv_def split: if_splits)
  next
    case (refresh drawn os second time px)
    then show ?thesis using lv_refresh_inv [OF step.IH] by blast
  qed
qed

lemma main_step_runs:
  assumes "lvgl_laws L" "app_inv L b a"
  shows "app_main_step L (app_at a) a \<noteq> Fault"
proof (cases "app_at a")
  case App_round
  then show ?thesis using assms(2) by (auto simp: app_inv_def app_defs start_tick_thread_def split: if_splits)
next
  case App_destroy
  then have r: "ui_reachable L (gui a)" "m_isTickThreadRunning (platform a) = Live False"
    using assms(2) by (auto simp: app_inv_def split: if_splits)
  obtain m where "ui_models L m (gui a)" using ui_reachable_inv [OF r(1) assms(1)] by (auto simp: ui_inv_def)
  then obtain g where "RemindersViewModel_dtor L (gui a) = Some g" using destructor_sim [OF assms(1)] by blast
  then show ?thesis using App_destroy r(2) by (simp add: app_defs PlatformBackend_dtor_def)
qed simp_all

section \<open>Properties\<close>

text \<open>C5: The graphical application, once it is constructed, faults when LVGL draws its first frame and nowhere else. Whatever value the flag of
  its loop happens to have, in every interleaving of the main thread, the tick thread, refreshes and LVGL's callbacks, no step of the main thread or of a
  tick thread faults, every callback of the view that can be called runs to its end, and there is never more than one tick thread, which
  does not end while the loop runs. A refresh draws into the vector objects, not into their elements, and faults unless an object had the size of
  a frame; if it had, the flush would never fault, and end the program exactly when the device has to be opened and cannot. LVGL keeps its laws, and the
  display driver is ready when the program starts.\<close>

theorem gui_application_faults:
  assumes "lvgl_laws L" "app_reachable vs L b a"
  shows "app_main_step L (app_at a) a \<noteq> Fault \<and>
    (\<forall>i < length (tick_threads (platform a)). app_tick_step i a \<noteq> Fault) \<and>
    (app_at a = App_handler \<longrightarrow> (\<forall>e. possible L e (gui a) \<longrightarrow> handle_event L e (gui a) \<noteq> None)) \<and>
    length (tick_threads (platform a)) \<le> 1 \<and> Tick_ended \<notin> set (tick_threads (platform a)) \<and>
    (\<forall>os drawn second time px. whole_frame drawn \<longrightarrow>
      (lv_refresh vs os drawn second time px a = Fault \<longleftrightarrow> vs < 115200) \<and>
      (\<forall>a'. app_at a = App_handler \<and> lv_refresh vs os drawn second time px a = Step a' \<longrightarrow>
         (app_at a' = App_terminated \<longleftrightarrow> flush_throws os (screen a))))"
proof -
  have i: "app_inv L b a" using app_reachable_inv [OF assms(2)] .
  have t: "app_tick_step i a \<noteq> Fault" if "i < length (tick_threads (platform a))" for i
    using app_tick_step_inv [OF i that] by auto
  have e: "handle_event L e (gui a) \<noteq> None" if "app_at a = App_handler" "possible L e (gui a)" for e
  proof -
    have "ui_reachable L (gui a)" using i that(1) by (auto simp: app_inv_def)
    then obtain m where "ui_inv L m (gui a)" "''!REMINDER!'' \<notin> snd ` set (a_users m)" using ui_reachable_inv [OF _ assms(1)] by blast
    with handle_event_sim [OF assms(1) _ that(2)] show ?thesis by blast
  qed
  have r: "lv_refresh vs os drawn second time px a = Fault \<longleftrightarrow> vs < 115200"
    "\<forall>a'. app_at a = App_handler \<and> lv_refresh vs os drawn second time px a = Step a' \<longrightarrow> (app_at a' = App_terminated \<longleftrightarrow> flush_throws os (screen a))"
    if "whole_frame drawn" for os drawn second time px
    using lv_refresh_outcome [OF i that, of vs os second time px] by (auto split: if_splits)
  have "length (tick_threads (platform a)) \<le> 1" "Tick_ended \<notin> set (tick_threads (platform a))"
    using i by (auto simp: app_inv_def split: if_splits)
  with main_step_runs [OF assms(1) i] t e r show ?thesis by blast
qed

text \<open>A start with memory enough on the concrete widgets.\<close>

definition blank_gui :: "tree ui" where
  "blank_gui = \<lparr>queue_model = init_state, view = undefined, widgets = \<lparr>bound = 0, parent_of = Map.empty, data_of = Map.empty\<rparr>, shown = []\<rparr>"

definition zero_drv :: disp_drv where
  "zero_drv = \<lparr>draw_buf = None, hor_res = 0, ver_res = 0, full_refresh = False, monitor_cb = False, flush_cb = False\<rparr>"

lemma blank_gui_init: "queue_model blank_gui = init_state\<lparr>oom := []\<rparr>"
  by (simp add: blank_gui_def init_state_def)

lemma app_starts:
  obtains a :: "tree gui_app" where "app_reachable vs widget_tree b a" "app_at a = App_test" "m_applicationRuning a = b" "platform a = PlatformBackend"
proof -
  have "queue_model blank_gui = init_state" "shown blank_gui = []" by (simp_all add: blank_gui_def)
  from ui_run_start [OF widget_tree_laws this] obtain g where "RemindersViewModel widget_tree blank_gui = Some g" by blast
  then obtain s where "Application zero_drv b widget_tree blank_gui blank_proc \<lparr>m_loggerReady = False, logged = []\<rparr> =
      Some \<lparr>m_applicationRuning = b, platform = PlatformBackend, gui = g, m_graphicsService = s, screen = blank_proc,
        log = \<lparr>m_loggerReady = False, logged = []\<rparr>, app_at = App_test\<rparr>"
    by (simp add: Application_def GSLvglServiceImpl_def Let_def)
  from app_reachable.start [OF blank_gui_init blank_proc_ok this] show thesis by (rule that) simp_all
qed

text \<open>A vector object of 24 bytes: the first frame is a fault.\<close>

theorem gui_application_faults_witness:
  "\<exists>a. app_reachable 24 widget_tree True a \<and> app_at a = App_handler \<and> tick_threads (platform a) = [Tick_testing] \<and>
     app_tick_step 0 a \<noteq> Fault \<and> handle_event widget_tree Notification_tick (gui a) \<noteq> None \<and>
     lv_refresh 24 frame_os_ok (replicate 115200 0) False 1 57600 a = Fault"
proof -
  obtain a :: "tree gui_app" where a: "app_reachable 24 widget_tree True a" "app_at a = App_test" "m_applicationRuning a" "platform a = PlatformBackend"
    using app_starts [of 24 True thesis] by simp
  let ?a1 = "a\<lparr>app_at := App_round\<rparr>"
  let ?p = "PlatformBackend\<lparr>m_isTickThreadRunning := Live True, stdout_unbuffered := True, tick_threads := [Tick_testing]\<rparr>"
  let ?a2 = "?a1\<lparr>platform := ?p, app_at := App_handler\<rparr>"
  have "app_main_step widget_tree (app_at a) a = Step ?a1" using a by (simp add: app_defs)
  then have r1: "app_reachable 24 widget_tree True ?a1" using app_reachable.step [OF a(1)] app_step.main by blast
  have "app_main_step widget_tree (app_at ?a1) ?a1 = Step ?a2"
    using a(4) by (simp add: app_defs start_tick_thread_def PlatformBackend_def)
  then have r2: "app_reachable 24 widget_tree True ?a2" using app_reachable.step [OF r1] app_step.main by blast
  note f = gui_application_faults [OF widget_tree_laws r2]
  have "app_at ?a2 = App_handler" "0 < length (tick_threads (platform ?a2))" "possible widget_tree Notification_tick (gui ?a2)" by simp_all
  then have "app_tick_step 0 ?a2 \<noteq> Fault" "handle_event widget_tree Notification_tick (gui ?a2) \<noteq> None" using f by blast+
  moreover have "whole_frame (replicate 115200 0)" by (simp add: whole_frame_def LV_HOR_RES_MAX_def LV_VER_RES_MAX_def)
  then have "lv_refresh 24 frame_os_ok (replicate 115200 0) False 1 57600 ?a2 = Fault \<longleftrightarrow> (24 :: nat) < 115200" using f by blast
  ultimately show ?thesis using r2 by (intro exI [of _ ?a2] conjI) simp_all
qed

text \<open>
  When the flag happens to be unset the program starts everything, ends at once and frees what the model of the
  view had allocated; nothing is ever drawn and no thread is started.
\<close>

lemma unset_flag_ends:
  assumes laws: "lvgl_laws L" and r: "app_reachable vs L False a" "app_at a = App_test"
  obtains a1 a2 a3 where "app_main_step L App_test a = Step a1" "app_main_step L (app_at a1) a1 = Step a2"
    "app_main_step L (app_at a2) a2 = Step a3" "app_at a3 = App_exit" "tick_threads (platform a3) = []"
    "reminders (queue_model (gui a3)) = Map.empty" "strings (queue_model (gui a3)) = Map.empty"
proof -
  have i: "m_applicationRuning a = False" "ui_reachable L (gui a)" "tick_threads (platform a) = []" "m_isTickThreadRunning (platform a) = Live False"
    using app_reachable_inv [OF r(1)] r(2) by (simp_all add: app_inv_def)
  obtain m where "ui_models L m (gui a)" using ui_reachable_inv [OF i(2) laws] by (auto simp: ui_inv_def)
  then obtain g where g: "RemindersViewModel_dtor L (gui a) = Some g" "reminders (queue_model g) = Map.empty" "strings (queue_model g) = Map.empty"
    using destructor_sim [OF laws] by blast
  let ?a1 = "a\<lparr>app_at := App_destroy\<rparr>"
  let ?a2 = "?a1\<lparr>gui := g, platform := (platform a)\<lparr>m_isTickThreadRunning := Live False\<rparr>, app_at := App_free\<rparr>"
  let ?a3 = "?a2\<lparr>platform := free_platform (platform ?a2), app_at := App_exit\<rparr>"
  have "app_main_step L App_test a = Step ?a1" using i by (simp add: app_defs)
  moreover have "app_main_step L (app_at ?a1) ?a1 = Step ?a2" using i g by (simp add: app_defs PlatformBackend_dtor_def)
  moreover have "app_main_step L (app_at ?a2) ?a2 = Step ?a3" by simp
  ultimately show thesis by (rule that) (use i g in \<open>simp_all add: free_platform_def\<close>)
qed

end
