(* ===== verification/SysfsPort.thy ===== *)
theory SysfsPort
  imports Prelude
begin

text \<open>
  \<^verbatim>\<open>exercise6/main.cpp\<close>: a class that owns one GPIO port of \<^verbatim>\<open>/sys/class/gpio\<close>, and a program
  that counts the clicks of a button with it. The process is the list of the calls it has made and the counter of
  \<open>main\<close>; what the operating system answers may depend on that list. An exception is the left side
  of a sum. \<open>behind\<close> is what the memory holds behind the two characters of the port number, which
  \<open>fprintf\<close> reads on into.
\<close>

section \<open>Calls\<close>

datatype port_call =
    Fopen string string bool
  | Fprintf string string
  | Fflush string
  | Fclose string
  | Value_open string int
  | Value_seek int
  | Value_read int "char option"
  | Value_close int
  | Said string

record port_os =
  fopen_ok :: "port_call list \<Rightarrow> string \<Rightarrow> bool"
  value_open :: "port_call list \<Rightarrow> string \<Rightarrow> int"
  value_read :: "port_call list \<Rightarrow> int \<Rightarrow> char option"
  behind :: string

record port_proc =
  port_calls :: "port_call list"
  kClicksCounter :: "64 word"

definition port_did :: "port_call \<Rightarrow> port_proc \<Rightarrow> port_proc" where
  "port_did c p = p\<lparr>port_calls := port_calls p @ [c]\<rparr>"

section \<open>The class\<close>

datatype port_direction = In | Out

datatype click_state = Pressed | Released

record port_wrapper =
  m_portNumber :: int
  m_direction :: port_direction
  m_valueFileHandle :: int
  m_currentButtonState :: "click_state option"
  m_portStr :: string
  m_clickObservers :: "(port_proc \<Rightarrow> port_proc) list"
  m_portString :: "nat option"

definition kPortLength :: nat where "kPortLength = 2"
definition kExportString :: string where "kExportString = ''/sys/class/gpio/export''"
definition kUnexportString :: string where "kUnexportString = ''/sys/class/gpio/unexport''"
definition kConcreteGpioBegin :: string where "kConcreteGpioBegin = ''/sys/class/gpio/gpio''"
definition kInvalidFileHandle :: int where "kInvalidFileHandle = - 1"

definition fopen_file :: "port_os \<Rightarrow> string \<Rightarrow> string \<Rightarrow> port_proc \<Rightarrow> bool \<times> port_proc" where
  "fopen_file os path mode p = (let ok = fopen_ok os (port_calls p) path in (ok, port_did (Fopen path mode ok) p))"

definition file_deleter :: "string \<Rightarrow> port_proc \<Rightarrow> port_proc" where
  "file_deleter path p = port_did (Fclose path) (port_did (Said ''Close file descriptor\<newline>'') p)"

text \<open>
  \<open>m_portString\<close> is a view of the first characters of \<open>m_portStr\<close>, or of nothing. Its \<open>data()\<close> is the
  address of the array, which \<open>fprintf\<close> takes as a format and reads up to a NUL; through a NULL pointer and for a
  conversion without an argument the behaviour is undefined.
\<close>

definition port_view :: "port_wrapper \<Rightarrow> string" where
  "port_view w = (case m_portString w of None \<Rightarrow> [] | Some n \<Rightarrow> take n (m_portStr w))"

definition port_format :: "port_os \<Rightarrow> port_wrapper \<Rightarrow> string option" where
  "port_format os w = (case m_portString w of None \<Rightarrow> None | Some n \<Rightarrow>
     (let memory = m_portStr w @ behind os; t = takeWhile (\<lambda>c. c \<noteq> NUL) memory in
      if NUL \<in> set memory \<and> CHR ''%'' \<notin> set t then Some t else None))"

definition export_port :: "port_os \<Rightarrow> port_wrapper \<Rightarrow> port_proc \<Rightarrow> (port_wrapper \<times> port_proc) option" where
  "export_port os w p = (case to_chars (length (m_portStr w)) (m_portNumber w) of
     None \<Rightarrow> Some (w, p)
   | Some t \<Rightarrow> do {
       let w = w\<lparr>m_portStr := t @ drop (length t) (m_portStr w), m_portString := Some (length t)\<rparr>;
       txt \<leftarrow> port_format os w;
       Some (w, port_did (Fflush kExportString) (port_did (Fprintf kExportString txt) p)) })"

definition open_value_file :: "port_os \<Rightarrow> string \<Rightarrow> port_wrapper \<Rightarrow> port_proc \<Rightarrow> port_wrapper \<times> port_proc" where
  "open_value_file os concretePortString w p =
     (let p = port_did (Said (''valueString string is'' @ concretePortString @ ''\<newline>'')) p;
          valueString = concretePortString @ ''/value'';
          fd = value_open os (port_calls p) valueString in
      (w\<lparr>m_valueFileHandle := fd\<rparr>, port_did (Value_open valueString fd) p))"

definition PortWrapper :: "port_os \<Rightarrow> int \<Rightarrow> port_direction \<Rightarrow> port_proc \<Rightarrow> ((string + port_wrapper) \<times> port_proc) option" where
  "PortWrapper os portNumber direction p = (
     let w = \<lparr>m_portNumber = portNumber, m_direction = direction, m_valueFileHandle = kInvalidFileHandle,
           m_currentButtonState = None, m_portStr = replicate kPortLength NUL, m_clickObservers = [], m_portString = None\<rparr>;
         (pExportFile, p) = fopen_file os kExportString ''w'' p in
     if \<not> pExportFile then Some (Inl ''Can't open sysfs for gpio exports'', p)
     else do {
       (w, p) \<leftarrow> export_port os w p;
       let p = file_deleter kExportString p;
       let concretePortString = kConcreteGpioBegin @ port_view w;
       let p = port_did (Said (''Direction string is'' @ concretePortString @ ''\<newline>'')) p;
       let directionString = concretePortString @ ''/direction'';
       let (pDirectionFile, p) = fopen_file os directionString ''wr'' p;
       if \<not> pDirectionFile then Some (Inl ''Can't open direction file. Probably the export process was failed!'', p)
       else do {
         let p = port_did (Fprintf directionString (if direction = In then ''r'' else ''w'')) p;
         let p = file_deleter directionString (port_did (Fflush directionString) p);
         let (w, p) = open_value_file os concretePortString w p;
         Some (Inr w, p) } })"

definition updateButtonState :: "char \<Rightarrow> port_wrapper \<Rightarrow> port_proc \<Rightarrow> port_wrapper \<times> port_proc" where
  "updateButtonState newPortValue w p =
     (if newPortValue = CHR ''1'' then (w\<lparr>m_currentButtonState := Some Pressed\<rparr>, p)
      else if newPortValue = CHR ''0'' then
        let p = (case m_currentButtonState w of
                   None \<Rightarrow> p
                 | Some b \<Rightarrow> if b = Pressed then fold (\<lambda>observer. observer) (m_clickObservers w) p else p) in
        (w\<lparr>m_currentButtonState := Some Released\<rparr>, p)
      else (w, p))"

definition checkState :: "port_os \<Rightarrow> port_wrapper \<Rightarrow> port_proc \<Rightarrow> port_wrapper \<times> port_proc" where
  "checkState os w p =
     (if m_direction w \<noteq> In then (w, p)
      else
        let p = port_did (Value_seek (m_valueFileHandle w)) p;
            c = value_read os (port_calls p) (m_valueFileHandle w);
            value = (case c of None \<Rightarrow> NUL | Some c \<Rightarrow> c) in
        updateButtonState value w (port_did (Value_read (m_valueFileHandle w) c) p))"

definition subsribeOnClick :: "(port_proc \<Rightarrow> port_proc) \<Rightarrow> port_wrapper \<Rightarrow> port_wrapper" where
  "subsribeOnClick clickObserver w = w\<lparr>m_clickObservers := m_clickObservers w @ [clickObserver]\<rparr>"

definition PortWrapper_dtor :: "port_os \<Rightarrow> port_wrapper \<Rightarrow> port_proc \<Rightarrow> port_proc option" where
  "PortWrapper_dtor os w p = (
     let p = (if m_valueFileHandle w \<noteq> kInvalidFileHandle then port_did (Value_close (m_valueFileHandle w)) p else p);
         (pUnexport, p) = fopen_file os kUnexportString ''w'' p in
     if pUnexport then do {
       txt \<leftarrow> port_format os w;
       Some (file_deleter kUnexportString (port_did (Fprintf kUnexportString txt) p)) }
     else Some p)"

section \<open>The program\<close>

definition count_click :: "port_proc \<Rightarrow> port_proc" where
  "count_click p =
     (let p = p\<lparr>kClicksCounter := kClicksCounter p + 1\<rparr> in
      port_did (Said (''Current clicks value: '' @ dec (unat (kClicksCounter p)) @ ''\<newline>'')) p)"

fun poll_port :: "port_os \<Rightarrow> nat \<Rightarrow> port_wrapper \<times> port_proc \<Rightarrow> port_wrapper \<times> port_proc" where
  "poll_port os 0 (w, p) = (w, p)"
| "poll_port os (Suc n) (w, p) = poll_port os n (checkState os w p)"

text \<open>The loop of \<open>main\<close> has no end; this is where it is after \<open>n\<close> rounds.\<close>

definition port_main :: "port_os \<Rightarrow> nat \<Rightarrow> ((string + port_wrapper) \<times> port_proc) option" where
  "port_main os n = do {
     (r, p) \<leftarrow> PortWrapper os 17 In \<lparr>port_calls = [], kClicksCounter = 0\<rparr>;
     case r of
       Inl e \<Rightarrow> Some (Inl e, p)
     | Inr buttonPort \<Rightarrow>
         (let (w, p) = poll_port os n (subsribeOnClick count_click buttonPort, p) in Some (Inr w, p)) }"

section \<open>Files\<close>

text \<open>The streams that are open after a list of calls.\<close>

fun streams_after :: "string list \<Rightarrow> port_call list \<Rightarrow> string list" where
  "streams_after xs [] = xs"
| "streams_after xs (Fopen path mode ok # cs) = streams_after (if ok then path # xs else xs) cs"
| "streams_after xs (Fclose path # cs) = streams_after (remove1 path xs) cs"
| "streams_after xs (c # cs) = streams_after xs cs"

lemma streams_after_append: "streams_after xs (cs @ ds) = streams_after (streams_after xs cs) ds"
  by (induction xs cs rule: streams_after.induct) simp_all

text \<open>The descriptors of value files.\<close>

fun values_after :: "int list \<Rightarrow> port_call list \<Rightarrow> int list" where
  "values_after xs [] = xs"
| "values_after xs (Value_open path fd # cs) = values_after (if fd = kInvalidFileHandle then xs else fd # xs) cs"
| "values_after xs (Value_close fd # cs) = values_after (remove1 fd xs) cs"
| "values_after xs (c # cs) = values_after xs cs"

lemma values_after_append: "values_after xs (cs @ ds) = values_after (values_after xs cs) ds"
  by (induction xs cs rule: values_after.induct) simp_all

lemma port_calls_call [simp]: "port_calls (port_did c p) = port_calls p @ [c]"
  by (simp add: port_did_def)

lemma kClicksCounter_call [simp]: "kClicksCounter (port_did c p) = kClicksCounter p"
  by (simp add: port_did_def)

lemmas file_simps = fopen_file_def file_deleter_def streams_after_append values_after_append Let_def

section \<open>Clicks\<close>

definition levels :: "port_call list \<Rightarrow> string" where
  "levels cs = concat (map (\<lambda>c. case c of Value_read fd v \<Rightarrow> [case v of None \<Rightarrow> NUL | Some c \<Rightarrow> c] | _ \<Rightarrow> []) cs)"

text \<open>A click is a 1 whose next 0 or 1, whatever else is read in between, is a 0.\<close>

definition binary :: "string \<Rightarrow> string" where
  "binary cs = filter (\<lambda>c. c = CHR ''0'' \<or> c = CHR ''1'') cs"

definition clicks :: "string \<Rightarrow> nat" where
  "clicks cs = (let ls = binary cs in length (filter (\<lambda>(a, b). a = CHR ''1'' \<and> b = CHR ''0'') (zip ls (tl ls))))"

definition click_lines :: "port_call list \<Rightarrow> port_call list" where
  "click_lines cs = filter (\<lambda>c. case c of Said t \<Rightarrow> take 7 t = ''Current'' | _ \<Rightarrow> False) cs"

lemma levels_append [simp]: "levels (cs @ ds) = levels cs @ levels ds"
  by (simp add: levels_def)

lemma click_lines_append [simp]: "click_lines (cs @ ds) = click_lines cs @ click_lines ds"
  by (simp add: click_lines_def)

lemma zip_tl_snoc: "zip (x # xs @ [c]) (xs @ [c]) = zip (x # xs) xs @ [(last (x # xs), c)]"
  by (induction xs arbitrary: x) auto

lemma clicks_snoc:
  "clicks (cs @ [c]) = clicks cs + (if c = CHR ''0'' \<and> binary cs \<noteq> [] \<and> last (binary cs) = CHR ''1'' then 1 else 0)"
proof (cases "binary cs")
  case Nil
  then show ?thesis by (auto simp: clicks_def binary_def)
next
  case (Cons x xs)
  consider "c = CHR ''0'' \<or> c = CHR ''1''" | "c \<noteq> CHR ''0'' \<and> c \<noteq> CHR ''1''" by blast
  then show ?thesis
  proof cases
    case 1
    then have "binary (cs @ [c]) = x # xs @ [c]" using Cons by (auto simp: binary_def)
    then have "clicks (cs @ [c]) = length (filter (\<lambda>(a, b). a = CHR ''1'' \<and> b = CHR ''0'') (zip (x # xs) xs @ [(last (x # xs), c)]))"
      using zip_tl_snoc [of x xs c] by (simp only: clicks_def Let_def list.sel)
    moreover have "clicks cs = length (filter (\<lambda>(a, b). a = CHR ''1'' \<and> b = CHR ''0'') (zip (x # xs) xs))"
      using Cons by (simp only: clicks_def Let_def list.sel)
    ultimately show ?thesis using Cons by auto
  next
    case 2
    then have "binary (cs @ [c]) = binary cs" by (simp add: binary_def)
    with 2 show ?thesis by (simp add: clicks_def)
  qed
qed

definition seen_state :: "string \<Rightarrow> click_state option" where
  "seen_state cs = (if binary cs = [] then None else Some (if last (binary cs) = CHR ''1'' then Pressed else Released))"

definition click_count_lines :: "nat \<Rightarrow> port_call list" where
  "click_count_lines n = map (\<lambda>k. Said (''Current clicks value: '' @ dec (Suc k mod 2 ^ 64) @ ''\<newline>'')) [0..<n]"

lemma unat_count: "unat (of_nat n + 1 :: 64 word) = Suc n mod 2 ^ 64"
proof -
  have "(of_nat n + 1 :: 64 word) = of_nat (Suc n)" by (simp only: of_nat_Suc add.commute)
  moreover have "unat (of_nat (Suc n) :: 64 word) = Suc n mod 2 ^ LENGTH(64)" by (rule unat_of_nat)
  moreover have "LENGTH(64) = 64" by simp
  ultimately show ?thesis by metis
qed

definition counting :: "port_wrapper \<times> port_proc \<Rightarrow> bool" where
  "counting wp = (let (w, p) = wp; cs = levels (port_calls p) in
     m_direction w = In \<and> m_clickObservers w = [count_click] \<and> m_currentButtonState w = seen_state cs \<and>
     kClicksCounter p = of_nat (clicks cs) \<and> click_lines (port_calls p) = click_count_lines (clicks cs))"

lemma counting_checkState:
  assumes "counting (w, p)"
  shows "counting (checkState os w p) \<and> length (levels (port_calls (snd (checkState os w p)))) = Suc (length (levels (port_calls p)))"
proof -
  define v where "v = (case value_read os (port_calls p @ [Value_seek (m_valueFileHandle w)]) (m_valueFileHandle w) of None \<Rightarrow> NUL | Some c \<Rightarrow> c)"
  let ?cs = "levels (port_calls p)"
  let ?p = "port_did (Value_read (m_valueFileHandle w) (value_read os (port_calls p @ [Value_seek (m_valueFileHandle w)]) (m_valueFileHandle w)))
    (port_did (Value_seek (m_valueFileHandle w)) p)"
  have i: "m_direction w = In" "m_clickObservers w = [count_click]" "m_currentButtonState w = seen_state ?cs"
    "kClicksCounter p = of_nat (clicks ?cs)" "click_lines (port_calls p) = click_count_lines (clicks ?cs)"
    using assms by (simp_all add: counting_def Let_def)
  have c: "checkState os w p = updateButtonState v w ?p" by (simp add: checkState_def i(1) v_def Let_def)
  have lv: "levels (port_calls ?p) = ?cs @ [v]" by (simp add: levels_def v_def)
  have cl: "click_lines (port_calls ?p) = click_lines (port_calls p)" by (simp add: click_lines_def)
  have NUL_lev: "levels (port_calls (count_click q)) = levels (port_calls q)" for q
    by (simp add: count_click_def Let_def levels_def)
  have un: "unat (of_nat (clicks ?cs) + 1 :: 64 word) = Suc (clicks ?cs) mod 2 ^ 64"
    by (rule unat_count)
  consider (one) "v = CHR ''1''" | (click) "v = CHR ''0''" "binary ?cs \<noteq> []" "last (binary ?cs) = CHR ''1''"
    | (zero) "v = CHR ''0''" "\<not> (binary ?cs \<noteq> [] \<and> last (binary ?cs) = CHR ''1'')" | (other) "v \<noteq> CHR ''1''" "v \<noteq> CHR ''0''" by blast
  then show ?thesis
  proof cases
    case one
    then show ?thesis unfolding c using i lv cl
      by (simp add: updateButtonState_def counting_def Let_def clicks_snoc seen_state_def) (simp add: binary_def)
  next
    case click
    then have s: "seen_state ?cs = Some Pressed" "seen_state (?cs @ [v]) = Some Released" by (simp_all add: seen_state_def) (simp add: binary_def)
    have u: "updateButtonState v w ?p = (w\<lparr>m_currentButtonState := Some Released\<rparr>, count_click ?p)"
      using click i s(1) by (simp add: updateButtonState_def)
    have k: "clicks (?cs @ [v]) = Suc (clicks ?cs)" using click by (simp add: clicks_snoc)
    have n: "kClicksCounter (count_click ?p) = of_nat (Suc (clicks ?cs))"
      using i(4) by (simp add: count_click_def Let_def add.commute)
    have "click_lines (port_calls (count_click ?p)) = click_lines (port_calls p) @ [Said (''Current clicks value: '' @ dec (Suc (clicks ?cs) mod 2 ^ 64) @ ''\<newline>'')]"
      using cl i(4) un by (simp add: count_click_def Let_def click_lines_def port_did_def)
    then have l: "click_lines (port_calls (count_click ?p)) = click_count_lines (Suc (clicks ?cs))"
      using i(5) by (simp add: click_count_lines_def)
    show ?thesis unfolding c u using i lv s(2) k n l by (simp add: counting_def Let_def NUL_lev)
  next
    case zero
    then have s: "seen_state ?cs \<noteq> Some Pressed" "seen_state (?cs @ [v]) = Some Released" by (auto simp: seen_state_def) (auto simp: binary_def)
    have "updateButtonState v w ?p = (w\<lparr>m_currentButtonState := Some Released\<rparr>, ?p)"
      using zero i s(1) by (auto simp: updateButtonState_def split: option.splits)
    moreover have "clicks (?cs @ [v]) = clicks ?cs" using zero by (auto simp: clicks_snoc)
    ultimately show ?thesis unfolding c using i lv cl s(2) by (simp add: counting_def Let_def)
  next
    case other
    then have "seen_state (?cs @ [v]) = seen_state ?cs" by (simp add: seen_state_def binary_def)
    with other show ?thesis unfolding c using i lv cl by (simp add: updateButtonState_def counting_def Let_def clicks_snoc)
  qed
qed

lemma counting_poll:
  "counting wp \<Longrightarrow> counting (poll_port os n wp) \<and>
     length (levels (port_calls (snd (poll_port os n wp)))) = n + length (levels (port_calls (snd wp)))"
proof (induction n arbitrary: wp)
  case 0
  then show ?case by (cases wp) simp
next
  case (Suc n)
  obtain w p where wp: "wp = (w, p)" by (cases wp)
  have "counting (checkState os w p)" "length (levels (port_calls (snd (checkState os w p)))) = Suc (length (levels (port_calls p)))"
    using counting_checkState [of w p os] Suc.prems wp by simp_all
  with Suc.IH [of "checkState os w p"] show ?case by (simp add: wp)
qed

section \<open>Construction\<close>

lemma export_port_keeps:
  "export_port os w p = Some (w', p') \<Longrightarrow> m_direction w' = m_direction w \<and> m_clickObservers w' = m_clickObservers w \<and>
     m_currentButtonState w' = m_currentButtonState w \<and> m_valueFileHandle w' = m_valueFileHandle w \<and>
     levels (port_calls p') = levels (port_calls p) \<and> click_lines (port_calls p') = click_lines (port_calls p) \<and>
     kClicksCounter p' = kClicksCounter p \<and> streams_after xs (port_calls p') = streams_after xs (port_calls p) \<and>
     values_after ys (port_calls p') = values_after ys (port_calls p)"
  by (auto simp: export_port_def streams_after_append values_after_append levels_def click_lines_def Let_def
      split: option.splits bind_splits)

lemma PortWrapper_Inr:
  assumes "PortWrapper os n d p = Some (Inr w, p')"
  shows "m_direction w = d \<and> m_clickObservers w = [] \<and> m_currentButtonState w = None \<and>
    levels (port_calls p') = levels (port_calls p) \<and> click_lines (port_calls p') = click_lines (port_calls p) \<and>
    kClicksCounter p' = kClicksCounter p"
  using assms
  by (auto simp: PortWrapper_def file_simps open_value_file_def levels_def click_lines_def split: if_splits bind_splits
      dest!: export_port_keeps [where xs = "[]" and ys = "[]"])

lemma PortWrapper_streams:
  assumes "PortWrapper os n d p = Some (r, p')"
  shows "streams_after xs (port_calls p') = streams_after xs (port_calls p)"
  using assms
  by (auto simp: PortWrapper_def file_simps open_value_file_def split: if_splits bind_splits
      dest!: export_port_keeps [where xs = xs and ys = "[]"])

lemma PortWrapper_values:
  assumes "PortWrapper os n d p = Some (r, p')"
  shows "values_after ys (port_calls p') = (case r of
    Inr w \<Rightarrow> if m_valueFileHandle w = kInvalidFileHandle then values_after ys (port_calls p)
             else m_valueFileHandle w # values_after ys (port_calls p)
  | Inl e \<Rightarrow> values_after ys (port_calls p))"
  using assms
  by (auto simp: PortWrapper_def file_simps open_value_file_def split: if_splits bind_splits
      dest!: export_port_keeps [where xs = "[]" and ys = ys])

lemma poll_port_keeps:
  "counting wp \<Longrightarrow> streams_after xs (port_calls (snd (poll_port os n wp))) = streams_after xs (port_calls (snd wp)) \<and>
     values_after ys (port_calls (snd (poll_port os n wp))) = values_after ys (port_calls (snd wp)) \<and>
     m_valueFileHandle (fst (poll_port os n wp)) = m_valueFileHandle (fst wp)"
proof (induction n arbitrary: wp)
  case 0
  then show ?case by (cases wp) simp
next
  case (Suc n)
  obtain w p where wp: "wp = (w, p)" by (cases wp)
  have c: "counting (checkState os w p)" using counting_checkState Suc.prems wp by simp
  have o: "m_clickObservers w = [count_click]" using Suc.prems wp by (simp add: counting_def Let_def)
  have "streams_after xs (port_calls (snd (checkState os w p))) = streams_after xs (port_calls p)"
    "values_after ys (port_calls (snd (checkState os w p))) = values_after ys (port_calls p)"
    "m_valueFileHandle (fst (checkState os w p)) = m_valueFileHandle w"
    by (simp_all add: checkState_def updateButtonState_def count_click_def o file_simps split: option.split)
  with Suc.IH [OF c] show ?case by (simp add: wp)
qed

text \<open>Where \<open>main\<close> is after \<open>n\<close> rounds.\<close>

lemma port_main_cases:
  assumes "port_main os n = Some (r, p)"
  obtains (thrown) e where "r = Inl e" "PortWrapper os 17 In \<lparr>port_calls = [], kClicksCounter = 0\<rparr> = Some (Inl e, p)"
  | (polling) w0 p0 w where "r = Inr w" "PortWrapper os 17 In \<lparr>port_calls = [], kClicksCounter = 0\<rparr> = Some (Inr w0, p0)"
      "counting (subsribeOnClick count_click w0, p0)" "poll_port os n (subsribeOnClick count_click w0, p0) = (w, p)" "levels (port_calls p0) = []"
proof -
  obtain s p0 where c: "PortWrapper os 17 In \<lparr>port_calls = [], kClicksCounter = 0\<rparr> = Some (s, p0)"
    using assms by (auto simp: port_main_def split: bind_splits)
  show thesis
  proof (cases s)
    case (Inl e)
    with c assms show thesis by (intro thrown [of e]) (auto simp: port_main_def)
  next
    case (Inr w0)
    obtain w where w: "r = Inr w" "poll_port os n (subsribeOnClick count_click w0, p0) = (w, p)"
      using c Inr assms by (auto simp: port_main_def split: prod.splits)
    have "levels (port_calls p0) = []" "counting (subsribeOnClick count_click w0, p0)"
      using PortWrapper_Inr [of os 17 In _ w0 p0] c Inr
      by (simp_all add: counting_def subsribeOnClick_def levels_def click_lines_def seen_state_def binary_def clicks_def click_count_lines_def)
    with c Inr w show thesis by (intro polling [of w w0 p0]) simp_all
  qed
qed

text \<open>
  The number of \<open>main\<close> fills the array, so \<open>fprintf\<close> reads on behind it: the run is defined, and
  exports the right port, only if a NUL happens to follow.
\<close>

lemma to_chars_17: "to_chars (length (replicate kPortLength NUL)) 17 = Some ''17''"
  by code_simp

lemma export_port_17:
  assumes "m_portNumber w = 17" "m_portStr w = replicate kPortLength NUL"
  shows "export_port os w p = (if NUL \<in> set (behind os) \<and> CHR ''%'' \<notin> set (takeWhile (\<lambda>c. c \<noteq> NUL) (behind os)) then
    Some (w\<lparr>m_portStr := ''17'', m_portString := Some 2\<rparr>,
      port_did (Fflush kExportString) (port_did (Fprintf kExportString (''17'' @ takeWhile (\<lambda>c. c \<noteq> NUL) (behind os))) p)) else None)"
  unfolding export_port_def assms to_chars_17 by (auto simp: port_format_def kPortLength_def NUL_def Let_def)

lemma port_main_defined:
  "port_main os n \<noteq> None \<longleftrightarrow> (fopen_ok os [] kExportString \<longrightarrow> NUL \<in> set (behind os) \<and> CHR ''%'' \<notin> set (takeWhile (\<lambda>c. c \<noteq> NUL) (behind os)))"
  by (auto simp: port_main_def PortWrapper_def export_port_17 fopen_file_def Let_def split: prod.split)

section \<open>Properties\<close>

text \<open>C18: The button program counts clicks. After any number of rounds it has read the port once per round, the counter is the number of
  clicks among the characters read (modulo \<open>2 ^ 64\<close>), and each click was printed with its number, in order; characters
  other than 0 and 1, and reads that fail, change nothing.\<close>

theorem port_counts_clicks:
  assumes "port_main os n = Some (Inr w, p)"
  shows "length (levels (port_calls p)) = n \<and> kClicksCounter p = of_nat (clicks (levels (port_calls p))) \<and>
    click_lines (port_calls p) = map (\<lambda>k. Said (''Current clicks value: '' @ dec (Suc k mod 2 ^ 64) @ ''\<newline>'')) [0..<clicks (levels (port_calls p))]"
  using assms
proof (cases rule: port_main_cases)
  case (polling w0 p0 w')
  with counting_poll [OF polling(3), of os n] show ?thesis by (simp add: counting_def click_count_lines_def Let_def)
qed simp

text \<open>An operating system that grants everything, and the levels it gives one after the other.\<close>

definition bounce_os :: port_os where
  "bounce_os = \<lparr>fopen_ok = \<lambda>_ _. True, value_open = \<lambda>_ _. 5,
     value_read = \<lambda>cs _. (let ls = ''0110x1001''; n = length (levels cs) in if n < length ls then Some (ls ! n) else None), behind = [NUL]\<rparr>"

theorem port_counts_clicks_witness:
  "\<exists>w p. port_main bounce_os 12 = Some (Inr w, p) \<and> kClicksCounter p = 2 \<and> clicks (levels (port_calls p)) = 2 \<and>
     click_lines (port_calls p) = [Said ''Current clicks value: 1\<newline>'', Said ''Current clicks value: 2\<newline>'']"
proof -
  have r: "(case port_main bounce_os 12 of Some (Inr w, p) \<Rightarrow> levels (port_calls p) = ''0110x1001'' @ replicate 3 NUL | _ \<Rightarrow> False)"
    by code_simp
  then obtain w p where m: "port_main bounce_os 12 = Some (Inr w, p)" and l: "levels (port_calls p) = ''0110x1001'' @ replicate 3 NUL"
    by (auto split: option.splits prod.splits sum.splits)
  have c: "clicks (''0110x1001'' @ replicate 3 NUL) = 2" by code_simp
  have d: "map (\<lambda>k. Said (''Current clicks value: '' @ dec (Suc k mod 2 ^ 64) @ ''\<newline>'')) [0..<2] =
    [Said ''Current clicks value: 1\<newline>'', Said ''Current clicks value: 2\<newline>'']"
  proof -
    have "dec (Suc 0) = ''1''" "dec (Suc (Suc 0)) = ''2''" "[0..<2] = [0, Suc 0]" by code_simp+
    moreover have "Suc 0 mod 2 ^ 64 = Suc 0" "Suc (Suc 0) mod 2 ^ 64 = Suc (Suc 0)" by simp_all
    ultimately show ?thesis by (simp only: list.map append.simps)
  qed
  have "clicks (levels (port_calls p)) = 2" using l c by simp
  with port_counts_clicks [OF m] m d show ?thesis by (intro exI [of _ w] exI [of _ p] conjI) simp_all
qed

text \<open>C39: The port object owns what it opens. Whatever can be opened, no stream stays open, also when the constructor throws;
  the value file is open exactly while the object lives, and its destructor closes it. When the constructor throws nothing
  is written to \<open>unexport\<close>.\<close>

theorem port_resources:
  assumes "port_main os n = Some (r, p)"
  shows "streams_after [] (port_calls p) = [] \<and>
    (case r of
       Inl e \<Rightarrow> values_after [] (port_calls p) = [] \<and> (\<forall>mode ok. Fopen kUnexportString mode ok \<notin> set (port_calls p))
     | Inr w \<Rightarrow> values_after [] (port_calls p) = (if m_valueFileHandle w = kInvalidFileHandle then [] else [m_valueFileHandle w]) \<and>
         (\<forall>p'. PortWrapper_dtor os w p = Some p' \<longrightarrow> streams_after [] (port_calls p') = [] \<and> values_after [] (port_calls p') = []))"
  using assms
proof (cases rule: port_main_cases)
  case (thrown e)
  have "Fopen kUnexportString mode ok \<notin> set (port_calls p)" for mode ok
    using thrown(2)
    by (auto simp: PortWrapper_def file_simps open_value_file_def export_port_def kUnexportString_def kExportString_def kConcreteGpioBegin_def
        split: if_splits bind_splits option.splits)
  with PortWrapper_streams [OF thrown(2), of "[]"] PortWrapper_values [OF thrown(2), of "[]"] thrown(1) show ?thesis by simp
next
  case (polling w0 p0 w)
  have k: "streams_after [] (port_calls p) = []" "m_valueFileHandle w = m_valueFileHandle w0"
    "values_after [] (port_calls p) = values_after [] (port_calls p0)"
    using poll_port_keeps [OF polling(3), of "[]" os n "[]"] polling(4) PortWrapper_streams [OF polling(2), of "[]"]
    by (simp_all add: subsribeOnClick_def)
  then have v: "values_after [] (port_calls p) = (if m_valueFileHandle w = kInvalidFileHandle then [] else [m_valueFileHandle w])"
    using PortWrapper_values [OF polling(2), of "[]"] by simp
  have "streams_after [] (port_calls p') = [] \<and> values_after [] (port_calls p') = []" if "PortWrapper_dtor os w p = Some p'" for p'
    using that k(1) v by (auto simp: PortWrapper_dtor_def file_simps split: if_splits bind_splits)
  with polling(1) k(1) v show ?thesis by simp
qed

definition no_direction_os :: port_os where
  "no_direction_os = bounce_os\<lparr>fopen_ok := \<lambda>_ path. path = kExportString\<rparr>"

theorem port_resources_witness:
  "\<exists>p. port_main no_direction_os 3 = Some (Inl ''Can't open direction file. Probably the export process was failed!'', p) \<and>
     Fprintf kExportString ''17'' \<in> set (port_calls p) \<and> streams_after [] (port_calls p) = [] \<and>
     (\<forall>mode ok. Fopen kUnexportString mode ok \<notin> set (port_calls p))"
proof -
  have "(case port_main no_direction_os 3 of Some (Inl e, p) \<Rightarrow> e = ''Can't open direction file. Probably the export process was failed!'' \<and>
     Fprintf kExportString ''17'' \<in> set (port_calls p) | _ \<Rightarrow> False)" by code_simp
  then obtain p where m: "port_main no_direction_os 3 = Some (Inl ''Can't open direction file. Probably the export process was failed!'', p)"
    "Fprintf kExportString ''17'' \<in> set (port_calls p)" by (auto split: option.splits prod.splits sum.splits)
  with port_resources [OF m(1)] show ?thesis by simp
qed

end
