(* ===== verification/Spec2Isabelle.thy ===== *)
theory Spec2Isabelle
  imports LinkedListSpec IntrusiveList ListIteration Reminders KernelReminders Display RunLengthMain CounterApp GameSpec
    MessengerSpec TimeTrackSpec CurrencySpec ExampleBuffer StringModule Attributes
    ThreadsSpec Workqueue Interrupts Timers Ds3231 Devices MemoryTest Exports
    ViewProperties Connector Application SysfsPort
begin

text \<open>
  A model of the C and C++ programs of the EmbeddedBasecamp repository. Each task of the course is a program of its own;
  the programs share an intrusive list (one text in \<^verbatim>\<open>exercise4\<close>, \<^verbatim>\<open>task8\<close> and
  \<^verbatim>\<open>final_task\<close>), fonts and a display driver (one text in \<^verbatim>\<open>task4\<close> and
  \<^verbatim>\<open>final_task\<close>, moved between user space and kernel).

  Conventions. A C function is a HOL function from the state of its program to a result and
  the new state, in the order of the source. Undefined behaviour and memory faults are
  \<open>None\<close>: a signed overflow, a division by zero, an access outside a buffer or through a
  NULL, freed or poisoned pointer; so a theorem that a call is \<open>Some\<close> says that it runs to
  its end and touches only memory it owns. An \<open>int\<close> is a HOL integer that is checked to fit
  32 bits where it is computed, \<open>size_t\<close> and the pixels are machine words that wrap around.
  What the kernel, the C library or the hardware answers (allocations, registration calls, system
  calls, \<open>rand\<close>, the parser of numbers, the bytes behind a user's address) is a parameter of the functions that use it.
  Text given to \<open>printk\<close> is left out unless it is the program's output.

  The theories, and the files under \<^verbatim>\<open>src/\<close> they model.

    \<^item> \<open>Prelude\<close>: checked integers, decimal printing, character buffers, loops with \<open>break\<close>,
      pointers to one object, the automation collections.

    \<^item> \<open>ListHeap\<close>, \<open>LinkedList\<close>, \<open>LinkedListSpec\<close>: \<^verbatim>\<open>exercise4/linked_list/linked_list.h\<close>. The heap
      maps node addresses to \<open>next\<close> and \<open>prev\<close>; every operation is its reads and writes. The lemmas relate
      each to an operation on the list of entries; iteration is an option-valued recursion, so
      that a loop that never ends is told apart, and its termination under deletion is proved. Two loops over states
      that agree on the list go through the same entries.
      \<open>ListIteration\<close> has the loops that run backwards, from an entry on and behind one.
      \<open>IntrusiveList\<close> states the contract clients use as a locale and interprets it on the operations.

    \<^item> \<open>RemindersModel\<close>, \<open>RemindersSpec\<close>, \<open>RemindersRefine\<close>, \<open>Reminders\<close>: the
      reminder queue of the final application, \<^verbatim>\<open>reminders_model.c\<close> under
      \<^verbatim>\<open>final_task/userspace_app/lvgl_lib/application_view\<close>. The abstract state is a list of
      users, a queue ordered by time and a list of reminders per user; the simulation goes through
      every operation, with allocations that fail at will, and the last theory draws the
      conclusions for every state a client can reach.

    \<^item> \<open>KernelReminders\<close>: the same queue as the kernel module of \<^verbatim>\<open>task8\<close> has it
      (\<^verbatim>\<open>reminders_model.c\<close>, \<^verbatim>\<open>tests.h\<close> and \<^verbatim>\<open>module_main.c\<close> under \<^verbatim>\<open>kernel_module\<close>). Its operations differ from the
      application's in a few tests and texts; each is related to the application's operation on an equal
      heap, so it has the same abstract queue, and the tests that the module runs when it is loaded are shown to pass.

    \<^item> \<open>Lvgl\<close>, \<open>LvglTree\<close>: LVGL, the library of the graphical application, is not in the repository. It is a record of the
      operations that the application calls and the laws that its documentation gives them (\<open>lvgl_laws\<close>): what a
      tree of objects keeps through creation, deletion and scrolling. \<open>widget_tree\<close> is a tree that satisfies
      them, on which the witnesses run.

    \<^item> \<open>ViewModel\<close>, \<open>ViewModelSpec\<close>, \<open>ViewModelRuns\<close>, \<open>ViewProperties\<close>: the view of the reminder queue,
      \<^verbatim>\<open>example.cpp\<close> and \<^verbatim>\<open>example.h\<close>, over any LVGL and on the heap of \<open>RemindersModel\<close>. The expiry of a reminder
      calls back into the view while the queue is being iterated; the simulation follows it. Runs are ticks, scrolls and events of the
      user in any order, and LVGL's own work between them.

    \<^item> \<open>Connector\<close>: \<^verbatim>\<open>CallbackConnector.hpp\<close>, whose static variables decide which member function a C callback
      reaches. \<open>Logger\<close>: \<^verbatim>\<open>logger_service_impl.cpp\<close> and \<^verbatim>\<open>logger_service.hpp\<close>, what a run of log calls prints.

    \<^item> \<open>FrameFile\<close>: the flush callback of \<^verbatim>\<open>gs_platform_layer.cpp\<close> and \<^verbatim>\<open>display_test_app/main.cpp\<close>, composed with
      the driver's write operation: from the colours of a frame to the bytes on the bus.

    \<^item> \<open>Platform\<close>, \<open>Application\<close>: the rest of the application, \<^verbatim>\<open>gs_platform_layer.cpp\<close>, \<^verbatim>\<open>gs_lvgl_service.cpp\<close>,
      \<^verbatim>\<open>ap_application.cpp\<close> and \<^verbatim>\<open>main.cpp\<close>, as a step relation of the main thread, the tick thread, the refreshes of the
      display and the callbacks. The one step that faults is a refresh, which draws over the vector objects; a lemma shows that the
      safety of the tick thread rests on the loop never ending.

    \<^item> \<open>Fonts\<close>, \<open>Gc9a01\<close>, \<open>Gc9a01Spec\<close>, \<open>Chardev\<close>, \<open>Display\<close>: the display driver of
      \<^verbatim>\<open>final_task/display_driver\<close> (\<^verbatim>\<open>fonts.c\<close>, \<^verbatim>\<open>gc9a01.c\<close>, \<^verbatim>\<open>gpio_module.c\<close>,
      \<^verbatim>\<open>spi_module.c\<close>, \<^verbatim>\<open>gc9a01_chardev.c\<close>, \<^verbatim>\<open>module_main.c\<close>). The hardware sees a list of
      bus events; the framebuffer is an array of pixels. The lemmas give every drawing routine its effect on
      the pixels and the bus and the exact conditions under which it stays inside the framebuffer.

    \<^item> \<open>Sysfs\<close>, \<open>Buttons\<close>, \<open>UserDisplay\<close>, \<open>UserDriver\<close>, \<open>CounterApp\<close>: the counter of
      \<^verbatim>\<open>task4\<close> (\<^verbatim>\<open>gpio_module.c\<close>, \<^verbatim>\<open>spi_module.c\<close>, \<^verbatim>\<open>buttons_module.c\<close>, \<^verbatim>\<open>gc9a01.c\<close>,
      \<^verbatim>\<open>main.c\<close>) over the list of system calls it makes. The user-space driver is shown to put the same bytes
      on the wire as the kernel's; the buttons are a state machine per pin, and their handlers are
      related to the history of polls.

    \<^item> \<open>SysfsPort\<close>: \<^verbatim>\<open>exercise6/main.cpp\<close>, a class for a GPIO port and a counter of clicks, over the calls they make;
      exceptions are the left side of a sum.

    \<^item> \<open>RunLength\<close>, \<open>RunLengthMain\<close>: \<^verbatim>\<open>task3/src/encoder.c\<close> and \<^verbatim>\<open>decoder.c\<close>, on NUL terminated strings, and
      the two programs over the lines of their input. The decoder program undoes a coding; the encoder program overflows.

    \<^item> \<open>Game\<close>, \<open>GameSpec\<close>: the dice game of \<^verbatim>\<open>exercise4\<close>, a second client of the
      intrusive list, with its abstract game and the text a whole run of the program prints for its arguments.

    \<^item> \<open>Procfs\<close>: what the files under \<^verbatim>\<open>/proc\<close> of \<^verbatim>\<open>task6\<close> and \<^verbatim>\<open>task7\<close> share: the arrays of texts, lengths
      and read positions, and the read, which \<^verbatim>\<open>exercise10\<close> and \<^verbatim>\<open>exercise11\<close> have too. The locale \<open>text_file\<close> says what makes a read function
      one of a file with a text; \<open>cat\<close> is a reader that calls it, with any buffer sizes, until it
      returns nothing, and gets the text. Each module interprets it on its own functions.

    \<^item> \<open>Messenger\<close>, \<open>MessengerSpec\<close>: the kernel module of \<^verbatim>\<open>task6\<close>: a device that keeps one message
      (\<^verbatim>\<open>module_main.c\<close>), three files under \<^verbatim>\<open>/proc\<close> (\<^verbatim>\<open>procfs_handler.c\<close>), and an attribute that
      clears it (\<^verbatim>\<open>sysfs_handler.c\<close>). The invariant is that the buffer is there and the message fits
      it; a message is read back as it was written.

    \<^item> \<open>TimeTrack\<close>, \<open>TimeTrackSpec\<close>: the kernel module of \<^verbatim>\<open>task7\<close>: files with the time of day and the
      time since the last use, whose texts are formatted while they are read, an attribute for the
      format, and the timer that draws random numbers.

    \<^item> \<open>Currency\<close>, \<open>CurrencySpec\<close>: the converters of \<^verbatim>\<open>task5\<close>: the arithmetic of the conversion, the file
      that takes an amount and gives the result, the attribute that changes the factor, and loading
      with its error paths.

    \<^item> \<open>ProcMessage\<close>, \<open>ExampleBuffer\<close>: the file under \<^verbatim>\<open>/proc\<close> that keeps one message, and
      \<^verbatim>\<open>exercise10/example\<close>, which is that file alone: what is written is read back, and the
      loading of the module undoes its steps.

    \<^item> \<open>Strings\<close>, \<open>StringModule\<close>: \<^verbatim>\<open>exercise10/part03\<close>: \<^verbatim>\<open>strings_processor.c\<close> on buffers with the
      NUL written out (reversal of the words, upper case), and the file and attribute of \<^verbatim>\<open>rw.c\<close>
      that convert a message by the mode the attribute chose.

    \<^item> \<open>Attributes\<close>: the two attributes of \<^verbatim>\<open>exercise10/demo_sysfs\<close>. The locale
      \<open>text_attribute\<close> is the contract of an attribute that shows what was stored.

    \<^item> \<open>Threads\<close>, \<open>ThreadsSpec\<close>: \<^verbatim>\<open>task9/module_main.c\<close>: threads that print and sleep, and an init function that waits
      for them and frees what they use. The interleaving is a step relation; the invariant numbers the blocks of each task,
      and no run is longer than a fixed number of steps. The init function returns -1, so the kernel discards the module, and a
      thread that has not returned by then faults.

    \<^item> \<open>Workqueue\<close>: \<^verbatim>\<open>exercise15/mod_workqueue.c\<close>, again a step relation: works are taken, run and return while the module
      is loading and unloading; each runs once, and every run ends. Works that a failed load leaves behind are the fault that can happen.

    \<^item> \<open>Interrupts\<close>: the other modules of \<^verbatim>\<open>exercise15\<close>: handlers of shared lines, a counter of interrupts, a tasklet.

    \<^item> \<open>Timers\<close>: \<^verbatim>\<open>exercise13\<close>: the tick counter and its wrap-around, a timer that arms itself, a periodic timer.

    \<^item> \<open>Exports\<close>: \<^verbatim>\<open>exercise9\<close>: functions that one module exports and another calls.

    \<^item> \<open>Ds3231\<close>: the driver of \<^verbatim>\<open>exercise12\<close> for a clock on the I2C bus: decoding of its registers, the texts of
      its two files, loading with its error paths.

    \<^item> \<open>Devices\<close>: the devices of \<^verbatim>\<open>exercise11\<close>: the reader of a constant text and the
      registration of dynamic device numbers.

    \<^item> \<open>MemoryTest\<close>: the measurements of \<^verbatim>\<open>exercise14/userspace_mem_test.c\<close>, whose loop ends only
      when an allocation fails or the size wraps around to a request that is refused; its recursion is option-valued.

  Loops. The main loop of \<open>CounterApp\<close> runs over a list of rounds given from outside, each the answers of the
  system in that round, that of \<open>SysfsPort\<close> for a number of rounds, and \<open>cat\<close> over a list of calls. A text is at most 4096 characters (shorter than 64 in most modules),
  so that many calls of at least one byte reach its end. The loops over the list and of \<open>MemoryTest\<close>
  that may not end are option-valued; the recursions of the other theories are on the data or
  have a measure.

  Not modelled. LVGL itself: a refresh writes any bytes of a whole frame to the area LVGL was given and calls the flush callback with
  them. \<^verbatim>\<open>lv_conf.h\<close> and \<^verbatim>\<open>lv_drv_conf.h\<close> are its configuration. The branch for SDL
  only calls a library; the builds of the logger for microcontrollers need their SDK. The print of the memory monitor is
  never called. \<^verbatim>\<open>task8/main.c\<close> calls a
  model that is commented out as a whole, and \<^verbatim>\<open>task9/main.c\<close> is empty. The further copies of
  \<^verbatim>\<open>linked_list.h\<close> and \<^verbatim>\<open>fonts.c\<close> are the same text as the ones modelled. Text that is only
  logged is left out in most modules. Interrupts and
  concurrent calls are modelled only for the threads of \<^verbatim>\<open>task9\<close>, the works and the
  interrupts of \<^verbatim>\<open>exercise15\<close>, and the tick thread of the graphical application; elsewhere calls happen one after the other.
\<close>

end
